(* ===== verification/Prelude.thy ===== *)
theory Prelude
  imports Main "HOL-Library.Word" "HOL-Library.Monad_Syntax"
begin

text \<open>
  Shared vocabulary of the development: the machine integer types of the Windows headers,
  checked memory access, and the list, option and word lemmas that several components use.

  A C function that can dereference a bad pointer, index outside an allocation, call
  \<^verbatim>\<open>abort()\<close> or fail to return is modelled in the option monad: \<open>None\<close> is that
  failure, \<open>Some r\<close> is a normal return with result \<open>r\<close>.  Status codes such as
  \<^verbatim>\<open>STATUS_INVALID_PARAMETER\<close> are ordinary results.
\<close>

unbundle bit_operations_syntax

type_synonym u8 = "8 word"
type_synonym u16 = "16 word"
type_synonym u32 = "32 word"
type_synonym u64 = "64 word"

text \<open>\<open>faults\<close> collects the equations that reduce checked accesses in a known state.\<close>

named_theorems faults

section \<open>Checked array access\<close>

definition rd :: "'a list \<Rightarrow> nat \<Rightarrow> 'a option" where
  "rd xs i = (if i < length xs then Some (xs ! i) else None)"

definition wr :: "'a list \<Rightarrow> nat \<Rightarrow> 'a \<Rightarrow> 'a list option" where
  "wr xs i v = (if i < length xs then Some (xs[i := v]) else None)"

lemma rd_Some [faults]: "i < length xs \<Longrightarrow> rd xs i = Some (xs ! i)"
  by (simp add: rd_def)

lemma rd_None [faults]: "\<not> i < length xs \<Longrightarrow> rd xs i = None"
  by (simp add: rd_def)

lemma wr_Some [faults]: "i < length xs \<Longrightarrow> wr xs i v = Some (xs[i := v])"
  by (simp add: wr_def)

lemma wr_None [faults]: "\<not> i < length xs \<Longrightarrow> wr xs i v = None"
  by (simp add: wr_def)

lemma rd_eq_Some_iff: "rd xs i = Some v \<longleftrightarrow> i < length xs \<and> v = xs ! i"
  by (auto simp: rd_def)

lemma wr_eq_Some_iff: "wr xs i v = Some ys \<longleftrightarrow> i < length xs \<and> ys = xs[i := v]"
  by (auto simp: wr_def)

section \<open>Words\<close>

abbreviation MAXULONG :: u32 where "MAXULONG \<equiv> 0xffffffff"

lemma unat_u32_less: "unat (w :: u32) < 2 ^ 32"
  using unsigned_less [of w] by simp

lemma unat_add_u32: "unat a + unat b < 2 ^ 32 \<Longrightarrow> unat (a + b) = unat a + unat b"
  for a b :: u32
  by (simp add: unat_word_ariths)

lemma unat_sub_u32: "b \<le> a \<Longrightarrow> unat (a - b) = unat a - unat b"
  for a b :: u32
  by (rule unat_sub)

lemma unat_of_nat_u32: "n < 2 ^ 32 \<Longrightarrow> unat (of_nat n :: u32) = n"
  by (simp add: unat_of_nat take_bit_eq_mod)

lemma unat_div_32: "unat (w div 32 :: u32) = unat w div 32"
  by (simp add: unat_div_distrib)

lemma unat_and_31: "unat (w AND 31 :: u32) = unat w mod 32"
proof -
  have m: "(mask 5 :: u32) = 31" by (simp add: mask_eq_exp_minus_1)
  have "unat (w AND mask 5) = take_bit 5 (unat w)"
    by (simp only: take_bit_eq_mask [symmetric] unsigned_take_bit_eq)
  then show ?thesis unfolding m by (simp add: take_bit_eq_mod)
qed

lemma unat_drop_bit_u32: "unat (drop_bit n w :: u32) = unat w div 2 ^ n"
proof -
  have "unat (drop_bit n w) = drop_bit n (take_bit LENGTH(32) (unat w))"
    by (rule unsigned_drop_bit_eq)
  also have "take_bit LENGTH(32) (unat w) = unat w"
    using unat_u32_less [of w] by (simp add: take_bit_nat_eq_self)
  finally show ?thesis by (simp only: drop_bit_eq_div)
qed

lemma MAXULONG_top [simp]: "w \<le> MAXULONG" for w :: u32
proof -
  have "unat w \<le> 2 ^ 32 - 1" using unat_u32_less [of w] by linarith
  then show ?thesis by (simp add: word_le_nat_alt)
qed

lemma bit_MAXULONG: "bit (0xffffffff :: u32) n \<longleftrightarrow> n < 32"
proof -
  have "(0xffffffff :: u32) = - 1" by simp
  then show ?thesis by (simp only: bit_minus_1_iff) (simp add: possible_bit_def)
qed

lemma bit_int_MAXULONG [simp]: "bit (0xffffffff :: int) n \<longleftrightarrow> n < 32"
proof -
  have "(0xffffffff :: int) = mask 32" by (simp add: mask_eq_exp_minus_1)
  then show ?thesis by (simp only: bit_mask_iff) (simp add: possible_bit_def)
qed

end
