(* ===== verification/Byte_Memory.thy ===== *)
theory Byte_Memory
  imports Prelude
begin

text \<open>
  Flat memory for the code that casts pointers: a list of bytes, an address is an index.
  Accesses outside the list are \<open>None\<close>.  Words are little endian.  A null pointer is address
  \<open>0\<close>; no object lies there.
\<close>

type_synonym mem = "u8 list"

definition ld8 :: "mem \<Rightarrow> nat \<Rightarrow> u8 option" where "ld8 m a = rd m a"

definition ld16 :: "mem \<Rightarrow> nat \<Rightarrow> u16 option" where
  "ld16 m a = do { lo \<leftarrow> ld8 m a; hi \<leftarrow> ld8 m (a + 1); Some (ucast lo + 0x100 * ucast hi) }"

definition ld32 :: "mem \<Rightarrow> nat \<Rightarrow> u32 option" where
  "ld32 m a = do { lo \<leftarrow> ld16 m a; hi \<leftarrow> ld16 m (a + 2); Some (ucast lo + 0x10000 * ucast hi) }"

definition ld64 :: "mem \<Rightarrow> nat \<Rightarrow> u64 option" where
  "ld64 m a = do { lo \<leftarrow> ld32 m a; hi \<leftarrow> ld32 m (a + 4); Some (ucast lo + 0x100000000 * ucast hi) }"

definition st8 :: "mem \<Rightarrow> nat \<Rightarrow> u8 \<Rightarrow> mem option" where "st8 m a v = wr m a v"

definition st16 :: "mem \<Rightarrow> nat \<Rightarrow> u16 \<Rightarrow> mem option" where
  "st16 m a v = do { m \<leftarrow> st8 m a (ucast v); st8 m (a + 1) (ucast (drop_bit 8 v)) }"

definition st32 :: "mem \<Rightarrow> nat \<Rightarrow> u32 \<Rightarrow> mem option" where
  "st32 m a v = do { m \<leftarrow> st16 m a (ucast v); st16 m (a + 2) (ucast (drop_bit 16 v)) }"

definition st64 :: "mem \<Rightarrow> nat \<Rightarrow> u64 \<Rightarrow> mem option" where
  "st64 m a v = do { m \<leftarrow> st32 m a (ucast v); st32 m (a + 4) (ucast (drop_bit 32 v)) }"

definition bytes_at :: "mem \<Rightarrow> nat \<Rightarrow> nat \<Rightarrow> u8 list option" where
  "bytes_at m a n = (if a + n \<le> length m then Some (take n (drop a m)) else None)"

definition put_bytes :: "mem \<Rightarrow> nat \<Rightarrow> u8 list \<Rightarrow> mem option" where
  "put_bytes m a bs =
     (if a + length bs \<le> length m then Some (take a m @ bs @ drop (a + length bs) m) else None)"

definition memmove :: "mem \<Rightarrow> nat \<Rightarrow> nat \<Rightarrow> nat \<Rightarrow> mem option" where
  "memmove m dst src n = do { bs \<leftarrow> bytes_at m src n; put_bytes m dst bs }"

text \<open>\<^verbatim>\<open>memcpy\<close> is undefined on overlapping ranges.\<close>

definition memcpy :: "mem \<Rightarrow> nat \<Rightarrow> nat \<Rightarrow> nat \<Rightarrow> mem option" where
  "memcpy m dst src n =
     (if n = 0 \<or> dst + n \<le> src \<or> src + n \<le> dst then memmove m dst src n else None)"

section \<open>Lemmas\<close>

lemma ld_defined:
  "a < length m \<Longrightarrow> \<exists>v. ld8 m a = Some v" "a + 1 < length m \<Longrightarrow> \<exists>v. ld16 m a = Some v"
  "a + 3 < length m \<Longrightarrow> \<exists>v. ld32 m a = Some v"
  by (auto simp: ld8_def ld16_def ld32_def faults)

lemma st_length:
  "st8 m a v8 = Some m' \<Longrightarrow> length m' = length m" "st16 m a v16 = Some m' \<Longrightarrow> length m' = length m"
  "st32 m a v32 = Some m' \<Longrightarrow> length m' = length m"
  by (auto simp: st8_def st16_def st32_def wr_eq_Some_iff bind_eq_Some_conv)

lemma put_bytes_length: "put_bytes m a bs = Some m' \<Longrightarrow> length m' = length m"
  by (auto simp: put_bytes_def split: if_splits)

text \<open>A load sees the bytes of the last store, or what was there before.\<close>

lemma ld8_st8: "st8 m a v = Some m' \<Longrightarrow> ld8 m' b = (if b = a then Some v else ld8 m b)"
  by (auto simp: st8_def ld8_def wr_eq_Some_iff rd_def)

lemma ld8_put_bytes:
  "put_bytes m a bs = Some m' \<Longrightarrow>
     ld8 m' b = (if a \<le> b \<and> b < a + length bs then Some (bs ! (b - a)) else ld8 m b)"
  by (auto simp: put_bytes_def ld8_def rd_def nth_append split: if_splits)

lemma word16_halves: "(ucast (ucast v :: u8) :: u16) + 0x100 * ucast (ucast (drop_bit 8 v) :: u8) = v" for v :: u16
proof (rule word_unat_eq_iff [THEN iffD2])
  have v: "unat v < 65536" using unsigned_less [of v] by simp
  have "unat (ucast (ucast v :: u8) :: u16) = unat v mod 256"
    by (simp add: unsigned_ucast_eq take_bit_eq_mod unat_mod_distrib)
  moreover have "unat (ucast (ucast (drop_bit 8 v) :: u8) :: u16) = unat v div 256"
    using v by (simp add: unsigned_ucast_eq unsigned_drop_bit_eq take_bit_eq_mod drop_bit_eq_div unat_mod_distrib unat_div_distrib)
  ultimately show "unat ((ucast (ucast v :: u8) :: u16) + 0x100 * ucast (ucast (drop_bit 8 v) :: u8)) = unat v"
    using v by (simp add: unat_word_ariths)
qed

lemma ld16_st16: "st16 m a v = Some m' \<Longrightarrow> ld16 m' a = Some v"
  by (auto simp: st16_def ld16_def bind_eq_Some_conv ld8_st8 word16_halves)

lemma ld8_st16: "st16 m a v = Some m' \<Longrightarrow> b < a \<or> a + 2 \<le> b \<Longrightarrow> ld8 m' b = ld8 m b"
  by (auto simp: st16_def bind_eq_Some_conv ld8_st8)

lemma ld8_st32: "st32 m a v = Some m' \<Longrightarrow> b < a \<or> a + 4 \<le> b \<Longrightarrow> ld8 m' b = ld8 m b"
  by (auto simp: st32_def bind_eq_Some_conv ld8_st16)

lemma ld16_cong: "ld8 m' a = ld8 m a \<Longrightarrow> ld8 m' (a + 1) = ld8 m (a + 1) \<Longrightarrow> ld16 m' a = ld16 m a"
  by (simp add: ld16_def)

lemma word32_halves: "(ucast (ucast v :: u16) :: u32) + 0x10000 * ucast (ucast (drop_bit 16 v) :: u16) = v" for v :: u32
proof (rule word_unat_eq_iff [THEN iffD2])
  have v: "unat v < 4294967296" using unsigned_less [of v] by simp
  have "unat (ucast (ucast v :: u16) :: u32) = unat v mod 65536"
    by (simp add: unsigned_ucast_eq take_bit_eq_mod unat_mod_distrib)
  moreover have "unat (ucast (ucast (drop_bit 16 v) :: u16) :: u32) = unat v div 65536"
    using v by (simp add: unsigned_ucast_eq unsigned_drop_bit_eq take_bit_eq_mod drop_bit_eq_div unat_mod_distrib unat_div_distrib)
  ultimately show "unat ((ucast (ucast v :: u16) :: u32) + 0x10000 * ucast (ucast (drop_bit 16 v) :: u16)) = unat v"
    using v by (simp add: unat_word_ariths)
qed

lemma ld16_st16_other: "st16 m a v = Some m' \<Longrightarrow> b + 2 \<le> a \<or> a + 2 \<le> b \<Longrightarrow> ld16 m' b = ld16 m b"
  by (rule ld16_cong) (auto intro: ld8_st16)

lemma ld32_cong: "ld16 m' a = ld16 m a \<Longrightarrow> ld16 m' (a + 2) = ld16 m (a + 2) \<Longrightarrow> ld32 m' a = ld32 m a"
  by (simp add: ld32_def)

lemma ld32_st32: "st32 m a v = Some m' \<Longrightarrow> ld32 m' a = Some v"
  by (auto simp: st32_def ld32_def bind_eq_Some_conv word32_halves ld16_st16_other ld16_st16
      simp del: add_2_eq_Suc')

lemma ld32_st32_other: "st32 m a v = Some m' \<Longrightarrow> b + 4 \<le> a \<or> a + 4 \<le> b \<Longrightarrow> ld32 m' b = ld32 m b"
  by (rule ld32_cong; rule ld16_cong) (auto intro: ld8_st32)

lemma st32_defined: "a + 4 \<le> length m \<Longrightarrow> \<exists>m'. st32 m a v = Some m'"
  by (auto simp: st32_def st16_def st8_def faults)

lemma ld32_defined: "a + 4 \<le> length m \<Longrightarrow> \<exists>v. ld32 m a = Some v"
  by (rule ld_defined) simp

lemma nth_ld8: "length m' = length m \<Longrightarrow> (\<And>i. a \<le> i \<Longrightarrow> ld8 m' i = ld8 m i) \<Longrightarrow> drop a m' = drop a m"
  by (rule nth_equalityI) (force simp: ld8_def rd_def split: if_splits)+

section \<open>64-bit loads and stores\<close>

lemma word64_halves: "(ucast (ucast v :: u32) :: u64) + 0x100000000 * ucast (ucast (drop_bit 32 v) :: u32) = v" for v :: u64
proof (rule word_unat_eq_iff [THEN iffD2])
  have v: "unat v < 18446744073709551616" using unsigned_less [of v] by simp
  have "unat (ucast (ucast v :: u32) :: u64) = unat v mod 4294967296"
    by (simp add: unsigned_ucast_eq take_bit_eq_mod unat_mod_distrib)
  moreover have "unat (ucast (ucast (drop_bit 32 v) :: u32) :: u64) = unat v div 4294967296"
    using v by (simp add: unsigned_ucast_eq unsigned_drop_bit_eq take_bit_eq_mod drop_bit_eq_div unat_mod_distrib unat_div_distrib)
  ultimately show "unat ((ucast (ucast v :: u32) :: u64) + 0x100000000 * ucast (ucast (drop_bit 32 v) :: u32)) = unat v"
    using v by (simp add: unat_word_ariths)
qed

lemma ld64_st64: "st64 m a v = Some m' \<Longrightarrow> ld64 m' a = Some v"
  by (auto simp: st64_def ld64_def bind_eq_Some_conv word64_halves ld32_st32_other ld32_st32)

lemma ld8_st64: "st64 m a v = Some m' \<Longrightarrow> b < a \<or> a + 8 \<le> b \<Longrightarrow> ld8 m' b = ld8 m b"
  by (auto simp: st64_def bind_eq_Some_conv ld8_st32)

lemma ld32_same:
  assumes "\<And>i. i < 4 \<Longrightarrow> ld8 m' (a + i) = ld8 m (a + i)"
  shows "ld32 m' a = ld32 m a"
  using assms [of 0] assms [of 1] assms [of 2] assms [of 3] by (simp add: ld32_def ld16_def numeral_3_eq_3)

lemma ld64_same:
  assumes "\<And>i. i < 8 \<Longrightarrow> ld8 m' (a + i) = ld8 m (a + i)"
  shows "ld64 m' a = ld64 m a"
proof -
  have "ld32 m' a = ld32 m a" by (rule ld32_same) (use assms in auto)
  moreover have "ld32 m' (a + 4) = ld32 m (a + 4)"
    by (rule ld32_same) (use assms [of "4 + _"] in \<open>simp add: add.assoc\<close>)
  ultimately show ?thesis by (simp add: ld64_def)
qed

lemma st64_length: "st64 m a v = Some m' \<Longrightarrow> length m' = length m"
  by (auto simp: st64_def bind_eq_Some_conv dest!: st_length(3))

lemma ld64_st64_other: "st64 m a v = Some m' \<Longrightarrow> b + 8 \<le> a \<or> a + 8 \<le> b \<Longrightarrow> ld64 m' b = ld64 m b"
  by (rule ld64_same) (auto intro: ld8_st64)

lemma ld64_put_bytes_other:
  "put_bytes m a bs = Some m' \<Longrightarrow> b + 8 \<le> a \<or> a + length bs \<le> b \<Longrightarrow> ld64 m' b = ld64 m b"
  by (rule ld64_same) (auto simp: ld8_put_bytes)

lemma ld32_st8_other: "st8 m a v = Some m' \<Longrightarrow> b + 4 \<le> a \<or> a < b \<Longrightarrow> ld32 m' b = ld32 m b"
  by (rule ld32_same) (auto simp: ld8_st8)

lemma ld64_st8_other: "st8 m a v = Some m' \<Longrightarrow> b + 8 \<le> a \<or> a < b \<Longrightarrow> ld64 m' b = ld64 m b"
  by (rule ld64_same) (auto simp: ld8_st8)

lemma ld32_st64_other: "st64 m a v = Some m' \<Longrightarrow> b + 4 \<le> a \<or> a + 8 \<le> b \<Longrightarrow> ld32 m' b = ld32 m b"
  by (rule ld32_same) (auto simp: ld8_st64)

section \<open>Regions\<close>

text \<open>Nothing changes outside a region.\<close>

definition writes_in :: "nat set \<Rightarrow> mem \<Rightarrow> mem \<Rightarrow> bool" where
  "writes_in S m m' \<longleftrightarrow> length m' = length m \<and> (\<forall>i. i \<notin> S \<longrightarrow> ld8 m' i = ld8 m i)"

lemma writes_in_refl [simp]: "writes_in S m m"
  by (simp add: writes_in_def)

lemma writes_in_trans: "writes_in S m m' \<Longrightarrow> writes_in S m' m'' \<Longrightarrow> writes_in S m m''"
  by (simp add: writes_in_def)

lemma writes_in_mono: "writes_in S m m' \<Longrightarrow> S \<subseteq> T \<Longrightarrow> writes_in T m m'"
  by (auto simp: writes_in_def)

lemma writes_in_st:
  "st8 m a v8 = Some m' \<Longrightarrow> writes_in {a..<a + 1} m m'" "st16 m a v16 = Some m' \<Longrightarrow> writes_in {a..<a + 2} m m'"
  "st32 m a v32 = Some m' \<Longrightarrow> writes_in {a..<a + 4} m m'" "st64 m a v64 = Some m' \<Longrightarrow> writes_in {a..<a + 8} m m'"
  "put_bytes m a bs = Some m' \<Longrightarrow> writes_in {a..<a + length bs} m m'"
  by (auto simp: writes_in_def st_length st64_length put_bytes_length ld8_put_bytes
      intro: ld8_st8 [THEN trans] ld8_st16 ld8_st32 ld8_st64 split: if_splits)

text \<open>What a routine leaves alone: all bytes before \<open>a\<close> and from \<open>b\<close> on.\<close>

definition writes_within :: "nat \<Rightarrow> nat \<Rightarrow> mem \<Rightarrow> mem \<Rightarrow> bool" where
  "writes_within a b m m' \<longleftrightarrow> length m' = length m \<and> (\<forall>i. i < a \<or> b \<le> i \<longrightarrow> ld8 m' i = ld8 m i)"

lemma writes_within_refl [simp]: "writes_within a b m m"
  by (simp add: writes_within_def)

lemma writes_within_trans: "writes_within a b m m' \<Longrightarrow> writes_within a b m' m'' \<Longrightarrow> writes_within a b m m''"
  by (simp add: writes_within_def)

lemma writes_within_st32: "st32 m x v = Some m' \<Longrightarrow> a \<le> x \<Longrightarrow> x + 4 \<le> b \<Longrightarrow> writes_within a b m m'"
  by (auto simp: writes_within_def st_length intro: ld8_st32)

lemma writes_within_put_bytes:
  "put_bytes m x bs = Some m' \<Longrightarrow> a \<le> x \<Longrightarrow> x + length bs \<le> b \<Longrightarrow> writes_within a b m m'"
  by (auto simp: writes_within_def put_bytes_length ld8_put_bytes)

end
