(* ===== verification/Pe_Loader.thy ===== *)
theory Pe_Loader
  imports Byte_Memory
begin

text \<open>
  \<open>setup_nloader\<close> of \<^verbatim>\<open>loader.c\<close>, up to the set-up of the TEB: the checks of the headers of a
  native PE executable, the mapping of its sections, the binding of its imports to stubs and the
  page protections.  The layouts are those of the 64-bit build (\<^verbatim>\<open>PE32+\<close>).

  The file is a list of bytes.  The image is the memory that \<^verbatim>\<open>mmap\<close> hands out at the image base,
  whole pages of zeros; an address in it is an offset.  What the operating system and the
  assembler part answer is a parameter, the record \<open>host\<close>.  A read or a write outside the image
  is \<open>None\<close>; each \<^verbatim>\<open>return NULL\<close> is an \<open>Inl\<close> with the message in front of it.
\<close>

section \<open>Data\<close>

record pe_image_file_hdr =
  hdr_Magic :: u32
  hdr_Machine :: u16
  hdr_NumberOfSections :: u16
  hdr_SizeOfOptionalHeader :: u16

record pe_image_optional_hdr64 =
  opt_Magic :: u16
  opt_AddressOfEntryPoint :: u32
  opt_ImageBase :: u64
  opt_SectionAlignment :: u32
  opt_FileAlignment :: u32
  opt_SizeOfHeaders :: u32
  opt_Subsystem :: u16
  opt_NumberOfRvaAndSizes :: u32
  opt_ImportAddress :: u32 \<comment> \<open>\<^verbatim>\<open>DataDirectory[1].VirtualAddress\<close>\<close>
  opt_ImportSize :: u32

record pe_image_section_hdr =
  sec_VirtualSize :: u32
  sec_VirtualAddress :: u32
  sec_SizeOfRawData :: u32
  sec_PointerToRawData :: u32
  sec_Characteristics :: u32

definition file_hdr_of :: "mem \<Rightarrow> pe_image_file_hdr option" where
  "file_hdr_of b = do {
     m \<leftarrow> ld32 b 0; mach \<leftarrow> ld16 b 4; n \<leftarrow> ld16 b 6; s \<leftarrow> ld16 b 20;
     Some \<lparr>hdr_Magic = m, hdr_Machine = mach, hdr_NumberOfSections = n, hdr_SizeOfOptionalHeader = s\<rparr>
   }"

definition optional_hdr_of :: "mem \<Rightarrow> pe_image_optional_hdr64 option" where
  "optional_hdr_of b = do {
     m \<leftarrow> ld16 b 0; ep \<leftarrow> ld32 b 16; base \<leftarrow> ld64 b 24; sa \<leftarrow> ld32 b 32; fa \<leftarrow> ld32 b 36;
     sh \<leftarrow> ld32 b 60; sub \<leftarrow> ld16 b 68; n \<leftarrow> ld32 b 108; ia \<leftarrow> ld32 b 120; isz \<leftarrow> ld32 b 124;
     Some \<lparr>opt_Magic = m, opt_AddressOfEntryPoint = ep, opt_ImageBase = base, opt_SectionAlignment = sa,
       opt_FileAlignment = fa, opt_SizeOfHeaders = sh, opt_Subsystem = sub, opt_NumberOfRvaAndSizes = n,
       opt_ImportAddress = ia, opt_ImportSize = isz\<rparr>
   }"

definition section_hdr_of :: "mem \<Rightarrow> nat \<Rightarrow> pe_image_section_hdr option" where
  "section_hdr_of b a = do {
     vs \<leftarrow> ld32 b (a + 8); va \<leftarrow> ld32 b (a + 12); rs \<leftarrow> ld32 b (a + 16); rp \<leftarrow> ld32 b (a + 20); c \<leftarrow> ld32 b (a + 36);
     Some \<lparr>sec_VirtualSize = vs, sec_VirtualAddress = va, sec_SizeOfRawData = rs, sec_PointerToRawData = rp,
       sec_Characteristics = c\<rparr>
   }"

text \<open>The first entries of the array \<^verbatim>\<open>sections\<close>.\<close>

fun section_hdrs_of :: "mem \<Rightarrow> nat \<Rightarrow> nat \<Rightarrow> pe_image_section_hdr list option" where
  "section_hdrs_of b a 0 = Some []"
| "section_hdrs_of b a (Suc n) = do { s \<leftarrow> section_hdr_of b a; ss \<leftarrow> section_hdrs_of b (a + 40) n; Some (s # ss) }"

datatype load_error =
    ReadMagic | BadMz | ReadOffset | ReadHdr | BadPe | BadArch | BadSectionCount | OptTooSmall
  | ReadOpt | BadOptMagic | NotNative | BadDirCount | UnalignedBase | UnalignedSections
  | ReadSections | MmapImage | ReadSection | ImportOut | Borland | ThunkOut | NoMemory
  | MmapStubs | ApiAddressOut | ProtectStubs | ReadHeader | ProtectHeader | ProtectSections

type_synonym 'a loading = "(load_error + 'a) option"

record host =
  page_size :: u32
  mmap_image :: "u64 \<Rightarrow> u32 \<Rightarrow> bool" \<comment> \<open>whether a fixed mapping succeeds\<close>
  mmap_stubs :: "u32 \<Rightarrow> u64 option"
  mprotect_ok :: "u64 \<Rightarrow> u32 \<Rightarrow> u32 \<Rightarrow> bool"
  malloc_ok :: "nat \<Rightarrow> bool"
  sizeof_stub :: u32
  stub_dispatch :: u64

record nl_export =
  exp_dll :: "u8 list"
  exp_name :: "u8 list"
  exp_func :: u64

section \<open>The macros\<close>

definition PEALIGN :: "u32 \<Rightarrow> u32 \<Rightarrow> u32" where
  "PEALIGN v a = (if a \<noteq> 0 then (v div a) * a else v)"

definition PESALIGN :: "u32 \<Rightarrow> u32 \<Rightarrow> u32" where
  "PESALIGN v a = (if a \<noteq> 0 then (v div a + (if v mod a \<noteq> 0 then 1 else 0)) * a else v)"

text \<open>On offsets into the image: \<^verbatim>\<open>bb\<close> is \<open>0\<close>.\<close>

definition CLI_ISCONTAINED :: "u32 \<Rightarrow> nat \<Rightarrow> nat \<Rightarrow> bool" where
  "CLI_ISCONTAINED bb_size sb sb_size \<longleftrightarrow>
     bb_size > 0 \<and> sb_size > 0 \<and> sb_size \<le> unat bb_size \<and> sb + sb_size \<le> unat bb_size \<and>
     sb + sb_size > 0 \<and> sb < unat bb_size"

text \<open>
  \<^verbatim>\<open>GETB\<close> on a buffer: what the buffer holds afterwards and the new offset.  The value of the
  macro is that of its last operand, the offset: \<^verbatim>\<open>!GETB(...)\<close> is \<open>offset = 0\<close>.
\<close>

definition GETB :: "mem \<Rightarrow> nat \<Rightarrow> nat \<Rightarrow> mem \<Rightarrow> mem \<times> nat" where
  "GETB file offset n dest =
     (if offset + n > length file then dest else take n (drop offset file) @ drop n dest, offset + n)"

section \<open>The headers\<close>

record headers =
  pe_off :: u32
  pe_hdr :: pe_image_file_hdr
  pe_opt :: pe_image_optional_hdr64
  sections :: "pe_image_section_hdr list"

definition check_file_hdr :: "pe_image_file_hdr \<Rightarrow> load_error option" where
  "check_file_hdr h =
     (if hdr_Magic h \<noteq> 0x4550 then Some BadPe
      else if hdr_Machine h \<noteq> 0x8664 then Some BadArch
      else if hdr_NumberOfSections h = 0 \<or> hdr_NumberOfSections h > 16 then Some BadSectionCount
      else if hdr_SizeOfOptionalHeader h < 240 then Some OptTooSmall
      else None)"

definition check_optional_hdr :: "host \<Rightarrow> pe_image_optional_hdr64 \<Rightarrow> load_error option" where
  "check_optional_hdr H h =
     (if opt_Magic h \<noteq> 0x20b then Some BadOptMagic
      else if opt_Subsystem h \<noteq> 1 then Some NotNative
      else if opt_NumberOfRvaAndSizes h \<noteq> 16 then Some BadDirCount
      else if opt_ImageBase h mod ucast (page_size H) \<noteq> 0 then Some UnalignedBase
      else if opt_SectionAlignment h mod page_size H \<noteq> 0 then Some UnalignedSections
      else None)"

definition read_headers :: "host \<Rightarrow> mem \<Rightarrow> headers loading" where
  "read_headers H file = do {
     let (b, offset) = GETB file 0 4 (replicate 4 0);
     off \<leftarrow> ld32 b 0;
     if offset = 0 then Some (Inl ReadMagic)
     else if off AND 0xffff \<noteq> 0x5a4d then Some (Inl BadMz)
     else do {
       let (b, offset) = GETB file 0x3c 4 b;
       off \<leftarrow> ld32 b 0;
       if offset = 0 then Some (Inl ReadOffset)
       else do {
         let (b, offset) = GETB file (unat off) 24 (replicate 24 0);
         hdr \<leftarrow> file_hdr_of b;
         if offset = 0 then Some (Inl ReadHdr)
         else case check_file_hdr hdr of Some e \<Rightarrow> Some (Inl e) | None \<Rightarrow> do {
           let (b, offset) = GETB file offset 240 (replicate 240 0);
           opt \<leftarrow> optional_hdr_of b;
           if offset = 0 then Some (Inl ReadOpt)
           else case check_optional_hdr H opt of Some e \<Rightarrow> Some (Inl e) | None \<Rightarrow> do {
             let n = unat (hdr_NumberOfSections hdr);
             let (b, offset) = GETB file offset (40 * n) (replicate 640 0);
             secs \<leftarrow> section_hdrs_of b 0 n;
             if offset = 0 then Some (Inl ReadSections)
             else Some (Inr \<lparr>pe_off = off, pe_hdr = hdr, pe_opt = opt, sections = secs\<rparr>)
           }
         }
       }
     }
   }"

section \<open>The sections\<close>

definition sec_rva :: "pe_image_optional_hdr64 \<Rightarrow> pe_image_section_hdr \<Rightarrow> u32" where
  "sec_rva opt s = PEALIGN (sec_VirtualAddress s) (opt_SectionAlignment opt)"

definition sec_vsz :: "pe_image_optional_hdr64 \<Rightarrow> pe_image_section_hdr \<Rightarrow> u32" where
  "sec_vsz opt s = PESALIGN (sec_VirtualSize s) (opt_SectionAlignment opt)"

definition sec_raw :: "pe_image_optional_hdr64 \<Rightarrow> pe_image_section_hdr \<Rightarrow> u32" where
  "sec_raw opt s = PEALIGN (sec_PointerToRawData s) (opt_FileAlignment opt)"

definition sec_rsz :: "pe_image_optional_hdr64 \<Rightarrow> pe_image_section_hdr \<Rightarrow> u32" where
  "sec_rsz opt s = PESALIGN (sec_SizeOfRawData s) (opt_FileAlignment opt)"

text \<open>\<open>min_rva\<close> and \<open>image_size\<close>.\<close>

fun image_extent :: "pe_image_optional_hdr64 \<Rightarrow> pe_image_section_hdr list \<Rightarrow> u32 \<Rightarrow> u32 \<Rightarrow> u32 \<times> u32" where
  "image_extent opt [] min_rva image_size = (min_rva, image_size)"
| "image_extent opt (s # ss) min_rva image_size =
     image_extent opt ss (if sec_rva opt s < min_rva then sec_rva opt s else min_rva)
       (if image_size < sec_rva opt s + sec_vsz opt s then sec_rva opt s + sec_vsz opt s else image_size)"

text \<open>\<^verbatim>\<open>GETB\<close> into the image.\<close>

definition GETB_image :: "mem \<Rightarrow> nat \<Rightarrow> nat \<Rightarrow> mem \<Rightarrow> nat \<Rightarrow> (mem \<times> nat) option" where
  "GETB_image file offset n img a =
     (if offset + n > length file then Some (img, offset + n)
      else do { img \<leftarrow> put_bytes img a (take n (drop offset file)); Some (img, offset + n) })"

fun map_sections :: "pe_image_optional_hdr64 \<Rightarrow> mem \<Rightarrow> pe_image_section_hdr list \<Rightarrow> mem \<Rightarrow> mem loading" where
  "map_sections opt file [] img = Some (Inr img)"
| "map_sections opt file (s # ss) img = do {
     (img, offset) \<leftarrow> GETB_image file (unat (sec_raw opt s)) (unat (sec_rsz opt s)) img (unat (sec_rva opt s));
     if offset = 0 then Some (Inl ReadSection) else map_sections opt file ss img
   }"

section \<open>Imports\<close>

text \<open>A C string in the image, without its terminator.\<close>

definition cstring :: "mem \<Rightarrow> nat \<Rightarrow> u8 list option" where
  "cstring m a = (let t = takeWhile (\<lambda>c. c \<noteq> 0) (drop a m) in if a + length t < length m then Some t else None)"

text \<open>\<^verbatim>\<open>sprintf(impname, "ord_%03u", ...)\<close>\<close>

fun decimal :: "nat \<Rightarrow> u8 list" where
  "decimal n = (if n < 10 then [of_nat (48 + n)] else decimal (n div 10) @ [of_nat (48 + n mod 10)])"

declare decimal.simps [simp del]

definition ordinal_name :: "u64 \<Rightarrow> u8 list" where
  "ordinal_name v =
     (let d = decimal (unat (ucast (v AND NOT 0x8000000000000000) :: u32))
      in [111, 114, 100, 95] @ replicate (3 - length d) 48 @ d)"

text \<open>The name of the library up to its last dot, cut to the buffer of 64 bytes.\<close>

definition dll_base :: "u8 list \<Rightarrow> u8 list" where
  "dll_base name =
     (let b = take 63 name
      in if 46 \<in> set b then rev (tl (dropWhile (\<lambda>c. c \<noteq> 46) (rev b))) else b)"

fun nl_resolve :: "nl_export list \<Rightarrow> u8 list \<Rightarrow> u8 list \<Rightarrow> u64" where
  "nl_resolve [] dll name = 0"
| "nl_resolve (e # es) dll name = (if exp_dll e = dll \<and> exp_name e = name then exp_func e else nl_resolve es dll name)"

record import_table =
  import_names :: "u8 list list"
  import_addrs :: "u64 list"
  thunks :: "nat list"

definition add_import :: "u8 list \<Rightarrow> u64 \<Rightarrow> nat \<Rightarrow> import_table \<Rightarrow> import_table" where
  "add_import fname api_addr addrs st =
     \<lparr>import_names = import_names st @ [fname], import_addrs = import_addrs st @ [api_addr], thunks = thunks st @ [addrs]\<rparr>"

text \<open>One library: the thunks from \<open>names\<close> on, up to the null one.\<close>

partial_function (option) import_functions ::
  "host \<Rightarrow> nl_export list \<Rightarrow> mem \<Rightarrow> u32 \<Rightarrow> u8 list \<Rightarrow> nat \<Rightarrow> nat \<Rightarrow> import_table \<Rightarrow> import_table loading" where
  "import_functions H exports img image_size dllname names addrs st = do {
     v \<leftarrow> ld64 img names;
     if v = 0 then Some (Inr st)
     else if \<not> CLI_ISCONTAINED image_size names 8 \<or> \<not> CLI_ISCONTAINED image_size addrs 8 then Some (Inl ThunkOut)
     else if v AND 0x8000000000000000 \<noteq> 0 \<and> \<not> malloc_ok H 15 then Some (Inl NoMemory)
     else do {
       impname \<leftarrow> (if v AND 0x8000000000000000 \<noteq> 0 then Some (ordinal_name v)
                   else cstring img (2 + unat (ucast v :: u32)));
       let nfuncs = length (thunks st) + 1;
       if \<not> malloc_ok H (length dllname + length impname + 2) then Some (Inl NoMemory)
       else if \<not> malloc_ok H (8 * nfuncs) then Some (Inl NoMemory)
       else import_functions H exports img image_size dllname (names + 8) (addrs + 8)
              (add_import (dllname @ [33] @ impname) (nl_resolve exports (dll_base dllname) impname) addrs st)
     }
   }"

text \<open>The libraries: \<open>va\<close> and \<open>remaining\<close> are the entry of the data directory as the loop counts it down.\<close>

partial_function (option) import_libraries ::
  "host \<Rightarrow> nl_export list \<Rightarrow> mem \<Rightarrow> u32 \<Rightarrow> u32 \<Rightarrow> u32 \<Rightarrow> import_table \<Rightarrow> import_table loading" where
  "import_libraries H exports img image_size va remaining st =
     (if remaining < 20 then Some (Inr st)
      else if \<not> CLI_ISCONTAINED image_size (unat va) 8 then Some (Inl ImportOut)
      else do {
        DllName \<leftarrow> ld32 img (unat va + 12);
        if DllName = 0 then Some (Inr st)
        else do {
          OrigThunk \<leftarrow> ld32 img (unat va);
          if OrigThunk = 0 then Some (Inl Borland)
          else do {
            Thunk \<leftarrow> ld32 img (unat va + 16);
            dllname \<leftarrow> cstring img (unat DllName);
            r \<leftarrow> import_functions H exports img image_size dllname (unat OrigThunk) (unat Thunk) st;
            case r of Inl e \<Rightarrow> Some (Inl e)
            | Inr st \<Rightarrow> import_libraries H exports img image_size (va + 20) (remaining - 20) st
          }
        }
      })"

section \<open>Stubs\<close>

definition emit_stub :: "host \<Rightarrow> mem \<Rightarrow> nat \<Rightarrow> u32 \<Rightarrow> mem option" where
  "emit_stub H stubs p idx = do {
     stubs \<leftarrow> st8 stubs p 0x68;
     stubs \<leftarrow> st32 stubs (p + 1) idx;
     stubs \<leftarrow> st8 stubs (p + 5) 0x49;
     stubs \<leftarrow> st8 stubs (p + 6) 0xbb;
     stubs \<leftarrow> st64 stubs (p + 7) (stub_dispatch H);
     stubs \<leftarrow> st8 stubs (p + 15) 0x41;
     stubs \<leftarrow> st8 stubs (p + 16) 0xff;
     st8 stubs (p + 17) 0xe3
   }"

text \<open>The loop over the functions: image and stubs.\<close>

fun patch_thunks :: "host \<Rightarrow> u32 \<Rightarrow> u64 \<Rightarrow> nat list \<Rightarrow> nat \<Rightarrow> mem \<Rightarrow> mem \<Rightarrow> (mem \<times> mem) loading" where
  "patch_thunks H image_size base [] i img stubs = Some (Inr (img, stubs))"
| "patch_thunks H image_size base (thunk # ts) i img stubs =
     (let p = unat (of_nat i * sizeof_stub H)
      in if \<not> CLI_ISCONTAINED image_size thunk 8 then Some (Inl ApiAddressOut)
         else do {
           stubs \<leftarrow> emit_stub H stubs p (of_nat i);
           img \<leftarrow> st64 img thunk (base + of_nat p);
           patch_thunks H image_size base ts (i + 1) img stubs
         })"

text \<open>
  The memory behind an anonymous mapping of \<open>n\<close> bytes: whole pages of zeros.  The kernel rounds
  a \<^verbatim>\<open>size_t\<close> up, so the sum does not wrap at 32 bits.
\<close>

definition page_round :: "nat \<Rightarrow> nat \<Rightarrow> nat" where
  "page_round page n = (if page = 0 then n else (n + (page - 1)) div page * page)"

definition fresh_pages :: "host \<Rightarrow> u32 \<Rightarrow> mem" where
  "fresh_pages H n = replicate (page_round (unat (page_size H)) (unat n)) 0"

definition patch_imports :: "host \<Rightarrow> u32 \<Rightarrow> import_table \<Rightarrow> mem \<Rightarrow> (mem \<times> u64 \<times> mem) loading" where
  "patch_imports H image_size st img =
     (let nfuncs = of_nat (length (thunks st)); stubslen = PESALIGN (nfuncs * sizeof_stub H) (page_size H)
      in if nfuncs = 0 then Some (Inr (img, 0, []))
         else case mmap_stubs H stubslen of None \<Rightarrow> Some (Inl MmapStubs)
         | Some base \<Rightarrow> do {
             r \<leftarrow> patch_thunks H image_size base (thunks st) 0 img (fresh_pages H stubslen);
             case r of Inl e \<Rightarrow> Some (Inl e)
             | Inr (img, stubs) \<Rightarrow>
                 Some (if mprotect_ok H base stubslen 5 then Inr (img, base, stubs) else Inl ProtectStubs)
           })"

section \<open>Protections\<close>

definition section_prot :: "pe_image_section_hdr \<Rightarrow> u32" where
  "section_prot s =
     (if sec_Characteristics s AND 0x20000000 \<noteq> 0 then 4 else 0) OR
     (if sec_Characteristics s AND 0x40000000 \<noteq> 0 then 1 else 0) OR
     (if sec_Characteristics s AND 0x80000000 \<noteq> 0 then 2 else 0)"

text \<open>The calls to \<^verbatim>\<open>mprotect\<close>: offset, length and protection.\<close>

fun protect_sections :: "host \<Rightarrow> pe_image_optional_hdr64 \<Rightarrow> pe_image_section_hdr list \<Rightarrow> (u32 \<times> u32 \<times> u32) list \<Rightarrow>
    (load_error + (u32 \<times> u32 \<times> u32) list)" where
  "protect_sections H opt [] prots = Inr prots"
| "protect_sections H opt (s # ss) prots =
     (if mprotect_ok H (opt_ImageBase opt + ucast (sec_rva opt s)) (sec_vsz opt s) (section_prot s)
      then protect_sections H opt ss (prots @ [(sec_rva opt s, sec_vsz opt s, section_prot s)])
      else Inl ProtectSections)"

section \<open>The whole\<close>

record loaded =
  l_headers :: headers
  l_image :: mem
  l_imports :: import_table
  l_stubs_base :: u64
  l_stubs :: mem
  l_prots :: "(u32 \<times> u32 \<times> u32) list"
  l_entry :: u64

definition map_image :: "host \<Rightarrow> headers \<Rightarrow> mem \<Rightarrow> (u32 \<times> u32 \<times> mem) loading" where
  "map_image H h file =
     (let (min_rva, image_size) = image_extent (pe_opt h) (sections h) 0xffffffff 0
      in if \<not> mmap_image H (opt_ImageBase (pe_opt h)) image_size then Some (Inl MmapImage)
         else do {
           r \<leftarrow> map_sections (pe_opt h) file (sections h) (fresh_pages H image_size);
           Some (case r of Inl e \<Rightarrow> Inl e | Inr img \<Rightarrow> Inr (min_rva, image_size, img))
         })"

definition map_header :: "host \<Rightarrow> headers \<Rightarrow> mem \<Rightarrow> u32 \<Rightarrow> mem \<Rightarrow> (u32 \<times> mem) loading" where
  "map_header H h file min_rva img = do {
     let len = (if min_rva < pe_off h + opt_SizeOfHeaders (pe_opt h) then min_rva
                else pe_off h + opt_SizeOfHeaders (pe_opt h));
     (img, offset) \<leftarrow> GETB_image file 0 (unat len) img 0;
     Some (if offset = 0 then Inl ReadHeader
           else if \<not> mprotect_ok H (opt_ImageBase (pe_opt h)) len 1 then Inl ProtectHeader
           else Inr (len, img))
   }"

definition setup_nloader :: "host \<Rightarrow> nl_export list \<Rightarrow> mem \<Rightarrow> loaded loading" where
  "setup_nloader H exports file = do {
     r \<leftarrow> read_headers H file;
     case r of Inl e \<Rightarrow> Some (Inl e) | Inr h \<Rightarrow> do {
     r \<leftarrow> map_image H h file;
     case r of Inl e \<Rightarrow> Some (Inl e) | Inr (min_rva, image_size, img) \<Rightarrow> do {
     r \<leftarrow> import_libraries H exports img image_size (opt_ImportAddress (pe_opt h)) (opt_ImportSize (pe_opt h))
            \<lparr>import_names = [], import_addrs = [], thunks = []\<rparr>;
     case r of Inl e \<Rightarrow> Some (Inl e) | Inr st \<Rightarrow> do {
     r \<leftarrow> patch_imports H image_size st img;
     case r of Inl e \<Rightarrow> Some (Inl e) | Inr (img, base, stubs) \<Rightarrow> do {
     r \<leftarrow> map_header H h file min_rva img;
     case r of Inl e \<Rightarrow> Some (Inl e) | Inr (len, img) \<Rightarrow>
     Some (case protect_sections H (pe_opt h) (sections h) [(0, len, 1)] of Inl e \<Rightarrow> Inl e
       | Inr prots \<Rightarrow> Inr \<lparr>l_headers = h, l_image = img, l_imports = st, l_stubs_base = base, l_stubs = stubs,
           l_prots = prots, l_entry = opt_ImageBase (pe_opt h) + ucast (opt_AddressOfEntryPoint (pe_opt h))\<rparr>)
   }}}}}"

section \<open>The log switch\<close>

text \<open>\<^verbatim>\<open>strtok(loglist, ",")\<close>: the non-empty parts between commas.\<close>

fun comma_parts :: "u8 list \<Rightarrow> u8 list \<Rightarrow> u8 list list" where
  "comma_parts acc [] = (if acc = [] then [] else [acc])"
| "comma_parts acc (c # cs) = (if c = 44 then (if acc = [] then [] else [acc]) @ comma_parts [] cs else comma_parts (acc @ [c]) cs)"

text \<open>The result: \<open>modules\<close> (\<open>None\<close> for null) and \<open>log_always\<close>.\<close>

definition InitLogModules :: "u8 list option \<Rightarrow> u8 list list option \<times> bool" where
  "InitLogModules env =
     (case env of None \<Rightarrow> (None, False)
      | Some s \<Rightarrow> (let p = comma_parts [] s in if p = [] then (None, False) else (Some p, [97, 108, 108] \<in> set p)))"

text \<open>Whether \<open>_LogModule\<close> prints: the loop breaks at the first name that lets it.\<close>

fun LogModule_prints :: "bool \<Rightarrow> u8 list list \<Rightarrow> u8 list \<Rightarrow> bool" where
  "LogModule_prints log_always [] m = False"
| "LogModule_prints log_always (x # xs) m = (if log_always \<or> x = m then True else LogModule_prints log_always xs m)"

end
