(* ===== verification/Pe_Sample.thy ===== *)
theory Pe_Sample
  imports Pe_Loader
begin

text \<open>
  A small executable for the loader of \<^verbatim>\<open>loader.c\<close>: one section of 56 bytes, one import (\<open>f\<close> of
  \<open>a.dll\<close>), on a host with pages of four bytes.  Its header starts at offset 4, so that the offset
  of the header and the section alignment are the same four bytes.
\<close>

definition sample_host :: host where
  "sample_host = \<lparr>page_size = 4, mmap_image = (\<lambda>_ _. True), mmap_stubs = (\<lambda>_. Some 0x7000),
     mprotect_ok = (\<lambda>_ _ _. True), malloc_ok = (\<lambda>_. True), sizeof_stub = 18, stub_dispatch = 0x1000\<rparr>"

definition sample_exports :: "nl_export list" where
  "sample_exports = [\<lparr>exp_dll = [97], exp_name = [102], exp_func = 0x1234\<rparr>]"

definition sample_section :: mem where
  "sample_section =
     [24, 0, 0, 0, 0, 0, 0, 0, 0, 0, 0, 0, 52, 0, 0, 0, 40, 0, 0, 0] @ \<comment> \<open>the import descriptor\<close>
     [48, 0, 0, 0, 0, 0, 0, 0] @ replicate 8 0 @ replicate 8 0 @ \<comment> \<open>names and addresses\<close>
     [0, 0, 102, 0] @ [97, 46, 100, 108, 108, 0, 0, 0]"

definition sample_file :: mem where
  "sample_file =
     [0x4d, 0x5a, 0, 0] @
     [0x50, 0x45, 0, 0, 0x64, 0x86, 1, 0] @ replicate 12 0 @ [0xf0, 0, 0, 0] @
     [0x0b, 2] @ replicate 14 0 @ [4, 0, 0, 0] @ replicate 4 0 @ [0, 0, 1, 0, 0, 0, 0, 0] @ [4, 0, 0, 0] @ [4, 0, 0, 0] @
     replicate 28 0 @ [1, 0] @ replicate 38 0 @ [16, 0, 0, 0] @ replicate 8 0 @ [4, 0, 0, 0, 20, 0, 0, 0] @ replicate 112 0 @
     replicate 8 0 @ [56, 0, 0, 0, 4, 0, 0, 0, 56, 0, 0, 0, 0x34, 1, 0, 0] @ replicate 12 0 @ [0x20, 0, 0, 0x60] @
     sample_section"

declare import_functions.simps [code] import_libraries.simps [code]

definition sample_headers :: headers where
  "sample_headers = \<lparr>pe_off = 4,
     pe_hdr = \<lparr>hdr_Magic = 0x4550, hdr_Machine = 0x8664, hdr_NumberOfSections = 1, hdr_SizeOfOptionalHeader = 240\<rparr>,
     pe_opt = \<lparr>opt_Magic = 0x20b, opt_AddressOfEntryPoint = 4, opt_ImageBase = 0x10000, opt_SectionAlignment = 4,
       opt_FileAlignment = 4, opt_SizeOfHeaders = 0, opt_Subsystem = 1, opt_NumberOfRvaAndSizes = 16,
       opt_ImportAddress = 4, opt_ImportSize = 20\<rparr>,
     sections = [\<lparr>sec_VirtualSize = 56, sec_VirtualAddress = 4, sec_SizeOfRawData = 56, sec_PointerToRawData = 308,
       sec_Characteristics = 0x60000020\<rparr>]\<rparr>"

lemma sample_read: "read_headers sample_host sample_file = Some (Inr sample_headers)"
  by code_simp

definition sample_stub :: mem where
  "sample_stub = [0x68, 0, 0, 0, 0, 0x49, 0xbb, 0, 0x10, 0, 0, 0, 0, 0, 0, 0x41, 0xff, 0xe3, 0, 0]"

definition sample_loaded :: loaded where
  "sample_loaded = \<lparr>l_headers = sample_headers,
     l_image = [0x4d, 0x5a, 0, 0] @ (sample_section[37 := 0x70]),
     l_imports = \<lparr>import_names = [[97, 46, 100, 108, 108, 33, 102]], import_addrs = [0x1234], thunks = [40]\<rparr>,
     l_stubs_base = 0x7000, l_stubs = sample_stub, l_prots = [(0, 4, 1), (4, 56, 5)], l_entry = 0x10004\<rparr>"

lemma sample_map: "map_image sample_host sample_headers sample_file = Some (Inr (4, 60, replicate 4 0 @ sample_section))"
  by code_simp

lemma sample_imports:
  "import_libraries sample_host sample_exports (replicate 4 0 @ sample_section) 60
     (opt_ImportAddress (pe_opt sample_headers)) (opt_ImportSize (pe_opt sample_headers))
     \<lparr>import_names = [], import_addrs = [], thunks = []\<rparr> = Some (Inr (l_imports sample_loaded))"
  by code_simp

lemma sample_patch:
  "patch_imports sample_host 60 (l_imports sample_loaded) (replicate 4 0 @ sample_section) =
     Some (Inr (replicate 4 0 @ (sample_section[37 := 0x70]), 0x7000, sample_stub))"
  by code_simp

lemma sample_header:
  "map_header sample_host sample_headers sample_file 4 (replicate 4 0 @ (sample_section[37 := 0x70])) =
     Some (Inr (4, l_image sample_loaded))"
  by code_simp

lemma sample_protect:
  "protect_sections sample_host (pe_opt sample_headers) (sections sample_headers) [(0, 4, 1)] = Inr [(0, 4, 1), (4, 56, 5)]"
  by code_simp

lemma sample_entry: "opt_ImageBase (pe_opt sample_headers) + ucast (opt_AddressOfEntryPoint (pe_opt sample_headers)) = 0x10004"
  by code_simp

lemma sample_loads: "setup_nloader sample_host sample_exports sample_file = Some (Inr sample_loaded)"
  by (simp add: setup_nloader_def sample_read sample_map sample_imports sample_patch sample_header sample_protect sample_entry)
    (simp add: sample_loaded_def)

end
