(* ===== verification/Exports.thy ===== *)
theory Exports
  imports Pe_Loader
begin

text \<open>
  The export tables of the two libraries the loader provides, \<^verbatim>\<open>libs/ntdll/exports.c\<close> and
  \<^verbatim>\<open>libs/bcd/exports.c\<close>: for each name a program can import the C function that serves it,
  in the groups of the files.  The linker gathers the entries into one array.
\<close>

section \<open>The tables\<close>

text \<open>\<^verbatim>\<open>NL_EXPORT\<close>: the function is exported under its own name.\<close>

definition same :: "string \<Rightarrow> string \<times> string" where
  "same f = (f, f)"

definition bits_exports :: "(string \<times> string) list" where
  "bits_exports = [
   same ''_chkstk'', same ''__chkstk'', same ''RtlAreBitsClear'', same ''RtlAreBitsSet'',
   same ''RtlClearAllBits'', same ''RtlClearBits'', same ''RtlFindClearBits'',
   same ''RtlFindClearBitsAndSet'', same ''RtlFindClearRuns'', same ''RtlFindLeastSignificantBit'',
   same ''RtlFindLongestRunClear'', same ''RtlFindMostSignificantBit'',
   same ''RtlFindNextForwardRunClear'', same ''RtlFindSetBits'', same ''RtlFindSetBitsAndClear'',
   same ''RtlInitializeBitMap'', same ''RtlNumberOfClearBits'', same ''RtlNumberOfSetBits'',
   same ''RtlSetAllBits'', same ''RtlSetBits'', same ''RtlTestBit'', same ''RtlComputeCrc32'',
   same ''RtlCrc32'', same ''RtlCrc64'']"

definition crt_exports :: "(string \<times> string) list" where
  "crt_exports = [
   (''_stricmp'', ''rpl__stricmp''), (''_strnicmp'', ''rpl__strnicmp''),
   (''_wcsicmp'', ''rpl__wcsicmp''), (''_wcslwr'', ''rpl__wcslwr''), (''_wcsnicmp'', ''rpl__wcsnicmp''),
   (''_wcsupr'', ''rpl__wcsupr''), (''_wtoi64'', ''rpl__wtoi64''), (''_wtol'', ''rpl__wtol''),
   (''atoi'', ''rpl_atoi''), (''atol'', ''rpl_atol''), (''_atoi64'', ''rpl__atoi64''),
   (''isprint'', ''rpl_isprint''), (''isspace'', ''rpl_isspace''), (''memcmp'', ''rpl_memcmp''),
   (''memcpy'', ''rpl_memcpy''), (''memmove'', ''rpl_memmove''), (''memset'', ''rpl_memset''),
   (''strncpy'', ''rpl_strncpy''), (''strpbrk'', ''rpl_strpbrk''), (''strspn'', ''rpl_strspn''),
   (''qsort'', ''rpl_qsort''), (''wcscat'', ''rpl_wcscat''), (''wcscat_s'', ''rpl_wcscat_s''),
   (''wcschr'', ''rpl_wcschr''), (''wcscmp'', ''rpl_wcscmp''), (''wcscpy'', ''rpl_wcscpy''),
   (''wcscpy_s'', ''rpl_wcscpy_s''), (''wcslen'', ''rpl_wcslen''), (''wcsncmp'', ''rpl_wcsncmp''),
   (''wcsrchr'', ''rpl_wcsrchr''), (''wcsspn'', ''rpl_wcsspn''), (''wcsstr'', ''rpl_wcsstr''),
   (''wcstoul'', ''rpl_wcstoul''), (''_wcstoui64'', ''rpl__wcstoui64'')]"

definition format_exports :: "(string \<times> string) list" where
  "format_exports = [
   same ''DbgPrint'', same ''DbgPrintEx'', (''_snwprintf'', ''rpl_swprintf_s''),
   (''_vsnprintf'', ''rpl__vsnprintf''), (''_vsnwprintf'', ''rpl__vsnwprintf''),
   (''sprintf'', ''rpl_sprintf''), (''swprintf'', ''rpl_swprintf''),
   (''swprintf_s'', ''rpl_swprintf_s'')]"

definition heap_exports :: "(string \<times> string) list" where
  "heap_exports = [
   same ''RtlAllocateHeap'', same ''RtlCreateHeap'', same ''RtlDestroyHeap'', same ''RtlFreeHeap'',
   same ''RtlReAllocateHeap'', same ''RtlSizeHeap'']"

definition math_exports :: "(string \<times> string) list" where
  "math_exports = [
   same ''RtlExtendedIntegerMultiply'', same ''RtlLargeIntegerDivide'',
   same ''RtlConvertLongToLargeInteger'', same ''_alldiv'', same ''_allmul'', same ''_allrem'',
   same ''_allshl'', same ''_aulldiv'', same ''_aullrem'', same ''_aullshr'']"

definition misc_exports :: "(string \<times> string) list" where
  "misc_exports = [
   same ''RtlDecompressBuffer'', same ''LdrGetDllHandle'', same ''LdrSetMUICacheType'',
   same ''NtAdjustPrivilegesToken'', same ''NtSetDefaultLocale'', same ''EtwEventRegister'',
   same ''EtwEventSetInformation'', same ''EtwEventUnregister'',
   same ''RtlSetLastWin32ErrorAndNtStatusFromNtStatus'']"

definition mm_exports :: "(string \<times> string) list" where
  "mm_exports = [
   same ''NtAllocateVirtualMemory'', (''ZwAllocateVirtualMemory'', ''NtAllocateVirtualMemory''),
   same ''NtFreeVirtualMemory'', (''ZwFreeVirtualMemory'', ''NtFreeVirtualMemory'')]"

definition io_exports :: "(string \<times> string) list" where
  "io_exports = [
   same ''NtCreateFile'', (''ZwCreateFile'', ''NtCreateFile''), same ''NtOpenFile'',
   (''ZwOpenFile'', ''NtOpenFile''), same ''NtReadFile'', (''ZwReadFile'', ''NtReadFile''),
   same ''NtWriteFile'', (''ZwWriteFile'', ''NtWriteFile''), same ''NtClose'',
   (''ZwClose'', ''NtClose''), same ''NtDeleteFile'', (''ZwDeleteFile'', ''NtDeleteFile''),
   same ''NtFlushBuffersFile'', (''ZwFlushBuffersFile'', ''NtFlushBuffersFile''),
   same ''NtCancelIoFile'', (''ZwNtCancelIoFile'', ''NtCancelIoFile''), same ''NtDeviceIoControlFile'',
   same ''NtFsControlFile'', same ''NtQueryInformationFile'', same ''NtQueryVolumeInformationFile'',
   same ''NtSetInformationFile'', same ''NtQueryDirectoryFile'',
   (''ZwQueryDirectoryFile'', ''NtQueryDirectoryFile''), same ''NtOpenDirectoryObject'',
   same ''NtQueryDirectoryObject'', same ''NtOpenSymbolicLinkObject'',
   same ''NtQuerySymbolicLinkObject'']"

definition sync_exports :: "(string \<times> string) list" where
  "sync_exports = [
   same ''NtCreateEvent'', same ''NtSetEvent'', same ''NtResetEvent'', same ''NtClearEvent'',
   (''ZwClearEvent'', ''NtClearEvent''), same ''NtOpenEvent'', (''ZwOpenEvent'', ''NtOpenEvent''),
   same ''NtWaitForSingleObject'', (''ZwWaitForSingleObject'', ''NtWaitForSingleObject''),
   same ''NtWaitForMultipleObjects'', (''ZwWaitForMultipleObjects'', ''NtWaitForMultipleObjects''),
   same ''NtDelayExecution'']"

definition thread_exports :: "(string \<times> string) list" where
  "thread_exports = [
   same ''NtQueryInformationThread'', same ''NtSetThreadExecutionState'', same ''NtTerminateThread'',
   (''ZwTerminateThread'', ''NtTerminateThread''), same ''NtTerminateProcess'',
   same ''RtlCreateUserThread'', same ''RtlDeleteCriticalSection'', same ''RtlEnterCriticalSection'',
   same ''RtlInitializeCriticalSection'', same ''RtlLeaveCriticalSection'',
   same ''RtlTryEnterCriticalSection'', same ''RtlAcquireSRWLockExclusive'',
   same ''RtlInitializeSRWLock'', same ''RtlReleaseSRWLockExclusive'']"

definition registry_exports :: "(string \<times> string) list" where
  "registry_exports = [
   same ''NtOpenKey'', (''ZwOpenKey'', ''NtOpenKey''), same ''NtQueryValueKey'',
   (''ZwQueryValueKey'', ''NtQueryValueKey''), same ''NtSetValueKey'',
   (''ZwSetValueKey'', ''NtSetValueKey''), same ''RtlQueryRegistryValues'',
   (''RtlQueryRegistryValuesEx'', ''RtlQueryRegistryValues''), same ''RtlWriteRegistryValue'']"

definition process_exports :: "(string \<times> string) list" where
  "process_exports = [
   same ''NtSetInformationProcess'', (''ZwSetInformationProcess'', ''NtSetInformationProcess''),
   same ''NtOpenProcessToken'', same ''NtOpenSection'', (''ZwOpenSection'', ''NtOpenSection''),
   same ''NtLoadDriver'', (''ZwLoadDriver'', ''NtLoadDriver''), same ''NtDisplayString'',
   (''NtDrawText'', ''NtDisplayString''), same ''NtShutdownSystem'',
   (''ZwShutdownSystem'', ''NtShutdownSystem''), same ''NtQueryPerformanceCounter'',
   same ''NtQuerySystemInformation'', same ''NtQuerySystemTime'', same ''NtSerializeBoot'']"

definition rtl_exports :: "(string \<times> string) list" where
  "rtl_exports = [
   same ''RtlSystemTimeToLocalTime'', same ''RtlRandom'', same ''RtlRandomEx'', same ''RtlUniform'',
   same ''RtlAdjustPrivilege'', same ''RtlAnsiStringToUnicodeString'',
   same ''RtlAnsiCharToUnicodeChar'', same ''RtlDosPathNameToNtPathName_U'',
   same ''RtlDosPathNameToNtPathName_U_WithStatus'', same ''RtlGetPersistedStateLocation'',
   same ''RtlGetSystemBootStatus'', same ''RtlSetSystemBootStatus'', same ''RtlEqualUnicodeString'',
   same ''RtlExpandEnvironmentStrings_U'', same ''RtlFillMemoryUlong'',
   same ''RtlGetCurrentDirectory_U'', same ''RtlFindMessage'', same ''RtlFormatMessage'',
   same ''RtlFreeAnsiString'', same ''RtlFreeUnicodeString'', same ''RtlCreateUnicodeStringFromAsciiz'',
   same ''RtlInitAnsiString'', same ''RtlInitAnsiStringEx'', same ''RtlInitUnicodeString'',
   same ''RtlMultiByteToUnicodeN'', (''RtlOemToUnicodeN'', ''RtlMultiByteToUnicodeN''),
   same ''RtlNormalizeProcessParams'', same ''RtlPrefixUnicodeString'',
   same ''RtlSecondsSince1970ToTime'', same ''RtlUnicodeStringToAnsiString'', same ''RtlUnicodeToOemN'',
   (''RtlUnicodeToMultiByteN'', ''RtlUnicodeToOemN''), same ''RtlUpcaseUnicodeString'']"

definition security_exports :: "(string \<times> string) list" where
  "security_exports = [
   same ''RtlAddAccessAllowedAce'', same ''RtlAddAce'', same ''RtlCopySid'', same ''RtlCreateAcl'',
   same ''RtlCreateSecurityDescriptor'', same ''RtlFirstFreeAce'', same ''RtlInitializeSid'',
   same ''RtlNewSecurityObject'', same ''RtlLengthRequiredSid'', same ''RtlLengthSecurityDescriptor'',
   same ''RtlLengthSid'', same ''RtlQueryInformationAcl'', same ''RtlSetDaclSecurityDescriptor'',
   same ''RtlSetGroupSecurityDescriptor'', same ''RtlSubAuthoritySid'', same ''RtlValidAcl'',
   same ''RtlValidRelativeSecurityDescriptor'', same ''RtlValidSecurityDescriptor'',
   same ''RtlValidSid'']"

definition table_exports :: "(string \<times> string) list" where
  "table_exports = [
   same ''RtlDeleteElementGenericTable'', same ''RtlDeleteElementGenericTableAvl'',
   same ''RtlDeleteElementGenericTableAvlEx'', same ''RtlEnumerateGenericTableAvl'',
   same ''RtlEnumerateGenericTableWithoutSplaying'',
   same ''RtlEnumerateGenericTableWithoutSplayingAvl'', same ''RtlInitializeGenericTable'',
   same ''RtlInitializeGenericTableAvl'', same ''RtlInsertElementGenericTable'',
   same ''RtlInsertElementGenericTableAvl'', same ''RtlInsertElementGenericTableFullAvl'',
   same ''RtlLookupElementGenericTable'', same ''RtlLookupElementGenericTableAvl'',
   same ''RtlLookupElementGenericTableFullAvl'', same ''RtlLookupFirstMatchingElementGenericTableAvl'',
   same ''RtlNumberGenericTableElementsAvl'', same ''RtlGetVersion'', same ''RtlTimeToTimeFields'',
   same ''RtlVerifyVersionInfo'', same ''VerSetConditionMask'']"

definition bcd_exports :: "(string \<times> string) list" where
  "bcd_exports = [same ''BcdOpenStore'', same ''BcdCloseStore'', same ''BcdForciblyUnloadStore'', same ''BcdOpenObject'', same ''BcdCloseObject'', same ''BcdGetElementData'']"

definition ntdll_exports :: "(string \<times> string) list" where
  "ntdll_exports =
     bits_exports @ crt_exports @ format_exports @ heap_exports @ math_exports @ misc_exports @ mm_exports @ io_exports
     @ sync_exports @ thread_exports @ registry_exports @ process_exports @ rtl_exports @ security_exports @ table_exports"

text \<open>The array, given the addresses of the functions.\<close>

definition export_entry :: "(string \<Rightarrow> u64) \<Rightarrow> string \<Rightarrow> string \<times> string \<Rightarrow> nl_export" where
  "export_entry addr dll e = \<lparr>exp_dll = map of_char dll, exp_name = map of_char (fst e), exp_func = addr (snd e)\<rparr>"

definition nl_exports :: "(string \<Rightarrow> u64) \<Rightarrow> nl_export list" where
  "nl_exports addr = map (export_entry addr ''ntdll'') ntdll_exports @ map (export_entry addr ''bcd'') bcd_exports"

text \<open>No name is exported twice; a fingerprint tells them apart.\<close>

definition fingerprint :: "string \<Rightarrow> int" where
  "fingerprint s = fold (\<lambda>c h. (2 * h + of_char c) mod 16381) s 0"

lemma distinct_buckets: "(\<And>r. distinct (filter (\<lambda>x. f x = r) xs)) \<Longrightarrow> distinct xs"
proof (induction xs)
  case (Cons x xs)
  have "distinct (filter (\<lambda>y. f y = f x) (x # xs))" by (rule Cons.prems)
  then have "x \<notin> set xs" by auto
  moreover have "distinct (filter (\<lambda>y. f y = r) xs)" for r
    using Cons.prems [of r] by (cases "f x = r") auto
  ultimately show ?case using Cons.IH by simp
qed simp

definition fingerprints :: "int list" where
  "fingerprints = map (fingerprint \<circ> fst) ntdll_exports"

lemma buckets: "list_all (\<lambda>r. distinct (filter (\<lambda>h. h mod 16 = r) fingerprints)) [0, 1, 2, 3, 4, 5, 6, 7, 8, 9, 10, 11, 12, 13, 14, 15]"
  by code_simp

lemma fingerprints_distinct: "distinct fingerprints"
proof (rule distinct_buckets [where f = "\<lambda>h. h mod 16"])
  fix r :: int
  show "distinct (filter (\<lambda>h. h mod 16 = r) fingerprints)"
  proof (cases "r \<in> {0..15}")
    case True
    then have "r \<in> set [0, 1, 2, 3, 4, 5, 6, 7, 8, 9, 10, 11, 12, 13, 14, 15]"
      by (simp only: atLeastAtMost_iff list.set insert_iff empty_iff) arith
    then show ?thesis using buckets unfolding list_all_iff by blast
  next
    case False
    have "h mod 16 \<in> {0..15}" for h :: int by auto
    then have "filter (\<lambda>h. h mod 16 = r) fingerprints = []" using False by (auto simp: filter_empty_conv)
    then show ?thesis by simp
  qed
qed

lemma names_distinct: "distinct (map fst ntdll_exports)"
  using fingerprints_distinct unfolding fingerprints_def map_map [symmetric]
  by (rule distinct_map [THEN iffD1, THEN conjunct1])

section \<open>Resolution\<close>

lemma of_char_word: "(of_char c :: u8) = of_nat (of_char c)"
  by (simp add: of_nat_of_char)

lemma narrow_name_inj: "map (of_char :: char \<Rightarrow> u8) s = map of_char t \<longleftrightarrow> s = t"
proof -
  have "char_of (unat (of_char c :: u8)) = c" for c
    using nat_of_char_less_256 [of c] by (simp only: of_char_word unat_of_nat) (simp add: take_bit_eq_mod)
  then have "inj (of_char :: char \<Rightarrow> u8)" by (rule inj_on_inverseI)
  then show ?thesis by (simp add: inj_map_eq_map)
qed

lemma bcd_distinct: "distinct (map fst bcd_exports)"
  by code_simp

lemma resolve_cases:
  "(\<exists>e \<in> set es. exp_dll e = m \<and> exp_name e = n \<and> nl_resolve es m n = exp_func e) \<or>
   (\<forall>e \<in> set es. \<not> (exp_dll e = m \<and> exp_name e = n)) \<and> nl_resolve es m n = 0"
  by (induction es) auto

text \<open>What the tables export.\<close>

definition exported :: "string \<Rightarrow> string \<Rightarrow> string \<Rightarrow> bool" where
  "exported lib name f \<longleftrightarrow> lib = ''ntdll'' \<and> (name, f) \<in> set ntdll_exports \<or> lib = ''bcd'' \<and> (name, f) \<in> set bcd_exports"

lemma exported_once: "exported lib name f \<Longrightarrow> exported lib name g \<Longrightarrow> f = g"
  using names_distinct bcd_distinct unfolding exported_def by (auto dest: eq_key_imp_eq_value)

lemma nl_exports_mem: "e \<in> set (nl_exports addr) \<longleftrightarrow> (\<exists>lib name f. exported lib name f \<and> e = export_entry addr lib (name, f))"
  by (auto simp: nl_exports_def exported_def)

lemma nl_exports_iff:
  "(\<exists>e \<in> set (nl_exports addr). exp_dll e = m \<and> exp_name e = n \<and> exp_func e = a) \<longleftrightarrow>
     (\<exists>lib name f. m = map of_char lib \<and> n = map of_char name \<and> exported lib name f \<and> a = addr f)"
proof -
  have "exp_dll (export_entry addr lib (name, f)) = map of_char lib" "exp_name (export_entry addr lib (name, f)) = map of_char name"
    "exp_func (export_entry addr lib (name, f)) = addr f" for lib name f by (simp_all add: export_entry_def)
  then show ?thesis unfolding Bex_def nl_exports_mem by metis
qed

text \<open>
  A name is served by the function of that name; the \<^verbatim>\<open>Zw\<close> names by the \<^verbatim>\<open>Nt\<close> functions, the names of the C library by
  the replacements of this program; and six others.
\<close>

definition aliases :: "(string \<times> string) list" where
  "aliases = [(''_snwprintf'', ''rpl_swprintf_s''), (''ZwNtCancelIoFile'', ''NtCancelIoFile''),
     (''RtlQueryRegistryValuesEx'', ''RtlQueryRegistryValues''), (''NtDrawText'', ''NtDisplayString''),
     (''RtlOemToUnicodeN'', ''RtlMultiByteToUnicodeN''), (''RtlUnicodeToMultiByteN'', ''RtlUnicodeToOemN'')]"

definition serves :: "string \<Rightarrow> string \<Rightarrow> bool" where
  "serves name f \<longleftrightarrow> f = name \<or> take 2 name = ''Zw'' \<and> f = ''Nt'' @ drop 2 name \<or> f = ''rpl_'' @ name \<or>
     List.member aliases (name, f)"

lemma exported_serves: "exported lib name f \<Longrightarrow> serves name f"
proof -
  have "list_all (\<lambda>(n, f). serves n f) ntdll_exports" by code_simp
  moreover have "list_all (\<lambda>(n, f). serves n f) bcd_exports" by code_simp
  ultimately show "exported lib name f \<Longrightarrow> serves name f" by (auto simp: exported_def list_all_iff)
qed

end
