(* ===== verification/Ntdll_Sample.thy ===== *)
theory Ntdll_Sample
  imports Pe_Sample Exports
begin

text \<open>
  A small executable that imports \<^verbatim>\<open>ZwClose\<close> of \<^verbatim>\<open>ntdll.dll\<close>, loaded with the export tables of the
  program.  It is laid out like the one of \<open>Pe_Sample\<close>, with a section of 68 bytes.
\<close>

definition ntdll_section :: mem where
  "ntdll_section =
     [24, 0, 0, 0, 0, 0, 0, 0, 0, 0, 0, 0, 60, 0, 0, 0, 40, 0, 0, 0] @
     [48, 0, 0, 0, 0, 0, 0, 0] @ replicate 8 0 @ replicate 8 0 @
     [0, 0, 90, 119, 67, 108, 111, 115, 101, 0, 0, 0] @ [110, 116, 100, 108, 108, 46, 100, 108, 108, 0, 0, 0]"

definition ntdll_file :: mem where
  "ntdll_file = (take 308 sample_file)[276 := 68, 284 := 68] @ ntdll_section"

definition ntdll_headers :: headers where
  "ntdll_headers = sample_headers\<lparr>sections := [\<lparr>sec_VirtualSize = 68, sec_VirtualAddress = 4, sec_SizeOfRawData = 68,
     sec_PointerToRawData = 308, sec_Characteristics = 0x60000020\<rparr>]\<rparr>"

lemma ntdll_read: "read_headers sample_host ntdll_file = Some (Inr ntdll_headers)"
  by code_simp

definition ntdll_loaded :: "nl_export list \<Rightarrow> loaded" where
  "ntdll_loaded exports = \<lparr>l_headers = ntdll_headers,
     l_image = [0x4d, 0x5a, 0, 0] @ (ntdll_section[37 := 0x70]),
     l_imports = \<lparr>import_names = [[110, 116, 100, 108, 108, 46, 100, 108, 108, 33, 90, 119, 67, 108, 111, 115, 101]],
       import_addrs = [nl_resolve exports [110, 116, 100, 108, 108] [90, 119, 67, 108, 111, 115, 101]], thunks = [40]\<rparr>,
     l_stubs_base = 0x7000, l_stubs = sample_stub, l_prots = [(0, 4, 1), (4, 68, 5)], l_entry = 0x10004\<rparr>"

lemma ntdll_map: "map_image sample_host ntdll_headers ntdll_file = Some (Inr (4, 72, replicate 4 0 @ ntdll_section))"
  by code_simp

lemma ntdll_imports:
  "import_libraries sample_host exports (replicate 4 0 @ ntdll_section) 72
     (opt_ImportAddress (pe_opt ntdll_headers)) (opt_ImportSize (pe_opt ntdll_headers))
     \<lparr>import_names = [], import_addrs = [], thunks = []\<rparr> = Some (Inr (l_imports (ntdll_loaded exports)))"
  by code_simp

lemma ntdll_patch:
  "patch_imports sample_host 72 (l_imports (ntdll_loaded exports)) (replicate 4 0 @ ntdll_section) =
     Some (Inr (replicate 4 0 @ (ntdll_section[37 := 0x70]), 0x7000, sample_stub))"
  by code_simp

lemma ntdll_header:
  "map_header sample_host ntdll_headers ntdll_file 4 (replicate 4 0 @ (ntdll_section[37 := 0x70])) =
     Some (Inr (4, [0x4d, 0x5a, 0, 0] @ (ntdll_section[37 := 0x70])))"
  by code_simp

lemma ntdll_protect:
  "protect_sections sample_host (pe_opt ntdll_headers) (sections ntdll_headers) [(0, 4, 1)] = Inr [(0, 4, 1), (4, 68, 5)]"
  by code_simp

lemma ntdll_entry: "opt_ImageBase (pe_opt ntdll_headers) + ucast (opt_AddressOfEntryPoint (pe_opt ntdll_headers)) = 0x10004"
  by code_simp

lemma ntdll_loads: "setup_nloader sample_host exports ntdll_file = Some (Inr (ntdll_loaded exports))"
  by (simp add: setup_nloader_def ntdll_read ntdll_map ntdll_imports ntdll_patch ntdll_header ntdll_protect ntdll_entry)
    (simp add: ntdll_loaded_def)

end
