(* ===== verification/Pe_Loader_Spec.thy ===== *)
theory Pe_Loader_Spec
  imports Pe_Sample
begin

text \<open>
  The steps of \<open>setup_nloader\<close> when it accepts a file: stubs and thunks, sections that hold the bytes
  of the file; and what it does not notice.
\<close>

section \<open>Stubs\<close>

text \<open>\<^verbatim>\<open>push idx; mov r11, stub_dispatch; jmp r11\<close>\<close>

definition stub_at :: "host \<Rightarrow> mem \<Rightarrow> nat \<Rightarrow> u32 \<Rightarrow> bool" where
  "stub_at H stubs p idx \<longleftrightarrow> ld8 stubs p = Some 0x68 \<and> ld32 stubs (p + 1) = Some idx \<and>
     ld8 stubs (p + 5) = Some 0x49 \<and> ld8 stubs (p + 6) = Some 0xbb \<and> ld64 stubs (p + 7) = Some (stub_dispatch H) \<and>
     ld8 stubs (p + 15) = Some 0x41 \<and> ld8 stubs (p + 16) = Some 0xff \<and> ld8 stubs (p + 17) = Some 0xe3"

lemma emit_stub_exact:
  assumes "emit_stub H m p idx = Some m'"
  shows "stub_at H m' p idx" "length m' = length m" "b < p \<or> p + 18 \<le> b \<Longrightarrow> ld8 m' b = ld8 m b"
proof -
  from assms obtain m1 m2 m3 m4 m5 m6 m7 where s: "st8 m p 0x68 = Some m1" "st32 m1 (p + 1) idx = Some m2"
    "st8 m2 (p + 5) 0x49 = Some m3" "st8 m3 (p + 6) 0xbb = Some m4" "st64 m4 (p + 7) (stub_dispatch H) = Some m5"
    "st8 m5 (p + 15) 0x41 = Some m6" "st8 m6 (p + 16) 0xff = Some m7" "st8 m7 (p + 17) 0xe3 = Some m'"
    by (auto simp: emit_stub_def bind_eq_Some_conv)
  note others = ld8_st8 [OF s(1)] ld8_st32 [OF s(2)] ld8_st8 [OF s(3)] ld8_st8 [OF s(4)] ld8_st64 [OF s(5)]
    ld8_st8 [OF s(6)] ld8_st8 [OF s(7)] ld8_st8 [OF s(8)]
  show "stub_at H m' p idx"
    using ld32_st32 [OF s(2)] ld64_st64 [OF s(5)]
    by (simp add: stub_at_def others ld64_st8_other [OF s(8)] ld64_st8_other [OF s(7)] ld64_st8_other [OF s(6)]
        ld32_st8_other [OF s(8)] ld32_st8_other [OF s(7)] ld32_st8_other [OF s(6)] ld32_st64_other [OF s(5)]
        ld32_st8_other [OF s(4)] ld32_st8_other [OF s(3)])
  show "length m' = length m" using s by (simp add: st_length st64_length)
  show "b < p \<or> p + 18 \<le> b \<Longrightarrow> ld8 m' b = ld8 m b" by (auto simp: others)
qed

text \<open>No later slot overlaps the eight bytes of slot \<open>j\<close>.\<close>

definition free_slot :: "nat list \<Rightarrow> nat \<Rightarrow> bool" where
  "free_slot ts j \<longleftrightarrow> list_all (\<lambda>t. ts ! j + 8 \<le> t \<or> t + 8 \<le> ts ! j) (drop (j + 1) ts)"

definition stub_offset :: "host \<Rightarrow> nat \<Rightarrow> nat" where
  "stub_offset H i = unat (of_nat i * sizeof_stub H)"

lemma stub_offset_18: "sizeof_stub H = 18 \<Longrightarrow> i * 18 < 2 ^ 32 \<Longrightarrow> stub_offset H i = i * 18"
  by (simp add: stub_offset_def unat_word_ariths unat_of_nat take_bit_eq_mod mult.commute mod_mult_right_eq)

lemma patch_thunks_keeps:
  assumes "patch_thunks H image_size base ts i img stubs = Some (Inr (img', stubs'))"
  shows "length img' = length img" "length stubs' = length stubs" "list_all (\<lambda>t. CLI_ISCONTAINED image_size t 8) ts"
    "(\<And>t. t \<in> set ts \<Longrightarrow> a + 8 \<le> t \<or> t + 8 \<le> a) \<Longrightarrow> ld64 img' a = ld64 img a"
    "sizeof_stub H = 18 \<Longrightarrow> (i + length ts) * 18 < 2 ^ 32 \<Longrightarrow> b < i * 18 \<Longrightarrow> ld8 stubs' b = ld8 stubs b"
  using assms
proof (induction ts arbitrary: i img stubs)
  case (Cons t ts)
  { case 1 then show ?case using Cons.IH(1)
      by (auto simp: Let_def bind_eq_Some_conv st64_length split: if_splits)
  next case 2 then show ?case using Cons.IH(2)
      by (auto simp: Let_def bind_eq_Some_conv emit_stub_exact(2) split: if_splits)
  next case 3 then show ?case using Cons.IH(3)
      by (auto simp: Let_def bind_eq_Some_conv split: if_splits)
  next case 4 then show ?case using Cons.IH(4)
      by (auto simp: Let_def bind_eq_Some_conv ld64_st64_other split: if_splits)
  next case 5
    then have "stub_offset H i = i * 18" using stub_offset_18 [of H i] by simp
    with 5 show ?case using Cons.IH(5) [of "i + 1"]
      by (auto simp: Let_def bind_eq_Some_conv emit_stub_exact(3) stub_offset_def split: if_splits) }
qed simp_all

lemma patch_thunks_others:
  assumes "patch_thunks H image_size base ts i img stubs = Some (Inr (img', stubs'))"
    "\<And>t. t \<in> set ts \<Longrightarrow> a < t \<or> t + 8 \<le> a"
  shows "ld8 img' a = ld8 img a"
  using assms
proof (induction ts arbitrary: i img stubs)
  case (Cons t ts)
  then show ?case by (auto simp: Let_def bind_eq_Some_conv ld8_st64 split: if_splits)
qed simp

lemma stub_at_same:
  "stub_at H m p idx \<Longrightarrow> (\<And>b. p \<le> b \<Longrightarrow> b < p + 18 \<Longrightarrow> ld8 m' b = ld8 m b) \<Longrightarrow> stub_at H m' p idx"
  unfolding stub_at_def using ld32_same [of m' "p + 1" m] ld64_same [of m' "p + 7" m] by auto

lemma patch_thunks_exact:
  assumes "patch_thunks H image_size base ts i img stubs = Some (Inr (img', stubs'))"
    "sizeof_stub H = 18" "(i + length ts) * 18 < 2 ^ 32" "j < length ts"
  shows "(free_slot ts j \<longrightarrow> ld64 img' (ts ! j) = Some (base + of_nat ((i + j) * 18))) \<and>
    stub_at H stubs' ((i + j) * 18) (of_nat (i + j))"
  using assms
proof (induction ts arbitrary: i j img stubs)
  case (Cons t ts)
  have off: "unat (of_nat i * sizeof_stub H) = i * 18" using stub_offset_18 [of H i] Cons.prems by (simp add: stub_offset_def)
  from Cons.prems(1) off obtain stubs1 img1 where 1: "emit_stub H stubs (i * 18) (of_nat i) = Some stubs1"
    "st64 img t (base + of_nat (i * 18)) = Some img1"
    "patch_thunks H image_size base ts (i + 1) img1 stubs1 = Some (Inr (img', stubs'))"
    by (auto simp: Let_def bind_eq_Some_conv split: if_splits)
  show ?case
  proof (cases j)
    case 0
    have "free_slot (t # ts) 0 \<longrightarrow> ld64 img' t = ld64 img1 t"
      by (intro impI, rule patch_thunks_keeps(4) [OF 1(3)]) (auto simp: free_slot_def list_all_iff)
    moreover have "stub_at H stubs' (i * 18) (of_nat i)"
      by (rule stub_at_same [OF emit_stub_exact(1) [OF 1(1)]], rule patch_thunks_keeps(5) [OF 1(3)])
        (use Cons.prems in auto)
    ultimately show ?thesis using 0 ld64_st64 [OF 1(2)] by simp
  next
    case (Suc k)
    with Cons.prems Cons.IH [OF 1(3), of k] show ?thesis by (simp add: free_slot_def)
  qed
qed simp

section \<open>Results\<close>

lemma loading_cases:
  "(case r of Inl e \<Rightarrow> Some (Inl e) | Inr x \<Rightarrow> g x) = Some (Inr y) \<longleftrightarrow> (\<exists>x. r = Inr x \<and> g x = Some (Inr y))"
  "(case r of Inl e \<Rightarrow> Some (Inl e) | Inr x \<Rightarrow> g x) = Some (Inl w) \<longleftrightarrow> r = Inl w \<or> (\<exists>x. r = Inr x \<and> g x = Some (Inl w))"
  "(case q of Inl e \<Rightarrow> Inl e | Inr x \<Rightarrow> Inr (k x)) = Inl w \<longleftrightarrow> q = Inl w"
  "(case q of Inl e \<Rightarrow> Inl e | Inr x \<Rightarrow> Inr (k x)) = Inr z \<longleftrightarrow> (\<exists>x. q = Inr x \<and> k x = z)"
  by (cases r; cases q; auto)+

section \<open>Sections\<close>

lemma put_bytes_length_Some: "put_bytes m a bs = Some m' \<Longrightarrow> a + length bs \<le> length m"
  by (auto simp: put_bytes_def split: if_splits)

lemma map_sections_length: "map_sections opt file ss img = Some (Inr img') \<Longrightarrow> length img' = length img"
proof (induction ss arbitrary: img)
  case (Cons s ss)
  then show ?case by (fastforce simp: GETB_image_def bind_eq_Some_conv dest: put_bytes_length split: if_splits)
qed simp

text \<open>The raw data of the sections lie in the file and go to ranges that do not overlap.\<close>

definition laid_out :: "pe_image_optional_hdr64 \<Rightarrow> mem \<Rightarrow> pe_image_section_hdr list \<Rightarrow> bool" where
  "laid_out opt file ss \<longleftrightarrow>
     list_all (\<lambda>s. unat (sec_raw opt s) + unat (sec_rsz opt s) \<le> length file) ss \<and>
     sorted_wrt (\<lambda>s t. unat (sec_rva opt s) + unat (sec_rsz opt s) \<le> unat (sec_rva opt t) \<or>
       unat (sec_rva opt t) + unat (sec_rsz opt t) \<le> unat (sec_rva opt s)) ss"

lemma map_sections_others:
  assumes "map_sections opt file ss img = Some (Inr img')"
    "\<And>s. s \<in> set ss \<Longrightarrow> b < unat (sec_rva opt s) \<or> unat (sec_rva opt s) + unat (sec_rsz opt s) \<le> b"
  shows "ld8 img' b = ld8 img b"
  using assms
proof (induction ss arbitrary: img)
  case (Cons s ss)
  then obtain img1 off where 1: "GETB_image file (unat (sec_raw opt s)) (unat (sec_rsz opt s)) img (unat (sec_rva opt s)) = Some (img1, off)"
    "map_sections opt file ss img1 = Some (Inr img')" by (auto simp: bind_eq_Some_conv split: if_splits)
  have "ld8 img1 b = ld8 img b" using 1(1) Cons.prems(2) [of s]
    by (auto simp: GETB_image_def bind_eq_Some_conv ld8_put_bytes split: if_splits)
  then show ?case using Cons.IH [OF 1(2)] Cons.prems(2) by simp
qed simp

lemma map_sections_copies:
  assumes "map_sections opt file ss img = Some (Inr img')" "laid_out opt file ss" "j < length ss"
    "k < unat (sec_rsz opt (ss ! j))"
  shows "ld8 img' (unat (sec_rva opt (ss ! j)) + k) = Some (file ! (unat (sec_raw opt (ss ! j)) + k))"
  using assms
proof (induction ss arbitrary: img j)
  case (Cons s ss)
  then obtain img1 where 1: "put_bytes img (unat (sec_rva opt s)) (take (unat (sec_rsz opt s)) (drop (unat (sec_raw opt s)) file)) = Some img1"
    "map_sections opt file ss img1 = Some (Inr img')"
    by (auto simp: bind_eq_Some_conv GETB_image_def laid_out_def split: if_splits)
  have room: "unat (sec_raw opt s) + unat (sec_rsz opt s) \<le> length file" using Cons.prems(2) by (simp add: laid_out_def)
  show ?case
  proof (cases j)
    case 0
    have "ld8 img' (unat (sec_rva opt s) + k) = ld8 img1 (unat (sec_rva opt s) + k)"
      by (rule map_sections_others [OF 1(2)]) (use Cons.prems(2,4) 0 in \<open>auto simp: laid_out_def\<close>)
    then show ?thesis using 0 Cons.prems(4) room ld8_put_bytes [OF 1(1)] by simp
  next
    case (Suc i)
    then show ?thesis using Cons.IH [OF 1(2), of i] Cons.prems(2-4) by (simp add: laid_out_def)
  qed
qed simp

lemma image_extent_min: "image_extent opt ss lo sz = (min_rva, image_size) \<Longrightarrow>
    min_rva \<le> lo \<and> (\<forall>s \<in> set ss. min_rva \<le> sec_rva opt s)"
proof (induction ss arbitrary: lo sz)
  case (Cons s ss)
  from Cons.IH Cons.prems have "min_rva \<le> (if sec_rva opt s < lo then sec_rva opt s else lo)"
    "\<forall>s \<in> set ss. min_rva \<le> sec_rva opt s" by (metis image_extent.simps(2))+
  then show ?case by (auto split: if_splits)
qed simp

section \<open>The parts of a successful load\<close>

definition image_bounds :: "loaded \<Rightarrow> u32 \<times> u32" where
  "image_bounds L = image_extent (pe_opt (l_headers L)) (sections (l_headers L)) 0xffffffff 0"

definition header_length :: "loaded \<Rightarrow> u32" where
  "header_length L = (let h = l_headers L; n = pe_off h + opt_SizeOfHeaders (pe_opt h); lo = fst (image_bounds L)
     in if lo < n then lo else n)"

lemma protect_sections_exact:
  "protect_sections H opt ss prots = Inr prots' \<Longrightarrow>
     prots' = prots @ map (\<lambda>s. (sec_rva opt s, sec_vsz opt s, section_prot s)) ss"
proof (induction ss arbitrary: prots)
  case (Cons s ss)
  from Cons.prems have "protect_sections H opt ss (prots @ [(sec_rva opt s, sec_vsz opt s, section_prot s)]) = Inr prots'"
    by (simp split: if_splits)
  from Cons.IH [OF this] show ?case by simp
qed simp

lemma setup_nloader_parts:
  assumes "setup_nloader H exports file = Some (Inr L)"
  obtains img1 img2 where
    "read_headers H file = Some (Inr (l_headers L))"
    "map_sections (pe_opt (l_headers L)) file (sections (l_headers L)) (fresh_pages H (snd (image_bounds L))) = Some (Inr img1)"
    "import_libraries H exports img1 (snd (image_bounds L)) (opt_ImportAddress (pe_opt (l_headers L)))
       (opt_ImportSize (pe_opt (l_headers L))) \<lparr>import_names = [], import_addrs = [], thunks = []\<rparr> = Some (Inr (l_imports L))"
    "patch_imports H (snd (image_bounds L)) (l_imports L) img1 = Some (Inr (img2, l_stubs_base L, l_stubs L))"
    "map_header H (l_headers L) file (fst (image_bounds L)) img2 = Some (Inr (header_length L, l_image L))"
    "l_prots L = (0, header_length L, 1) #
       map (\<lambda>s. (sec_rva (pe_opt (l_headers L)) s, sec_vsz (pe_opt (l_headers L)) s, section_prot s)) (sections (l_headers L))"
    "l_entry L = opt_ImageBase (pe_opt (l_headers L)) + ucast (opt_AddressOfEntryPoint (pe_opt (l_headers L)))"
proof -
  from assms obtain h lo sz img1 st img2 base stubs len img prots where
    1: "read_headers H file = Some (Inr h)" "map_image H h file = Some (Inr (lo, sz, img1))"
    "import_libraries H exports img1 sz (opt_ImportAddress (pe_opt h)) (opt_ImportSize (pe_opt h))
       \<lparr>import_names = [], import_addrs = [], thunks = []\<rparr> = Some (Inr st)"
    "patch_imports H sz st img1 = Some (Inr (img2, base, stubs))"
    "map_header H h file lo img2 = Some (Inr (len, img))"
    "protect_sections H (pe_opt h) (sections h) [(0, len, 1)] = Inr prots"
    "L = \<lparr>l_headers = h, l_image = img, l_imports = st, l_stubs_base = base, l_stubs = stubs, l_prots = prots,
       l_entry = opt_ImageBase (pe_opt h) + ucast (opt_AddressOfEntryPoint (pe_opt h))\<rparr>"
    by (auto simp: setup_nloader_def bind_eq_Some_conv loading_cases)
  have b: "image_bounds L = (lo, sz)" and m: "map_sections (pe_opt h) file (sections h) (fresh_pages H sz) = Some (Inr img1)"
    using 1(2,7) by (auto simp: map_image_def image_bounds_def bind_eq_Some_conv loading_cases split: prod.splits if_splits)
  have l: "header_length L = len"
    using 1(5,7) b by (auto simp: map_header_def header_length_def Let_def bind_eq_Some_conv split: if_splits)
  show ?thesis by (rule that) (use 1 b m l protect_sections_exact [OF 1(6)] in simp_all)
qed

lemma patch_imports_parts:
  assumes "patch_imports H image_size st img = Some (Inr (img', base, stubs))" "sizeof_stub H = 18"
    "length (thunks st) * 18 < 2 ^ 32"
  shows "thunks st = [] \<and> img' = img \<or>
    (\<exists>n. patch_thunks H image_size base (thunks st) 0 img (fresh_pages H n) = Some (Inr (img', stubs)))"
proof -
  have "(of_nat (length (thunks st)) :: u32) = 0 \<longleftrightarrow> thunks st = []"
    using assms(3) by (simp add: word_unat_eq_iff unat_of_nat take_bit_eq_mod)
  then show ?thesis using assms(1)
    by (auto simp: patch_imports_def Let_def bind_eq_Some_conv loading_cases split: if_splits option.splits sum.splits)
qed

lemma map_header_parts:
  assumes "map_header H h file lo img = Some (Inr (len, img'))"
  shows "length img' = length img" "unat len \<le> b \<Longrightarrow> ld8 img' b = ld8 img b"
    "unat len \<le> a \<Longrightarrow> ld64 img' a = ld64 img a"
proof -
  have 1: "img' = img \<or> (\<exists>bs. length bs = unat len \<and> put_bytes img 0 bs = Some img')"
    using assms by (auto simp: map_header_def GETB_image_def Let_def bind_eq_Some_conv split: if_splits)
  then show "length img' = length img" by (auto dest: put_bytes_length)
  from 1 show "unat len \<le> b \<Longrightarrow> ld8 img' b = ld8 img b" by (auto simp: ld8_put_bytes)
  from 1 show "unat len \<le> a \<Longrightarrow> ld64 img' a = ld64 img a" by (auto intro: ld64_put_bytes_other)
qed

section \<open>The guarantees\<close>

text \<open>
  C8. When the raw data of the sections lie in the file and their ranges in the image are disjoint,
  every byte of every section of a file that loads is the byte of the file, except where the thunk
  of an import lies.
\<close>

theorem sections_are_copied:
  assumes "setup_nloader H exports file = Some (Inr L)" "laid_out (pe_opt (l_headers L)) file (sections (l_headers L))"
    "sizeof_stub H = 18" "length (thunks (l_imports L)) * 18 < 2 ^ 32"
    "j < length (sections (l_headers L))" "k < unat (sec_rsz (pe_opt (l_headers L)) (sections (l_headers L) ! j))"
    "a = unat (sec_rva (pe_opt (l_headers L)) (sections (l_headers L) ! j)) + k"
    "list_all (\<lambda>t. a < t \<or> t + 8 \<le> a) (thunks (l_imports L))"
  shows "ld8 (l_image L) a = Some (file ! (unat (sec_raw (pe_opt (l_headers L)) (sections (l_headers L) ! j)) + k))"
proof -
  let ?o = "pe_opt (l_headers L)" and ?s = "sections (l_headers L) ! j"
  from setup_nloader_parts [OF assms(1)] obtain img1 img2 where
    1: "map_sections ?o file (sections (l_headers L)) (fresh_pages H (snd (image_bounds L))) = Some (Inr img1)"
    "patch_imports H (snd (image_bounds L)) (l_imports L) img1 = Some (Inr (img2, l_stubs_base L, l_stubs L))"
    "map_header H (l_headers L) file (fst (image_bounds L)) img2 = Some (Inr (header_length L, l_image L))" by blast
  have "ld8 img1 a = Some (file ! (unat (sec_raw ?o ?s) + k))"
    unfolding assms(7) by (rule map_sections_copies [OF 1(1) assms(2,5,6)])
  moreover have "ld8 img2 a = ld8 img1 a"
    using patch_imports_parts [OF 1(2) assms(3,4)] assms(8) patch_thunks_others by (auto simp: list_all_iff)
  moreover have "header_length L \<le> sec_rva ?o ?s"
  proof -
    obtain lo sz where b: "image_bounds L = (lo, sz)" by (cases "image_bounds L")
    then have "lo \<le> sec_rva ?o ?s"
      using image_extent_min [of ?o "sections (l_headers L)" "0xffffffff" 0 lo sz] assms(5)
      by (auto simp: image_bounds_def)
    moreover have "header_length L \<le> lo" using b by (auto simp: header_length_def Let_def)
    ultimately show ?thesis by (rule order_trans [rotated])
  qed
  then have "ld8 (l_image L) a = ld8 img2 a"
    by (intro map_header_parts(2) [OF 1(3)]) (simp add: assms(7) word_le_nat_alt)
  ultimately show ?thesis by simp
qed

theorem sections_are_copied_witness: "ld8 (l_image sample_loaded) 4 = Some 24"
proof -
  have "laid_out (pe_opt (l_headers sample_loaded)) sample_file (sections (l_headers sample_loaded))"
    "unat (sec_rsz (pe_opt (l_headers sample_loaded)) (sections (l_headers sample_loaded) ! 0)) = 56"
    "unat (sec_rva (pe_opt (l_headers sample_loaded)) (sections (l_headers sample_loaded) ! 0)) = 4"
    "sample_file ! (unat (sec_raw (pe_opt (l_headers sample_loaded)) (sections (l_headers sample_loaded) ! 0)) + 0) = 24"
    by code_simp+
  then show ?thesis
    using sections_are_copied [OF sample_loads, of 0 0 4] by (simp add: sample_host_def sample_loaded_def sample_headers_def)
qed

text \<open>The offset moves on whatever was read.\<close>

definition getb :: "mem \<Rightarrow> nat \<Rightarrow> nat \<Rightarrow> mem \<Rightarrow> mem" where
  "getb file offset n dest = fst (GETB file offset n dest)"

lemma GETB_eq: "GETB file offset n dest = (getb file offset n dest, offset + n)"
  by (simp add: getb_def GETB_def)

lemma patch_imports_keeps:
  assumes "patch_imports H image_size st img = Some (Inr (img', base, stubs))" "length (thunks st) < 2 ^ 32"
  shows "length img' = length img \<and> list_all (\<lambda>t. CLI_ISCONTAINED image_size t 8) (thunks st)"
proof -
  have "(of_nat (length (thunks st)) :: u32) = 0 \<longleftrightarrow> thunks st = []"
    using assms(2) by (simp add: word_unat_eq_iff unat_of_nat take_bit_eq_mod)
  then show ?thesis using assms(1)
    by (auto simp: patch_imports_def Let_def bind_eq_Some_conv loading_cases patch_thunks_keeps(3)
        dest: patch_thunks_keeps(1) split: if_splits option.splits sum.splits)
qed

section \<open>What is not noticed\<close>

lemma map_sections_error:
  "map_sections opt file ss img = Some r \<Longrightarrow>
     (r = Inl ReadSection \<longleftrightarrow> list_ex (\<lambda>s. sec_raw opt s = 0 \<and> sec_rsz opt s = 0) ss) \<and>
     (r \<noteq> Inl ReadSection \<longrightarrow> (\<exists>img'. r = Inr img'))"
  by (induction ss arbitrary: img) (auto simp: GETB_image_def bind_eq_Some_conv unat_eq_0 split: if_splits)

lemma check_errors:
  "check_file_hdr f = Some e \<Longrightarrow> e \<in> {BadPe, BadArch, BadSectionCount, OptTooSmall}"
  "check_optional_hdr H opt = Some e \<Longrightarrow> e \<in> {BadOptMagic, NotNative, BadDirCount, UnalignedBase, UnalignedSections}"
  by (auto simp: check_file_hdr_def check_optional_hdr_def split: if_splits)

lemma check_case:
  "(case c of Some e \<Rightarrow> Some (Inl e) | None \<Rightarrow> k) = Some r \<longleftrightarrow> (\<exists>e. c = Some e \<and> r = Inl e) \<or> c = None \<and> k = Some r"
  by (cases c) auto

lemma read_headers_errors:
  assumes "read_headers H file = Some (Inl e)"
  shows "e \<in> {BadMz, BadPe, BadArch, BadSectionCount, OptTooSmall, BadOptMagic, NotNative, BadDirCount, UnalignedBase, UnalignedSections}"
proof -
  from assms have "e = BadMz \<or> (\<exists>f. check_file_hdr f = Some e) \<or> (\<exists>opt. check_optional_hdr H opt = Some e)"
    by (auto simp: read_headers_def Let_def GETB_eq bind_eq_Some_conv check_case split: if_splits)
  then show ?thesis by (auto dest!: check_errors)
qed

lemma import_functions_errors:
  assumes "import_functions H exports img image_size dllname names addrs st = Some r"
  shows "r = Inl e \<Longrightarrow> e \<in> {ThunkOut, NoMemory}"
  using assms
proof (induction rule: import_functions.raw_induct [rotated, consumes 1, case_names step])
  case (step f H exports img image_size dllname names addrs st r)
  from step show ?case by (auto simp: Let_def bind_eq_Some_conv split: if_splits)
qed

lemma import_libraries_errors:
  assumes "import_libraries H exports img image_size va remaining st = Some r"
  shows "r = Inl e \<Longrightarrow> e \<in> {ImportOut, Borland, ThunkOut, NoMemory}"
  using assms
proof (induction rule: import_libraries.raw_induct [rotated, consumes 1, case_names step])
  case (step f H exports img image_size va remaining st r)
  have r: "r = Inl e" using step.prems .
  have "e \<in> {ImportOut, Borland} \<or> (\<exists>dll n a st'. import_functions H exports img image_size dll n a st' = Some (Inl e)) \<or>
      (\<exists>st'. f H exports img image_size (va + 20) (remaining - 20) st' = Some (Inl e))"
    using step.hyps unfolding r by (auto simp: bind_eq_Some_conv loading_cases split: if_splits)
  then show ?case using step.IH import_functions_errors by blast
qed

lemma patch_thunks_errors: "patch_thunks H image_size base ts i img stubs = Some (Inl e) \<Longrightarrow> e = ApiAddressOut"
  by (induction ts arbitrary: i img stubs) (auto simp: Let_def bind_eq_Some_conv split: if_splits)

lemma later_errors:
  "patch_imports H image_size st img = Some (Inl e) \<Longrightarrow> e \<in> {MmapStubs, ApiAddressOut, ProtectStubs}"
  "map_header H h file lo img = Some (Inl e) \<Longrightarrow> e \<in> {ReadHeader, ProtectHeader}"
  "protect_sections H opt ss prots = Inl e \<Longrightarrow> e = ProtectSections"
proof -
  show "patch_imports H image_size st img = Some (Inl e) \<Longrightarrow> e \<in> {MmapStubs, ApiAddressOut, ProtectStubs}"
    by (auto simp: patch_imports_def Let_def bind_eq_Some_conv loading_cases patch_thunks_errors split: if_splits option.splits)
  show "map_header H h file lo img = Some (Inl e) \<Longrightarrow> e \<in> {ReadHeader, ProtectHeader}"
    by (auto simp: map_header_def Let_def bind_eq_Some_conv split: if_splits)
  show "protect_sections H opt ss prots = Inl e \<Longrightarrow> e = ProtectSections"
    by (induction ss arbitrary: prots) (auto split: if_splits)
qed

definition late_errors :: "load_error set" where
  "late_errors = {ImportOut, Borland, ThunkOut, NoMemory, MmapStubs, ApiAddressOut, ProtectStubs, ReadHeader, ProtectHeader, ProtectSections}"

lemma setup_nloader_error:
  assumes "setup_nloader H exports file = Some (Inl e)"
  shows "read_headers H file = Some (Inl e) \<or>
    (\<exists>h. read_headers H file = Some (Inr h) \<and> (map_image H h file = Some (Inl e) \<or> e \<in> late_errors \<and> (\<exists>x. map_image H h file = Some (Inr x))))"
  using assms unfolding late_errors_def
  by (auto simp: setup_nloader_def bind_eq_Some_conv loading_cases dest!: import_libraries_errors [OF _ refl] later_errors)

lemma map_image_errors: "map_image H h file = Some (Inl e) \<Longrightarrow> e \<in> {MmapImage, ReadSection}"
  by (auto simp: map_image_def Let_def bind_eq_Some_conv loading_cases dest: map_sections_error split: prod.splits if_splits)

lemma map_image_error:
  assumes "map_image H h file = Some r"
    and "mmap_image H (opt_ImageBase (pe_opt h)) (snd (image_extent (pe_opt h) (sections h) 0xffffffff 0))"
  shows "r = Inl ReadSection \<longleftrightarrow> list_ex (\<lambda>s. sec_raw (pe_opt h) s = 0 \<and> sec_rsz (pe_opt h) s = 0) (sections h)"
proof -
  obtain lo sz where b: "image_extent (pe_opt h) (sections h) 0xffffffff 0 = (lo, sz)"
    by (cases "image_extent (pe_opt h) (sections h) 0xffffffff 0")
  with assms obtain q where q: "map_sections (pe_opt h) file (sections h) (fresh_pages H sz) = Some q"
    "r = (case q of Inl e \<Rightarrow> Inl e | Inr img \<Rightarrow> Inr (lo, sz, img))"
    by (auto simp: map_image_def Let_def bind_eq_Some_conv)
  then have "r = Inl ReadSection \<longleftrightarrow> q = Inl ReadSection" by (cases q) auto
  then show ?thesis using map_sections_error [OF q(1)] by blast
qed

text \<open>
  The loader never reports that the file is too short: what is not there reads as what the
  buffer held, and a section behind the end of the file stays zero.  Of the reads of sections it refuses only
  that of a section without raw data (offset and size both \<open>0\<close>, as an uninitialised section has).
\<close>

theorem short_files_pass:
  assumes "setup_nloader H exports file = Some r"
  shows "(r = Inl e \<longrightarrow> e \<notin> {ReadMagic, ReadOffset, ReadHdr, ReadOpt, ReadSections}) \<and>
    (r = Inl ReadSection \<longleftrightarrow> (\<exists>h. read_headers H file = Some (Inr h) \<and>
       mmap_image H (opt_ImageBase (pe_opt h)) (snd (image_extent (pe_opt h) (sections h) 0xffffffff 0)) \<and>
       list_ex (\<lambda>s. sec_raw (pe_opt h) s = 0 \<and> sec_rsz (pe_opt h) s = 0) (sections h)))"
proof (intro conjI impI iffI)
  assume "r = Inl e"
  with assms have "setup_nloader H exports file = Some (Inl e)" by simp
  from setup_nloader_error [OF this] show "e \<notin> {ReadMagic, ReadOffset, ReadHdr, ReadOpt, ReadSections}"
    by (auto simp: late_errors_def dest!: read_headers_errors map_image_errors)
next
  assume r: "r = Inl ReadSection"
  with assms have "setup_nloader H exports file = Some (Inl ReadSection)" by simp
  from setup_nloader_error [OF this] obtain h where
    "read_headers H file = Some (Inr h)" "map_image H h file = Some (Inl ReadSection)"
    using read_headers_errors
    by (auto simp: late_errors_def)
  moreover from this(2) have "mmap_image H (opt_ImageBase (pe_opt h)) (snd (image_extent (pe_opt h) (sections h) 0xffffffff 0))"
    by (auto simp: map_image_def split: prod.splits if_splits)
  ultimately show "\<exists>h. read_headers H file = Some (Inr h) \<and>
       mmap_image H (opt_ImageBase (pe_opt h)) (snd (image_extent (pe_opt h) (sections h) 0xffffffff 0)) \<and>
       list_ex (\<lambda>s. sec_raw (pe_opt h) s = 0 \<and> sec_rsz (pe_opt h) s = 0) (sections h)"
    using map_image_error by blast
next
  assume "\<exists>h. read_headers H file = Some (Inr h) \<and>
       mmap_image H (opt_ImageBase (pe_opt h)) (snd (image_extent (pe_opt h) (sections h) 0xffffffff 0)) \<and>
       list_ex (\<lambda>s. sec_raw (pe_opt h) s = 0 \<and> sec_rsz (pe_opt h) s = 0) (sections h)"
  then obtain h where h: "read_headers H file = Some (Inr h)"
    "mmap_image H (opt_ImageBase (pe_opt h)) (snd (image_extent (pe_opt h) (sections h) 0xffffffff 0))"
    "list_ex (\<lambda>s. sec_raw (pe_opt h) s = 0 \<and> sec_rsz (pe_opt h) s = 0) (sections h)" by blast
  from assms h(1) obtain q where "map_image H h file = Some q"
    by (auto simp: setup_nloader_def bind_eq_Some_conv)
  then have "map_image H h file = Some (Inl ReadSection)" using map_image_error [OF _ h(2)] h(3) by blast
  then show "r = Inl ReadSection" using assms h(1) by (simp add: setup_nloader_def)
qed

text \<open>The sample without the data of its section, and with an empty section instead.\<close>

theorem short_files_pass_witness:
  "setup_nloader sample_host sample_exports (take 308 sample_file) \<noteq> Some (Inl ReadSection) \<and>
   (\<exists>L. setup_nloader sample_host sample_exports (take 308 sample_file) = Some (Inr L))"
proof -
  have r: "read_headers sample_host (take 308 sample_file) = Some (Inr sample_headers)" by code_simp
  have "map_image sample_host sample_headers (take 308 sample_file) = Some (Inr (4, 60, replicate 60 0))" by code_simp
  moreover have "import_libraries sample_host sample_exports (replicate 60 0) 60 (opt_ImportAddress (pe_opt sample_headers))
      (opt_ImportSize (pe_opt sample_headers)) \<lparr>import_names = [], import_addrs = [], thunks = []\<rparr> =
      Some (Inr \<lparr>import_names = [], import_addrs = [], thunks = []\<rparr>)" by code_simp
  moreover have "patch_imports sample_host 60 \<lparr>import_names = [], import_addrs = [], thunks = []\<rparr> (replicate 60 0) =
      Some (Inr (replicate 60 0, 0, []))" by code_simp
  moreover have "map_header sample_host sample_headers (take 308 sample_file) 4 (replicate 60 0) =
      Some (Inr (4, [0x4d, 0x5a, 0, 0] @ replicate 56 0))" by code_simp
  ultimately obtain L where L: "setup_nloader sample_host sample_exports (take 308 sample_file) = Some (Inr L)"
    using r by (simp add: setup_nloader_def sample_protect)
  moreover have "\<not> list_ex (\<lambda>s. sec_raw (pe_opt sample_headers) s = 0 \<and> sec_rsz (pe_opt sample_headers) s = 0) (sections sample_headers)"
    by code_simp
  ultimately show ?thesis using short_files_pass [OF L, of ReadMagic] r by auto
qed

end
