(* ===== verification/Pe_Imports.thy ===== *)
theory Pe_Imports
  imports Pe_Loader_Spec
begin

text \<open>
  The import directory as the format has it: a list of libraries described in the mapped image,
  read independently of the loops of \<open>setup_nloader\<close>, and what the loader makes of it.
\<close>

section \<open>Names\<close>

text \<open>\<open>n\<close> in decimal, with zeros in front up to three digits.\<close>

definition decimal_value :: "u8 list \<Rightarrow> nat" where
  "decimal_value ds = foldl (\<lambda>x d. 10 * x + (unat d - 48)) 0 ds"

definition three_digits :: "nat \<Rightarrow> u8 list \<Rightarrow> bool" where
  "three_digits n ds \<longleftrightarrow> list_all (\<lambda>d. 48 \<le> d \<and> d \<le> 57) ds \<and> decimal_value ds = n \<and>
     length ds \<ge> 3 \<and> (length ds > 3 \<longrightarrow> hd ds \<noteq> 48)"

lemma digit_word: "k < 10 \<Longrightarrow> unat (of_nat (48 + k) :: u8) = 48 + k \<and> (48 :: u8) \<le> of_nat (48 + k) \<and> (of_nat (48 + k) :: u8) \<le> 57"
  by (simp add: word_le_nat_alt unat_of_nat take_bit_eq_mod del: of_nat_add)

lemma decimal_digits: "list_all (\<lambda>d. 48 \<le> d \<and> d \<le> 57) (decimal n) \<and> decimal_value (decimal n) = n \<and> (n \<noteq> 0 \<longrightarrow> hd (decimal n) \<noteq> 48)
    \<and> decimal n \<noteq> []"
proof (induction n rule: decimal.induct)
  case (1 n)
  show ?case
  proof (cases "n < 10")
    case True
    then have "unat (of_nat (48 + n) :: u8) = 48 + n" using digit_word by blast
    moreover have "unat (48 :: u8) = 48" by simp
    ultimately have "n \<noteq> 0 \<Longrightarrow> (of_nat (48 + n) :: u8) \<noteq> 48" by (metis add_cancel_left_right)
    with True digit_word [of n] show ?thesis by (simp add: decimal.simps [of n] decimal_value_def del: of_nat_add)
  next
    case False
    have m: "n mod 10 < 10" by simp
    from False have "n div 10 \<noteq> 0" by (simp add: div_eq_0_iff)
    with False 1 digit_word [OF m] show ?thesis
      by (simp add: decimal.simps [of n] decimal_value_def del: of_nat_add)
  qed
qed

lemma decimal_value_zeros: "decimal_value (replicate k 48 @ ds) = decimal_value ds"
  by (induction k) (simp_all add: decimal_value_def)

lemma three_digits_padded: "three_digits n (replicate (3 - length (decimal n)) 48 @ decimal n)"
proof -
  have "length (decimal n) > 3 \<Longrightarrow> n \<noteq> 0" by (cases "n = 0") (simp_all add: decimal.simps [of 0])
  then show ?thesis using decimal_digits [of n]
    by (auto simp: three_digits_def decimal_value_zeros list_all_append list_all_iff)
qed

lemma bit_top_u64: "bit (0x8000000000000000 :: u64) n \<longleftrightarrow> n = 63"
proof -
  have e: "(0x8000000000000000 :: u64) = push_bit 63 1" by simp
  show ?thesis unfolding e by (simp only: bit_push_bit_iff bit_1_iff) (auto simp: possible_bit_def)
qed

lemma bit_top_int: "bit (0x8000000000000000 :: int) n \<longleftrightarrow> n = 63" "bit (- 9223372036854775809 :: int) n \<longleftrightarrow> n \<noteq> 63"
proof -
  have e: "(0x8000000000000000 :: int) = push_bit 63 1" "(- 9223372036854775809 :: int) = NOT (push_bit 63 1)" by simp_all
  show "bit (0x8000000000000000 :: int) n \<longleftrightarrow> n = 63" "bit (- 9223372036854775809 :: int) n \<longleftrightarrow> n \<noteq> 63"
    unfolding e by (simp_all only: bit_not_iff bit_push_bit_iff bit_1_iff) (auto simp: possible_bit_def)
qed

lemma top_bit_u64: "(v :: u64) AND 0x8000000000000000 \<noteq> 0 \<longleftrightarrow> bit v 63"
proof -
  have b: "bit (v AND 0x8000000000000000) n \<longleftrightarrow> n = 63 \<and> bit v 63" for n
    by (auto simp: bit_and_iff bit_top_u64 bit_top_int)
  show ?thesis
  proof (cases "bit v 63")
    case True
    then have t: "bit (v AND 0x8000000000000000) 63" using b by blast
    have "v AND 0x8000000000000000 \<noteq> 0"
    proof
      assume "v AND 0x8000000000000000 = 0"
      with t show False by simp
    qed
    with True show ?thesis by blast
  next
    case False
    then have "v AND 0x8000000000000000 = 0" by (intro bit_word_eqI) (simp only: b bit_0_eq bot_apply, simp)
    with False show ?thesis by blast
  qed
qed

lemma low_half_u64: "unat (ucast (v AND NOT 0x8000000000000000 :: u64) :: u32) = unat v mod 2 ^ 32"
proof -
  have "(ucast (v AND NOT 0x8000000000000000) :: u32) = ucast v"
    by (rule bit_word_eqI) (simp add: bit_unsigned_iff bit_and_iff bit_not_iff bit_top_u64 bit_top_int possible_bit_def)
  then show ?thesis by (simp add: unsigned_ucast_eq take_bit_eq_mod)
qed

lemma ordinal_name_digits:
  "\<exists>ds. ordinal_name v = [111, 114, 100, 95] @ ds \<and> three_digits (unat v mod 2 ^ 32) ds"
  unfolding ordinal_name_def low_half_u64 Let_def using three_digits_padded by blast

text \<open>The null-terminated string at \<open>a\<close>.\<close>

definition string_at :: "mem \<Rightarrow> nat \<Rightarrow> u8 list \<Rightarrow> bool" where
  "string_at img a n \<longleftrightarrow> (\<forall>k < length n. ld8 img (a + k) = Some (n ! k) \<and> n ! k \<noteq> 0) \<and> ld8 img (a + length n) = Some 0"

lemma cstring_string_at:
  assumes "cstring m a = Some n"
  shows "string_at m a n"
proof -
  have n: "n = takeWhile (\<lambda>c. c \<noteq> 0) (drop a m)" and l: "a + length n < length m"
    using assms by (auto simp: cstring_def Let_def split: if_splits)
  have "n ! k = m ! (a + k) \<and> m ! (a + k) \<noteq> 0" if "k < length n" for k
    using that l takeWhile_nth [of k "\<lambda>c. c \<noteq> 0" "drop a m"] nth_mem [OF that] set_takeWhileD [of "n ! k" "\<lambda>c. c \<noteq> 0" "drop a m"]
    by (auto simp: n)
  moreover have "m ! (a + length n) = 0"
    using nth_length_takeWhile [of "\<lambda>c. c \<noteq> 0" "drop a m"] l by (simp flip: n)
  ultimately show ?thesis using l by (auto simp: string_at_def ld8_def rd_def)
qed

text \<open>The name that the thunk value \<open>v\<close> imports: an ordinal or the string behind a hint of two bytes.\<close>

definition imported_name :: "mem \<Rightarrow> u64 \<Rightarrow> u8 list \<Rightarrow> bool" where
  "imported_name img v n \<longleftrightarrow>
     (if bit v 63 then \<exists>ds. n = [111, 114, 100, 95] @ ds \<and> three_digits (unat v mod 2 ^ 32) ds
      else string_at img (2 + unat v mod 2 ^ 32) n)"

text \<open>The name of a module is what stands before the last dot of the first 63 bytes.\<close>

definition module_of :: "u8 list \<Rightarrow> u8 list \<Rightarrow> bool" where
  "module_of dll m \<longleftrightarrow> (\<exists>ext. take 63 dll = m @ 46 # ext \<and> 46 \<notin> set ext) \<or> 46 \<notin> set (take 63 dll) \<and> m = take 63 dll"

lemma module_of_dll_base: "module_of dll (dll_base dll)"
proof (cases "46 \<in> set (take 63 dll)")
  case True
  then obtain ys zs where "take 63 dll = ys @ 46 # zs" "46 \<notin> set zs" by (meson split_list_last)
  moreover from this have "\<And>x. x \<in> set (rev zs) \<Longrightarrow> x \<noteq> 46" by auto
  then have "dropWhile (\<lambda>c. c \<noteq> 46) (rev zs @ 46 # rev ys) = 46 # rev ys" by (subst dropWhile_append2) auto
  ultimately show ?thesis using True by (simp add: module_of_def dll_base_def Let_def)
qed (simp add: module_of_def dll_base_def Let_def)

text \<open>The address of the first export with a module and a name, null without one.\<close>

definition export_address :: "nl_export list \<Rightarrow> u8 list \<Rightarrow> u8 list \<Rightarrow> u64" where
  "export_address exports m n =
     (case find (\<lambda>e. exp_dll e = m \<and> exp_name e = n) exports of None \<Rightarrow> 0 | Some e \<Rightarrow> exp_func e)"

lemma nl_resolve_find: "nl_resolve exports m n = export_address exports m n"
  by (induction exports) (simp_all add: export_address_def)

section \<open>The directory\<close>

record import_lib =
  lib_name :: "u8 list"
  lib_module :: "u8 list"
  lib_slots :: u32 \<comment> \<open>the array of addresses\<close>
  lib_funs :: "u8 list list"

text \<open>The array of names at \<open>a\<close>, ended by a null one.\<close>

fun functions_at :: "mem \<Rightarrow> nat \<Rightarrow> u8 list list \<Rightarrow> bool" where
  "functions_at img a [] \<longleftrightarrow> ld64 img a = Some 0"
| "functions_at img a (n # ns) \<longleftrightarrow>
     (\<exists>v. ld64 img a = Some v \<and> v \<noteq> 0 \<and> imported_name img v n) \<and> functions_at img (a + 8) ns"

definition library_at :: "mem \<Rightarrow> nat \<Rightarrow> import_lib \<Rightarrow> bool" where
  "library_at img a l \<longleftrightarrow>
     (\<exists>names nam. ld32 img a = Some names \<and> names \<noteq> 0 \<and> ld32 img (a + 12) = Some nam \<and> nam \<noteq> 0 \<and>
        ld32 img (a + 16) = Some (lib_slots l) \<and> string_at img (unat nam) (lib_name l) \<and>
        functions_at img (unat names) (lib_funs l)) \<and> module_of (lib_name l) (lib_module l)"

text \<open>Descriptors of 20 bytes, up to one without a name or the size of the directory.\<close>

fun libraries_at :: "mem \<Rightarrow> u32 \<Rightarrow> nat \<Rightarrow> import_lib list \<Rightarrow> bool" where
  "libraries_at img va n [] \<longleftrightarrow> n < 20 \<or> ld32 img (unat va + 12) = Some 0"
| "libraries_at img va n (l # ls) \<longleftrightarrow> 20 \<le> n \<and> library_at img (unat va) l \<and> libraries_at img (va + 20) (n - 20) ls"

definition import_names_of :: "import_lib list \<Rightarrow> u8 list list" where
  "import_names_of ls = concat (map (\<lambda>l. map (\<lambda>n. lib_name l @ [33] @ n) (lib_funs l)) ls)"

definition import_addrs_of :: "nl_export list \<Rightarrow> import_lib list \<Rightarrow> u64 list" where
  "import_addrs_of exports ls = concat (map (\<lambda>l. map (export_address exports (lib_module l)) (lib_funs l)) ls)"

definition import_slots_of :: "import_lib list \<Rightarrow> nat list" where
  "import_slots_of ls = concat (map (\<lambda>l. map (\<lambda>k. unat (lib_slots l) + 8 * k) [0..<length (lib_funs l)]) ls)"


section \<open>The loops\<close>

lemma import_functions_directory:
  assumes "import_functions H exports img image_size dllname names addrs st = Some r"
  shows "r = Inr st' \<Longrightarrow> \<exists>ns. functions_at img names ns \<and>
    import_names st' = import_names st @ map (\<lambda>n. dllname @ [33] @ n) ns \<and>
    import_addrs st' = import_addrs st @ map (export_address exports (dll_base dllname)) ns \<and>
    thunks st' = thunks st @ map (\<lambda>k. addrs + 8 * k) [0..<length ns]"
  using assms
proof (induction rule: import_functions.raw_induct [rotated, consumes 1, case_names step])
  case (step f H exports img image_size dllname names addrs st r)
  note r = step.prems
  from step.hyps obtain v where v: "ld64 img names = Some v" by (auto simp: bind_eq_Some_conv)
  show ?case
  proof (cases "v = 0")
    case True
    with step.hyps v r have "st' = st" by (simp add: r)
    with True v show ?thesis by (intro exI [of _ "[]"]) simp
  next
    case False
    from step.hyps v False r obtain n where n: "(if bit v 63 then n = ordinal_name v else cstring img (2 + unat (ucast v :: u32)) = Some n)"
      and f: "f H exports img image_size dllname (names + 8) (addrs + 8)
        (add_import (dllname @ [33] @ n) (nl_resolve exports (dll_base dllname) n) addrs st) = Some (Inr st')"
      by (auto simp: Let_def bind_eq_Some_conv top_bit_u64 split: if_splits)
    from step.IH [OF f refl] obtain ns where ns: "functions_at img (names + 8) ns"
      "import_names st' = import_names st @ (dllname @ [33] @ n) # map (\<lambda>n. dllname @ [33] @ n) ns"
      "import_addrs st' = import_addrs st @ export_address exports (dll_base dllname) n #
         map (export_address exports (dll_base dllname)) ns"
      "thunks st' = thunks st @ addrs # map (\<lambda>k. addrs + 8 + 8 * k) [0..<length ns]"
      by (auto simp: add_import_def nl_resolve_find)
    have "imported_name img v n" using n ordinal_name_digits [of v]
      by (auto simp: imported_name_def cstring_string_at unsigned_ucast_eq take_bit_eq_mod split: if_splits)
    moreover have "map (\<lambda>k. addrs + 8 * k) [0..<length (n # ns)] = addrs # map (\<lambda>k. addrs + 8 + 8 * k) [0..<length ns]"
      by (simp add: upt_conv_Cons map_Suc_upt [symmetric] del: upt_Suc) 
    ultimately show ?thesis using v False ns by (intro exI [of _ "n # ns"]) simp
  qed
qed

definition tables_of :: "nl_export list \<Rightarrow> import_lib list \<Rightarrow> import_table \<Rightarrow> import_table" where
  "tables_of exports ls st =
     \<lparr>import_names = import_names st @ import_names_of ls, import_addrs = import_addrs st @ import_addrs_of exports ls,
      thunks = thunks st @ import_slots_of ls\<rparr>"

lemma import_libraries_directory:
  assumes "import_libraries H exports img image_size va remaining st = Some r"
  shows "r = Inr st' \<Longrightarrow> \<exists>ls. libraries_at img va (unat remaining) ls \<and> st' = tables_of exports ls st"
  using assms
proof (induction rule: import_libraries.raw_induct [rotated, consumes 1, case_names step])
  case (step f H exports img image_size va remaining st r)
  note r = step.prems
  have lt: "remaining < 20 \<longleftrightarrow> unat remaining < 20" by (simp add: word_less_nat_alt)
  have nil: "libraries_at img va (unat remaining) [] \<Longrightarrow> st' = st \<Longrightarrow> ?case"
    by (intro exI [of _ "[]"]) (simp add: tables_of_def import_names_of_def import_addrs_of_def import_slots_of_def)
  consider "remaining < 20" "st' = st" | "ld32 img (unat va + 12) = Some 0" "st' = st"
    | nam names slots dll st1 where "\<not> remaining < 20" "ld32 img (unat va + 12) = Some nam" "nam \<noteq> 0"
      "ld32 img (unat va) = Some names" "names \<noteq> 0" "ld32 img (unat va + 16) = Some slots" "cstring img (unat nam) = Some dll"
      "import_functions H exports img image_size dll (unat names) (unat slots) st = Some (Inr st1)"
      "f H exports img image_size (va + 20) (remaining - 20) st1 = Some (Inr st')"
    using step.hyps unfolding r by (auto simp: bind_eq_Some_conv loading_cases split: if_splits)
  then show ?case
  proof cases
    case 3
    from import_functions_directory [OF 3(8) refl] obtain ns where ns: "functions_at img (unat names) ns"
      "import_names st1 = import_names st @ map (\<lambda>n. dll @ [33] @ n) ns"
      "import_addrs st1 = import_addrs st @ map (export_address exports (dll_base dll)) ns"
      "thunks st1 = thunks st @ map (\<lambda>k. unat slots + 8 * k) [0..<length ns]" by blast
    from step.IH [OF 3(9) refl] obtain ls where ls: "libraries_at img (va + 20) (unat (remaining - 20)) ls"
      "st' = tables_of exports ls st1" by blast
    let ?l = "\<lparr>lib_name = dll, lib_module = dll_base dll, lib_slots = slots, lib_funs = ns\<rparr>"
    have "library_at img (unat va) ?l" using 3 ns(1) by (simp add: library_at_def module_of_dll_base cstring_string_at)
    moreover have "unat (remaining - 20) = unat remaining - 20" using 3(1) by (simp add: unat_sub_u32)
    ultimately have "libraries_at img va (unat remaining) (?l # ls)" using ls(1) 3(1) lt by simp
    moreover have "st' = tables_of exports (?l # ls) st" using ls(2) ns(2-)
      by (simp add: tables_of_def import_names_of_def import_addrs_of_def import_slots_of_def)
    ultimately show ?thesis by blast
  qed (use lt nil in simp_all)
qed

section \<open>The imports of a file that loads\<close>

lemma setup_nloader_directory:
  assumes "setup_nloader H exports file = Some (Inr L)"
  obtains img lo sz ls where "map_image H (l_headers L) file = Some (Inr (lo, sz, img))"
    "libraries_at img (opt_ImportAddress (pe_opt (l_headers L))) (unat (opt_ImportSize (pe_opt (l_headers L)))) ls"
    "import_names (l_imports L) = import_names_of ls" "import_addrs (l_imports L) = import_addrs_of exports ls"
    "thunks (l_imports L) = import_slots_of ls"
proof -
  from assms obtain lo sz img where
    1: "map_image H (l_headers L) file = Some (Inr (lo, sz, img))"
    "import_libraries H exports img sz (opt_ImportAddress (pe_opt (l_headers L))) (opt_ImportSize (pe_opt (l_headers L)))
       \<lparr>import_names = [], import_addrs = [], thunks = []\<rparr> = Some (Inr (l_imports L))"
    by (auto simp: setup_nloader_def bind_eq_Some_conv loading_cases)
  from import_libraries_directory [OF 1(2) refl] show ?thesis using 1(1) that by (auto simp: tables_of_def)
qed

text \<open>
  C7. The loader binds the import directory of a file that loads.  The directory of the mapped
  image is a list of libraries: descriptors of 20 bytes up to one without a name or to the size
  of the directory, each with the name of its library, an array of the names (or ordinals) of its functions
  ended by a null value, and an array of addresses.  The tables hold one import for every function, in this order:
  its name \<open>library!function\<close>, the address of the first export with its module and name (null when
  there is none) and the \<open>k\<close>-th eight bytes of the library's array of addresses.  Stub \<open>i\<close> pushes \<open>i\<close> and
  jumps to the dispatcher.  The slot of import \<open>i\<close> in the loaded image holds the address of stub \<open>i\<close> unless the slot of
  a later import overlaps it or it lies in the header, which is copied last.  (The stubs of this build are 18 bytes; their
  sizes must not add up to 4 GB.)
\<close>

theorem imports_are_bound:
  assumes "setup_nloader H exports file = Some (Inr L)" "sizeof_stub H = 18" "length (thunks (l_imports L)) * 18 < 2 ^ 32"
  shows "\<exists>img lo sz ls. map_image H (l_headers L) file = Some (Inr (lo, sz, img)) \<and>
    libraries_at img (opt_ImportAddress (pe_opt (l_headers L))) (unat (opt_ImportSize (pe_opt (l_headers L)))) ls \<and>
    import_names (l_imports L) = import_names_of ls \<and> import_addrs (l_imports L) = import_addrs_of exports ls \<and>
    thunks (l_imports L) = import_slots_of ls \<and>
    (\<forall>i < length (thunks (l_imports L)). stub_at H (l_stubs L) (i * 18) (of_nat i) \<and>
       (free_slot (thunks (l_imports L)) i \<and> unat (header_length L) \<le> thunks (l_imports L) ! i \<longrightarrow>
          ld64 (l_image L) (thunks (l_imports L) ! i) = Some (l_stubs_base L + of_nat (i * 18))))"
proof -
  from setup_nloader_parts [OF assms(1)] obtain img1 img2 where
    1: "patch_imports H (snd (image_bounds L)) (l_imports L) img1 = Some (Inr (img2, l_stubs_base L, l_stubs L))"
    "map_header H (l_headers L) file (fst (image_bounds L)) img2 = Some (Inr (header_length L, l_image L))" by blast
  have slots: "stub_at H (l_stubs L) (i * 18) (of_nat i) \<and>
       (free_slot (thunks (l_imports L)) i \<and> unat (header_length L) \<le> thunks (l_imports L) ! i \<longrightarrow>
          ld64 (l_image L) (thunks (l_imports L) ! i) = Some (l_stubs_base L + of_nat (i * 18)))"
    if i: "i < length (thunks (l_imports L))" for i
  proof -
    from patch_imports_parts [OF 1(1) assms(2,3)] i obtain n where
      "patch_thunks H (snd (image_bounds L)) (l_stubs_base L) (thunks (l_imports L)) 0 img1 (fresh_pages H n) =
         Some (Inr (img2, l_stubs L))" by auto
    from patch_thunks_exact [OF this assms(2) _ i] assms(3) map_header_parts(3) [OF 1(2), of "thunks (l_imports L) ! i"]
    show ?thesis by simp
  qed
  from setup_nloader_directory [OF assms(1)] obtain img lo sz ls where
    2: "map_image H (l_headers L) file = Some (Inr (lo, sz, img))"
    "libraries_at img (opt_ImportAddress (pe_opt (l_headers L))) (unat (opt_ImportSize (pe_opt (l_headers L)))) ls"
    "import_names (l_imports L) = import_names_of ls" "import_addrs (l_imports L) = import_addrs_of exports ls"
    "thunks (l_imports L) = import_slots_of ls" .
  show ?thesis
    by (rule exI [of _ img], rule exI [of _ lo], rule exI [of _ sz], rule exI [of _ ls], intro conjI allI impI)
      (use 2 slots in blast)+
qed

theorem imports_are_bound_witness:
  "\<exists>ls. import_slots_of ls = [40] \<and> import_addrs_of sample_exports ls = [0x1234] \<and>
     import_names_of ls = [map of_char ''a.dll!f''] \<and> ld64 (l_image sample_loaded) 40 = Some 0x7000 \<and>
     stub_at sample_host (l_stubs sample_loaded) 0 0"
proof -
  have s: "thunks (l_imports sample_loaded) = [40]" "import_addrs (l_imports sample_loaded) = [0x1234]"
    "import_names (l_imports sample_loaded) = [[97, 46, 100, 108, 108, 33, 102]]" "l_stubs_base sample_loaded = 0x7000"
    by (simp_all add: sample_loaded_def)
  have h: "unat (header_length sample_loaded) = 4" by code_simp
  have n: "map of_char ''a.dll!f'' = ([97, 46, 100, 108, 108, 33, 102] :: u8 list)" by code_simp
  have "sizeof_stub sample_host = 18" "length (thunks (l_imports sample_loaded)) * 18 < 2 ^ 32"
    by (simp_all add: sample_host_def s)
  from imports_are_bound [OF sample_loads this] obtain ls where ls: "import_names (l_imports sample_loaded) = import_names_of ls"
    "import_addrs (l_imports sample_loaded) = import_addrs_of sample_exports ls" "thunks (l_imports sample_loaded) = import_slots_of ls"
    and t: "\<forall>i < length (thunks (l_imports sample_loaded)). stub_at sample_host (l_stubs sample_loaded) (i * 18) (of_nat i) \<and>
       (free_slot (thunks (l_imports sample_loaded)) i \<and> unat (header_length sample_loaded) \<le> thunks (l_imports sample_loaded) ! i \<longrightarrow>
          ld64 (l_image sample_loaded) (thunks (l_imports sample_loaded) ! i) = Some (l_stubs_base sample_loaded + of_nat (i * 18)))"
    by blast
  have "stub_at sample_host (l_stubs sample_loaded) 0 0 \<and> ld64 (l_image sample_loaded) 40 = Some 0x7000"
    using t [rule_format, of 0] by (simp add: s h free_slot_def)
  then show ?thesis using ls n s by metis
qed

end
