(* ===== verification/Import_Exports.thy ===== *)
theory Import_Exports
  imports Ntdll_Sample Pe_Imports
begin

text \<open>
  The loader with the export tables of the program: which function an import of a native
  executable reaches.
\<close>

text \<open>\<open>a\<close> is the answer to an import of \<open>n\<close> from the module \<open>m\<close>.\<close>

definition answers :: "(string \<Rightarrow> u64) \<Rightarrow> u8 list \<Rightarrow> u8 list \<Rightarrow> u64 \<Rightarrow> bool" where
  "answers addr m n a \<longleftrightarrow>
     (\<exists>lib name f. m = map of_char lib \<and> n = map of_char name \<and> exported lib name f \<and>
        (\<forall>g. exported lib name g \<longrightarrow> g = f) \<and> serves name f \<and> a = addr f) \<or>
     (\<forall>lib name f. \<not> (m = map of_char lib \<and> n = map of_char name \<and> exported lib name f)) \<and> a = 0"

lemma resolve_answers: "answers addr m n (export_address (nl_exports addr) m n)"
proof -
  consider e where "e \<in> set (nl_exports addr)" "exp_dll e = m" "exp_name e = n" "export_address (nl_exports addr) m n = exp_func e"
    | "\<forall>e \<in> set (nl_exports addr). \<not> (exp_dll e = m \<and> exp_name e = n)" "export_address (nl_exports addr) m n = 0"
    using resolve_cases [of "nl_exports addr" m n] unfolding nl_resolve_find by blast
  then show ?thesis
  proof cases
    case 1
    then obtain lib name f where "m = map of_char lib" "n = map of_char name" "exported lib name f"
        "export_address (nl_exports addr) m n = addr f"
      using nl_exports_iff [of addr m n "exp_func e"] by auto
    then show ?thesis unfolding answers_def using exported_serves exported_once by metis
  next
    case 2
    then have "\<not> (m = map of_char lib \<and> n = map of_char name \<and> exported lib name f)" for lib name f
      using nl_exports_iff [of addr m n "addr f"] by blast
    with 2(2) show ?thesis unfolding answers_def by blast
  qed
qed

definition imports_of :: "import_lib list \<Rightarrow> (u8 list \<times> u8 list) list" where
  "imports_of ls = concat (map (\<lambda>l. map (\<lambda>n. (lib_module l, n)) (lib_funs l)) ls)"

lemma import_addrs_map: "import_addrs_of exports ls = map (\<lambda>(m, n). export_address exports m n) (imports_of ls)"
  by (induction ls) (simp_all add: import_addrs_of_def imports_of_def)

text \<open>
  C36. A native executable that loads reaches the functions of this program: each import of its directory, a
  function \<open>n\<close> of a module \<open>m\<close>, has the address of the one function that the table of that module
  exports under that name, and null when the module is not \<^verbatim>\<open>ntdll\<close> or \<^verbatim>\<open>bcd\<close> or its table lacks the name; the tables
  serve a name by the function of that name, the \<^verbatim>\<open>Nt\<close> function for a \<^verbatim>\<open>Zw\<close> name, the program's replacement for one of the C
  library, or one of six listed aliases.
\<close>

theorem imports_reach_exports:
  assumes "setup_nloader H (nl_exports addr) file = Some (Inr L)"
  shows "\<exists>img lo sz ls. map_image H (l_headers L) file = Some (Inr (lo, sz, img)) \<and>
    libraries_at img (opt_ImportAddress (pe_opt (l_headers L))) (unat (opt_ImportSize (pe_opt (l_headers L)))) ls \<and>
    list_all2 (\<lambda>(m, n) a. answers addr m n a) (imports_of ls) (import_addrs (l_imports L))"
proof -
  from setup_nloader_directory [OF assms] obtain img lo sz ls where
    1: "map_image H (l_headers L) file = Some (Inr (lo, sz, img))"
    "libraries_at img (opt_ImportAddress (pe_opt (l_headers L))) (unat (opt_ImportSize (pe_opt (l_headers L)))) ls"
    "import_addrs (l_imports L) = import_addrs_of (nl_exports addr) ls" .
  have "list_all2 (\<lambda>(m, n) a. answers addr m n a) (imports_of ls) (import_addrs (l_imports L))"
    unfolding 1(3) import_addrs_map list_all2_map2 by (rule list.rel_refl_strong) (auto simp: resolve_answers)
  with 1(1,2) show ?thesis by blast
qed

text \<open>The address of \<^verbatim>\<open>f\<close> is given by its length here.\<close>

theorem imports_reach_exports_witness:
  "\<exists>m n. answers (\<lambda>f. 4096 + of_nat (length f)) m n (hd (import_addrs (l_imports (ntdll_loaded (nl_exports (\<lambda>f. 4096 + of_nat (length f)))))))"
  using imports_reach_exports [OF ntdll_loads, of "\<lambda>f. 4096 + of_nat (length f)"]
  by (auto simp: ntdll_loaded_def list_all2_Cons2)

end
