(* ===== verification/Pe_Headers.thy ===== *)
theory Pe_Headers
  imports Pe_Imports
begin

text \<open>
  What a file that loads looks like: its headers are those of a native executable, read from
  their places in the file, and the process image fits them.
\<close>

section \<open>The bytes of the headers\<close>

lemma ld8_getb: "offset + n \<le> length file \<Longrightarrow> k < n \<Longrightarrow> ld8 (getb file offset n dest) k = ld8 file (offset + k)"
  by (auto simp: getb_def GETB_def ld8_def rd_def nth_append)

lemma ld16_getb: "offset + n \<le> length file \<Longrightarrow> k + 2 \<le> n \<Longrightarrow> ld16 (getb file offset n dest) k = ld16 file (offset + k)"
  by (simp add: ld16_def ld8_getb)

lemma ld32_getb: "offset + n \<le> length file \<Longrightarrow> k + 4 \<le> n \<Longrightarrow> ld32 (getb file offset n dest) k = ld32 file (offset + k)"
  by (simp add: ld32_def ld16_getb add.assoc del: add_2_eq_Suc')

lemma ld64_getb: "offset + n \<le> length file \<Longrightarrow> k + 8 \<le> n \<Longrightarrow> ld64 (getb file offset n dest) k = ld64 file (offset + k)"
  by (simp add: ld64_def ld32_getb add.assoc)

lemmas ld_getb = ld16_getb ld32_getb ld64_getb

definition file_hdr_at :: "mem \<Rightarrow> nat \<Rightarrow> pe_image_file_hdr \<Rightarrow> bool" where
  "file_hdr_at f a h \<longleftrightarrow> ld32 f a = Some (hdr_Magic h) \<and> ld16 f (a + 4) = Some (hdr_Machine h) \<and>
     ld16 f (a + 6) = Some (hdr_NumberOfSections h) \<and> ld16 f (a + 20) = Some (hdr_SizeOfOptionalHeader h)"

definition optional_hdr_at :: "mem \<Rightarrow> nat \<Rightarrow> pe_image_optional_hdr64 \<Rightarrow> bool" where
  "optional_hdr_at f a h \<longleftrightarrow> ld16 f a = Some (opt_Magic h) \<and> ld32 f (a + 16) = Some (opt_AddressOfEntryPoint h) \<and>
     ld64 f (a + 24) = Some (opt_ImageBase h) \<and> ld32 f (a + 32) = Some (opt_SectionAlignment h) \<and>
     ld32 f (a + 36) = Some (opt_FileAlignment h) \<and> ld32 f (a + 60) = Some (opt_SizeOfHeaders h) \<and>
     ld16 f (a + 68) = Some (opt_Subsystem h) \<and> ld32 f (a + 108) = Some (opt_NumberOfRvaAndSizes h) \<and>
     ld32 f (a + 120) = Some (opt_ImportAddress h) \<and> ld32 f (a + 124) = Some (opt_ImportSize h)"

definition section_hdr_at :: "mem \<Rightarrow> nat \<Rightarrow> pe_image_section_hdr \<Rightarrow> bool" where
  "section_hdr_at f a s \<longleftrightarrow> ld32 f (a + 8) = Some (sec_VirtualSize s) \<and> ld32 f (a + 12) = Some (sec_VirtualAddress s) \<and>
     ld32 f (a + 16) = Some (sec_SizeOfRawData s) \<and> ld32 f (a + 20) = Some (sec_PointerToRawData s) \<and>
     ld32 f (a + 36) = Some (sec_Characteristics s)"

text \<open>The DOS header names the offset of the PE header; the other headers follow one another.\<close>

definition headers_at :: "mem \<Rightarrow> headers \<Rightarrow> bool" where
  "headers_at f h \<longleftrightarrow> ld16 f 0 = Some 0x5a4d \<and> ld32 f 0x3c = Some (pe_off h) \<and>
     file_hdr_at f (unat (pe_off h)) (pe_hdr h) \<and> optional_hdr_at f (unat (pe_off h) + 24) (pe_opt h) \<and>
     (\<forall>i < length (sections h). section_hdr_at f (unat (pe_off h) + 264 + 40 * i) (sections h ! i))"

lemma section_hdrs_of_length: "section_hdrs_of b a n = Some ss \<Longrightarrow> length ss = n"
  by (induction n arbitrary: a ss) (auto simp: bind_eq_Some_conv)

lemma section_hdrs_of_nth:
  "section_hdrs_of b a n = Some ss \<Longrightarrow> i < n \<Longrightarrow> section_hdr_at b (a + 40 * i) (ss ! i)"
proof (induction n arbitrary: a ss i)
  case (Suc n)
  from Suc.prems(1) obtain s ts where s: "section_hdr_of b a = Some s" "section_hdrs_of b (a + 40) n = Some ts" "ss = s # ts"
    by (auto simp: bind_eq_Some_conv)
  show ?case
  proof (cases i)
    case 0
    then show ?thesis using s by (auto simp: section_hdr_of_def section_hdr_at_def bind_eq_Some_conv)
  next
    case (Suc k)
    then show ?thesis using Suc.IH [OF s(2), of k] Suc.prems(2) s(3) by (simp add: add.assoc)
  qed
qed simp

lemma file_hdr_at_getb:
  "file_hdr_of (getb f a 24 dest) = Some h \<Longrightarrow> a + 24 \<le> length f \<Longrightarrow> file_hdr_at f a h"
  by (auto simp: file_hdr_of_def file_hdr_at_def ld_getb bind_eq_Some_conv)

lemma optional_hdr_at_getb:
  "optional_hdr_of (getb f a 240 dest) = Some h \<Longrightarrow> a + 240 \<le> length f \<Longrightarrow> optional_hdr_at f a h"
  by (auto simp: optional_hdr_of_def optional_hdr_at_def ld_getb bind_eq_Some_conv)

lemma section_hdr_at_getb:
  "section_hdr_at (getb f offset n dest) a s \<Longrightarrow> offset + n \<le> length f \<Longrightarrow> a + 40 \<le> n \<Longrightarrow> section_hdr_at f (offset + a) s"
  by (simp add: section_hdr_at_def ld_getb add.assoc)

lemma and_mz: "w AND 0xffff = 0x5a4d \<Longrightarrow> ld32 f 0 = Some w \<Longrightarrow> ld16 f 0 = Some 0x5a4d"
proof -
  assume w: "w AND 0xffff = 0x5a4d" and "ld32 f 0 = Some w"
  then obtain lo hi where lo: "ld16 f 0 = Some lo" "w = ucast lo + 0x10000 * ucast (hi :: u16)"
    by (auto simp: ld32_def bind_eq_Some_conv)
  have b: "unat lo < 65536" "unat hi < 65536" using unsigned_less [of lo] unsigned_less [of hi] by simp_all
  then have "unat w = unat lo + 65536 * unat hi" by (simp add: lo(2) unat_word_ariths unsigned_ucast_eq take_bit_eq_mod)
  then have "unat w mod 65536 = unat lo" using b by simp
  moreover have "w AND 0xffff = take_bit 16 w" by (simp add: take_bit_eq_mask mask_eq_exp_minus_1)
  then have "unat w mod 65536 = 0x5a4d" using arg_cong [OF w, of unat] by (simp add: unsigned_take_bit_eq take_bit_eq_mod unat_mod_distrib)
  ultimately have "unat lo = unat (0x5a4d :: u16)" by simp
  then have "lo = 0x5a4d" by (rule unsigned_word_eqI)
  with lo show ?thesis by simp
qed

lemma read_headers_at:
  assumes "read_headers H file = Some (Inr h)" "unat (pe_off h) + 264 + 40 * length (sections h) \<le> length file"
    and "sections h \<noteq> []"
  shows "headers_at file h"
proof -
  let ?o = "unat (pe_off h)"
  obtain b0 w0 opt n where
    1: "b0 = getb file 0 4 (replicate 4 0)" "ld32 b0 0 = Some w0" "w0 AND 0xffff = 0x5a4d"
    "ld32 (getb file 0x3c 4 b0) 0 = Some (pe_off h)"
    "file_hdr_of (getb file ?o 24 (replicate 24 0)) = Some (pe_hdr h)"
    "optional_hdr_of (getb file (?o + 24) 240 (replicate 240 0)) = Some (pe_opt h)"
    "n = unat (hdr_NumberOfSections (pe_hdr h))"
    "section_hdrs_of (getb file (?o + 24 + 240) (40 * n) (replicate 640 0)) 0 n = Some (sections h)"
    using assms(1)
    by (auto simp: read_headers_def GETB_eq Let_def bind_eq_Some_conv add.assoc split: if_splits option.splits)
  have n: "length (sections h) = n" using section_hdrs_of_length 1(8) by blast
  with assms have len: "0x40 \<le> length file" "?o + 264 + 40 * n \<le> length file" by (cases "sections h"; simp)+
  have "ld32 file 0 = Some w0" "ld32 file 0x3c = Some (pe_off h)" using 1(1,2,4) len(1) by (simp_all add: ld_getb)
  moreover have "file_hdr_at file ?o (pe_hdr h)"
    by (rule file_hdr_at_getb [OF 1(5)]) (use len in simp)
  moreover have "optional_hdr_at file (?o + 24) (pe_opt h)" by (rule optional_hdr_at_getb [OF 1(6)]) (use len in simp)
  moreover have "section_hdr_at file (?o + 264 + 40 * i) (sections h ! i)" if "i < n" for i
    using section_hdr_at_getb [OF section_hdrs_of_nth [OF 1(8) that]] len that by (simp add: add.assoc)
  ultimately show ?thesis using and_mz [OF 1(3)] n by (simp add: headers_at_def)
qed


section \<open>A native executable\<close>

text \<open>What the headers must say: a 64-bit native image with one to sixteen sections, aligned to the pages.\<close>

definition native_headers :: "nat \<Rightarrow> headers \<Rightarrow> bool" where
  "native_headers page h \<longleftrightarrow>
     hdr_Magic (pe_hdr h) = 0x4550 \<and> hdr_Machine (pe_hdr h) = 0x8664 \<and>
     1 \<le> length (sections h) \<and> length (sections h) \<le> 16 \<and> length (sections h) = unat (hdr_NumberOfSections (pe_hdr h)) \<and>
     240 \<le> unat (hdr_SizeOfOptionalHeader (pe_hdr h)) \<and> opt_Magic (pe_opt h) = 0x20b \<and> opt_Subsystem (pe_opt h) = 1 \<and>
     opt_NumberOfRvaAndSizes (pe_opt h) = 16 \<and> page dvd unat (opt_ImageBase (pe_opt h)) \<and>
     page dvd unat (opt_SectionAlignment (pe_opt h))"

lemma read_headers_checked:
  assumes "read_headers H file = Some (Inr h)"
  shows "check_file_hdr (pe_hdr h) = None \<and> check_optional_hdr H (pe_opt h) = None \<and>
    length (sections h) = unat (hdr_NumberOfSections (pe_hdr h))"
  using assms
  by (auto simp: read_headers_def GETB_eq Let_def bind_eq_Some_conv section_hdrs_of_length split: if_splits option.splits)

lemma word_mod_dvd: "w mod v = 0 \<Longrightarrow> unat v dvd unat w" for v w :: "'a :: len word"
  using unat_mod_distrib [of w v] by (simp add: dvd_eq_mod_eq_0)

lemma read_headers_native:
  assumes "read_headers H file = Some (Inr h)"
  shows "native_headers (unat (page_size H)) h"
proof -
  have c: "check_file_hdr (pe_hdr h) = None" "check_optional_hdr H (pe_opt h) = None"
    "length (sections h) = unat (hdr_NumberOfSections (pe_hdr h))" using read_headers_checked [OF assms] by blast+
  have "unat (hdr_NumberOfSections (pe_hdr h)) \<noteq> 0" "unat (hdr_NumberOfSections (pe_hdr h)) \<le> 16"
    "240 \<le> unat (hdr_SizeOfOptionalHeader (pe_hdr h))"
    using c(1) by (auto simp: check_file_hdr_def unat_eq_0 word_le_nat_alt not_less split: if_splits)
  moreover have "opt_ImageBase (pe_opt h) mod ucast (page_size H) = 0" "opt_SectionAlignment (pe_opt h) mod page_size H = 0"
    using c(2) by (simp_all add: check_optional_hdr_def split: if_splits)
  note this [THEN word_mod_dvd]
  moreover have "unat (ucast (page_size H) :: u64) = unat (page_size H)"
    using unat_u32_less [of "page_size H"] by (simp add: unsigned_ucast_eq take_bit_nat_eq_self)
  ultimately show ?thesis using c
    by (auto simp: native_headers_def check_file_hdr_def check_optional_hdr_def Suc_le_eq split: if_splits)
qed

section \<open>The process image\<close>

text \<open>Rounding down and up to a multiple of \<open>a\<close>.\<close>

definition round_down :: "nat \<Rightarrow> nat \<Rightarrow> nat" where
  "round_down a v = (if a = 0 then v else v - v mod a)"

definition round_up :: "nat \<Rightarrow> nat \<Rightarrow> nat" where
  "round_up a v = (if a = 0 then v else if a dvd v then v else v - v mod a + a)"

text \<open>Where a section begins in the image, its size there and its end, in 32 bits.\<close>

definition sec_start :: "pe_image_optional_hdr64 \<Rightarrow> pe_image_section_hdr \<Rightarrow> nat" where
  "sec_start opt s = round_down (unat (opt_SectionAlignment opt)) (unat (sec_VirtualAddress s))"

definition sec_room :: "pe_image_optional_hdr64 \<Rightarrow> pe_image_section_hdr \<Rightarrow> nat" where
  "sec_room opt s = round_up (unat (opt_SectionAlignment opt)) (unat (sec_VirtualSize s)) mod 2 ^ 32"

definition sec_end :: "pe_image_optional_hdr64 \<Rightarrow> pe_image_section_hdr \<Rightarrow> nat" where
  "sec_end opt s = (sec_start opt s + sec_room opt s) mod 2 ^ 32"

lemma unat_PEALIGN: "unat (PEALIGN v a) = round_down (unat a) (unat v)"
proof -
  have "unat v div unat a * unat a < 2 ^ 32" using unat_u32_less [of v] div_times_less_eq_dividend [of "unat v" "unat a"] by linarith
  then show ?thesis
    by (auto simp: PEALIGN_def round_down_def unat_word_ariths unat_div_distrib minus_mod_eq_div_mult unat_eq_0 mod_mult_left_eq)
qed

lemma unat_PESALIGN: "unat (PESALIGN v a) = round_up (unat a) (unat v) mod 2 ^ 32"
proof (cases "a = 0")
  case False
  then have a: "unat a \<noteq> 0" by (simp add: unat_eq_0)
  have m: "v mod a = 0 \<longleftrightarrow> unat a dvd unat v"
    by (simp add: word_unat_eq_iff unat_mod_distrib dvd_eq_mod_eq_0)
  show ?thesis
  proof (cases "unat a dvd unat v")
    case True
    then show ?thesis using False m a unat_u32_less [of v]
      by (simp add: PESALIGN_def round_up_def unat_word_ariths unat_div_distrib mod_mult_left_eq)
  next
    case False': False
    have "unat (PESALIGN v a) = (unat v div unat a + 1) mod 2 ^ 32 * unat a mod 2 ^ 32"
      using False False' m by (simp add: PESALIGN_def unat_word_ariths unat_div_distrib mod_simps)
    also have "\<dots> = (unat v div unat a + 1) * unat a mod 2 ^ 32" by (rule mod_mult_left_eq)
    also have "(unat v div unat a + 1) * unat a = unat v - unat v mod unat a + unat a"
      by (simp add: minus_mod_eq_div_mult)
    finally show ?thesis using a False' by (simp add: round_up_def)
  qed
next
  case True
  then show ?thesis using unat_u32_less [of v] by (simp add: PESALIGN_def round_up_def)
qed

lemma unat_sec: "unat (sec_rva opt s) = sec_start opt s" "unat (sec_vsz opt s) = sec_room opt s"
    "unat (sec_rva opt s + sec_vsz opt s) = sec_end opt s"
  by (simp_all add: sec_rva_def sec_vsz_def sec_start_def sec_room_def sec_end_def unat_PEALIGN unat_PESALIGN unat_word_ariths)

lemma image_extent_bounds:
  "image_extent opt ss lo sz = (lo', sz') \<Longrightarrow>
     unat lo' = Min (insert (unat lo) (sec_start opt ` set ss)) \<and> unat sz' = Max (insert (unat sz) (sec_end opt ` set ss))"
proof (induction ss arbitrary: lo sz)
  case (Cons s ss)
  have "unat (if sec_rva opt s < lo then sec_rva opt s else lo) = min (unat lo) (sec_start opt s)"
    by (simp add: word_less_nat_alt min_def unat_sec flip: not_less)
  moreover have "unat (if sz < sec_rva opt s + sec_vsz opt s then sec_rva opt s + sec_vsz opt s else sz) = max (unat sz) (sec_end opt s)"
    by (simp add: word_less_nat_alt max_def unat_sec flip: not_less)
  moreover note Cons.IH [OF Cons.prems [unfolded image_extent.simps]]
  ultimately show ?case by (cases "ss = []") (simp_all add: min.assoc max.assoc)
qed simp

text \<open>\<^verbatim>\<open>PROT_READ\<close>, \<^verbatim>\<open>PROT_WRITE\<close> and \<^verbatim>\<open>PROT_EXEC\<close> are the bits 0 to 2.\<close>

definition protects :: "u32 \<Rightarrow> u32 \<Rightarrow> bool" where
  "protects c p \<longleftrightarrow> (\<forall>n. bit p n \<longleftrightarrow> n = 0 \<and> bit c 30 \<or> n = 1 \<and> bit c 31 \<or> n = 2 \<and> bit c 29)"

lemma characteristics_bits: fixes c :: u32
  shows "c AND 0x20000000 \<noteq> 0 \<longleftrightarrow> bit c 29" "c AND 0x40000000 \<noteq> 0 \<longleftrightarrow> bit c 30" "c AND 0x80000000 \<noteq> 0 \<longleftrightarrow> bit c 31"
  using bit_iff_and_push_bit_not_eq_0 [of c 29] bit_iff_and_push_bit_not_eq_0 [of c 30] bit_iff_and_push_bit_not_eq_0 [of c 31]
  by simp_all

lemma flag_bits: "bit (if b then 1 else 0 :: u32) n \<longleftrightarrow> b \<and> n = 0" "bit (if b then 2 else 0 :: u32) n \<longleftrightarrow> b \<and> n = 1"
    "bit (if b then 4 else 0 :: u32) n \<longleftrightarrow> b \<and> n = 2"
proof -
  have e: "(2 :: u32) = push_bit 1 1" "(4 :: u32) = push_bit 2 1" by simp_all
  show "bit (if b then 1 else 0 :: u32) n \<longleftrightarrow> b \<and> n = 0" "bit (if b then 2 else 0 :: u32) n \<longleftrightarrow> b \<and> n = 1"
    "bit (if b then 4 else 0 :: u32) n \<longleftrightarrow> b \<and> n = 2"
    unfolding e by (cases b; simp only: bit_push_bit_iff bit_1_iff if_True if_False bit_0_eq bot_apply; auto simp: possible_bit_def)+
qed

lemma section_prot_protects: "protects (sec_Characteristics s) (section_prot s)"
  unfolding protects_def section_prot_def characteristics_bits bit_or_iff flag_bits by blast


text \<open>Whole pages up to the end of the last section, tables of one length, and the protections.\<close>

definition image_ok :: "nat \<Rightarrow> mem \<Rightarrow> loaded \<Rightarrow> bool" where
  "image_ok page file L \<longleftrightarrow> (let h = l_headers L; opt = pe_opt h; st = l_imports L;
       first = Min (sec_start opt ` set (sections h)); last = Max (sec_end opt ` set (sections h)) in
     native_headers page h \<and>
     (unat (pe_off h) + 264 + 40 * length (sections h) \<le> length file \<longrightarrow> headers_at file h) \<and>
     page dvd length (l_image L) \<and> last \<le> length (l_image L) \<and> length (l_image L) < last + page \<and>
     length (import_names st) = length (thunks st) \<and> length (import_addrs st) = length (thunks st) \<and>
     list_all (\<lambda>t. t + 8 \<le> last) (thunks st) \<and>
     (\<exists>len ps. l_prots L = (0, len, 1) # ps \<and> unat len = min first ((unat (pe_off h) + unat (opt_SizeOfHeaders opt)) mod 2 ^ 32) \<and>
        list_all2 (\<lambda>s (a, n, p). unat a = sec_start opt s \<and> unat n = sec_room opt s \<and> protects (sec_Characteristics s) p)
          (sections h) ps) \<and>
     l_entry L = opt_ImageBase opt + ucast (opt_AddressOfEntryPoint opt))"

lemma page_round_bounds:
  assumes "page \<noteq> 0"
  shows "page dvd page_round page n" "n \<le> page_round page n" "page_round page n < n + page"
proof -
  have d: "(n + (page - 1)) div page * page = n + (page - 1) - (n + (page - 1)) mod page" by (simp add: minus_mod_eq_div_mult)
  have "(n + (page - 1)) mod page \<le> page - 1" using assms by (simp add: less_Suc_eq_le [symmetric])
  then show "n \<le> page_round page n" "page_round page n < n + page" using assms d by (simp_all add: page_round_def)
  show "page dvd page_round page n" using assms by (simp add: page_round_def)
qed

lemma image_bounds_ends:
  assumes "sections (l_headers L) \<noteq> []"
  shows "unat (fst (image_bounds L)) = Min (sec_start (pe_opt (l_headers L)) ` set (sections (l_headers L)))"
    "unat (snd (image_bounds L)) = Max (sec_end (pe_opt (l_headers L)) ` set (sections (l_headers L)))"
proof -
  let ?o = "pe_opt (l_headers L)" and ?s = "set (sections (l_headers L))"
  have e: "unat (fst (image_bounds L)) = Min (insert (unat (0xffffffff :: u32)) (sec_start ?o ` ?s))"
    "unat (snd (image_bounds L)) = Max (insert (unat (0 :: u32)) (sec_end ?o ` ?s))"
    using image_extent_bounds [of ?o "sections (l_headers L)" "0xffffffff" 0 "fst (image_bounds L)" "snd (image_bounds L)"]
    by (simp_all add: image_bounds_def)
  have "sec_start ?o s \<le> unat (0xffffffff :: u32)" for s
    using unat_u32_less [of "sec_rva ?o s"] by (simp add: unat_sec)
  moreover have "Min (sec_start ?o ` ?s) \<le> sec_start ?o (hd (sections (l_headers L)))" using assms by (intro Min_le) auto
  ultimately have "Min (sec_start ?o ` ?s) \<le> unat (0xffffffff :: u32)" by (rule order_trans [rotated])
  then show "unat (fst (image_bounds L)) = Min (sec_start ?o ` ?s)"
    unfolding e(1) using assms by (subst Min_insert) auto
  show "unat (snd (image_bounds L)) = Max (sec_end ?o ` ?s)" unfolding e(2) using assms by (subst Max_insert) auto
qed

lemma header_length_min:
  "unat (header_length L) = min (unat (fst (image_bounds L)))
     ((unat (pe_off (l_headers L)) + unat (opt_SizeOfHeaders (pe_opt (l_headers L)))) mod 2 ^ 32)"
proof -
  have "unat (header_length L) = min (unat (fst (image_bounds L))) (unat (pe_off (l_headers L) + opt_SizeOfHeaders (pe_opt (l_headers L))))"
    by (simp add: header_length_def Let_def word_less_nat_alt min_def)
  then show ?thesis by (simp add: unat_word_ariths)
qed

lemma import_tables_length:
  "length (import_names_of ls) = length (import_slots_of ls)" "length (import_addrs_of exports ls) = length (import_slots_of ls)"
  by (induction ls) (simp_all add: import_names_of_def import_addrs_of_def import_slots_of_def)

lemma contained_end: "CLI_ISCONTAINED sz t 8 \<Longrightarrow> t + 8 \<le> unat sz"
  by (simp add: CLI_ISCONTAINED_def)

text \<open>
  C23. A file that loads is a native 64-bit executable: its headers have the magic numbers, the machine, the
  subsystem and the counts they must have, its base and section alignment are multiples of the page size, and, when the file is long
  enough to hold them, every field stands in the file where the format puts it.  The process image is whole pages, as
  few as reach the end of the last section; the import tables have one length and every slot lies before that end; the
  header is readable, each section has the pages its address and size round to and exactly the rights
  its characteristics name, and the entry point is relative to the base.  (Fewer than \<open>2 ^ 32\<close> imports, and a page size that is not \<open>0\<close>.)
\<close>

theorem loaded_image_ok:
  assumes "setup_nloader H exports file = Some (Inr L)" "length (thunks (l_imports L)) < 2 ^ 32" "page_size H \<noteq> 0"
  shows "image_ok (unat (page_size H)) file L"
proof -
  let ?h = "l_headers L" and ?o = "pe_opt (l_headers L)"
  from setup_nloader_parts [OF assms(1)] obtain img1 img2 where
    1: "read_headers H file = Some (Inr ?h)"
    "map_sections ?o file (sections ?h) (fresh_pages H (snd (image_bounds L))) = Some (Inr img1)"
    "patch_imports H (snd (image_bounds L)) (l_imports L) img1 = Some (Inr (img2, l_stubs_base L, l_stubs L))"
    "map_header H ?h file (fst (image_bounds L)) img2 = Some (Inr (header_length L, l_image L))"
    "l_prots L = (0, header_length L, 1) # map (\<lambda>s. (sec_rva ?o s, sec_vsz ?o s, section_prot s)) (sections ?h)"
    "l_entry L = opt_ImageBase ?o + ucast (opt_AddressOfEntryPoint ?o)" by blast
  have native: "native_headers (unat (page_size H)) ?h" by (rule read_headers_native [OF 1(1)])
  then have ne: "sections ?h \<noteq> []" by (auto simp: native_headers_def)
  note b = image_bounds_ends [OF ne]
  have "length (l_image L) = page_round (unat (page_size H)) (unat (snd (image_bounds L)))"
    using map_sections_length [OF 1(2)] patch_imports_keeps [OF 1(3) assms(2)] map_header_parts(1) [OF 1(4)] by (simp add: fresh_pages_def)
  moreover have "unat (page_size H) \<noteq> 0" using assms(3) by (simp add: unat_eq_0)
  moreover have "list_all (\<lambda>t. t + 8 \<le> unat (snd (image_bounds L))) (thunks (l_imports L))"
    using patch_imports_keeps [OF 1(3) assms(2)] by (auto simp: list_all_iff dest: contained_end)
  moreover have "length (import_names (l_imports L)) = length (thunks (l_imports L)) \<and>
      length (import_addrs (l_imports L)) = length (thunks (l_imports L))"
    by (rule setup_nloader_directory [OF assms(1)]) (simp add: import_tables_length)
  ultimately show ?thesis
    using native read_headers_at [OF 1(1) _ ne] 1(6) page_round_bounds
    by (simp add: image_ok_def Let_def b [symmetric] 1(5) header_length_min list_all2_map2 unat_sec section_prot_protects list.rel_refl_strong)
qed

theorem loaded_image_ok_witness: "image_ok 4 sample_file sample_loaded \<and> headers_at sample_file sample_headers"
proof -
  have "page_size sample_host \<noteq> 0" "length (thunks (l_imports sample_loaded)) < 2 ^ 32" "unat (page_size sample_host) = 4"
    "l_headers sample_loaded = sample_headers"
    by (simp_all add: sample_host_def sample_loaded_def)
  moreover from this loaded_image_ok [OF sample_loads] have ok: "image_ok 4 sample_file sample_loaded" by simp
  moreover have "unat (pe_off sample_headers) + 264 + 40 * length (sections sample_headers) \<le> length sample_file" by code_simp
  ultimately show ?thesis by (simp add: image_ok_def Let_def)
qed

end
