(* ===== verification/Bitmap.thy ===== *)
theory Bitmap
  imports Prelude
begin

text \<open>
  The bitmap package, \<^verbatim>\<open>libs/ntdll/bitmap.c\<close>, and \<^verbatim>\<open>RtlFillMemoryUlong\<close> of
  \<^verbatim>\<open>rtl.c\<close> on which it rests: definitions only, in the order of the source.

  A bitmap is its header: the number of bits and the array of 32-bit words that
  \<^verbatim>\<open>Buffer\<close> points to.  A C pointer into the array is the index of the word; reading or
  writing at an index outside the array is \<open>None\<close>.  All index arithmetic is on \<open>32 word\<close>
  and wraps as the C \<^verbatim>\<open>ULONG\<close> does.  The search loops are
  \<^theory_text>\<open>partial_function\<close>s: \<open>None\<close> is also "does not return".  Functions the
  preprocessor removes (\<^verbatim>\<open>#if 0\<close>) are left out.
\<close>

section \<open>Data\<close>

record rtl_bitmap =
  SizeOfBitMap :: u32
  Buffer :: "u32 list"

record rtl_bitmap_run =
  StartingIndex :: u32
  NumberOfBits :: u32

text \<open>Number of set bits per byte value.\<close>

definition BitCountTable :: "u32 list" where
  "BitCountTable =
     [0, 1, 1, 2, 1, 2, 2, 3, 1, 2, 2, 3, 2, 3, 3, 4,
      1, 2, 2, 3, 2, 3, 3, 4, 2, 3, 3, 4, 3, 4, 4, 5,
      1, 2, 2, 3, 2, 3, 3, 4, 2, 3, 3, 4, 3, 4, 4, 5,
      2, 3, 3, 4, 3, 4, 4, 5, 3, 4, 4, 5, 4, 5, 5, 6,
      1, 2, 2, 3, 2, 3, 3, 4, 2, 3, 3, 4, 3, 4, 4, 5,
      2, 3, 3, 4, 3, 4, 4, 5, 3, 4, 4, 5, 4, 5, 5, 6,
      2, 3, 3, 4, 3, 4, 4, 5, 3, 4, 4, 5, 4, 5, 5, 6,
      3, 4, 4, 5, 4, 5, 5, 6, 4, 5, 5, 6, 5, 6, 6, 7,
      1, 2, 2, 3, 2, 3, 3, 4, 2, 3, 3, 4, 3, 4, 4, 5,
      2, 3, 3, 4, 3, 4, 4, 5, 3, 4, 4, 5, 4, 5, 5, 6,
      2, 3, 3, 4, 3, 4, 4, 5, 3, 4, 4, 5, 4, 5, 5, 6,
      3, 4, 4, 5, 4, 5, 5, 6, 4, 5, 5, 6, 5, 6, 6, 7,
      2, 3, 3, 4, 3, 4, 4, 5, 3, 4, 4, 5, 4, 5, 5, 6,
      3, 4, 4, 5, 4, 5, 5, 6, 4, 5, 5, 6, 5, 6, 6, 7,
      3, 4, 4, 5, 4, 5, 5, 6, 4, 5, 5, 6, 5, 6, 6, 7,
      4, 5, 5, 6, 5, 6, 6, 7, 5, 6, 6, 7, 6, 7, 7, 8]"

section \<open>Bit scans\<close>

text \<open>
  \<open>ctz32\<close> and \<open>clz32\<close> are the compiler's \<^verbatim>\<open>__builtin_ctz\<close> and
  \<^verbatim>\<open>__builtin_clz\<close> on 32 bits.  \<open>BitScanForward\<close> and \<open>BitScanReverse\<close> return the
  flag and the new value of \<^verbatim>\<open>*Index\<close>, which keeps its old value when the mask is 0.
\<close>

definition ctz32 :: "u32 \<Rightarrow> nat" where
  "ctz32 w = length (takeWhile (\<lambda>i. \<not> bit w i) [0..<32])"

definition clz32 :: "u32 \<Rightarrow> nat" where
  "clz32 w = length (takeWhile (\<lambda>i. \<not> bit w i) (rev [0..<32]))"

definition BitScanForward :: "u32 \<Rightarrow> u32 \<Rightarrow> bool \<times> u32" where
  "BitScanForward index msk = (if msk = 0 then (False, index) else (True, of_nat (ctz32 msk)))"

definition BitScanReverse :: "u32 \<Rightarrow> u32 \<Rightarrow> bool \<times> u32" where
  "BitScanReverse index msk =
     (if msk = 0 then (False, index) else (True, of_nat (31 - clz32 msk)))"

definition RtlFindMostSignificantBit :: "u64 \<Rightarrow> int" where
  "RtlFindMostSignificantBit Value =
     (case BitScanReverse 0 (ucast (drop_bit 32 Value)) of
        (True, Position) \<Rightarrow> uint (Position + 32)
      | (False, _) \<Rightarrow>
          (case BitScanReverse 0 (ucast Value) of
             (True, Position) \<Rightarrow> uint Position
           | (False, _) \<Rightarrow> - 1))"

definition RtlFindLeastSignificantBit :: "u64 \<Rightarrow> int" where
  "RtlFindLeastSignificantBit Value =
     (case BitScanForward 0 (ucast Value) of
        (True, Position) \<Rightarrow> uint Position
      | (False, _) \<Rightarrow>
          (case BitScanForward 0 (ucast (drop_bit 32 Value)) of
             (True, Position) \<Rightarrow> uint (Position + 32)
           | (False, _) \<Rightarrow> - 1))"

section \<open>Run lengths\<close>

text \<open>
  The loop "skip all clear ULONGs": \<open>i\<close> is the read pointer, \<open>mx\<close> is \<^verbatim>\<open>MaxBuffer\<close>;
  the result is the last value read and the pointer behind it.  The same loop serves
  \<open>RtlpGetLengthOfRunSet\<close>, which reads each word inverted (\<open>f\<close> is \<open>NOT\<close> there and the
  identity here).
\<close>

function skip_ulongs :: "(u32 \<Rightarrow> u32) \<Rightarrow> u32 list \<Rightarrow> nat \<Rightarrow> u32 \<Rightarrow> nat \<Rightarrow> (u32 \<times> nat) option" where
  "skip_ulongs f buf mx v i =
     (if v = 0 \<and> i < mx
      then Option.bind (rd buf i) (\<lambda>w. skip_ulongs f buf mx (f w) (Suc i))
      else Some (v, i))"
  by pat_completeness auto
termination
  by (relation "measure (\<lambda>(f, buf, mx, v, i). mx - i)") auto

declare skip_ulongs.simps [simp del]

definition RtlpGetLengthOfRunClear :: "rtl_bitmap \<Rightarrow> u32 \<Rightarrow> u32 \<Rightarrow> u32 option" where
  "RtlpGetLengthOfRunClear bm Start MaxLen = do {
     let B = unat (Start div 32);
     let BitPos = Start AND 31;
     let MaxLength = min MaxLen (SizeOfBitMap bm - Start);
     let MaxBuffer = B + unat ((BitPos + MaxLength + 31) div 32);
     w \<leftarrow> rd (Buffer bm) B;
     let Value0 = push_bit (unat BitPos) (drop_bit (unat BitPos) w);
     (Value, i) \<leftarrow> skip_ulongs (\<lambda>w. w) (Buffer bm) MaxBuffer Value0 (Suc B);
     if Value = 0 then Some MaxLength
     else do {
       let Pos = snd (BitScanForward BitPos Value);
       let Length = (of_nat i * 32 - Start) + (Pos - 32);
       Some (if Length > SizeOfBitMap bm - Start then SizeOfBitMap bm - Start else Length)
     }
   }"

definition RtlpGetLengthOfRunSet :: "rtl_bitmap \<Rightarrow> u32 \<Rightarrow> u32 \<Rightarrow> u32 option" where
  "RtlpGetLengthOfRunSet bm Start MaxLen = do {
     let B = unat (Start div 32);
     let BitPos = Start AND 31;
     let MaxLength = min MaxLen (SizeOfBitMap bm - Start);
     let MaxBuffer = B + unat ((BitPos + MaxLength + 31) div 32);
     w \<leftarrow> rd (Buffer bm) B;
     let InvValue0 = push_bit (unat BitPos) (drop_bit (unat BitPos) (NOT w));
     (InvValue, i) \<leftarrow> skip_ulongs (\<lambda>w. NOT w) (Buffer bm) MaxBuffer InvValue0 (Suc B);
     if InvValue = 0 then Some MaxLength
     else do {
       let Pos = snd (BitScanForward BitPos InvValue);
       let Length = (of_nat i * 32 - Start) + (Pos - 32);
       Some (if Length > SizeOfBitMap bm - Start then SizeOfBitMap bm - Start else Length)
     }
   }"

section \<open>Filling and clearing\<close>

text \<open>\<open>RtlFillMemoryUlong\<close> of \<^verbatim>\<open>rtl.c\<close>: \<open>i\<close> is the destination, the length is in bytes.\<close>

fun fill_loop :: "u32 list \<Rightarrow> nat \<Rightarrow> nat \<Rightarrow> u32 \<Rightarrow> u32 list option" where
  "fill_loop buf i 0 v = Some buf"
| "fill_loop buf i (Suc n) v = Option.bind (wr buf i v) (\<lambda>buf'. fill_loop buf' (Suc i) n v)"

definition RtlFillMemoryUlong :: "u32 list \<Rightarrow> nat \<Rightarrow> u32 \<Rightarrow> u32 \<Rightarrow> u32 list option" where
  "RtlFillMemoryUlong buf Dest Length Fill = fill_loop buf Dest (unat (Length div 4)) Fill"

definition RtlInitializeBitMap :: "u32 list \<Rightarrow> u32 \<Rightarrow> rtl_bitmap" where
  "RtlInitializeBitMap buf sz = \<lparr>SizeOfBitMap = sz, Buffer = buf\<rparr>"

definition RtlClearAllBits :: "rtl_bitmap \<Rightarrow> rtl_bitmap option" where
  "RtlClearAllBits bm = do {
     let LengthInUlongs = drop_bit 5 (SizeOfBitMap bm + 31);
     buf \<leftarrow> RtlFillMemoryUlong (Buffer bm) 0 (push_bit 2 LengthInUlongs) 0;
     Some (bm\<lparr>Buffer := buf\<rparr>)
   }"

definition RtlSetAllBits :: "rtl_bitmap \<Rightarrow> rtl_bitmap option" where
  "RtlSetAllBits bm = do {
     let LengthInUlongs = drop_bit 5 (SizeOfBitMap bm + 31);
     buf \<leftarrow> RtlFillMemoryUlong (Buffer bm) 0 (push_bit 2 LengthInUlongs) (NOT 0);
     Some (bm\<lparr>Buffer := buf\<rparr>)
   }"

text \<open>\<open>RtlClearBits\<close> and \<open>RtlSetBits\<close>: \<open>*Buffer &= m\<close> reads and writes one word.\<close>

definition and_at :: "u32 list \<Rightarrow> nat \<Rightarrow> u32 \<Rightarrow> u32 list option" where
  "and_at buf i m = Option.bind (rd buf i) (\<lambda>w. wr buf i (w AND m))"

definition or_at :: "u32 list \<Rightarrow> nat \<Rightarrow> u32 \<Rightarrow> u32 list option" where
  "or_at buf i m = Option.bind (rd buf i) (\<lambda>w. wr buf i (w OR m))"

text \<open>The part behind the unaligned head: full words, then what is left.\<close>

definition clear_aligned :: "u32 list \<Rightarrow> nat \<Rightarrow> u32 \<Rightarrow> u32 list option" where
  "clear_aligned buf B NumberToClear = do {
     buf1 \<leftarrow> RtlFillMemoryUlong buf B (drop_bit 3 NumberToClear) 0;
     let B' = B + unat (drop_bit 5 NumberToClear);
     let N = NumberToClear AND 31;
     let Mask = push_bit (unat N) MAXULONG;
     and_at buf1 B' Mask
   }"

definition set_aligned :: "u32 list \<Rightarrow> nat \<Rightarrow> u32 \<Rightarrow> u32 list option" where
  "set_aligned buf B NumberToSet = do {
     buf1 \<leftarrow> RtlFillMemoryUlong buf B (drop_bit 3 NumberToSet) MAXULONG;
     let B' = B + unat (drop_bit 5 NumberToSet);
     let N = NumberToSet AND 31;
     let Mask = push_bit (unat N) MAXULONG;
     or_at buf1 B' (NOT Mask)
   }"

definition RtlClearBits :: "rtl_bitmap \<Rightarrow> u32 \<Rightarrow> u32 \<Rightarrow> rtl_bitmap option" where
  "RtlClearBits bm Start NumberToClear = do {
     let B = unat (drop_bit 5 Start);
     let Bits = Start AND 31;
     buf \<leftarrow>
       (if Bits \<noteq> 0 then
          let Mask = push_bit (unat Bits) MAXULONG; Left = 32 - Bits in
          if NumberToClear < Left then
            let Left' = Left - NumberToClear;
                Mask' = drop_bit (unat Left') (push_bit (unat Left') Mask) in
            and_at (Buffer bm) B (NOT Mask')
          else do {
            buf1 \<leftarrow> and_at (Buffer bm) B (NOT Mask);
            clear_aligned buf1 (Suc B) (NumberToClear - Left)
          }
        else clear_aligned (Buffer bm) B NumberToClear);
     Some (bm\<lparr>Buffer := buf\<rparr>)
   }"

definition RtlSetBits :: "rtl_bitmap \<Rightarrow> u32 \<Rightarrow> u32 \<Rightarrow> rtl_bitmap option" where
  "RtlSetBits bm Start NumberToSet = do {
     let B = unat (drop_bit 5 Start);
     let Bits = Start AND 31;
     buf \<leftarrow>
       (if Bits \<noteq> 0 then
          let Mask = push_bit (unat Bits) MAXULONG; Left = 32 - Bits in
          if NumberToSet < Left then
            let Left' = Left - NumberToSet;
                Mask' = drop_bit (unat Left') (push_bit (unat Left') Mask) in
            or_at (Buffer bm) B Mask'
          else do {
            buf1 \<leftarrow> or_at (Buffer bm) B Mask;
            set_aligned buf1 (Suc B) (NumberToSet - Left)
          }
        else set_aligned (Buffer bm) B NumberToSet);
     Some (bm\<lparr>Buffer := buf\<rparr>)
   }"

section \<open>Tests and counts\<close>

definition RtlTestBit :: "rtl_bitmap \<Rightarrow> u32 \<Rightarrow> bool option" where
  "RtlTestBit bm n =
     Option.bind (rd (Buffer bm) (unat (drop_bit 5 n)))
       (\<lambda>w. Some (drop_bit (unat (n AND 31)) w AND 1 \<noteq> 0))"

definition RtlAreBitsClear :: "rtl_bitmap \<Rightarrow> u32 \<Rightarrow> u32 \<Rightarrow> bool option" where
  "RtlAreBitsClear bm Start Length =
     Option.bind (RtlpGetLengthOfRunClear bm Start Length) (\<lambda>r. Some (r \<ge> Length))"

definition RtlAreBitsSet :: "rtl_bitmap \<Rightarrow> u32 \<Rightarrow> u32 \<Rightarrow> bool option" where
  "RtlAreBitsSet bm Start Length =
     Option.bind (RtlpGetLengthOfRunSet bm Start Length) (\<lambda>r. Some (r \<ge> Length))"

text \<open>Byte \<open>k\<close> of the buffer, as \<^verbatim>\<open>(PUCHAR)Buffer\<close> reads it on a little-endian machine.\<close>

definition rd_byte :: "u32 list \<Rightarrow> nat \<Rightarrow> u8 option" where
  "rd_byte buf k = Option.bind (rd buf (k div 4)) (\<lambda>w. Some (ucast (drop_bit (8 * (k mod 4)) w)))"

text \<open>
  The \<^verbatim>\<open>do ... while (Byte <= MaxByte)\<close> loop: \<open>n\<close> bytes are still to be counted, the
  last one at \<^verbatim>\<open>MaxByte\<close> itself.
\<close>

fun count_bytes :: "u32 list \<Rightarrow> nat \<Rightarrow> nat \<Rightarrow> u32 \<Rightarrow> u32 option" where
  "count_bytes buf k 0 BitCount = Some BitCount"
| "count_bytes buf k (Suc n) BitCount =
     Option.bind (rd_byte buf k)
       (\<lambda>b. count_bytes buf (Suc k) n (BitCount + BitCountTable ! unat b))"

definition RtlNumberOfSetBits :: "rtl_bitmap \<Rightarrow> u32 option" where
  "RtlNumberOfSetBits bm =
     count_bytes (Buffer bm) 0 (Suc (unat ((SizeOfBitMap bm + 7) div 8))) 0"

definition RtlNumberOfClearBits :: "rtl_bitmap \<Rightarrow> u32 option" where
  "RtlNumberOfClearBits bm =
     Option.bind (RtlNumberOfSetBits bm) (\<lambda>n. Some (SizeOfBitMap bm - n))"

section \<open>Searches\<close>

text \<open>
  The search loop of \<open>RtlFindClearBits\<close>: the inner option is \<open>None\<close> when the loop ends
  without a find.
\<close>

partial_function (option) find_clear_loop ::
  "rtl_bitmap \<Rightarrow> u32 \<Rightarrow> u32 \<Rightarrow> u32 \<Rightarrow> u32 option option" where
  "find_clear_loop bm NumberToFind Margin CurrentBit =
     (if CurrentBit + NumberToFind < Margin then do {
        s \<leftarrow> RtlpGetLengthOfRunSet bm CurrentBit MAXULONG;
        let Current = CurrentBit + s;
        CurrentLength \<leftarrow> RtlpGetLengthOfRunClear bm Current NumberToFind;
        if CurrentLength \<ge> NumberToFind then Some (Some Current)
        else find_clear_loop bm NumberToFind Margin (Current + CurrentLength)
      } else Some None)"

text \<open>\<open>RtlFindClearBits\<close>; the header pointer may be \<^verbatim>\<open>NULL\<close> (\<open>None\<close>).\<close>

definition RtlFindClearBits :: "rtl_bitmap option \<Rightarrow> u32 \<Rightarrow> u32 \<Rightarrow> u32 option" where
  "RtlFindClearBits hdr NumberToFind HintIndex =
     (case hdr of None \<Rightarrow> Some MAXULONG
      | Some bm \<Rightarrow>
         if NumberToFind > SizeOfBitMap bm then Some MAXULONG
         else if NumberToFind = 0 then Some HintIndex
         else do {
           r \<leftarrow> find_clear_loop bm NumberToFind (SizeOfBitMap bm) HintIndex;
           case r of Some p \<Rightarrow> Some p
           | None \<Rightarrow>
               if HintIndex \<noteq> 0 then do {
                 r' \<leftarrow> find_clear_loop bm NumberToFind
                        (min (HintIndex + NumberToFind) (SizeOfBitMap bm)) 0;
                 case r' of Some p \<Rightarrow> Some p | None \<Rightarrow> Some MAXULONG
               } else Some MAXULONG
         })"

partial_function (option) find_set_loop ::
  "rtl_bitmap \<Rightarrow> u32 \<Rightarrow> u32 \<Rightarrow> u32 option" where
  "find_set_loop bm NumberToFind CurrentBit =
     (if CurrentBit + NumberToFind \<le> SizeOfBitMap bm then do {
        c \<leftarrow> RtlpGetLengthOfRunClear bm CurrentBit MAXULONG;
        let Current = CurrentBit + c;
        CurrentLength \<leftarrow> RtlpGetLengthOfRunSet bm Current NumberToFind;
        if CurrentLength \<ge> NumberToFind then Some Current
        else find_set_loop bm NumberToFind (Current + CurrentLength)
      } else Some MAXULONG)"

definition RtlFindSetBits :: "rtl_bitmap option \<Rightarrow> u32 \<Rightarrow> u32 \<Rightarrow> u32 option" where
  "RtlFindSetBits hdr NumberToFind HintIndex =
     (case hdr of None \<Rightarrow> Some MAXULONG
      | Some bm \<Rightarrow>
         if NumberToFind > SizeOfBitMap bm then Some MAXULONG
         else if NumberToFind = 0 then Some HintIndex
         else find_set_loop bm NumberToFind HintIndex)"

definition RtlFindClearBitsAndSet ::
  "rtl_bitmap \<Rightarrow> u32 \<Rightarrow> u32 \<Rightarrow> (u32 \<times> rtl_bitmap) option" where
  "RtlFindClearBitsAndSet bm NumberToFind HintIndex = do {
     Position \<leftarrow> RtlFindClearBits (Some bm) NumberToFind HintIndex;
     if Position \<noteq> MAXULONG then do {
       bm' \<leftarrow> RtlSetBits bm Position NumberToFind;
       Some (Position, bm')
     } else Some (Position, bm)
   }"

definition RtlFindSetBitsAndClear ::
  "rtl_bitmap \<Rightarrow> u32 \<Rightarrow> u32 \<Rightarrow> (u32 \<times> rtl_bitmap) option" where
  "RtlFindSetBitsAndClear bm NumberToFind HintIndex = do {
     Position \<leftarrow> RtlFindSetBits (Some bm) NumberToFind HintIndex;
     if Position \<noteq> MAXULONG then do {
       bm' \<leftarrow> RtlClearBits bm Position NumberToFind;
       Some (Position, bm')
     } else Some (Position, bm)
   }"

text \<open>The result is the run's length and \<^verbatim>\<open>*StartingRunIndex\<close>.\<close>

definition RtlFindNextForwardRunClear :: "rtl_bitmap \<Rightarrow> u32 \<Rightarrow> (u32 \<times> u32) option" where
  "RtlFindNextForwardRunClear bm FromIndex = do {
     Length \<leftarrow> RtlpGetLengthOfRunSet bm FromIndex MAXULONG;
     let StartingRunIndex = FromIndex + Length;
     r \<leftarrow> RtlpGetLengthOfRunClear bm (FromIndex + Length) MAXULONG;
     Some (r, StartingRunIndex)
   }"

text \<open>
  \<open>RtlFindClearRuns\<close>.  The caller's array is \<open>runs\<close>; the first loop fills it in order, the
  second one (\<open>LocateLongestRuns\<close>) replaces entries.  \<open>find_runs_fill\<close> returns the array,
  \<^verbatim>\<open>Run\<close>, \<^verbatim>\<open>FromIndex\<close> and \<^verbatim>\<open>SmallestRun\<close>.
\<close>

function find_runs_fill :: "rtl_bitmap \<Rightarrow> nat \<Rightarrow> rtl_bitmap_run list \<Rightarrow> nat \<Rightarrow> u32 \<Rightarrow> nat \<Rightarrow>
    (rtl_bitmap_run list \<times> nat \<times> u32 \<times> nat) option" where
  "find_runs_fill bm SizeOfRunArray runs Run FromIndex SmallestRun =
     (if Run < SizeOfRunArray then do {
        (n, start) \<leftarrow> RtlFindNextForwardRunClear bm FromIndex;
        if n = 0 then Some (runs, Run, FromIndex, SmallestRun)
        else do {
          runs' \<leftarrow> wr runs Run \<lparr>StartingIndex = start, NumberOfBits = n\<rparr>;
          sm \<leftarrow> rd runs' SmallestRun;
          let SmallestRun' = (if n < NumberOfBits sm then Run else SmallestRun);
          find_runs_fill bm SizeOfRunArray runs' (Suc Run) (start + n) SmallestRun'
        }
      } else Some (runs, Run, FromIndex, SmallestRun))"
  by pat_completeness auto
termination
  by (relation "measure (\<lambda>(bm, k, runs, r, f, s). k - r)") auto

declare find_runs_fill.simps [simp del]

text \<open>The inner loop of the second phase; it compares the new run's length, as the code does.\<close>

fun find_smallest :: "rtl_bitmap_run list \<Rightarrow> u32 \<Rightarrow> nat list \<Rightarrow> nat \<Rightarrow> nat option" where
  "find_smallest runs n [] SmallestRun = Some SmallestRun"
| "find_smallest runs n (Run # Runs) SmallestRun = do {
     sm \<leftarrow> rd runs SmallestRun;
     find_smallest runs n Runs (if n < NumberOfBits sm then Run else SmallestRun)
   }"

partial_function (option) find_runs_longest :: "rtl_bitmap \<Rightarrow> nat \<Rightarrow> rtl_bitmap_run list \<Rightarrow> nat \<Rightarrow>
    u32 \<Rightarrow> nat \<Rightarrow> (rtl_bitmap_run list \<times> nat) option" where
  "find_runs_longest bm SizeOfRunArray runs Run FromIndex SmallestRun = do {
     (n, start) \<leftarrow> RtlFindNextForwardRunClear bm FromIndex;
     if n = 0 then Some (runs, Run)
     else do {
       sm \<leftarrow> rd runs SmallestRun;
       if n > NumberOfBits sm then do {
         runs' \<leftarrow> wr runs SmallestRun \<lparr>StartingIndex = start, NumberOfBits = n\<rparr>;
         SmallestRun' \<leftarrow> find_smallest runs' n [0..<SizeOfRunArray] SmallestRun;
         find_runs_longest bm SizeOfRunArray runs' SizeOfRunArray (FromIndex + n) SmallestRun'
       }
       else find_runs_longest bm SizeOfRunArray runs Run (FromIndex + n) SmallestRun
     }
   }"

definition RtlFindClearRuns :: "rtl_bitmap \<Rightarrow> rtl_bitmap_run list \<Rightarrow> u32 \<Rightarrow> bool \<Rightarrow>
    (u32 \<times> rtl_bitmap_run list) option" where
  "RtlFindClearRuns bm runs SizeOfRunArray LocateLongestRuns = do {
     (runs', Run, FromIndex, SmallestRun) \<leftarrow>
       find_runs_fill bm (unat SizeOfRunArray) runs 0 0 0;
     if Run < unat SizeOfRunArray \<or> \<not> LocateLongestRuns then Some (of_nat Run, runs')
     else do {
       (runs'', Run') \<leftarrow>
         find_runs_longest bm (unat SizeOfRunArray) runs' Run FromIndex SmallestRun;
       Some (of_nat Run', runs'')
     }
   }"

text \<open>The result is the length of the longest run and \<^verbatim>\<open>*StartingIndex\<close>.\<close>

partial_function (option) longest_run_loop :: "rtl_bitmap \<Rightarrow> u32 \<Rightarrow> u32 \<Rightarrow> u32 \<Rightarrow>
    (u32 \<times> u32) option" where
  "longest_run_loop bm MaxNumberOfBits StartingIdx FromIndex = do {
     (n, Index) \<leftarrow> RtlFindNextForwardRunClear bm FromIndex;
     if n = 0 then Some (MaxNumberOfBits, StartingIdx)
     else if n > MaxNumberOfBits then longest_run_loop bm n Index (FromIndex + n)
     else longest_run_loop bm MaxNumberOfBits StartingIdx (FromIndex + n)
   }"

definition RtlFindLongestRunClear :: "rtl_bitmap \<Rightarrow> u32 \<Rightarrow> (u32 \<times> u32) option" where
  "RtlFindLongestRunClear bm StartingIdx = longest_run_loop bm 0 StartingIdx 0"

end
