(* ===== verification/Bitmap_Runs.thy ===== *)
theory Bitmap_Runs
  imports Bitmap
begin

text \<open>
  Run lengths of the bitmap package: the abstraction of a buffer to its bit sequence, the
  specification of a run, and the two run-length routines against it.
\<close>

section \<open>Bits of a buffer and runs of positions\<close>

definition bit_at :: "u32 list \<Rightarrow> nat \<Rightarrow> bool" where
  "bit_at buf n \<longleftrightarrow> bit (buf ! (n div 32)) (n mod 32)"

text \<open>\<open>run_len P a b\<close>: how many positions from \<open>a\<close> on, below \<open>b\<close>, satisfy \<open>P\<close> without a gap.\<close>

definition run_len :: "(nat \<Rightarrow> bool) \<Rightarrow> nat \<Rightarrow> nat \<Rightarrow> nat" where
  "run_len P a b = length (takeWhile P [a..<b])"

lemma run_len_le: "run_len P a b \<le> b - a"
  unfolding run_len_def using length_takeWhile_le [of P "[a..<b]"] by simp

lemma run_len_all:
  assumes "a \<le> i" "i < a + run_len P a b"
  shows "P i"
proof -
  let ?k = "i - a"
  have k: "?k < length (takeWhile P [a..<b])" using assms by (simp add: run_len_def)
  then have "takeWhile P [a..<b] ! ?k = [a..<b] ! ?k" by (rule takeWhile_nth)
  moreover have "[a..<b] ! ?k = i"
    using assms run_len_le [of P a b] by (simp add: nth_upt)
  ultimately show ?thesis using nth_mem [OF k] set_takeWhileD by fastforce
qed

lemma run_len_stop:
  assumes "run_len P a b < b - a"
  shows "\<not> P (a + run_len P a b)"
proof -
  have "\<not> P ([a..<b] ! run_len P a b)"
    using nth_length_takeWhile [of P "[a..<b]"] assms by (simp add: run_len_def)
  then show ?thesis using assms by (simp add: nth_upt)
qed

lemma run_len_ge:
  assumes "\<And>i. a \<le> i \<Longrightarrow> i < a + n \<Longrightarrow> P i" "a + n \<le> b"
  shows "n \<le> run_len P a b"
proof (rule ccontr)
  assume "\<not> n \<le> run_len P a b"
  moreover from this have "\<not> P (a + run_len P a b)"
    using assms(2) by (intro run_len_stop) linarith
  ultimately show False using assms(1) [of "a + run_len P a b"] by simp
qed

lemma run_len_eqI:
  assumes "\<And>i. a \<le> i \<Longrightarrow> i < a + n \<Longrightarrow> P i" "a + n \<le> b" "a + n < b \<Longrightarrow> \<not> P (a + n)"
  shows "run_len P a b = n"
proof (rule antisym)
  show "n \<le> run_len P a b" by (rule run_len_ge) (use assms in auto)
  show "run_len P a b \<le> n"
  proof (rule ccontr)
    assume *: "\<not> run_len P a b \<le> n"
    then have "P (a + n)" by (intro run_len_all [of a _ P b]) auto
    moreover have "a + n < b" using * run_len_le [of P a b] by linarith
    ultimately show False using assms(3) by blast
  qed
qed

lemma run_len_empty [simp]: "b \<le> a \<Longrightarrow> run_len P a b = 0"
  by (simp add: run_len_def)

lemma run_len_0_iff: "a < b \<Longrightarrow> run_len P a b = 0 \<longleftrightarrow> \<not> P a"
  by (simp add: run_len_def upt_conv_Cons)

section \<open>Count of trailing zeros\<close>

lemma ctz32_props:
  assumes "w \<noteq> 0"
  shows "ctz32 w < 32" "bit w (ctz32 w)" "j < ctz32 w \<Longrightarrow> \<not> bit w j"
proof -
  have r: "ctz32 w = run_len (\<lambda>i. \<not> bit w i) 0 32" by (simp add: ctz32_def run_len_def)
  obtain n where n: "bit w n" using assms by (metis bit_eq_iff bit_0_eq bot_apply bot_bool_def)
  then have "n < 32" using bit_imp_le_length by fastforce
  show lt: "ctz32 w < 32"
  proof (rule ccontr)
    assume "\<not> ctz32 w < 32"
    then have "\<not> bit w n" using \<open>n < 32\<close> run_len_all [of 0 n "\<lambda>i. \<not> bit w i" 32] r by simp
    with n show False by simp
  qed
  then show "bit w (ctz32 w)" using run_len_stop [of "\<lambda>i. \<not> bit w i" 0 32] r by simp
  show "j < ctz32 w \<Longrightarrow> \<not> bit w j" using run_len_all [of 0 j "\<lambda>i. \<not> bit w i" 32] r by simp
qed

lemma ctz32_eqI: "bit w n \<Longrightarrow> n < 32 \<Longrightarrow> (\<And>j. j < n \<Longrightarrow> \<not> bit w j) \<Longrightarrow> ctz32 w = n"
  using run_len_eqI [of 0 n "\<lambda>i. \<not> bit w i" 32] by (simp add: ctz32_def run_len_def)

section \<open>The two run-length routines are one\<close>

definition get_run :: "(u32 \<Rightarrow> u32) \<Rightarrow> rtl_bitmap \<Rightarrow> u32 \<Rightarrow> u32 \<Rightarrow> u32 option" where
  "get_run f bm Start MaxLen = do {
     let B = unat (Start div 32);
     let BitPos = Start AND 31;
     let MaxLength = min MaxLen (SizeOfBitMap bm - Start);
     let MaxBuffer = B + unat ((BitPos + MaxLength + 31) div 32);
     w \<leftarrow> rd (Buffer bm) B;
     let Value0 = push_bit (unat BitPos) (drop_bit (unat BitPos) (f w));
     (Value, i) \<leftarrow> skip_ulongs f (Buffer bm) MaxBuffer Value0 (Suc B);
     if Value = 0 then Some MaxLength
     else do {
       let Pos = snd (BitScanForward BitPos Value);
       let Length = (of_nat i * 32 - Start) + (Pos - 32);
       Some (if Length > SizeOfBitMap bm - Start then SizeOfBitMap bm - Start else Length)
     }
   }"

lemma RunClear_get_run: "RtlpGetLengthOfRunClear = get_run (\<lambda>w. w)"
  by (simp add: fun_eq_iff RtlpGetLengthOfRunClear_def get_run_def)

lemma RunSet_get_run: "RtlpGetLengthOfRunSet = get_run (\<lambda>w. NOT w)"
  by (simp add: fun_eq_iff RtlpGetLengthOfRunSet_def get_run_def)

lemma skip_ulongs_spec:
  assumes "mx \<le> length buf"
  obtains v' i' where "skip_ulongs f buf mx v i = Some (v', i')" "i \<le> i'" "i' \<le> max i mx"
    "i < i' \<Longrightarrow> v = 0 \<and> v' = f (buf ! (i' - 1))" "i' = i \<Longrightarrow> v' = v"
    "\<And>k. i \<le> k \<Longrightarrow> Suc k < i' \<Longrightarrow> f (buf ! k) = 0" "v' = 0 \<Longrightarrow> mx \<le> i'"
  using assms
proof (induction f buf mx v i arbitrary: thesis rule: skip_ulongs.induct)
  case (1 f buf mx v i)
  show ?case
  proof (cases "v = 0 \<and> i < mx")
    case False
    then show ?thesis by (intro "1.prems"(1) [of v i]) (auto simp: skip_ulongs.simps [of f buf mx v i])
  next
    case True
    then have rd: "rd buf i = Some (buf ! i)" using "1.prems"(2) by (simp add: faults)
    obtain v' i' where s: "skip_ulongs f buf mx (f (buf ! i)) (Suc i) = Some (v', i')" "Suc i \<le> i'"
      "i' \<le> max (Suc i) mx"
      "Suc i < i' \<Longrightarrow> f (buf ! i) = 0 \<and> v' = f (buf ! (i' - 1))" "i' = Suc i \<Longrightarrow> v' = f (buf ! i)"
      "\<And>k. Suc i \<le> k \<Longrightarrow> Suc k < i' \<Longrightarrow> f (buf ! k) = 0" "v' = 0 \<Longrightarrow> mx \<le> i'"
      using "1.IH" [OF True rd _ "1.prems"(2)] by blast
    show ?thesis
    proof (rule "1.prems"(1))
      show "skip_ulongs f buf mx v i = Some (v', i')"
        using True s(1) rd skip_ulongs.simps [of f buf mx v i] by simp
      show "i \<le> i'" "i' \<le> max i mx" using s(2,3) True by auto
      show "i < i' \<Longrightarrow> v = 0 \<and> v' = f (buf ! (i' - 1))"
        using True s(2,4,5) by (cases "i' = Suc i") auto
      show "f (buf ! k) = 0" if "i \<le> k" "Suc k < i'" for k
        using that s(4,6) by (cases "k = i") auto
    qed (use s in auto)
  qed
qed


lemma skip_ulongs_ex:
  assumes "mx \<le> length buf"
  shows "\<exists>v' i'. skip_ulongs f buf mx v i = Some (v', i') \<and> i \<le> i' \<and> i' \<le> max i mx \<and>
    (i < i' \<longrightarrow> v = 0 \<and> v' = f (buf ! (i' - 1))) \<and> (i' = i \<longrightarrow> v' = v) \<and>
    (\<forall>k. i \<le> k \<longrightarrow> Suc k < i' \<longrightarrow> f (buf ! k) = 0) \<and> (v' = 0 \<longrightarrow> mx \<le> i')"
  by (rule skip_ulongs_spec [OF assms, of f v i]) (intro exI conjI impI allI; assumption | blast)

text \<open>
  \<open>blocked f buf i\<close>: position \<open>i\<close> ends the run the routine measures (a set bit for
  \<open>RtlpGetLengthOfRunClear\<close>, a clear one for \<open>RtlpGetLengthOfRunSet\<close>).
\<close>

definition blocked :: "(u32 \<Rightarrow> u32) \<Rightarrow> u32 list \<Rightarrow> nat \<Rightarrow> bool" where
  "blocked f buf i \<longleftrightarrow> bit (f (buf ! (i div 32))) (i mod 32)"

lemma blocked_id: "blocked (\<lambda>w. w) buf = bit_at buf"
  by (simp add: fun_eq_iff blocked_def bit_at_def)

lemma blocked_NOT: "blocked (\<lambda>w. NOT w) buf = (\<lambda>i. \<not> bit_at buf i)"
  by (simp add: fun_eq_iff blocked_def bit_at_def bit_not_iff)

text \<open>The header describes bits that exist, and index arithmetic on it does not wrap.\<close>

definition wf_bitmap :: "rtl_bitmap \<Rightarrow> bool" where
  "wf_bitmap bm \<longleftrightarrow>
     unat (SizeOfBitMap bm) \<le> 32 * length (Buffer bm) \<and> unat (SizeOfBitMap bm) + 64 \<le> 2 ^ 32"

lemma unat_le_iff: "a \<le> b \<longleftrightarrow> unat a \<le> unat b" for a b :: u32
  by (rule word_le_nat_alt)

lemma unat_min_u32: "unat (min a b) = min (unat a) (unat b)" for a b :: u32
  by (simp add: min_def word_le_nat_alt)

lemma div_split_32: "(s + x) div 32 = s div 32 + (s mod 32 + x) div 32" for s x :: nat
proof -
  have "(s + x) div 32 = (s div 32 * 32 + (s mod 32 + x)) div 32"
    by (metis add.assoc div_mult_mod_eq)
  then show ?thesis by (simp only: div_mult_self3)
qed

lemma run_value:
  assumes v: "bit v' = (\<lambda>n. n < 32 \<and> s \<le> 32 * j + n \<and> blocked f buf (32 * j + n))"
    and clear: "\<And>i. s \<le> i \<Longrightarrow> i < 32 * j \<Longrightarrow> \<not> blocked f buf i"
    and "s < 32 * Suc j" "v' \<noteq> 0"
  shows "s \<le> 32 * j + ctz32 v'" "blocked f buf (32 * j + ctz32 v')"
    "\<And>i. s \<le> i \<Longrightarrow> i < 32 * j + ctz32 v' \<Longrightarrow> \<not> blocked f buf i"
proof -
  note c = ctz32_props [OF \<open>v' \<noteq> 0\<close>]
  show "s \<le> 32 * j + ctz32 v'" "blocked f buf (32 * j + ctz32 v')" using c(1,2) by (auto simp: v)
  fix i assume i: "s \<le> i" "i < 32 * j + ctz32 v'"
  show "\<not> blocked f buf i"
  proof (cases "i < 32 * j")
    case True
    then show ?thesis using clear i by blast
  next
    case False
    then have "\<not> bit v' (i - 32 * j)" using i by (intro c(3)) linarith
    then show ?thesis using False i c(1) by (simp add: v)
  qed
qed

lemma run_length_word:
  fixes Start Pos :: u32
  assumes "unat Start \<le> p" "p = 32 * j + n" "n < 32" "Pos = of_nat n"
  shows "(of_nat (Suc j) * 32 - Start) + (Pos - 32) = (of_nat (p - unat Start) :: u32)"
proof -
  have "of_nat (p - unat Start) = (of_nat p - Start :: u32)" using assms(1) by (simp add: of_nat_diff)
  then show ?thesis by (simp add: assms(2,4) algebra_simps)
qed


text \<open>
  The routine against \<open>run_len\<close>: the result never passes the end of the run and reaches it
  unless the caller's maximum stops it earlier.
\<close>

lemma get_run_spec:
  assumes wf: "wf_bitmap bm" and start: "Start \<le> SizeOfBitMap bm"
    and room: "unat Start div 32 < length (Buffer bm)"
    and f0: "\<And>w n. bit (f w) n \<Longrightarrow> n < 32"
  defines "L \<equiv> run_len (\<lambda>i. \<not> blocked f (Buffer bm) i) (unat Start) (unat (SizeOfBitMap bm))"
  shows "\<exists>r. get_run f bm Start M = Some r \<and> unat r \<le> L \<and> min (unat M) L \<le> unat r"
proof -
  let ?buf = "Buffer bm" and ?s = "unat Start" and ?S = "unat (SizeOfBitMap bm)"
  let ?B = "?s div 32" and ?b = "?s mod 32"
  have sS: "?s \<le> ?S" using start by (simp add: unat_le_iff)
  have S: "?S \<le> 32 * length ?buf" "?S + 64 \<le> 2 ^ 32" using wf by (auto simp: wf_bitmap_def)
  obtain ml where ml_def: "ml = min M (SizeOfBitMap bm - Start)" by blast
  have sub: "unat (SizeOfBitMap bm - Start) = ?S - ?s" using start by (rule unat_sub_u32)
  have ml: "unat ml = min (unat M) (?S - ?s)" by (simp add: ml_def unat_min_u32 sub)
  obtain mx where mx_def: "mx = ?B + unat (((Start AND 31) + ml + 31) div 32)" by blast
  have b32: "?b < 32" by simp
  have "unat (Start AND 31) + unat ml + 31 < 2 ^ 32"
    using ml S sS b32 unfolding unat_and_31 by linarith
  then have "unat ((Start AND 31) + ml + 31) = ?b + unat ml + 31"
    by (simp add: unat_add_u32 unat_and_31)
  then have mx: "mx = ?B + (?b + unat ml + 31) div 32"
    by (simp add: mx_def unat_div_32)
  have "mx = (?s + (unat ml + 31)) div 32"
    unfolding mx by (simp only: div_split_32 [symmetric] add.assoc)
  then have mx_eq: "mx = (?s + unat ml + 31) div 32" by (simp only: add.assoc)
  have mxl: "mx \<le> length ?buf" unfolding mx_eq using ml S sS by linarith
  obtain v where v_def: "v = push_bit ?b (drop_bit ?b (f (?buf ! ?B)))" by blast
  have bv: "bit v = (\<lambda>n. n < 32 \<and> ?s \<le> 32 * ?B + n \<and> blocked f ?buf (32 * ?B + n))"
    unfolding v_def blocked_def
  proof (rule ext)
    fix n
    have "?b \<le> n \<longleftrightarrow> ?s \<le> 32 * ?B + n"
      using mult_div_mod_eq [of 32 ?s] by linarith
    then show "bit (push_bit ?b (drop_bit ?b (f (?buf ! ?B)))) n \<longleftrightarrow> n < 32 \<and> ?s \<le> 32 * ?B + n \<and>
        bit (f (?buf ! ((32 * ?B + n) div 32))) ((32 * ?B + n) mod 32)"
      by (auto simp: bit_push_bit_iff bit_drop_bit_eq possible_bit_def)
  qed
  obtain v' i' where sk: "skip_ulongs f ?buf mx v (Suc ?B) = Some (v', i')" "Suc ?B \<le> i'"
    "i' \<le> max (Suc ?B) mx" "Suc ?B < i' \<longrightarrow> v = 0 \<and> v' = f (?buf ! (i' - 1))"
    "i' = Suc ?B \<longrightarrow> v' = v" "\<forall>k. Suc ?B \<le> k \<longrightarrow> Suc k < i' \<longrightarrow> f (?buf ! k) = 0"
    "v' = 0 \<longrightarrow> mx \<le> i'"
    using skip_ulongs_ex [OF mxl, of f v "Suc ?B"] by (elim exE conjE) (rule that)
  obtain j where j: "i' = Suc j" using sk(2) by (cases i') auto
  have clear: "\<not> blocked f ?buf i" if "?s \<le> i" "i < 32 * j" for i
  proof (cases "i div 32 = ?B")
    case True
    then have "32 * ?B \<le> i" by (metis div_times_less_eq_dividend mult.commute)
    then have "Suc ?B < i'" using that sk(2) j by linarith
    then have "\<not> bit v (i mod 32)" using sk(4) by simp
    moreover have "32 * ?B + i mod 32 = i" using True by (metis div_mult_mod_eq mult.commute)
    ultimately show ?thesis using that by (auto simp: bv)
  next
    case False
    have "?B \<le> i div 32" using that by (simp add: div_le_mono)
    moreover have "i div 32 < j" using that by (simp add: less_mult_imp_div_less mult.commute)
    ultimately have "f (?buf ! (i div 32)) = 0" using sk(6) False j by simp
    then show ?thesis by (simp add: blocked_def)
  qed
  have sj: "?s < 32 * Suc j" using sk(2) j div_less_iff_less_mult [of 32 ?s "Suc j"] by simp
  have bv': "bit v' = (\<lambda>n. n < 32 \<and> ?s \<le> 32 * j + n \<and> blocked f ?buf (32 * j + n))"
  proof (cases "i' = Suc ?B")
    case True
    then show ?thesis using sk(5) bv j by simp
  next
    case False
    then have "v' = f (?buf ! j)" "?B < j" using sk(2,4) j by auto
    moreover have "?s \<le> 32 * j" using \<open>?B < j\<close> by linarith
    ultimately show ?thesis using f0 by (auto simp: fun_eq_iff blocked_def)
  qed
  have run: "get_run f bm Start M = (if v' = 0 then Some ml else
      Some (let Length = (of_nat i' * 32 - Start) + (of_nat (ctz32 v') - 32) in
        if Length > SizeOfBitMap bm - Start then SizeOfBitMap bm - Start else Length))"
    using room sk(1)
    unfolding get_run_def Let_def unat_div_32 [of Start] unat_and_31 ml_def [symmetric]
      mx_def [symmetric] rd_Some [OF room] bind.bind_lunit v_def [symmetric]
    by (simp add: BitScanForward_def)
  show ?thesis
  proof (cases "v' = 0")
    case True
    then have z: "\<not> blocked f ?buf (32 * j + n)" if "n < 32" "?s \<le> 32 * j + n" for n
      using fun_cong [OF bv', of n] that by simp
    have all: "\<not> blocked f ?buf i" if "?s \<le> i" "i < 32 * Suc j" for i
      using clear [of i] z [of "i - 32 * j"] that by (cases "i < 32 * j") auto
    have "mx \<le> Suc j" using sk(7) True j by simp
    then have "?s + unat ml \<le> 32 * Suc j"
      unfolding mx_eq using div_less_iff_less_mult [of 32 "?s + unat ml + 31" "Suc (Suc j)"] by simp
    then have "unat ml \<le> L" unfolding L_def using ml sS by (intro run_len_ge all) auto
    moreover have "min (unat M) L \<le> unat ml"
      unfolding L_def ml using run_len_le [of _ ?s ?S] by (simp add: min_le_iff_disj)
    ultimately show ?thesis using True run by simp
  next
    case False
    obtain p where p_def: "p = 32 * j + ctz32 v'" by blast
    note rv = run_value [OF bv' clear sj False, folded p_def]
    have c: "ctz32 v' < 32" using ctz32_props(1) [OF False] .
    have "32 * mx \<le> ?S + 31" unfolding mx_eq using ml sS by simp
    moreover have "32 * Suc ?B \<le> ?S + 32" using sS by simp
    ultimately have "32 * Suc j \<le> ?S + 32" using sk(3) unfolding j by (simp add: max_def split: if_splits)
    then have pb: "p < 2 ^ 32" using S(2) c by (simp add: p_def)
    have len: "(of_nat i' * 32 - Start) + (of_nat (ctz32 v') - 32) = (of_nat (p - ?s) :: u32)"
      unfolding j by (rule run_length_word [OF rv(1) p_def c refl])
    have ulen: "unat (of_nat (p - ?s) :: u32) = p - ?s" using pb by (intro unat_of_nat_u32) simp
    have "L = min (p - ?s) (?S - ?s)"
      unfolding L_def using rv sS by (intro run_len_eqI) auto
    then show ?thesis using False run
      by (auto simp: Let_def len word_less_nat_alt ulen sub)
  qed
qed

end
