(* ===== verification/Bitmap_Update.thy ===== *)
theory Bitmap_Update
  imports Bitmap_Runs
begin

text \<open>
  The routines that change a bitmap: what each does to every bit of the buffer.
\<close>

section \<open>Words inside a buffer\<close>

lemma bit_at_update:
  "bit_at (buf[j := w]) i \<longleftrightarrow>
     (if i div 32 = j \<and> j < length buf then bit w (i mod 32) else bit_at buf i)"
  by (cases "j < length buf") (auto simp: bit_at_def nth_list_update list_update_beyond)

lemma div_32_eq_iff: "i div 32 = B \<longleftrightarrow> 32 * B \<le> i \<and> i < 32 * Suc B" for i :: nat
  by (auto simp: div_nat_eqI)

lemma less_32_ceiling: "i < n \<Longrightarrow> i < 32 * ((n + 31) div 32)" for i n :: nat
  using mult_div_mod_eq [of 32 "n + 31"] mod_less_divisor [of 32 "n + 31"] by linarith

lemma offset_less_iff: "32 * (n div 32) + k < n \<longleftrightarrow> k < n mod 32" for k n :: nat
  using mult_div_mod_eq [of 32 n] by linarith

lemma end_in_word: "n \<le> 32 * Suc (n div 32)" for n :: nat
  using dividend_less_times_div [of 32 n] by simp

lemma in_word_iff:
  fixes m k n :: nat
  shows "m \<le> 32 * (m div 32) + k \<longleftrightarrow> m mod 32 \<le> k"
    "32 * (m div 32) + k < m + n \<longleftrightarrow> k < m mod 32 + n"
  using mult_div_mod_eq [of 32 m] by linarith+

lemma end_of_range: "n < 32 - m mod 32 \<Longrightarrow> m + n \<le> 32 * Suc (m div 32)" for m n :: nat
proof -
  have "n < 32 - r \<Longrightarrow> m = 32 * q + r \<Longrightarrow> m + n \<le> 32 * Suc q" for q r by simp
  from this [OF _ mult_div_mod_eq [of 32 m, symmetric]]
  show "n < 32 - m mod 32 \<Longrightarrow> m + n \<le> 32 * Suc (m div 32)" .
qed

lemma skip_word:
  "32 - m mod 32 \<le> n \<Longrightarrow> 32 * Suc (m div 32) + (n - (32 - m mod 32)) = m + n" for m n :: nat
proof -
  have "m = 32 * q + r \<Longrightarrow> r < 32 \<Longrightarrow> 32 - r \<le> n \<Longrightarrow> 32 * Suc q + (n - (32 - r)) = m + n" for q r
    by simp
  from this [OF mult_div_mod_eq [of 32 m, symmetric] mod_less_divisor]
  show "32 - m mod 32 \<le> n \<Longrightarrow> 32 * Suc (m div 32) + (n - (32 - m mod 32)) = m + n" by simp
qed

text \<open>Masks: the bits the shifted all-ones word has.\<close>

lemma bit_mask_from: "bit (push_bit b MAXULONG) k \<longleftrightarrow> b \<le> k \<and> k < 32"
  by (auto simp: bit_push_bit_iff possible_bit_def)

lemma bit_mask_between:
  assumes "b < 32" "n < 32 - b"
  shows "bit (drop_bit (32 - b - n) (push_bit (32 - b - n) (push_bit b MAXULONG)) :: u32) k
    \<longleftrightarrow> b \<le> k \<and> k < b + n"
  using assms by (auto simp: bit_drop_bit_eq bit_push_bit_iff possible_bit_def)

section \<open>Filling words\<close>

lemma fill_loop_spec:
  "i + n \<le> length buf \<Longrightarrow>
     \<exists>buf'. fill_loop buf i n v = Some buf' \<and> length buf' = length buf \<and>
       (\<forall>k. buf' ! k = (if i \<le> k \<and> k < i + n then v else buf ! k))"
proof (induction n arbitrary: buf i)
  case 0
  then show ?case by auto
next
  case (Suc n)
  from Suc.IH [of "Suc i" "buf[i := v]"] Suc.prems
  obtain buf' where "fill_loop (buf[i := v]) (Suc i) n v = Some buf'" "length buf' = length buf"
    "\<And>k. buf' ! k = (if Suc i \<le> k \<and> k < Suc i + n then v else buf[i := v] ! k)"
    by auto
  then show ?case using Suc.prems by (auto simp: faults nth_list_update)
qed

lemma fill_loop_None: "n \<noteq> 0 \<Longrightarrow> length buf < i + n \<Longrightarrow> fill_loop buf i n v = None"
proof (induction n arbitrary: buf i)
  case (Suc n)
  show ?case
  proof (cases "i < length buf")
    case True
    then have "n \<noteq> 0" using Suc.prems by auto
    then show ?thesis using Suc.IH [of "buf[i := v]" "Suc i"] Suc.prems True by (simp add: faults)
  qed (simp add: faults)
qed simp

lemma bit_at_fill:
  assumes "\<And>k. buf' ! k = (if B \<le> k \<and> k < B + n then v else buf ! k)"
  shows "bit_at buf' i \<longleftrightarrow>
    (if 32 * B \<le> i \<and> i < 32 * (B + n) then bit v (i mod 32) else bit_at buf i)"
proof -
  have "B \<le> i div 32 \<and> i div 32 < B + n \<longleftrightarrow> 32 * B \<le> i \<and> i < 32 * (B + n)"
    by (simp add: less_eq_div_iff_mult_less_eq div_less_iff_less_mult mult.commute)
  then show ?thesis by (simp add: bit_at_def assms)
qed

section \<open>Whole bitmaps\<close>

lemma ulongs_of_bits:
  assumes "unat n + 64 \<le> 2 ^ 32"
  shows "unat (push_bit 2 (drop_bit 5 (n + 31)) div 4 :: u32) = (unat n + 31) div 32"
proof -
  have "unat (n + 31) = unat n + 31" using assms by (simp add: unat_add_u32)
  then have d: "unat (drop_bit 5 (n + 31)) = (unat n + 31) div 32"
    by (simp add: unat_drop_bit_u32)
  have "(push_bit 2 (drop_bit 5 (n + 31)) :: u32) div 4 = drop_bit 2 (push_bit 2 (drop_bit 5 (n + 31)))"
    by (simp add: drop_bit_eq_div)
  also have "\<dots> = drop_bit 5 (n + 31)"
    by (rule bit_word_eqI) (auto simp: bit_drop_bit_eq bit_push_bit_iff possible_bit_def
        dest: bit_imp_le_length)
  finally show ?thesis by (simp add: d)
qed

definition fills_bits :: "rtl_bitmap \<Rightarrow> rtl_bitmap \<Rightarrow> bool \<Rightarrow> bool" where
  "fills_bits bm bm' b \<longleftrightarrow> SizeOfBitMap bm' = SizeOfBitMap bm \<and>
     length (Buffer bm') = length (Buffer bm) \<and>
     (\<forall>i < unat (SizeOfBitMap bm). bit_at (Buffer bm') i = b)"

lemma RtlFillMemoryUlong_bits:
  assumes "wf_bitmap bm" and v: "\<And>k. k < 32 \<Longrightarrow> bit v k = b"
  shows "\<exists>buf'. RtlFillMemoryUlong (Buffer bm) 0 (push_bit 2 (drop_bit 5 (SizeOfBitMap bm + 31))) v
      = Some buf' \<and> fills_bits bm (bm\<lparr>Buffer := buf'\<rparr>) b"
proof -
  let ?n = "(unat (SizeOfBitMap bm) + 31) div 32"
  have "?n \<le> length (Buffer bm)" using assms(1) unfolding wf_bitmap_def by linarith
  then obtain buf' where b: "fill_loop (Buffer bm) 0 ?n v = Some buf'" "length buf' = length (Buffer bm)"
    "\<And>k. buf' ! k = (if 0 \<le> k \<and> k < 0 + ?n then v else Buffer bm ! k)"
    using fill_loop_spec [of 0 ?n "Buffer bm" v] by auto
  have "i < 32 * (0 + ?n)" if "i < unat (SizeOfBitMap bm)" for i
    using less_32_ceiling [OF that] by simp
  then have "fills_bits bm (bm\<lparr>Buffer := buf'\<rparr>) b"
    unfolding fills_bits_def using b(2) v by (simp add: bit_at_fill [OF b(3)])
  then show ?thesis using b(1) assms(1)
    by (simp add: RtlFillMemoryUlong_def ulongs_of_bits wf_bitmap_def)
qed

lemma RtlSetAllBits_spec:
  "wf_bitmap bm \<Longrightarrow> \<exists>bm'. RtlSetAllBits bm = Some bm' \<and> fills_bits bm bm' True"
  using RtlFillMemoryUlong_bits [of bm "NOT 0" True] by (auto simp: RtlSetAllBits_def bit_not_iff
      possible_bit_def)

lemma RtlClearAllBits_spec:
  "wf_bitmap bm \<Longrightarrow> \<exists>bm'. RtlClearAllBits bm = Some bm' \<and> fills_bits bm bm' False"
  using RtlFillMemoryUlong_bits [of bm 0 False] by (auto simp: RtlClearAllBits_def)

section \<open>Ranges of bits\<close>

text \<open>\<open>updated buf' buf R b\<close>: exactly the bits in \<open>R\<close> were written, with \<open>b\<close>.\<close>

definition updated :: "u32 list \<Rightarrow> u32 list \<Rightarrow> nat \<Rightarrow> nat \<Rightarrow> bool \<Rightarrow> bool" where
  "updated buf' buf lo hi b \<longleftrightarrow> length buf' = length buf \<and>
     (\<forall>i. bit_at buf' i = (if lo \<le> i \<and> i < hi then b else bit_at buf i))"

lemma updated_trans: "updated b1 b0 lo mid b \<Longrightarrow> updated b2 b1 mid hi b \<Longrightarrow> lo \<le> mid \<Longrightarrow> mid \<le> hi
    \<Longrightarrow> updated b2 b0 lo hi b"
  by (auto simp: updated_def)

lemma or_at_updated:
  assumes "B < length buf" "\<And>k. k < 32 \<Longrightarrow> bit m k \<longleftrightarrow> lo \<le> 32 * B + k \<and> 32 * B + k < hi"
    "32 * B \<le> lo" "hi \<le> 32 * Suc B"
  shows "\<exists>buf'. or_at buf B m = Some buf' \<and> updated buf' buf lo hi True"
proof -
  have "updated (buf[B := buf ! B OR m]) buf lo hi True"
    unfolding updated_def
  proof (intro conjI allI)
    fix i
    show "bit_at (buf[B := buf ! B OR m]) i = (if lo \<le> i \<and> i < hi then True else bit_at buf i)"
    proof (cases "i div 32 = B")
      case True
      then have "32 * B + i mod 32 = i" by (metis mult_div_mod_eq)
      then show ?thesis using assms(1) assms(2) [of "i mod 32"] True
        by (auto simp: bit_at_update bit_or_iff) (auto simp: bit_at_def)
    next
      case False
      then show ?thesis using assms(3,4) by (auto simp: bit_at_update div_32_eq_iff)
    qed
  qed simp
  then show ?thesis using assms(1) by (simp add: or_at_def faults)
qed

lemma and_at_updated:
  assumes "B < length buf" "\<And>k. k < 32 \<Longrightarrow> bit m k \<longleftrightarrow> \<not> (lo \<le> 32 * B + k \<and> 32 * B + k < hi)"
    "32 * B \<le> lo" "hi \<le> 32 * Suc B"
  shows "\<exists>buf'. and_at buf B m = Some buf' \<and> updated buf' buf lo hi False"
proof -
  have "updated (buf[B := buf ! B AND m]) buf lo hi False"
    unfolding updated_def
  proof (intro conjI allI)
    fix i
    show "bit_at (buf[B := buf ! B AND m]) i = (if lo \<le> i \<and> i < hi then False else bit_at buf i)"
    proof (cases "i div 32 = B")
      case True
      then have "32 * B + i mod 32 = i" by (metis mult_div_mod_eq)
      then show ?thesis using assms(1) assms(2) [of "i mod 32"] True
        by (auto simp: bit_at_update bit_and_iff) (auto simp: bit_at_def)
    next
      case False
      then show ?thesis using assms(3,4) by (auto simp: bit_at_update div_32_eq_iff)
    qed
  qed simp
  then show ?thesis using assms(1) by (simp add: and_at_def faults)
qed

lemma fill_updated:
  assumes "B + unat n div 32 \<le> length buf" "\<And>k. k < 32 \<Longrightarrow> bit v k = b"
  shows "\<exists>buf'. RtlFillMemoryUlong buf B (drop_bit 3 n) v = Some buf' \<and>
    updated buf' buf (32 * B) (32 * (B + unat n div 32)) b"
proof -
  have "drop_bit 3 n div 4 = drop_bit 2 (drop_bit 3 n)" by (simp add: drop_bit_eq_div)
  then have n: "unat (drop_bit 3 n div 4) = unat n div 32"
    by (simp only: drop_bit_drop_bit unat_drop_bit_u32) simp
  from fill_loop_spec [OF assms(1), of v] obtain buf' where
    "fill_loop buf B (unat n div 32) v = Some buf'" "length buf' = length buf"
    and k: "\<And>k. buf' ! k = (if B \<le> k \<and> k < B + unat n div 32 then v else buf ! k)" by auto
  then show ?thesis
    using assms(2) by (auto simp: RtlFillMemoryUlong_def n updated_def bit_at_fill [OF k])
qed

lemma set_aligned_updated:
  assumes "B + unat n div 32 < length buf"
  shows "\<exists>buf'. set_aligned buf B n = Some buf' \<and> updated buf' buf (32 * B) (32 * B + unat n) True"
proof -
  let ?B = "B + unat n div 32"
  obtain b1 where b1: "RtlFillMemoryUlong buf B (drop_bit 3 n) MAXULONG = Some b1"
    "updated b1 buf (32 * B) (32 * ?B) True"
    using fill_updated [of B n buf MAXULONG True] assms by auto
  have n: "unat n = 32 * (unat n div 32) + unat n mod 32" by simp
  have "\<exists>b2. or_at b1 ?B (NOT (push_bit (unat n mod 32) MAXULONG)) = Some b2 \<and>
      updated b2 b1 (32 * ?B) (32 * B + unat n) True"
  proof (rule or_at_updated)
    show "?B < length b1" using assms b1(2) by (simp add: updated_def)
    show "bit (NOT (push_bit (unat n mod 32) MAXULONG)) k \<longleftrightarrow>
        32 * ?B \<le> 32 * ?B + k \<and> 32 * ?B + k < 32 * B + unat n" if "k < 32" for k
      using that by (auto simp: bit_not_iff bit_mask_from possible_bit_def offset_less_iff)
    show "32 * B + unat n \<le> 32 * Suc ?B" using end_in_word by simp
  qed simp
  moreover have "updated b2 b1 (32 * ?B) (32 * B + unat n) True \<Longrightarrow>
      updated b2 buf (32 * B) (32 * B + unat n) True" for b2
    by (rule updated_trans [OF b1(2)]) simp_all
  ultimately show ?thesis using b1(1)
    by (auto simp: set_aligned_def unat_drop_bit_u32 unat_and_31)
qed

lemma clear_aligned_updated:
  assumes "B + unat n div 32 < length buf"
  shows "\<exists>buf'. clear_aligned buf B n = Some buf' \<and> updated buf' buf (32 * B) (32 * B + unat n) False"
proof -
  let ?B = "B + unat n div 32"
  obtain b1 where b1: "RtlFillMemoryUlong buf B (drop_bit 3 n) 0 = Some b1"
    "updated b1 buf (32 * B) (32 * ?B) False"
    using fill_updated [of B n buf 0 False] assms by auto
  have n: "unat n = 32 * (unat n div 32) + unat n mod 32" by simp
  have "\<exists>b2. and_at b1 ?B (push_bit (unat n mod 32) MAXULONG) = Some b2 \<and>
      updated b2 b1 (32 * ?B) (32 * B + unat n) False"
  proof (rule and_at_updated)
    show "?B < length b1" using assms b1(2) by (simp add: updated_def)
    show "bit (push_bit (unat n mod 32) MAXULONG) k \<longleftrightarrow>
        \<not> (32 * ?B \<le> 32 * ?B + k \<and> 32 * ?B + k < 32 * B + unat n)" if "k < 32" for k
      using that by (auto simp: bit_mask_from offset_less_iff)
    show "32 * B + unat n \<le> 32 * Suc ?B" using end_in_word by simp
  qed simp
  moreover have "updated b2 b1 (32 * ?B) (32 * B + unat n) False \<Longrightarrow>
      updated b2 buf (32 * B) (32 * B + unat n) False" for b2
    by (rule updated_trans [OF b1(2)]) simp_all
  ultimately show ?thesis using b1(1)
    by (auto simp: clear_aligned_def unat_drop_bit_u32 unat_and_31)
qed

section \<open>\<open>RtlSetBits\<close> and \<open>RtlClearBits\<close>\<close>

text \<open>
  The word behind the range has to exist: the routines read and write it even when the range
  ends on its boundary.
\<close>

lemma unat_Left: "unat (32 - (Start AND 31)) = 32 - unat Start mod 32" for Start :: u32
proof -
  have "unat (Start AND 31) \<le> unat (32 :: u32)" by (simp add: unat_and_31)
  then have "Start AND 31 \<le> 32" by (simp add: unat_le_iff)
  then show ?thesis by (simp add: unat_sub_u32 unat_and_31)
qed

lemma and_31_zero_iff: "Start AND 31 = 0 \<longleftrightarrow> unat Start mod 32 = 0" for Start :: u32
  by (simp add: unat_and_31 [symmetric] unat_eq_zero)

lemma div_32_add: "(32 * B + x) div 32 = B + x div 32" for B x :: nat
  by simp

lemma RtlSetBits_updated:
  assumes "(unat Start + unat n) div 32 < length (Buffer bm)"
  shows "\<exists>buf'. RtlSetBits bm Start n = Some (bm\<lparr>Buffer := buf'\<rparr>) \<and>
    updated buf' (Buffer bm) (unat Start) (unat Start + unat n) True"
proof -
  let ?B = "unat Start div 32" and ?b = "unat Start mod 32"
  have s: "unat Start = 32 * ?B + ?b" by simp
  have bl: "?b < 32" by simp
  have B: "?B < length (Buffer bm)"
    using assms div_le_mono [of "unat Start" "unat Start + unat n" 32] by linarith
  consider (aligned) "?b = 0" | (inside) "?b \<noteq> 0" "unat n < 32 - ?b" | (over) "?b \<noteq> 0" "32 - ?b \<le> unat n"
    by linarith
  then show ?thesis
  proof cases
    case aligned
    then have s': "32 * ?B = unat Start" using s by linarith
    then have "?B + unat n div 32 < length (Buffer bm)" using assms div_32_add [of ?B "unat n"] by simp
    from set_aligned_updated [OF this] show ?thesis using aligned s'
      by (auto simp: RtlSetBits_def and_31_zero_iff unat_drop_bit_u32)
  next
    case inside
    have lt: "n < 32 - (Start AND 31)" using inside by (simp add: word_less_nat_alt unat_Left)
    then have l: "unat (32 - (Start AND 31) - n) = 32 - ?b - unat n"
      by (simp add: unat_sub_u32 unat_Left)
    have "\<exists>b. or_at (Buffer bm) ?B (drop_bit (32 - ?b - unat n) (push_bit (32 - ?b - unat n)
        (push_bit ?b MAXULONG))) = Some b \<and> updated b (Buffer bm) (unat Start) (unat Start + unat n) True"
    proof (rule or_at_updated [OF B])
      show "bit (drop_bit (32 - ?b - unat n) (push_bit (32 - ?b - unat n) (push_bit ?b MAXULONG))) k
          \<longleftrightarrow> unat Start \<le> 32 * ?B + k \<and> 32 * ?B + k < unat Start + unat n" for k
        unfolding bit_mask_between [OF bl inside(2)] in_word_iff by simp
    qed (use end_of_range [OF inside(2)] in auto)
    then show ?thesis using inside lt l
      by (auto simp: RtlSetBits_def and_31_zero_iff unat_drop_bit_u32 unat_and_31 Let_def)
  next
    case over
    have ge: "\<not> n < 32 - (Start AND 31)" using over by (simp add: word_less_nat_alt unat_Left)
    then have l: "unat (n - (32 - (Start AND 31))) = unat n - (32 - ?b)"
      by (simp add: unat_sub_u32 unat_Left)
    have "\<exists>b. or_at (Buffer bm) ?B (push_bit ?b MAXULONG) = Some b \<and>
        updated b (Buffer bm) (unat Start) (32 * Suc ?B) True"
    proof (rule or_at_updated [OF B])
      show "bit (push_bit ?b MAXULONG) k \<longleftrightarrow> unat Start \<le> 32 * ?B + k \<and> 32 * ?B + k < 32 * Suc ?B"
        if "k < 32" for k
        unfolding bit_mask_from in_word_iff using that by simp
    qed simp_all
    then obtain b1 where b1: "or_at (Buffer bm) ?B (push_bit ?b MAXULONG) = Some b1"
      "updated b1 (Buffer bm) (unat Start) (32 * Suc ?B) True" by blast
    have e: "32 * Suc ?B + (unat n - (32 - ?b)) = unat Start + unat n" by (rule skip_word [OF over(2)])
    then have "Suc ?B + (unat n - (32 - ?b)) div 32 < length b1"
      using assms b1(2) div_32_add [of "Suc ?B" "unat n - (32 - ?b)"] by (simp add: updated_def)
    from set_aligned_updated [of "Suc ?B" "n - (32 - (Start AND 31))" b1, unfolded l, OF this]
    obtain b2 where "set_aligned b1 (Suc ?B) (n - (32 - (Start AND 31))) = Some b2"
      and u2: "updated b2 b1 (32 * Suc ?B) (32 * Suc ?B + (unat n - (32 - ?b))) True" by blast
    moreover have "updated b2 (Buffer bm) (unat Start) (unat Start + unat n) True"
      by (rule updated_trans [OF b1(2)]) (use u2 e in auto)
    ultimately show ?thesis using over ge b1(1)
      by (auto simp: RtlSetBits_def and_31_zero_iff unat_drop_bit_u32 unat_and_31 Let_def)
  qed
qed

lemma RtlClearBits_updated:
  assumes "(unat Start + unat n) div 32 < length (Buffer bm)"
  shows "\<exists>buf'. RtlClearBits bm Start n = Some (bm\<lparr>Buffer := buf'\<rparr>) \<and>
    updated buf' (Buffer bm) (unat Start) (unat Start + unat n) False"
proof -
  let ?B = "unat Start div 32" and ?b = "unat Start mod 32"
  have s: "unat Start = 32 * ?B + ?b" by simp
  have bl: "?b < 32" by simp
  have B: "?B < length (Buffer bm)"
    using assms div_le_mono [of "unat Start" "unat Start + unat n" 32] by linarith
  consider (aligned) "?b = 0" | (inside) "?b \<noteq> 0" "unat n < 32 - ?b" | (over) "?b \<noteq> 0" "32 - ?b \<le> unat n"
    by linarith
  then show ?thesis
  proof cases
    case aligned
    then have s': "32 * ?B = unat Start" using s by linarith
    then have "?B + unat n div 32 < length (Buffer bm)" using assms div_32_add [of ?B "unat n"] by simp
    from clear_aligned_updated [OF this] show ?thesis using aligned s'
      by (auto simp: RtlClearBits_def and_31_zero_iff unat_drop_bit_u32)
  next
    case inside
    have lt: "n < 32 - (Start AND 31)" using inside by (simp add: word_less_nat_alt unat_Left)
    then have l: "unat (32 - (Start AND 31) - n) = 32 - ?b - unat n"
      by (simp add: unat_sub_u32 unat_Left)
    have "\<exists>b. and_at (Buffer bm) ?B (NOT (drop_bit (32 - ?b - unat n) (push_bit (32 - ?b - unat n)
        (push_bit ?b MAXULONG)))) = Some b \<and> updated b (Buffer bm) (unat Start) (unat Start + unat n) False"
    proof (rule and_at_updated [OF B])
      show "bit (NOT (drop_bit (32 - ?b - unat n) (push_bit (32 - ?b - unat n) (push_bit ?b MAXULONG)))) k
          \<longleftrightarrow> \<not> (unat Start \<le> 32 * ?B + k \<and> 32 * ?B + k < unat Start + unat n)" if "k < 32" for k
        unfolding bit_not_iff bit_mask_between [OF bl inside(2)] in_word_iff using that
        by (simp add: possible_bit_def)
    qed (use end_of_range [OF inside(2)] in auto)
    then show ?thesis using inside lt l
      by (auto simp: RtlClearBits_def and_31_zero_iff unat_drop_bit_u32 unat_and_31 Let_def)
  next
    case over
    have ge: "\<not> n < 32 - (Start AND 31)" using over by (simp add: word_less_nat_alt unat_Left)
    then have l: "unat (n - (32 - (Start AND 31))) = unat n - (32 - ?b)"
      by (simp add: unat_sub_u32 unat_Left)
    have "\<exists>b. and_at (Buffer bm) ?B (NOT (push_bit ?b MAXULONG)) = Some b \<and>
        updated b (Buffer bm) (unat Start) (32 * Suc ?B) False"
    proof (rule and_at_updated [OF B])
      show "bit (NOT (push_bit ?b MAXULONG)) k \<longleftrightarrow>
          \<not> (unat Start \<le> 32 * ?B + k \<and> 32 * ?B + k < 32 * Suc ?B)" if "k < 32" for k
        unfolding bit_not_iff bit_mask_from in_word_iff using that by (simp add: possible_bit_def)
    qed simp_all
    then obtain b1 where b1: "and_at (Buffer bm) ?B (NOT (push_bit ?b MAXULONG)) = Some b1"
      "updated b1 (Buffer bm) (unat Start) (32 * Suc ?B) False" by blast
    have e: "32 * Suc ?B + (unat n - (32 - ?b)) = unat Start + unat n" by (rule skip_word [OF over(2)])
    then have "Suc ?B + (unat n - (32 - ?b)) div 32 < length b1"
      using assms b1(2) div_32_add [of "Suc ?B" "unat n - (32 - ?b)"] by (simp add: updated_def)
    from clear_aligned_updated [of "Suc ?B" "n - (32 - (Start AND 31))" b1, unfolded l, OF this]
    obtain b2 where "clear_aligned b1 (Suc ?B) (n - (32 - (Start AND 31))) = Some b2"
      and u2: "updated b2 b1 (32 * Suc ?B) (32 * Suc ?B + (unat n - (32 - ?b))) False" by blast
    moreover have "updated b2 (Buffer bm) (unat Start) (unat Start + unat n) False"
      by (rule updated_trans [OF b1(2)]) (use u2 e in auto)
    ultimately show ?thesis using over ge b1(1)
      by (auto simp: RtlClearBits_def and_31_zero_iff unat_drop_bit_u32 unat_and_31 Let_def)
  qed
qed

end
