(* ===== verification/Bitmap_Search.thy ===== *)
theory Bitmap_Search
  imports Bitmap_Update
begin

text \<open>
  The search routines of the bitmap package against a specification in terms of runs of bit
  positions, and the population count.
\<close>

section \<open>Runs inside a range\<close>

text \<open>\<open>run_at P q n b\<close>: the \<open>n\<close> positions from \<open>q\<close> on lie below \<open>b\<close> and all satisfy \<open>P\<close>.\<close>

definition run_at :: "(nat \<Rightarrow> bool) \<Rightarrow> nat \<Rightarrow> nat \<Rightarrow> nat \<Rightarrow> bool" where
  "run_at P q n b \<longleftrightarrow> q + n \<le> b \<and> (\<forall>i. q \<le> i \<and> i < q + n \<longrightarrow> P i)"

text \<open>\<open>no_run P n a m b\<close>: no such run starts in \<open>[a, m)\<close>.\<close>

definition no_run :: "(nat \<Rightarrow> bool) \<Rightarrow> nat \<Rightarrow> nat \<Rightarrow> nat \<Rightarrow> nat \<Rightarrow> bool" where
  "no_run P n a m b \<longleftrightarrow> (\<forall>q. a \<le> q \<and> q < m \<longrightarrow> \<not> run_at P q n b)"

lemma no_run_trans: "no_run P n a m b \<Longrightarrow> no_run P n m k b \<Longrightarrow> no_run P n a k b"
  unfolding no_run_def by (meson not_le)

lemma run_at_run_len: "a \<le> b \<Longrightarrow> run_at P a n b \<longleftrightarrow> n \<le> run_len P a b"
  using run_len_ge [of a n P b] run_len_all [of a _ P b] run_len_le [of P a b]
  by (force simp: run_at_def)

lemma no_run_skip_first:
  assumes "0 < n"
  shows "no_run P n a (a + run_len (\<lambda>i. \<not> P i) a b) b"
  unfolding no_run_def run_at_def
proof (intro allI impI)
  fix q assume "a \<le> q \<and> q < a + run_len (\<lambda>i. \<not> P i) a b"
  then have "\<not> P q" using run_len_all [of a q "\<lambda>i. \<not> P i" b] by blast
  then show "\<not> (q + n \<le> b \<and> (\<forall>i. q \<le> i \<and> i < q + n \<longrightarrow> P i))" using assms by fastforce
qed

lemma no_run_skip_second:
  assumes "run_len P a b < n"
  shows "no_run P n a (a + run_len P a b) b"
  unfolding no_run_def
proof (intro allI impI notI)
  fix q assume q: "a \<le> q \<and> q < a + run_len P a b" and r: "run_at P q n b"
  then have "run_len P a b < b - a" using assms by (auto simp: run_at_def)
  then have "\<not> P (a + run_len P a b)" by (rule run_len_stop)
  then show False using q r assms by (auto simp: run_at_def)
qed

lemma run_len_progress:
  assumes "a < b"
  shows "0 < run_len (\<lambda>i. \<not> P i) a b + run_len P (a + run_len (\<lambda>i. \<not> P i) a b) b"
  using run_len_0_iff [of a b P] run_len_0_iff [of a b "\<lambda>i. \<not> P i"] assms by auto

section \<open>The run lengths of a bitmap\<close>

text \<open>
  The searches need a word behind the last bit (they measure a run at position
  \<^verbatim>\<open>SizeOfBitMap\<close>), and sizes for which \<^verbatim>\<open>CurrentBit + NumberToFind\<close> does not wrap.
\<close>

definition roomy :: "rtl_bitmap \<Rightarrow> bool" where
  "roomy bm \<longleftrightarrow> unat (SizeOfBitMap bm) < 32 * length (Buffer bm) \<and> unat (SizeOfBitMap bm) < 2 ^ 31"

abbreviation bits :: "rtl_bitmap \<Rightarrow> nat \<Rightarrow> bool" where "bits bm \<equiv> bit_at (Buffer bm)"

abbreviation clear :: "rtl_bitmap \<Rightarrow> nat \<Rightarrow> bool" where "clear bm \<equiv> \<lambda>i. \<not> bit_at (Buffer bm) i"

abbreviation bsize :: "rtl_bitmap \<Rightarrow> nat" where "bsize bm \<equiv> unat (SizeOfBitMap bm)"

lemma roomy_wf: "roomy bm \<Longrightarrow> wf_bitmap bm"
  by (simp add: roomy_def wf_bitmap_def)

lemma roomy_word: "roomy bm \<Longrightarrow> unat s \<le> bsize bm \<Longrightarrow> unat s div 32 < length (Buffer bm)"
  by (simp add: roomy_def div_less_iff_less_mult)

text \<open>What a run-length routine promises its callers: \<open>P\<close> are the positions it counts.\<close>

definition measures :: "rtl_bitmap \<Rightarrow> (u32 \<Rightarrow> u32 \<Rightarrow> u32 option) \<Rightarrow> (nat \<Rightarrow> bool) \<Rightarrow> bool" where
  "measures bm g P \<longleftrightarrow> (\<forall>s M. s \<le> SizeOfBitMap bm \<longrightarrow> (\<exists>r. g s M = Some r \<and>
     unat r \<le> run_len P (unat s) (bsize bm) \<and> min (unat M) (run_len P (unat s) (bsize bm)) \<le> unat r))"

lemma RunClear_measures: "roomy bm \<Longrightarrow> measures bm (RtlpGetLengthOfRunClear bm) (clear bm)"
  unfolding measures_def RunClear_get_run
proof (intro allI impI)
  fix s M assume a: "roomy bm" "s \<le> SizeOfBitMap bm"
  have "unat s div 32 < length (Buffer bm)" using a by (simp add: roomy_word unat_le_iff)
  from get_run_spec [OF roomy_wf [OF a(1)] a(2) this, of "\<lambda>w. w" M, unfolded blocked_id]
  show "\<exists>r. get_run (\<lambda>w. w) bm s M = Some r \<and> unat r \<le> run_len (clear bm) (unat s) (bsize bm) \<and>
      min (unat M) (run_len (clear bm) (unat s) (bsize bm)) \<le> unat r"
    using bit_imp_le_length by fastforce
qed

lemma RunSet_measures: "roomy bm \<Longrightarrow> measures bm (RtlpGetLengthOfRunSet bm) (bits bm)"
  unfolding measures_def RunSet_get_run
proof (intro allI impI)
  fix s M assume a: "roomy bm" "s \<le> SizeOfBitMap bm"
  have "unat s div 32 < length (Buffer bm)" using a by (simp add: roomy_word unat_le_iff)
  from get_run_spec [OF roomy_wf [OF a(1)] a(2) this, of "\<lambda>w. NOT w" M, unfolded blocked_NOT]
  show "\<exists>r. get_run (\<lambda>w. NOT w) bm s M = Some r \<and> unat r \<le> run_len (bits bm) (unat s) (bsize bm) \<and>
      min (unat M) (run_len (bits bm) (unat s) (bsize bm)) \<le> unat r"
    using bit_imp_le_length by fastforce
qed

section \<open>Searching with two run lengths\<close>

text \<open>
  The step the search loops share, for any pair of routines that measure the two kinds of
  run: skip the positions that do not satisfy \<open>P\<close>, then measure those that do.
\<close>

locale run_search =
  fixes bm :: rtl_bitmap and skip :: "u32 \<Rightarrow> u32 \<Rightarrow> u32 option" and take :: "u32 \<Rightarrow> u32 \<Rightarrow> u32 option"
    and P :: "nat \<Rightarrow> bool"
  assumes skip: "roomy bm \<Longrightarrow> measures bm skip (\<lambda>i. \<not> P i)"
    and take: "roomy bm \<Longrightarrow> measures bm take P"
begin

lemma skip_exact:
  assumes "roomy bm" "s \<le> SizeOfBitMap bm"
  shows "\<exists>c. skip s MAXULONG = Some c \<and> unat c = run_len (\<lambda>i. \<not> P i) (unat s) (bsize bm) \<and>
    unat (s + c) = unat s + unat c \<and> s + c \<le> SizeOfBitMap bm"
proof -
  let ?L = "run_len (\<lambda>i. \<not> P i) (unat s) (bsize bm)"
  obtain c where c: "skip s MAXULONG = Some c" "unat c \<le> ?L" "min (unat MAXULONG) ?L \<le> unat c"
    using skip [OF assms(1)] assms(2) unfolding measures_def by blast
  have L: "?L \<le> bsize bm - unat s" by (rule run_len_le)
  have s: "unat s \<le> bsize bm" using assms(2) by (simp add: unat_le_iff)
  have "unat c = ?L" using c L assms(1) by (auto simp: roomy_def)
  moreover from this have "unat (s + c) = unat s + unat c"
    using L s assms(1) by (intro unat_add_u32) (auto simp: roomy_def)
  ultimately show ?thesis using c(1) L s by (auto simp: unat_le_iff)
qed

lemma step:
  assumes "roomy bm" "s \<le> SizeOfBitMap bm" "0 < unat n" "unat n \<le> bsize bm"
  obtains c r where "skip s MAXULONG = Some c" "take (s + c) n = Some r"
    "s + c \<le> SizeOfBitMap bm" "unat (s + c) = unat s + unat c"
    "n \<le> r \<Longrightarrow> run_at P (unat (s + c)) (unat n) (bsize bm) \<and>
       no_run P (unat n) (unat s) (unat (s + c)) (bsize bm)"
    "\<not> n \<le> r \<Longrightarrow> no_run P (unat n) (unat s) (unat (s + c + r)) (bsize bm) \<and>
       s + c + r \<le> SizeOfBitMap bm \<and> (unat s < bsize bm \<longrightarrow> unat s < unat (s + c + r))"
proof -
  obtain c where c: "skip s MAXULONG = Some c"
    "unat c = run_len (\<lambda>i. \<not> P i) (unat s) (bsize bm)"
    "unat (s + c) = unat s + unat c" "s + c \<le> SizeOfBitMap bm"
    using skip_exact [OF assms(1,2)] by blast
  let ?L = "run_len P (unat (s + c)) (bsize bm)"
  obtain r where r: "take (s + c) n = Some r" "unat r \<le> ?L" "min (unat n) ?L \<le> unat r"
    using take [OF assms(1)] c(4) unfolding measures_def by blast
  have L: "?L \<le> bsize bm - unat (s + c)" by (rule run_len_le)
  have sc: "unat (s + c) \<le> bsize bm" using c(4) by (simp add: unat_le_iff)
  have n1: "no_run P (unat n) (unat s) (unat (s + c)) (bsize bm)"
    using no_run_skip_first [OF assms(3), of P "unat s" "bsize bm"] by (simp add: c(2,3))
  show thesis
  proof (rule that [OF c(1) r(1) c(4,3)])
    assume "n \<le> r"
    then have "unat n \<le> ?L" using r(2) by (simp add: unat_le_iff)
    then show "run_at P (unat (s + c)) (unat n) (bsize bm) \<and>
        no_run P (unat n) (unat s) (unat (s + c)) (bsize bm)"
      using sc n1 by (simp add: run_at_run_len)
  next
    assume "\<not> n \<le> r"
    then have lt: "unat r = ?L" "?L < unat n" using r(2,3) by (auto simp: unat_le_iff)
    have u: "unat (s + c + r) = unat (s + c) + unat r"
      using lt L sc assms(1) by (intro unat_add_u32) (auto simp: roomy_def)
    have "no_run P (unat n) (unat (s + c)) (unat (s + c + r)) (bsize bm)"
      using no_run_skip_second [OF lt(2)] by (simp add: u lt(1))
    moreover have "unat s < unat (s + c + r)" if "unat s < bsize bm"
      using run_len_progress [OF that, of P] by (simp add: u lt(1) c(2,3))
    ultimately show "no_run P (unat n) (unat s) (unat (s + c + r)) (bsize bm) \<and>
        s + c + r \<le> SizeOfBitMap bm \<and> (unat s < bsize bm \<longrightarrow> unat s < unat (s + c + r))"
      using no_run_trans [OF n1] u lt(1) L sc by (auto simp: unat_le_iff)
  qed
qed

end

interpretation set_search: run_search bm "RtlpGetLengthOfRunClear bm" "RtlpGetLengthOfRunSet bm" "bits bm"
  for bm by unfold_locales (rule RunClear_measures RunSet_measures, assumption)+

interpretation clear_search: run_search bm "RtlpGetLengthOfRunSet bm" "RtlpGetLengthOfRunClear bm" "clear bm"
  for bm by unfold_locales (simp_all add: RunClear_measures RunSet_measures)

section \<open>The search loops\<close>

lemma find_set_loop_spec:
  assumes "roomy bm" "0 < unat n" "unat n \<le> bsize bm" "s \<le> SizeOfBitMap bm"
  shows "\<exists>p. find_set_loop bm n s = Some p \<and>
    (p = MAXULONG \<and> no_run (bits bm) (unat n) (unat s) (bsize bm) (bsize bm) \<or>
     s \<le> p \<and> run_at (bits bm) (unat p) (unat n) (bsize bm) \<and>
       no_run (bits bm) (unat n) (unat s) (unat p) (bsize bm))"
  using assms(4)
proof (induction "bsize bm - unat s" arbitrary: s rule: less_induct)
  case less
  note unfold = find_set_loop.simps [of bm n s]
  have s: "unat s \<le> bsize bm" using less.prems by (simp add: unat_le_iff)
  have sn: "unat (s + n) = unat s + unat n"
    using s assms(1,3) by (intro unat_add_u32) (auto simp: roomy_def)
  show ?case
  proof (cases "s + n \<le> SizeOfBitMap bm")
    case False
    then have "bsize bm < unat s + unat n" by (simp add: unat_le_iff sn)
    then have "no_run (bits bm) (unat n) (unat s) (bsize bm) (bsize bm)"
      by (auto simp: no_run_def run_at_def)
    then show ?thesis using False unfold by simp
  next
    case True
    then have sb: "unat s < bsize bm" using assms(2) by (simp add: unat_le_iff sn)
    from set_search.step [OF assms(1) less.prems assms(2,3)] obtain c r where
      c: "RtlpGetLengthOfRunClear bm s MAXULONG = Some c" "unat (s + c) = unat s + unat c"
      and r: "RtlpGetLengthOfRunSet bm (s + c) n = Some r"
      and hit: "n \<le> r \<Longrightarrow> run_at (bits bm) (unat (s + c)) (unat n) (bsize bm) \<and>
        no_run (bits bm) (unat n) (unat s) (unat (s + c)) (bsize bm)"
      and miss: "\<not> n \<le> r \<Longrightarrow> no_run (bits bm) (unat n) (unat s) (unat (s + c + r)) (bsize bm) \<and>
        s + c + r \<le> SizeOfBitMap bm \<and> (unat s < bsize bm \<longrightarrow> unat s < unat (s + c + r))" by blast
    show ?thesis
    proof (cases "n \<le> r")
      case True
      have "s \<le> s + c" using c(2) by (simp add: unat_le_iff)
      then show ?thesis using True hit c(1) r \<open>s + n \<le> SizeOfBitMap bm\<close> unfold by auto
    next
      case False
      then have m: "no_run (bits bm) (unat n) (unat s) (unat (s + c + r)) (bsize bm)"
        "s + c + r \<le> SizeOfBitMap bm" "unat s < unat (s + c + r)" using miss sb by auto
      have "bsize bm - unat (s + c + r) < bsize bm - unat s" using m(3) sb by linarith
      from less.hyps [OF this m(2)] obtain p where p: "find_set_loop bm n (s + c + r) = Some p"
        "p = MAXULONG \<and> no_run (bits bm) (unat n) (unat (s + c + r)) (bsize bm) (bsize bm) \<or>
         s + c + r \<le> p \<and> run_at (bits bm) (unat p) (unat n) (bsize bm) \<and>
           no_run (bits bm) (unat n) (unat (s + c + r)) (unat p) (bsize bm)" by blast
      have "find_set_loop bm n s = Some p"
        using False c(1) r \<open>s + n \<le> SizeOfBitMap bm\<close> unfold p(1) by simp
      moreover have "s \<le> p" if "s + c + r \<le> p" using that m(3) by (simp add: unat_le_iff)
      ultimately show ?thesis using p(2) no_run_trans [OF m(1)] by blast
    qed
  qed
qed

lemma find_clear_loop_spec:
  assumes "roomy bm" "0 < unat n" "unat n \<le> bsize bm" "s \<le> SizeOfBitMap bm"
    and margin: "mg \<le> SizeOfBitMap bm"
  shows "\<exists>res. find_clear_loop bm n mg s = Some res \<and>
    (case res of None \<Rightarrow> \<forall>q \<ge> unat s. q + unat n < unat mg \<longrightarrow> \<not> run_at (clear bm) q (unat n) (bsize bm)
     | Some p \<Rightarrow> s \<le> p \<and> run_at (clear bm) (unat p) (unat n) (bsize bm) \<and>
         no_run (clear bm) (unat n) (unat s) (unat p) (bsize bm))"
  using assms(4)
proof (induction "bsize bm - unat s" arbitrary: s rule: less_induct)
  case less
  note unfold = find_clear_loop.simps [of bm n mg s]
  have s: "unat s \<le> bsize bm" using less.prems by (simp add: unat_le_iff)
  have sn: "unat (s + n) = unat s + unat n"
    using s assms(1,3) by (intro unat_add_u32) (auto simp: roomy_def)
  show ?case
  proof (cases "s + n < mg")
    case False
    then have "unat mg \<le> unat s + unat n" by (simp add: word_less_nat_alt sn)
    then show ?thesis using False unfold by simp
  next
    case True
    then have "unat s + unat n < unat mg" "unat mg \<le> bsize bm"
      using margin by (simp_all add: word_less_nat_alt sn unat_le_iff)
    then have sb: "unat s < bsize bm" by simp
    from clear_search.step [OF assms(1) less.prems assms(2,3)] obtain c r where
      c: "RtlpGetLengthOfRunSet bm s MAXULONG = Some c" "unat (s + c) = unat s + unat c"
      and r: "RtlpGetLengthOfRunClear bm (s + c) n = Some r"
      and hit: "n \<le> r \<Longrightarrow> run_at (clear bm) (unat (s + c)) (unat n) (bsize bm) \<and>
        no_run (clear bm) (unat n) (unat s) (unat (s + c)) (bsize bm)"
      and miss: "\<not> n \<le> r \<Longrightarrow> no_run (clear bm) (unat n) (unat s) (unat (s + c + r)) (bsize bm) \<and>
        s + c + r \<le> SizeOfBitMap bm \<and> (unat s < bsize bm \<longrightarrow> unat s < unat (s + c + r))" by blast
    show ?thesis
    proof (cases "n \<le> r")
      case True
      have "s \<le> s + c" using c(2) by (simp add: unat_le_iff)
      then show ?thesis using True hit c(1) r \<open>s + n < mg\<close> unfold by auto
    next
      case False
      then have m: "no_run (clear bm) (unat n) (unat s) (unat (s + c + r)) (bsize bm)"
        "s + c + r \<le> SizeOfBitMap bm" "unat s < unat (s + c + r)" using miss sb by auto
      have "bsize bm - unat (s + c + r) < bsize bm - unat s" using m(3) sb by linarith
      from less.hyps [OF this m(2)] obtain res where p: "find_clear_loop bm n mg (s + c + r) = Some res"
        "case res of None \<Rightarrow> \<forall>q \<ge> unat (s + c + r). q + unat n < unat mg \<longrightarrow>
            \<not> run_at (clear bm) q (unat n) (bsize bm)
         | Some p \<Rightarrow> s + c + r \<le> p \<and> run_at (clear bm) (unat p) (unat n) (bsize bm) \<and>
            no_run (clear bm) (unat n) (unat (s + c + r)) (unat p) (bsize bm)" by blast
      have "find_clear_loop bm n mg s = Some res"
        using False c(1) r \<open>s + n < mg\<close> unfold p(1) by simp
      moreover have "s \<le> p" if "s + c + r \<le> p" for p using that m(3) by (simp add: unat_le_iff)
      moreover have "\<not> run_at (clear bm) q (unat n) (bsize bm)"
        if "unat s \<le> q" "q < unat (s + c + r)" for q using m(1) that by (simp add: no_run_def)
      ultimately show ?thesis using p(2) no_run_trans [OF m(1)]
        by (cases res) (auto simp: not_le [symmetric])
    qed
  qed
qed

end
