(* ===== verification/Bitmap_Spec.thy ===== *)
theory Bitmap_Spec
  imports Bitmap_Search
begin

text \<open>
  The properties of the bitmap package: what each routine computes, in terms of the bits of
  the buffer.  \<open>bits bm\<close> and \<open>clear bm\<close> are the set and the clear positions, \<open>bsize bm\<close> the
  number of bits of the header.
\<close>

section \<open>Counting\<close>

definition popcount8 :: "u8 \<Rightarrow> nat" where
  "popcount8 b = length (filter (bit b) [0..<8])"

lemma BitCountTable_all:
  "BitCountTable = map (\<lambda>n. of_nat (popcount8 (of_nat n))) [0..<256]"
  by (simp add: BitCountTable_def popcount8_def upt_conv_Cons)

lemma BitCountTable_popcount: "BitCountTable ! unat b = of_nat (popcount8 b)" for b :: u8
proof -
  have "unat b < 256" using unsigned_less [of b] by simp
  then show ?thesis by (simp add: BitCountTable_all)
qed

lemma rd_byte_bits:
  assumes "k < 4 * length buf"
  shows "\<exists>b. rd_byte buf k = Some b \<and> popcount8 b = length (filter (bit_at buf) [8 * k..<8 * k + 8])"
proof -
  let ?b = "ucast (drop_bit (8 * (k mod 4)) (buf ! (k div 4))) :: u8"
  have "bit_at buf (8 * k + j) = bit ?b j" if "j < 8" for j
  proof -
    have "8 * k + j = 32 * (k div 4) + (8 * (k mod 4) + j)"
      using mult_div_mod_eq [of 4 k] by linarith
    moreover have "8 * (k mod 4) + j < 32"
      using that mod_less_divisor [of 4 k] by linarith
    ultimately have "(8 * k + j) div 32 = k div 4" "(8 * k + j) mod 32 = 8 * (k mod 4) + j"
      by (simp_all only: div_mult_self4 mod_mult_self4) simp_all
    then show ?thesis using that by (simp add: bit_at_def bit_ucast_iff bit_drop_bit_eq possible_bit_def)
  qed
  then have "filter (\<lambda>j. bit_at buf (8 * k + j)) [0..<8] = filter (bit ?b) [0..<8]"
    by (intro filter_cong) auto
  moreover have "[8 * k..<8 * k + 8] = map (\<lambda>j. 8 * k + j) [0..<8]"
    by (simp add: map_add_upt add.commute)
  ultimately have "popcount8 ?b = length (filter (bit_at buf) [8 * k..<8 * k + 8])"
    by (simp add: popcount8_def filter_map comp_def)
  moreover have "k div 4 < length buf" using assms by (simp add: div_less_iff_less_mult mult.commute)
  ultimately show ?thesis by (simp add: rd_byte_def faults)
qed

lemma count_bytes_spec:
  "k + n \<le> 4 * length buf \<Longrightarrow>
     count_bytes buf k n c = Some (c + of_nat (length (filter (bit_at buf) [8 * k..<8 * (k + n)])))"
proof (induction n arbitrary: k c)
  case (Suc n)
  obtain b where b: "rd_byte buf k = Some b"
    "popcount8 b = length (filter (bit_at buf) [8 * k..<8 * k + 8])"
    using rd_byte_bits [of k buf] Suc.prems by auto
  have "[8 * k..<8 * (k + Suc n)] = [8 * k..<8 * k + 8] @ [8 * k + 8..<8 * (Suc k + n)]"
    using upt_add_eq_append [of "8 * k" "8 * k + 8" "8 * n"] by (simp add: algebra_simps)
  then show ?case using Suc.IH [of "Suc k"] Suc.prems b by (simp add: BitCountTable_popcount algebra_simps)
qed simp

section \<open>Searching for set bits\<close>

text \<open>
  \<open>RtlFindSetBits\<close> returns the first position at or after the hint where
  \<open>NumberToFind\<close> consecutive bits are set, and \<^verbatim>\<open>MAXULONG\<close> exactly when no such position
  exists; in particular it always returns.
\<close>

theorem RtlFindSetBits_first:
  assumes "roomy bm" "n \<noteq> 0" "n \<le> SizeOfBitMap bm" "hint \<le> SizeOfBitMap bm"
  shows "\<exists>p. RtlFindSetBits (Some bm) n hint = Some p \<and>
    (p = MAXULONG \<and> (\<forall>q \<ge> unat hint. \<not> run_at (bits bm) q (unat n) (bsize bm)) \<or>
     hint \<le> p \<and> run_at (bits bm) (unat p) (unat n) (bsize bm) \<and>
       (\<forall>q. unat hint \<le> q \<and> q < unat p \<longrightarrow> \<not> run_at (bits bm) q (unat n) (bsize bm)))"
proof -
  have n: "0 < unat n" "unat n \<le> bsize bm" using assms by (auto simp: unat_le_iff unat_gt_0)
  have "no_run (bits bm) (unat n) a (bsize bm) (bsize bm) \<longleftrightarrow>
      (\<forall>q \<ge> a. \<not> run_at (bits bm) q (unat n) (bsize bm))" for a
    using n by (force simp: no_run_def run_at_def)
  then show ?thesis
    using find_set_loop_spec [OF assms(1) n assms(4)] assms(2,3)
    by (auto simp: RtlFindSetBits_def no_run_def)
qed

theorem RtlFindSetBits_first_witness:
  "let bm = \<lparr>SizeOfBitMap = 40, Buffer = [0xf0, 0xff]\<rparr> in
   \<exists>p. RtlFindSetBits (Some bm) 5 3 = Some p \<and>
    (p = MAXULONG \<and> (\<forall>q \<ge> unat (3 :: u32). \<not> run_at (bits bm) q (unat (5 :: u32)) (bsize bm)) \<or>
     3 \<le> p \<and> run_at (bits bm) (unat p) (unat (5 :: u32)) (bsize bm) \<and>
       (\<forall>q. unat (3 :: u32) \<le> q \<and> q < unat p \<longrightarrow> \<not> run_at (bits bm) q (unat (5 :: u32)) (bsize bm)))"
  unfolding Let_def by (rule RtlFindSetBits_first) (simp_all add: roomy_def)

section \<open>Searching for clear bits\<close>

lemma RtlFindClearBits_searches:
  assumes "roomy bm" "n \<noteq> 0" "n \<le> SizeOfBitMap bm" "hint \<le> SizeOfBitMap bm"
  obtains r1 r2 where
    "RtlFindClearBits (Some bm) n hint = Some (case r1 of Some p \<Rightarrow> p | None \<Rightarrow>
      if hint \<noteq> 0 then case r2 of Some p \<Rightarrow> p | None \<Rightarrow> MAXULONG else MAXULONG)"
    "case r1 of None \<Rightarrow> \<forall>q \<ge> unat hint. q + unat n < bsize bm \<longrightarrow>
        \<not> run_at (clear bm) q (unat n) (bsize bm)
     | Some p \<Rightarrow> hint \<le> p \<and> run_at (clear bm) (unat p) (unat n) (bsize bm) \<and>
        no_run (clear bm) (unat n) (unat hint) (unat p) (bsize bm)"
    "case r2 of None \<Rightarrow> \<forall>q. q + unat n < min (unat hint + unat n) (bsize bm) \<longrightarrow>
        \<not> run_at (clear bm) q (unat n) (bsize bm)
     | Some p \<Rightarrow> run_at (clear bm) (unat p) (unat n) (bsize bm)"
proof -
  have n: "0 < unat n" "unat n \<le> bsize bm" using assms by (auto simp: unat_le_iff unat_gt_0)
  have hn: "unat (min (hint + n) (SizeOfBitMap bm)) = min (unat hint + unat n) (bsize bm)"
    using n assms(1,4) by (subst unat_min_u32, subst unat_add_u32) (auto simp: roomy_def unat_le_iff)
  obtain r1 where r1: "find_clear_loop bm n (SizeOfBitMap bm) hint = Some r1"
    "case r1 of None \<Rightarrow> \<forall>q \<ge> unat hint. q + unat n < bsize bm \<longrightarrow>
        \<not> run_at (clear bm) q (unat n) (bsize bm)
     | Some p \<Rightarrow> hint \<le> p \<and> run_at (clear bm) (unat p) (unat n) (bsize bm) \<and>
        no_run (clear bm) (unat n) (unat hint) (unat p) (bsize bm)"
    using find_clear_loop_spec [OF assms(1) n assms(4) order.refl] by auto
  obtain r2 where r2: "find_clear_loop bm n (min (hint + n) (SizeOfBitMap bm)) 0 = Some r2"
    "case r2 of None \<Rightarrow> \<forall>q. q + unat n < min (unat hint + unat n) (bsize bm) \<longrightarrow>
        \<not> run_at (clear bm) q (unat n) (bsize bm)
     | Some p \<Rightarrow> run_at (clear bm) (unat p) (unat n) (bsize bm)"
    using find_clear_loop_spec [OF assms(1) n, of 0 "min (hint + n) (SizeOfBitMap bm)"] hn
    by (auto split: option.splits)
  have "RtlFindClearBits (Some bm) n hint = Some (case r1 of Some p \<Rightarrow> p | None \<Rightarrow>
      if hint \<noteq> 0 then case r2 of Some p \<Rightarrow> p | None \<Rightarrow> MAXULONG else MAXULONG)"
    using assms(2,3) r1(1) r2(1) by (auto simp: RtlFindClearBits_def split: option.splits)
  from that [OF this r1(2) r2(2)] show thesis .
qed

lemma RtlFindClearBits_run:
  assumes "roomy bm" "n \<noteq> 0" "n \<le> SizeOfBitMap bm" "hint \<le> SizeOfBitMap bm"
  shows "\<exists>p. RtlFindClearBits (Some bm) n hint = Some p \<and>
    (p \<noteq> MAXULONG \<longrightarrow> run_at (clear bm) (unat p) (unat n) (bsize bm))"
  by (rule RtlFindClearBits_searches [OF assms]) (auto split: option.splits)

text \<open>
  What \<open>RtlFindClearBits\<close> returns when a word of the buffer lies behind the last bit.
\<close>

lemma RtlFindClearBits_roomy:
  assumes "roomy bm" "n \<noteq> 0" "n \<le> SizeOfBitMap bm" "hint \<le> SizeOfBitMap bm"
  shows "\<exists>p. RtlFindClearBits (Some bm) n hint = Some p \<and>
    (if p = MAXULONG then \<forall>q. q + unat n < bsize bm \<longrightarrow> \<not> run_at (clear bm) q (unat n) (bsize bm)
     else run_at (clear bm) (unat p) (unat n) (bsize bm)) \<and>
    (\<forall>q \<ge> unat hint. q + unat n < bsize bm \<and> run_at (clear bm) q (unat n) (bsize bm) \<longrightarrow>
       hint \<le> p \<and> unat p \<le> q)"
proof -
  have not_max: "unat p \<noteq> unat MAXULONG" if "run_at (clear bm) (unat p) (unat n) (bsize bm)" for p
    using that assms(1) by (auto simp: run_at_def roomy_def)
  obtain r1 r2 where run: "RtlFindClearBits (Some bm) n hint = Some (case r1 of Some p \<Rightarrow> p | None \<Rightarrow>
      if hint \<noteq> 0 then case r2 of Some p \<Rightarrow> p | None \<Rightarrow> MAXULONG else MAXULONG)"
    and r1: "case r1 of None \<Rightarrow> \<forall>q \<ge> unat hint. q + unat n < bsize bm \<longrightarrow>
        \<not> run_at (clear bm) q (unat n) (bsize bm)
     | Some p \<Rightarrow> hint \<le> p \<and> run_at (clear bm) (unat p) (unat n) (bsize bm) \<and>
        no_run (clear bm) (unat n) (unat hint) (unat p) (bsize bm)"
    and r2: "case r2 of None \<Rightarrow> \<forall>q. q + unat n < min (unat hint + unat n) (bsize bm) \<longrightarrow>
        \<not> run_at (clear bm) q (unat n) (bsize bm)
     | Some p \<Rightarrow> run_at (clear bm) (unat p) (unat n) (bsize bm)"
    by (rule RtlFindClearBits_searches [OF assms])
  show ?thesis
  proof (cases r1)
    case (Some p)
    then have p: "hint \<le> p" "run_at (clear bm) (unat p) (unat n) (bsize bm)"
      "no_run (clear bm) (unat n) (unat hint) (unat p) (bsize bm)" using r1 by simp_all
    then have "unat p \<le> q" if "unat hint \<le> q" "run_at (clear bm) q (unat n) (bsize bm)" for q
      using that by (meson no_run_def not_le)
    then show ?thesis using run Some p not_max [OF p(2)] by auto
  next
    case None
    then have none: "\<not> run_at (clear bm) q (unat n) (bsize bm)"
      if "unat hint \<le> q" "q + unat n < bsize bm" for q using r1 that by simp
    show ?thesis
    proof (cases "hint \<noteq> 0 \<and> r2 \<noteq> None")
      case True
      then obtain p where p: "r2 = Some p" "run_at (clear bm) (unat p) (unat n) (bsize bm)"
        using r2 by auto
      then show ?thesis using run None True none not_max [OF p(2)] by auto
    next
      case False
      have "\<not> run_at (clear bm) q (unat n) (bsize bm)" if "q + unat n < bsize bm" for q
      proof (cases "unat hint \<le> q")
        case less: False
        then have "hint \<noteq> 0" by auto
        then show ?thesis using False r2 that less by (cases r2) simp_all
      qed (use none that in blast)
      then show ?thesis using run None False by auto
    qed
  qed
qed

lemma RtlFindClearBitsAndSet_roomy:
  assumes "roomy bm" "n \<noteq> 0" "n \<le> SizeOfBitMap bm" "hint \<le> SizeOfBitMap bm"
  shows "\<exists>p bm'. RtlFindClearBitsAndSet bm n hint = Some (p, bm') \<and>
    SizeOfBitMap bm' = SizeOfBitMap bm \<and> length (Buffer bm') = length (Buffer bm) \<and>
    (if p = MAXULONG then bm' = bm
     else unat p + unat n \<le> bsize bm \<and>
       (\<forall>i. bits bm' i \<longleftrightarrow> bits bm i \<or> unat p \<le> i \<and> i < unat p + unat n) \<and>
       (\<forall>i. unat p \<le> i \<and> i < unat p + unat n \<longrightarrow> \<not> bits bm i))"
proof -
  obtain p where p: "RtlFindClearBits (Some bm) n hint = Some p"
    "p \<noteq> MAXULONG \<Longrightarrow> run_at (clear bm) (unat p) (unat n) (bsize bm)"
    using RtlFindClearBits_run [OF assms] by blast
  show ?thesis
  proof (cases "p = MAXULONG")
    case False
    then have r: "run_at (clear bm) (unat p) (unat n) (bsize bm)" by (rule p(2))
    then have "(unat p + unat n) div 32 < length (Buffer bm)"
      using assms(1) by (simp add: run_at_def roomy_def div_less_iff_less_mult)
    from RtlSetBits_updated [OF this] show ?thesis using p(1) False r
      by (auto simp: RtlFindClearBitsAndSet_def updated_def run_at_def)
  qed (simp add: RtlFindClearBitsAndSet_def p(1))
qed

section \<open>Ranges\<close>

text \<open>
  \<open>RtlSetBits\<close> sets exactly the bits of the range and \<open>RtlClearBits\<close> clears exactly
  those, for every start and length whose end lies in a word of the buffer.
\<close>

theorem RtlSetBits_ClearBits_exact:
  assumes "(unat Start + unat n) div 32 < length (Buffer bm)"
  shows "(\<exists>buf'. RtlSetBits bm Start n = Some (bm\<lparr>Buffer := buf'\<rparr>) \<and> length buf' = length (Buffer bm) \<and>
      (\<forall>i. bit_at buf' i \<longleftrightarrow> bits bm i \<or> unat Start \<le> i \<and> i < unat Start + unat n)) \<and>
    (\<exists>buf'. RtlClearBits bm Start n = Some (bm\<lparr>Buffer := buf'\<rparr>) \<and> length buf' = length (Buffer bm) \<and>
      (\<forall>i. bit_at buf' i \<longleftrightarrow> bits bm i \<and> \<not> (unat Start \<le> i \<and> i < unat Start + unat n)))"
proof -
  obtain b c where "RtlSetBits bm Start n = Some (bm\<lparr>Buffer := b\<rparr>)"
    "updated b (Buffer bm) (unat Start) (unat Start + unat n) True"
    "RtlClearBits bm Start n = Some (bm\<lparr>Buffer := c\<rparr>)"
    "updated c (Buffer bm) (unat Start) (unat Start + unat n) False"
    using RtlSetBits_updated [OF assms] RtlClearBits_updated [OF assms] by blast
  then show ?thesis by (intro conjI exI [of _ b] exI [of _ c]) (auto simp: updated_def)
qed

theorem RtlSetBits_ClearBits_exact_witness:
  "let bm = \<lparr>SizeOfBitMap = 40, Buffer = [0xff0f, 0]\<rparr>; Start = 30; n = 4 in
   (\<exists>buf'. RtlSetBits bm Start n = Some (bm\<lparr>Buffer := buf'\<rparr>) \<and> length buf' = length (Buffer bm) \<and>
      (\<forall>i. bit_at buf' i \<longleftrightarrow> bits bm i \<or> unat Start \<le> i \<and> i < unat Start + unat n)) \<and>
    (\<exists>buf'. RtlClearBits bm Start n = Some (bm\<lparr>Buffer := buf'\<rparr>) \<and> length buf' = length (Buffer bm) \<and>
      (\<forall>i. bit_at buf' i \<longleftrightarrow> bits bm i \<and> \<not> (unat Start \<le> i \<and> i < unat Start + unat n)))"
  unfolding Let_def by (rule RtlSetBits_ClearBits_exact) simp

text \<open>
  \<open>RtlAreBitsClear\<close> answers whether the range lies inside the bitmap and is clear there,
  and \<open>RtlAreBitsSet\<close> whether it is set.
\<close>

theorem RtlAreBits_exact:
  assumes "roomy bm" "Start \<le> SizeOfBitMap bm"
  shows "RtlAreBitsClear bm Start n = Some (unat Start + unat n \<le> bsize bm \<and>
      (\<forall>i. unat Start \<le> i \<and> i < unat Start + unat n \<longrightarrow> \<not> bits bm i)) \<and>
    RtlAreBitsSet bm Start n = Some (unat Start + unat n \<le> bsize bm \<and>
      (\<forall>i. unat Start \<le> i \<and> i < unat Start + unat n \<longrightarrow> bits bm i))"
proof -
  have S: "unat Start \<le> bsize bm" using assms(2) by (simp add: unat_le_iff)
  have "\<exists>r. g Start n = Some r \<and> (n \<le> r \<longleftrightarrow> run_at P (unat Start) (unat n) (bsize bm))"
    if "measures bm g P" for g P
    using that assms(2) unfolding measures_def run_at_run_len [OF S] unat_le_iff by fastforce
  from this [OF RunClear_measures] this [OF RunSet_measures]
  show ?thesis
    using assms(1) by (auto simp: RtlAreBitsClear_def RtlAreBitsSet_def run_at_def)
qed

theorem RtlAreBits_exact_witness:
  "let bm = \<lparr>SizeOfBitMap = 40, Buffer = [0xff0f, 0]\<rparr>; Start = 4; n = 4 in
   RtlAreBitsClear bm Start n = Some (unat Start + unat n \<le> bsize bm \<and>
      (\<forall>i. unat Start \<le> i \<and> i < unat Start + unat n \<longrightarrow> \<not> bits bm i)) \<and>
   RtlAreBitsSet bm Start n = Some (unat Start + unat n \<le> bsize bm \<and>
      (\<forall>i. unat Start \<le> i \<and> i < unat Start + unat n \<longrightarrow> bits bm i))"
  unfolding Let_def by (rule RtlAreBits_exact) (simp_all add: roomy_def)

section \<open>The longest run\<close>

lemma next_run:
  assumes "roomy bm" "s \<le> SizeOfBitMap bm"
  obtains n i where "RtlFindNextForwardRunClear bm s = Some (n, i)" "s \<le> i"
    "unat i + unat n \<le> bsize bm" "\<And>k. unat s \<le> k \<Longrightarrow> k < unat i \<Longrightarrow> bits bm k"
    "unat n = run_len (clear bm) (unat i) (bsize bm)" "n = 0 \<Longrightarrow> unat i = bsize bm"
proof -
  obtain c where c: "RtlpGetLengthOfRunSet bm s MAXULONG = Some c"
    "unat c = run_len (bits bm) (unat s) (bsize bm)" "unat (s + c) = unat s + unat c"
    "s + c \<le> SizeOfBitMap bm"
    using clear_search.skip_exact [OF assms] by auto
  obtain n where n: "RtlpGetLengthOfRunClear bm (s + c) MAXULONG = Some n"
    "unat n = run_len (clear bm) (unat (s + c)) (bsize bm)"
    using set_search.skip_exact [OF assms(1) c(4)] by auto
  have sc: "unat (s + c) \<le> bsize bm" using c(4) by (simp add: unat_le_iff)
  show thesis
  proof (rule that [of n "s + c"])
    show "RtlFindNextForwardRunClear bm s = Some (n, s + c)"
      by (simp add: RtlFindNextForwardRunClear_def c(1) n(1))
    show "s \<le> s + c" using c(3) by (simp add: unat_le_iff)
    show "unat (s + c) + unat n \<le> bsize bm"
      using run_len_le [of "clear bm" "unat (s + c)" "bsize bm"] sc by (simp add: n(2))
    show "bits bm k" if "unat s \<le> k" "k < unat (s + c)" for k
      using run_len_all [of "unat s" k "bits bm" "bsize bm"] that by (simp add: c(2,3))
    show "unat (s + c) = bsize bm" if "n = 0"
    proof (rule ccontr)
      assume "unat (s + c) \<noteq> bsize bm"
      then have lt: "unat (s + c) < bsize bm" using sc by simp
      then have "bits bm (unat (s + c))" using n(2) that run_len_0_iff [OF lt, of "clear bm"] by simp
      moreover have "\<not> bits bm (unat s + unat c)"
        using run_len_stop [of "bits bm" "unat s" "bsize bm"] lt by (simp add: c(2,3))
      ultimately show False by (simp add: c(3))
    qed
  qed (rule n(2))
qed

text \<open>Every run of clear bits starting before \<open>a\<close> has at most \<open>m\<close> bits.\<close>

definition runs_bounded :: "rtl_bitmap \<Rightarrow> nat \<Rightarrow> nat \<Rightarrow> bool" where
  "runs_bounded bm m a \<longleftrightarrow> (\<forall>q k. q < a \<and> run_at (clear bm) q k (bsize bm) \<longrightarrow> k \<le> m)"

lemma longest_run_loop_spec:
  assumes "roomy bm" "s \<le> SizeOfBitMap bm" "runs_bounded bm (unat mx) (unat s)"
    "mx \<noteq> 0 \<Longrightarrow> run_at (clear bm) (unat st) (unat mx) (bsize bm)"
  shows "\<exists>m i. longest_run_loop bm mx st s = Some (m, i) \<and> runs_bounded bm (unat m) (bsize bm) \<and>
    (m \<noteq> 0 \<longrightarrow> run_at (clear bm) (unat i) (unat m) (bsize bm))"
  using assms(2-)
proof (induction "bsize bm - unat s" arbitrary: s mx st rule: less_induct)
  case less
  note unfold = longest_run_loop.simps [of bm mx st s]
  obtain n i where ni: "RtlFindNextForwardRunClear bm s = Some (n, i)" "s \<le> i"
    "unat i + unat n \<le> bsize bm" "\<And>k. unat s \<le> k \<Longrightarrow> k < unat i \<Longrightarrow> bits bm k"
    "unat n = run_len (clear bm) (unat i) (bsize bm)" "n = 0 \<Longrightarrow> unat i = bsize bm"
    using next_run [OF assms(1) less.prems(1)] by metis
  have before: "k = 0" if "run_at (clear bm) q k (bsize bm)" "unat s \<le> q" "q < unat i" for q k
    using that ni(4) [of q] by (cases k) (auto simp: run_at_def)
  show ?case
  proof (cases "n = 0")
    case True
    have "runs_bounded bm (unat mx) (bsize bm)"
      using less.prems(2) before ni(6) [OF True] unfolding runs_bounded_def
      by (metis le0 not_le)
    then show ?thesis using True less.prems(3) unfold ni(1) by auto
  next
    case False
    then have n0: "0 < unat n" by (simp add: unat_gt_0)
    have sn: "unat (s + n) = unat s + unat n"
      using ni(2,3) assms(1) by (intro unat_add_u32) (auto simp: roomy_def unat_le_iff)
    have here: "run_at (clear bm) (unat i) (unat n) (bsize bm)"
      using ni(3,5) by (simp add: run_at_run_len)
    have "k \<le> max (unat mx) (unat n)" if "q < unat (s + n)" "run_at (clear bm) q k (bsize bm)" for q k
    proof -
      consider "q < unat s" | "unat s \<le> q" "q < unat i" | "unat i \<le> q" by linarith
      then show ?thesis
      proof cases
        case 3
        show ?thesis
        proof (rule ccontr)
          assume "\<not> k \<le> max (unat mx) (unat n)"
          moreover have "q < unat i + unat n" using that(1) sn ni(2) by (simp add: unat_le_iff)
          ultimately have "q \<le> unat i + unat n" "unat i + unat n < q + k" using 3 by auto
          moreover from this have "unat i + unat n < bsize bm" using that(2) by (auto simp: run_at_def)
          then have "bits bm (unat i + unat n)"
            using run_len_stop [of "clear bm" "unat i" "bsize bm"] ni(5) by simp
          ultimately show False using that(2) by (auto simp: run_at_def)
        qed
      qed (use that less.prems(2) before in \<open>auto simp: runs_bounded_def le_max_iff_disj\<close>)
    qed
    then have b: "runs_bounded bm (max (unat mx) (unat n)) (unat (s + n))" by (auto simp: runs_bounded_def)
    have le: "s + n \<le> SizeOfBitMap bm" using sn ni(2,3) by (simp add: unat_le_iff)
    have dec: "bsize bm - unat (s + n) < bsize bm - unat s" using sn n0 ni(2,3) le by (simp add: unat_le_iff)
    show ?thesis
    proof (cases "mx < n")
      case True
      then have "max (unat mx) (unat n) = unat n" by (simp add: word_less_nat_alt)
      then show ?thesis using less.hyps [OF dec le, of n i] b here False True unfold ni(1) by simp
    next
      case ge: False
      then have "max (unat mx) (unat n) = unat mx" by (simp add: word_less_nat_alt)
      then show ?thesis using less.hyps [OF dec le, of mx st] b less.prems(3) False ge unfold ni(1) by simp
    qed
  qed
qed

text \<open>
  \<open>RtlFindLongestRunClear\<close> returns the length of the longest run of clear bits, and a
  position where a run of that length starts.
\<close>

theorem RtlFindLongestRunClear_maximal:
  assumes "roomy bm"
  shows "\<exists>m i. RtlFindLongestRunClear bm st = Some (m, i) \<and>
    (\<forall>q k. run_at (clear bm) q k (bsize bm) \<longrightarrow> k \<le> unat m) \<and>
    (m \<noteq> 0 \<longrightarrow> run_at (clear bm) (unat i) (unat m) (bsize bm))"
proof -
  obtain m i where m: "longest_run_loop bm 0 st 0 = Some (m, i)" "runs_bounded bm (unat m) (bsize bm)"
    "m \<noteq> 0 \<longrightarrow> run_at (clear bm) (unat i) (unat m) (bsize bm)"
    using longest_run_loop_spec [OF assms, of 0 0 st] by (auto simp: runs_bounded_def)
  have "k \<le> unat m" if "run_at (clear bm) q k (bsize bm)" for q k
    using m(2) that by (cases "q < bsize bm") (auto simp: runs_bounded_def run_at_def)
  then show ?thesis using m by (auto simp: RtlFindLongestRunClear_def)
qed

theorem RtlFindLongestRunClear_maximal_witness:
  "let bm = \<lparr>SizeOfBitMap = 40, Buffer = [0xff0f, 0]\<rparr> in
   \<exists>m i. RtlFindLongestRunClear bm 0 = Some (m, i) \<and>
    (\<forall>q k. run_at (clear bm) q k (bsize bm) \<longrightarrow> k \<le> unat m) \<and>
    (m \<noteq> 0 \<longrightarrow> run_at (clear bm) (unat i) (unat m) (bsize bm))"
  unfolding Let_def by (rule RtlFindLongestRunClear_maximal) (simp add: roomy_def)

text \<open>
  \<open>RtlNumberOfSetBits\<close> counts the set bits of one byte more than the bytes the bitmap
  occupies: its loop condition is \<^verbatim>\<open>Byte <= MaxByte\<close>, and bits of the last byte behind
  \<^verbatim>\<open>SizeOfBitMap\<close> count as well.
\<close>

theorem RtlNumberOfSetBits_counts:
  assumes "bsize bm + 7 < 2 ^ 32" "(bsize bm + 7) div 8 < 4 * length (Buffer bm)"
  shows "RtlNumberOfSetBits bm =
    Some (of_nat (length (filter (bits bm) [0..<8 * ((bsize bm + 7) div 8 + 1)])))"
proof -
  have "unat (SizeOfBitMap bm + 7) = bsize bm + 7" using assms(1) by (simp add: unat_add_u32)
  then have "unat ((SizeOfBitMap bm + 7) div 8) = (bsize bm + 7) div 8"
    by (simp add: unat_div_distrib)
  then show ?thesis
    using count_bytes_spec [of 0 "Suc ((bsize bm + 7) div 8)" "Buffer bm" 0] assms(2)
    by (simp add: RtlNumberOfSetBits_def algebra_simps)
qed

theorem RtlNumberOfSetBits_counts_witness:
  "RtlNumberOfSetBits \<lparr>SizeOfBitMap = 8, Buffer = [0xffff]\<rparr> =
    Some (of_nat (length (filter (bits \<lparr>SizeOfBitMap = 8, Buffer = [0xffff]\<rparr>)
      [0..<8 * ((bsize \<lparr>SizeOfBitMap = 8, Buffer = [0xffff]\<rparr> + 7) div 8 + 1)])))"
  by (rule RtlNumberOfSetBits_counts) simp_all

section \<open>Behaviour at the edges\<close>

text \<open>
  A run of clear bits that ends with the bitmap is not found: the loop condition of
  \<open>RtlFindClearBits\<close> is \<^verbatim>\<open>CurrentBit + NumberToFind < Margin\<close>, where
  \<open>RtlFindSetBits\<close> has \<^verbatim>\<open><=\<close>.
\<close>

lemma RtlFindClearBits_misses_tail:
  "RtlFindClearBits (Some \<lparr>SizeOfBitMap = 32, Buffer = [0, 0]\<rparr>) 32 0 = Some MAXULONG"
  by (simp add: RtlFindClearBits_def find_clear_loop.simps)

text \<open>A word behind the last bit is read when the bitmap fills its buffer.\<close>

lemma RtlFindLongestRunClear_overreads:
  "RtlFindLongestRunClear \<lparr>SizeOfBitMap = 32, Buffer = [MAXULONG]\<rparr> 0 = None"
proof -
  have "(NOT 0xffffffff :: u32) = 0" by simp
  then show ?thesis
    by (simp add: RtlFindLongestRunClear_def longest_run_loop.simps RtlFindNextForwardRunClear_def
        RtlpGetLengthOfRunSet_def RtlpGetLengthOfRunClear_def rd_def skip_ulongs.simps)
qed

end
