(* ===== verification/Bitmap_Fit.thy ===== *)
theory Bitmap_Fit
  imports Bitmap_Spec
begin

text \<open>
  Searches in any bitmap whose bits lie in its buffer, one that fills its buffer exactly included.
  There the routines can read or write the word behind the buffer, which is a fault; what
  they return otherwise is what they return with one more word.
\<close>

section \<open>One more word\<close>

definition wider :: "rtl_bitmap \<Rightarrow> rtl_bitmap" where
  "wider bm = bm\<lparr>Buffer := Buffer bm @ [0]\<rparr>"

lemma wider_simps [simp]: "SizeOfBitMap (wider bm) = SizeOfBitMap bm" "Buffer (wider bm) = Buffer bm @ [0]"
  by (simp_all add: wider_def)


lemma rd_wider: "rd buf i = Some w \<Longrightarrow> rd (buf @ x) i = Some w"
  by (auto simp: rd_def nth_append split: if_splits)


lemma skip_ulongs_wider: "skip_ulongs f buf mx v i = Some r \<Longrightarrow> skip_ulongs f (buf @ x) mx v i = Some r"
proof (induction f buf mx v i rule: skip_ulongs.induct)
  case (1 f buf mx v i)
  then show ?case
    by (auto simp: skip_ulongs.simps [of f _ mx v i] bind_eq_Some_conv rd_wider split: if_splits)
qed

lemma get_run_wider:
  assumes "get_run f bm s M = Some r"
  shows "get_run f (wider bm) s M = Some r"
proof -
  let ?v = "\<lambda>w. push_bit (unat (s AND 31)) (drop_bit (unat (s AND 31)) (f w))"
  let ?mx = "unat (s div 32) + unat (((s AND 31) + min M (SizeOfBitMap bm - s) + 31) div 32)"
  from assms obtain w v i where w: "rd (Buffer bm) (unat (s div 32)) = Some w"
    and v: "skip_ulongs f (Buffer bm) ?mx (?v w) (Suc (unat (s div 32))) = Some (v, i)"
    by (auto simp: get_run_def Let_def bind_eq_Some_conv)
  show ?thesis
    using assms
    unfolding get_run_def Let_def wider_simps w rd_wider [OF w] v skip_ulongs_wider [OF v] bind.bind_lunit prod.case .
qed

lemma run_length_wider:
  "RtlpGetLengthOfRunClear bm s M = Some r \<Longrightarrow> RtlpGetLengthOfRunClear (wider bm) s M = Some r"
  "RtlpGetLengthOfRunSet bm s M = Some r \<Longrightarrow> RtlpGetLengthOfRunSet (wider bm) s M = Some r"
  by (simp_all add: RunClear_get_run RunSet_get_run get_run_wider)

lemma find_clear_loop_wider:
  assumes "find_clear_loop bm n mg s = Some r"
  shows "find_clear_loop (wider bm) n mg s = Some r"
  using assms
proof (induction rule: find_clear_loop.raw_induct [rotated, consumes 1, case_names step])
  case (step f bm n mg s r)
  then show ?case
    by (subst find_clear_loop.simps) (auto simp: Let_def bind_eq_Some_conv run_length_wider split: if_splits)
qed

lemma RtlFindClearBits_wider:
  assumes "RtlFindClearBits (Some bm) n hint = Some p"
  shows "RtlFindClearBits (Some (wider bm)) n hint = Some p"
proof (cases "SizeOfBitMap bm < n \<or> n = 0")
  case True
  then show ?thesis using assms by (auto simp: RtlFindClearBits_def)
next
  case False
  then obtain r where r: "find_clear_loop bm n (SizeOfBitMap bm) hint = Some r"
    using assms by (auto simp: RtlFindClearBits_def bind_eq_Some_conv)
  note w = find_clear_loop_wider [OF this]
  show ?thesis
  proof (cases "r = None \<and> hint \<noteq> 0")
    case True
    then obtain q where q: "find_clear_loop bm n (min (hint + n) (SizeOfBitMap bm)) 0 = Some q"
      using assms False r by (auto simp: RtlFindClearBits_def bind_eq_Some_conv)
    then show ?thesis using assms False r w q find_clear_loop_wider [OF q] True by (simp add: RtlFindClearBits_def)
  next
    case False
    then show ?thesis using assms \<open>\<not> (SizeOfBitMap bm < n \<or> n = 0)\<close> r w
      by (auto simp: RtlFindClearBits_def split: option.splits)
  qed
qed









section \<open>Bits\<close>

text \<open>The bits lie in the buffer, and there are fewer than \<open>2 ^ 31\<close> of them.\<close>

definition fits :: "rtl_bitmap \<Rightarrow> bool" where
  "fits bm \<longleftrightarrow> bsize bm \<le> 32 * length (Buffer bm) \<and> bsize bm < 2 ^ 31"

lemma fits_wider: "fits bm \<Longrightarrow> roomy (wider bm)"
  by (simp add: fits_def roomy_def)

lemma fits_cases: "fits bm \<Longrightarrow> roomy bm \<or> bsize bm = 32 * length (Buffer bm)"
  by (auto simp: fits_def roomy_def)

lemma bits_wider: "i < 32 * length (Buffer bm) \<Longrightarrow> bits (wider bm) i = bits bm i"
  by (simp add: bit_at_def nth_append div_less_iff_less_mult mult.commute)

lemma run_at_wider: "fits bm \<Longrightarrow> run_at (clear (wider bm)) q n (bsize bm) \<longleftrightarrow> run_at (clear bm) q n (bsize bm)"
  unfolding run_at_def fits_def using bits_wider [of _ bm] by (metis order_less_le_trans)

section \<open>Searches return\<close>

lemma run_length_same:
  assumes "fits bm" "s < SizeOfBitMap bm"
  shows "RtlpGetLengthOfRunClear bm s M = RtlpGetLengthOfRunClear (wider bm) s M"
    "RtlpGetLengthOfRunSet bm s M = RtlpGetLengthOfRunSet (wider bm) s M"
proof -
  have s: "s \<le> SizeOfBitMap bm" "unat s div 32 < length (Buffer bm)"
    using assms by (simp_all add: word_less_nat_alt word_le_nat_alt fits_def div_less_iff_less_mult)
  have w: "wf_bitmap bm" using assms(1) by (simp add: fits_def wf_bitmap_def)
  obtain r q where "RtlpGetLengthOfRunClear bm s M = Some r" "RtlpGetLengthOfRunSet bm s M = Some q"
    using get_run_spec [OF w s, of "\<lambda>w. w" M] get_run_spec [OF w s, of "\<lambda>w. NOT w" M] bit_imp_le_length
    unfolding RunClear_get_run RunSet_get_run by fastforce
  then show "RtlpGetLengthOfRunClear bm s M = RtlpGetLengthOfRunClear (wider bm) s M"
    "RtlpGetLengthOfRunSet bm s M = RtlpGetLengthOfRunSet (wider bm) s M" by (simp_all add: run_length_wider)
qed

text \<open>A search never gets to the end of the bitmap when the last bit is clear.\<close>

lemma find_clear_loop_returns:
  assumes "fits bm" "clear bm (bsize bm - 1)" "0 < unat n" "unat n \<le> bsize bm" "mg \<le> SizeOfBitMap bm" "s \<le> SizeOfBitMap bm"
  shows "\<exists>r. find_clear_loop bm n mg s = Some r"
  using assms(6)
proof (induction "bsize bm - unat s" arbitrary: s rule: less_induct)
  case less
  note unfold = find_clear_loop.simps [of bm n mg s]
  note room = fits_wider [OF assms(1)]
  have sn: "unat (s + n) = unat s + unat n"
    using less.prems assms(1,4) by (intro unat_add_u32) (auto simp: fits_def unat_le_iff)
  show ?case
  proof (cases "s + n < mg")
    case True
    then have sb: "s < SizeOfBitMap bm"
      using assms(3,5) sn by (simp add: word_less_nat_alt word_le_nat_alt)
    from clear_search.step [OF room, of s n] less.prems assms(3,4) obtain c r where
      c: "RtlpGetLengthOfRunSet (wider bm) s MAXULONG = Some c" "s + c \<le> SizeOfBitMap bm" "unat (s + c) = unat s + unat c"
      and r: "RtlpGetLengthOfRunClear (wider bm) (s + c) n = Some r"
      and miss: "\<not> n \<le> r \<Longrightarrow> s + c + r \<le> SizeOfBitMap bm \<and> (unat s < bsize bm \<longrightarrow> unat s < unat (s + c + r))"
      by (metis wider_simps(1))
    obtain c' where c': "RtlpGetLengthOfRunSet (wider bm) s MAXULONG = Some c'"
      "unat c' = run_len (bits (wider bm)) (unat s) (bsize bm)"
      using clear_search.skip_exact [OF room, of s] less.prems by auto
    have "s + c < SizeOfBitMap bm"
    proof (rule ccontr)
      assume "\<not> s + c < SizeOfBitMap bm"
      then have e: "unat s + unat c = bsize bm" using c(2,3) by (simp add: word_less_nat_alt word_le_nat_alt)
      have "unat s \<le> bsize bm - 1" "bsize bm - 1 < unat s + run_len (bits (wider bm)) (unat s) (bsize bm)"
        using sb e c(1) c' by (simp_all add: word_less_nat_alt)
      then have "bits (wider bm) (bsize bm - 1)" using run_len_all [of "unat s" "bsize bm - 1" "bits (wider bm)" "bsize bm"] by blast
      moreover have "bsize bm - 1 < 32 * length (Buffer bm)" using assms(1) sb by (auto simp: fits_def word_less_nat_alt)
      ultimately show False using assms(2) bits_wider by blast
    qed
    then have same: "RtlpGetLengthOfRunSet bm s MAXULONG = Some c" "RtlpGetLengthOfRunClear bm (s + c) n = Some r"
      using run_length_same [OF assms(1)] sb c(1) r by auto
    show ?thesis
    proof (cases "n \<le> r")
      case True
      then show ?thesis using same \<open>s + n < mg\<close> unfold by simp
    next
      case False
      have "unat s < bsize bm" using sb by (simp add: word_less_nat_alt)
      with miss [OF False] have "s + c + r \<le> SizeOfBitMap bm" "bsize bm - unat (s + c + r) < bsize bm - unat s"
        by auto
      from less.hyps [OF this(2,1)] show ?thesis using False same \<open>s + n < mg\<close> unfold by simp
    qed
  qed (simp add: unfold)
qed

lemma RtlFindClearBits_returns:
  assumes "fits bm" "n \<noteq> 0" "n \<le> SizeOfBitMap bm" "hint \<le> SizeOfBitMap bm" "roomy bm \<or> clear bm (bsize bm - 1)"
  shows "\<exists>p. RtlFindClearBits (Some bm) n hint = Some p"
proof (cases "roomy bm")
  case True
  then show ?thesis using RtlFindClearBits_run [OF True assms(2-4)] by blast
next
  case False
  then have l: "clear bm (bsize bm - 1)" using assms(5) by blast
  have n: "0 < unat n" "unat n \<le> bsize bm" using assms by (auto simp: unat_le_iff unat_gt_0)
  obtain r1 where "find_clear_loop bm n (SizeOfBitMap bm) hint = Some r1"
    using find_clear_loop_returns [OF assms(1) l n order.refl assms(4)] by blast
  moreover obtain r2 where "find_clear_loop bm n (min (hint + n) (SizeOfBitMap bm)) 0 = Some r2"
    using find_clear_loop_returns [OF assms(1) l n, of "min (hint + n) (SizeOfBitMap bm)" 0] by auto
  ultimately show ?thesis using assms(2,3) by (auto simp: RtlFindClearBits_def split: option.splits)
qed


section \<open>The searches\<close>

text \<open>
  C28. \<open>RtlFindClearBits\<close> on a bitmap of fewer than \<open>2 ^ 31\<close> bits that lie in its buffer, for a number of bits and a hint
  up to its size.  What it returns is a run of clear bits inside the bitmap.  If there is a run at or
  after the hint that does not reach the last bit, the result is the first run from the hint on; \<^verbatim>\<open>MAXULONG\<close> is returned only if every
  run of that length in the bitmap reaches the last bit (such a run may be missed).  It returns except, possibly, where the bitmap
  fills its buffer exactly and its last bit is set: then the search may read the word behind the buffer.
\<close>

theorem RtlFindClearBits_sound_complete:
  assumes "bsize bm \<le> 32 * length (Buffer bm)" "bsize bm < 2 ^ 31" "n \<noteq> 0" "n \<le> SizeOfBitMap bm" "hint \<le> SizeOfBitMap bm"
  shows "case RtlFindClearBits (Some bm) n hint of
      None \<Rightarrow> bsize bm = 32 * length (Buffer bm) \<and> bits bm (bsize bm - 1)
    | Some p \<Rightarrow>
        (if p = MAXULONG then \<forall>q. q + unat n < bsize bm \<longrightarrow> \<not> run_at (clear bm) q (unat n) (bsize bm)
         else run_at (clear bm) (unat p) (unat n) (bsize bm)) \<and>
        (\<forall>q \<ge> unat hint. q + unat n < bsize bm \<and> run_at (clear bm) q (unat n) (bsize bm) \<longrightarrow> hint \<le> p \<and> unat p \<le> q)"
proof (cases "RtlFindClearBits (Some bm) n hint")
  case None
  have f: "fits bm" using assms(1,2) by (simp add: fits_def)
  then show ?thesis using None RtlFindClearBits_returns [OF f assms(3-5)] fits_cases [OF f] by auto
next
  case (Some p)
  have f: "fits bm" using assms(1,2) by (simp add: fits_def)
  have "n \<le> SizeOfBitMap (wider bm)" "hint \<le> SizeOfBitMap (wider bm)" using assms by simp_all
  from RtlFindClearBits_roomy [OF fits_wider [OF f] assms(3) this] RtlFindClearBits_wider [OF Some]
  show ?thesis using Some by (simp add: run_at_wider [OF f] del: wider_simps(2) cong: if_cong)
qed

theorem RtlFindClearBits_sound_complete_witness:
  "let bm = \<lparr>SizeOfBitMap = 64, Buffer = [0xff0f, 0]\<rparr>; n = 4; hint = 2 in
   \<exists>p. RtlFindClearBits (Some bm) n hint = Some p \<and>
    (\<forall>q \<ge> 2. q + 4 < 64 \<and> run_at (clear bm) q 4 64 \<longrightarrow> 2 \<le> p \<and> unat p \<le> q)"
proof -
  have "\<not> bit_at [0xff0f, 0] 63" by (simp add: bit_at_def)
  then show ?thesis
    using RtlFindClearBits_sound_complete [of "\<lparr>SizeOfBitMap = 64, Buffer = [0xff0f, 0]\<rparr>" 4 2]
    by (auto simp: Let_def split: option.splits)
qed



end
