(* ===== verification/Crc.thy ===== *)
theory Crc
  imports Prelude
begin

text \<open>
  The checksums of \<^verbatim>\<open>libs/ntdll/crc32.c\<close> and \<^verbatim>\<open>libs/ntdll/crc64.c\<close>: the two
  table-driven loops, the bit-by-bit polynomial division they stand for, and the law that a
  checksum can be continued over a second chunk.
\<close>

section \<open>The code\<close>

text \<open>The 32-bit loop runs least significant bit first.\<close>

definition CRC_table32 :: "u32 list" where
  "CRC_table32 =
     [0x00000000, 0x77073096, 0xee0e612c, 0x990951ba, 0x076dc419, 0x706af48f, 0xe963a535,
      0x9e6495a3, 0x0edb8832, 0x79dcb8a4, 0xe0d5e91e, 0x97d2d988, 0x09b64c2b, 0x7eb17cbd,
      0xe7b82d07, 0x90bf1d91, 0x1db71064, 0x6ab020f2, 0xf3b97148, 0x84be41de, 0x1adad47d,
      0x6ddde4eb, 0xf4d4b551, 0x83d385c7, 0x136c9856, 0x646ba8c0, 0xfd62f97a, 0x8a65c9ec,
      0x14015c4f, 0x63066cd9, 0xfa0f3d63, 0x8d080df5, 0x3b6e20c8, 0x4c69105e, 0xd56041e4,
      0xa2677172, 0x3c03e4d1, 0x4b04d447, 0xd20d85fd, 0xa50ab56b, 0x35b5a8fa, 0x42b2986c,
      0xdbbbc9d6, 0xacbcf940, 0x32d86ce3, 0x45df5c75, 0xdcd60dcf, 0xabd13d59, 0x26d930ac,
      0x51de003a, 0xc8d75180, 0xbfd06116, 0x21b4f4b5, 0x56b3c423, 0xcfba9599, 0xb8bda50f,
      0x2802b89e, 0x5f058808, 0xc60cd9b2, 0xb10be924, 0x2f6f7c87, 0x58684c11, 0xc1611dab,
      0xb6662d3d, 0x76dc4190, 0x01db7106, 0x98d220bc, 0xefd5102a, 0x71b18589, 0x06b6b51f,
      0x9fbfe4a5, 0xe8b8d433, 0x7807c9a2, 0x0f00f934, 0x9609a88e, 0xe10e9818, 0x7f6a0dbb,
      0x086d3d2d, 0x91646c97, 0xe6635c01, 0x6b6b51f4, 0x1c6c6162, 0x856530d8, 0xf262004e,
      0x6c0695ed, 0x1b01a57b, 0x8208f4c1, 0xf50fc457, 0x65b0d9c6, 0x12b7e950, 0x8bbeb8ea,
      0xfcb9887c, 0x62dd1ddf, 0x15da2d49, 0x8cd37cf3, 0xfbd44c65, 0x4db26158, 0x3ab551ce,
      0xa3bc0074, 0xd4bb30e2, 0x4adfa541, 0x3dd895d7, 0xa4d1c46d, 0xd3d6f4fb, 0x4369e96a,
      0x346ed9fc, 0xad678846, 0xda60b8d0, 0x44042d73, 0x33031de5, 0xaa0a4c5f, 0xdd0d7cc9,
      0x5005713c, 0x270241aa, 0xbe0b1010, 0xc90c2086, 0x5768b525, 0x206f85b3, 0xb966d409,
      0xce61e49f, 0x5edef90e, 0x29d9c998, 0xb0d09822, 0xc7d7a8b4, 0x59b33d17, 0x2eb40d81,
      0xb7bd5c3b, 0xc0ba6cad, 0xedb88320, 0x9abfb3b6, 0x03b6e20c, 0x74b1d29a, 0xead54739,
      0x9dd277af, 0x04db2615, 0x73dc1683, 0xe3630b12, 0x94643b84, 0x0d6d6a3e, 0x7a6a5aa8,
      0xe40ecf0b, 0x9309ff9d, 0x0a00ae27, 0x7d079eb1, 0xf00f9344, 0x8708a3d2, 0x1e01f268,
      0x6906c2fe, 0xf762575d, 0x806567cb, 0x196c3671, 0x6e6b06e7, 0xfed41b76, 0x89d32be0,
      0x10da7a5a, 0x67dd4acc, 0xf9b9df6f, 0x8ebeeff9, 0x17b7be43, 0x60b08ed5, 0xd6d6a3e8,
      0xa1d1937e, 0x38d8c2c4, 0x4fdff252, 0xd1bb67f1, 0xa6bc5767, 0x3fb506dd, 0x48b2364b,
      0xd80d2bda, 0xaf0a1b4c, 0x36034af6, 0x41047a60, 0xdf60efc3, 0xa867df55, 0x316e8eef,
      0x4669be79, 0xcb61b38c, 0xbc66831a, 0x256fd2a0, 0x5268e236, 0xcc0c7795, 0xbb0b4703,
      0x220216b9, 0x5505262f, 0xc5ba3bbe, 0xb2bd0b28, 0x2bb45a92, 0x5cb36a04, 0xc2d7ffa7,
      0xb5d0cf31, 0x2cd99e8b, 0x5bdeae1d, 0x9b64c2b0, 0xec63f226, 0x756aa39c, 0x026d930a,
      0x9c0906a9, 0xeb0e363f, 0x72076785, 0x05005713, 0x95bf4a82, 0xe2b87a14, 0x7bb12bae,
      0x0cb61b38, 0x92d28e9b, 0xe5d5be0d, 0x7cdcefb7, 0x0bdbdf21, 0x86d3d2d4, 0xf1d4e242,
      0x68ddb3f8, 0x1fda836e, 0x81be16cd, 0xf6b9265b, 0x6fb077e1, 0x18b74777, 0x88085ae6,
      0xff0f6a70, 0x66063bca, 0x11010b5c, 0x8f659eff, 0xf862ae69, 0x616bffd3, 0x166ccf45,
      0xa00ae278, 0xd70dd2ee, 0x4e048354, 0x3903b3c2, 0xa7672661, 0xd06016f7, 0x4969474d,
      0x3e6e77db, 0xaed16a4a, 0xd9d65adc, 0x40df0b66, 0x37d83bf0, 0xa9bcae53, 0xdebb9ec5,
      0x47b2cf7f, 0x30b5ffe9, 0xbdbdf21c, 0xcabac28a, 0x53b39330, 0x24b4a3a6, 0xbad03605,
      0xcdd70693, 0x54de5729, 0x23d967bf, 0xb3667a2e, 0xc4614ab8, 0x5d681b02, 0x2a6f2b94,
      0xb40bbe37, 0xc30c8ea1, 0x5a05df1b, 0x2d02ef8d]"

fun crc32_loop :: "u8 list \<Rightarrow> nat \<Rightarrow> nat \<Rightarrow> u32 \<Rightarrow> u32 option" where
  "crc32_loop pData i 0 crc = Some crc"
| "crc32_loop pData i (Suc iLen) crc = do {
     b \<leftarrow> rd pData i;
     t \<leftarrow> rd CRC_table32 (unat ((crc XOR ucast b) AND 0xff));
     crc32_loop pData (Suc i) iLen (t XOR drop_bit 8 crc)
   }"

definition RtlComputeCrc32 :: "u32 \<Rightarrow> u8 list \<Rightarrow> int \<Rightarrow> u32 option" where
  "RtlComputeCrc32 dwInitial pData iLen =
     Option.bind (crc32_loop pData 0 (nat iLen) (NOT dwInitial)) (\<lambda>crc. Some (NOT crc))"

definition RtlCrc32 :: "u8 list \<Rightarrow> int \<Rightarrow> u32 \<Rightarrow> u32 option" where
  "RtlCrc32 pData iLen dwInitial = RtlComputeCrc32 dwInitial pData iLen"

text \<open>The 64-bit loop runs most significant bit first.\<close>

definition CRC_table64 :: "u64 list" where
  "CRC_table64 =
     [0x0000000000000000, 0x42F0E1EBA9EA3693, 0x85E1C3D753D46D26, 0xC711223CFA3E5BB5,
      0x493366450E42ECDF, 0x0BC387AEA7A8DA4C, 0xCCD2A5925D9681F9, 0x8E224479F47CB76A,
      0x9266CC8A1C85D9BE, 0xD0962D61B56FEF2D, 0x17870F5D4F51B498, 0x5577EEB6E6BB820B,
      0xDB55AACF12C73561, 0x99A54B24BB2D03F2, 0x5EB4691841135847, 0x1C4488F3E8F96ED4,
      0x663D78FF90E185EF, 0x24CD9914390BB37C, 0xE3DCBB28C335E8C9, 0xA12C5AC36ADFDE5A,
      0x2F0E1EBA9EA36930, 0x6DFEFF5137495FA3, 0xAAEFDD6DCD770416, 0xE81F3C86649D3285,
      0xF45BB4758C645C51, 0xB6AB559E258E6AC2, 0x71BA77A2DFB03177, 0x334A9649765A07E4,
      0xBD68D2308226B08E, 0xFF9833DB2BCC861D, 0x388911E7D1F2DDA8, 0x7A79F00C7818EB3B,
      0xCC7AF1FF21C30BDE, 0x8E8A101488293D4D, 0x499B3228721766F8, 0x0B6BD3C3DBFD506B,
      0x854997BA2F81E701, 0xC7B97651866BD192, 0x00A8546D7C558A27, 0x4258B586D5BFBCB4,
      0x5E1C3D753D46D260, 0x1CECDC9E94ACE4F3, 0xDBFDFEA26E92BF46, 0x990D1F49C77889D5,
      0x172F5B3033043EBF, 0x55DFBADB9AEE082C, 0x92CE98E760D05399, 0xD03E790CC93A650A,
      0xAA478900B1228E31, 0xE8B768EB18C8B8A2, 0x2FA64AD7E2F6E317, 0x6D56AB3C4B1CD584,
      0xE374EF45BF6062EE, 0xA1840EAE168A547D, 0x66952C92ECB40FC8, 0x2465CD79455E395B,
      0x3821458AADA7578F, 0x7AD1A461044D611C, 0xBDC0865DFE733AA9, 0xFF3067B657990C3A,
      0x711223CFA3E5BB50, 0x33E2C2240A0F8DC3, 0xF4F3E018F031D676, 0xB60301F359DBE0E5,
      0xDA050215EA6C212F, 0x98F5E3FE438617BC, 0x5FE4C1C2B9B84C09, 0x1D14202910527A9A,
      0x93366450E42ECDF0, 0xD1C685BB4DC4FB63, 0x16D7A787B7FAA0D6, 0x5427466C1E109645,
      0x4863CE9FF6E9F891, 0x0A932F745F03CE02, 0xCD820D48A53D95B7, 0x8F72ECA30CD7A324,
      0x0150A8DAF8AB144E, 0x43A04931514122DD, 0x84B16B0DAB7F7968, 0xC6418AE602954FFB,
      0xBC387AEA7A8DA4C0, 0xFEC89B01D3679253, 0x39D9B93D2959C9E6, 0x7B2958D680B3FF75,
      0xF50B1CAF74CF481F, 0xB7FBFD44DD257E8C, 0x70EADF78271B2539, 0x321A3E938EF113AA,
      0x2E5EB66066087D7E, 0x6CAE578BCFE24BED, 0xABBF75B735DC1058, 0xE94F945C9C3626CB,
      0x676DD025684A91A1, 0x259D31CEC1A0A732, 0xE28C13F23B9EFC87, 0xA07CF2199274CA14,
      0x167FF3EACBAF2AF1, 0x548F120162451C62, 0x939E303D987B47D7, 0xD16ED1D631917144,
      0x5F4C95AFC5EDC62E, 0x1DBC74446C07F0BD, 0xDAAD56789639AB08, 0x985DB7933FD39D9B,
      0x84193F60D72AF34F, 0xC6E9DE8B7EC0C5DC, 0x01F8FCB784FE9E69, 0x43081D5C2D14A8FA,
      0xCD2A5925D9681F90, 0x8FDAB8CE70822903, 0x48CB9AF28ABC72B6, 0x0A3B7B1923564425,
      0x70428B155B4EAF1E, 0x32B26AFEF2A4998D, 0xF5A348C2089AC238, 0xB753A929A170F4AB,
      0x3971ED50550C43C1, 0x7B810CBBFCE67552, 0xBC902E8706D82EE7, 0xFE60CF6CAF321874,
      0xE224479F47CB76A0, 0xA0D4A674EE214033, 0x67C58448141F1B86, 0x253565A3BDF52D15,
      0xAB1721DA49899A7F, 0xE9E7C031E063ACEC, 0x2EF6E20D1A5DF759, 0x6C0603E6B3B7C1CA,
      0xF6FAE5C07D3274CD, 0xB40A042BD4D8425E, 0x731B26172EE619EB, 0x31EBC7FC870C2F78,
      0xBFC9838573709812, 0xFD39626EDA9AAE81, 0x3A28405220A4F534, 0x78D8A1B9894EC3A7,
      0x649C294A61B7AD73, 0x266CC8A1C85D9BE0, 0xE17DEA9D3263C055, 0xA38D0B769B89F6C6,
      0x2DAF4F0F6FF541AC, 0x6F5FAEE4C61F773F, 0xA84E8CD83C212C8A, 0xEABE6D3395CB1A19,
      0x90C79D3FEDD3F122, 0xD2377CD44439C7B1, 0x15265EE8BE079C04, 0x57D6BF0317EDAA97,
      0xD9F4FB7AE3911DFD, 0x9B041A914A7B2B6E, 0x5C1538ADB04570DB, 0x1EE5D94619AF4648,
      0x02A151B5F156289C, 0x4051B05E58BC1E0F, 0x87409262A28245BA, 0xC5B073890B687329,
      0x4B9237F0FF14C443, 0x0962D61B56FEF2D0, 0xCE73F427ACC0A965, 0x8C8315CC052A9FF6,
      0x3A80143F5CF17F13, 0x7870F5D4F51B4980, 0xBF61D7E80F251235, 0xFD913603A6CF24A6,
      0x73B3727A52B393CC, 0x31439391FB59A55F, 0xF652B1AD0167FEEA, 0xB4A25046A88DC879,
      0xA8E6D8B54074A6AD, 0xEA16395EE99E903E, 0x2D071B6213A0CB8B, 0x6FF7FA89BA4AFD18,
      0xE1D5BEF04E364A72, 0xA3255F1BE7DC7CE1, 0x64347D271DE22754, 0x26C49CCCB40811C7,
      0x5CBD6CC0CC10FAFC, 0x1E4D8D2B65FACC6F, 0xD95CAF179FC497DA, 0x9BAC4EFC362EA149,
      0x158E0A85C2521623, 0x577EEB6E6BB820B0, 0x906FC95291867B05, 0xD29F28B9386C4D96,
      0xCEDBA04AD0952342, 0x8C2B41A1797F15D1, 0x4B3A639D83414E64, 0x09CA82762AAB78F7,
      0x87E8C60FDED7CF9D, 0xC51827E4773DF90E, 0x020905D88D03A2BB, 0x40F9E43324E99428,
      0x2CFFE7D5975E55E2, 0x6E0F063E3EB46371, 0xA91E2402C48A38C4, 0xEBEEC5E96D600E57,
      0x65CC8190991CB93D, 0x273C607B30F68FAE, 0xE02D4247CAC8D41B, 0xA2DDA3AC6322E288,
      0xBE992B5F8BDB8C5C, 0xFC69CAB42231BACF, 0x3B78E888D80FE17A, 0x7988096371E5D7E9,
      0xF7AA4D1A85996083, 0xB55AACF12C735610, 0x724B8ECDD64D0DA5, 0x30BB6F267FA73B36,
      0x4AC29F2A07BFD00D, 0x08327EC1AE55E69E, 0xCF235CFD546BBD2B, 0x8DD3BD16FD818BB8,
      0x03F1F96F09FD3CD2, 0x41011884A0170A41, 0x86103AB85A2951F4, 0xC4E0DB53F3C36767,
      0xD8A453A01B3A09B3, 0x9A54B24BB2D03F20, 0x5D45907748EE6495, 0x1FB5719CE1045206,
      0x919735E51578E56C, 0xD367D40EBC92D3FF, 0x1476F63246AC884A, 0x568617D9EF46BED9,
      0xE085162AB69D5E3C, 0xA275F7C11F7768AF, 0x6564D5FDE549331A, 0x279434164CA30589,
      0xA9B6706FB8DFB2E3, 0xEB46918411358470, 0x2C57B3B8EB0BDFC5, 0x6EA7525342E1E956,
      0x72E3DAA0AA188782, 0x30133B4B03F2B111, 0xF7021977F9CCEAA4, 0xB5F2F89C5026DC37,
      0x3BD0BCE5A45A6B5D, 0x79205D0E0DB05DCE, 0xBE317F32F78E067B, 0xFCC19ED95E6430E8,
      0x86B86ED5267CDBD3, 0xC4488F3E8F96ED40, 0x0359AD0275A8B6F5, 0x41A94CE9DC428066,
      0xCF8B0890283E370C, 0x8D7BE97B81D4019F, 0x4A6ACB477BEA5A2A, 0x089A2AACD2006CB9,
      0x14DEA25F3AF9026D, 0x562E43B4931334FE, 0x913F6188692D6F4B, 0xD3CF8063C0C759D8,
      0x5DEDC41A34BBEEB2, 0x1F1D25F19D51D821, 0xD80C07CD676F8394, 0x9AFCE626CE85B507]"

fun crc64_loop :: "u8 list \<Rightarrow> nat \<Rightarrow> nat \<Rightarrow> u64 \<Rightarrow> u64 option" where
  "crc64_loop pData i 0 crc = Some crc"
| "crc64_loop pData i (Suc iLen) crc = do {
     b \<leftarrow> rd pData i;
     let idx = ((ucast (drop_bit 56 crc) :: u32) XOR ucast b) AND 0xff;
     t \<leftarrow> rd CRC_table64 (unat idx);
     crc64_loop pData (Suc i) iLen (t XOR push_bit 8 crc)
   }"

definition RtlCrc64 :: "u8 list \<Rightarrow> int \<Rightarrow> u64 \<Rightarrow> u64 option" where
  "RtlCrc64 pData iLen InitialCrc =
     Option.bind (crc64_loop pData 0 (nat iLen) (NOT InitialCrc)) (\<lambda>crc. Some (NOT crc))"

section \<open>Bit-by-bit division\<close>

definition crc32_bit :: "u32 \<Rightarrow> u32" where
  "crc32_bit c = (if bit c 0 then drop_bit 1 c XOR 0xedb88320 else drop_bit 1 c)"

definition crc32_byte :: "u32 \<Rightarrow> u8 \<Rightarrow> u32" where
  "crc32_byte c b = (crc32_bit ^^ 8) (c XOR ucast b)"

definition crc64_bit :: "u64 \<Rightarrow> u64" where
  "crc64_bit c = (if bit c 63 then push_bit 1 c XOR 0x42f0e1eba9ea3693 else push_bit 1 c)"

definition crc64_byte :: "u64 \<Rightarrow> u8 \<Rightarrow> u64" where
  "crc64_byte c b = (crc64_bit ^^ 8) (c XOR push_bit 56 (ucast b))"

text \<open>Both steps are linear over exclusive or, so a table is fixed by its entries at powers of two.\<close>

lemma crc32_bit_xor: "crc32_bit (x XOR y) = crc32_bit x XOR crc32_bit y"
  by (rule bit_word_eqI) (auto simp: crc32_bit_def bit_xor_iff bit_drop_bit_eq)

lemma crc64_bit_xor: "crc64_bit (x XOR y) = crc64_bit x XOR crc64_bit y"
  by (rule bit_word_eqI) (auto simp: crc64_bit_def bit_xor_iff bit_push_bit_iff possible_bit_def)

lemma funpow_xor:
  fixes f :: "'a::len word \<Rightarrow> 'a word"
  assumes "\<And>x y. f (x XOR y) = f x XOR f y"
  shows "(f ^^ n) (x XOR y) = (f ^^ n) x XOR (f ^^ n) y"
  by (induction n) (simp_all add: assms)

lemma of_nat_add_exp:
  assumes "m < 2 ^ k"
  shows "(of_nat (2 ^ k + m) :: 'a::len word) = of_nat m XOR of_nat (2 ^ k)"
proof -
  have "m = take_bit k m" using assms by (simp add: take_bit_nat_eq_self)
  then have "bit m n \<Longrightarrow> n < k" for n by (metis bit_take_bit_iff)
  then have "m AND 2 ^ k = 0" by (intro bit_eqI) (auto simp: bit_and_iff bit_exp_iff)
  then have "m + 2 ^ k = m XOR 2 ^ k" by (rule disjunctive_add_eq_xor)
  then have "2 ^ k + m = m XOR 2 ^ k" by (simp add: add.commute)
  then show ?thesis by (simp only: of_nat_xor_eq)
qed

definition linear_table :: "(nat \<Rightarrow> 'a::len word) \<Rightarrow> nat \<Rightarrow> 'a word list" where
  "linear_table f k = map f [0..<2 ^ k]"

lemma linear_table_0: "f 0 = z \<Longrightarrow> linear_table f 0 = [z]"
  by (simp add: linear_table_def)

lemma linear_table_Suc:
  fixes g :: "'b::len word \<Rightarrow> 'a::len word"
  assumes "\<And>x y. g (x XOR y) = g x XOR g y" "linear_table (\<lambda>n. g (of_nat n)) k = L" "g (of_nat (2 ^ k)) = v"
  shows "linear_table (\<lambda>n. g (of_nat n)) (Suc k) = L @ map (\<lambda>w. w XOR v) L"
proof -
  have "[0..<2 ^ Suc k] = [0..<2 ^ k] @ map (\<lambda>n. 2 ^ k + n) [0..<2 ^ k]"
    using upt_add_eq_append [of 0 "2 ^ k" "2 ^ k"] by (simp add: map_add_upt add.commute mult_2)
  then have "linear_table (\<lambda>n. g (of_nat n)) (Suc k) =
      linear_table (\<lambda>n. g (of_nat n)) k @ map (\<lambda>n. g (of_nat (2 ^ k + n))) [0..<2 ^ k]"
    by (simp add: linear_table_def comp_def)
  also have "map (\<lambda>n. g (of_nat (2 ^ k + n))) [0..<2 ^ k] =
      map (\<lambda>w. w XOR v) (linear_table (\<lambda>n. g (of_nat n)) k)"
    unfolding linear_table_def map_map comp_def
    by (intro map_cong refl) (simp only: atLeastLessThan_iff set_upt of_nat_add_exp assms(1,3))
  finally show ?thesis by (simp only: assms(2))
qed

lemma funpow_8: "(f ^^ 8) x = f (f (f (f (f (f (f (f x)))))))"
  by (simp add: numeral_eq_Suc)

definition crc32_entry :: "u32 \<Rightarrow> u32" where "crc32_entry x = (crc32_bit ^^ 8) x"

definition crc64_entry :: "u8 \<Rightarrow> u64" where "crc64_entry x = (crc64_bit ^^ 8) (push_bit 56 (ucast x))"

lemma crc32_entry_xor: "crc32_entry (x XOR y) = crc32_entry x XOR crc32_entry y"
  by (simp add: crc32_entry_def funpow_xor crc32_bit_xor)

lemma push_bit_ucast_xor: "push_bit n (ucast (x XOR y)) = push_bit n (ucast x) XOR push_bit n (ucast y)"
  for x y :: u8
  by (rule bit_word_eqI) (auto simp: bit_push_bit_iff bit_xor_iff bit_ucast_iff)

lemma crc64_entry_xor: "crc64_entry (x XOR y) = crc64_entry x XOR crc64_entry y"
  by (simp add: crc64_entry_def push_bit_ucast_xor funpow_xor crc64_bit_xor)

lemma crc32_entry_1: "crc32_entry 1 = 0x77073096"
  by (simp add: crc32_entry_def funpow_8 crc32_bit_def)

lemma crc32_entry_2: "crc32_entry 2 = 0xee0e612c"
  by (simp add: crc32_entry_def funpow_8 crc32_bit_def)

lemma crc32_entry_4: "crc32_entry 4 = 0x76dc419"
  by (simp add: crc32_entry_def funpow_8 crc32_bit_def)

lemma crc32_entry_8: "crc32_entry 8 = 0xedb8832"
  by (simp add: crc32_entry_def funpow_8 crc32_bit_def)

lemma crc32_entry_16: "crc32_entry 16 = 0x1db71064"
  by (simp add: crc32_entry_def funpow_8 crc32_bit_def)

lemma crc32_entry_32: "crc32_entry 32 = 0x3b6e20c8"
  by (simp add: crc32_entry_def funpow_8 crc32_bit_def)

lemma crc32_entry_64: "crc32_entry 64 = 0x76dc4190"
  by (simp add: crc32_entry_def funpow_8 crc32_bit_def)

lemma crc32_entry_128: "crc32_entry 128 = 0xedb88320"
  by (simp add: crc32_entry_def funpow_8 crc32_bit_def)

lemmas crc32_entries = crc32_entry_1 crc32_entry_2 crc32_entry_4 crc32_entry_8 crc32_entry_16 crc32_entry_32 crc32_entry_64 crc32_entry_128

lemma crc64_entry_1: "crc64_entry 1 = 0x42f0e1eba9ea3693"
  by (simp add: crc64_entry_def funpow_8 crc64_bit_def)

lemma crc64_entry_2: "crc64_entry 2 = 0x85e1c3d753d46d26"
  by (simp add: crc64_entry_def funpow_8 crc64_bit_def)

lemma crc64_entry_4: "crc64_entry 4 = 0x493366450e42ecdf"
  by (simp add: crc64_entry_def funpow_8 crc64_bit_def)

lemma crc64_entry_8: "crc64_entry 8 = 0x9266cc8a1c85d9be"
  by (simp add: crc64_entry_def funpow_8 crc64_bit_def)

lemma crc64_entry_16: "crc64_entry 16 = 0x663d78ff90e185ef"
  by (simp add: crc64_entry_def funpow_8 crc64_bit_def)

lemma crc64_entry_32: "crc64_entry 32 = 0xcc7af1ff21c30bde"
  by (simp add: crc64_entry_def funpow_8 crc64_bit_def)

lemma crc64_entry_64: "crc64_entry 64 = 0xda050215ea6c212f"
  by (simp add: crc64_entry_def funpow_8 crc64_bit_def)

lemma crc64_entry_128: "crc64_entry 128 = 0xf6fae5c07d3274cd"
  by (simp add: crc64_entry_def funpow_8 crc64_bit_def)

lemmas crc64_entries = crc64_entry_1 crc64_entry_2 crc64_entry_4 crc64_entry_8 crc64_entry_16 crc64_entry_32 crc64_entry_64 crc64_entry_128


section \<open>The tables\<close>

lemma linear_table_8_32: "linear_table (\<lambda>n. crc32_entry (of_nat n)) 8 = CRC_table32"
proof -
  note s = linear_table_Suc [of crc32_entry, OF crc32_entry_xor _ refl]
  have z: "linear_table (\<lambda>n. crc32_entry (of_nat n)) 0 = [0]"
    by (rule linear_table_0) (simp add: crc32_entry_def funpow_8 crc32_bit_def)
  have "linear_table (\<lambda>n. crc32_entry (of_nat n)) (Suc (Suc (Suc (Suc (Suc (Suc (Suc (Suc 0)))))))) = CRC_table32"
    unfolding s [OF s [OF s [OF s [OF s [OF s [OF s [OF s [OF z]]]]]]]]
    by (simp add: crc32_entries CRC_table32_def)
  then show ?thesis by (simp add: numeral_eq_Suc)
qed

lemma linear_table_8_64: "linear_table (\<lambda>n. crc64_entry (of_nat n)) 8 = CRC_table64"
proof -
  note s = linear_table_Suc [of crc64_entry, OF crc64_entry_xor _ refl]
  have z: "linear_table (\<lambda>n. crc64_entry (of_nat n)) 0 = [0]"
    by (rule linear_table_0) (simp add: crc64_entry_def funpow_8 crc64_bit_def)
  have "linear_table (\<lambda>n. crc64_entry (of_nat n)) (Suc (Suc (Suc (Suc (Suc (Suc (Suc (Suc 0)))))))) = CRC_table64"
    unfolding s [OF s [OF s [OF s [OF s [OF s [OF s [OF s [OF z]]]]]]]]
    by (simp add: crc64_entries CRC_table64_def)
  then show ?thesis by (simp add: numeral_eq_Suc)
qed

lemma CRC_table32_nth: "n < 256 \<Longrightarrow> rd CRC_table32 n = Some (crc32_entry (of_nat n))"
  by (simp add: linear_table_8_32 [symmetric] linear_table_def faults)

lemma CRC_table64_nth: "n < 256 \<Longrightarrow> rd CRC_table64 n = Some (crc64_entry (of_nat n))"
  by (simp add: linear_table_8_64 [symmetric] linear_table_def faults)

section \<open>One byte\<close>

lemma unat_and_ff: "unat (w AND 0xff) < 256" for w :: "'a::len word"
proof -
  have "(0xff :: 'a word) = mask 8" by (simp add: mask_eq_exp_minus_1)
  then have "unat (w AND 0xff) = take_bit 8 (unat w)"
    by (simp only: take_bit_eq_mask [symmetric] unsigned_take_bit_eq)
  then show ?thesis by (simp add: take_bit_eq_mod)
qed

lemma bit_and_ff: "bit (w AND 0xff) n \<longleftrightarrow> bit w n \<and> n < 8" for w :: "'a::len word"
proof -
  have "(0xff :: 'a word) = mask 8" by (simp add: mask_eq_exp_minus_1)
  then show ?thesis
    by (simp only: bit_and_iff bit_mask_iff) (auto dest: bit_imp_possible_bit)
qed

lemma crc32_bit_even: "\<not> bit c 0 \<Longrightarrow> crc32_bit c = drop_bit 1 c"
  by (simp add: crc32_bit_def)

lemma crc64_bit_low: "\<not> bit c 63 \<Longrightarrow> crc64_bit c = push_bit 1 c"
  by (simp add: crc64_bit_def)

lemma crc32_shift: "\<forall>i<k. \<not> bit z i \<Longrightarrow> (crc32_bit ^^ k) z = drop_bit k z"
proof (induction k)
  case (Suc k)
  then have "(crc32_bit ^^ Suc k) z = crc32_bit (drop_bit k z)" by simp
  also have "\<dots> = drop_bit 1 (drop_bit k z)"
    using Suc.prems by (intro crc32_bit_even) (simp add: bit_drop_bit_eq)
  finally show ?case by simp
qed simp

lemma crc64_shift: "k \<le> 64 \<Longrightarrow> \<forall>i<k. \<not> bit z (63 - i) \<Longrightarrow> (crc64_bit ^^ k) z = push_bit k z"
proof (induction k)
  case (Suc k)
  then have "(crc64_bit ^^ Suc k) z = crc64_bit (push_bit k z)" by simp
  also have "\<dots> = push_bit 1 (push_bit k z)"
    using Suc.prems by (intro crc64_bit_low) (simp add: bit_push_bit_iff)
  finally show ?case by (simp only: push_bit_push_bit) simp
qed simp

lemma crc32_step: "crc32_entry ((crc XOR ucast b) AND 0xff) XOR drop_bit 8 crc = crc32_byte crc b"
proof -
  let ?x = "crc XOR ucast b :: u32"
  let ?hi = "push_bit 8 (drop_bit 8 ?x)"
  have "?x = (?x AND 0xff) XOR ?hi"
  proof (rule bit_word_eqI)
    fix n assume "n < LENGTH(32)"
    then show "bit ?x n \<longleftrightarrow> bit ((?x AND 0xff) XOR ?hi) n"
      by (cases "n < 8") (simp_all add: bit_xor_iff bit_and_ff bit_push_bit_iff bit_drop_bit_eq
          possible_bit_def)
  qed
  then have "crc32_byte crc b = crc32_entry ((?x AND 0xff) XOR ?hi)"
    by (simp add: crc32_byte_def crc32_entry_def)
  also have "\<dots> = crc32_entry (?x AND 0xff) XOR crc32_entry ?hi" by (rule crc32_entry_xor)
  also have "crc32_entry ?hi = drop_bit 8 ?hi"
    unfolding crc32_entry_def by (rule crc32_shift) (simp add: bit_push_bit_iff bit_xor_iff)
  also have "\<dots> = drop_bit 8 crc"
    by (rule bit_word_eqI) (auto simp: bit_drop_bit_eq bit_push_bit_iff bit_xor_iff bit_ucast_iff
        possible_bit_def dest: bit_imp_le_length)
  finally show ?thesis by simp
qed

lemma crc64_index:
  "((ucast (drop_bit 56 crc) :: u32) XOR ucast b) AND 0xff = ucast ((ucast (drop_bit 56 crc) :: u8) XOR b)"
  for crc :: u64
  by (rule bit_word_eqI) (auto simp: bit_and_ff bit_xor_iff bit_ucast_iff possible_bit_def
      dest: bit_imp_le_length)

lemma crc64_step:
  "crc64_entry ((ucast (drop_bit 56 crc) :: u8) XOR b) XOR push_bit 8 crc = crc64_byte crc b"
proof -
  let ?b = "(ucast (drop_bit 56 crc) :: u8) XOR b"
  have split: "crc XOR push_bit 56 (ucast b) = push_bit 56 (ucast ?b) XOR (crc AND mask 56)"
    by (rule bit_word_eqI) (auto simp: bit_xor_iff bit_and_iff bit_mask_iff bit_push_bit_iff
        bit_ucast_iff bit_drop_bit_eq possible_bit_def)
  have "(crc64_bit ^^ 8) (crc AND mask 56) = push_bit 8 (crc AND mask 56)"
    by (rule crc64_shift) (auto simp: bit_and_iff bit_mask_iff)
  also have "\<dots> = push_bit 8 crc"
    by (rule bit_word_eqI) (auto simp: bit_push_bit_iff bit_and_iff bit_mask_iff possible_bit_def)
  finally show ?thesis
    unfolding crc64_byte_def split by (simp add: funpow_xor crc64_bit_xor crc64_entry_def)
qed

section \<open>The loops\<close>

lemma crc32_loop_foldl:
  "i + n \<le> length d \<Longrightarrow> crc32_loop d i n crc = Some (foldl crc32_byte crc (take n (drop i d)))"
proof (induction n arbitrary: i crc)
  case (Suc n)
  then have "take (Suc n) (drop i d) = d ! i # take n (drop (Suc i) d)"
    by (simp add: Cons_nth_drop_Suc [symmetric])
  then show ?case using Suc
    by (simp add: faults CRC_table32_nth unat_and_ff crc32_step)
qed simp

lemma crc64_loop_foldl:
  "i + n \<le> length d \<Longrightarrow> crc64_loop d i n crc = Some (foldl crc64_byte crc (take n (drop i d)))"
proof (induction n arbitrary: i crc)
  case (Suc n)
  let ?b = "(ucast (drop_bit 56 crc) :: u8) XOR d ! i"
  have "unat ?b < 256" using unsigned_less [of ?b] by simp
  moreover from this have "take_bit 32 (unat ?b) = unat ?b"
    by (intro take_bit_nat_eq_self) simp
  then have "unat (ucast ?b :: u32) = unat ?b" by (simp add: unsigned_ucast_eq)
  moreover have "take (Suc n) (drop i d) = d ! i # take n (drop (Suc i) d)"
    using Suc.prems by (simp add: Cons_nth_drop_Suc [symmetric])
  ultimately show ?case using Suc
    by (simp add: faults crc64_index CRC_table64_nth crc64_step)
qed simp

lemma crc_loop_overrun:
  "n \<noteq> 0 \<Longrightarrow> length d < i + n \<Longrightarrow> crc32_loop d i n c = None"
  "n \<noteq> 0 \<Longrightarrow> length d < i + n \<Longrightarrow> crc64_loop d i n c' = None"
proof (induction n arbitrary: i c c')
  case (Suc n)
  { case 1
    then show ?case using Suc.IH(1) [of "Suc i"]
      by (cases "n = 0"; cases "i < length d") (auto simp: faults split: bind_split) }
  { case 2
    then show ?case using Suc.IH(2) [of "Suc i"]
      by (cases "n = 0"; cases "i < length d") (auto simp: faults split: bind_split) }
qed simp_all

section \<open>Checksums that can be continued\<close>

text \<open>
  What both routines share: a register is loaded from the previous checksum, stepped over the
  data and read out, and loading undoes reading out.
\<close>

locale checksum =
  fixes load :: "'w \<Rightarrow> 's" and step :: "'s \<Rightarrow> 'b \<Rightarrow> 's" and read :: "'s \<Rightarrow> 'w"
    and crc :: "'w \<Rightarrow> 'b list \<Rightarrow> 'w"
  assumes crc_foldl: "crc c xs = read (foldl step (load c) xs)"
    and load_read: "load (read s) = s"
begin

lemma append: "crc (crc c xs) ys = crc c (xs @ ys)"
  by (simp add: crc_foldl load_read)

lemma chunks: "foldl crc c xss = (if xss = [] then c else crc c (concat xss))"
proof (induction xss arbitrary: c)
  case Cons: (Cons xs xss)
  show ?case
  proof (cases xss)
    case (Cons a list)
    then have "foldl crc c (xs # xss) = crc (crc c xs) (concat xss)" using Cons.IH [of "crc c xs"] by simp
    then show ?thesis by (simp add: append)
  qed simp
qed simp

lemma same_register: "crc c xs = crc c ys \<longleftrightarrow> foldl step (load c) xs = foldl step (load c) ys"
  unfolding crc_foldl by (metis load_read)

end

text \<open>A checksum whose step loses nothing tells any two values of one byte apart.\<close>

locale lossless_checksum = checksum +
  assumes step_inj: "step s a = step s' a \<Longrightarrow> s = s'"
    and step_byte: "step s a = step s b \<Longrightarrow> a = b"
begin

lemma foldl_step_inj: "foldl step s xs = foldl step s' xs \<Longrightarrow> s = s'"
  by (induction xs arbitrary: s s') (auto dest: step_inj)

lemma detects_byte: "a \<noteq> b \<Longrightarrow> crc c (xs @ a # ys) \<noteq> crc c (xs @ b # ys)"
  by (auto simp: same_register dest!: foldl_step_inj step_byte)

end

definition crc32 :: "u32 \<Rightarrow> u8 list \<Rightarrow> u32" where
  "crc32 c xs = NOT (foldl crc32_byte (NOT c) xs)"

definition crc64 :: "u64 \<Rightarrow> u8 list \<Rightarrow> u64" where
  "crc64 c xs = NOT (foldl crc64_byte (NOT c) xs)"

lemma crc32_bit_zero: "crc32_bit z = 0 \<Longrightarrow> z = 0"
proof (rule ccontr)
  assume z: "crc32_bit z = 0" "z \<noteq> 0"
  show False
  proof (cases "bit z 0")
    case True
    have "\<not> bit (drop_bit 1 z) 31" using bit_imp_le_length [of z 32] by (auto simp: bit_drop_bit_eq)
    then have "bit (crc32_bit z) 31"
      unfolding crc32_bit_def if_P [OF True] by (simp only: bit_xor_iff) simp
    then show False using z(1) by simp
  next
    case False
    obtain n where n: "bit z n" using z(2) by (metis bit_eq_iff bit_0_eq bot_apply bot_bool_def)
    then have "n \<noteq> 0" using False by metis
    then have "bit (crc32_bit z) (n - 1)" using n False by (simp add: crc32_bit_even bit_drop_bit_eq)
    then show False using z(1) by simp
  qed
qed

lemma crc64_bit_zero: "crc64_bit z = 0 \<Longrightarrow> z = 0"
proof (rule ccontr)
  assume z: "crc64_bit z = 0" "z \<noteq> 0"
  show False
  proof (cases "bit z 63")
    case True
    have "\<not> bit (push_bit 1 z) 0" by (simp only: bit_push_bit_iff) simp
    then have "bit (crc64_bit z) 0"
      unfolding crc64_bit_def if_P [OF True] by (simp only: bit_xor_iff) simp
    then show False using z(1) by simp
  next
    case False
    obtain n where n: "bit z n" using z(2) by (metis bit_eq_iff bit_0_eq bot_apply bot_bool_def)
    moreover have "n < 64" using bit_imp_le_length [OF n] by simp
    ultimately have "n < 63" using False by (cases "n = 63") auto
    then have "bit (crc64_bit z) (n + 1)"
      unfolding crc64_bit_low [OF False] using n by (simp only: bit_push_bit_iff) simp
    then show False using z(1) by simp
  qed
qed

lemma xor_linear_inj:
  fixes f :: "'a::len word \<Rightarrow> 'a word"
  assumes "\<And>x y. f (x XOR y) = f x XOR f y" "\<And>z. f z = 0 \<Longrightarrow> z = 0" "f x = f y"
  shows "x = y"
proof -
  have "f (x XOR y) = 0" using assms(1,3) by simp
  then have "x XOR y = 0" by (rule assms(2))
  then have "(x XOR y) XOR y = y" by simp
  then show ?thesis by (simp only: xor.assoc xor_self_eq xor.right_neutral)
qed

lemma funpow_inj:
  fixes f :: "'a \<Rightarrow> 'a"
  shows "(\<And>x y. f x = f y \<Longrightarrow> x = y) \<Longrightarrow> (f ^^ n) x = (f ^^ n) y \<Longrightarrow> x = y"
  by (induction n) simp_all

lemma crc32_byte_inj: "crc32_byte s a = crc32_byte s' b \<Longrightarrow> s XOR ucast a = s' XOR ucast b"
  unfolding crc32_byte_def
  by (rule funpow_inj [of crc32_bit, OF xor_linear_inj [of crc32_bit]])
    (auto simp: crc32_bit_xor crc32_bit_zero)

lemma crc64_byte_inj:
  "crc64_byte s a = crc64_byte s' b \<Longrightarrow> s XOR push_bit 56 (ucast a) = s' XOR push_bit 56 (ucast b)"
  unfolding crc64_byte_def
  by (rule funpow_inj [of crc64_bit, OF xor_linear_inj [of crc64_bit]])
    (auto simp: crc64_bit_xor crc64_bit_zero)

lemma xor_right_inj: "x XOR a = x XOR b \<Longrightarrow> a = b" for x a b :: "'a::len word"
  by (metis xor.assoc xor_self_eq xor.left_neutral)

lemma xor_left_inj: "a XOR x = b XOR x \<Longrightarrow> a = b" for x a b :: "'a::len word"
  by (metis xor.assoc xor_self_eq xor.right_neutral)

lemma ucast_byte_inj:
  fixes a b :: u8
  shows "(ucast a :: u32) = ucast b \<Longrightarrow> a = b"
    "push_bit 56 (ucast a :: u64) = push_bit 56 (ucast b) \<Longrightarrow> a = b"
proof -
  show "a = b" if e: "(ucast a :: u32) = ucast b"
  proof (rule bit_word_eqI)
    fix n assume "n < LENGTH(8)"
    then show "bit a n = bit b n" using arg_cong [OF e, of "\<lambda>w. bit w n"] by (simp add: bit_ucast_iff)
  qed
  show "a = b" if e: "push_bit 56 (ucast a :: u64) = push_bit 56 (ucast b)"
  proof (rule bit_word_eqI)
    fix n assume "n < LENGTH(8)"
    then show "bit a n = bit b n" using arg_cong [OF e, of "\<lambda>w. bit w (56 + n)"]
      by (simp add: bit_ucast_iff bit_push_bit_iff)
  qed
qed

interpretation c32: lossless_checksum "\<lambda>c. NOT c" crc32_byte "\<lambda>s. NOT s" crc32
proof unfold_locales
  show "crc32_byte s a = crc32_byte s b \<Longrightarrow> a = b" for s a b
    using xor_right_inj [OF crc32_byte_inj [of s a s b]] ucast_byte_inj(1) by blast
qed (simp_all add: crc32_def xor_left_inj [OF crc32_byte_inj])

interpretation c64: lossless_checksum "\<lambda>c. NOT c" crc64_byte "\<lambda>s. NOT s" crc64
proof unfold_locales
  show "crc64_byte s a = crc64_byte s b \<Longrightarrow> a = b" for s a b
    using xor_right_inj [OF crc64_byte_inj [of s a s b]] ucast_byte_inj(2) by blast
qed (simp_all add: crc64_def xor_left_inj [OF crc64_byte_inj])

section \<open>Properties\<close>

text \<open>
  C34. On \<open>iLen\<close> bytes of the buffer both routines compute the bit-by-bit division by
  their polynomial (negative lengths count as none); asked for more bytes than there are,
  they read behind the buffer.
\<close>

theorem crc_routines_divide:
  "RtlComputeCrc32 c d len =
     (if nat len \<le> length d then Some (crc32 c (take (nat len) d)) else None) \<and>
   RtlCrc64 d len c' =
     (if nat len \<le> length d then Some (crc64 c' (take (nat len) d)) else None)"
  by (simp add: RtlComputeCrc32_def RtlCrc64_def crc32_loop_foldl crc64_loop_foldl crc32_def
      crc64_def crc_loop_overrun)

text \<open>
  A checksum can be computed chunk by chunk, feeding each result into the next call, for
  both routines.
\<close>

theorem crc_chunks:
  assumes "RtlComputeCrc32 c xs (int (length xs)) = Some r" "RtlCrc64 xs (int (length xs)) c' = Some r'"
  shows "RtlComputeCrc32 r ys (int (length ys)) = RtlComputeCrc32 c (xs @ ys) (int (length (xs @ ys))) \<and>
    RtlCrc64 ys (int (length ys)) r' = RtlCrc64 (xs @ ys) (int (length (xs @ ys))) c'"
  using assms c32.append [of c xs ys] c64.append [of c' xs ys]
  by (auto simp: RtlComputeCrc32_def RtlCrc64_def crc32_loop_foldl crc64_loop_foldl crc32_def crc64_def)

theorem crc_chunks_witness:
  "RtlComputeCrc32 0xd202ef8d [2, 3] (int (length [2, 3 :: u8])) =
     RtlComputeCrc32 0 ([0] @ [2, 3]) (int (length ([0] @ [2, 3 :: u8]))) \<and>
   RtlCrc64 [2, 3] (int (length [2, 3 :: u8])) 0x9afce626ce85b5f8 =
     RtlCrc64 ([0] @ [2, 3]) (int (length ([0] @ [2, 3 :: u8]))) 0"
  by (rule crc_chunks)
    (simp_all add: RtlComputeCrc32_def RtlCrc64_def rd_def CRC_table32_def CRC_table64_def Let_def
      drop_bit_eq_div mask_eq_exp_minus_1)

text \<open>Two messages that differ in exactly one byte have different checksums.\<close>

theorem crc_detects_byte:
  assumes "a \<noteq> b"
  shows "RtlComputeCrc32 c (xs @ a # ys) (int (length (xs @ a # ys))) \<noteq>
      RtlComputeCrc32 c (xs @ b # ys) (int (length (xs @ b # ys))) \<and>
    RtlCrc64 (xs @ a # ys) (int (length (xs @ a # ys))) c' \<noteq>
      RtlCrc64 (xs @ b # ys) (int (length (xs @ b # ys))) c'"
  using c32.detects_byte [OF assms, of c xs ys] c64.detects_byte [OF assms, of c' xs ys]
  by (simp add: RtlComputeCrc32_def RtlCrc64_def crc32_loop_foldl crc64_loop_foldl crc32_def crc64_def)

theorem crc_detects_byte_witness:
  "RtlComputeCrc32 0 ([1] @ 2 # [3]) (int (length ([1] @ 2 # [3 :: u8]))) \<noteq>
      RtlComputeCrc32 0 ([1] @ 4 # [3]) (int (length ([1] @ 4 # [3 :: u8]))) \<and>
   RtlCrc64 ([1] @ 2 # [3]) (int (length ([1] @ 2 # [3 :: u8]))) 0 \<noteq>
      RtlCrc64 ([1] @ 4 # [3]) (int (length ([1] @ 4 # [3 :: u8]))) 0"
  by (rule crc_detects_byte) simp

end
