(* ===== verification/Random_Gen.thy ===== *)
theory Random_Gen
  imports Prelude
begin

text \<open>
  The random number routines of \<^verbatim>\<open>libs/ntdll/random.c\<close>: Lehmer steps modulo
  \<^verbatim>\<open>0x7fffffff\<close> (after a 32-bit multiplication that wraps) and a table of 128 saved
  values that \<open>RtlRandom\<close> shuffles them through.  The static table is part of the state.
\<close>

section \<open>The code\<close>

definition SavedValue_init :: "u32 list" where
  "SavedValue_init =
     [0x4c8bc0aa, 0x4c022957, 0x2232827a, 0x2f1e7626, 0x7f8bdafb, 0x5c37d02a, 0x0ab48f72,
      0x2f0c4ffa, 0x290e1954, 0x6b635f23, 0x5d3885c0, 0x74b49ff8, 0x5155fa54, 0x6214ad3f,
      0x111e9c29, 0x242a3a09, 0x75932ae1, 0x40ac432e, 0x54f7ba7a, 0x585ccbd5, 0x6df5c727,
      0x0374dad1, 0x7112b3f1, 0x735fc311, 0x404331a9, 0x74d97781, 0x64495118, 0x323e04be,
      0x5974b425, 0x4862e393, 0x62389c1d, 0x28a68b82, 0x0f95da37, 0x7a50bbc6, 0x09b0091c,
      0x22cdb7b4, 0x4faaed26, 0x66417ccd, 0x189e4bfa, 0x1ce4e8dd, 0x5274c742, 0x3bdcf4dc,
      0x2d94e907, 0x32eac016, 0x26d33ca3, 0x60415a8a, 0x31f57880, 0x68c8aa52, 0x23eb16da,
      0x6204f4a1, 0x373927c1, 0x0d24eb7c, 0x06dd7379, 0x2b3be507, 0x0f9c55b1, 0x2c7925eb,
      0x36d67c9a, 0x42f831d9, 0x5e3961cb, 0x65d637a8, 0x24bb3820, 0x4d08e33d, 0x2188754f,
      0x147e409e, 0x6a9620a0, 0x62e26657, 0x7bd8ce81, 0x11da0abb, 0x5f9e7b50, 0x23e444b6,
      0x25920c78, 0x5fc894f0, 0x5e338cbb, 0x404237fd, 0x1d60f80f, 0x320a1743, 0x76013d2b,
      0x070294ee, 0x695e243b, 0x56b177fd, 0x752492e1, 0x6decd52f, 0x125f5219, 0x139d2e78,
      0x1898d11e, 0x2f7ee785, 0x4db405d8, 0x1a028a35, 0x63f6f323, 0x1f6d0078, 0x307cfd67,
      0x3f32a78a, 0x6980796c, 0x462b3d83, 0x34b639f2, 0x53fce379, 0x74ba50f4, 0x1abc2c4b,
      0x5eeaeb8d, 0x335a7a0d, 0x3973dd20, 0x0462d66b, 0x159813ff, 0x1e4643fd, 0x06bc5c62,
      0x3115e3fc, 0x09101613, 0x47af2515, 0x4f11ec54, 0x78b99911, 0x3db8dd44, 0x1ec10b9b,
      0x5b5506ca, 0x773ce092, 0x567be81a, 0x5475b975, 0x7a2cde1a, 0x494536f5, 0x34737bb4,
      0x76d9750b, 0x2a1f6232, 0x2e49644d, 0x7dddcbe7, 0x500cebdb, 0x619dab9e, 0x48c626fe,
      0x1cda3193, 0x52dabe9d]"

definition lehmer :: "u32 \<Rightarrow> u32" where
  "lehmer Seed = (Seed * 0x7fffffed + 0x7fffffc3) mod 0x7fffffff"

text \<open>
  A call takes the table and the value of \<^verbatim>\<open>*Seed\<close> and returns the result, the new table
  and the new seed.
\<close>

definition RtlRandom :: "u32 list \<Rightarrow> u32 \<Rightarrow> (u32 \<times> u32 list \<times> u32) option" where
  "RtlRandom SavedValue Seed = do {
     let Rand = (Seed * 0x7fffffed + 0x7fffffc3) mod 0x7fffffff;
     let Seed' = (Rand * 0x7fffffed + 0x7fffffc3) mod 0x7fffffff;
     let Pos = unat (Seed' AND 0x7f);
     Result \<leftarrow> rd SavedValue Pos;
     SavedValue' \<leftarrow> wr SavedValue Pos Rand;
     Some (Result, SavedValue', Seed')
   }"

definition RtlRandomEx :: "u32 list \<Rightarrow> u32 \<Rightarrow> (u32 \<times> u32 list \<times> u32) option" where
  "RtlRandomEx SavedValue Seed = do {
     let Rand = (Seed * 0x7fffffed + 0x7fffffc3) mod 0x7fffffff;
     let Seed' = (Rand * 0x7fffffed + 0x7fffffc3) mod 0x7fffffff;
     let Pos = unat (Seed' AND 0x7f);
     Result \<leftarrow> rd SavedValue Pos;
     SavedValue' \<leftarrow> wr SavedValue Pos Rand;
     Some (Result, SavedValue', Seed')
   }"

definition RtlUniform :: "u32 \<Rightarrow> u32 \<times> u32" where
  "RtlUniform Seed = (let Result = (Seed * 0x7fffffed + 0x7fffffc3) mod 0x7fffffff in (Result, Result))"

text \<open>A run of calls that share the table and the seed.\<close>

fun random_run :: "nat \<Rightarrow> u32 list \<Rightarrow> u32 \<Rightarrow> (u32 list \<times> u32 list \<times> u32) option" where
  "random_run 0 tab Seed = Some ([], tab, Seed)"
| "random_run (Suc n) tab Seed = do {
     (r, tab', Seed') \<leftarrow> RtlRandom tab Seed;
     (rs, tab'', Seed'') \<leftarrow> random_run n tab' Seed';
     Some (r # rs, tab'', Seed'')
   }"

section \<open>Lemmas\<close>

lemma and_7f_less: "unat (w AND 0x7f :: u32) < 128"
proof -
  have "(0x7f :: u32) = mask 7" by (simp add: mask_eq_exp_minus_1)
  then have "unat (w AND 0x7f) = take_bit 7 (unat w)"
    by (simp only: take_bit_eq_mask [symmetric] unsigned_take_bit_eq)
  then show ?thesis by (simp add: take_bit_eq_mod)
qed

lemma mod_maxlong_less: "w mod 0x7fffffff < 0x7fffffff" for w :: u32
  by (simp add: word_less_nat_alt unat_mod_distrib)

text \<open>The table invariant: 128 entries, all below \<^verbatim>\<open>MAXLONG\<close>.\<close>

definition wf_saved :: "u32 list \<Rightarrow> bool" where
  "wf_saved tab \<longleftrightarrow> length tab = 128 \<and> (\<forall>v \<in> set tab. v < 0x7fffffff)"

lemma wf_saved_init: "wf_saved SavedValue_init"
  by (simp add: wf_saved_def SavedValue_init_def)

lemma RtlRandom_step:
  assumes "wf_saved tab"
  shows "\<exists>r tab' s'. RtlRandom tab s = Some (r, tab', s') \<and> wf_saved tab' \<and> r < 0x7fffffff \<and>
    s' < 0x7fffffff \<and> r = tab ! unat (s' AND 0x7f) \<and> tab' = tab[unat (s' AND 0x7f) := lehmer s]"
  using assms and_7f_less [of "lehmer (lehmer s)"]
  by (auto simp: RtlRandom_def faults wf_saved_def lehmer_def Let_def mod_maxlong_less
      dest!: set_update_subset_insert [THEN subsetD])

lemma random_run_wf:
  "wf_saved tab \<Longrightarrow> \<exists>rs tab' s'. random_run n tab s = Some (rs, tab', s') \<and> wf_saved tab' \<and>
     length rs = n \<and> (\<forall>r \<in> set rs. r < 0x7fffffff)"
proof (induction n arbitrary: tab s)
  case (Suc n)
  obtain r t1 s1 where 1: "RtlRandom tab s = Some (r, t1, s1)" "wf_saved t1" "r < 0x7fffffff"
    using RtlRandom_step [OF Suc.prems] by blast
  from Suc.IH [OF this(2), of s1] 1 show ?case by auto
qed simp

section \<open>Properties\<close>

text \<open>
  However often \<open>RtlRandom\<close> is called, from whatever seed, it never reads outside its
  table, returns numbers below \<^verbatim>\<open>MAXLONG\<close> and keeps 128 such numbers in the table.
\<close>

theorem RtlRandom_runs:
  "\<exists>rs tab' s'. random_run n SavedValue_init s = Some (rs, tab', s') \<and> wf_saved tab' \<and>
     length rs = n \<and> list_all (\<lambda>r. r < 0x7fffffff) rs"
  using random_run_wf [OF wf_saved_init] by (simp add: list_all_iff)

end
