(* ===== verification/Large_Int.thy ===== *)
theory Large_Int
  imports Prelude "HOL-Library.Signed_Division"
begin

text \<open>
  The 64-bit helpers of \<^verbatim>\<open>libs/ntdll/large_int.c\<close>.  A division that traps (by zero, or the
  one signed quotient that does not fit) and a shift by a count C leaves undefined are
  \<open>None\<close>; multiplication wraps.
\<close>

section \<open>The code\<close>

definition of_LONGLONG :: "int \<Rightarrow> u64" where "of_LONGLONG i = word_of_int i"

definition div_traps :: "u64 \<Rightarrow> u64 \<Rightarrow> bool" where
  "div_traps a b \<longleftrightarrow> b = 0 \<or> a = 0x8000000000000000 \<and> b = - 1"

definition alldiv :: "u64 \<Rightarrow> u64 \<Rightarrow> u64 option" where
  "alldiv a b = (if div_traps a b then None else Some (of_LONGLONG (sint a sdiv sint b)))"

definition aulldiv :: "u64 \<Rightarrow> u64 \<Rightarrow> u64 option" where
  "aulldiv a b = (if b = 0 then None else Some (a div b))"

definition allrem :: "u64 \<Rightarrow> u64 \<Rightarrow> u64 option" where
  "allrem a b = (if div_traps a b then None else Some (of_LONGLONG (sint a smod sint b)))"

definition aullrem :: "u64 \<Rightarrow> u64 \<Rightarrow> u64 option" where
  "aullrem a b = (if b = 0 then None else Some (a mod b))"

definition allmul :: "u64 \<Rightarrow> u64 \<Rightarrow> u64" where
  "allmul a b = a * b"

definition aullshr :: "u64 \<Rightarrow> u32 \<Rightarrow> u64 option" where
  "aullshr a b = (if 0 \<le> sint b \<and> sint b < 64 then Some (drop_bit (nat (sint b)) a) else None)"

definition allshl :: "u64 \<Rightarrow> u32 \<Rightarrow> u64 option" where
  "allshl a b = (if 0 \<le> sint b \<and> sint b < 64 then Some (push_bit (nat (sint b)) a) else None)"

definition RtlExtendedIntegerMultiply :: "u64 \<Rightarrow> u32 \<Rightarrow> u64" where
  "RtlExtendedIntegerMultiply a b = a * scast b"

text \<open>The second component is the value stored in \<^verbatim>\<open>*rem\<close>, when \<^verbatim>\<open>rem\<close> is not null.\<close>

definition RtlLargeIntegerDivide :: "u64 \<Rightarrow> u64 \<Rightarrow> bool \<Rightarrow> (u64 \<times> u64 option) option" where
  "RtlLargeIntegerDivide a b rem = (if b = 0 then None else
     let ret = a div b in Some (ret, if rem then Some (a - ret * b) else None))"

definition RtlConvertLongToLargeInteger :: "u32 \<Rightarrow> u64" where
  "RtlConvertLongToLargeInteger SignedInteger = scast SignedInteger"

section \<open>Properties\<close>

lemma sint_range_64: "- (2 ^ 63) \<le> sint (a :: u64)" "sint a < 2 ^ 63"
  using sint_ge [of a] sint_lt [of a] by simp_all

lemma sint_of_LONGLONG: "- (2 ^ 63) \<le> i \<Longrightarrow> i < 2 ^ 63 \<Longrightarrow> sint (of_LONGLONG i) = i"
  by (simp add: of_LONGLONG_def sint_sbintrunc' signed_take_bit_int_eq_self)

lemma no_trap_quotient:
  assumes "\<not> div_traps a b"
  shows "sint a sdiv sint b < 2 ^ 63"
proof (rule ccontr)
  assume "\<not> sint a sdiv sint b < 2 ^ 63"
  then have "sint a sdiv sint b = 2 ^ 63" "\<bar>sint a\<bar> = 2 ^ 63"
    using sdiv_int_range [of "sint a" "sint b"] sint_range_64 [of a] by auto
  then have a: "sint a = - (2 ^ 63)" and "sint a sdiv sint b = - sint a" using sint_range_64 [of a] by auto
  moreover from a have "sint a \<noteq> 0" by simp
  ultimately have "sint b = - 1" using int_sdiv_negated_is_minus1 [of "sint a" "sint b"] by blast
  then have b: "b = - 1" by (metis signed_word_eqI sint_n1)
  have "a = word_of_int (sint a)" by simp
  also have "\<dots> = 0x8000000000000000" by (simp only: a) simp
  finally show False using assms b by (simp add: div_traps_def)
qed

text \<open>
  Where the hardware division does not trap, \<open>_alldiv\<close> and \<open>_allrem\<close> are quotient and
  remainder of division towards zero: they recombine to the dividend, the remainder is
  smaller than the divisor and has the sign of the dividend.  \<open>RtlLargeIntegerDivide\<close>
  returns quotient and remainder of unsigned division.
\<close>

theorem large_int_division:
  assumes "\<not> div_traps a b"
  shows "\<exists>q r. alldiv a b = Some q \<and> allrem a b = Some r \<and>
      sint q * sint b + sint r = sint a \<and> \<bar>sint r\<bar> < \<bar>sint b\<bar> \<and>
      (sint r \<noteq> 0 \<longrightarrow> sgn (sint r) = sgn (sint a)) \<and>
    (\<exists>q r. RtlLargeIntegerDivide a b True = Some (q, Some r) \<and>
      uint q * uint b + uint r = uint a \<and> uint r < uint b)"
proof -
  let ?q = "sint a sdiv sint b" and ?r = "sint a smod sint b"
  have b: "b \<noteq> 0" using assms by (auto simp: div_traps_def)
  then have b': "sint b \<noteq> 0" by (metis signed_word_eqI signed_0)
  have qr: "?q * sint b + ?r = sint a" by (rule sdiv_mult_smod_eq)
  have r: "\<bar>?r\<bar> < \<bar>sint b\<bar>" using smod_int_range [OF b', of "sint a"] by auto
  have sq: "sint (of_LONGLONG ?q) = ?q"
    using no_trap_quotient [OF assms] sdiv_int_range [of "sint a" "sint b"] sint_range_64 [of a]
    by (intro sint_of_LONGLONG) auto
  have sr: "sint (of_LONGLONG ?r) = ?r"
    using r sint_range_64 [of b] by (intro sint_of_LONGLONG) auto
  have sgn: "?r \<noteq> 0 \<longrightarrow> sgn ?r = sgn (sint a)"
  proof -
    have "0 \<le> \<bar>sint a\<bar> mod \<bar>sint b\<bar>" using b' by simp
    then have "\<bar>sint a\<bar> mod \<bar>sint b\<bar> \<noteq> 0 \<Longrightarrow> sgn (\<bar>sint a\<bar> mod \<bar>sint b\<bar>) = 1" by simp
    then show ?thesis by (auto simp: smod_int_alt_def sgn_mult)
  qed
  have "uint b \<noteq> 0" using b by (metis unsigned_word_eqI unsigned_0)
  then have ub: "0 < uint b" using uint_nonnegative [of b] by linarith
  have "a - (a div b) * b = a mod b" by (simp add: minus_div_mult_eq_mod)
  then have "RtlLargeIntegerDivide a b True = Some (a div b, Some (a mod b)) \<and>
      uint (a div b) * uint b + uint (a mod b) = uint a \<and> uint (a mod b) < uint b"
    using b ub by (simp add: RtlLargeIntegerDivide_def uint_div_distrib uint_mod_distrib)
  then show ?thesis using assms qr r sgn
    by (auto simp: alldiv_def allrem_def sq sr)
qed

theorem large_int_division_witness:
  "\<exists>q r. alldiv (- 7) 2 = Some q \<and> allrem (- 7) 2 = Some r \<and>
      sint q * sint (2 :: u64) + sint r = sint (- 7 :: u64) \<and> \<bar>sint r\<bar> < \<bar>sint (2 :: u64)\<bar> \<and>
      (sint r \<noteq> 0 \<longrightarrow> sgn (sint r) = sgn (sint (- 7 :: u64))) \<and>
    (\<exists>q r. RtlLargeIntegerDivide (- 7) 2 True = Some (q, Some r) \<and>
      uint q * uint (2 :: u64) + uint r = uint (- 7 :: u64) \<and> uint r < uint (2 :: u64))"
  by (rule large_int_division) (simp add: div_traps_def)

end
