(* ===== verification/Time_Fields.thy ===== *)
theory Time_Fields
  imports Prelude "HOL-Library.Signed_Division"
begin

text \<open>
  \<open>RtlTimeToTimeFields\<close> of \<^verbatim>\<open>libs/ntdll/timefields.c\<close>: from a count of 100 ns ticks
  since 1601 to a Gregorian date and a time of day.  \<^verbatim>\<open>TICKSPERSEC\<close> is an unsigned
  constant, so the first two divisions are unsigned and the 64-bit time is read as a
  \<open>64 word\<close>; all others are on \<^verbatim>\<open>LONGLONG\<close>, \<^verbatim>\<open>LONG\<close> or \<^verbatim>\<open>int\<close> values, which are
  \<open>int\<close> here, with C's truncating \<^verbatim>\<open>/\<close> and \<^verbatim>\<open>%\<close> as \<open>sdiv\<close> and \<open>smod\<close>, cut to their width by
  the conversions the code writes (no other operation can leave it).
\<close>

section \<open>The code\<close>

record time_fields =
  Year :: int
  Month :: int
  Day :: int
  Hour :: int
  Minute :: int
  Second :: int
  Milliseconds :: int
  Weekday :: int

definition TICKSPERSEC :: u64 where "TICKSPERSEC = 10000000"
definition TICKSPERMSEC :: u64 where "TICKSPERMSEC = 10000"
definition SECSPERDAY :: int where "SECSPERDAY = 86400"
definition SECSPERHOUR :: int where "SECSPERHOUR = 3600"
definition SECSPERMIN :: int where "SECSPERMIN = 60"
definition EPOCHWEEKDAY :: int where "EPOCHWEEKDAY = 1"
definition DAYSPERWEEK :: int where "DAYSPERWEEK = 7"
definition DAYSPERQUADRICENTENNIUM :: int where "DAYSPERQUADRICENTENNIUM = 365 * 400 + 97"
definition DAYSPERNORMALQUADRENNIUM :: int where "DAYSPERNORMALQUADRENNIUM = 365 * 4 + 1"

definition to_CSHORT :: "int \<Rightarrow> int" where "to_CSHORT i = signed_take_bit 15 i"
definition to_LONG :: "int \<Rightarrow> int" where "to_LONG i = signed_take_bit 31 i"

definition RtlTimeToTimeFields :: "u64 \<Rightarrow> time_fields" where
  "RtlTimeToTimeFields QuadPart =
    (let
       Milliseconds = to_CSHORT (uint ((QuadPart mod TICKSPERSEC) div TICKSPERMSEC));
       Time = uint (QuadPart div TICKSPERSEC);
       Days0 = to_LONG (Time sdiv SECSPERDAY);
       SecondsInDay0 = to_LONG (Time smod SECSPERDAY);
       Hour = to_CSHORT (SecondsInDay0 sdiv SECSPERHOUR);
       SecondsInDay = SecondsInDay0 smod SECSPERHOUR;
       Minute = to_CSHORT (SecondsInDay sdiv SECSPERMIN);
       Second = to_CSHORT (SecondsInDay smod SECSPERMIN);
       Weekday = to_CSHORT ((EPOCHWEEKDAY + Days0) smod DAYSPERWEEK);
       cleaps = (3 * ((4 * Days0 + 1227) sdiv DAYSPERQUADRICENTENNIUM) + 3) sdiv 4;
       Days = Days0 + (28188 + cleaps);
       years = (20 * Days - 2442) sdiv (5 * DAYSPERNORMALQUADRENNIUM);
       yearday = Days - (years * DAYSPERNORMALQUADRENNIUM) sdiv 4;
       months = (64 * yearday) sdiv 1959;
       Month = (if months < 14 then to_CSHORT (months - 1) else to_CSHORT (months - 13));
       Year = (if months < 14 then to_CSHORT (years + 1524) else to_CSHORT (years + 1525));
       Day = to_CSHORT (yearday - (1959 * months) sdiv 64)
     in \<lparr>Year = Year, Month = Month, Day = Day, Hour = Hour, Minute = Minute, Second = Second,
         Milliseconds = Milliseconds, Weekday = Weekday\<rparr>)"

section \<open>The Gregorian calendar\<close>

definition leap :: "int \<Rightarrow> bool" where
  "leap y \<longleftrightarrow> 4 dvd y \<and> (\<not> 100 dvd y \<or> 400 dvd y)"

definition month_len :: "int \<Rightarrow> int \<Rightarrow> int" where
  "month_len y m = (if m = 2 then (if leap y then 29 else 28)
     else if m \<in> {4, 6, 9, 11} then 30 else 31)"

text \<open>Days of the year before month \<open>m\<close>, and days from 1 January 1601 to 1 January of \<open>y\<close>.\<close>

definition days_before_month :: "int \<Rightarrow> int \<Rightarrow> int" where
  "days_before_month y m = (\<Sum>k \<leftarrow> [1..m - 1]. month_len y k)"

definition days_before_year :: "int \<Rightarrow> int" where
  "days_before_year y = 365 * (y - 1601) + ((y - 1) div 4 - (y - 1) div 100 + (y - 1) div 400 - 388)"

lemma days_before_year_1601: "days_before_year 1601 = 0"
  by (simp add: days_before_year_def)

lemma div_step: "0 < n \<Longrightarrow> y div n = (y - 1) div n + (if n dvd y then 1 else 0)" for n y :: int
proof -
  assume n: "0 < n"
  show ?thesis
  proof (cases "n dvd y")
    case True
    then obtain k where k: "y = n * k" by blast
    have "(n * k - 1) div n = k - 1"
      using n by (intro div_pos_geq [THEN trans] int_div_pos_eq [of _ n _ "n - 1"]) (auto simp: algebra_simps)
    then show ?thesis using True n k by simp
  next
    case False
    then have r: "0 < y mod n" using n by (simp add: dvd_eq_mod_eq_0 order_less_le)
    have "(y - 1) div n = y div n"
      using n r by (intro int_div_pos_eq [of _ _ _ "y mod n - 1"])
        (use pos_mod_bound [OF n, of y] in \<open>auto simp: algebra_simps\<close>)
    then show ?thesis using False by simp
  qed
qed

text \<open>The closed form counts 366 days for a leap year and 365 for any other.\<close>

lemma leap_count:
  "(b \<Longrightarrow> a) \<Longrightarrow> (c \<Longrightarrow> b) \<Longrightarrow> 365 + (if a then 1 else 0) - (if b then 1 else 0) + (if c then 1 else 0) =
     (if a \<and> (\<not> b \<or> c) then 366 else 365 :: int)"
  by (cases a; cases b; cases c) simp_all

lemma days_before_year_Suc: "days_before_year (y + 1) = days_before_year y + (if leap y then 366 else 365)"
proof -
  have d: "(100 :: int) dvd y \<Longrightarrow> 4 dvd y" "(400 :: int) dvd y \<Longrightarrow> 100 dvd y"
    by (rule dvd_trans [of _ 100], simp, assumption) (rule dvd_trans [of _ 400], simp)
  have e: "365 * (y + 1 - 1601) + ((p + a) - (q + b) + (r + c) - 388) =
      365 * (y - 1601) + (p - q + r - 388) + (365 + a - b + c)" for p q r a b c :: int
    by (simp add: algebra_simps)
  have s: "y div 4 = (y - 1) div 4 + (if 4 dvd y then 1 else 0)"
    "y div 100 = (y - 1) div 100 + (if 100 dvd y then 1 else 0)"
    "y div 400 = (y - 1) div 400 + (if 400 dvd y then 1 else 0)" by (rule div_step, simp)+
  have "days_before_year (y + 1) = days_before_year y +
      (365 + (if 4 dvd y then 1 else 0) - (if 100 dvd y then 1 else 0) + (if 400 dvd y then 1 else 0))"
    unfolding days_before_year_def add_diff_cancel_right' s by (rule e)
  also have "(365 + (if 4 dvd y then 1 else 0) - (if 100 dvd y then 1 else 0) +
      (if 400 dvd y then 1 else 0)) = (if leap y then 366 else 365 :: int)"
    unfolding leap_def by (rule leap_count) (fact d)+
  finally show ?thesis .
qed

section \<open>The date computation\<close>

text \<open>
  The intermediate values of the code, for a count of days that is not negative; \<open>C\<close> is the
  number of whole centuries the leap-day correction uses.
\<close>

lemma sdiv_nonneg: "0 \<le> a \<Longrightarrow> 0 < b \<Longrightarrow> a sdiv b = a div b" for a b :: int
  by (cases "a = 0") (simp_all add: signed_divide_int_def)

lemma smod_nonneg: "0 \<le> a \<Longrightarrow> 0 < b \<Longrightarrow> a smod b = a mod b" for a b :: int
  by (cases "a = 0") (simp_all add: signed_modulo_int_def)

lemma to_CSHORT_id: "- 32768 \<le> i \<Longrightarrow> i < 32768 \<Longrightarrow> to_CSHORT i = i"
  by (simp add: to_CSHORT_def signed_take_bit_int_eq_self)

lemma to_LONG_id: "- 2147483648 \<le> i \<Longrightarrow> i < 2147483648 \<Longrightarrow> to_LONG i = i"
  by (simp add: to_LONG_def signed_take_bit_int_eq_self)

text \<open>
  A year that starts in March: its 366 possible days, split into months and days as the code
  does, and counted from its first of March.
\<close>

definition march_month_len :: "int \<Rightarrow> int" where
  "march_month_len k = (if k = 15 then 29 else if k \<in> {5, 7, 10, 12} then 30 else 31)"

definition yearday_ok :: "int \<Rightarrow> bool" where
  "yearday_ok d = (let k = (64 * d) div 1959; j = (1959 * k) div 64 in
     4 \<le> k \<and> k \<le> 15 \<and> 1 \<le> d - j \<and> d - j \<le> march_month_len k \<and>
     (k = 15 \<longrightarrow> (d - j = 29 \<longleftrightarrow> d = 488)))"

lemma yearday_all: "list_all yearday_ok [123..488]"
  by code_simp

lemma yearday_cases:
  assumes "123 \<le> d" "d \<le> 488"
  shows "yearday_ok d"
  using yearday_all assms by (simp only: list_all_iff set_upto atLeastAtMost_iff Ball_def)

text \<open>Where the months of that year start, in days of the calendar year.\<close>

lemma month_start_1: "days_before_month y 1 = 0" "days_before_month y 2 = 31"
  by (simp_all add: days_before_month_def month_len_def upto.simps)

lemma month_starts:
  "k \<in> set [4..13] \<Longrightarrow> days_before_month y (k - 1) = (1959 * k) div 64 - 122 + (if leap y then 60 else 59)"
  by (simp add: upto.simps, elim disjE)
    (simp_all add: days_before_month_def month_len_def upto.simps)

lemma year_bounds:
  fixes D :: int
  defines "y \<equiv> (20 * D - 2442) div 7305"
  shows "123 \<le> D - (1461 * y) div 4" "D - (1461 * y) div 4 \<le> 488"
    "D - (1461 * y) div 4 = 488 \<Longrightarrow> y mod 4 = 3"
proof -
  have y: "7305 * y \<le> 20 * D - 2442" "20 * D - 2442 < 7305 * y + 7305"
    unfolding y_def using div_mult_mod_eq [of "20 * D - 2442" 7305] 
      pos_mod_bound [of 7305 "20 * D - 2442"] pos_mod_sign [of 7305 "20 * D - 2442"] by linarith+
  obtain q r where qr: "y = 4 * q + r" "0 \<le> r" "r < 4"
    using div_mult_mod_eq [of y 4] pos_mod_bound [of 4 y] pos_mod_sign [of 4 y]
    by (metis add.commute mult.commute zero_less_numeral)
  have "(1461 * y) div 4 = 1461 * q + (1461 * r) div 4"
    unfolding qr(1) by (simp add: algebra_simps)
  moreover have "r = 0 \<or> r = 1 \<or> r = 2 \<or> r = 3" using qr by linarith
  ultimately show "123 \<le> D - (1461 * y) div 4" "D - (1461 * y) div 4 \<le> 488"
    "D - (1461 * y) div 4 = 488 \<Longrightarrow> y mod 4 = 3"
    using y qr(1) by auto
qed

lemma century_bounds:
  fixes Days :: int
  defines "c \<equiv> (4 * Days + 1227) div 146097"
  defines "D \<equiv> Days + 28188 + (3 * c + 3) div 4"
  defines "y \<equiv> (20 * D - 2442) div 7305"
  shows "100 * c + 76 \<le> y" "y < 100 * c + 176"
    "y = 100 * c + 175 \<Longrightarrow> D - (1461 * y) div 4 = 488 \<Longrightarrow> c mod 4 = 3"
proof -
  obtain l where l_def: "l = (3 * c + 3) div 4" by blast
  have c: "146097 * c \<le> 4 * Days + 1227" "4 * Days + 1227 < 146097 * c + 146097"
    unfolding c_def using div_mult_mod_eq [of "4 * Days + 1227" 146097]
      pos_mod_bound [of 146097 "4 * Days + 1227"] pos_mod_sign [of 146097 "4 * Days + 1227"] by linarith+
  have l: "4 * l \<le> 3 * c + 3" "3 * c \<le> 4 * l" "c mod 4 = 3 \<longleftrightarrow> 4 * l = 3 * c + 3"
    unfolding l_def by presburger+
  have D: "20 * D = 20 * Days + 563760 + 20 * l" "D = Days + 28188 + l"
    by (simp_all add: D_def l_def)
  have y: "7305 * y \<le> 20 * D - 2442" "20 * D - 2442 < 7305 * y + 7305"
    unfolding y_def using div_mult_mod_eq [of "20 * D - 2442" 7305] 
      pos_mod_bound [of 7305 "20 * D - 2442"] pos_mod_sign [of 7305 "20 * D - 2442"] by linarith+
  show "100 * c + 76 \<le> y" using c l(1,2) y D(1) by linarith
  show "y < 100 * c + 176" using c l(1,2) y D(1) by linarith
  assume e: "y = 100 * c + 175" and last: "D - (1461 * y) div 4 = 488"
  have "(1461 * y) div 4 = 36525 * c + 63918" unfolding e by (simp add: algebra_simps)
  then have "Days + l = 36525 * c + 36218" using last by (simp add: D(2))
  then have "4 * l = 3 * c + 3" using c l by linarith
  then show "c mod 4 = 3" using l(3) by blast
qed

text \<open>
  The date part: for \<open>y\<close> and \<open>d\<close> as the code computes them, the month and the day are those
  of a calendar date, and that date lies \<open>Days\<close> days after 1 January 1601.
\<close>

lemma julian_days: "(1461 * y) div 4 = 365 * y + y div 4" for y :: int
proof -
  have "1461 * y = 365 * y * 4 + y" by simp
  then show ?thesis by (simp only: div_mult_self3)
qed

lemma century_year:
  fixes y c :: int
  assumes "100 * c + 76 \<le> y" "y < 100 * c + 176" "100 dvd y + 1525"
  shows "y = 100 * c + 175"
proof -
  obtain m where m: "y + 1525 = 100 * m" using assms(3) by blast
  then have "m = c + 17" using assms(1,2) by simp
  then show ?thesis using m by simp
qed

lemma three_quarters: "(3 * c + 3) div 4 = c - c div 4" for c :: int
proof -
  have "(3 * (4 * q + r) + 3) div 4 = (4 * q + r) - q" if "r = 0 \<or> r = 1 \<or> r = 2 \<or> r = 3" for q r :: int
    using that by auto
  from this [of "c mod 4" "c div 4"] show ?thesis
    using pos_mod_bound [of 4 c] pos_mod_sign [of 4 c] by (simp add: mult_div_mod_eq)
qed

lemma mod_4_split: "c mod 4 = 3 \<Longrightarrow> \<exists>q. c = 4 * q + 3" for c :: int
  by (metis mult_div_mod_eq)

lemma century_div: "100 * c \<le> z \<Longrightarrow> z < 100 * c + 100 \<Longrightarrow> z div 100 = c" for z c :: int
  by (intro int_div_pos_eq [of _ _ _ "z - 100 * c"]) auto

lemma div_400: "z div 400 = (z div 100) div 4" for z :: int
  by (simp add: zdiv_zmult2_eq [symmetric])

definition date_ok :: "int \<Rightarrow> int \<Rightarrow> int \<Rightarrow> int \<Rightarrow> bool" where
  "date_ok Days Y Mo D \<longleftrightarrow> 1 \<le> Mo \<and> Mo \<le> 12 \<and> 1 \<le> D \<and> D \<le> month_len Y Mo \<and>
     Days = days_before_year Y + days_before_month Y Mo + (D - 1)"

lemma civil_date:
  fixes Days :: int
  assumes "0 \<le> Days"
  defines "c \<equiv> (4 * Days + 1227) div 146097"
  defines "N \<equiv> Days + 28188 + (3 * c + 3) div 4"
  defines "y \<equiv> (20 * N - 2442) div 7305"
  defines "d \<equiv> N - (1461 * y) div 4"
  defines "k \<equiv> (64 * d) div 1959"
  shows "date_ok Days (if k < 14 then y + 1524 else y + 1525) (if k < 14 then k - 1 else k - 13)
    (d - (1959 * k) div 64)"
proof -
  note cb = century_bounds [of Days, folded c_def, folded N_def, folded y_def, folded d_def]
  note yb = year_bounds [of N, folded y_def, folded d_def]
  have ok: "4 \<le> k" "k \<le> 15" "1 \<le> d - (1959 * k) div 64" "d - (1959 * k) div 64 \<le> march_month_len k"
    "k = 15 \<Longrightarrow> d - (1959 * k) div 64 = 29 \<longleftrightarrow> d = 488"
    using yearday_cases [OF yb(1,2)] by (simp_all add: yearday_ok_def k_def [symmetric] Let_def)
  have cent: "(y + 1524) div 100 = c + 16" by (rule century_div) (use cb(1,2) in auto)
  have y1524: "y + 1525 - 1 = y + 1524" and y1525: "y + 1524 + 1 = y + 1525" by simp_all
  have quad: "(y + 1524) div 4 = y div 4 + 381" using div_mult_self1 [of 4 y 381] by simp
  have leaps: "(3 * c + 3) div 4 = c - c div 4" by (rule three_quarters)
  have four: "(c + 16) div 4 = c div 4 + 4" using div_mult_self1 [of 4 c 4] by simp
  have dby: "days_before_year (y + 1525) = 365 * (y - 76) + (y div 4 + 381 - (c + 16) + (c div 4 + 4) - 388)"
    unfolding days_before_year_def y1524 div_400 cent quad four by simp
  have days: "Days = d + 365 * y + y div 4 - 28188 - c + c div 4"
    by (simp add: d_def N_def leaps julian_days)
  show ?thesis
  proof (cases "k < 14")
    case True
    have "k \<in> set [4..13]" unfolding set_upto using ok(1) True by simp
    then have "days_before_month (y + 1524) (k - 1) =
        (1959 * k) div 64 - 122 + (if leap (y + 1524) then 60 else 59)" by (rule month_starts)
    moreover have "days_before_year (y + 1525) = days_before_year (y + 1524) +
        (if leap (y + 1524) then 366 else 365)" using days_before_year_Suc [of "y + 1524"] unfolding y1525 .
    moreover have "march_month_len k = month_len (y + 1524) (k - 1)"
      using True ok(1) by (auto simp: march_month_len_def month_len_def)
    ultimately show ?thesis using True ok(1,3,4) days dby
      by (auto simp: date_ok_def split: if_splits)
  next
    case False
    then consider "k = 14" | "k = 15" using ok(2) by linarith
    then show ?thesis
    proof cases
      case 1
      then show ?thesis using ok(3,4) days dby
        by (simp add: date_ok_def month_start_1 month_len_def march_month_len_def)
    next
      case 2
      have "leap (y + 1525)" if "d = 488"
      proof -
        have m: "y mod 4 = 3" using yb(3) that by simp
        have "400 dvd y + 1525" if h: "100 dvd y + 1525"
        proof -
          have y: "y = 100 * c + 175" by (rule century_year [OF cb(1,2) h])
          then obtain q where "c = 4 * q + 3" using cb(3) \<open>d = 488\<close> mod_4_split by blast
          then have "y + 1525 = 400 * (q + 5)" using y by simp
          then show ?thesis by simp
        qed
        moreover have "4 dvd y + 1525"
        proof -
          obtain q where "y = 4 * q + 3" using mod_4_split [OF m] by blast
          then have "y + 1525 = 4 * (q + 382)" by simp
          then show ?thesis by simp
        qed
        ultimately show ?thesis by (auto simp: leap_def)
      qed
      moreover have "d - (1959 * k) div 64 \<le> 28" if "d \<noteq> 488"
        using ok(4,5) that 2 by (simp add: march_month_len_def)
      ultimately have "d - 459 \<le> month_len (y + 1525) 2"
        using ok(4) 2 by (cases "d = 488") (auto simp: march_month_len_def month_len_def)
      then show ?thesis using ok(3) 2 days dby by (simp add: date_ok_def month_start_1)
    qed
  qed
qed

section \<open>The property\<close>

lemma year_range:
  fixes Days :: int
  assumes "0 \<le> Days" "Days < 10675200"
  defines "c \<equiv> (4 * Days + 1227) div 146097"
  defines "N \<equiv> Days + 28188 + (3 * c + 3) div 4"
  defines "y \<equiv> (20 * N - 2442) div 7305"
  shows "0 \<le> c" "0 \<le> (3 * c + 3) div 4" "0 \<le> 20 * N - 2442" "0 \<le> y" "y < 30000"
proof -
  have "c < 293" unfolding c_def using assms(2) by (simp add: div_less_iff_less_mult)
  then show c: "0 \<le> c" "0 \<le> (3 * c + 3) div 4"
    unfolding c_def using assms(1) by (simp_all add: pos_imp_zdiv_nonneg_iff)
  have "(3 * c + 3) div 4 < 221" using \<open>c < 293\<close> by (simp add: div_less_iff_less_mult)
  then have "20 * N - 2442 < 219000000" "0 \<le> 20 * N - 2442"
    using assms(1,2) c(2) by (simp_all add: N_def)
  then show "0 \<le> 20 * N - 2442" "0 \<le> y" "y < 30000"
    by (simp_all add: y_def pos_imp_zdiv_nonneg_iff div_less_iff_less_mult)
qed

text \<open>With a time that is not negative every division of the code rounds down, and no conversion cuts.\<close>

lemma fields_eq:
  fixes q :: u64
  assumes "uint q < 2 ^ 63"
  defines "t \<equiv> uint q"
  defines "Days \<equiv> t div 10000000 div 86400"
  defines "s \<equiv> t div 10000000 mod 86400"
  defines "c \<equiv> (4 * Days + 1227) div 146097"
  defines "N \<equiv> Days + 28188 + (3 * c + 3) div 4"
  defines "y \<equiv> (20 * N - 2442) div 7305"
  defines "d \<equiv> N - (1461 * y) div 4"
  defines "k \<equiv> (64 * d) div 1959"
  shows "RtlTimeToTimeFields q =
    \<lparr>Year = (if k < 14 then y + 1524 else y + 1525), Month = (if k < 14 then k - 1 else k - 13),
     Day = d - (1959 * k) div 64, Hour = s div 3600, Minute = s mod 3600 div 60,
     Second = s mod 3600 mod 60, Milliseconds = t mod 10000000 div 10000,
     Weekday = (1 + Days) mod 7\<rparr>"
proof -
  have t: "0 \<le> t" "t < 2 ^ 63" using assms(1) by (simp_all add: t_def)
  have D: "0 \<le> Days" "Days < 10675200"
    using t by (simp_all add: Days_def pos_imp_zdiv_nonneg_iff div_less_iff_less_mult)
  have s: "0 \<le> s" "s < 86400" by (simp_all add: s_def)
  note yr = year_range [OF D, folded c_def, folded N_def, folded y_def]
  note yb = year_bounds [of N, folded y_def, folded d_def]
  have ok: "4 \<le> k" "k \<le> 15" "1 \<le> d - (1959 * k) div 64" "d - (1959 * k) div 64 \<le> 31"
    using yearday_cases [OF yb(1,2)]
    by (simp_all add: yearday_ok_def k_def [symmetric] Let_def march_month_len_def split: if_splits)
  have time: "uint (q div TICKSPERSEC) = t div 10000000"
    "uint (q mod TICKSPERSEC div TICKSPERMSEC) = t mod 10000000 div 10000"
    by (simp_all add: TICKSPERSEC_def TICKSPERMSEC_def uint_div_distrib uint_mod_distrib t_def)
  have ms: "to_CSHORT (t mod 10000000 div 10000) = t mod 10000000 div 10000"
  proof -
    have "0 \<le> t mod 10000000 div 10000" "t mod 10000000 div 10000 < 1000"
      by (simp_all add: pos_imp_zdiv_nonneg_iff div_less_iff_less_mult)
    then show "to_CSHORT (t mod 10000000 div 10000) = t mod 10000000 div 10000"
      by (intro to_CSHORT_id) simp_all
  qed
  have day: "(t div 10000000) sdiv SECSPERDAY = Days" "to_LONG Days = Days"
    "(t div 10000000) smod SECSPERDAY = s" "to_LONG s = s"
    using t D s
    by (simp_all add: SECSPERDAY_def sdiv_nonneg smod_nonneg pos_imp_zdiv_nonneg_iff Days_def s_def
        to_LONG_id)
  have h: "s sdiv SECSPERHOUR = s div 3600" "to_CSHORT (s div 3600) = s div 3600"
    "s smod SECSPERHOUR = s mod 3600"
  proof -
    have "0 \<le> s div 3600" "s div 3600 < 24"
      using s by (simp_all add: pos_imp_zdiv_nonneg_iff div_less_iff_less_mult)
    then show "to_CSHORT (s div 3600) = s div 3600" by (intro to_CSHORT_id) simp_all
  qed (use s in \<open>simp_all add: SECSPERHOUR_def sdiv_nonneg smod_nonneg\<close>)
  have m: "(s mod 3600) sdiv SECSPERMIN = s mod 3600 div 60" "to_CSHORT (s mod 3600 div 60) = s mod 3600 div 60"
    "(s mod 3600) smod SECSPERMIN = s mod 3600 mod 60" "to_CSHORT (s mod 3600 mod 60) = s mod 3600 mod 60"
  proof -
    have "0 \<le> s mod 3600 div 60" "s mod 3600 div 60 < 60"
      by (simp_all add: pos_imp_zdiv_nonneg_iff div_less_iff_less_mult)
    then show "to_CSHORT (s mod 3600 div 60) = s mod 3600 div 60" by (intro to_CSHORT_id) simp_all
    have "0 \<le> s mod 3600 mod 60" "s mod 3600 mod 60 < 60" by simp_all
    then show "to_CSHORT (s mod 3600 mod 60) = s mod 3600 mod 60" by (intro to_CSHORT_id) linarith+
  qed (simp_all add: SECSPERMIN_def sdiv_nonneg smod_nonneg)
  have w: "(EPOCHWEEKDAY + Days) smod DAYSPERWEEK = (1 + Days) mod 7"
    "to_CSHORT ((1 + Days) mod 7) = (1 + Days) mod 7"
  proof -
    have "0 \<le> (1 + Days) mod 7" "(1 + Days) mod 7 < 7" by simp_all
    then show "to_CSHORT ((1 + Days) mod 7) = (1 + Days) mod 7" by (intro to_CSHORT_id) linarith+
  qed (use D in \<open>simp add: EPOCHWEEKDAY_def DAYSPERWEEK_def smod_nonneg\<close>)
  have c: "(4 * Days + 1227) sdiv DAYSPERQUADRICENTENNIUM = c" "(3 * c + 3) sdiv 4 = (3 * c + 3) div 4"
    using D yr(1) by (simp_all add: DAYSPERQUADRICENTENNIUM_def sdiv_nonneg c_def)
  have y: "(20 * N - 2442) sdiv (5 * DAYSPERNORMALQUADRENNIUM) = y"
    "(y * DAYSPERNORMALQUADRENNIUM) sdiv 4 = (1461 * y) div 4"
    using yr(3,4) by (simp_all add: DAYSPERNORMALQUADRENNIUM_def sdiv_nonneg y_def mult.commute)
  have k: "(64 * d) sdiv 1959 = k" "(1959 * k) sdiv 64 = (1959 * k) div 64"
    using yb(1) ok(1) by (simp_all add: sdiv_nonneg k_def)
  have shorts: "to_CSHORT (k - 1) = k - 1" "to_CSHORT (k - 13) = k - 13" "to_CSHORT (y + 1524) = y + 1524"
    "to_CSHORT (y + 1525) = y + 1525" "to_CSHORT (d - (1959 * k) div 64) = d - (1959 * k) div 64"
    using ok yr(4,5) by (simp_all add: to_CSHORT_id)
  have N: "Days + (28188 + (3 * c + 3) div 4) = N" by (simp add: N_def)
  show ?thesis
    unfolding RtlTimeToTimeFields_def Let_def time day ms h m w c N y d_def [symmetric] k shorts ..
qed

lemma digit:
  fixes x n m :: int
  assumes "0 < n" "0 < m"
  shows "x div (n * m) * m + x mod (n * m) div n = x div n"
proof -
  have "x mod (n * m) div n = x div n mod m"
    using assms by (simp add: zmod_zmult2_eq)
  moreover have "x div (n * m) = x div n div m" using assms by (simp add: zdiv_zmult2_eq)
  ultimately show ?thesis by simp
qed

lemma split_time: "x div 86400 * 24 + x mod 86400 div 3600 = x div 3600"
  "(x div 3600) * 60 + x mod 86400 mod 3600 div 60 = x div 60"
  "(x div 60) * 60 + x mod 86400 mod 3600 mod 60 = x"
  "(t div 10000000) * 1000 + t mod 10000000 div 10000 = t div 10000" for x t :: int
proof -
  have m: "x mod 86400 mod 3600 = x mod 3600" "x mod 3600 mod 60 = x mod 60"
    by (rule mod_mod_cancel, simp)+
  show "x div 86400 * 24 + x mod 86400 div 3600 = x div 3600" using digit [of 3600 24 x] by simp
  show "(x div 3600) * 60 + x mod 86400 mod 3600 div 60 = x div 60" using digit [of 60 60 x] by (simp add: m)
  show "(x div 60) * 60 + x mod 86400 mod 3600 mod 60 = x" by (simp add: m)
  show "(t div 10000000) * 1000 + t mod 10000000 div 10000 = t div 10000" using digit [of 10000 1000 t] by simp
qed

lemma split_ranges: "0 \<le> x mod 86400 div 3600" "x mod 86400 div 3600 < 24"
  "0 \<le> x mod 86400 mod 3600 div 60" "x mod 86400 mod 3600 div 60 < 60"
  "0 \<le> t mod 10000000 div 10000" "t mod 10000000 div 10000 < 1000" for x t :: int
  by (simp_all add: pos_imp_zdiv_nonneg_iff div_less_iff_less_mult)

text \<open>The day count a set of fields denotes.\<close>

definition field_days :: "time_fields \<Rightarrow> int" where
  "field_days F = days_before_year (Year F) + days_before_month (Year F) (Month F) + (Day F - 1)"

lemma time_fields_calendar:
  fixes q :: u64
  assumes "uint q < 2 ^ 63"
  defines "F \<equiv> RtlTimeToTimeFields q"
  shows "1 \<le> Month F \<and> Month F \<le> 12 \<and> 1 \<le> Day F \<and> Day F \<le> month_len (Year F) (Month F) \<and>
    0 \<le> Hour F \<and> Hour F < 24 \<and> 0 \<le> Minute F \<and> Minute F < 60 \<and> 0 \<le> Second F \<and> Second F < 60 \<and>
    0 \<le> Milliseconds F \<and> Milliseconds F < 1000 \<and> Weekday F = (1 + field_days F) mod 7 \<and>
    uint q div 10000 =
      (((field_days F * 24 + Hour F) * 60 + Minute F) * 60 + Second F) * 1000 + Milliseconds F"
proof -
  let ?x = "uint q div 10000000"
  have D: "0 \<le> ?x div 86400" by (simp add: pos_imp_zdiv_nonneg_iff)
  note F = fields_eq [OF assms(1), folded F_def]
  have "date_ok (?x div 86400) (Year F) (Month F) (Day F)"
    unfolding F time_fields.select_convs by (rule civil_date [OF D])
  then have date: "1 \<le> Month F" "Month F \<le> 12" "1 \<le> Day F" "Day F \<le> month_len (Year F) (Month F)"
    and Days: "field_days F = ?x div 86400" unfolding date_ok_def field_days_def by simp_all
  have fs: "Hour F = ?x mod 86400 div 3600" "Minute F = ?x mod 86400 mod 3600 div 60"
    "Second F = ?x mod 86400 mod 3600 mod 60" "Milliseconds F = uint q mod 10000000 div 10000"
    "Weekday F = (1 + ?x div 86400) mod 7"
    unfolding F time_fields.select_convs by (rule refl)+
  have secs: "0 \<le> ?x mod 86400 mod 3600 mod 60" "?x mod 86400 mod 3600 mod 60 < 60" by simp_all
  show ?thesis unfolding fs Days split_time using date split_ranges secs by blast
qed

text \<open>
  C25. For every 64-bit time that is not negative, the fields are a date of the Gregorian
  calendar and a time of day, and together they denote the given time, up to the
  milliseconds: \<open>Days\<close> whole days since 1 January 1601, a Monday.
\<close>

theorem RtlTimeToTimeFields_calendar:
  assumes "uint (q :: u64) < 2 ^ 63"
  shows "let F = RtlTimeToTimeFields q; Days = field_days F in
    1 \<le> Month F \<and> Month F \<le> 12 \<and> 1 \<le> Day F \<and> Day F \<le> month_len (Year F) (Month F) \<and>
    0 \<le> Hour F \<and> Hour F < 24 \<and> 0 \<le> Minute F \<and> Minute F < 60 \<and> 0 \<le> Second F \<and> Second F < 60 \<and>
    0 \<le> Milliseconds F \<and> Milliseconds F < 1000 \<and> Weekday F = (1 + Days) mod 7 \<and>
    uint q div 10000 = (((Days * 24 + Hour F) * 60 + Minute F) * 60 + Second F) * 1000 + Milliseconds F"
  unfolding Let_def by (rule time_fields_calendar [OF assms])

theorem RtlTimeToTimeFields_calendar_witness:
  "let q = 129000000000000000; F = RtlTimeToTimeFields q; Days = field_days F in
    1 \<le> Month F \<and> Month F \<le> 12 \<and> 1 \<le> Day F \<and> Day F \<le> month_len (Year F) (Month F) \<and>
    0 \<le> Hour F \<and> Hour F < 24 \<and> 0 \<le> Minute F \<and> Minute F < 60 \<and> 0 \<le> Second F \<and> Second F < 60 \<and>
    0 \<le> Milliseconds F \<and> Milliseconds F < 1000 \<and> Weekday F = (1 + Days) mod 7 \<and>
    uint q div 10000 = (((Days * 24 + Hour F) * 60 + Minute F) * 60 + Second F) * 1000 + Milliseconds F"
  using RtlTimeToTimeFields_calendar [of 129000000000000000] by (simp add: Let_def)

end
