(* ===== verification/Nt_Status.thy ===== *)
theory Nt_Status
  imports Prelude
begin

text \<open>
  The status codes of \<^verbatim>\<open>libs/ntdll/winternl.h\<close> and the pointer check most entry points
  start with.  A nullable pointer argument is an \<open>option\<close>.
\<close>

type_synonym NTSTATUS = u32

text \<open>\<open>nt_status\<close> unfolds the codes where their values matter.\<close>

named_theorems nt_status

definition STATUS_SUCCESS :: u32 where [nt_status]: "STATUS_SUCCESS = 0"
definition STATUS_BUFFER_OVERFLOW :: u32 where [nt_status]: "STATUS_BUFFER_OVERFLOW = 0x80000005"
definition STATUS_NO_MORE_ENTRIES :: u32 where [nt_status]: "STATUS_NO_MORE_ENTRIES = 0x8000001a"
definition STATUS_UNSUCCESSFUL :: u32 where [nt_status]: "STATUS_UNSUCCESSFUL = 0xc0000001"
definition STATUS_NOT_IMPLEMENTED :: u32 where [nt_status]: "STATUS_NOT_IMPLEMENTED = 0xc0000002"
definition STATUS_INVALID_INFO_CLASS :: u32 where [nt_status]: "STATUS_INVALID_INFO_CLASS = 0xc0000003"
definition STATUS_ACCESS_VIOLATION :: u32 where [nt_status]: "STATUS_ACCESS_VIOLATION = 0xc0000005"
definition STATUS_INVALID_HANDLE :: u32 where [nt_status]: "STATUS_INVALID_HANDLE = 0xc0000008"
definition STATUS_INVALID_PARAMETER :: u32 where [nt_status]: "STATUS_INVALID_PARAMETER = 0xc000000d"
definition STATUS_INVALID_DEVICE_REQUEST :: u32 where [nt_status]: "STATUS_INVALID_DEVICE_REQUEST = 0xc0000010"
definition STATUS_NO_MEMORY :: u32 where [nt_status]: "STATUS_NO_MEMORY = 0xc0000017"
definition STATUS_ACCESS_DENIED :: u32 where [nt_status]: "STATUS_ACCESS_DENIED = 0xc0000022"
definition STATUS_BUFFER_TOO_SMALL :: u32 where [nt_status]: "STATUS_BUFFER_TOO_SMALL = 0xc0000023"
definition STATUS_OBJECT_NAME_INVALID :: u32 where [nt_status]: "STATUS_OBJECT_NAME_INVALID = 0xc0000033"
definition STATUS_OBJECT_NAME_NOT_FOUND :: u32 where [nt_status]: "STATUS_OBJECT_NAME_NOT_FOUND = 0xc0000034"
definition STATUS_UNKNOWN_REVISION :: u32 where [nt_status]: "STATUS_UNKNOWN_REVISION = 0xc0000058"
definition STATUS_REVISION_MISMATCH :: u32 where [nt_status]: "STATUS_REVISION_MISMATCH = 0xc0000059"
definition STATUS_INVALID_ACL :: u32 where [nt_status]: "STATUS_INVALID_ACL = 0xc0000077"
definition STATUS_INVALID_SID :: u32 where [nt_status]: "STATUS_INVALID_SID = 0xc0000078"
definition STATUS_ALLOTTED_SPACE_EXCEEDED :: u32 where [nt_status]: "STATUS_ALLOTTED_SPACE_EXCEEDED = 0xc0000099"
definition STATUS_INSUFFICIENT_RESOURCES :: u32 where [nt_status]: "STATUS_INSUFFICIENT_RESOURCES = 0xc000009a"
definition STATUS_MEDIA_WRITE_PROTECTED :: u32 where [nt_status]: "STATUS_MEDIA_WRITE_PROTECTED = 0xc00000a2"
definition STATUS_DEVICE_NOT_READY :: u32 where [nt_status]: "STATUS_DEVICE_NOT_READY = 0xc00000a3"
definition STATUS_NOT_SUPPORTED :: u32 where [nt_status]: "STATUS_NOT_SUPPORTED = 0xc00000bb"
definition STATUS_BAD_DESCRIPTOR_FORMAT :: u32 where [nt_status]: "STATUS_BAD_DESCRIPTOR_FORMAT = 0xc00000e7"
definition STATUS_NAME_TOO_LONG :: u32 where [nt_status]: "STATUS_NAME_TOO_LONG = 0xc0000106"
definition STATUS_MESSAGE_NOT_FOUND :: u32 where [nt_status]: "STATUS_MESSAGE_NOT_FOUND = 0xc0000109"
definition STATUS_CANCELLED :: u32 where [nt_status]: "STATUS_CANCELLED = 0xc0000120"
definition STATUS_BAD_COMPRESSION_BUFFER :: u32 where [nt_status]: "STATUS_BAD_COMPRESSION_BUFFER = 0xc0000242"
definition STATUS_WAIT_0 :: u32 where [nt_status]: "STATUS_WAIT_0 = 0"
definition STATUS_ALERTED :: u32 where [nt_status]: "STATUS_ALERTED = 0x101"
definition STATUS_TIMEOUT :: u32 where [nt_status]: "STATUS_TIMEOUT = 0x102"
definition STATUS_PENDING :: u32 where [nt_status]: "STATUS_PENDING = 0x103"

text \<open>\<open>CHECK_POINTER\<close>: a \<^verbatim>\<open>NULL\<close> pointer returns \<open>STATUS_ACCESS_VIOLATION\<close>.\<close>

definition CHECK_POINTER :: "'p option \<Rightarrow> ('p \<Rightarrow> NTSTATUS \<times> 'r) \<Rightarrow> 'r \<Rightarrow> NTSTATUS \<times> 'r" where
  "CHECK_POINTER ptr body same =
     (case ptr of None \<Rightarrow> (STATUS_ACCESS_VIOLATION, same) | Some p \<Rightarrow> body p)"

lemma CHECK_POINTER_simps [simp]:
  "CHECK_POINTER None body same = (STATUS_ACCESS_VIOLATION, same)"
  "CHECK_POINTER (Some p) body same = body p"
  by (simp_all add: CHECK_POINTER_def)

text \<open>The codes are pairwise different.\<close>

lemma status_distinct:
  "distinct [STATUS_SUCCESS, STATUS_BUFFER_OVERFLOW, STATUS_NO_MORE_ENTRIES, STATUS_UNSUCCESSFUL, STATUS_NOT_IMPLEMENTED, STATUS_INVALID_INFO_CLASS, STATUS_ACCESS_VIOLATION, STATUS_INVALID_HANDLE, STATUS_INVALID_PARAMETER, STATUS_INVALID_DEVICE_REQUEST, STATUS_NO_MEMORY, STATUS_ACCESS_DENIED, STATUS_BUFFER_TOO_SMALL, STATUS_OBJECT_NAME_INVALID, STATUS_OBJECT_NAME_NOT_FOUND, STATUS_UNKNOWN_REVISION, STATUS_REVISION_MISMATCH, STATUS_INVALID_ACL, STATUS_INVALID_SID, STATUS_ALLOTTED_SPACE_EXCEEDED, STATUS_INSUFFICIENT_RESOURCES, STATUS_MEDIA_WRITE_PROTECTED, STATUS_DEVICE_NOT_READY, STATUS_NOT_SUPPORTED, STATUS_BAD_DESCRIPTOR_FORMAT, STATUS_NAME_TOO_LONG, STATUS_MESSAGE_NOT_FOUND, STATUS_CANCELLED, STATUS_BAD_COMPRESSION_BUFFER, STATUS_ALERTED, STATUS_TIMEOUT, STATUS_PENDING]"
  by (simp add: nt_status)

end
