(* ===== verification/Time.thy ===== *)
theory Time
  imports Time_Fields Nt_Status
begin

text \<open>
  \<^verbatim>\<open>libs/ntdll/time.c\<close> and \<open>RtlSecondsSince1970ToTime\<close> of \<^verbatim>\<open>rtl.c\<close>.  The clock of the
  host (\<^verbatim>\<open>gettimeofday\<close>, \<^verbatim>\<open>localtime\<close>, \<^verbatim>\<open>sysinfo\<close>) is an argument; all tick
  arithmetic is 64-bit and wraps (\<^verbatim>\<open>TICKSPERSEC\<close> is unsigned).
\<close>

section \<open>The code\<close>

record timeval =
  tv_sec :: u64
  tv_usec :: u64

definition TICKS_1601_TO_1970 :: u64 where "TICKS_1601_TO_1970 = 116444736000000000"

text \<open>The value stored in \<^verbatim>\<open>*Time\<close>, and the status; a null \<^verbatim>\<open>Time\<close> is \<open>None\<close>.\<close>

definition system_time :: "timeval \<Rightarrow> u64" where
  "system_time now = (tv_sec now * TICKSPERSEC + TICKS_1601_TO_1970) + tv_usec now * 10"

definition NtQuerySystemTime :: "timeval \<Rightarrow> u64 option \<Rightarrow> NTSTATUS \<times> u64 option" where
  "NtQuerySystemTime now Time =
     CHECK_POINTER Time (\<lambda>_. (STATUS_SUCCESS, Some (system_time now))) Time"

text \<open>\<open>gmtoff\<close> is \<^verbatim>\<open>tm_gmtoff\<close>, or \<open>None\<close> where \<^verbatim>\<open>localtime\<close> returns a null pointer.\<close>

definition RtlSystemTimeToLocalTime :: "u64 option \<Rightarrow> u64 \<Rightarrow> NTSTATUS \<times> u64" where
  "RtlSystemTimeToLocalTime gmtoff SystemTime =
    (let bias = (case gmtoff of Some off \<Rightarrow> off | None \<Rightarrow> 0);
         bias = bias * TICKSPERSEC;
         bias = - bias
     in (STATUS_SUCCESS, SystemTime - bias))"

text \<open>
  The results are the status, \<^verbatim>\<open>*PerformanceCounter\<close> and, when that pointer is given,
  \<^verbatim>\<open>*PerformanceFrequency\<close>.  \<open>up\<close> is the host's uptime in seconds.
\<close>

definition NtQueryPerformanceCounter ::
  "timeval \<Rightarrow> u64 \<Rightarrow> u64 option \<Rightarrow> u64 option \<Rightarrow> NTSTATUS \<times> u64 option \<times> u64 option" where
  "NtQueryPerformanceCounter now up PerformanceCounter PerformanceFrequency =
     CHECK_POINTER PerformanceCounter (\<lambda>_.
       let server_start_time = up * TICKSPERSEC + TICKS_1601_TO_1970;
           counter = ((system_time now - server_start_time) * 21) div 176;
           freq = (case PerformanceFrequency of None \<Rightarrow> None | Some _ \<Rightarrow> Some 1193182)
       in (STATUS_SUCCESS, Some counter, freq)) (PerformanceCounter, PerformanceFrequency)"

text \<open>The two halves of the \<^verbatim>\<open>LARGE_INTEGER\<close> and the time they make up.\<close>

definition RtlSecondsSince1970ToTime :: "u32 \<Rightarrow> u32 \<times> u32" where
  "RtlSecondsSince1970ToTime Seconds =
    (let secs = ucast Seconds * TICKSPERSEC + TICKS_1601_TO_1970
     in (ucast secs, ucast (drop_bit 32 secs)))"

definition QuadPart :: "u32 \<times> u32 \<Rightarrow> u64" where
  "QuadPart t = push_bit 32 (ucast (snd t)) OR ucast (fst t)"

section \<open>Lemmas\<close>

lemma QuadPart_halves: "QuadPart (ucast w, ucast (drop_bit 32 w)) = w" for w :: u64
proof (rule bit_word_eqI)
  fix n assume "n < LENGTH(64)"
  then show "bit (QuadPart (ucast w, ucast (drop_bit 32 w))) n \<longleftrightarrow> bit w n"
    by (cases "n < 32") (auto simp: less_diff_conv2 QuadPart_def bit_or_iff bit_push_bit_iff bit_ucast_iff
        bit_drop_bit_eq possible_bit_def)
qed

lemma uint_seconds:
  "uint (ucast s * TICKSPERSEC + TICKS_1601_TO_1970 :: u64) = uint s * 10000000 + 116444736000000000"
  for s :: u32
proof -
  have s: "0 \<le> uint s" "uint s < 4294967296" using uint_nonnegative uint_bounded [of s] by auto
  have u: "uint (ucast s :: u64) = uint s"
    using s by (simp add: unsigned_ucast_eq take_bit_int_eq_self)
  have m: "uint (ucast s * TICKSPERSEC :: u64) = uint s * 10000000"
    using s by (simp add: uint_word_ariths u TICKSPERSEC_def)
  have t: "uint TICKS_1601_TO_1970 = 116444736000000000" by (simp add: TICKS_1601_TO_1970_def)
  show ?thesis using s unfolding uint_word_ariths(1) m t by simp
qed

lemma thousands: "x * 1000 + m = y * 1000 \<Longrightarrow> 0 \<le> m \<Longrightarrow> m < 1000 \<Longrightarrow> x = y \<and> m = 0"
  for x y m :: int
  by (cases x y rule: linorder_cases) simp_all

section \<open>Property\<close>

text \<open>
  Every count of seconds since 1970 converts to a time without loss: the two halves make
  up the exact tick count, and the date and time of day \<open>RtlTimeToTimeFields\<close> computes from
  it lie exactly that many seconds after 1 January 1970 (day 134774 since 1601).
\<close>

theorem seconds_since_1970_fields:
  "let T = QuadPart (RtlSecondsSince1970ToTime s); F = RtlTimeToTimeFields T in
     uint T = uint s * 10000000 + 116444736000000000 \<and>
     (((field_days F - 134774) * 24 + Hour F) * 60 + Minute F) * 60 + Second F = uint s \<and>
     Milliseconds F = 0"
proof -
  let ?T = "QuadPart (RtlSecondsSince1970ToTime s)"
  let ?F = "RtlTimeToTimeFields ?T"
  have T: "uint ?T = uint s * 10000000 + 116444736000000000"
    by (simp add: RtlSecondsSince1970ToTime_def Let_def QuadPart_halves uint_seconds)
  have "uint s < 4294967296" using uint_bounded [of s] by auto
  then have "uint ?T < 2 ^ 63" by (simp add: T)
  note cal = time_fields_calendar [OF this]
  have "uint ?T div 10000 = (uint s + 11644473600) * 1000"
  proof -
    have "uint ?T = 10000 * ((uint s + 11644473600) * 1000)" by (simp add: T)
    then show ?thesis by simp
  qed
  with cal have "(((field_days ?F * 24 + Hour ?F) * 60 + Minute ?F) * 60 + Second ?F) * 1000 + Milliseconds ?F
      = (uint s + 11644473600) * 1000" "0 \<le> Milliseconds ?F" "Milliseconds ?F < 1000" by simp_all
  from thousands [OF this] show ?thesis unfolding Let_def using T by simp
qed

lemma day_1970: "days_before_year 1970 = 134774"
  by (simp add: days_before_year_def)

end
