(* ===== verification/Links.thy ===== *)
theory Links
  imports Prelude "HOL-Library.Tree" "HOL-Library.Multiset"
begin

text \<open>
  The tree links of \<^verbatim>\<open>libs/ntdll/rtl.h\<close> (\<^verbatim>\<open>RTL_SPLAY_LINKS\<close>, \<^verbatim>\<open>RTL_BALANCED_LINKS\<close>
  and the access macros) on an explicit heap, and what it means for a heap to hold a tree.

  A pointer is a \<open>nat\<close>, \<open>0\<close> is \<^verbatim>\<open>NULL\<close>.  The heap has one map per field and the set of
  allocated addresses; reading or writing a field through a pointer outside that set is
  \<open>None\<close>.  The root of a tree is its own parent.
\<close>

section \<open>Heap and access macros\<close>

record links =
  alloc :: "nat \<Rightarrow> bool"
  parent_of :: "nat \<Rightarrow> nat"
  left_of :: "nat \<Rightarrow> nat"
  right_of :: "nat \<Rightarrow> nat"

definition live :: "'z links_scheme \<Rightarrow> nat \<Rightarrow> bool" where
  "live h p \<longleftrightarrow> p \<noteq> 0 \<and> alloc h p"

definition RtlParent :: "'z links_scheme \<Rightarrow> nat \<Rightarrow> nat option" where
  "RtlParent h p = (if live h p then Some (parent_of h p) else None)"

definition RtlLeftChild :: "'z links_scheme \<Rightarrow> nat \<Rightarrow> nat option" where
  "RtlLeftChild h p = (if live h p then Some (left_of h p) else None)"

definition RtlRightChild :: "'z links_scheme \<Rightarrow> nat \<Rightarrow> nat option" where
  "RtlRightChild h p = (if live h p then Some (right_of h p) else None)"

definition set_Parent :: "'z links_scheme \<Rightarrow> nat \<Rightarrow> nat \<Rightarrow> 'z links_scheme option" where
  "set_Parent h p v = (if live h p then Some (h\<lparr>parent_of := (parent_of h)(p := v)\<rparr>) else None)"

definition set_LeftChild :: "'z links_scheme \<Rightarrow> nat \<Rightarrow> nat \<Rightarrow> 'z links_scheme option" where
  "set_LeftChild h p v = (if live h p then Some (h\<lparr>left_of := (left_of h)(p := v)\<rparr>) else None)"

definition set_RightChild :: "'z links_scheme \<Rightarrow> nat \<Rightarrow> nat \<Rightarrow> 'z links_scheme option" where
  "set_RightChild h p v = (if live h p then Some (h\<lparr>right_of := (right_of h)(p := v)\<rparr>) else None)"

definition RtlInsertAsLeftChild :: "'z links_scheme \<Rightarrow> nat \<Rightarrow> nat \<Rightarrow> 'z links_scheme option" where
  "RtlInsertAsLeftChild h P C = Option.bind (set_LeftChild h P C) (\<lambda>h. set_Parent h C P)"

definition RtlInsertAsRightChild :: "'z links_scheme \<Rightarrow> nat \<Rightarrow> nat \<Rightarrow> 'z links_scheme option" where
  "RtlInsertAsRightChild h P C = Option.bind (set_RightChild h P C) (\<lambda>h. set_Parent h C P)"

definition RtlIsLeftChild :: "'z links_scheme \<Rightarrow> nat \<Rightarrow> bool option" where
  "RtlIsLeftChild h p = do { q \<leftarrow> RtlParent h p; l \<leftarrow> RtlLeftChild h q; Some (l = p) }"

definition RtlIsRightChild :: "'z links_scheme \<Rightarrow> nat \<Rightarrow> bool option" where
  "RtlIsRightChild h p = do { q \<leftarrow> RtlParent h p; r \<leftarrow> RtlRightChild h q; Some (r = p) }"

definition RtlIsRoot :: "'z links_scheme \<Rightarrow> nat \<Rightarrow> bool option" where
  "RtlIsRoot h p = do { q \<leftarrow> RtlParent h p; Some (q = p) }"

text \<open>In a heap where the pointers are live the accesses are plain field reads and updates.\<close>

lemma live_update [simp]:
  "live (h\<lparr>parent_of := f\<rparr>) p = live h p" "live (h\<lparr>left_of := f\<rparr>) p = live h p"
  "live (h\<lparr>right_of := f\<rparr>) p = live h p"
  by (simp_all add: live_def)

lemma links_live:
  assumes "live h p"
  shows "RtlParent h p = Some (parent_of h p)" "RtlLeftChild h p = Some (left_of h p)"
    "RtlRightChild h p = Some (right_of h p)"
    "set_Parent h p v = Some (h\<lparr>parent_of := (parent_of h)(p := v)\<rparr>)"
    "set_LeftChild h p v = Some (h\<lparr>left_of := (left_of h)(p := v)\<rparr>)"
    "set_RightChild h p v = Some (h\<lparr>right_of := (right_of h)(p := v)\<rparr>)"
    "RtlIsRoot h p = Some (parent_of h p = p)"
  using assms by (simp_all add: RtlParent_def RtlLeftChild_def RtlRightChild_def set_Parent_def
      set_LeftChild_def set_RightChild_def RtlIsRoot_def)

lemma links_live_child:
  assumes "live h p" "live h (parent_of h p)"
  shows "RtlIsLeftChild h p = Some (left_of h (parent_of h p) = p)"
    "RtlIsRightChild h p = Some (right_of h (parent_of h p) = p)"
  using assms by (simp_all add: RtlIsLeftChild_def RtlIsRightChild_def links_live)

lemma links_live_insert:
  assumes "live h p" "live h c"
  shows "RtlInsertAsLeftChild h p c =
      Some (h\<lparr>left_of := (left_of h)(p := c), parent_of := (parent_of h)(c := p)\<rparr>)"
    "RtlInsertAsRightChild h p c =
      Some (h\<lparr>right_of := (right_of h)(p := c), parent_of := (parent_of h)(c := p)\<rparr>)"
  using assms by (simp_all add: RtlInsertAsLeftChild_def RtlInsertAsRightChild_def links_live)

lemmas links_access = links_live links_live_child links_live_insert

lemma live_0 [simp]: "\<not> live h 0"
  by (simp add: live_def)

section \<open>Trees in the heap\<close>

text \<open>\<open>is_tree h q p t\<close>: at \<open>p\<close>, below the parent pointer \<open>q\<close>, the heap holds the tree \<open>t\<close>.\<close>

fun is_tree :: "'z links_scheme \<Rightarrow> nat \<Rightarrow> nat \<Rightarrow> nat tree \<Rightarrow> bool" where
  "is_tree h q p Leaf \<longleftrightarrow> p = 0"
| "is_tree h q p (Node l a r) \<longleftrightarrow> p = a \<and> live h a \<and> parent_of h a = q \<and>
     is_tree h a (left_of h a) l \<and> is_tree h a (right_of h a) r"

text \<open>Frames on the way from a node up to the root, the nearest one first.\<close>

datatype frame = FL nat "nat tree" \<comment> \<open>the hole is the left child of the node\<close>
  | FR "nat tree" nat

fun plug :: "frame list \<Rightarrow> nat tree \<Rightarrow> nat tree" where
  "plug [] t = t"
| "plug (FL a r # c) t = plug c (Node t a r)"
| "plug (FR l a # c) t = plug c (Node l a t)"

text \<open>
  \<open>is_ctx h c p q\<close>: the heap holds the context \<open>c\<close> around a hole whose node is \<open>p\<close>;
  \<open>q\<close> is the parent pointer that node has to have.
\<close>

fun is_ctx :: "'z links_scheme \<Rightarrow> frame list \<Rightarrow> nat \<Rightarrow> nat \<Rightarrow> bool" where
  "is_ctx h [] p q \<longleftrightarrow> q = p"
| "is_ctx h (FL a r # c) p q \<longleftrightarrow> q = a \<and> live h a \<and> left_of h a = p \<and>
     is_tree h a (right_of h a) r \<and> is_ctx h c a (parent_of h a)"
| "is_ctx h (FR l a # c) p q \<longleftrightarrow> q = a \<and> live h a \<and> right_of h a = p \<and>
     is_tree h a (left_of h a) l \<and> is_ctx h c a (parent_of h a)"

fun frame_list :: "frame list \<Rightarrow> nat list" where
  "frame_list [] = []"
| "frame_list (FL a r # c) = a # inorder r @ frame_list c"
| "frame_list (FR l a # c) = a # inorder l @ frame_list c"

lemma mset_plug: "mset (inorder (plug c t)) = mset (inorder t) + mset (frame_list c)"
  by (induction c t rule: plug.induct) (auto simp: ac_simps)

lemma distinct_plug: "distinct (inorder (plug c t)) \<longleftrightarrow> distinct (inorder t @ frame_list c)"
  by (metis mset_plug mset_append mset_eq_imp_distinct_iff)

fun before :: "frame list \<Rightarrow> nat list" where
  "before [] = []"
| "before (FL a r # c) = before c"
| "before (FR l a # c) = before c @ inorder l @ [a]"

fun after :: "frame list \<Rightarrow> nat list" where
  "after [] = []"
| "after (FL a r # c) = a # inorder r @ after c"
| "after (FR l a # c) = after c"

lemma inorder_plug: "inorder (plug c t) = before c @ inorder t @ after c"
  by (induction c t rule: plug.induct) auto

text \<open>Every node of a tree is the root of a subtree in a context.\<close>

lemma plug_append: "plug (c @ d) t = plug d (plug c t)"
  by (induction c t rule: plug.induct) auto

lemma node_context:
  assumes "a \<in> set_tree t"
  shows "\<exists>c l r. t = plug c (Node l a r)"
  using assms
proof (induction t)
  case (Node l b r)
  then consider "a = b" | "a \<in> set_tree l" | "a \<in> set_tree r" by auto
  then show ?case
  proof cases
    case 1
    then show ?thesis by (intro exI [of _ "[]"]) simp
  next
    case 2
    then obtain c l' r' where "l = plug c (Node l' a r')" using Node.IH(1) by blast
    then have "Node l b r = plug (c @ [FL b r]) (Node l' a r')" by (simp add: plug_append)
    then show ?thesis by blast
  next
    case 3
    then obtain c l' r' where "r = plug c (Node l' a r')" using Node.IH(2) by blast
    then have "Node l b r = plug (c @ [FR l b]) (Node l' a r')" by (simp add: plug_append)
    then show ?thesis by blast
  qed
qed simp

lemma is_tree_0: "is_tree h q 0 t \<longleftrightarrow> t = Leaf"
  by (cases t) auto

lemma is_tree_root: "is_tree h q p (Node l a r) \<Longrightarrow> p = a"
  by simp

lemma is_tree_nonzero: "is_tree h q p t \<Longrightarrow> a \<in> set_tree t \<Longrightarrow> live h a"
  by (induction t arbitrary: p q) auto

text \<open>Splitting a tree in the heap at one of its nodes, and putting it together again.\<close>

fun ctx_root :: "frame list \<Rightarrow> nat \<Rightarrow> nat" where
  "ctx_root [] a = a"
| "ctx_root (FL b r # c) a = ctx_root c b"
| "ctx_root (FR l b # c) a = ctx_root c b"

lemma is_tree_plug:
  "is_tree h p p (plug c (Node l a r)) \<longleftrightarrow>
     p = ctx_root c a \<and> (\<exists>q. is_ctx h c a q \<and> is_tree h q a (Node l a r))"
proof (induction c arbitrary: l a r)
  case Nil
  then show ?case by auto
next
  case (Cons f c)
  then show ?case by (cases f) auto
qed

section \<open>Changing a heap that holds a tree\<close>

text \<open>
  A tree survives when none of its nodes' fields change, except the parent pointer of its
  root, which may move to a new place.
\<close>

lemma is_tree_moved:
  assumes "is_tree h q p t"
    and "\<And>a. a \<in> set_tree t \<Longrightarrow> live h' a \<and> left_of h' a = left_of h a \<and> right_of h' a = right_of h a"
    and "\<And>a. a \<in> set_tree t \<Longrightarrow> a \<noteq> p \<Longrightarrow> parent_of h' a = parent_of h a"
    and "p \<noteq> 0 \<Longrightarrow> parent_of h' p = q'" and "distinct (inorder t)"
  shows "is_tree h' q' p t"
proof (cases t)
  case Leaf
  then show ?thesis using assms(1) by simp
next
  case (Node l a r)
  have same: "is_tree h' q p t'"
    if "is_tree h q p t'" "\<And>a. a \<in> set_tree t' \<Longrightarrow> live h' a \<and> left_of h' a = left_of h a \<and>
        right_of h' a = right_of h a \<and> parent_of h' a = parent_of h a" for q p t'
    using that by (induction t' arbitrary: q p) auto
  have p: "p = a" "p \<noteq> 0" using assms(1) Node by (auto simp: live_def)
  have "a \<notin> set_tree l" "a \<notin> set_tree r" using assms(5) Node by auto
  then have "is_tree h' a (left_of h a) l" "is_tree h' a (right_of h a) r"
    using assms(1,2,3) Node p by (auto intro!: same)
  then show ?thesis using assms(2,4) Node p by simp
qed

lemma is_tree_same:
  assumes "is_tree h q p t"
    and "\<And>a. a \<in> set_tree t \<Longrightarrow> live h' a \<and> left_of h' a = left_of h a \<and> right_of h' a = right_of h a \<and>
      parent_of h' a = parent_of h a"
  shows "is_tree h' q p t"
  using assms by (induction t arbitrary: q p) auto

lemma is_ctx_same:
  assumes "is_ctx h c p q"
    and "\<And>a. a \<in> set (frame_list c) \<Longrightarrow> live h' a \<and> left_of h' a = left_of h a \<and>
      right_of h' a = right_of h a \<and> parent_of h' a = parent_of h a"
  shows "is_ctx h' c p q"
  using assms
  by (induction c arbitrary: p q rule: frame_list.induct) (auto intro!: is_tree_same [of h _ _ _ h'])

text \<open>The hole of a context gets another node: only the nearest frame's child pointer changes.\<close>

fun refilled :: "'z links_scheme \<Rightarrow> 'y links_scheme \<Rightarrow> frame list \<Rightarrow> nat \<Rightarrow> bool" where
  "refilled h h' [] p' \<longleftrightarrow> True"
| "refilled h h' (FL a r # c) p' \<longleftrightarrow> left_of h' a = p' \<and> right_of h' a = right_of h a"
| "refilled h h' (FR l a # c) p' \<longleftrightarrow> right_of h' a = p' \<and> left_of h' a = left_of h a"

fun top_node :: "frame list \<Rightarrow> nat set" where
  "top_node [] = {}"
| "top_node (FL a r # c) = {a}"
| "top_node (FR l a # c) = {a}"

lemma is_ctx_refilled:
  assumes "is_ctx h c p q" "refilled h h' c p'" "distinct (frame_list c)"
    and "\<And>a. a \<in> set (frame_list c) \<Longrightarrow> live h' a \<and> parent_of h' a = parent_of h a"
    and "\<And>a. a \<in> set (frame_list c) \<Longrightarrow> a \<notin> top_node c \<Longrightarrow>
      left_of h' a = left_of h a \<and> right_of h' a = right_of h a"
  shows "is_ctx h' c p' (if c = [] then p' else q)"
proof (cases c)
  case Nil
  then show ?thesis by simp
next
  case (Cons f d)
  show ?thesis
  proof (cases f)
    case (FL a r)
    have "is_tree h' a (right_of h a) r"
      by (rule is_tree_same [of h]) (use assms Cons FL in auto)
    moreover have "is_ctx h' d a (parent_of h a)"
      by (rule is_ctx_same [of h]) (use assms Cons FL in auto)
    ultimately show ?thesis using assms Cons FL by simp
  next
    case (FR l a)
    have "is_tree h' a (left_of h a) l"
      by (rule is_tree_same [of h]) (use assms Cons FR in auto)
    moreover have "is_ctx h' d a (parent_of h a)"
      by (rule is_ctx_same [of h]) (use assms Cons FR in auto)
    ultimately show ?thesis using assms Cons FR by simp
  qed
qed

lemma is_ctx_live: "is_ctx h c p q \<Longrightarrow> a \<in> set (frame_list c) \<Longrightarrow> live h a"
  by (induction c arbitrary: p q rule: frame_list.induct) (auto dest: is_tree_nonzero)

section \<open>Disjoint trees\<close>

text \<open>
  Several trees in one heap, each with its parent pointer and its address, disjoint from each
  other and from the nodes \<open>S\<close>.
\<close>

fun apart :: "(nat \<times> nat \<times> nat tree) list \<Rightarrow> nat set \<Rightarrow> bool" where
  "apart [] S \<longleftrightarrow> True"
| "apart ((q, p, t) # ts) S \<longleftrightarrow>
     distinct (inorder t) \<and> set_tree t \<inter> S = {} \<and> apart ts (set_tree t \<union> S)"

definition forest :: "'z links_scheme \<Rightarrow> (nat \<times> nat \<times> nat tree) list \<Rightarrow> nat set \<Rightarrow> bool" where
  "forest h ts S \<longleftrightarrow> (\<forall>(q, p, t) \<in> set ts. is_tree h q p t) \<and> apart ts S \<and> (\<forall>x \<in> S. live h x)"

lemma is_tree_ptr: "is_tree h q p t \<Longrightarrow> p = 0 \<or> p \<in> set_tree t \<and> live h p"
  by (cases t) auto

lemma apart_node: "apart ts S \<Longrightarrow> (q, p, t) \<in> set ts \<Longrightarrow> distinct (inorder t) \<and> set_tree t \<inter> S = {}"
  by (induction ts S rule: apart.induct) auto

lemma forest_tree: "forest h ts S \<Longrightarrow> (q, p, t) \<in> set ts \<Longrightarrow> is_tree h q p t"
  by (auto simp: forest_def)

lemma forest_ptr:
  assumes "forest h ts S" "(q, p, t) \<in> set ts"
  shows "p \<notin> S" "p = 0 \<or> live h p"
  using assms forest_tree [OF assms, THEN is_tree_ptr] apart_node [of ts S q p t]
  by (auto simp: forest_def)

text \<open>The address of one tree is no node of another.\<close>

lemma apart_ptr:
  assumes "apart ts S" "\<And>q p t. (q, p, t) \<in> set ts \<Longrightarrow> is_tree h q p t"
    and "(q, p, t) \<in> set ts" "x \<in> set_tree t" "x \<noteq> p" "(q', p', t') \<in> set ts"
  shows "x \<noteq> p'"
  using assms
proof (induction ts arbitrary: S)
  case (Cons e ts)
  obtain q0 p0 t0 where e: "e = (q0, p0, t0)" by (cases e)
  have tr: "is_tree h q p t" "is_tree h q' p' t'" using Cons.prems by blast+
  have x0: "x \<noteq> 0" using is_tree_nonzero [OF tr(1)] Cons.prems(4) by (metis live_0)
  consider "(q, p, t) \<in> set ts" "(q', p', t') \<in> set ts" | "(q, p, t) = e" "(q', p', t') = e"
    | "(q, p, t) = e" "(q', p', t') \<in> set ts" | "(q, p, t) \<in> set ts" "(q', p', t') = e"
    using Cons.prems(3,6) by auto
  then show ?case
  proof cases
    case 1
    then show ?thesis using Cons.IH [of "set_tree t0 \<union> S"] Cons.prems e by auto
  next
    case 3
    then have "set_tree t' \<inter> set_tree t = {}"
      using Cons.prems(1) e apart_node [of ts "set_tree t0 \<union> S" q' p' t'] by auto
    then show ?thesis using is_tree_ptr [OF tr(2)] x0 Cons.prems(4) by auto
  next
    case 4
    then have "set_tree t \<inter> set_tree t' = {}"
      using Cons.prems(1) e apart_node [of ts "set_tree t0 \<union> S" q p t] by auto
    then show ?thesis using is_tree_ptr [OF tr(2)] x0 Cons.prems(4) by auto
  qed (use Cons.prems in auto)
qed simp

text \<open>The addresses of the trees of a forest are different, where they are not null.\<close>

fun ptrs_differ :: "nat list \<Rightarrow> bool" where
  "ptrs_differ [] \<longleftrightarrow> True"
| "ptrs_differ (p # ps) \<longleftrightarrow> list_all (\<lambda>p'. (p = p' \<longrightarrow> p' = 0) \<and> (p' = p \<longrightarrow> p' = 0)) ps \<and> ptrs_differ ps"

lemma apart_ptrs_differ:
  assumes "apart ts S" "\<And>q p t. (q, p, t) \<in> set ts \<Longrightarrow> is_tree h q p t"
  shows "ptrs_differ (map (\<lambda>(q, p, t). p) ts)"
  using assms
proof (induction ts S rule: apart.induct)
  case (2 q p t ts S)
  have "p = p' \<longrightarrow> p' = 0" if "(q', p', t') \<in> set ts" for q' p' t'
  proof -
    have "is_tree h q p t" "is_tree h q' p' t'" using 2 that by auto
    moreover have "set_tree t' \<inter> set_tree t = {}" using 2 that apart_node [of ts "set_tree t \<union> S" q' p' t'] by auto
    ultimately show ?thesis using is_tree_ptr by (metis disjoint_iff)
  qed
  then show ?case using 2 by (auto simp: list_all_iff)
qed simp

lemma forest_ptrs_differ: "forest h ts S \<Longrightarrow> ptrs_differ (map (\<lambda>(q, p, t). p) ts)"
  by (rule apart_ptrs_differ [of ts S h]) (auto simp: forest_def)

lemma forest_ptrs: "forest h ts S \<Longrightarrow> list_all (\<lambda>(q, p, t). p \<notin> S \<and> (p = 0 \<or> live h p)) ts"
  unfolding list_all_iff using forest_ptr by blast

lemma is_tree_parent: "is_tree h q p t \<Longrightarrow> p \<noteq> 0 \<Longrightarrow> parent_of h p = q"
  by (cases t) auto

lemma forest_parents: "forest h ts S \<Longrightarrow> list_all (\<lambda>(q, p, t). p \<noteq> 0 \<longrightarrow> parent_of h p = q) ts"
  unfolding list_all_iff using forest_tree is_tree_parent by blast

text \<open>
  The trees of a forest survive a change of the nodes in \<open>S\<close> and of the trees' own parent
  pointers.
\<close>

lemma forest_moved:
  assumes "forest h ts S" "(q, p, t) \<in> set ts" "p \<noteq> 0 \<Longrightarrow> parent_of h' p = q'"
    and "\<And>x. live h' x = live h x"
    and "\<And>x. x \<notin> S \<Longrightarrow> left_of h' x = left_of h x \<and> right_of h' x = right_of h x"
    and "\<And>x. x \<notin> S \<Longrightarrow> x \<notin> (\<lambda>(q, p, t). p) ` set ts \<Longrightarrow> parent_of h' x = parent_of h x"
  shows "is_tree h' q' p t"
proof (rule is_tree_moved [of h q])
  have ap: "apart ts S" "\<And>q p t. (q, p, t) \<in> set ts \<Longrightarrow> is_tree h q p t"
    using assms(1) by (auto simp: forest_def)
  note nd = apart_node [OF ap(1) assms(2)]
  show "is_tree h q p t" using ap assms(2) by blast
  then show "live h' a \<and> left_of h' a = left_of h a \<and> right_of h' a = right_of h a"
    if "a \<in> set_tree t" for a using that nd assms(4,5) by (auto dest: is_tree_nonzero)
  show "parent_of h' a = parent_of h a" if "a \<in> set_tree t" "a \<noteq> p" for a
  proof (rule assms(6))
    show "a \<notin> (\<lambda>(q, p, t). p) ` set ts" using apart_ptr [OF ap assms(2) that] by auto
  qed (use that nd in auto)
qed (use assms(3) apart_node [of ts S q p t] assms(1,2) in \<open>auto simp: forest_def\<close>)

lemma forest_ctx:
  assumes "is_ctx h c p q" "set (frame_list c) \<subseteq> S" "forest h ts S" "x \<in> set (frame_list c)"
  shows "x \<notin> (\<lambda>(q, p, t). p) ` set ts"
proof
  assume "x \<in> (\<lambda>(q, p, t). p) ` set ts"
  then obtain q p t where "(q, p, t) \<in> set ts" "x = p" by auto
  then show False using forest_ptr(1) [OF assms(3)] assms(2,4) by blast
qed

end
