(* ===== verification/Splay_Links.thy ===== *)
theory Splay_Links
  imports Links
begin

text \<open>
  \<^verbatim>\<open>libs/ntdll/splaytree.c\<close>: splaying, predecessors and successors, and the two deletions,
  on the link heap.  A null result is \<open>Some 0\<close>; \<open>None\<close> is a bad pointer or a loop that does not
  end.
\<close>

section \<open>Walking\<close>

partial_function (option) rightmost :: "'z links_scheme \<Rightarrow> nat \<Rightarrow> nat option" where
  "rightmost h Child = do {
     r \<leftarrow> RtlRightChild h Child;
     if r \<noteq> 0 then rightmost h r else Some Child
   }"

partial_function (option) leftmost :: "'z links_scheme \<Rightarrow> nat \<Rightarrow> nat option" where
  "leftmost h Child = do {
     l \<leftarrow> RtlLeftChild h Child;
     if l \<noteq> 0 then leftmost h l else Some Child
   }"

partial_function (option) climb_left :: "'z links_scheme \<Rightarrow> nat \<Rightarrow> nat option" where
  "climb_left h Child = do {
     b \<leftarrow> RtlIsLeftChild h Child;
     if b then Option.bind (RtlParent h Child) (climb_left h) else Some Child
   }"

partial_function (option) climb_right :: "'z links_scheme \<Rightarrow> nat \<Rightarrow> nat option" where
  "climb_right h Child = do {
     b \<leftarrow> RtlIsRightChild h Child;
     if b then Option.bind (RtlParent h Child) (climb_right h) else Some Child
   }"

definition RtlRealPredecessor :: "'z links_scheme \<Rightarrow> nat \<Rightarrow> nat option" where
  "RtlRealPredecessor h Links = do {
     Child \<leftarrow> RtlLeftChild h Links;
     if Child \<noteq> 0 then rightmost h Child
     else do {
       Child \<leftarrow> climb_left h Links;
       b \<leftarrow> RtlIsRightChild h Child;
       if b then RtlParent h Child else Some 0
     }
   }"

definition RtlRealSuccessor :: "'z links_scheme \<Rightarrow> nat \<Rightarrow> nat option" where
  "RtlRealSuccessor h Links = do {
     Child \<leftarrow> RtlRightChild h Links;
     if Child \<noteq> 0 then leftmost h Child
     else do {
       Child \<leftarrow> climb_right h Links;
       b \<leftarrow> RtlIsLeftChild h Child;
       if b then RtlParent h Child else Some 0
     }
   }"

definition RtlSubtreePredecessor :: "'z links_scheme \<Rightarrow> nat \<Rightarrow> nat option" where
  "RtlSubtreePredecessor h Links = do {
     Child \<leftarrow> RtlLeftChild h Links;
     if Child = 0 then Some 0 else rightmost h Child
   }"

definition RtlSubtreeSuccessor :: "'z links_scheme \<Rightarrow> nat \<Rightarrow> nat option" where
  "RtlSubtreeSuccessor h Links = do {
     Child \<leftarrow> RtlRightChild h Links;
     if Child = 0 then Some 0 else leftmost h Child
   }"

section \<open>Splaying\<close>

text \<open>\<^verbatim>\<open>if (RtlLeftChild(P)) RtlParent(RtlLeftChild(P)) = P;\<close> and its mirror image.\<close>

definition fix_left :: "'z links_scheme \<Rightarrow> nat \<Rightarrow> 'z links_scheme option" where
  "fix_left h P = do { c \<leftarrow> RtlLeftChild h P; if c \<noteq> 0 then set_Parent h c P else Some h }"

definition fix_right :: "'z links_scheme \<Rightarrow> nat \<Rightarrow> 'z links_scheme option" where
  "fix_right h P = do { c \<leftarrow> RtlRightChild h P; if c \<noteq> 0 then set_Parent h c P else Some h }"

text \<open>"Now we'll shove N all the way to the top": \<open>N\<close> inherits the parent of \<open>G\<close>.\<close>

definition take_place :: "'z links_scheme \<Rightarrow> nat \<Rightarrow> nat \<Rightarrow> 'z links_scheme option" where
  "take_place h N G = do {
     root \<leftarrow> RtlIsRoot h G;
     if root then set_Parent h N N
     else do {
       GP \<leftarrow> RtlParent h G;
       h \<leftarrow> set_Parent h N GP;
       left \<leftarrow> RtlIsLeftChild h G;
       GP \<leftarrow> RtlParent h G;
       if left then set_LeftChild h GP N else set_RightChild h GP N
     }
   }"

definition splay_case1 :: "'z links_scheme \<Rightarrow> nat \<Rightarrow> nat \<Rightarrow> nat \<Rightarrow> 'z links_scheme option" where
  "splay_case1 h N P G = do {
     v \<leftarrow> RtlRightChild h N; h \<leftarrow> set_LeftChild h P v;
     v \<leftarrow> RtlRightChild h P; h \<leftarrow> set_LeftChild h G v;
     h \<leftarrow> fix_left h P;
     h \<leftarrow> fix_left h G;
     h \<leftarrow> take_place h N G;
     h \<leftarrow> set_RightChild h N P;
     h \<leftarrow> set_Parent h P N;
     h \<leftarrow> set_RightChild h P G;
     set_Parent h G P
   }"

definition splay_case3 :: "'z links_scheme \<Rightarrow> nat \<Rightarrow> nat \<Rightarrow> nat \<Rightarrow> 'z links_scheme option" where
  "splay_case3 h N P G = do {
     v \<leftarrow> RtlLeftChild h N; h \<leftarrow> set_RightChild h G v;
     v \<leftarrow> RtlRightChild h N; h \<leftarrow> set_LeftChild h P v;
     h \<leftarrow> fix_right h G;
     h \<leftarrow> fix_left h P;
     h \<leftarrow> take_place h N G;
     h \<leftarrow> set_LeftChild h N G;
     h \<leftarrow> set_Parent h G N;
     h \<leftarrow> set_RightChild h N P;
     set_Parent h P N
   }"

definition splay_zig_left :: "'z links_scheme \<Rightarrow> nat \<Rightarrow> nat \<Rightarrow> 'z links_scheme option" where
  "splay_zig_left h N P = do {
     v \<leftarrow> RtlRightChild h N; h \<leftarrow> set_LeftChild h P v;
     h \<leftarrow> fix_left h P;
     h \<leftarrow> set_Parent h N N;
     h \<leftarrow> set_RightChild h N P;
     set_Parent h P N
   }"

definition splay_case2 :: "'z links_scheme \<Rightarrow> nat \<Rightarrow> nat \<Rightarrow> nat \<Rightarrow> 'z links_scheme option" where
  "splay_case2 h N P G = do {
     v \<leftarrow> RtlLeftChild h P; h \<leftarrow> set_RightChild h G v;
     v \<leftarrow> RtlLeftChild h N; h \<leftarrow> set_RightChild h P v;
     h \<leftarrow> fix_right h G;
     h \<leftarrow> fix_right h P;
     h \<leftarrow> take_place h N G;
     h \<leftarrow> set_LeftChild h N P;
     h \<leftarrow> set_Parent h P N;
     h \<leftarrow> set_LeftChild h P G;
     set_Parent h G P
   }"

definition splay_case4 :: "'z links_scheme \<Rightarrow> nat \<Rightarrow> nat \<Rightarrow> nat \<Rightarrow> 'z links_scheme option" where
  "splay_case4 h N P G = do {
     v \<leftarrow> RtlLeftChild h N; h \<leftarrow> set_RightChild h P v;
     v \<leftarrow> RtlRightChild h N; h \<leftarrow> set_LeftChild h G v;
     h \<leftarrow> fix_right h P;
     h \<leftarrow> fix_left h G;
     h \<leftarrow> take_place h N G;
     h \<leftarrow> set_LeftChild h N P;
     h \<leftarrow> set_Parent h G N;
     h \<leftarrow> set_RightChild h N G;
     set_Parent h P N
   }"

definition splay_zig_right :: "'z links_scheme \<Rightarrow> nat \<Rightarrow> nat \<Rightarrow> 'z links_scheme option" where
  "splay_zig_right h N P = do {
     v \<leftarrow> RtlLeftChild h N; h \<leftarrow> set_RightChild h P v;
     h \<leftarrow> fix_right h P;
     h \<leftarrow> set_Parent h N N;
     h \<leftarrow> set_LeftChild h N P;
     set_Parent h P N
   }"

text \<open>One pass of the loop for a node that is not the root.\<close>

definition splay_step :: "'z links_scheme \<Rightarrow> nat \<Rightarrow> 'z links_scheme option" where
  "splay_step h N = do {
     P \<leftarrow> RtlParent h N;
     G \<leftarrow> RtlParent h P;
     nl \<leftarrow> RtlIsLeftChild h N;
     pl \<leftarrow> RtlIsLeftChild h P;
     pr \<leftarrow> RtlIsRightChild h P;
     if nl then
       (if pl then splay_case1 h N P G else if pr then splay_case3 h N P G else splay_zig_left h N P)
     else
       (if pr then splay_case2 h N P G else if pl then splay_case4 h N P G else splay_zig_right h N P)
   }"

text \<open>The loop keeps \<open>N\<close>; the result is the heap, and \<open>N\<close> is the new root.\<close>

partial_function (option) splay_loop :: "'z links_scheme \<Rightarrow> nat \<Rightarrow> 'z links_scheme option" where
  "splay_loop h N = do {
     root \<leftarrow> RtlIsRoot h N;
     if root then Some h
     else do { h' \<leftarrow> splay_step h N; splay_loop h' N }
   }"

definition RtlSplay :: "'z links_scheme \<Rightarrow> nat \<Rightarrow> (nat \<times> 'z links_scheme) option" where
  "RtlSplay h Links = do { h' \<leftarrow> splay_loop h Links; Some (Links, h') }"

section \<open>Deletion\<close>

definition FixupChildLinks :: "'z links_scheme \<Rightarrow> nat \<Rightarrow> bool \<Rightarrow> bool \<Rightarrow> 'z links_scheme option" where
  "FixupChildLinks h Links Root LeftChild = do {
     l \<leftarrow> RtlLeftChild h Links;
     h \<leftarrow> (if l \<noteq> 0 then RtlInsertAsLeftChild h Links l else Some h);
     r \<leftarrow> RtlRightChild h Links;
     h \<leftarrow> (if r \<noteq> 0 then RtlInsertAsRightChild h Links r else Some h);
     if \<not> Root then do {
       p \<leftarrow> RtlParent h Links;
       if LeftChild then RtlInsertAsLeftChild h p Links else RtlInsertAsRightChild h p Links
     } else Some h
   }"

text \<open>\<^verbatim>\<open>*dst = t\<close>: copying a whole \<^verbatim>\<open>RTL_SPLAY_LINKS\<close>.\<close>

definition load_links :: "'z links_scheme \<Rightarrow> nat \<Rightarrow> (nat \<times> nat \<times> nat) option" where
  "load_links h p = (if live h p then Some (parent_of h p, left_of h p, right_of h p) else None)"

definition store_links :: "'z links_scheme \<Rightarrow> nat \<Rightarrow> nat \<times> nat \<times> nat \<Rightarrow> 'z links_scheme option" where
  "store_links h p t = do {
     h \<leftarrow> set_Parent h p (fst t);
     h \<leftarrow> set_LeftChild h p (fst (snd t));
     set_RightChild h p (snd (snd t))
   }"

definition swap_links :: "'z links_scheme \<Rightarrow> nat \<Rightarrow> nat \<Rightarrow> 'z links_scheme option" where
  "swap_links h LinkA LinkB = do {
     Ta \<leftarrow> load_links h LinkA;
     Tb \<leftarrow> load_links h LinkB;
     RootA \<leftarrow> RtlIsRoot h LinkA;
     LeftA \<leftarrow> RtlIsLeftChild h LinkA;
     LeftB \<leftarrow> RtlIsLeftChild h LinkB;
     h \<leftarrow> store_links h LinkB Ta;
     h \<leftarrow> store_links h LinkA Tb;
     h \<leftarrow> (if fst Tb = LinkA then do {
              h \<leftarrow> (if \<not> RootA then
                      (if LeftA then RtlInsertAsLeftChild h (fst Ta) LinkB
                       else RtlInsertAsRightChild h (fst Ta) LinkB)
                    else Some h);
              if LeftB then RtlInsertAsLeftChild h LinkB LinkA else RtlInsertAsRightChild h LinkB LinkA
            } else Some h);
     h \<leftarrow> FixupChildLinks h LinkA False LeftB;
     h \<leftarrow> FixupChildLinks h LinkB RootA LeftA;
     if RootA then set_Parent h LinkB LinkB else Some h
   }"

definition SwapSplayLinks :: "'z links_scheme \<Rightarrow> nat \<Rightarrow> nat \<Rightarrow> 'z links_scheme option" where
  "SwapSplayLinks h LinkA LinkB = do {
     pa \<leftarrow> RtlParent h LinkA;
     rb \<leftarrow> RtlIsRoot h LinkB;
     if pa = LinkB \<or> rb then swap_links h LinkB LinkA else swap_links h LinkA LinkB
   }"

text \<open>
  The part the two deletions share behind the swap, with what each does with the parent.
  \<open>unlink\<close> returns the heap and what becomes of the tree: \<open>Inl c\<close> that \<open>c\<close> is the new root
  (\<open>0\<close> when the tree is gone), \<open>Inr P\<close> that the parent \<open>P\<close> lost a child.
\<close>

definition unlink :: "'z links_scheme \<Rightarrow> nat \<Rightarrow> ('z links_scheme \<times> (nat + nat)) option" where
  "unlink h N = do {
     l \<leftarrow> RtlLeftChild h N;
     r \<leftarrow> RtlRightChild h N;
     root \<leftarrow> RtlIsRoot h N;
     if l = 0 \<and> r = 0 then
       (if root then Some (h, Inl 0)
        else do {
          P \<leftarrow> RtlParent h N;
          left \<leftarrow> RtlIsLeftChild h N;
          h \<leftarrow> (if left then set_LeftChild h P 0 else set_RightChild h P 0);
          Some (h, Inr P)
        })
     else do {
       let C = (if l \<noteq> 0 then l else r);
       if root then do { h \<leftarrow> set_Parent h C C; Some (h, Inl C) }
       else do {
         P \<leftarrow> RtlParent h N;
         left \<leftarrow> RtlIsLeftChild h N;
         h \<leftarrow> (if left then set_LeftChild h P C else set_RightChild h P C);
         h \<leftarrow> set_Parent h C P;
         Some (h, Inr P)
       }
     }
   }"

definition RtlDelete :: "'z links_scheme \<Rightarrow> nat \<Rightarrow> (nat \<times> 'z links_scheme) option" where
  "RtlDelete h Links = do {
     l \<leftarrow> RtlLeftChild h Links;
     r \<leftarrow> RtlRightChild h Links;
     h \<leftarrow> (if l \<noteq> 0 \<and> r \<noteq> 0 then do {
              SP \<leftarrow> RtlSubtreePredecessor h Links;
              SwapSplayLinks h SP Links
            } else Some h);
     (h, out) \<leftarrow> unlink h Links;
     case out of Inl C \<Rightarrow> Some (C, h) | Inr P \<Rightarrow> RtlSplay h P
   }"

text \<open>The result is the heap and the new value of \<^verbatim>\<open>*Root\<close>.\<close>

definition RtlDeleteNoSplay :: "'z links_scheme \<Rightarrow> nat \<Rightarrow> nat \<Rightarrow> (nat \<times> 'z links_scheme) option" where
  "RtlDeleteNoSplay h Links Root = do {
     l \<leftarrow> RtlLeftChild h Links;
     r \<leftarrow> RtlRightChild h Links;
     (Root, h) \<leftarrow> (if l \<noteq> 0 \<and> r \<noteq> 0 then do {
              SP \<leftarrow> RtlSubtreePredecessor h Links;
              root \<leftarrow> RtlIsRoot h Links;
              h \<leftarrow> SwapSplayLinks h SP Links;
              Some (if root then SP else Root, h)
            } else Some (Root, h));
     (h, out) \<leftarrow> unlink h Links;
     case out of Inl C \<Rightarrow> Some (C, h) | Inr P \<Rightarrow> Some (Root, h)
   }"

end
