(* ===== verification/Splay_Proofs.thy ===== *)
theory Splay_Proofs
  imports Splay_Links
begin

text \<open>
  Splaying refines a function on contexts and trees: each pass of the loop of \<open>RtlSplay\<close>
  takes one or two frames off the context of \<open>N\<close> and keeps the in-order sequence.
\<close>

section \<open>The abstract step\<close>

fun up_step :: "frame list \<Rightarrow> nat tree \<Rightarrow> nat \<Rightarrow> nat tree \<Rightarrow> frame list \<times> nat tree \<times> nat tree" where
  "up_step [] l n r = ([], l, r)"
| "up_step [FL p b] l n r = ([], l, Node r p b)"
| "up_step [FR a p] l n r = ([], Node a p l, r)"
| "up_step (FL p b # FL g d # c) l n r = (c, l, Node r p (Node b g d))"
| "up_step (FL p b # FR a g # c) l n r = (c, Node a g l, Node r p b)"
| "up_step (FR a p # FR d g # c) l n r = (c, Node (Node d g a) p l, r)"
| "up_step (FR a p # FL g d # c) l n r = (c, Node a p l, Node r g d)"

lemma up_step_inorder:
  "up_step c l n r = (c', l', r') \<Longrightarrow> inorder (plug c' (Node l' n r')) = inorder (plug c (Node l n r))"
  by (induction c l n r rule: up_step.induct) (auto simp: inorder_plug)

lemma up_step_shorter: "c \<noteq> [] \<Longrightarrow> up_step c l n r = (c', l', r') \<Longrightarrow> length c' < length c"
  by (induction c l n r rule: up_step.induct) auto

section \<open>The helpers of the step\<close>

definition reparent :: "(nat \<Rightarrow> nat) \<Rightarrow> nat \<Rightarrow> nat \<Rightarrow> nat \<Rightarrow> nat" where
  "reparent f c p = (if c \<noteq> 0 then f(c := p) else f)"

lemma reparent_apply: "reparent f c p x = (if c \<noteq> 0 \<and> x = c then p else f x)"
  by (simp add: reparent_def)

lemma fix_left_eq:
  "live h P \<Longrightarrow> left_of h P = 0 \<or> live h (left_of h P) \<Longrightarrow>
     fix_left h P = Some (h\<lparr>parent_of := reparent (parent_of h) (left_of h P) P\<rparr>)"
  by (auto simp: fix_left_def links_access reparent_def)

lemma fix_right_eq:
  "live h P \<Longrightarrow> right_of h P = 0 \<or> live h (right_of h P) \<Longrightarrow>
     fix_right h P = Some (h\<lparr>parent_of := reparent (parent_of h) (right_of h P) P\<rparr>)"
  by (auto simp: fix_right_def links_access reparent_def)

text \<open>Where \<open>N\<close> takes the place of \<open>G\<close>: the new child fields of the parent of \<open>G\<close>.\<close>

definition placed_left :: "(nat \<Rightarrow> nat) \<Rightarrow> (nat \<Rightarrow> nat) \<Rightarrow> nat \<Rightarrow> nat \<Rightarrow> nat \<Rightarrow> nat" where
  "placed_left pf lf N G = (if pf G \<noteq> G \<and> lf (pf G) = G then lf(pf G := N) else lf)"

definition placed_right ::
  "(nat \<Rightarrow> nat) \<Rightarrow> (nat \<Rightarrow> nat) \<Rightarrow> (nat \<Rightarrow> nat) \<Rightarrow> nat \<Rightarrow> nat \<Rightarrow> nat \<Rightarrow> nat" where
  "placed_right pf lf rf N G = (if pf G \<noteq> G \<and> lf (pf G) \<noteq> G then rf(pf G := N) else rf)"

lemma take_place_eq:
  assumes "live h N" "live h G" "live h (parent_of h G)" "N \<noteq> G"
  shows "take_place h N G = Some (h\<lparr>
    parent_of := (parent_of h)(N := if parent_of h G = G then N else parent_of h G),
    left_of := placed_left (parent_of h) (left_of h) N G,
    right_of := placed_right (parent_of h) (left_of h) (right_of h) N G\<rparr>)"
  using assms by (auto simp: take_place_def links_access placed_left_def placed_right_def)

text \<open>Outside the parent of \<open>G\<close> nothing changes.\<close>

lemma placed_other:
  "x \<noteq> pf G \<Longrightarrow> placed_left pf lf N G x = lf x"
  "x \<noteq> pf G \<Longrightarrow> placed_right pf lf rf N G x = rf x"
  by (simp_all add: placed_left_def placed_right_def)

lemma is_tree_ptr_ne: "is_tree h q p t \<Longrightarrow> x \<notin> set_tree t \<Longrightarrow> live h x \<Longrightarrow> p \<noteq> x"
  using is_tree_ptr by (metis live_0)

lemma is_tree_ptrs_ne:
  "is_tree h q p t \<Longrightarrow> is_tree h q' p' t' \<Longrightarrow> set_tree t \<inter> set_tree t' = {} \<Longrightarrow> p = p' \<longrightarrow> p = 0"
  using is_tree_ptr by (metis disjoint_iff)

section \<open>One rotation\<close>

text \<open>\<open>focus h c l n r\<close>: the heap holds \<open>n\<close> with the subtrees \<open>l\<close> and \<open>r\<close> in the context \<open>c\<close>.\<close>

definition focus :: "'z links_scheme \<Rightarrow> frame list \<Rightarrow> nat tree \<Rightarrow> nat \<Rightarrow> nat tree \<Rightarrow> bool" where
  "focus h c l n r \<longleftrightarrow> live h n \<and> is_ctx h c n (parent_of h n) \<and> is_tree h n (left_of h n) l \<and>
     is_tree h n (right_of h n) r \<and> distinct (inorder l @ n # inorder r @ frame_list c)"

lemma focus_plug:
  "focus h c l n r \<longleftrightarrow> is_tree h (ctx_root c n) (ctx_root c n) (plug c (Node l n r)) \<and>
     distinct (inorder (plug c (Node l n r)))"
  unfolding is_tree_plug distinct_plug by (auto simp: focus_def)

text \<open>The parent of the node above the hole of a context, seen from that node.\<close>

lemma ctx_parent:
  assumes "is_ctx h c n q" "live h n" "n \<notin> set (frame_list c)"
  shows "live h q" "c = [] \<longleftrightarrow> q = n" "c \<noteq> [] \<Longrightarrow> top_node c = {q} \<and> q \<in> set (frame_list c)"
  using assms by (cases c; cases "hd c"; auto)+

lemma placed_refills:
  assumes "is_ctx h c g (parent_of h g)" "live h g" "distinct (g # frame_list c)"
    and "\<And>x. x \<in> set (frame_list c) \<Longrightarrow> lf x = left_of h x \<and> rf x = right_of h x"
    and "pf g = parent_of h g"
    and "\<And>x. x \<in> set (frame_list c) \<Longrightarrow> left_of h' x = placed_left pf lf n g x"
    and "\<And>x. x \<in> set (frame_list c) \<Longrightarrow> right_of h' x = placed_right pf lf rf n g x"
    and "\<And>x. x \<in> set (frame_list c) \<Longrightarrow> live h' x \<and> parent_of h' x = parent_of h x"
  shows "is_ctx h' c n (if c = [] then n else parent_of h g)"
proof (rule is_ctx_refilled [OF assms(1)])
  note par = ctx_parent [OF assms(1,2)]
  show "refilled h h' c n"
    using assms par by (cases c; cases "hd c") (auto simp: placed_left_def placed_right_def dest: is_tree_ptr)
  show "distinct (frame_list c)" using assms(3) by simp
  show "left_of h' x = left_of h x \<and> right_of h' x = right_of h x"
    if "x \<in> set (frame_list c)" "x \<notin> top_node c" for x
    using that assms par by (cases "c = []") (auto simp: placed_left_def placed_right_def)
qed (use assms in auto)

text \<open>
  The nodes of a double rotation, \<open>n\<close> below \<open>p\<close> below \<open>g\<close> in the context \<open>c\<close>, with their four
  subtrees \<open>ts\<close>.
\<close>

definition hinge :: "'z links_scheme \<Rightarrow> nat \<Rightarrow> nat \<Rightarrow> nat \<Rightarrow> frame list \<Rightarrow> (nat \<times> nat \<times> nat tree) list \<Rightarrow> bool" where
  "hinge h n p g c ts \<longleftrightarrow> is_ctx h c g (parent_of h g) \<and> forest h ts ({n, p, g} \<union> set (frame_list c)) \<and>
     distinct (n # p # g # frame_list c)"

lemma hinge_facts:
  assumes "hinge h n p g c ts"
  shows "live h n" "live h p" "live h g" "n \<noteq> p" "n \<noteq> g" "p \<noteq> g" "live h (parent_of h g)"
    "c = [] \<longleftrightarrow> parent_of h g = g" "parent_of h g \<noteq> n" "parent_of h g \<noteq> p"
proof -
  have c: "is_ctx h c g (parent_of h g)" and l: "live h n" "live h p" "live h g"
    and d: "distinct (n # p # g # frame_list c)"
    using assms by (auto simp: hinge_def forest_def)
  show "live h n" "live h p" "live h g" "n \<noteq> p" "n \<noteq> g" "p \<noteq> g" using l d by auto
  have g: "g \<notin> set (frame_list c)" using d by simp
  show "live h (parent_of h g)" "c = [] \<longleftrightarrow> parent_of h g = g" using ctx_parent(1,2) [OF c l(3) g] by auto
  show "parent_of h g \<noteq> n" "parent_of h g \<noteq> p" using ctx_parent(2,3) [OF c l(3) g] d by auto
qed

text \<open>
  What is left to show after the pointer updates of a double rotation: the surroundings of
  the three nodes are as they were, and \<open>n\<close> has taken the place of \<open>g\<close>.
\<close>

lemma hinge_turned:
  assumes "hinge h n p g c ts" and live: "\<And>x. live h' x = live h x"
    and kids: "\<And>x. x \<notin> {n, p, g} \<Longrightarrow> left_of h' x = placed_left pf lf n g x \<and>
      right_of h' x = placed_right pf lf rf n g x"
    and old: "pf g = parent_of h g" "\<And>x. x \<notin> {n, p, g} \<Longrightarrow> lf x = left_of h x \<and> rf x = right_of h x"
    and par: "\<And>x. x \<notin> {n, p, g} \<Longrightarrow> x \<notin> (\<lambda>(q, p, t). p) ` set ts \<Longrightarrow> parent_of h' x = parent_of h x"
    and top: "parent_of h' n = (if c = [] then n else parent_of h g)"
  shows "is_ctx h' c n (parent_of h' n)"
    and "(q, a, t) \<in> set ts \<Longrightarrow> (a \<noteq> 0 \<Longrightarrow> parent_of h' a = q') \<Longrightarrow> is_tree h' q' a t"
proof -
  let ?S = "{n, p, g} \<union> set (frame_list c)"
  have c: "is_ctx h c g (parent_of h g)" and F: "forest h ts ?S" and d: "distinct (n # p # g # frame_list c)"
    using assms(1) by (auto simp: hinge_def)
  note hf = hinge_facts [OF assms(1)]
  have fr: "x \<notin> {n, p, g}" "x \<notin> (\<lambda>(q, p, t). p) ` set ts" "live h x" if "x \<in> set (frame_list c)" for x
  proof -
    show "x \<notin> (\<lambda>(q, p, t). p) ` set ts" by (rule forest_ctx [OF c _ F that]) blast
  qed (use that d is_ctx_live [OF c that] in auto)
  show "is_ctx h' c n (parent_of h' n)"
    unfolding top by (rule placed_refills [OF c hf(3), of lf rf pf])
      (use d fr in \<open>simp_all add: live kids old par\<close>)
  show "is_tree h' q' a t" if "(q, a, t) \<in> set ts" "a \<noteq> 0 \<Longrightarrow> parent_of h' a = q'"
  proof (rule forest_moved [OF F that])
    have G: "parent_of h g \<in> ?S" using ctx_parent(2,3) [OF c hf(3)] d by auto
    show "left_of h' x = left_of h x \<and> right_of h' x = right_of h x" if "x \<notin> ?S" for x
    proof -
      have "x \<noteq> pf g" using that G old(1) by auto
      then show ?thesis using that kids [of x] old(2) [of x] by (simp add: placed_other)
    qed
  qed (use live par in auto)
qed

lemma focus_hinge:
  assumes "focus h (f1 # f2 # c) l n r"
  defines "side \<equiv> \<lambda>f. case f of FL p b \<Rightarrow> (p, b) | FR b p \<Rightarrow> (p, b)"
    and "other \<equiv> \<lambda>f. case f of FL p b \<Rightarrow> right_of h p | FR b p \<Rightarrow> left_of h p"
  shows "hinge h n (fst (side f1)) (fst (side f2)) c
    [(n, left_of h n, l), (n, right_of h n, r), (fst (side f1), other f1, snd (side f1)),
     (fst (side f2), other f2, snd (side f2))]"
  using assms(1) unfolding focus_def hinge_def forest_def side_def other_def
  by (cases f1; cases f2) (auto dest: is_ctx_live)

text \<open>The addresses of the four subtrees: apart from the nodes and from each other.\<close>

lemma hinge_subtrees:
  assumes "hinge h n p g c [(n, a1, t1), (n, a2, t2), (p, a3, t3), (g, a4, t4)]"
  shows "a1 \<noteq> n" "a1 \<noteq> p" "a1 \<noteq> g" "a2 \<noteq> n" "a2 \<noteq> p" "a2 \<noteq> g" "a3 \<noteq> n" "a3 \<noteq> p" "a3 \<noteq> g"
    "a4 \<noteq> n" "a4 \<noteq> p" "a4 \<noteq> g" "ptrs_differ [a1, a2, a3, a4]"
    "a1 \<noteq> 0 \<longrightarrow> parent_of h a1 = n" "a2 \<noteq> 0 \<longrightarrow> parent_of h a2 = n"
    "a3 \<noteq> 0 \<longrightarrow> parent_of h a3 = p" "a4 \<noteq> 0 \<longrightarrow> parent_of h a4 = g"
    "a1 = 0 \<or> live h a1" "a2 = 0 \<or> live h a2" "a3 = 0 \<or> live h a3"
proof -
  have F: "forest h [(n, a1, t1), (n, a2, t2), (p, a3, t3), (g, a4, t4)] ({n, p, g} \<union> set (frame_list c))"
    using assms by (simp add: hinge_def)
  show "ptrs_differ [a1, a2, a3, a4]" using forest_ptrs_differ [OF F] by simp
  show "a1 \<noteq> n" "a1 \<noteq> p" "a1 \<noteq> g" "a2 \<noteq> n" "a2 \<noteq> p" "a2 \<noteq> g" "a3 \<noteq> n" "a3 \<noteq> p" "a3 \<noteq> g"
    "a4 \<noteq> n" "a4 \<noteq> p" "a4 \<noteq> g" "a1 = 0 \<or> live h a1" "a2 = 0 \<or> live h a2" "a3 = 0 \<or> live h a3"
    using forest_ptrs [OF F] by simp_all
  show "a1 \<noteq> 0 \<longrightarrow> parent_of h a1 = n" "a2 \<noteq> 0 \<longrightarrow> parent_of h a2 = n"
    "a3 \<noteq> 0 \<longrightarrow> parent_of h a3 = p" "a4 \<noteq> 0 \<longrightarrow> parent_of h a4 = g"
    using forest_parents [OF F] by simp_all
qed

lemma splay_case1_focus:
  assumes "focus h (FL p b # FL g d # c) l n r"
  shows "\<exists>h'. splay_case1 h n p g = Some h' \<and> focus h' c l n (Node r p (Node b g d))"
proof -
  let ?ln = "left_of h n" and ?rn = "right_of h n" and ?x = "right_of h p" and ?y = "right_of h g"
  let ?G = "parent_of h g"
  have H: "hinge h n p g c [(n, ?ln, l), (n, ?rn, r), (p, ?x, b), (g, ?y, d)]"
    using focus_hinge [OF assms] by simp
  note hf = hinge_facts [OF H] and hs = hinge_subtrees [OF H]
  let ?L = "(left_of h)(p := ?rn, g := ?x)" and ?R = "right_of h"
  let ?P = "reparent (reparent (parent_of h) ?rn p) ?x g"
  have Pg: "?P g = ?G" using hs(1-12) [symmetric] by (simp add: reparent_apply)
  obtain h' where run: "splay_case1 h n p g = Some h'" and live: "\<And>x. live h' x = live h x"
    and h': "parent_of h' = ?P(n := if ?G = g then n else ?G, p := n, g := p)"
      "left_of h' = placed_left ?P ?L n g" "right_of h' = (placed_right ?P ?L ?R n g)(n := p, p := g)"
    using hf hs Pg
    by (simp add: splay_case1_def links_access fix_left_eq fix_right_eq take_place_eq)
  note T = hinge_turned [OF H live, of ?P ?L ?R] and fin = h' reparent_apply
  have kids: "left_of h' n = ?ln" "right_of h' n = p" "left_of h' p = ?rn" "right_of h' p = g"
    "left_of h' g = ?x" "right_of h' g = ?y" "parent_of h' p = n" "parent_of h' g = p"
    using hf(4-10) by (simp_all add: h' placed_left_def placed_right_def Pg)
  have "is_ctx h' c n (parent_of h' n)" by (rule T(1)) (use hf(4-8) hs Pg in \<open>simp_all add: fin\<close>)
  moreover have "is_tree h' n ?ln l"
    by (rule T(2) [of n]) (use hf(4-8) hs Pg in \<open>simp_all add: fin\<close>)
  moreover have "is_tree h' p ?rn r"
    by (rule T(2) [of n]) (use hf(4-8) hs Pg in \<open>simp_all add: fin\<close>)
  moreover have "is_tree h' g ?x b"
    by (rule T(2) [of p]) (use hf(4-8) hs Pg in \<open>simp_all add: fin\<close>)
  moreover have "is_tree h' g ?y d"
    by (rule T(2) [of g]) (use hf(4-8) hs Pg in \<open>simp_all add: fin\<close>)
  ultimately have "focus h' c l n (Node r p (Node b g d))"
    using kids hf live assms by (auto simp: focus_def)
  then show ?thesis using run by blast
qed

lemma splay_case3_focus:
  assumes "focus h (FL p b # FR a g # c) l n r"
  shows "\<exists>h'. splay_case3 h n p g = Some h' \<and> focus h' c (Node a g l) n (Node r p b)"
proof -
  let ?ln = "left_of h n" and ?rn = "right_of h n" and ?x = "right_of h p" and ?y = "left_of h g"
  let ?G = "parent_of h g"
  have H: "hinge h n p g c [(n, ?ln, l), (n, ?rn, r), (p, ?x, b), (g, ?y, a)]"
    using focus_hinge [OF assms] by simp
  note hf = hinge_facts [OF H] and hs = hinge_subtrees [OF H]
  let ?L = "(left_of h)(p := ?rn)" and ?R = "(right_of h)(g := ?ln)"
  let ?P = "reparent (reparent (parent_of h) ?ln g) ?rn p"
  have Pg: "?P g = ?G" using hs(1-12) [symmetric] by (simp add: reparent_apply)
  obtain h' where run: "splay_case3 h n p g = Some h'" and live: "\<And>x. live h' x = live h x"
    and h': "parent_of h' = ?P(n := if ?G = g then n else ?G, g := n, p := n)"
      "left_of h' = (placed_left ?P ?L n g)(n := g)" "right_of h' = (placed_right ?P ?L ?R n g)(n := p)"
    using hf hs Pg
    by (simp add: splay_case3_def links_access fix_left_eq fix_right_eq take_place_eq)
  note T = hinge_turned [OF H live, of ?P ?L ?R] and fin = h' reparent_apply
  have kids: "left_of h' n = g" "right_of h' n = p" "left_of h' p = ?rn" "right_of h' p = ?x"
    "left_of h' g = ?y" "right_of h' g = ?ln" "parent_of h' p = n" "parent_of h' g = n"
    using hf(4-10) by (simp_all add: h' placed_left_def placed_right_def Pg)
  have "is_ctx h' c n (parent_of h' n)" by (rule T(1)) (use hf(4-8) hs Pg in \<open>simp_all add: fin\<close>)
  moreover have "is_tree h' g ?ln l"
    by (rule T(2) [of n]) (use hf(4-8) hs Pg in \<open>simp_all add: fin\<close>)
  moreover have "is_tree h' p ?rn r"
    by (rule T(2) [of n]) (use hf(4-8) hs Pg in \<open>simp_all add: fin\<close>)
  moreover have "is_tree h' p ?x b"
    by (rule T(2) [of p]) (use hf(4-8) hs Pg in \<open>simp_all add: fin\<close>)
  moreover have "is_tree h' g ?y a"
    by (rule T(2) [of g]) (use hf(4-8) hs Pg in \<open>simp_all add: fin\<close>)
  ultimately have "focus h' c (Node a g l) n (Node r p b)"
    using kids hf live assms by (auto simp: focus_def)
  then show ?thesis using run by blast
qed

lemma splay_case2_focus:
  assumes "focus h (FR a p # FR d g # c) l n r"
  shows "\<exists>h'. splay_case2 h n p g = Some h' \<and> focus h' c (Node (Node d g a) p l) n r"
proof -
  let ?ln = "left_of h n" and ?rn = "right_of h n" and ?x = "left_of h p" and ?y = "left_of h g"
  let ?G = "parent_of h g"
  have H: "hinge h n p g c [(n, ?ln, l), (n, ?rn, r), (p, ?x, a), (g, ?y, d)]"
    using focus_hinge [OF assms] by simp
  note hf = hinge_facts [OF H] and hs = hinge_subtrees [OF H]
  let ?L = "left_of h" and ?R = "(right_of h)(g := ?x, p := ?ln)"
  let ?P = "reparent (reparent (parent_of h) ?x g) ?ln p"
  have Pg: "?P g = ?G" using hs(1-12) [symmetric] by (simp add: reparent_apply)
  obtain h' where run: "splay_case2 h n p g = Some h'" and live: "\<And>x. live h' x = live h x"
    and h': "parent_of h' = ?P(n := if ?G = g then n else ?G, p := n, g := p)"
      "left_of h' = (placed_left ?P ?L n g)(n := p, p := g)" "right_of h' = placed_right ?P ?L ?R n g"
    using hf hs Pg
    by (simp add: splay_case2_def links_access fix_left_eq fix_right_eq take_place_eq)
  note T = hinge_turned [OF H live, of ?P ?L ?R] and fin = h' reparent_apply
  have kids: "left_of h' n = p" "right_of h' n = ?rn" "left_of h' p = g" "right_of h' p = ?ln"
    "left_of h' g = ?y" "right_of h' g = ?x" "parent_of h' p = n" "parent_of h' g = p"
    using hf(4-10) by (simp_all add: h' placed_left_def placed_right_def Pg)
  have "is_ctx h' c n (parent_of h' n)" by (rule T(1)) (use hf(4-8) hs Pg in \<open>simp_all add: fin\<close>)
  moreover have "is_tree h' p ?ln l"
    by (rule T(2) [of n]) (use hf(4-8) hs Pg in \<open>simp_all add: fin\<close>)
  moreover have "is_tree h' n ?rn r"
    by (rule T(2) [of n]) (use hf(4-8) hs Pg in \<open>simp_all add: fin\<close>)
  moreover have "is_tree h' g ?x a"
    by (rule T(2) [of p]) (use hf(4-8) hs Pg in \<open>simp_all add: fin\<close>)
  moreover have "is_tree h' g ?y d"
    by (rule T(2) [of g]) (use hf(4-8) hs Pg in \<open>simp_all add: fin\<close>)
  ultimately have "focus h' c (Node (Node d g a) p l) n r"
    using kids hf live assms by (auto simp: focus_def)
  then show ?thesis using run by blast
qed

lemma splay_case4_focus:
  assumes "focus h (FR a p # FL g d # c) l n r"
  shows "\<exists>h'. splay_case4 h n p g = Some h' \<and> focus h' c (Node a p l) n (Node r g d)"
proof -
  let ?ln = "left_of h n" and ?rn = "right_of h n" and ?x = "left_of h p" and ?y = "right_of h g"
  let ?G = "parent_of h g"
  have H: "hinge h n p g c [(n, ?ln, l), (n, ?rn, r), (p, ?x, a), (g, ?y, d)]"
    using focus_hinge [OF assms] by simp
  note hf = hinge_facts [OF H] and hs = hinge_subtrees [OF H]
  let ?L = "(left_of h)(g := ?rn)" and ?R = "(right_of h)(p := ?ln)"
  let ?P = "reparent (reparent (parent_of h) ?ln p) ?rn g"
  have Pg: "?P g = ?G" using hs(1-12) [symmetric] by (simp add: reparent_apply)
  obtain h' where run: "splay_case4 h n p g = Some h'" and live: "\<And>x. live h' x = live h x"
    and h': "parent_of h' = ?P(n := if ?G = g then n else ?G, g := n, p := n)"
      "left_of h' = (placed_left ?P ?L n g)(n := p)" "right_of h' = (placed_right ?P ?L ?R n g)(n := g)"
    using hf hs Pg
    by (simp add: splay_case4_def links_access fix_left_eq fix_right_eq take_place_eq)
  note T = hinge_turned [OF H live, of ?P ?L ?R] and fin = h' reparent_apply
  have kids: "left_of h' n = p" "right_of h' n = g" "left_of h' p = ?x" "right_of h' p = ?ln"
    "left_of h' g = ?rn" "right_of h' g = ?y" "parent_of h' p = n" "parent_of h' g = n"
    using hf(4-10) by (simp_all add: h' placed_left_def placed_right_def Pg)
  have "is_ctx h' c n (parent_of h' n)" by (rule T(1)) (use hf(4-8) hs Pg in \<open>simp_all add: fin\<close>)
  moreover have "is_tree h' p ?ln l"
    by (rule T(2) [of n]) (use hf(4-8) hs Pg in \<open>simp_all add: fin\<close>)
  moreover have "is_tree h' g ?rn r"
    by (rule T(2) [of n]) (use hf(4-8) hs Pg in \<open>simp_all add: fin\<close>)
  moreover have "is_tree h' p ?x a"
    by (rule T(2) [of p]) (use hf(4-8) hs Pg in \<open>simp_all add: fin\<close>)
  moreover have "is_tree h' g ?y d"
    by (rule T(2) [of g]) (use hf(4-8) hs Pg in \<open>simp_all add: fin\<close>)
  ultimately have "focus h' c (Node a p l) n (Node r g d)"
    using kids hf live assms by (auto simp: focus_def)
  then show ?thesis using run by blast
qed

section \<open>A single rotation below the root\<close>

lemma focus_zig:
  assumes "focus h [f] l n r"
  defines "p \<equiv> case f of FL p b \<Rightarrow> p | FR b p \<Rightarrow> p"
    and "b \<equiv> case f of FL p b \<Rightarrow> b | FR b p \<Rightarrow> b"
    and "x \<equiv> case f of FL p b \<Rightarrow> right_of h p | FR b p \<Rightarrow> left_of h p"
  shows "forest h [(n, left_of h n, l), (n, right_of h n, r), (p, x, b)] {n, p}"
    "live h n" "live h p" "n \<noteq> p" "parent_of h p = p"
  using assms(1) unfolding focus_def forest_def p_def b_def x_def
  by (cases f; auto)+

text \<open>What is left to show after the pointer updates of a single rotation.\<close>

lemma zig_turned:
  assumes F: "forest h ts {n, p}" and live: "\<And>x. live h' x = live h x"
    and kids: "\<And>x. x \<notin> {n, p} \<Longrightarrow> left_of h' x = left_of h x \<and> right_of h' x = right_of h x"
    and par: "\<And>x. x \<notin> {n, p} \<Longrightarrow> x \<notin> (\<lambda>(q, p, t). p) ` set ts \<Longrightarrow> parent_of h' x = parent_of h x"
    and "(q, a, t) \<in> set ts" "a \<noteq> 0 \<Longrightarrow> parent_of h' a = q'"
  shows "is_tree h' q' a t"
  by (rule forest_moved [OF F assms(5,6)]) (use live kids par in auto)

lemma splay_zig_left_focus:
  assumes "focus h [FL p b] l n r"
  shows "\<exists>h'. splay_zig_left h n p = Some h' \<and> focus h' [] l n (Node r p b)"
proof -
  let ?ln = "left_of h n" and ?rn = "right_of h n" and ?x = "right_of h p"
  note Z = focus_zig [OF assms, simplified]
  have hs: "?ln \<noteq> n" "?ln \<noteq> p" "?rn \<noteq> n" "?rn \<noteq> p" "?x \<noteq> n" "?x \<noteq> p"
    "ptrs_differ [?ln, ?rn, ?x]" "?ln \<noteq> 0 \<longrightarrow> parent_of h ?ln = n" "?rn \<noteq> 0 \<longrightarrow> parent_of h ?rn = n"
    "?x \<noteq> 0 \<longrightarrow> parent_of h ?x = p" "?rn = 0 \<or> live h ?rn"
    using forest_ptrs_differ [OF Z(1)] forest_ptrs [OF Z(1)] forest_parents [OF Z(1)] by simp_all
  obtain h' where run: "splay_zig_left h n p = Some h'" and live: "\<And>x. live h' x = live h x"
    and h': "parent_of h' = (reparent (parent_of h) ?rn p)(n := n, p := n)"
      "left_of h' = (left_of h)(p := ?rn)" "right_of h' = (right_of h)(n := p)"
    using Z hs by (simp add: splay_zig_left_def links_access fix_left_eq)
  note T = zig_turned [OF Z(1) live] and fin = h' reparent_apply
  have "is_tree h' n ?ln l" by (rule T [of n]) (use Z(4) hs in \<open>simp_all add: fin\<close>)
  moreover have "is_tree h' p ?rn r" by (rule T [of n]) (use Z(4) hs in \<open>simp_all add: fin\<close>)
  moreover have "is_tree h' p ?x b" by (rule T [of p]) (use Z(4) hs in \<open>simp_all add: fin\<close>)
  ultimately have "focus h' [] l n (Node r p b)"
    using Z(2-4) hs(1-6) live assms by (auto simp: focus_def h')
  then show ?thesis using run by blast
qed

lemma splay_zig_right_focus:
  assumes "focus h [FR a p] l n r"
  shows "\<exists>h'. splay_zig_right h n p = Some h' \<and> focus h' [] (Node a p l) n r"
proof -
  let ?ln = "left_of h n" and ?rn = "right_of h n" and ?x = "left_of h p"
  note Z = focus_zig [OF assms, simplified]
  have hs: "?ln \<noteq> n" "?ln \<noteq> p" "?rn \<noteq> n" "?rn \<noteq> p" "?x \<noteq> n" "?x \<noteq> p"
    "ptrs_differ [?ln, ?rn, ?x]" "?ln \<noteq> 0 \<longrightarrow> parent_of h ?ln = n" "?rn \<noteq> 0 \<longrightarrow> parent_of h ?rn = n"
    "?x \<noteq> 0 \<longrightarrow> parent_of h ?x = p" "?ln = 0 \<or> live h ?ln"
    using forest_ptrs_differ [OF Z(1)] forest_ptrs [OF Z(1)] forest_parents [OF Z(1)] by simp_all
  obtain h' where run: "splay_zig_right h n p = Some h'" and live: "\<And>x. live h' x = live h x"
    and h': "parent_of h' = (reparent (parent_of h) ?ln p)(n := n, p := n)"
      "left_of h' = (left_of h)(n := p)" "right_of h' = (right_of h)(p := ?ln)"
    using Z hs by (simp add: splay_zig_right_def links_access fix_right_eq)
  note T = zig_turned [OF Z(1) live] and fin = h' reparent_apply
  have "is_tree h' n ?rn r" by (rule T [of n]) (use Z(4) hs in \<open>simp_all add: fin\<close>)
  moreover have "is_tree h' p ?ln l" by (rule T [of n]) (use Z(4) hs in \<open>simp_all add: fin\<close>)
  moreover have "is_tree h' p ?x a" by (rule T [of p]) (use Z(4) hs in \<open>simp_all add: fin\<close>)
  ultimately have "focus h' [] (Node a p l) n r"
    using Z(2-4) hs(1-6) live assms by (auto simp: focus_def h')
  then show ?thesis using run by blast
qed

section \<open>The loop\<close>

lemma step_dispatch:
  assumes "live h n" "live h p" "live h g" "parent_of h n = p" "parent_of h p = g"
  shows "splay_step h n =
    (if left_of h p = n
     then (if left_of h g = p then splay_case1 h n p g
           else if right_of h g = p then splay_case3 h n p g else splay_zig_left h n p)
     else (if right_of h g = p then splay_case2 h n p g
           else if left_of h g = p then splay_case4 h n p g else splay_zig_right h n p))"
  using assms by (simp add: splay_step_def links_access)

lemma splay_step_focus:
  assumes "focus h c l n r" "c \<noteq> []"
  shows "\<exists>h' c' l' r'. splay_step h n = Some h' \<and> up_step c l n r = (c', l', r') \<and> focus h' c' l' n r'"
proof -
  have frames: "left_of h p \<noteq> n" "left_of h p \<noteq> 0 \<longrightarrow> live h (left_of h p)"
    if "focus h (FR a p # d) l n r" for a p d
    using that by (auto simp: focus_def dest!: is_tree_ptr)
  have rootl: "right_of h p \<noteq> p" if "focus h [FL p b] l n r" for p b
    using that by (auto simp: focus_def dest!: is_tree_ptr)
  have rootr: "left_of h p \<noteq> p" if "focus h [FR a p] l n r" for a p
    using that by (auto simp: focus_def dest!: is_tree_ptr)
  consider (zl) p b where "c = [FL p b]" | (zr) a p where "c = [FR a p]"
    | (c1) p b g d c' where "c = FL p b # FL g d # c'" | (c3) p b a g c' where "c = FL p b # FR a g # c'"
    | (c2) a p d g c' where "c = FR a p # FR d g # c'" | (c4) a p g d c' where "c = FR a p # FL g d # c'"
    using \<open>c \<noteq> []\<close> by (cases c; cases "tl c"; cases "hd c"; cases "hd (tl c)") auto
  then show ?thesis
  proof cases
    case zl
    then have "splay_step h n = splay_zig_left h n p"
      using assms(1) rootl by (subst step_dispatch [of h n p p]) (auto simp: focus_def)
    then show ?thesis using splay_zig_left_focus assms(1) zl by fastforce
  next
    case zr
    then have "splay_step h n = splay_zig_right h n p"
      using assms(1) rootr [of a p] frames(1) [of a p "[]"] by (subst step_dispatch [of h n p p]) (auto simp: focus_def)
    then show ?thesis using splay_zig_right_focus assms(1) zr by fastforce
  next
    case c1
    then have "splay_step h n = splay_case1 h n p g"
      using assms(1) by (subst step_dispatch [of h n p g]) (auto simp: focus_def)
    then show ?thesis using splay_case1_focus assms(1) c1 by fastforce
  next
    case c3
    have "left_of h g \<noteq> p" using assms(1) c3 by (auto simp: focus_def dest!: is_tree_ptr)
    then have "splay_step h n = splay_case3 h n p g"
      using assms(1) c3 by (subst step_dispatch [of h n p g]) (auto simp: focus_def)
    then show ?thesis using splay_case3_focus assms(1) c3 by fastforce
  next
    case c2
    then have "splay_step h n = splay_case2 h n p g"
      using assms(1) frames(1) [of a p "FR d g # c'"] by (subst step_dispatch [of h n p g]) (auto simp: focus_def)
    then show ?thesis using splay_case2_focus assms(1) c2 by fastforce
  next
    case c4
    have "right_of h g \<noteq> p" using assms(1) c4 by (auto simp: focus_def dest!: is_tree_ptr)
    then have "splay_step h n = splay_case4 h n p g"
      using assms(1) c4 frames(1) [of a p "FL g d # c'"] by (subst step_dispatch [of h n p g]) (auto simp: focus_def)
    then show ?thesis using splay_case4_focus assms(1) c4 by fastforce
  qed
qed

text \<open>Each pass shortens the context, so the loop ends, with \<open>n\<close> at the root.\<close>

lemma splay_loop_focus:
  assumes "focus h c l n r"
  shows "\<exists>h' l' r'. splay_loop h n = Some h' \<and> focus h' [] l' n r' \<and>
    inorder (Node l' n r') = inorder (plug c (Node l n r))"
  using assms
proof (induction "length c" arbitrary: c h l r rule: less_induct)
  case less
  have live: "live h n" using less.prems by (simp add: focus_def)
  have root: "parent_of h n = n \<longleftrightarrow> c = []"
    using less.prems ctx_parent [of h c n "parent_of h n"] by (auto simp: focus_def)
  show ?case
  proof (cases "c = []")
    case True
    then show ?thesis using root live less.prems by (subst splay_loop.simps) (auto simp: links_access)
  next
    case False
    then obtain h1 c1 l1 r1 where step: "splay_step h n = Some h1" "up_step c l n r = (c1, l1, r1)"
      "focus h1 c1 l1 n r1" using splay_step_focus less.prems by blast
    obtain h' l' r' where "splay_loop h1 n = Some h'" "focus h' [] l' n r'"
      "inorder (Node l' n r') = inorder (plug c1 (Node l1 n r1))"
      using less.hyps [OF up_step_shorter [OF False step(2)] step(3)] by blast
    then show ?thesis using root False live step up_step_inorder [OF step(2)]
      by (subst splay_loop.simps) (auto simp: links_access)
  qed
qed

text \<open>A tree in the heap, with its address, or the empty tree at address \<open>0\<close>.\<close>

definition tree_at :: "'z links_scheme \<Rightarrow> nat \<Rightarrow> nat tree \<Rightarrow> bool" where
  "tree_at h p t \<longleftrightarrow> is_tree h p p t \<and> distinct (inorder t)"

lemma tree_at_focus: "focus h [] l n r \<longleftrightarrow> tree_at h n (Node l n r)"
  by (auto simp: focus_plug tree_at_def)

lemma tree_at_node:
  assumes "tree_at h root t" "n \<in> set_tree t"
  obtains c l r where "t = plug c (Node l n r)" "focus h c l n r" "root = ctx_root c n"
  using assms node_context [OF assms(2)] by (auto simp: tree_at_def focus_plug is_tree_plug)

end
