(* ===== verification/Splay_Spec.thy ===== *)
theory Splay_Spec
  imports Splay_Proofs
begin

text \<open>
  The properties of \<^verbatim>\<open>libs/ntdll/splaytree.c\<close>: splaying returns and keeps the in-order
  sequence, and the walks find the neighbours in that sequence.
\<close>

section \<open>Walking down\<close>

lemma rightmost_last:
  "is_tree h q p t \<Longrightarrow> t \<noteq> Leaf \<Longrightarrow> rightmost h p = Some (last (inorder t))"
proof (induction t arbitrary: q p)
  case (Node l a r)
  then show ?case by (cases r) (auto simp: links_access rightmost.simps [of h a])
qed simp

lemma leftmost_hd:
  "is_tree h q p t \<Longrightarrow> t \<noteq> Leaf \<Longrightarrow> leftmost h p = Some (hd (inorder t))"
proof (induction t arbitrary: q p)
  case (Node l a r)
  then show ?case by (cases l) (auto simp: links_access leftmost.simps [of h a] hd_append)
qed simp

section \<open>Walking up\<close>

lemma focus_up:
  "focus h (FL a b # c) l n r \<Longrightarrow> focus h c (Node l n r) a b"
  "focus h (FR b a # c) l n r \<Longrightarrow> focus h c b a (Node l n r)"
  by (auto simp: focus_def)

lemma focus_sides:
  assumes "focus h c l n r"
  shows "live h n" "live h (parent_of h n)"
    "RtlIsLeftChild h n = Some (\<exists>a b d. c = FL a b # d)"
    "RtlIsRightChild h n = Some (\<exists>a b d. c = FR b a # d)"
proof -
  show live: "live h n" "live h (parent_of h n)"
    using assms ctx_parent [of h c n "parent_of h n"] by (auto simp: focus_def)
  have "left_of h (parent_of h n) = n \<longleftrightarrow> (\<exists>a b d. c = FL a b # d)"
    "right_of h (parent_of h n) = n \<longleftrightarrow> (\<exists>a b d. c = FR b a # d)"
    using assms by (cases c; cases "hd c"; auto simp: focus_def dest!: is_tree_ptr)+
  then show "RtlIsLeftChild h n = Some (\<exists>a b d. c = FL a b # d)"
    "RtlIsRightChild h n = Some (\<exists>a b d. c = FR b a # d)"
    using live by (simp_all add: links_access)
qed

lemma climb_left_before:
  assumes "focus h c l n r"
  shows "\<exists>m. climb_left h n = Some m \<and>
    Option.bind (RtlIsRightChild h m) (\<lambda>b. if b then RtlParent h m else Some 0) =
      Some (if before c = [] then 0 else last (before c))"
  using assms
proof (induction c arbitrary: l n r)
  case Nil
  then show ?case using focus_sides [OF Nil] by (simp add: climb_left.simps [of h n])
next
  case (Cons f c)
  note s = focus_sides [OF Cons.prems]
  show ?case
  proof (cases f)
    case (FL a b)
    have "focus h c (Node l n r) a b" using Cons.prems focus_up(1) FL by blast
    moreover have "climb_left h n = climb_left h a"
      using Cons.prems s FL by (simp add: climb_left.simps [of h n] focus_def links_access)
    ultimately show ?thesis using Cons.IH [of "Node l n r" a b] FL by (simp only: before.simps)
  next
    case (FR b a)
    then show ?thesis using Cons.prems s by (simp add: climb_left.simps [of h n] focus_def links_access)
  qed
qed

lemma climb_right_after:
  assumes "focus h c l n r"
  shows "\<exists>m. climb_right h n = Some m \<and>
    Option.bind (RtlIsLeftChild h m) (\<lambda>b. if b then RtlParent h m else Some 0) =
      Some (if after c = [] then 0 else hd (after c))"
  using assms
proof (induction c arbitrary: l n r)
  case Nil
  then show ?case using focus_sides [OF Nil] by (simp add: climb_right.simps [of h n])
next
  case (Cons f c)
  note s = focus_sides [OF Cons.prems]
  show ?case
  proof (cases f)
    case (FR b a)
    have "focus h c b a (Node l n r)" using Cons.prems focus_up(2) FR by blast
    moreover have "climb_right h n = climb_right h a"
      using Cons.prems s FR by (simp add: climb_right.simps [of h n] focus_def links_access)
    ultimately show ?thesis using Cons.IH [of b a "Node l n r"] FR by (simp only: after.simps)
  next
    case (FL a b)
    then show ?thesis using Cons.prems s by (simp add: climb_right.simps [of h n] focus_def links_access)
  qed
qed

lemma predecessor_focus:
  assumes "focus h c l n r"
  shows "RtlRealPredecessor h n =
    Some (if before c @ inorder l = [] then 0 else last (before c @ inorder l))"
proof (cases l)
  case Leaf
  then have "left_of h n = 0" using assms by (simp add: focus_def)
  then show ?thesis using climb_left_before [OF assms] focus_sides [OF assms] Leaf
    by (auto simp: RtlRealPredecessor_def links_access)
next
  case (Node l1 a l2)
  then have "is_tree h n (left_of h n) l" "left_of h n \<noteq> 0" "l \<noteq> Leaf" using assms by (auto simp: focus_def live_def)
  then show ?thesis using rightmost_last [of h n "left_of h n" l] focus_sides [OF assms]
    by (simp add: RtlRealPredecessor_def links_access)
qed

lemma successor_focus:
  assumes "focus h c l n r"
  shows "RtlRealSuccessor h n =
    Some (if inorder r @ after c = [] then 0 else hd (inorder r @ after c))"
proof (cases r)
  case Leaf
  then have "right_of h n = 0" using assms by (simp add: focus_def)
  then show ?thesis using climb_right_after [OF assms] focus_sides [OF assms] Leaf
    by (auto simp: RtlRealSuccessor_def links_access)
next
  case (Node r1 a r2)
  then have "is_tree h n (right_of h n) r" "right_of h n \<noteq> 0" "r \<noteq> Leaf" using assms by (auto simp: focus_def live_def)
  then show ?thesis using leftmost_hd [of h n "right_of h n" r] focus_sides [OF assms]
    by (simp add: RtlRealSuccessor_def links_access)
qed

text \<open>A distinct list splits at a member in one way.\<close>

lemma distinct_split_unique:
  assumes "distinct (xs @ a # ys)" "xs @ a # ys = us @ a # vs"
  shows "xs = us \<and> ys = vs"
proof -
  have "a \<notin> set xs" "a \<notin> set ys" using assms(1) by simp_all
  from append_Cons_eq_iff [OF this] show ?thesis using assms(2) by blast
qed

lemma focus_split:
  assumes "focus h c l n r" "inorder (plug c (Node l n r)) = xs @ n # ys"
  shows "xs = before c @ inorder l" "ys = inorder r @ after c"
proof -
  have "distinct (xs @ n # ys)"
    using assms(1) unfolding focus_plug assms(2) by (rule conjunct2)
  moreover have "xs @ n # ys = (before c @ inorder l) @ n # (inorder r @ after c)"
    using assms(2) by (simp add: inorder_plug)
  ultimately have "xs = before c @ inorder l \<and> ys = inorder r @ after c"
    by (rule distinct_split_unique)
  then show "xs = before c @ inorder l" "ys = inorder r @ after c" by blast+
qed

section \<open>The properties\<close>

definition three_nodes :: links where
  "three_nodes = \<lparr>alloc = (\<lambda>p. p < 4), parent_of = (\<lambda>p. if p = 1 then 2 else 3),
     left_of = (\<lambda>p. if p = 1 then 0 else p - 1), right_of = (\<lambda>p. 0)\<rparr>"

lemma three_nodes_tree:
  "tree_at three_nodes 3 (Node (Node (Node Leaf 1 Leaf) 2 Leaf) 3 Leaf)"
  by (simp add: tree_at_def three_nodes_def live_def)

text \<open>
  C1. \<^verbatim>\<open>RtlSplay\<close> on a node of a tree always returns: the node is the new root, the heap
  holds a tree with the same nodes in the same order, and no bad pointer is followed.
\<close>
theorem RtlSplay_to_root:
  assumes "tree_at h root t" "n \<in> set_tree t"
  shows "\<exists>h' t'. RtlSplay h n = Some (n, h') \<and> tree_at h' n t' \<and> inorder t' = inorder t"
proof -
  obtain c l r where t: "t = plug c (Node l n r)" "focus h c l n r"
    by (rule tree_at_node [OF assms])
  then show ?thesis using splay_loop_focus [OF t(2)] tree_at_focus by (fastforce simp: RtlSplay_def)
qed

theorem RtlSplay_to_root_witness:
  "\<exists>h' t'. RtlSplay three_nodes 1 = Some (1, h') \<and> tree_at h' 1 t' \<and> inorder t' = [1, 2, 3]"
  using RtlSplay_to_root [OF three_nodes_tree, of 1] by simp

text \<open>
  C15. \<^verbatim>\<open>RtlRealPredecessor\<close> and \<^verbatim>\<open>RtlRealSuccessor\<close> return the neighbours of a node in the
  order of the tree, \<^verbatim>\<open>NULL\<close> at the ends; the walks up and down end.
\<close>
theorem RtlReal_neighbours:
  assumes "tree_at h root t" "inorder t = xs @ n # ys"
  shows "RtlRealPredecessor h n = Some (if xs = [] then 0 else last xs) \<and>
    RtlRealSuccessor h n = Some (if ys = [] then 0 else hd ys)"
proof -
  have "n \<in> set (inorder t)" using assms(2) by simp
  then have "n \<in> set_tree t" by simp
  then obtain c l r where t: "t = plug c (Node l n r)" "focus h c l n r"
    by (rule tree_at_node [OF assms(1)])
  have "xs = before c @ inorder l" "ys = inorder r @ after c"
    using focus_split [OF t(2)] assms(2) unfolding t(1) by blast+
  then show ?thesis using predecessor_focus [OF t(2)] successor_focus [OF t(2)] by (simp only: simp_thms)
qed

theorem RtlReal_neighbours_witness:
  "RtlRealPredecessor three_nodes 2 = Some 1 \<and> RtlRealSuccessor three_nodes 3 = Some 0"
  using RtlReal_neighbours [OF three_nodes_tree, of "[1]" 2 "[3]"]
    RtlReal_neighbours [OF three_nodes_tree, of "[1, 2]" 3 "[]"] by simp

end
