(* ===== verification/Generic_Table.thy ===== *)
theory Generic_Table
  imports Links
begin

text \<open>
  The generic tables of \<^verbatim>\<open>libs/ntdll/splay.c\<close>: items in a top-down splay tree and, in
  insertion order, on a circular doubly linked list.

  An item is one allocation (\<^verbatim>\<open>struct item_header\<close> and the user's data behind it) and is
  named by its address; the pointers into it that the code computes, to its list entry and
  to its data, are named by the item.  The callbacks of the table are arguments: the compare
  routine, the allocator (a null address is a failure) and the free routine.
\<close>

section \<open>Data\<close>

datatype RTL_GENERIC_COMPARE_RESULTS = GenericLessThan | GenericGreaterThan | GenericEqual
  | GenericOther \<comment> \<open>any other value a routine may return\<close>

text \<open>A \<^verbatim>\<open>LIST_ENTRY *\<close>: the \<^verbatim>\<open>InsertOrderList\<close> of the table or the entry of an item.\<close>

datatype entry = ListHead | Entry nat

record 'd table_heap = links +
  Flink :: "entry \<Rightarrow> entry"
  Blink :: "entry \<Rightarrow> entry"
  item_data :: "nat \<Rightarrow> 'd"

record RTL_GENERIC_TABLE =
  TableRoot :: nat
  OrderedPointer :: entry
  WhichOrderedElement :: u32
  NumberGenericTableElements :: u32

fun live_entry :: "('d, 'z) table_heap_scheme \<Rightarrow> entry \<Rightarrow> bool" where
  "live_entry h ListHead \<longleftrightarrow> True"
| "live_entry h (Entry p) \<longleftrightarrow> live h p"

definition get_Flink :: "('d, 'z) table_heap_scheme \<Rightarrow> entry \<Rightarrow> entry option" where
  "get_Flink h e = (if live_entry h e then Some (Flink h e) else None)"

definition get_Blink :: "('d, 'z) table_heap_scheme \<Rightarrow> entry \<Rightarrow> entry option" where
  "get_Blink h e = (if live_entry h e then Some (Blink h e) else None)"

definition set_Flink :: "('d, 'z) table_heap_scheme \<Rightarrow> entry \<Rightarrow> entry \<Rightarrow> ('d, 'z) table_heap_scheme option" where
  "set_Flink h e v = (if live_entry h e then Some (h\<lparr>Flink := (Flink h)(e := v)\<rparr>) else None)"

definition set_Blink :: "('d, 'z) table_heap_scheme \<Rightarrow> entry \<Rightarrow> entry \<Rightarrow> ('d, 'z) table_heap_scheme option" where
  "set_Blink h e v = (if live_entry h e then Some (h\<lparr>Blink := (Blink h)(e := v)\<rparr>) else None)"

definition treeitem_to_itemdata :: "('d, 'z) table_heap_scheme \<Rightarrow> nat \<Rightarrow> 'd option" where
  "treeitem_to_itemdata h p = (if live h p then Some (item_data h p) else None)"

definition InitializeListHead :: "('d, 'z) table_heap_scheme \<Rightarrow> ('d, 'z) table_heap_scheme" where
  "InitializeListHead h = h\<lparr>Flink := (Flink h)(ListHead := ListHead), Blink := (Blink h)(ListHead := ListHead)\<rparr>"

definition RtlInitializeGenericTable ::
  "('d, 'z) table_heap_scheme \<Rightarrow> RTL_GENERIC_TABLE \<times> ('d, 'z) table_heap_scheme" where
  "RtlInitializeGenericTable h =
     (\<lparr>TableRoot = 0, OrderedPointer = ListHead, WhichOrderedElement = 0,
       NumberGenericTableElements = 0\<rparr>, InitializeListHead h)"

section \<open>Splaying from the top\<close>

text \<open>The local \<^verbatim>\<open>next\<close>: a node at an address of its own while the routine runs.\<close>

definition next_node :: nat where "next_node = 1"

definition adopt :: "'z links_scheme \<Rightarrow> nat \<Rightarrow> nat \<Rightarrow> 'z links_scheme option" where
  "adopt h c p = (if c \<noteq> 0 then set_Parent h c p else Some h)"

definition rotate_right :: "'z links_scheme \<Rightarrow> nat \<Rightarrow> nat \<Rightarrow> 'z links_scheme option" where
  "rotate_right h root temp = do {
     r \<leftarrow> RtlRightChild h temp;
     h \<leftarrow> set_LeftChild h root r;
     r \<leftarrow> RtlRightChild h temp;
     h \<leftarrow> adopt h r root;
     h \<leftarrow> set_RightChild h temp root;
     set_Parent h root temp
   }"

definition rotate_left :: "'z links_scheme \<Rightarrow> nat \<Rightarrow> nat \<Rightarrow> 'z links_scheme option" where
  "rotate_left h root temp = do {
     l \<leftarrow> RtlLeftChild h temp;
     h \<leftarrow> set_RightChild h root l;
     l \<leftarrow> RtlLeftChild h temp;
     h \<leftarrow> adopt h l root;
     h \<leftarrow> set_LeftChild h temp root;
     set_Parent h root temp
   }"

text \<open>The loop: heap, \<open>root\<close>, \<open>left\<close> and \<open>right\<close> (here \<open>lft\<close>, \<open>rgt\<close>), with \<open>ret\<close> in the result.\<close>

partial_function (option) splay_down ::
  "('d \<Rightarrow> 'd \<Rightarrow> RTL_GENERIC_COMPARE_RESULTS) \<Rightarrow> 'd \<Rightarrow> ('d, 'z) table_heap_scheme \<Rightarrow> nat \<Rightarrow> nat \<Rightarrow> nat \<Rightarrow>
     (('d, 'z) table_heap_scheme \<times> nat \<times> nat \<times> nat \<times> bool) option" where
  "splay_down cmp item h root lft rgt = do {
     d \<leftarrow> treeitem_to_itemdata h root;
     let comp_res = cmp item d;
     if comp_res = GenericLessThan then do {
       l \<leftarrow> RtlLeftChild h root;
       if l = 0 then Some (h, root, lft, rgt, False)
       else do {
         dl \<leftarrow> treeitem_to_itemdata h l;
         let zig = (cmp item dl = GenericLessThan);
         h \<leftarrow> (if zig then rotate_right h root l else Some h);
         let root = (if zig then l else root);
         l \<leftarrow> RtlLeftChild h root;
         if zig \<and> l = 0 then Some (h, root, lft, rgt, False)
         else do {
           h \<leftarrow> set_LeftChild h rgt root;
           h \<leftarrow> set_Parent h root rgt;
           l \<leftarrow> RtlLeftChild h root;
           splay_down cmp item h l lft root
         }
       }
     }
     else if comp_res = GenericGreaterThan then do {
       r \<leftarrow> RtlRightChild h root;
       if r = 0 then Some (h, root, lft, rgt, False)
       else do {
         dr \<leftarrow> treeitem_to_itemdata h r;
         let zig = (cmp item dr = GenericGreaterThan);
         h \<leftarrow> (if zig then rotate_left h root r else Some h);
         let root = (if zig then r else root);
         r \<leftarrow> RtlRightChild h root;
         if zig \<and> r = 0 then Some (h, root, lft, rgt, False)
         else do {
           h \<leftarrow> set_RightChild h lft root;
           h \<leftarrow> set_Parent h root lft;
           r \<leftarrow> RtlRightChild h root;
           splay_down cmp item h r root rgt
         }
       }
     }
     else if comp_res = GenericEqual then Some (h, root, lft, rgt, True)
     else None
   }"

definition assemble :: "'z links_scheme \<Rightarrow> nat \<Rightarrow> nat \<Rightarrow> nat \<Rightarrow> 'z links_scheme option" where
  "assemble h root lft rgt = do {
     l \<leftarrow> RtlLeftChild h root;
     h \<leftarrow> set_RightChild h lft l;
     l \<leftarrow> RtlLeftChild h root;
     h \<leftarrow> adopt h l lft;
     r \<leftarrow> RtlRightChild h root;
     h \<leftarrow> set_LeftChild h rgt r;
     r \<leftarrow> RtlRightChild h root;
     h \<leftarrow> adopt h r rgt;
     n \<leftarrow> RtlRightChild h next_node;
     h \<leftarrow> set_LeftChild h root n;
     h \<leftarrow> adopt h n root;
     n \<leftarrow> RtlLeftChild h next_node;
     h \<leftarrow> set_RightChild h root n;
     h \<leftarrow> adopt h n root;
     set_Parent h root 0
   }"

definition splay ::
  "('d \<Rightarrow> 'd \<Rightarrow> RTL_GENERIC_COMPARE_RESULTS) \<Rightarrow> RTL_GENERIC_TABLE \<Rightarrow> ('d, 'z) table_heap_scheme \<Rightarrow> 'd \<Rightarrow>
     (bool \<times> RTL_GENERIC_TABLE \<times> ('d, 'z) table_heap_scheme) option" where
  "splay cmp table h item =
     (if TableRoot table = 0 then Some (False, table, h)
      else do {
        let h = h\<lparr>alloc := (alloc h)(next_node := True), parent_of := (parent_of h)(next_node := 0),
                  left_of := (left_of h)(next_node := 0), right_of := (right_of h)(next_node := 0)\<rparr>;
        (h, root, lft, rgt, ret) \<leftarrow> splay_down cmp item h (TableRoot table) next_node next_node;
        h \<leftarrow> assemble h root lft rgt;
        Some (ret, table\<lparr>TableRoot := root\<rparr>, h\<lparr>alloc := (alloc h)(next_node := False)\<rparr>)
      })"

section \<open>The table operations\<close>

definition append_entry ::
  "RTL_GENERIC_TABLE \<Rightarrow> ('d, 'z) table_heap_scheme \<Rightarrow> entry \<Rightarrow> ('d, 'z) table_heap_scheme option" where
  "append_entry Table h item_entry =
     (if Blink h ListHead = ListHead then
        (if NumberGenericTableElements Table \<noteq> 0 then None
         else do {
           let h = h\<lparr>Flink := (Flink h)(ListHead := item_entry), Blink := (Blink h)(ListHead := item_entry)\<rparr>;
           h \<leftarrow> set_Blink h item_entry ListHead;
           set_Flink h item_entry ListHead
         })
      else
        (if NumberGenericTableElements Table = 0 then None
         else do {
           h \<leftarrow> set_Blink h item_entry (Blink h ListHead);
           b \<leftarrow> get_Blink h item_entry;
           h \<leftarrow> set_Flink h b item_entry;
           h \<leftarrow> set_Blink h ListHead item_entry;
           set_Flink h item_entry ListHead
         }))"

text \<open>The new item becomes the root above the old one.\<close>

definition push_root ::
  "('d \<Rightarrow> 'd \<Rightarrow> RTL_GENERIC_COMPARE_RESULTS) \<Rightarrow> ('d, 'z) table_heap_scheme \<Rightarrow> nat \<Rightarrow> nat \<Rightarrow>
     ('d, 'z) table_heap_scheme option" where
  "push_root cmp h tree_item root_item =
     (if root_item \<noteq> 0 then do {
        d \<leftarrow> treeitem_to_itemdata h tree_item;
        e \<leftarrow> treeitem_to_itemdata h root_item;
        let comp_res = cmp d e;
        if comp_res = GenericLessThan then do {
          l \<leftarrow> RtlLeftChild h root_item;
          h \<leftarrow> set_LeftChild h tree_item l;
          h \<leftarrow> set_RightChild h tree_item root_item;
          h \<leftarrow> set_LeftChild h root_item 0;
          h \<leftarrow> set_Parent h tree_item 0;
          set_Parent h root_item tree_item
        }
        else if comp_res = GenericGreaterThan then do {
          r \<leftarrow> RtlRightChild h root_item;
          h \<leftarrow> set_RightChild h tree_item r;
          h \<leftarrow> set_LeftChild h tree_item root_item;
          h \<leftarrow> set_RightChild h root_item 0;
          h \<leftarrow> set_Parent h tree_item 0;
          set_Parent h root_item tree_item
        }
        else None
      }
      else do {
        h \<leftarrow> set_RightChild h tree_item 0;
        set_LeftChild h tree_item 0
      })"

text \<open>
  The result: the item (\<open>0\<close> for null), what is stored in \<^verbatim>\<open>*NewElement\<close> (if anything), the
  table and the heap.  \<^verbatim>\<open>sizeof(struct item_header)\<close> is 40.
\<close>

definition RtlInsertElementGenericTable ::
  "('d \<Rightarrow> 'd \<Rightarrow> RTL_GENERIC_COMPARE_RESULTS) \<Rightarrow>
     (('d, 'z) table_heap_scheme \<Rightarrow> u32 \<Rightarrow> nat \<times> ('d, 'z) table_heap_scheme) \<Rightarrow>
     RTL_GENERIC_TABLE \<Rightarrow> ('d, 'z) table_heap_scheme \<Rightarrow> 'd \<Rightarrow> u32 \<Rightarrow>
     (nat \<times> bool option \<times> RTL_GENERIC_TABLE \<times> ('d, 'z) table_heap_scheme) option" where
  "RtlInsertElementGenericTable cmp AllocateRoutine Table h Buffer BufferSize = do {
     (found, Table, h) \<leftarrow> splay cmp Table h Buffer;
     if found then Some (TableRoot Table, Some False, Table, h)
     else do {
       let (new_item, h) = AllocateRoutine h (BufferSize + 40);
       if new_item = 0 then Some (0, None, Table, h)
       else do {
         h \<leftarrow> (if live h new_item then Some (h\<lparr>item_data := (item_data h)(new_item := Buffer)\<rparr>) else None);
         h \<leftarrow> push_root cmp h new_item (TableRoot Table);
         h \<leftarrow> append_entry Table h (Entry new_item);
         Some (new_item, Some True,
           Table\<lparr>TableRoot := new_item,
             NumberGenericTableElements := NumberGenericTableElements Table + 1,
             WhichOrderedElement := 0, OrderedPointer := ListHead\<rparr>, h)
       }
     }
   }"

definition RtlLookupElementGenericTable ::
  "('d \<Rightarrow> 'd \<Rightarrow> RTL_GENERIC_COMPARE_RESULTS) \<Rightarrow> RTL_GENERIC_TABLE \<Rightarrow> ('d, 'z) table_heap_scheme \<Rightarrow> 'd \<Rightarrow>
     (nat \<times> RTL_GENERIC_TABLE \<times> ('d, 'z) table_heap_scheme) option" where
  "RtlLookupElementGenericTable cmp Table h Buffer = do {
     (found, Table, h) \<leftarrow> splay cmp Table h Buffer;
     Some (if found then TableRoot Table else 0, Table, h)
   }"

text \<open>Taking the root out of the tree, joining its two subtrees.\<close>

definition drop_root ::
  "('d \<Rightarrow> 'd \<Rightarrow> RTL_GENERIC_COMPARE_RESULTS) \<Rightarrow> RTL_GENERIC_TABLE \<Rightarrow> ('d, 'z) table_heap_scheme \<Rightarrow> nat \<Rightarrow>
     (RTL_GENERIC_TABLE \<times> ('d, 'z) table_heap_scheme) option" where
  "drop_root cmp Table h del_item = do {
     l \<leftarrow> RtlLeftChild h del_item;
     if l = 0 then do {
       r \<leftarrow> RtlRightChild h del_item;
       h \<leftarrow> set_Parent h r 0;
       Some (Table\<lparr>TableRoot := r\<rparr>, h)
     }
     else do {
       d \<leftarrow> treeitem_to_itemdata h del_item;
       (dup, Table, h) \<leftarrow> splay cmp (Table\<lparr>TableRoot := l\<rparr>) h d;
       if dup then None
       else do {
         r \<leftarrow> RtlRightChild h del_item;
         h \<leftarrow> set_RightChild h (TableRoot Table) r;
         r \<leftarrow> RtlRightChild h del_item;
         h \<leftarrow> set_Parent h r (TableRoot Table);
         Some (Table, h)
       }
     }
   }"

definition unlink_entry :: "('d, 'z) table_heap_scheme \<Rightarrow> entry \<Rightarrow> ('d, 'z) table_heap_scheme option" where
  "unlink_entry h del_entry = do {
     b \<leftarrow> get_Blink h del_entry;
     f \<leftarrow> get_Flink h del_entry;
     h \<leftarrow> set_Flink h b f;
     f \<leftarrow> get_Flink h del_entry;
     b \<leftarrow> get_Blink h del_entry;
     set_Blink h f b
   }"

definition RtlDeleteElementGenericTable ::
  "('d \<Rightarrow> 'd \<Rightarrow> RTL_GENERIC_COMPARE_RESULTS) \<Rightarrow>
     (('d, 'z) table_heap_scheme \<Rightarrow> nat \<Rightarrow> ('d, 'z) table_heap_scheme) \<Rightarrow>
     RTL_GENERIC_TABLE \<Rightarrow> ('d, 'z) table_heap_scheme \<Rightarrow> 'd \<Rightarrow>
     (bool \<times> RTL_GENERIC_TABLE \<times> ('d, 'z) table_heap_scheme) option" where
  "RtlDeleteElementGenericTable cmp FreeRoutine Table h Buffer = do {
     (found, Table, h) \<leftarrow> splay cmp Table h Buffer;
     if \<not> found then Some (False, Table, h)
     else do {
       let del_item = TableRoot Table;
       (Table, h) \<leftarrow> drop_root cmp Table h del_item;
       let Table = Table\<lparr>NumberGenericTableElements := NumberGenericTableElements Table - 1\<rparr>;
       h \<leftarrow> (if NumberGenericTableElements Table = 0 then Some (InitializeListHead h)
             else unlink_entry h (Entry del_item));
       let h = FreeRoutine h del_item;
       Some (True, Table\<lparr>WhichOrderedElement := 0, OrderedPointer := ListHead\<rparr>, h)
     }
   }"

text \<open>The restart key: \<open>None\<close> is null.  The result is the next entry, which is the new key.\<close>

definition RtlEnumerateGenericTableWithoutSplaying ::
  "('d, 'z) table_heap_scheme \<Rightarrow> entry option \<Rightarrow> entry option option" where
  "RtlEnumerateGenericTableWithoutSplaying h RestartKey = do {
     entry \<leftarrow> get_Flink h (case RestartKey of None \<Rightarrow> ListHead | Some e \<Rightarrow> e);
     Some (if entry = ListHead then None else Some entry)
   }"

end
