(* ===== verification/Generic_Table_Ring.thy ===== *)
theory Generic_Table_Ring
  imports Generic_Table
begin

text \<open>
  The insertion-order list of the generic tables of \<^verbatim>\<open>splay.c\<close>: \<open>append_entry\<close> adds at its end
  and \<open>unlink_entry\<close> takes an item out of it.
\<close>

section \<open>Chains of list entries\<close>

fun chain :: "('d, 'z) table_heap_scheme \<Rightarrow> entry \<Rightarrow> nat list \<Rightarrow> entry \<Rightarrow> bool" where
  "chain h e [] z \<longleftrightarrow> Flink h e = z \<and> Blink h z = e"
| "chain h e (x # xs) z \<longleftrightarrow> Flink h e = Entry x \<and> Blink h (Entry x) = e \<and> chain h (Entry x) xs z"

lemma chain_append: "chain h e (xs @ y # ys) z \<longleftrightarrow> chain h e xs (Entry y) \<and> chain h (Entry y) ys z"
  by (induction xs arbitrary: e) auto

lemma chain_last: "chain h e xs z \<Longrightarrow> Blink h z = (if xs = [] then e else Entry (last xs))"
  by (induction xs arbitrary: e) auto

lemma chain_first: "chain h e xs z \<Longrightarrow> Flink h e = (if xs = [] then z else Entry (hd xs))"
  by (cases xs) auto

lemma chain_cong:
  assumes "chain h e xs z" "\<And>w. w \<in> insert e (Entry ` set xs) \<Longrightarrow> Flink h' w = Flink h w"
    "\<And>w. w \<in> insert z (Entry ` set xs) \<Longrightarrow> Blink h' w = Blink h w"
  shows "chain h' e xs z"
  using assms by (induction xs arbitrary: e) auto

lemma chain_links: "Flink h' = Flink h \<Longrightarrow> Blink h' = Blink h \<Longrightarrow> chain h' e xs z = chain h e xs z"
  by (induction xs arbitrary: e) auto

text \<open>The end of a chain, moved to another entry.\<close>

lemma chain_redirect:
  assumes "chain h e xs z" "distinct xs" "e \<notin> Entry ` set xs" "z' \<notin> Entry ` set xs"
    and "Flink h' (Blink h z) = z'" "Blink h' z' = Blink h z"
    and "\<And>w. w \<in> insert e (Entry ` set xs) \<Longrightarrow> w \<noteq> Blink h z \<Longrightarrow> Flink h' w = Flink h w"
    and "\<And>x. x \<in> set xs \<Longrightarrow> Blink h' (Entry x) = Blink h (Entry x)"
  shows "chain h' e xs z'"
  using assms
proof (induction xs arbitrary: e)
  case (Cons x xs)
  have "Blink h z = Entry (last (x # xs))" using chain_last [OF Cons.prems(1)] by simp
  then have "Blink h z \<noteq> e" using Cons.prems(3) last_in_set [of "x # xs"] by auto
  moreover have "chain h' (Entry x) xs z'"
    by (rule Cons.IH) (use Cons.prems in auto)
  ultimately show ?case using Cons.prems by simp
qed simp

section \<open>The operations\<close>

text \<open>What the code reads off the ring agrees with the counter of the table.\<close>

definition ring :: "('d, 'z) table_heap_scheme \<Rightarrow> nat list \<Rightarrow> bool" where
  "ring h xs \<longleftrightarrow> chain h ListHead xs ListHead \<and> distinct xs \<and> (\<forall>x \<in> set xs. live h x)"

lemma ring_empty: "ring h [] \<Longrightarrow> Blink h ListHead = ListHead"
  by (simp add: ring_def)

lemma ring_cong: "ring h xs \<Longrightarrow> Flink h' = Flink h \<Longrightarrow> Blink h' = Blink h \<Longrightarrow> (\<And>x. x \<in> set xs \<Longrightarrow> live h' x) \<Longrightarrow> ring h' xs"
  using chain_links [of h' h] by (auto simp: ring_def)

lemma table_live_update [simp]:
  "live (h\<lparr>Flink := fl\<rparr>) p = live h p" "live (h\<lparr>Blink := bl\<rparr>) p = live h p" "live (h\<lparr>item_data := d\<rparr>) p = live h p"
  by (simp_all add: live_def)

lemma live_entry_update [simp]:
  "live_entry (h\<lparr>Flink := fl\<rparr>) e = live_entry h e" "live_entry (h\<lparr>Blink := bl\<rparr>) e = live_entry h e"
  by (cases e; simp)+

lemma live_entry_last: "\<forall>x \<in> set xs. live h x \<Longrightarrow> xs \<noteq> [] \<Longrightarrow> live h (last xs)"
  by simp

definition with_ring :: "('d, 'z) table_heap_scheme \<Rightarrow> (entry \<Rightarrow> entry) \<Rightarrow> (entry \<Rightarrow> entry) \<Rightarrow> ('d, 'z) table_heap_scheme" where
  "with_ring h fl bl = h\<lparr>Flink := fl, Blink := bl\<rparr>"

lemma with_ring_simps [simp]:
  "left_of (with_ring h fl bl) = left_of h" "right_of (with_ring h fl bl) = right_of h"
  "alloc (with_ring h fl bl) = alloc h" "live (with_ring h fl bl) = live h"
  "item_data (with_ring h fl bl) = item_data h" "Flink (with_ring h fl bl) = fl" "Blink (with_ring h fl bl) = bl"
  by (simp_all add: with_ring_def live_def fun_eq_iff)

lemma append_entry_exact:
  assumes r: "ring h xs" and n: "unat (NumberGenericTableElements Table) = length xs"
    and y: "live h y" "y \<notin> set xs"
  shows "\<exists>fl bl. append_entry Table h (Entry y) = Some (with_ring h fl bl) \<and> ring (with_ring h fl bl) (xs @ [y])"
proof -
  let ?b = "Blink h ListHead"
  let ?fl = "(Flink h)(?b := Entry y, Entry y := ListHead)" and ?bl = "(Blink h)(Entry y := ?b, ListHead := Entry y)"
  have b: "?b = (if xs = [] then ListHead else Entry (last xs))" using chain_last [of h ListHead xs ListHead] r by (simp add: ring_def)
  have live: "live_entry h ?b" using b r by (simp add: ring_def)
  have zero: "NumberGenericTableElements Table = 0 \<longleftrightarrow> xs = []" using n by (simp add: unat_eq_0 [symmetric])
  have ne: "?b \<noteq> Entry y" using b y(2) last_in_set [of xs] by auto
  have "append_entry Table h (Entry y) = Some (with_ring h ?fl ?bl)"
  proof (cases "xs = []")
    case True
    then show ?thesis using b zero y
      by (simp add: append_entry_def set_Flink_def set_Blink_def with_ring_def fun_upd_twist)
  next
    case False
    then show ?thesis using b zero y live ne
      by (simp add: append_entry_def set_Flink_def set_Blink_def get_Blink_def with_ring_def fun_upd_twist)
  qed
  moreover have "chain (with_ring h ?fl ?bl) ListHead xs (Entry y)"
    by (rule chain_redirect [of h ListHead xs ListHead])
      (use r y ne in \<open>auto simp: ring_def fun_upd_twist fun_eq_iff\<close>)
  ultimately show ?thesis using r y
    by (intro exI [of _ ?fl] exI [of _ ?bl]) (auto simp: ring_def chain_append)
qed

text \<open>The entry taken out is live to the end; the ring closes over it.\<close>

lemma unlink_entry_exact:
  assumes r: "ring h (xs @ y # ys)"
  shows "\<exists>fl bl. unlink_entry h (Entry y) = Some (with_ring h fl bl) \<and> ring (with_ring h fl bl) (xs @ ys)"
proof -
  let ?b = "Blink h (Entry y)" and ?f = "Flink h (Entry y)"
  let ?fl = "(Flink h)(?b := ?f)" and ?bl = "(Blink h)(?f := ?b)"
  have xs: "chain h ListHead xs (Entry y)" and ys: "chain h (Entry y) ys ListHead"
    and d: "distinct (xs @ y # ys)" and live: "\<forall>x \<in> set (xs @ y # ys). live h x"
    using r by (simp_all add: ring_def chain_append)
  have b: "?b = (if xs = [] then ListHead else Entry (last xs))" using chain_last [OF xs] .
  have f: "?f = (if ys = [] then ListHead else Entry (hd ys))" using chain_first [OF ys] .
  have bs: "?b \<in> insert ListHead (Entry ` set xs)" and fs: "?f \<in> insert ListHead (Entry ` set ys)"
    using b f by auto
  have ne: "?b \<noteq> Entry y" "?f \<noteq> Entry y" "?f \<notin> Entry ` set xs" "?b \<notin> Entry ` set ys" using bs fs d by auto
  have "live_entry h ?b" "live_entry h ?f" using b f live by (auto intro: live_entry_last)
  then have "unlink_entry h (Entry y) = Some (with_ring h ?fl ?bl)"
    using ne live by (simp add: unlink_entry_def get_Flink_def get_Blink_def set_Flink_def set_Blink_def with_ring_def)
  moreover have c: "chain (with_ring h ?fl ?bl) ListHead xs ?f"
    by (rule chain_redirect [OF xs]) (use ne d in \<open>auto simp: image_iff\<close>)
  have "chain (with_ring h ?fl ?bl) ListHead (xs @ ys) ListHead"
  proof (cases ys)
    case Nil
    then show ?thesis using c f by simp
  next
    case (Cons z zs)
    have "chain h (Entry z) zs ListHead" using ys Cons by simp
    then have "chain (with_ring h ?fl ?bl) (Entry z) zs ListHead"
      by (rule chain_cong) (use ne d f Cons in auto)
    then show ?thesis using c f Cons by (simp add: chain_append)
  qed
  ultimately show ?thesis using d live
    by (intro exI [of _ ?fl] exI [of _ ?bl]) (auto simp: ring_def)
qed

end
