(* ===== verification/Top_Down.thy ===== *)
theory Top_Down
  imports Generic_Table
begin

text \<open>
  Splaying from the top, on the heap.  The code never reads a parent pointer of a generic table,
  so the trees here are those of the child pointers alone.  While \<open>splay\<close> runs, the nodes are
  in three places: the tree below \<open>root\<close>, and two spines that hang on \<open>next\<close>, of what is smaller
  (along right children, each node with its left subtree) and of what is larger than the item.

  Everything is stated for two child functions \<open>f\<close> and \<open>g\<close>, so that the left and the right branch
  of the code are one argument, for \<open>left_of\<close> and \<open>right_of\<close> and the other way round.
\<close>

section \<open>Trees and spines\<close>

fun tr :: "(nat \<Rightarrow> nat) \<Rightarrow> (nat \<Rightarrow> nat) \<Rightarrow> (nat \<Rightarrow> bool) \<Rightarrow> nat \<Rightarrow> nat tree \<Rightarrow> bool" where
  "tr f g L p Leaf \<longleftrightarrow> p = 0"
| "tr f g L p (Node l a r) \<longleftrightarrow> p = a \<and> L a \<and> tr f g L (f a) l \<and> tr f g L (g a) r"

lemma tr_mirror: "tr g f L p (mirror t) \<longleftrightarrow> tr f g L p t"
  by (induction t arbitrary: p) auto

lemma tr_same:
  assumes "tr f g L p t" "\<And>a. a \<in> set_tree t \<Longrightarrow> f' a = f a \<and> g' a = g a"
  shows "tr f' g' L p t"
  using assms by (induction t arbitrary: p) auto

lemma tr_relive: "tr f g L p t \<Longrightarrow> (\<And>a. a \<in> set_tree t \<Longrightarrow> L' a) \<Longrightarrow> tr f g L' p t"
  by (induction t arbitrary: p) auto

lemma tr_live: "tr f g L p t \<Longrightarrow> a \<in> set_tree t \<Longrightarrow> L a"
  by (induction t arbitrary: p) auto

lemma tr_ptr: "tr f g L p t \<Longrightarrow> p = 0 \<and> t = Leaf \<or> L p \<and> p \<in> set_tree t"
  by (cases t) auto

lemma tr_0: "tr f g L 0 t \<Longrightarrow> \<not> L 0 \<Longrightarrow> t = Leaf"
  by (cases t) auto

text \<open>A spine along \<open>f\<close>: from \<open>q\<close> to \<open>e\<close>, each node with its subtree along \<open>g\<close>; the \<open>f\<close> of \<open>e\<close> is open.\<close>

fun sp :: "(nat \<Rightarrow> nat) \<Rightarrow> (nat \<Rightarrow> nat) \<Rightarrow> (nat \<Rightarrow> bool) \<Rightarrow> nat \<Rightarrow> (nat \<times> nat tree) list \<Rightarrow> nat \<Rightarrow> bool" where
  "sp f g L q [] e \<longleftrightarrow> e = q"
| "sp f g L q ((a, T) # xs) e \<longleftrightarrow> f q = a \<and> L a \<and> tr f g L (g a) T \<and> sp f g L a xs e"

text \<open>The nodes of a spine, the last one first: in order, when \<open>f\<close> is the left child.\<close>

fun nodes :: "(nat \<times> nat tree) list \<Rightarrow> nat list" where
  "nodes [] = []"
| "nodes ((a, T) # xs) = nodes xs @ a # inorder T"

lemma nodes_snoc [simp]: "nodes (xs @ [(a, T)]) = a # inorder T @ nodes xs"
  by (induction xs) auto

lemma sp_snoc: "sp f g L q (xs @ [(a, T)]) e' \<longleftrightarrow>
    (\<exists>e. sp f g L q xs e \<and> f e = a \<and> L a \<and> tr f g L (g a) T \<and> e' = a)"
  by (induction xs arbitrary: q) auto

lemma sp_end: "sp f g L q xs e \<Longrightarrow> e = q \<and> xs = [] \<or> e \<in> set (nodes xs)"
proof (induction xs arbitrary: q)
  case (Cons y xs)
  from Cons.prems Cons.IH [of "fst y"] show ?case by (cases y) auto
qed simp

lemma sp_live: "sp f g L q xs e \<Longrightarrow> x \<in> set (nodes xs) \<Longrightarrow> L x"
  by (induction xs arbitrary: q) (auto dest: tr_live)

text \<open>A spine stays when only its open end changes.\<close>

lemma sp_same:
  assumes "sp f g L q xs e" "q \<notin> set (nodes xs)" "distinct (nodes xs)"
    and "\<And>x. x \<in> set (nodes xs) \<Longrightarrow> g' x = g x"
    and "\<And>x. x = q \<or> x \<in> set (nodes xs) \<Longrightarrow> x \<noteq> e \<Longrightarrow> f' x = f x"
  shows "sp f' g' L q xs e"
  using assms
proof (induction xs arbitrary: q)
  case (Cons y xs)
  obtain a T where y: "y = (a, T)" by (cases y)
  have e: "e = a \<or> e \<in> set (nodes xs)" using Cons.prems(1) y sp_end [of f g L a xs e] by auto
  then have "q \<noteq> e" using Cons.prems(2) y by auto
  have "tr f' g' L (g a) T"
    by (rule tr_same [of f g L]) (use Cons.prems y e in auto)
  moreover have "sp f' g' L a xs e"
    by (rule Cons.IH) (use Cons.prems y in auto)
  moreover have "f' q = f q" using Cons.prems(5) \<open>q \<noteq> e\<close> by simp
  ultimately show ?case using Cons.prems y by simp
qed simp

text \<open>Closing a spine with a tree at its end.\<close>

fun close :: "(nat \<times> nat tree) list \<Rightarrow> nat tree \<Rightarrow> nat tree" where
  "close [] t = t"
| "close ((a, T) # xs) t = Node (close xs t) a T"

lemma inorder_close [simp]: "inorder (close xs t) = inorder t @ nodes xs"
  by (induction xs) auto

lemma set_tree_close [simp]: "set_tree (close xs t) = set_tree t \<union> set (nodes xs)"
  by (simp flip: set_inorder)

lemma set_tree_mirror [simp]: "set_tree (mirror t) = set_tree t"
  by (simp flip: set_inorder add: inorder_mirror)

lemma tr_close: "sp f g L q xs e \<Longrightarrow> f e = p \<Longrightarrow> tr f g L p t \<Longrightarrow> tr f g L (f q) (close xs t)"
  by (induction xs arbitrary: q) auto

section \<open>The three places\<close>

definition places :: "(nat \<Rightarrow> nat) \<Rightarrow> (nat \<Rightarrow> nat) \<Rightarrow> (nat \<Rightarrow> bool) \<Rightarrow> nat \<Rightarrow> nat \<Rightarrow> nat \<Rightarrow>
    nat tree \<Rightarrow> (nat \<times> nat tree) list \<Rightarrow> (nat \<times> nat tree) list \<Rightarrow> bool" where
  "places f g L root lft rgt t ls rs \<longleftrightarrow>
     tr f g L root t \<and> sp g f L next_node ls lft \<and> sp f g L next_node rs rgt \<and>
     distinct (next_node # inorder t @ nodes ls @ nodes rs) \<and> L next_node \<and> \<not> L 0"

lemma places_mirror: "places f g L root lft rgt t ls rs \<longleftrightarrow> places g f L root rgt lft (mirror t) rs ls"
  by (auto simp: places_def tr_mirror inorder_mirror)

text \<open>What is smaller, what is in the tree, and what is larger: the elements in order.\<close>

definition elements :: "nat tree \<Rightarrow> (nat \<times> nat tree) list \<Rightarrow> (nat \<times> nat tree) list \<Rightarrow> nat list" where
  "elements t ls rs = rev (nodes ls) @ inorder t @ nodes rs"

lemma elements_mirror: "elements (mirror t) rs ls = rev (elements t ls rs)"
  by (simp add: elements_def inorder_mirror)

lemma places_ends:
  assumes "places f g L a lft rgt t ls rs"
  shows "L lft" "L rgt" "lft \<notin> set_tree t" "rgt \<notin> set_tree t"
    "lft = next_node \<or> lft \<in> set (nodes ls)" "rgt = next_node \<or> rgt \<in> set (nodes rs)"
proof -
  have l: "lft = next_node \<or> lft \<in> set (nodes ls)" and r: "rgt = next_node \<or> rgt \<in> set (nodes rs)"
    using assms sp_end [of g f L next_node ls lft] sp_end [of f g L next_node rs rgt] by (auto simp: places_def)
  then show "lft = next_node \<or> lft \<in> set (nodes ls)" "rgt = next_node \<or> rgt \<in> set (nodes rs)" by auto
  show "L lft" "L rgt" using l r assms by (auto simp: places_def dest: sp_live)
  show "lft \<notin> set_tree t" "rgt \<notin> set_tree t" using l r assms by (auto simp: places_def)
qed

text \<open>Hanging the root and one of its subtrees on the spine.\<close>

lemma places_link:
  assumes "places f g L a lft rgt (Node l a r) ls rs"
  shows "places (f(rgt := a)) g L (f a) lft a l ls (rs @ [(a, r)])"
    and "elements l ls (rs @ [(a, r)]) = elements (Node l a r) ls rs"
    and "(f(rgt := a)) a = f a"
proof -
  note p = assms [unfolded places_def]
  note ends = places_ends [OF assms]
  show a: "(f(rgt := a)) a = f a" using ends(4) by auto
  have "tr (f(rgt := a)) g L (f a) l" by (rule tr_same [of f g L]) (use p ends in auto)
  moreover have "tr (f(rgt := a)) g L (g a) r" by (rule tr_same [of f g L]) (use p ends in auto)
  moreover have "sp g (f(rgt := a)) L next_node ls lft"
    by (rule sp_same [of g f L]) (use p ends in auto)
  moreover have "sp (f(rgt := a)) g L next_node rs rgt"
    by (rule sp_same [of f g L]) (use p ends in auto)
  ultimately show "places (f(rgt := a)) g L (f a) lft a l ls (rs @ [(a, r)])"
    using p by (auto simp: places_def sp_snoc)
  show "elements l ls (rs @ [(a, r)]) = elements (Node l a r) ls rs" by (simp add: elements_def)
qed

text \<open>A single rotation at the root.\<close>

lemma places_zig:
  assumes "places f g L a lft rgt (Node (Node k b m) a r) ls rs"
  shows "places (f(a := g b)) (g(b := a)) L b lft rgt (Node k b (Node m a r)) ls rs"
    and "elements (Node k b (Node m a r)) ls rs = elements (Node (Node k b m) a r) ls rs"
proof -
  note p = assms [unfolded places_def]
  note ends = places_ends [OF assms]
  let ?f = "f(a := g b)" and ?g = "g(b := a)"
  have "a \<noteq> b" using p by auto
  moreover have "tr ?f ?g L (f b) k" by (rule tr_same [of f g L]) (use p in auto)
  moreover have "tr ?f ?g L (g b) m" by (rule tr_same [of f g L]) (use p in auto)
  moreover have "tr ?f ?g L (g a) r" by (rule tr_same [of f g L]) (use p in auto)
  moreover have "sp ?g ?f L next_node ls lft"
    by (rule sp_same [of g f L]) (use p ends in auto)
  moreover have "sp ?f ?g L next_node rs rgt"
    by (rule sp_same [of f g L]) (use p ends in auto)
  ultimately show "places ?f ?g L b lft rgt (Node k b (Node m a r)) ls rs"
    using p by (auto simp: places_def)
  show "elements (Node k b (Node m a r)) ls rs = elements (Node (Node k b m) a r) ls rs"
    by (simp add: elements_def)
qed

text \<open>Putting the three places together below the root.\<close>

lemma places_assemble:
  assumes "places f g L a lft rgt (Node l a r) ls rs"
    and "g' = (g(lft := f a))(a := (f(rgt := g a)) next_node)"
    and "f' = (f(rgt := g a))(a := (g(lft := f a)) next_node)"
  shows "tr f' g' L a (Node (mirror (close ls (mirror l))) a (close rs r))"
    and "inorder (Node (mirror (close ls (mirror l))) a (close rs r)) = elements (Node l a r) ls rs"
proof -
  note p = assms(1) [unfolded places_def]
  note ends = places_ends [OF assms(1)]
  have a: "a \<noteq> lft" "a \<noteq> rgt" "a \<noteq> next_node" using p ends by auto
  let ?f = "f(rgt := g a)" and ?g = "g(lft := f a)"
  have "tr ?f ?g L (f a) l" by (rule tr_same [of f g L]) (use p ends in auto)
  moreover have "tr ?f ?g L (g a) r" by (rule tr_same [of f g L]) (use p ends in auto)
  moreover have "sp ?g ?f L next_node ls lft"
    by (rule sp_same [of g f L]) (use p ends in auto)
  moreover have "sp ?f ?g L next_node rs rgt"
    by (rule sp_same [of f g L]) (use p ends in auto)
  ultimately have cl: "tr ?g ?f L (?g next_node) (close ls (mirror l))" "tr ?f ?g L (?f next_node) (close rs r)"
    using tr_close [of ?g ?f L next_node ls lft "f a" "mirror l"] tr_close [of ?f ?g L next_node rs rgt "g a" r]
    by (simp_all add: tr_mirror)
  have "tr f' g' L (?g next_node) (mirror (close ls (mirror l)))"
    by (rule tr_same [of ?f ?g L])
      (use cl(1) p a assms(2,3) in \<open>auto simp: tr_mirror [of ?f ?g] inorder_mirror\<close>)
  moreover have "tr f' g' L (?f next_node) (close rs r)"
    by (rule tr_same [of ?f ?g L]) (use cl(2) p a assms(2,3) in auto)
  ultimately show "tr f' g' L a (Node (mirror (close ls (mirror l))) a (close rs r))"
    using p assms(2,3) by simp
  show "inorder (Node (mirror (close ls (mirror l))) a (close rs r)) = elements (Node l a r) ls rs"
    by (simp add: elements_def inorder_mirror)
qed

end
