(* ===== verification/Top_Down_Loop.thy ===== *)
theory Top_Down_Loop
  imports Top_Down
begin

text \<open>
  The loop of \<open>splay\<close> in \<^verbatim>\<open>splay.c\<close>: each turn keeps the three places and their elements in order,
  hangs on the spines only what is smaller or larger than the item, and ends.
\<close>

section \<open>The code on a heap of links\<close>

definition with_links ::
  "('d, 'z) table_heap_scheme \<Rightarrow> (nat \<Rightarrow> nat) \<Rightarrow> (nat \<Rightarrow> nat) \<Rightarrow> (nat \<Rightarrow> nat) \<Rightarrow> ('d, 'z) table_heap_scheme" where
  "with_links h lf rf pf = h\<lparr>left_of := lf, right_of := rf, parent_of := pf\<rparr>"

lemma with_links_simps [simp]:
  "left_of (with_links h lf rf pf) = lf" "right_of (with_links h lf rf pf) = rf" "parent_of (with_links h lf rf pf) = pf"
  "live (with_links h lf rf pf) = live h" "item_data (with_links h lf rf pf) = item_data h"
  "alloc (with_links h lf rf pf) = alloc h"
  "Flink (with_links h lf rf pf) = Flink h" "Blink (with_links h lf rf pf) = Blink h"
  "with_links (with_links h lf rf pf) lf' rf' pf' = with_links h lf' rf' pf'"
  by (simp_all add: with_links_def live_def fun_eq_iff)

lemma with_links_id: "h = with_links h (left_of h) (right_of h) (parent_of h)"
  by (simp add: with_links_def)

lemma links_with:
  assumes "live h p"
  shows "RtlLeftChild h p = Some (left_of h p)" "RtlRightChild h p = Some (right_of h p)"
    "set_LeftChild h p v = Some (with_links h ((left_of h)(p := v)) (right_of h) (parent_of h))"
    "set_RightChild h p v = Some (with_links h (left_of h) ((right_of h)(p := v)) (parent_of h))"
    "set_Parent h p v = Some (with_links h (left_of h) (right_of h) ((parent_of h)(p := v)))"
    "treeitem_to_itemdata h p = Some (item_data h p)"
  using assms by (simp_all add: links_live with_links_def treeitem_to_itemdata_def)

lemma adopt_with: "c = 0 \<or> live h c \<Longrightarrow> \<exists>pf. adopt h c p = Some (with_links h (left_of h) (right_of h) pf)"
  by (cases "c = 0") (auto simp: adopt_def links_with with_links_id [symmetric] intro: exI [of _ "parent_of h"])

lemma rotate_right_with:
  assumes "live h a" "live h b" "right_of h b = 0 \<or> live h (right_of h b)"
  shows "\<exists>pf. rotate_right h a b = Some (with_links h ((left_of h)(a := right_of h b)) ((right_of h)(b := a)) pf)"
proof -
  let ?h = "with_links h ((left_of h)(a := right_of h b)) (right_of h) (parent_of h)"
  obtain pf where "adopt ?h (right_of h b) a = Some (with_links ?h (left_of ?h) (right_of ?h) pf)"
    using adopt_with [of "right_of h b" ?h a] assms(3) by auto
  then show ?thesis using assms by (intro exI [of _ "pf(a := b)"]) (simp add: rotate_right_def links_with)
qed

lemma rotate_left_with:
  assumes "live h a" "live h b" "left_of h b = 0 \<or> live h (left_of h b)"
  shows "\<exists>pf. rotate_left h a b = Some (with_links h ((left_of h)(b := a)) ((right_of h)(a := left_of h b)) pf)"
proof -
  let ?h = "with_links h (left_of h) ((right_of h)(a := left_of h b)) (parent_of h)"
  obtain pf where "adopt ?h (left_of h b) a = Some (with_links ?h (left_of ?h) (right_of ?h) pf)"
    using adopt_with [of "left_of h b" ?h a] assms(3) by auto
  then show ?thesis using assms by (intro exI [of _ "pf(a := b)"]) (simp add: rotate_left_def links_with)
qed

lemma places_child:
  assumes "places f g L a lft rgt (Node l a r) ls rs"
  shows "L a" "f a = 0 \<longleftrightarrow> l = Leaf" "g a = 0 \<longleftrightarrow> r = Leaf" "f a = 0 \<or> L (f a)" "g a = 0 \<or> L (g a)"
  using assms tr_ptr [of f g L "f a" l] tr_ptr [of f g L "g a" r] by (auto simp: places_def)

lemma places_grandchild:
  assumes "places f g L a lft rgt (Node (Node k b m) a r) ls rs"
  shows "f a = b" "L b" "b \<noteq> a" "f b = 0 \<longleftrightarrow> k = Leaf" "g b = 0 \<or> L (g b)"
  using assms tr_ptr [of f g L "f b" k] tr_ptr [of f g L "g b" m] by (auto simp: places_def)

text \<open>The links outside a set of nodes are as they were.\<close>

definition outside :: "nat set \<Rightarrow> ('d, 'z) table_heap_scheme \<Rightarrow> (nat \<Rightarrow> nat) \<Rightarrow> (nat \<Rightarrow> nat) \<Rightarrow> bool" where
  "outside S h lf rf \<longleftrightarrow> (\<forall>x. x \<notin> S \<longrightarrow> lf x = left_of h x \<and> rf x = right_of h x)"

lemma outside_refl [simp]: "outside S h (left_of h) (right_of h)"
  by (simp add: outside_def)

lemma outside_trans: "outside S h lf rf \<Longrightarrow> outside S (with_links h lf rf pf) lf' rf' \<Longrightarrow> outside S h lf' rf'"
  by (simp add: outside_def)

lemma outside_mono: "outside S h lf rf \<Longrightarrow> S \<subseteq> S' \<Longrightarrow> outside S' h lf rf"
  by (auto simp: outside_def)

abbreviation span :: "nat tree \<Rightarrow> (nat \<times> nat tree) list \<Rightarrow> (nat \<times> nat tree) list \<Rightarrow> nat set" where
  "span t ls rs \<equiv> insert next_node (set (elements t ls rs))"

section \<open>One turn\<close>

text \<open>A turn to the left: the loop ends below a larger root, or goes on with a smaller tree.\<close>

lemma splay_down_less:
  assumes p: "places (left_of h) (right_of h) (live h) a lft rgt (Node l a r) ls rs"
    and less: "cmp item (item_data h a) = GenericLessThan"
  shows "(\<exists>lf rf pf b r'. splay_down cmp item h a lft rgt = Some (with_links h lf rf pf, b, lft, rgt, False) \<and>
        places lf rf (live h) b lft rgt (Node Leaf b r') ls rs \<and>
        elements (Node Leaf b r') ls rs = elements (Node l a r) ls rs \<and> cmp item (item_data h b) = GenericLessThan \<and>
        outside (span (Node l a r) ls rs) h lf rf) \<or>
     (\<exists>lf rf pf c b t r'. splay_down cmp item h a lft rgt = splay_down cmp item (with_links h lf rf pf) c lft b \<and>
        places lf rf (live h) c lft b t ls (rs @ [(b, r')]) \<and>
        elements t ls (rs @ [(b, r')]) = elements (Node l a r) ls rs \<and> t \<noteq> Leaf \<and> size t < size (Node l a r) \<and>
        cmp item (item_data h b) = GenericLessThan \<and> outside (span (Node l a r) ls rs) h lf rf)"
proof (cases l)
  case Leaf
  note ch = places_child [OF p]
  have "splay_down cmp item h a lft rgt = Some (with_links h (left_of h) (right_of h) (parent_of h), a, lft, rgt, False)"
    using ch Leaf less by (subst splay_down.simps) (simp add: links_with with_links_id [symmetric])
  then show ?thesis using p less Leaf outside_refl by blast
next
  case (Node k b m)
  note p' = p [unfolded Node]
  note ch = places_child [OF p'] and gc = places_grandchild [OF p'] and ends = places_ends [OF p']
  show ?thesis
  proof (cases "cmp item (item_data h b) = GenericLessThan")
    case False
    let ?lf = "(left_of h)(rgt := a)" and ?pf = "(parent_of h)(a := rgt)"
    let ?h = "with_links h ?lf (right_of h) ?pf"
    have "splay_down cmp item h a lft rgt = splay_down cmp item ?h (left_of h a) lft a"
      using ch gc ends less False
      by (subst splay_down.simps) (simp add: links_with places_link(3) [OF p', simplified])
    moreover have "outside (span (tree.Node l a r) ls rs) h ?lf (right_of h)"
      using ends by (auto simp: outside_def elements_def)
    ultimately show ?thesis using places_link(1,2) [OF p'] less Node
      by (intro disjI2 exI [of _ ?lf] exI [of _ "right_of h"] exI [of _ ?pf] exI [of _ "left_of h a"]
          exI [of _ a] exI [of _ "tree.Node k b m"] exI [of _ r]) simp
  next
    case True
    let ?lf = "(left_of h)(a := right_of h b)" and ?rf = "(right_of h)(b := a)"
    obtain pf where rot: "rotate_right h a b = Some (with_links h ?lf ?rf pf)"
      using rotate_right_with [of h a b] ch gc by blast
    note z = places_zig [OF p']
    show ?thesis
    proof (cases k)
      case Leaf
      have "splay_down cmp item h a lft rgt = Some (with_links h ?lf ?rf pf, b, lft, rgt, False)"
        using ch gc ends less True rot Leaf
        by (subst splay_down.simps) (simp add: links_with)
      moreover have "outside (span (tree.Node l a r) ls rs) h ?lf ?rf"
        using gc Node by (auto simp: outside_def elements_def)
      ultimately show ?thesis using z True Leaf Node
        by (intro disjI1 exI [of _ ?lf] exI [of _ ?rf] exI [of _ pf] exI [of _ b] exI [of _ "tree.Node m a r"]) simp
    next
      case (Node k1 c k2)
      note link = places_link [OF z(1)]
      let ?h = "with_links h (?lf(rgt := b)) ?rf (pf(b := rgt))"
      have "splay_down cmp item h a lft rgt = splay_down cmp item ?h (?lf b) lft b"
        using ch gc ends less True rot Node link(3)
        by (subst splay_down.simps) (simp add: links_with)
      moreover have "size k < size (tree.Node l a r)" using \<open>l = tree.Node k b m\<close> by simp
      moreover have "outside (span (tree.Node l a r) ls rs) h (?lf(rgt := b)) ?rf"
        using ends \<open>l = tree.Node k b m\<close> by (auto simp: outside_def elements_def)
      ultimately show ?thesis using link z(2) True Node \<open>l = tree.Node k b m\<close>
        by (intro disjI2 exI [of _ "?lf(rgt := b)"] exI [of _ ?rf] exI [of _ "pf(b := rgt)"] exI [of _ "?lf b"]
            exI [of _ b] exI [of _ k] exI [of _ "tree.Node m a r"]) simp
    qed
  qed
qed

text \<open>A turn to the right, mirrored: the names of the two sides change places.\<close>

lemma splay_down_greater:
  assumes p: "places (right_of h) (left_of h) (live h) a lft rgt (Node l a r) ls rs"
    and greater: "cmp item (item_data h a) = GenericGreaterThan"
  shows "(\<exists>lf rf pf b r'. splay_down cmp item h a rgt lft = Some (with_links h rf lf pf, b, rgt, lft, False) \<and>
        places lf rf (live h) b lft rgt (Node Leaf b r') ls rs \<and>
        elements (Node Leaf b r') ls rs = elements (Node l a r) ls rs \<and> cmp item (item_data h b) = GenericGreaterThan \<and>
        outside (span (Node l a r) ls rs) h rf lf) \<or>
     (\<exists>lf rf pf c b t r'. splay_down cmp item h a rgt lft = splay_down cmp item (with_links h rf lf pf) c b lft \<and>
        places lf rf (live h) c lft b t ls (rs @ [(b, r')]) \<and>
        elements t ls (rs @ [(b, r')]) = elements (Node l a r) ls rs \<and> t \<noteq> Leaf \<and> size t < size (Node l a r) \<and>
        cmp item (item_data h b) = GenericGreaterThan \<and> outside (span (Node l a r) ls rs) h rf lf)"
proof (cases l)
  case Leaf
  note ch = places_child [OF p]
  have "splay_down cmp item h a rgt lft = Some (with_links h (left_of h) (right_of h) (parent_of h), a, rgt, lft, False)"
    using ch Leaf greater by (subst splay_down.simps) (simp add: links_with with_links_id [symmetric])
  then show ?thesis using p greater Leaf outside_refl by blast
next
  case (Node k b m)
  note p' = p [unfolded Node]
  note ch = places_child [OF p'] and gc = places_grandchild [OF p'] and ends = places_ends [OF p']
  show ?thesis
  proof (cases "cmp item (item_data h b) = GenericGreaterThan")
    case False
    let ?lf = "(right_of h)(rgt := a)" and ?pf = "(parent_of h)(a := rgt)"
    let ?h = "with_links h (left_of h) ?lf ?pf"
    have "splay_down cmp item h a rgt lft = splay_down cmp item ?h (right_of h a) a lft"
      using ch gc ends greater False
      by (subst splay_down.simps) (simp add: links_with places_link(3) [OF p', simplified])
    moreover have "outside (span (tree.Node l a r) ls rs) h (left_of h) ?lf"
      using ends by (auto simp: outside_def elements_def)
    ultimately show ?thesis using places_link(1,2) [OF p'] greater Node
      by (intro disjI2 exI [of _ ?lf] exI [of _ "left_of h"] exI [of _ ?pf] exI [of _ "right_of h a"]
          exI [of _ a] exI [of _ "tree.Node k b m"] exI [of _ r]) simp
  next
    case True
    let ?lf = "(right_of h)(a := left_of h b)" and ?rf = "(left_of h)(b := a)"
    obtain pf where rot: "rotate_left h a b = Some (with_links h ?rf ?lf pf)"
      using rotate_left_with [of h a b] ch gc by blast
    note z = places_zig [OF p']
    show ?thesis
    proof (cases k)
      case Leaf
      have "splay_down cmp item h a rgt lft = Some (with_links h ?rf ?lf pf, b, rgt, lft, False)"
        using ch gc ends greater True rot Leaf
        by (subst splay_down.simps) (simp add: links_with)
      moreover have "outside (span (tree.Node l a r) ls rs) h ?rf ?lf"
        using gc Node by (auto simp: outside_def elements_def)
      ultimately show ?thesis using z True Leaf Node
        by (intro disjI1 exI [of _ ?lf] exI [of _ ?rf] exI [of _ pf] exI [of _ b] exI [of _ "tree.Node m a r"]) simp
    next
      case (Node k1 c k2)
      note link = places_link [OF z(1)]
      let ?h = "with_links h ?rf (?lf(rgt := b)) (pf(b := rgt))"
      have "splay_down cmp item h a rgt lft = splay_down cmp item ?h (?lf b) b lft"
        using ch gc ends greater True rot Node link(3)
        by (subst splay_down.simps) (simp add: links_with)
      moreover have "size k < size (tree.Node l a r)" using \<open>l = tree.Node k b m\<close> by simp
      moreover have "outside (span (tree.Node l a r) ls rs) h ?rf (?lf(rgt := b))"
        using ends \<open>l = tree.Node k b m\<close> by (auto simp: outside_def elements_def)
      ultimately show ?thesis using link z(2) True Node \<open>l = tree.Node k b m\<close>
        by (intro disjI2 exI [of _ "?lf(rgt := b)"] exI [of _ ?rf] exI [of _ "pf(b := rgt)"] exI [of _ "?lf b"]
            exI [of _ b] exI [of _ k] exI [of _ "tree.Node m a r"]) simp
    qed
  qed
qed

end
