(* ===== verification/Generic_Table_Splay.thy ===== *)
theory Generic_Table_Splay
  imports Top_Down_Loop
begin

text \<open>
  \<open>splay\<close> of \<^verbatim>\<open>splay.c\<close> as a whole: it returns, keeps the items in order, says whether the item
  is there, and leaves it or a neighbour of its place at the root.
\<close>

section \<open>Order\<close>

text \<open>The documented behaviour of a compare routine: it compares by some key.\<close>

definition compares :: "('d \<Rightarrow> 'd \<Rightarrow> RTL_GENERIC_COMPARE_RESULTS) \<Rightarrow> ('d \<Rightarrow> 'k::linorder) \<Rightarrow> bool" where
  "compares cmp key \<longleftrightarrow> (\<forall>x y. cmp x y =
     (if key x < key y then GenericLessThan else if key y < key x then GenericGreaterThan else GenericEqual))"

lemma comparesD:
  assumes "compares cmp key"
  shows "cmp x y = GenericLessThan \<longleftrightarrow> key x < key y" "cmp x y = GenericGreaterThan \<longleftrightarrow> key y < key x"
    "cmp x y = GenericEqual \<longleftrightarrow> key x = key y" "cmp x y \<noteq> GenericOther"
  using assms by (auto simp: compares_def not_less)

definition increasing :: "('d \<Rightarrow> 'k::linorder) \<Rightarrow> ('d, 'z) table_heap_scheme \<Rightarrow> nat list \<Rightarrow> bool" where
  "increasing key h xs \<longleftrightarrow> sorted_wrt (\<lambda>x y. key (item_data h x) < key (item_data h y)) xs"

lemma increasing_cong: "item_data h' = item_data h \<Longrightarrow> increasing key h' = increasing key h"
  by (simp add: increasing_def fun_eq_iff)

lemma increasing_append: "increasing key h (xs @ ys) \<longleftrightarrow>
    increasing key h xs \<and> increasing key h ys \<and>
    (\<forall>x \<in> set xs. \<forall>y \<in> set ys. key (item_data h x) < key (item_data h y))"
  by (simp add: increasing_def sorted_wrt_append)

lemma increasing_Cons: "increasing key h (x # ys) \<longleftrightarrow>
    (\<forall>y \<in> set ys. key (item_data h x) < key (item_data h y)) \<and> increasing key h ys"
  by (simp add: increasing_def)

text \<open>The two spines hold what is smaller and what is larger.\<close>

definition split_at :: "('d \<Rightarrow> 'k::linorder) \<Rightarrow> ('d, 'z) table_heap_scheme \<Rightarrow> 'd \<Rightarrow>
    (nat \<times> nat tree) list \<Rightarrow> (nat \<times> nat tree) list \<Rightarrow> bool" where
  "split_at key h item ls rs \<longleftrightarrow>
     (\<forall>x \<in> set (nodes ls). key (item_data h x) < key item) \<and> (\<forall>x \<in> set (nodes rs). key item < key (item_data h x))"

lemma split_at_Nil [simp]: "split_at key h item [] []"
  by (simp add: split_at_def)

lemma split_at_right:
  assumes "split_at key h item ls rs" "key item < key (item_data h b)"
    "increasing key h (elements t ls (rs @ [(b, r)]))"
  shows "split_at key h item ls (rs @ [(b, r)])"
proof -
  have "\<forall>y \<in> set_tree r. key (item_data h b) < key (item_data h y)"
    using assms(3) by (simp add: elements_def increasing_append increasing_Cons)
  then have "\<forall>y \<in> set_tree r. key item < key (item_data h y)"
    using assms(2) by (metis less_trans)
  then show ?thesis using assms(1,2) unfolding split_at_def nodes_snoc by auto
qed

lemma split_at_left:
  assumes "split_at key h item ls rs" "key (item_data h b) < key item"
    "increasing key h (elements t (ls @ [(b, r)]) rs)"
  shows "split_at key h item (ls @ [(b, r)]) rs"
proof -
  have "\<forall>y \<in> set_tree r. key (item_data h y) < key (item_data h b)"
    using assms(3) by (simp add: elements_def increasing_append increasing_Cons)
  then have "\<forall>y \<in> set_tree r. key (item_data h y) < key item"
    using assms(2) by (metis less_trans)
  then show ?thesis using assms(1,2) unfolding split_at_def nodes_snoc by auto
qed

section \<open>The loop\<close>

text \<open>Where the loop may stop: at the item, or at a node that has nothing on the item's side.\<close>

definition stops :: "('d \<Rightarrow> 'k::linorder) \<Rightarrow> ('d, 'z) table_heap_scheme \<Rightarrow> 'd \<Rightarrow> bool \<Rightarrow> nat tree \<Rightarrow> nat \<Rightarrow> nat tree \<Rightarrow> bool" where
  "stops key h item found l b r \<longleftrightarrow>
     (if found then key (item_data h b) = key item
      else key item < key (item_data h b) \<and> l = Leaf \<or> key (item_data h b) < key item \<and> r = Leaf)"

lemma with_links_order [simp]:
  "increasing key (with_links h lf rf pf) = increasing key h" "split_at key (with_links h lf rf pf) = split_at key h"
  "stops key (with_links h lf rf pf) = stops key h"
  by (simp_all add: increasing_def split_at_def stops_def fun_eq_iff)

lemma splay_down_loop:
  assumes "compares cmp key"
    and "places (left_of h) (right_of h) (live h) root lft rgt t ls rs" "t \<noteq> Leaf"
    and "increasing key h (elements t ls rs)" "split_at key h item ls rs"
  shows "\<exists>lf rf pf b lft' rgt' found l r ls' rs'.
    splay_down cmp item h root lft rgt = Some (with_links h lf rf pf, b, lft', rgt', found) \<and>
    places lf rf (live h) b lft' rgt' (Node l b r) ls' rs' \<and>
    elements (Node l b r) ls' rs' = elements t ls rs \<and> split_at key h item ls' rs' \<and> stops key h item found l b r \<and>
    outside (span t ls rs) h lf rf"
  using assms(2-)
proof (induction "size t" arbitrary: h root lft rgt t ls rs rule: less_induct)
  case less
  note cmp = comparesD [OF assms(1)]
  obtain l a r where t: "t = Node l a r" using less.prems(2) by (cases t) auto
  have root: "root = a" "live h a" using less.prems(1) t by (auto simp: places_def)
  consider (lt) "key item < key (item_data h a)" | (gt) "key (item_data h a) < key item"
    | (eq) "key (item_data h a) = key item" by fastforce
  then show ?case
  proof cases
    case eq
    then have "splay_down cmp item h root lft rgt =
        Some (with_links h (left_of h) (right_of h) (parent_of h), a, lft, rgt, True)"
      using root cmp(3) [of item "item_data h a"]
      by (subst splay_down.simps) (simp add: links_with with_links_id [symmetric])
    moreover have "stops key h item True l a r" using eq by (simp add: stops_def)
    ultimately show ?thesis using less.prems t root outside_refl by blast
  next
    case lt
    then have c: "cmp item (item_data h a) = GenericLessThan" using cmp by simp
    from splay_down_less [where h = h and cmp = cmp and item = item, OF less.prems(1) [unfolded t root(1)] c] show ?thesis
    proof (elim disjE exE conjE)
      fix lf rf pf b r'
      assume 1: "splay_down cmp item h a lft rgt = Some (with_links h lf rf pf, b, lft, rgt, False)"
        "places lf rf (live h) b lft rgt (Node Leaf b r') ls rs"
        "elements (Node Leaf b r') ls rs = elements (Node l a r) ls rs" "cmp item (item_data h b) = GenericLessThan"
        "outside (span (Node l a r) ls rs) h lf rf"
      then have "stops key h item False Leaf b r'" using cmp by (simp add: stops_def)
      with 1 less.prems t root show ?thesis by blast
    next
      fix lf rf pf c b u r'
      assume 2: "splay_down cmp item h a lft rgt = splay_down cmp item (with_links h lf rf pf) c lft b"
        "places lf rf (live h) c lft b u ls (rs @ [(b, r')])"
        "elements u ls (rs @ [(b, r')]) = elements (Node l a r) ls rs" "u \<noteq> Leaf" "size u < size (Node l a r)"
        "cmp item (item_data h b) = GenericLessThan" "outside (span (Node l a r) ls rs) h lf rf"
      let ?h = "with_links h lf rf pf"
      have inc: "increasing key h (elements u ls (rs @ [(b, r')]))" using less.prems(3) 2(3) t by simp
      have "split_at key h item ls (rs @ [(b, r')])"
        using less.prems(4) 2(6) cmp inc by (intro split_at_right) simp_all
      with less.hyps [of u ?h c lft b ls "rs @ [(b, r')]"] inc 2(1-6) t root
      obtain lf' rf' pf' b' lft' rgt' found l' r2 ls' rs' where
        "splay_down cmp item h root lft rgt = Some (with_links h lf' rf' pf', b', lft', rgt', found)"
        "places lf' rf' (live h) b' lft' rgt' (Node l' b' r2) ls' rs'"
        "elements (Node l' b' r2) ls' rs' = elements t ls rs" "split_at key h item ls' rs'"
        "stops key h item found l' b' r2" "outside (span t ls rs) (with_links h lf rf pf) lf' rf'" by auto
      moreover from this(6) 2(7) t have "outside (span t ls rs) h lf' rf'" using outside_trans by blast
      ultimately show ?thesis by blast
    qed
  next
    case gt
    then have c: "cmp item (item_data h a) = GenericGreaterThan" using cmp by simp
    have m: "places (right_of h) (left_of h) (live h) a rgt lft (Node (mirror r) a (mirror l)) rs ls"
      using less.prems(1) t root by (subst (asm) places_mirror) simp
    have unmirror: "elements v ls' rs' = elements t ls rs"
      if "elements (mirror v) rs' ls' = elements (Node (mirror r) a (mirror l)) rs ls" for v ls' rs'
      using that elements_mirror [of v rs' ls'] elements_mirror [of t rs ls] t by simp
    from splay_down_greater [where h = h and cmp = cmp and item = item, OF m c] show ?thesis
    proof (elim disjE exE conjE)
      fix lf rf pf b r'
      assume 1: "splay_down cmp item h a lft rgt = Some (with_links h rf lf pf, b, lft, rgt, False)"
        "places lf rf (live h) b rgt lft (Node Leaf b r') rs ls"
        "elements (Node Leaf b r') rs ls = elements (Node (mirror r) a (mirror l)) rs ls"
        "cmp item (item_data h b) = GenericGreaterThan" "outside (span (Node (mirror r) a (mirror l)) rs ls) h rf lf"
      then have "stops key h item False (mirror r') b Leaf" using cmp by (simp add: stops_def)
      moreover have "places rf lf (live h) b lft rgt (Node (mirror r') b Leaf) ls rs"
        using 1(2) by (subst places_mirror) simp
      moreover have "elements (Node (mirror r') b Leaf) ls rs = elements t ls rs"
        using 1(3) by (intro unmirror) simp
      moreover have "span (Node (mirror r) a (mirror l)) rs ls = span t ls rs"
        using elements_mirror [of t rs ls] t by simp
      then have "outside (span t ls rs) h rf lf" using 1(5) by simp
      ultimately show ?thesis using 1(1) less.prems(4) root(1) by blast
    next
      fix lf rf pf c b u r'
      assume 2: "splay_down cmp item h a lft rgt = splay_down cmp item (with_links h rf lf pf) c b rgt"
        "places lf rf (live h) c rgt b u rs (ls @ [(b, r')])"
        "elements u rs (ls @ [(b, r')]) = elements (Node (mirror r) a (mirror l)) rs ls" "u \<noteq> Leaf"
        "size u < size (Node (mirror r) a (mirror l))" "cmp item (item_data h b) = GenericGreaterThan"
        "outside (span (Node (mirror r) a (mirror l)) rs ls) h rf lf"
      let ?h = "with_links h rf lf pf"
      have el: "elements (mirror u) (ls @ [(b, r')]) rs = elements t ls rs" using 2(3) by (intro unmirror) simp
      have inc: "increasing key h (elements (mirror u) (ls @ [(b, r')]) rs)" using less.prems(3) el by simp
      have "split_at key h item (ls @ [(b, r')]) rs"
        using less.prems(4) 2(6) cmp inc by (intro split_at_left) simp_all
      moreover have "places rf lf (live h) c b rgt (mirror u) (ls @ [(b, r')]) rs"
        using 2(2) by (subst places_mirror) simp
      ultimately obtain lf' rf' pf' b' lft' rgt' found l' r2 ls' rs' where *:
        "splay_down cmp item h root lft rgt = Some (with_links h lf' rf' pf', b', lft', rgt', found)"
        "places lf' rf' (live h) b' lft' rgt' (Node l' b' r2) ls' rs'"
        "elements (Node l' b' r2) ls' rs' = elements t ls rs" "split_at key h item ls' rs'"
        "stops key h item found l' b' r2" "outside (span t ls rs) (with_links h rf lf pf) lf' rf'"
        using less.hyps [of "mirror u" ?h c b rgt "ls @ [(b, r')]" rs] 2(1,4,5) t root el inc by auto
      have "span (Node (mirror r) a (mirror l)) rs ls = span t ls rs"
        using elements_mirror [of t rs ls] t by simp
      then have "outside (span t ls rs) h lf' rf'"
        using outside_trans [of "span t ls rs" h rf lf pf lf' rf'] 2(7) *(6) by auto
      with * show ?thesis by blast
    qed
  qed
qed

section \<open>Putting the tree together\<close>

lemma tr_child_ptr: "tr f g L b (Node l b r) \<Longrightarrow> (f b = 0 \<or> L (f b)) \<and> (g b = 0 \<or> L (g b))"
  using tr_ptr [of f g L "f b" l] tr_ptr [of f g L "g b" r] by auto

lemma assemble_with:
  assumes p: "places (left_of h) (right_of h) (live h) b lft rgt (Node l b r) ls rs"
  shows "\<exists>lf rf pf. assemble h b lft rgt = Some (with_links h lf rf pf) \<and>
    tr lf rf (live h) b (Node (mirror (close ls (mirror l))) b (close rs r)) \<and> outside {b, lft, rgt} h lf rf"
proof -
  let ?g = "(right_of h)(lft := left_of h b)" and ?f = "(left_of h)(rgt := right_of h b)"
  let ?lf = "?f(b := ?g next_node)" and ?rf = "?g(b := ?f next_node)"
  have t: "tr ?lf ?rf (live h) b (Node (mirror (close ls (mirror l))) b (close rs r))"
    by (rule places_assemble(1) [OF p refl refl])
  note ch = places_child [OF p] and ends = places_ends [OF p]
  have b: "b \<noteq> lft" "b \<noteq> rgt" "b \<noteq> next_node" "live h next_node"
    using p ends by (auto simp: places_def)
  have n: "?g next_node = 0 \<or> live h (?g next_node)" "?f next_node = 0 \<or> live h (?f next_node)"
    using tr_child_ptr [OF t] by simp_all
  let ?h1 = "with_links h (left_of h) ?g (parent_of h)"
  obtain p1 where 1: "adopt ?h1 (left_of h b) lft = Some (with_links h (left_of h) ?g p1)"
    using adopt_with [of "left_of h b" ?h1 lft] ch by auto
  let ?h2 = "with_links h ?f ?g p1"
  obtain p2 where 2: "adopt ?h2 (right_of h b) rgt = Some (with_links h ?f ?g p2)"
    using adopt_with [of "right_of h b" ?h2 rgt] ch by auto
  let ?h3 = "with_links h ?lf ?g p2"
  obtain p3 where 3: "adopt ?h3 (?g next_node) b = Some (with_links h ?lf ?g p3)"
    using adopt_with [of "?g next_node" ?h3 b] n(1) by auto
  let ?h4 = "with_links h ?lf ?rf p3"
  obtain p4 where 4: "adopt ?h4 (?f next_node) b = Some (with_links h ?lf ?rf p4)"
    using adopt_with [of "?f next_node" ?h4 b] n(2) by auto
  have "assemble h b lft rgt = Some (with_links h ?lf ?rf (p4(b := 0)))"
    using ch b ends 1 2 3 4 by (simp add: assemble_def links_with)
  moreover have "outside {b, lft, rgt} h ?lf ?rf" by (simp add: outside_def)
  ultimately show ?thesis using t by blast
qed

section \<open>The routine\<close>

text \<open>The tree of a table; the address of the local node is free.\<close>

definition table_tree :: "('d, 'z) table_heap_scheme \<Rightarrow> nat \<Rightarrow> nat tree \<Rightarrow> bool" where
  "table_tree h p t \<longleftrightarrow> tr (left_of h) (right_of h) (live h) p t \<and> distinct (inorder t) \<and> \<not> alloc h next_node"

lemma table_tree_next: "table_tree h p t \<Longrightarrow> next_node \<notin> set_tree t"
  by (auto simp: table_tree_def live_def dest: tr_live)

definition keys_of :: "('d \<Rightarrow> 'k) \<Rightarrow> ('d, 'z) table_heap_scheme \<Rightarrow> nat tree \<Rightarrow> 'k set" where
  "keys_of key h t = (\<lambda>x. key (item_data h x)) ` set_tree t"

text \<open>The item splits the tree at the root: what the insertion of a new root relies on.\<close>

definition splits :: "('d \<Rightarrow> 'k::linorder) \<Rightarrow> ('d, 'z) table_heap_scheme \<Rightarrow> 'd \<Rightarrow> nat tree \<Rightarrow> nat \<Rightarrow> nat tree \<Rightarrow> bool" where
  "splits key h item l b r \<longleftrightarrow>
     key item < key (item_data h b) \<and> (\<forall>x \<in> set_tree l. key (item_data h x) < key item) \<or>
     key (item_data h b) < key item \<and> (\<forall>x \<in> set_tree r. key item < key (item_data h x))"

lemma splay_exact:
  assumes cmp: "compares cmp key" and t: "table_tree h (TableRoot T) t" "t \<noteq> Leaf"
    and inc: "increasing key h (inorder t)"
  shows "\<exists>lf rf pf found l b r. splay cmp T h item = Some (found, T\<lparr>TableRoot := b\<rparr>, with_links h lf rf pf) \<and>
    table_tree (with_links h lf rf pf) b (Node l b r) \<and> inorder (Node l b r) = inorder t \<and>
    (if found then key (item_data h b) = key item else splits key h item l b r) \<and>
    outside (insert next_node (set_tree t)) h lf rf"
proof -
  let ?h = "h\<lparr>alloc := (alloc h)(next_node := True), parent_of := (parent_of h)(next_node := 0),
                  left_of := (left_of h)(next_node := 0), right_of := (right_of h)(next_node := 0)\<rparr>"
  have free: "\<not> alloc h next_node" using t(1) by (simp add: table_tree_def)
  have nn: "next_node \<notin> set_tree t" using table_tree_next [OF t(1)] .
  have live: "live ?h x \<longleftrightarrow> live h x \<or> x = next_node" for x by (auto simp: live_def next_node_def)
  have "tr (left_of ?h) (right_of ?h) (live h) (TableRoot T) t"
    by (rule tr_same [of "left_of h" "right_of h"]) (use t(1) nn in \<open>auto simp: table_tree_def\<close>)
  then have "tr (left_of ?h) (right_of ?h) (live ?h) (TableRoot T) t"
    by (rule tr_relive) (use t(1) live in \<open>auto simp: table_tree_def dest: tr_live\<close>)
  then have p: "places (left_of ?h) (right_of ?h) (live ?h) (TableRoot T) next_node next_node t [] []"
    using nn t(1) live [of next_node] by (simp add: places_def table_tree_def)
  have "increasing key ?h (elements t [] [])" using inc by (simp add: elements_def increasing_def)
  with splay_down_loop [OF cmp p t(2), of item] obtain lf rf pf b lft rgt found l r ls rs where
    1: "splay_down cmp item ?h (TableRoot T) next_node next_node = Some (with_links ?h lf rf pf, b, lft, rgt, found)"
    and 2: "places lf rf (live ?h) b lft rgt (Node l b r) ls rs"
    and 3: "elements (Node l b r) ls rs = elements t [] []"
    and 4: "split_at key ?h item ls rs" "stops key ?h item found l b r"
    and 6: "outside (span t [] []) ?h lf rf" by auto
  let ?l = "mirror (close ls (mirror l))" and ?r = "close rs r"
  have "places (left_of (with_links ?h lf rf pf)) (right_of (with_links ?h lf rf pf)) (live (with_links ?h lf rf pf))
      b lft rgt (Node l b r) ls rs" using 2 by (simp only: with_links_simps)
  from assemble_with [OF this] obtain lf' rf' pf' where
    5: "assemble (with_links ?h lf rf pf) b lft rgt = Some (with_links ?h lf' rf' pf')"
    "tr lf' rf' (live ?h) b (Node ?l b ?r)" "outside {b, lft, rgt} (with_links ?h lf rf pf) lf' rf'"
    unfolding with_links_simps by blast
  have "{b, lft, rgt} \<subseteq> span (Node l b r) ls rs"
    using places_ends [OF 2] by (auto simp: elements_def)
  with 3 5(3) have "outside (span t [] []) (with_links ?h lf rf pf) lf' rf'"
    using outside_mono by metis
  with 6 have "outside (span t [] []) ?h lf' rf'" using outside_trans by blast
  then have frame: "outside (insert next_node (set_tree t)) h lf' rf'" by (simp add: outside_def elements_def)
  have el: "inorder (Node ?l b ?r) = inorder t"
    using places_assemble(2) [OF 2 refl refl] 3 by (simp add: elements_def)
  have set: "set_tree (Node ?l b ?r) = set_tree t" using el by (metis set_inorder)
  have "tr lf' rf' (live h) b (Node ?l b ?r)"
    by (rule tr_relive [OF 5(2)]) (use set t(1) in \<open>auto simp: table_tree_def dest: tr_live\<close>)
  then have tab: "table_tree (with_links h lf' rf' pf') b (Node ?l b ?r)"
    using el t(1) by (simp add: table_tree_def del: set_tree_mirror)
  have "(with_links ?h lf' rf' pf')\<lparr>alloc := (alloc (with_links ?h lf' rf' pf'))(next_node := False)\<rparr> = with_links h lf' rf' pf'"
    using free by (simp add: with_links_def fun_upd_idem)
  moreover have "TableRoot T \<noteq> 0" using p t(2) by (cases t) (auto simp: places_def)
  ultimately have "splay cmp T h item = Some (found, T\<lparr>TableRoot := b\<rparr>, with_links h lf' rf' pf')"
    using 1 5(1) by (simp add: splay_def)
  moreover have "if found then key (item_data h b) = key item else splits key h item ?l b ?r"
    using 4 by (auto simp: stops_def splits_def split_at_def)
  ultimately show ?thesis using tab el frame by blast
qed

lemma splits_keys:
  assumes "splits key h item l b r" "increasing key h (inorder (Node l b r))"
  shows "key item \<notin> keys_of key h (Node l b r)"
  using assms by (force simp: splits_def keys_of_def increasing_append increasing_Cons)

lemma found_keys: "key (item_data h b) = key item \<Longrightarrow> key item \<in> keys_of key h (Node l b r)"
  by (auto simp: keys_of_def)

end
