(* ===== verification/Generic_Table_Spec.thy ===== *)
theory Generic_Table_Spec
  imports Generic_Table_Ring Generic_Table_Splay
begin

text \<open>
  What the generic tables of \<^verbatim>\<open>splay.c\<close> promise: lookup, insertion and deletion on a table whose
  tree is ordered by a key, whose ring holds its items in insertion order and whose counter is
  their number; and where the deletion dereferences a null pointer instead.
\<close>

section \<open>The invariant\<close>

definition table_ok :: "('d \<Rightarrow> 'k::linorder) \<Rightarrow> RTL_GENERIC_TABLE \<Rightarrow> ('d, 'z) table_heap_scheme \<Rightarrow>
    nat tree \<Rightarrow> nat list \<Rightarrow> bool" where
  "table_ok key Table h t os \<longleftrightarrow> table_tree h (TableRoot Table) t \<and> increasing key h (inorder t) \<and>
     ring h os \<and> set os = set_tree t \<and> unat (NumberGenericTableElements Table) = length os"

lemma table_ok_Leaf: "table_ok key Table h Leaf os \<Longrightarrow> TableRoot Table = 0 \<and> os = []"
  by (simp add: table_ok_def table_tree_def)

lemma table_ok_root:
  assumes "table_ok key Table h t os" "t \<noteq> Leaf"
  shows "TableRoot Table \<noteq> 0"
  using assms by (cases t) (auto simp: table_ok_def table_tree_def live_def)

text \<open>A splay keeps all of it.\<close>

lemma splay_table:
  assumes "compares cmp key" "table_ok key Table h t os" "t \<noteq> Leaf"
  shows "\<exists>lf rf pf found l b r. splay cmp Table h item = Some (found, Table\<lparr>TableRoot := b\<rparr>, with_links h lf rf pf) \<and>
    table_ok key (Table\<lparr>TableRoot := b\<rparr>) (with_links h lf rf pf) (Node l b r) os \<and> inorder (Node l b r) = inorder t \<and>
    (if found then key (item_data h b) = key item else splits key h item l b r) \<and>
    (found \<longleftrightarrow> key item \<in> keys_of key h t)"
proof -
  have t: "table_tree h (TableRoot Table) t" "increasing key h (inorder t)" using assms(2) by (simp_all add: table_ok_def)
  from splay_exact [OF assms(1) t(1) assms(3) t(2), of item] obtain lf rf pf found l b r where
    1: "splay cmp Table h item = Some (found, Table\<lparr>TableRoot := b\<rparr>, with_links h lf rf pf)"
    "table_tree (with_links h lf rf pf) b (Node l b r)" "inorder (Node l b r) = inorder t"
    "if found then key (item_data h b) = key item else splits key h item l b r" by blast
  have set: "set_tree (Node l b r) = set_tree t" using 1(3) by (metis set_inorder)
  have inc: "increasing key h (inorder (Node l b r))" using 1(3) t(2) by metis
  have ring: "ring (with_links h lf rf pf) os" using assms(2) ring_cong [of h os "with_links h lf rf pf"]
    by (simp add: table_ok_def ring_def)
  have "found \<longleftrightarrow> key item \<in> keys_of key h (Node l b r)"
    using 1(4) splits_keys [OF _ inc] found_keys by metis
  then have "found \<longleftrightarrow> key item \<in> keys_of key h t" unfolding keys_of_def set .
  moreover have "table_ok key (Table\<lparr>TableRoot := b\<rparr>) (with_links h lf rf pf) (Node l b r) os"
    using 1(2) assms(2) ring inc set unfolding table_ok_def with_links_order by simp
  ultimately show ?thesis using 1 by metis
qed

section \<open>A table of two numbers\<close>

definition number_compare :: "int \<Rightarrow> int \<Rightarrow> RTL_GENERIC_COMPARE_RESULTS" where
  "number_compare x y = (if x < y then GenericLessThan else if y < x then GenericGreaterThan else GenericEqual)"

definition two_heap :: "int table_heap" where
  "two_heap = \<lparr>alloc = (\<lambda>x. x = 4 \<or> x = 5), parent_of = (\<lambda>_. 0)(4 := 5), left_of = (\<lambda>_. 0)(5 := 4), right_of = (\<lambda>_. 0),
     Flink = (\<lambda>_. ListHead)(ListHead := Entry 4, Entry 4 := Entry 5),
     Blink = (\<lambda>_. ListHead)(ListHead := Entry 5, Entry 5 := Entry 4), item_data = (\<lambda>_. 0)(4 := 10, 5 := 20)\<rparr>"

definition two_table :: RTL_GENERIC_TABLE where
  "two_table = \<lparr>TableRoot = 5, OrderedPointer = ListHead, WhichOrderedElement = 0, NumberGenericTableElements = 2\<rparr>"

lemma number_compares: "compares number_compare (\<lambda>x. x)"
  by (simp add: compares_def number_compare_def)

lemma two_table_ok: "table_ok (\<lambda>x. x) two_table two_heap (Node (Node Leaf 4 Leaf) 5 Leaf) [4, 5]"
  by (auto simp: table_ok_def table_tree_def increasing_def ring_def two_table_def two_heap_def live_def next_node_def)

lemma two_keys: "keys_of (\<lambda>x. x) two_heap (Node (Node Leaf 4 Leaf) 5 Leaf) = {10, 20}"
  by (auto simp: keys_of_def two_heap_def)

section \<open>Lookup\<close>

text \<open>
  C4. On a table in order, \<open>RtlLookupElementGenericTable\<close> returns, keeps the items, their order and
  their list, and yields an item with the key it is asked for exactly when the table has one.
\<close>

theorem lookup_finds:
  assumes "compares cmp key" "table_ok key Table h t os"
  shows "\<exists>p Table' h' t'. RtlLookupElementGenericTable cmp Table h item = Some (p, Table', h') \<and>
    table_ok key Table' h' t' os \<and> inorder t' = inorder t \<and> item_data h' = item_data h \<and>
    (if p = 0 then key item \<notin> keys_of key h t else p \<in> set_tree t \<and> key (item_data h p) = key item)"
proof (cases "t = Leaf")
  case True
  then have "TableRoot Table = 0" using table_ok_Leaf assms(2) by blast
  then have "RtlLookupElementGenericTable cmp Table h item = Some (0, Table, h)"
    by (simp add: RtlLookupElementGenericTable_def splay_def)
  then show ?thesis using assms(2) True by (auto simp: keys_of_def)
next
  case False
  from splay_table [OF assms False, of item] obtain lf rf pf found l b r where
    1: "splay cmp Table h item = Some (found, Table\<lparr>TableRoot := b\<rparr>, with_links h lf rf pf)"
    "table_ok key (Table\<lparr>TableRoot := b\<rparr>) (with_links h lf rf pf) (Node l b r) os" "inorder (Node l b r) = inorder t"
 "if found then key (item_data h b) = key item else splits key h item l b r"
    "found \<longleftrightarrow> key item \<in> keys_of key h t" by blast
  have "b \<noteq> 0" using table_ok_root [OF 1(2)] by simp
  moreover have "b \<in> set_tree t" using 1(3) by (metis set_inorder tree.set_intros(2))
  moreover have "RtlLookupElementGenericTable cmp Table h item =
      Some (if found then b else 0, Table\<lparr>TableRoot := b\<rparr>, with_links h lf rf pf)"
    using 1(1) by (simp add: RtlLookupElementGenericTable_def)
  ultimately show ?thesis using 1(2-5)
    by (intro exI [of _ "if found then b else 0"] exI [of _ "Table\<lparr>TableRoot := b\<rparr>"]
        exI [of _ "with_links h lf rf pf"] exI [of _ "Node l b r"]) (auto simp del: inorder.simps)
qed

theorem lookup_finds_witness: "\<exists>p Table' h'. RtlLookupElementGenericTable number_compare two_table two_heap 10 = Some (p, Table', h') \<and> p \<noteq> 0"
proof -
  from lookup_finds [OF number_compares two_table_ok, of 10] obtain p Table' h' where
    "RtlLookupElementGenericTable number_compare two_table two_heap 10 = Some (p, Table', h')"
    "if p = 0 then 10 \<notin> keys_of (\<lambda>x. x) two_heap (Node (Node Leaf 4 Leaf) 5 Leaf) else True" by metis
  then show ?thesis using two_keys by (auto split: if_splits)
qed

text \<open>What an operation sees after its splay.\<close>

lemma splay_outcome:
  assumes "compares cmp key" "table_ok key Table h t os"
  shows "\<exists>Table' g u. splay cmp Table h item = Some (key item \<in> keys_of key h t, Table', g) \<and> table_ok key Table' g u os \<and>
      (u = Leaf \<or> (\<exists>l b r. u = Node l b r \<and> (key item \<in> keys_of key h t \<or> splits key g item l b r))) \<and>
      alloc g = alloc h \<and> item_data g = item_data h \<and>
      (key item \<in> keys_of key h t \<longrightarrow> TableRoot Table' \<in> set_tree t \<and> key (item_data h (TableRoot Table')) = key item)"
proof (cases "t = Leaf")
  case True
  then show ?thesis using assms(2) table_ok_Leaf [of key Table h os] by (auto simp: splay_def keys_of_def)
next
  case False
  from splay_table [OF assms(1,2) False, of item] obtain lf rf pf found l b r where
    1: "splay cmp Table h item = Some (found, Table\<lparr>TableRoot := b\<rparr>, with_links h lf rf pf)"
    "table_ok key (Table\<lparr>TableRoot := b\<rparr>) (with_links h lf rf pf) (Node l b r) os" "inorder (Node l b r) = inorder t"
    "if found then key (item_data h b) = key item else splits key h item l b r"
    "found \<longleftrightarrow> key item \<in> keys_of key h t" by blast
  have "b \<in> set_tree t" using 1(3) by (metis set_inorder tree.set_intros(2))
  then show ?thesis using 1
    by (intro exI [of _ "Table\<lparr>TableRoot := b\<rparr>"] exI [of _ "with_links h lf rf pf"] exI [of _ "Node l b r"])
      (auto simp: splits_def split: if_splits)
qed

section \<open>Insertion\<close>

lemma tr_update [simp]:
  "a \<notin> set_tree t \<Longrightarrow> tr (f(a := x)) g L p t = tr f g L p t"
  "a \<notin> set_tree t \<Longrightarrow> tr f (g(a := x)) L p t = tr f g L p t"
  by (induction t arbitrary: p) auto

lemma increasing_same:
  "(\<And>x. x \<in> set xs \<Longrightarrow> item_data h' x = item_data h x) \<Longrightarrow> increasing key h' xs = increasing key h xs"
  by (induction xs) (auto simp: increasing_def)

text \<open>What the code relies on of an allocator: a free block of its own, or null and nothing changed.\<close>

definition allocates :: "(('d, 'z) table_heap_scheme \<Rightarrow> u32 \<Rightarrow> nat \<times> ('d, 'z) table_heap_scheme) \<Rightarrow>
    ('d, 'z) table_heap_scheme \<Rightarrow> nat \<Rightarrow> bool" where
  "allocates Alloc h p \<longleftrightarrow> (p = 0 \<or> p \<noteq> next_node \<and> \<not> alloc h p) \<and>
     (\<forall>g n. alloc g = alloc h \<longrightarrow> Alloc g n = (p, if p = 0 then g else g\<lparr>alloc := (alloc g)(p := True)\<rparr>))"

text \<open>The tree with the new item above it.\<close>

definition pushed :: "bool \<Rightarrow> nat tree \<Rightarrow> nat \<Rightarrow> nat \<Rightarrow> nat tree \<Rightarrow> nat tree" where
  "pushed lt l b y r = (if lt then Node l y (Node Leaf b r) else Node (Node l b Leaf) y r)"

lemma pushed_nodes [simp]: "set_tree (pushed lt l b y r) = insert y (set_tree (Node l b r))"
  by (auto simp: pushed_def)

lemma push_root_above:
  assumes cmp: "compares cmp key" and t: "tr (left_of h) (right_of h) (live h) b (Node l b r)" "distinct (inorder (Node l b r))"
    and y: "live h y" "y \<notin> set_tree (Node l b r)" and ne: "key (item_data h y) \<noteq> key (item_data h b)"
  shows "\<exists>lf rf pf. push_root cmp h y b = Some (with_links h lf rf pf) \<and>
    tr lf rf (live h) y (pushed (key (item_data h y) < key (item_data h b)) l b y r)"
proof -
  note c = comparesD [OF cmp]
  have b: "live h b" "b \<noteq> 0" "y \<noteq> b" using t y by (auto simp: live_def)
  have lr: "tr (left_of h) (right_of h) (live h) (left_of h b) l" "tr (left_of h) (right_of h) (live h) (right_of h b) r"
    using t by simp_all
  have out: "b \<notin> set_tree l" "b \<notin> set_tree r" "y \<notin> set_tree l" "y \<notin> set_tree r" using t(2) y(2) by auto
  show ?thesis
  proof (cases "key (item_data h y) < key (item_data h b)")
    case True
    let ?lf = "(left_of h)(y := left_of h b, b := 0)" and ?rf = "(right_of h)(y := b)"
    have "push_root cmp h y b = Some (with_links h ?lf ?rf ((parent_of h)(y := 0, b := y)))"
      using b y True c(1) by (simp add: push_root_def links_with)
    moreover have "tr ?lf ?rf (live h) (left_of h b) l \<and> tr ?lf ?rf (live h) (right_of h b) r"
      using lr out by simp
    then have "tr ?lf ?rf (live h) y (pushed (key (item_data h y) < key (item_data h b)) l b y r)"
      using b y True by (simp add: pushed_def)
    ultimately show ?thesis by blast
  next
    case False
    then have gt: "key (item_data h b) < key (item_data h y)" using ne by simp
    let ?lf = "(left_of h)(y := b)" and ?rf = "(right_of h)(y := right_of h b, b := 0)"
    have "cmp (item_data h y) (item_data h b) = GenericGreaterThan" using gt c(2) by simp
    then have "push_root cmp h y b = Some (with_links h ?lf ?rf ((parent_of h)(y := 0, b := y)))"
      using b y by (simp add: push_root_def links_with)
    moreover have "tr ?lf ?rf (live h) (left_of h b) l \<and> tr ?lf ?rf (live h) (right_of h b) r"
      using lr out by simp
    then have "tr ?lf ?rf (live h) y (pushed (key (item_data h y) < key (item_data h b)) l b y r)"
      using b y False by (simp add: pushed_def)
    ultimately show ?thesis by blast
  qed
qed

lemma pushed_increasing:
  assumes "increasing key h (inorder (Node l b r))" "splits key h item l b r"
    and "item_data h' = (item_data h)(y := item)" "y \<notin> set_tree (Node l b r)"
  shows "increasing key h' (inorder (pushed (key item < key (item_data h b)) l b y r))"
proof -
  have same: "item_data h' x = item_data h x" if "x \<in> set_tree (Node l b r)" for x using assms(3,4) that by auto
  have "increasing key h' (inorder (Node l b r)) = increasing key h (inorder (Node l b r))"
    by (rule increasing_same) (use same in simp)
  then show ?thesis using assms unfolding pushed_def splits_def
    by (auto simp: increasing_append increasing_Cons fun_upd_def split: if_splits)
qed

definition placed :: "('d, 'z) table_heap_scheme \<Rightarrow> nat \<Rightarrow> 'd \<Rightarrow> ('d, 'z) table_heap_scheme" where
  "placed h p item = h\<lparr>alloc := (alloc h)(p := True), item_data := (item_data h)(p := item)\<rparr>"

lemma placed_simps [simp]:
  "left_of (placed h p item) = left_of h" "right_of (placed h p item) = right_of h"
  "alloc (placed h p item) = (alloc h)(p := True)" "item_data (placed h p item) = (item_data h)(p := item)"
  "Flink (placed h p item) = Flink h" "Blink (placed h p item) = Blink h"
  by (simp_all add: placed_def)

lemma placed_live: "p \<noteq> 0 \<Longrightarrow> live (placed h p item) x \<longleftrightarrow> live h x \<or> x = p"
  by (auto simp: live_def)

lemma insert_tree:
  assumes cmp: "compares cmp key" and t: "table_tree h (TableRoot Table) u" "increasing key h (inorder u)"
    and u: "u = Leaf \<or> (\<exists>l b r. u = Node l b r \<and> splits key h item l b r)"
    and p: "p \<noteq> 0" "p \<noteq> next_node" "\<not> alloc h p"
  shows "\<exists>lf rf pf t. push_root cmp (placed h p item) p (TableRoot Table) = Some (with_links (placed h p item) lf rf pf) \<and>
    table_tree (with_links (placed h p item) lf rf pf) p t \<and> increasing key (placed h p item) (inorder t) \<and>
    set_tree t = insert p (set_tree u)"
proof -
  let ?h = "placed h p item"
  have live: "live ?h p" "\<And>x. x \<in> set_tree u \<Longrightarrow> live ?h x" and out: "p \<notin> set_tree u"
    using t(1) p by (auto simp: placed_live table_tree_def live_def dest: tr_live)
  have free: "\<not> alloc ?h next_node" using t(1) p by (simp add: table_tree_def)
  from u show ?thesis
  proof (elim disjE exE conjE)
    assume [simp]: "u = Leaf"
    let ?t = "Node Leaf p Leaf"
    let ?g = "with_links ?h ((left_of h)(p := 0)) ((right_of h)(p := 0)) (parent_of ?h)"
    have "push_root cmp ?h p (TableRoot Table) = Some ?g"
      using t(1) live(1) by (simp add: push_root_def links_with table_tree_def)
    moreover have "table_tree ?g p ?t" "increasing key ?h (inorder ?t)"
      using live free by (simp_all add: table_tree_def increasing_def)
    moreover have "set_tree ?t = insert p (set_tree u)" by simp
    ultimately show ?thesis by blast
  next
    fix l b r
    assume n: "u = Node l b r" "splits key h item l b r"
    let ?t = "pushed (key item < key (item_data h b)) l b p r"
    have b: "TableRoot Table = b" using t(1) n by (simp add: table_tree_def)
    have d: "distinct (inorder (Node l b r))" and "tr (left_of ?h) (right_of ?h) (live h) b (Node l b r)"
      using t(1) n b by (simp_all add: table_tree_def)
    then have tr: "tr (left_of ?h) (right_of ?h) (live ?h) b (Node l b r)"
      by (elim tr_relive) (use live n in simp)
    have pb: "p \<noteq> b" using out n by auto
    have ne: "key (item_data ?h p) \<noteq> key (item_data ?h b)" using n pb by (auto simp: splits_def)
    have "p \<notin> set_tree (Node l b r)" using out n by simp
    from push_root_above [OF cmp tr d live(1) this ne] obtain lf rf pf where
      1: "push_root cmp ?h p b = Some (with_links ?h lf rf pf)" "tr lf rf (live ?h) p ?t" using pb by auto
    moreover have "distinct (inorder ?t)" using d out n by (auto simp: pushed_def)
    moreover have "increasing key ?h (inorder ?t)"
      using pushed_increasing [of key h l b r item ?h p] t(2) n out by simp
    ultimately show ?thesis using b free n
      by (intro exI [of _ lf] exI [of _ rf] exI [of _ pf] exI [of _ ?t]) (simp add: table_tree_def)
  qed
qed

lemma insert_step:
  assumes "compares cmp key" and t: "table_ok key Table h u os"
    and "u = Leaf \<or> (\<exists>l b r. u = Node l b r \<and> splits key h item l b r)"
    and p: "p \<noteq> 0" "p \<noteq> next_node" "\<not> alloc h p" and n: "Suc (length os) < 2 ^ 32"
  shows "\<exists>h1 h2 t. push_root cmp (placed h p item) p (TableRoot Table) = Some h1 \<and>
    append_entry Table h1 (Entry p) = Some h2 \<and>
    table_ok key (Table\<lparr>TableRoot := p, NumberGenericTableElements := NumberGenericTableElements Table + 1,
      WhichOrderedElement := 0, OrderedPointer := ListHead\<rparr>) h2 t (os @ [p]) \<and>
    set_tree t = insert p (set_tree u) \<and> item_data h2 = (item_data h)(p := item)"
proof -
  let ?h = "placed h p item"
  have u: "table_tree h (TableRoot Table) u" "increasing key h (inorder u)" "ring h os" "set os = set_tree u"
    and c: "unat (NumberGenericTableElements Table) = length os" using t by (simp_all add: table_ok_def)
  from insert_tree [OF assms(1) u(1,2) assms(3) p] obtain lf rf pf t where
    1: "push_root cmp ?h p (TableRoot Table) = Some (with_links ?h lf rf pf)"
    "table_tree (with_links ?h lf rf pf) p t" "increasing key ?h (inorder t)" "set_tree t = insert p (set_tree u)" by blast
  have "ring (with_links ?h lf rf pf) os"
    by (rule ring_cong [OF u(3)]) (use u(3) p(1) in \<open>auto simp: ring_def placed_live\<close>)
  moreover have "p \<notin> set os" using u(3) p by (auto simp: ring_def live_def)
  ultimately obtain fl bl where
    2: "append_entry Table (with_links ?h lf rf pf) (Entry p) = Some (with_ring (with_links ?h lf rf pf) fl bl)"
    "ring (with_ring (with_links ?h lf rf pf) fl bl) (os @ [p])"
    using append_entry_exact [of "with_links ?h lf rf pf" os Table p] c p(1) by (auto simp: placed_live)
  have "unat (NumberGenericTableElements Table + 1) = length (os @ [p])"
    using c n by (simp add: unat_word_ariths)
  then have "table_ok key (Table\<lparr>TableRoot := p, NumberGenericTableElements := NumberGenericTableElements Table + 1,
      WhichOrderedElement := 0, OrderedPointer := ListHead\<rparr>) (with_ring (with_links ?h lf rf pf) fl bl) t (os @ [p])"
    using 1 2(2) u(4) by (simp add: table_ok_def table_tree_def increasing_def)
  then show ?thesis using 1 2 by auto
qed

lemma insert_code:
  assumes "allocates Alloc h p" "alloc g = alloc h" "p \<noteq> 0"
  shows "Alloc g n = (p, g\<lparr>alloc := (alloc g)(p := True)\<rparr>)"
    "live (g\<lparr>alloc := (alloc g)(p := True)\<rparr>) p"
    "g\<lparr>alloc := (alloc g)(p := True), item_data := (item_data (g\<lparr>alloc := (alloc g)(p := True)\<rparr>))(p := item)\<rparr> = placed g p item"
  using assms by (simp_all add: allocates_def placed_def live_def)

text \<open>
  C3. On a table in order, \<open>RtlInsertElementGenericTable\<close> returns: the item with that key when the
  table has one (and \<open>NewElement\<close> is false), null with nothing added when the allocator fails, and
  otherwise the new block, holding the data, as the last of the list; the table is in order again.
\<close>

theorem insert_adds:
  assumes "compares cmp key" "table_ok key Table h t os" "allocates Alloc h p" "Suc (length os) < 2 ^ 32"
  shows "\<exists>q new Table' h' t' os'. RtlInsertElementGenericTable cmp Alloc Table h item n = Some (q, new, Table', h') \<and>
    table_ok key Table' h' t' os' \<and>
    (if key item \<in> keys_of key h t then
       q \<in> set_tree t \<and> key (item_data h q) = key item \<and> new = Some False \<and> os' = os \<and> item_data h' = item_data h
     else if p = 0 then q = 0 \<and> new = None \<and> os' = os \<and> item_data h' = item_data h
     else q = p \<and> new = Some True \<and> os' = os @ [p] \<and> item_data h' = (item_data h)(p := item))"
proof -
  from splay_outcome [OF assms(1,2), of item] obtain Table' g u where s: "splay cmp Table h item = Some (key item \<in> keys_of key h t, Table', g)"
    and u: "table_ok key Table' g u os" "alloc g = alloc h" "item_data g = item_data h"
    and sp: "u = Leaf \<or> (\<exists>l b r. u = Node l b r \<and> (key item \<in> keys_of key h t \<or> splits key g item l b r))"
    and f: "key item \<in> keys_of key h t \<longrightarrow> TableRoot Table' \<in> set_tree t \<and> key (item_data h (TableRoot Table')) = key item"
    by blast
  show ?thesis
  proof (cases "key item \<in> keys_of key h t")
    case True
    then show ?thesis using s u f by (simp add: RtlInsertElementGenericTable_def) blast
  next
    case new: False
    show ?thesis
    proof (cases "p = 0")
      case True
      then have "Alloc g n' = (0, g)" for n' using assms(3) u(2) by (simp add: allocates_def)
      then show ?thesis using s u(1,3) new True by (simp add: RtlInsertElementGenericTable_def) blast
    next
      case False
      have p: "p \<noteq> next_node" "\<not> alloc g p" using assms(3) False u(2) by (auto simp: allocates_def)
      have "u = Leaf \<or> (\<exists>l b r. u = Node l b r \<and> splits key g item l b r)" using sp new by blast
      from insert_step [OF assms(1) u(1) this False p assms(4)] obtain h1 h2 t' where
        "push_root cmp (placed g p item) p (TableRoot Table') = Some h1" "append_entry Table' h1 (Entry p) = Some h2"
        "table_ok key (Table'\<lparr>TableRoot := p, NumberGenericTableElements := NumberGenericTableElements Table' + 1,
           WhichOrderedElement := 0, OrderedPointer := ListHead\<rparr>) h2 t' (os @ [p])"
        "item_data h2 = (item_data g)(p := item)" by blast
      moreover note insert_code [OF assms(3) u(2) False]
      ultimately show ?thesis using s u(3) new False by (simp add: RtlInsertElementGenericTable_def) blast
    qed
  qed
qed

theorem insert_adds_witness: "\<exists>Table' h' t'. RtlInsertElementGenericTable number_compare
    (\<lambda>g n. (6, g\<lparr>alloc := (alloc g)(6 := True)\<rparr>)) two_table two_heap 15 8 = Some (6, Some True, Table', h') \<and>
    table_ok (\<lambda>x. x) Table' h' t' [4, 5, 6]"
proof -
  let ?A = "\<lambda>(g :: int table_heap) (n :: u32). (6 :: nat, g\<lparr>alloc := (alloc g)(6 := True)\<rparr>)"
  have a: "allocates ?A two_heap 6" by (simp add: allocates_def two_heap_def next_node_def)
  have n: "Suc (length [4, 5 :: nat]) < 2 ^ 32" by simp
  from insert_adds [OF number_compares two_table_ok a n, of 15 8] two_keys show ?thesis by auto
qed

section \<open>Deletion\<close>

text \<open>Below the greatest of the left subtree there is room for the right one.\<close>

lemma splay_left:
  assumes cmp: "compares cmp key" and t: "table_tree h b (Node l b r)" "increasing key h (inorder (Node l b r))"
    and l: "l \<noteq> Leaf"
  shows "\<exists>lf rf pf l' b'. splay cmp (Table\<lparr>TableRoot := left_of h b\<rparr>) h (item_data h b) =
      Some (False, Table\<lparr>TableRoot := b'\<rparr>, with_links h lf rf pf) \<and>
    tr lf rf (live h) b' (Node l' b' Leaf) \<and> inorder l' @ [b'] = inorder l \<and> rf b = right_of h b \<and>
    tr lf rf (live h) (right_of h b) r"
proof -
  have tl: "table_tree h (left_of h b) l" "increasing key h (inorder l)"
    and r: "tr (left_of h) (right_of h) (live h) (right_of h b) r"
    using t by (simp_all add: table_tree_def increasing_append)
  have less: "\<forall>x \<in> set_tree l. key (item_data h x) < key (item_data h b)" using t(2) by (simp add: increasing_append)
  have "table_tree h (TableRoot (Table\<lparr>TableRoot := left_of h b\<rparr>)) l" using tl by simp
  from splay_exact [OF cmp this l tl(2), of "item_data h b"] obtain lf rf pf found l' b' r' where
    1: "splay cmp (Table\<lparr>TableRoot := left_of h b\<rparr>) h (item_data h b) =
        Some (found, Table\<lparr>TableRoot := b'\<rparr>, with_links h lf rf pf)"
    "table_tree (with_links h lf rf pf) b' (Node l' b' r')" "inorder (Node l' b' r') = inorder l"
    "if found then key (item_data h b') = key (item_data h b) else splits key h (item_data h b) l' b' r'"
    "outside (insert next_node (set_tree l)) h lf rf" by auto
  have sub: "set_tree (Node l' b' r') = set_tree l" using 1(3) by (metis set_inorder)
  then have b': "key (item_data h b') < key (item_data h b)" and r': "\<forall>x \<in> set_tree r'. key (item_data h x) < key (item_data h b)"
    using less by auto
  have nf: "\<not> found" using 1(4) b' by (auto split: if_splits)
  then have "set_tree r' = {}" using 1(4) b' r' by (fastforce simp: splits_def)
  then have leaf: "r' = Leaf" by (cases r') auto
  have nn: "next_node \<notin> set_tree (Node l b r)" by (rule table_tree_next [OF t(1)])
  have out: "x \<notin> insert next_node (set_tree l)" if "x \<in> insert b (set_tree r)" for x
    using that nn t(1) by (auto simp: table_tree_def)
  have "tr lf rf (live h) (right_of h b) r"
    by (rule tr_same [OF r]) (use 1(5) out in \<open>auto simp: outside_def\<close>)
  moreover have "rf b = right_of h b" using 1(5) out by (simp add: outside_def)
  moreover have "tr lf rf (live h) b' (Node l' b' Leaf)" "inorder l' @ [b'] = inorder l"
    using 1(2,3) leaf by (simp_all add: table_tree_def)
  moreover have "found = False" using nf by simp
  ultimately show ?thesis using 1(1) by blast
qed

lemma drop_root_joins:
  assumes cmp: "compares cmp key" and t: "table_tree h b (Node l b r)" "increasing key h (inorder (Node l b r))"
  shows "if r = Leaf then drop_root cmp Table h b = None
    else \<exists>c lf rf pf t'. drop_root cmp Table h b = Some (Table\<lparr>TableRoot := c\<rparr>, with_links h lf rf pf) \<and>
      table_tree (with_links h lf rf pf) c t' \<and> inorder t' = inorder l @ inorder r"
proof -
  have b: "live h b" and tl: "tr (left_of h) (right_of h) (live h) (left_of h b) l"
    and tr: "tr (left_of h) (right_of h) (live h) (right_of h b) r" and d: "distinct (inorder (Node l b r))"
    and free: "\<not> alloc h next_node" using t(1) by (simp_all add: table_tree_def)
  have ptr: "left_of h b = 0 \<longleftrightarrow> l = Leaf" "r = Leaf \<Longrightarrow> right_of h b = 0" "r \<noteq> Leaf \<Longrightarrow> live h (right_of h b)"
    using tl tr by (cases l; cases r; auto simp: live_def)+
  show ?thesis
  proof (cases "l = Leaf")
    case True
    show ?thesis
    proof (cases "r = Leaf")
      case True
      then show ?thesis using b ptr \<open>l = Leaf\<close> by (simp add: drop_root_def links_with set_Parent_def live_def)
    next
      case False
      let ?g = "with_links h (left_of h) (right_of h) ((parent_of h)(right_of h b := 0))"
      have "drop_root cmp Table h b = Some (Table\<lparr>TableRoot := right_of h b\<rparr>, ?g)"
        using b ptr(1) ptr(3) [OF False] True by (simp add: drop_root_def links_with)
      moreover have "table_tree ?g (right_of h b) r" using tr d free by (simp add: table_tree_def)
      moreover have "inorder r = inorder l @ inorder r" using True by simp
      ultimately show ?thesis using False by (simp only: if_False) blast
    qed
  next
    case l: False
    from splay_left [OF cmp t l, of Table] obtain lf rf pf l' b' where
      1: "splay cmp (Table\<lparr>TableRoot := left_of h b\<rparr>) h (item_data h b) = Some (False, Table\<lparr>TableRoot := b'\<rparr>, with_links h lf rf pf)"
      "tr lf rf (live h) b' (Node l' b' Leaf)" "inorder l' @ [b'] = inorder l" "rf b = right_of h b"
      "tr lf rf (live h) (right_of h b) r" by blast
    have set: "set_tree l = insert b' (set_tree l')" using 1(3) by (metis Un_insert_right set_append set_inorder list.set sup_bot.right_neutral)
    have bb: "b' \<noteq> b" "b' \<notin> set_tree r" using d set by auto
    have l': "b' \<notin> set_tree l'" "distinct (inorder l')" "set_tree l' \<inter> set_tree r = {}"
      using d 1(3) [symmetric] by auto
    show ?thesis
    proof (cases "r = Leaf")
      case True
      then show ?thesis using b ptr(1,2) l 1(1,2,4) bb
        by (simp add: drop_root_def links_with set_Parent_def live_def)
    next
      case False
      let ?g = "with_links h lf (rf(b' := right_of h b)) (pf(right_of h b := b'))"
      have "drop_root cmp Table h b = Some (Table\<lparr>TableRoot := b'\<rparr>, ?g)"
        using b ptr(1) ptr(3) [OF False] l 1(1,2,4) bb by (simp add: drop_root_def links_with)
      moreover have "table_tree ?g b' (Node l' b' r)"
        using 1(2,5) bb l' d free by (auto simp: table_tree_def)
      moreover have "inorder (Node l' b' r) = inorder l @ inorder r" using 1(3) [symmetric] by simp
      ultimately show ?thesis using False by (simp del: inorder.simps) blast
    qed
  qed
qed

text \<open>What the code relies on of a free routine.\<close>

definition frees :: "(('d, 'z) table_heap_scheme \<Rightarrow> nat \<Rightarrow> ('d, 'z) table_heap_scheme) \<Rightarrow> bool" where
  "frees Fr \<longleftrightarrow> (\<forall>g p. Fr g p = g\<lparr>alloc := (alloc g)(p := False)\<rparr>)"

lemma table_ok_freed:
  assumes "table_ok key Table h t os" "b \<notin> set_tree t"
  shows "table_ok key Table (h\<lparr>alloc := (alloc h)(b := False)\<rparr>) t os"
proof -
  let ?h = "h\<lparr>alloc := (alloc h)(b := False)\<rparr>"
  have live: "live ?h x" if "x \<in> set_tree t" for x
    using assms that by (auto simp: table_ok_def table_tree_def live_def dest: tr_live)
  have "tr (left_of h) (right_of h) (live ?h) (TableRoot Table) t"
    using assms(1) by (auto simp: table_ok_def table_tree_def intro: tr_relive live)
  moreover have "ring ?h os" by (rule ring_cong [of h]) (use assms(1) live in \<open>auto simp: table_ok_def\<close>)
  ultimately show ?thesis using assms(1) by (simp add: table_ok_def table_tree_def increasing_def)
qed

lemma delete_step:
  assumes "compares cmp key" and t: "table_ok key Table h (Node l b r) os" and r: "r \<noteq> Leaf" and "frees Fr"
  shows "\<exists>Table1 h1 h2 t'. drop_root cmp Table h b = Some (Table1, h1) \<and>
    NumberGenericTableElements Table1 = NumberGenericTableElements Table \<and> NumberGenericTableElements Table - 1 \<noteq> 0 \<and>
    unlink_entry h1 (Entry b) = Some h2 \<and> inorder t' = inorder l @ inorder r \<and> item_data (Fr h2 b) = item_data h \<and>
    table_ok key (Table1\<lparr>NumberGenericTableElements := NumberGenericTableElements Table - 1,
      WhichOrderedElement := 0, OrderedPointer := ListHead\<rparr>) (Fr h2 b) t' (remove1 b os)"
proof -
  have u: "table_tree h b (Node l b r)" "increasing key h (inorder (Node l b r))" "ring h os" "set os = set_tree (Node l b r)"
    and c: "unat (NumberGenericTableElements Table) = length os" using t by (auto simp: table_ok_def table_tree_def)
  have "\<exists>c lf rf pf t'. drop_root cmp Table h b = Some (Table\<lparr>TableRoot := c\<rparr>, with_links h lf rf pf) \<and>
      table_tree (with_links h lf rf pf) c t' \<and> inorder t' = inorder l @ inorder r"
    using drop_root_joins [OF assms(1) u(1,2), of Table] r by (simp only: if_False)
  then obtain c lf rf pf t' where
    1: "drop_root cmp Table h b = Some (Table\<lparr>TableRoot := c\<rparr>, with_links h lf rf pf)"
    "table_tree (with_links h lf rf pf) c t'" "inorder t' = inorder l @ inorder r" by blast
  have "b \<in> set os" using u(4) by simp
  then obtain xs ys where os: "os = xs @ b # ys" "b \<notin> set xs" by (meson split_list_first)
  have "ring (with_links h lf rf pf) (xs @ b # ys)"
    by (rule ring_cong [of h]) (use u(3) os in \<open>auto simp: ring_def\<close>)
  from unlink_entry_exact [OF this] obtain fl bl where
    2: "unlink_entry (with_links h lf rf pf) (Entry b) = Some (with_ring (with_links h lf rf pf) fl bl)"
    "ring (with_ring (with_links h lf rf pf) fl bl) (remove1 b os)" using os by (auto simp: remove1_append)
  have d: "distinct os" using u(3) by (simp add: ring_def)
  have set: "set_tree t' = set_tree l \<union> set_tree r" using 1(3) by (metis set_append set_inorder)
  have b: "b \<notin> set_tree t'" using u(1) set by (auto simp: table_tree_def)
  obtain x where x: "x \<in> set_tree r" using r by (cases r) auto
  then have "x \<noteq> b" "x \<in> set os" using u(1,4) by (auto simp: table_tree_def)
  then have "length os > 1" using \<open>b \<in> set os\<close> by (cases os; cases "tl os") auto
  then have n: "unat (NumberGenericTableElements Table - 1) = length (remove1 b os)" "NumberGenericTableElements Table - 1 \<noteq> 0"
    using c \<open>b \<in> set os\<close> by (auto simp: unat_sub word_le_nat_alt length_remove1 unat_eq_0 [symmetric] simp del: unat_eq_0)
  have inc: "increasing key h (inorder t')" using u(2) 1(3) by (auto simp: increasing_append increasing_Cons)
  have "table_ok key (Table\<lparr>TableRoot := c, NumberGenericTableElements := NumberGenericTableElements Table - 1,
      WhichOrderedElement := 0, OrderedPointer := ListHead\<rparr>) (with_ring (with_links h lf rf pf) fl bl) t' (remove1 b os)"
    using 1(2) 2(2) n inc set b u(4) d by (auto simp: table_ok_def table_tree_def increasing_def)
  from table_ok_freed [OF this b] show ?thesis using 1 2(1) n(2) assms(4)
    by (intro exI [of _ "Table\<lparr>TableRoot := c\<rparr>"] exI [of _ "with_links h lf rf pf"]
        exI [of _ "with_ring (with_links h lf rf pf) fl bl"] exI [of _ t']) (simp add: frees_def)
qed

text \<open>
  C2. On a table in order, \<open>RtlDeleteElementGenericTable\<close> returns \<open>FALSE\<close> and keeps every item when the
  table has none with the key; takes the item out of the tree and out of the list, and keeps the
  table in order, when the table has a greater one; and faults, on the null right child it
  dereferences, when the item is the greatest of the table.
\<close>

theorem delete_removes:
  assumes "compares cmp key" "table_ok key Table h t os" "frees Fr"
  shows "if key item \<notin> keys_of key h t then
       \<exists>Table' h' t'. RtlDeleteElementGenericTable cmp Fr Table h item = Some (False, Table', h') \<and>
         table_ok key Table' h' t' os \<and> item_data h' = item_data h
     else if \<exists>x \<in> set_tree t. key item < key (item_data h x) then
       \<exists>b Table' h' t'. RtlDeleteElementGenericTable cmp Fr Table h item = Some (True, Table', h') \<and>
         b \<in> set_tree t \<and> key (item_data h b) = key item \<and> table_ok key Table' h' t' (remove1 b os) \<and>
         item_data h' = item_data h
     else RtlDeleteElementGenericTable cmp Fr Table h item = None"
proof -
  from splay_outcome [OF assms(1,2), of item] obtain Table' g u where
    s: "splay cmp Table h item = Some (key item \<in> keys_of key h t, Table', g)"
    and u: "table_ok key Table' g u os" "item_data g = item_data h"
    and f: "key item \<in> keys_of key h t \<longrightarrow> TableRoot Table' \<in> set_tree t \<and> key (item_data h (TableRoot Table')) = key item"
    by blast
  show ?thesis
  proof (cases "key item \<in> keys_of key h t")
    case False
    then have "RtlDeleteElementGenericTable cmp Fr Table h item = Some (False, Table', g)"
      using s by (simp add: RtlDeleteElementGenericTable_def)
    then show ?thesis using u False by (simp only: if_True not_False_eq_True) blast
  next
    case True
    let ?b = "TableRoot Table'"
    have set: "set_tree u = set_tree t" using u(1) assms(2) by (simp add: table_ok_def)
    have b: "?b \<in> set_tree t" "key (item_data h ?b) = key item" using f True by simp_all
    have "tr (left_of g) (right_of g) (live g) ?b u" using u(1) by (simp add: table_ok_def table_tree_def)
    then obtain l r where n: "u = Node l ?b r" using set b(1) by (cases u) auto
    have tu: "table_tree g ?b (Node l ?b r)" "increasing key g (inorder (Node l ?b r))"
      using u(1) n by (simp_all add: table_ok_def)
    have lt: "\<forall>x \<in> set_tree l. key (item_data h x) < key item" "\<forall>x \<in> set_tree r. key item < key (item_data h x)"
      using tu(2) b(2) u(2) by (simp_all add: increasing_append increasing_Cons)
    have greater: "(\<exists>x \<in> set_tree t. key item < key (item_data h x)) \<longleftrightarrow> r \<noteq> Leaf"
    proof -
      have "set_tree t = set_tree (Node l ?b r)" using set n by simp
      then show ?thesis using lt b(2) by (cases r) (auto dest: less_asym)
    qed
    show ?thesis
    proof (cases "r = Leaf")
      case True
      then have "drop_root cmp Table' g ?b = None" using drop_root_joins [OF assms(1) tu] by simp
      then show ?thesis using s \<open>key item \<in> keys_of key h t\<close> greater True by (simp add: RtlDeleteElementGenericTable_def)
    next
      case False
      from delete_step [OF assms(1) u(1) [unfolded n] False assms(3)] obtain Table1 h1 h2 t' where
        1: "drop_root cmp Table' g ?b = Some (Table1, h1)"
        "NumberGenericTableElements Table1 = NumberGenericTableElements Table'" "NumberGenericTableElements Table' - 1 \<noteq> 0"
        "unlink_entry h1 (Entry ?b) = Some h2" "item_data (Fr h2 ?b) = item_data g"
        "table_ok key (Table1\<lparr>NumberGenericTableElements := NumberGenericTableElements Table' - 1,
          WhichOrderedElement := 0, OrderedPointer := ListHead\<rparr>) (Fr h2 ?b) t' (remove1 ?b os)" by blast
      then have "RtlDeleteElementGenericTable cmp Fr Table h item = Some (True,
          Table1\<lparr>NumberGenericTableElements := NumberGenericTableElements Table' - 1,
            WhichOrderedElement := 0, OrderedPointer := ListHead\<rparr>, Fr h2 ?b)"
        using s True by (simp add: RtlDeleteElementGenericTable_def)
      moreover have "item_data (Fr h2 ?b) = item_data h" using 1(5) u(2) by simp
      ultimately have ex: "\<exists>b Table' h' t'. RtlDeleteElementGenericTable cmp Fr Table h item = Some (True, Table', h') \<and>
          b \<in> set_tree t \<and> key (item_data h b) = key item \<and> table_ok key Table' h' t' (remove1 b os) \<and>
          item_data h' = item_data h" using 1(6) b by blast
      show ?thesis using True False greater by (simp only: ex if_True if_False not_True_eq_False simp_thms)
    qed
  qed
qed

theorem delete_removes_witness:
  "(\<exists>Table' h'. RtlDeleteElementGenericTable number_compare (\<lambda>g p. g\<lparr>alloc := (alloc g)(p := False)\<rparr>)
      two_table two_heap 10 = Some (True, Table', h')) \<and>
   RtlDeleteElementGenericTable number_compare (\<lambda>g p. g\<lparr>alloc := (alloc g)(p := False)\<rparr>) two_table two_heap 20 = None"
proof -
  let ?F = "\<lambda>(g :: int table_heap) (p :: nat). g\<lparr>alloc := (alloc g)(p := False)\<rparr>"
  have f: "frees ?F" by (simp add: frees_def)
  have g: "(\<exists>x \<in> set_tree (Node (Node Leaf 4 Leaf) 5 Leaf). (k :: int) < item_data two_heap x) \<longleftrightarrow> k < 20" for k
    by (auto simp: two_heap_def)
  show ?thesis
    using delete_removes [OF number_compares two_table_ok f, of 10, unfolded two_keys g]
      delete_removes [OF number_compares two_table_ok f, of 20, unfolded two_keys g] by auto
qed

end
