(* ===== verification/Avl_Links.thy ===== *)
theory Avl_Links
  imports Splay_Links
begin

text \<open>
  The AVL algorithms of \<^verbatim>\<open>libs/ntdll/c/avlsupp.c\<close> with the glue of \<^verbatim>\<open>rtlavl.h\<close>, on a link
  heap with a balance per node.  The whole tree hangs below the right link of the node
  \<^verbatim>\<open>BalancedRoot\<close>, which is embedded in the table and is its own parent; \<^verbatim>\<open>Balance\<close> only ever
  holds the constants below and their negations.
\<close>

section \<open>Data\<close>

datatype AVL_COMPARE_RESULTS = LessThan | GreaterThan | EqualTo
  \<comment> \<open>\<^verbatim>\<open>GenericEqual\<close> and every other value: the code only asserts equality\<close>

datatype TABLE_SEARCH_RESULT = TableEmptyTree | TableFoundNode | TableInsertAsLeft | TableInsertAsRight

record 'd avl_heap = links +
  Balance :: "nat \<Rightarrow> int"
  UserData :: "nat \<Rightarrow> 'd"

record RTL_AVL_TABLE =
  BalancedRoot :: nat
  OrderedPointer :: nat
  WhichOrderedElement :: u32
  NumberGenericTableElements :: u32
  DepthOfTree :: u32
  RestartKey :: nat
  DeleteCount :: u32

definition RtlUnbalancedAvlTree :: int where "RtlUnbalancedAvlTree = -2"
definition RtlLeftHeavyAvlTree :: int where "RtlLeftHeavyAvlTree = -1"
definition RtlBalancedAvlTree :: int where "RtlBalancedAvlTree = 0"
definition RtlRightHeavyAvlTree :: int where "RtlRightHeavyAvlTree = 1"

lemmas avl_balance = RtlUnbalancedAvlTree_def RtlLeftHeavyAvlTree_def RtlBalancedAvlTree_def
  RtlRightHeavyAvlTree_def

definition RtlSetBalance :: "('d, 'z) avl_heap_scheme \<Rightarrow> nat \<Rightarrow> int \<Rightarrow> ('d, 'z) avl_heap_scheme option" where
  "RtlSetBalance h p b = (if live h p then Some (h\<lparr>Balance := (Balance h)(p := b)\<rparr>) else None)"

definition RtlBalance :: "('d, 'z) avl_heap_scheme \<Rightarrow> nat \<Rightarrow> int option" where
  "RtlBalance h p = (if live h p then Some (Balance h p) else None)"

definition user_data :: "('d, 'z) avl_heap_scheme \<Rightarrow> nat \<Rightarrow> 'd option" where
  "user_data h p = (if live h p then Some (UserData h p) else None)"

definition RtlpCopyAvlNodeData ::
  "('d, 'z) avl_heap_scheme \<Rightarrow> nat \<Rightarrow> nat \<Rightarrow> ('d, 'z) avl_heap_scheme option" where
  "RtlpCopyAvlNodeData h Node1 Node2 = do {
     t \<leftarrow> load_links h Node2;
     b \<leftarrow> RtlBalance h Node2;
     h \<leftarrow> store_links h Node1 t;
     RtlSetBalance h Node1 b
   }"

text \<open>A \<^verbatim>\<open>PRTL_BALANCED_LINKS *\<close> into a node: the node, and whether it is the left link.\<close>

type_synonym link_ref = "nat \<times> bool"

definition get_link :: "'z links_scheme \<Rightarrow> link_ref \<Rightarrow> nat option" where
  "get_link h ref = (if snd ref then RtlLeftChild h (fst ref) else RtlRightChild h (fst ref))"

definition set_link :: "'z links_scheme \<Rightarrow> link_ref \<Rightarrow> nat \<Rightarrow> 'z links_scheme option" where
  "set_link h ref v = (if snd ref then set_LeftChild h (fst ref) v else set_RightChild h (fst ref) v)"

section \<open>Search\<close>

partial_function (option) find_down ::
  "('d \<Rightarrow> 'd \<Rightarrow> AVL_COMPARE_RESULTS) \<Rightarrow> 'd \<Rightarrow> ('d, 'z) avl_heap_scheme \<Rightarrow> nat \<Rightarrow>
     (TABLE_SEARCH_RESULT \<times> nat) option" where
  "find_down cmp Buffer h CurrentNode = do {
     d \<leftarrow> user_data h CurrentNode;
     let Result = cmp Buffer d;
     if Result = LessThan then do {
       ChildNode \<leftarrow> RtlLeftChild h CurrentNode;
       if ChildNode \<noteq> 0 then find_down cmp Buffer h ChildNode else Some (TableInsertAsLeft, CurrentNode)
     }
     else if Result = GreaterThan then do {
       ChildNode \<leftarrow> RtlRightChild h CurrentNode;
       if ChildNode \<noteq> 0 then find_down cmp Buffer h ChildNode else Some (TableInsertAsRight, CurrentNode)
     }
     else Some (TableFoundNode, CurrentNode)
   }"

text \<open>The second component is \<^verbatim>\<open>*NodeOrParent\<close>, which an empty table leaves as it was.\<close>

definition RtlpFindAvlTableNodeOrParent ::
  "('d \<Rightarrow> 'd \<Rightarrow> AVL_COMPARE_RESULTS) \<Rightarrow> RTL_AVL_TABLE \<Rightarrow> ('d, 'z) avl_heap_scheme \<Rightarrow> 'd \<Rightarrow> nat \<Rightarrow>
     (TABLE_SEARCH_RESULT \<times> nat) option" where
  "RtlpFindAvlTableNodeOrParent cmp Table h Buffer NodeOrParent =
     (if NumberGenericTableElements Table = 0 then Some (TableEmptyTree, NodeOrParent)
      else do {
        CurrentNode \<leftarrow> RtlRightChild h (BalancedRoot Table);
        find_down cmp Buffer h CurrentNode
      })"

section \<open>Rotation\<close>

definition RtlpPromoteAvlTreeNode :: "'z links_scheme \<Rightarrow> nat \<Rightarrow> 'z links_scheme option" where
  "RtlpPromoteAvlTreeNode h N = do {
     ParentNode \<leftarrow> RtlParent h N;
     SuperParentNode \<leftarrow> RtlParent h ParentNode;
     isleft \<leftarrow> RtlIsLeftChild h N;
     let SwapNode1 = (ParentNode, isleft);
     let SwapNode2 = (N, \<not> isleft);
     v \<leftarrow> get_link h SwapNode2;
     h \<leftarrow> set_link h SwapNode1 v;
     v \<leftarrow> get_link h SwapNode1;
     h \<leftarrow> (if v \<noteq> 0 then set_Parent h v ParentNode else Some h);
     h \<leftarrow> set_link h SwapNode2 ParentNode;
     h \<leftarrow> set_Parent h ParentNode N;
     l \<leftarrow> RtlLeftChild h SuperParentNode;
     let SwapNode1 = (SuperParentNode, l = ParentNode);
     h \<leftarrow> set_link h SwapNode1 N;
     set_Parent h N SuperParentNode
   }"

text \<open>The result tells whether a deletion can stop.\<close>

definition RtlpRebalanceAvlTreeNode ::
  "('d, 'z) avl_heap_scheme \<Rightarrow> nat \<Rightarrow> (bool \<times> ('d, 'z) avl_heap_scheme) option" where
  "RtlpRebalanceAvlTreeNode h N = do {
     bal \<leftarrow> RtlBalance h N;
     ChildNode \<leftarrow> (if bal = RtlRightHeavyAvlTree then RtlRightChild h N else RtlLeftChild h N);
     cb \<leftarrow> RtlBalance h ChildNode;
     if cb = bal then do {
       h \<leftarrow> RtlpPromoteAvlTreeNode h ChildNode;
       h \<leftarrow> RtlSetBalance h ChildNode RtlBalancedAvlTree;
       h \<leftarrow> RtlSetBalance h N RtlBalancedAvlTree;
       Some (False, h)
     }
     else if cb = - bal then do {
       SubChildNode \<leftarrow> (if bal = RtlRightHeavyAvlTree then RtlLeftChild h ChildNode
                        else RtlRightChild h ChildNode);
       h \<leftarrow> RtlpPromoteAvlTreeNode h SubChildNode;
       h \<leftarrow> RtlpPromoteAvlTreeNode h SubChildNode;
       sb \<leftarrow> RtlBalance h SubChildNode;
       h \<leftarrow> (if sb = bal then do {
                h \<leftarrow> RtlSetBalance h ChildNode RtlBalancedAvlTree;
                RtlSetBalance h N (- bal)
              }
              else if sb = - bal then do {
                h \<leftarrow> RtlSetBalance h ChildNode bal;
                RtlSetBalance h N RtlBalancedAvlTree
              }
              else do {
                h \<leftarrow> RtlSetBalance h ChildNode RtlBalancedAvlTree;
                RtlSetBalance h N RtlBalancedAvlTree
              });
       h \<leftarrow> RtlSetBalance h SubChildNode RtlBalancedAvlTree;
       Some (False, h)
     }
     else do {
       h \<leftarrow> RtlpPromoteAvlTreeNode h ChildNode;
       h \<leftarrow> RtlSetBalance h ChildNode (- bal);
       Some (True, h)
     }
   }"

section \<open>Insertion\<close>

text \<open>The climb after an insertion; the result is the heap and whether the depth grew.\<close>

partial_function (option) insert_climb ::
  "nat \<Rightarrow> ('d, 'z) avl_heap_scheme \<Rightarrow> nat \<Rightarrow> nat \<Rightarrow> (bool \<times> ('d, 'z) avl_heap_scheme) option" where
  "insert_climb Root h NewNode NodeOrParent = do {
     isleft \<leftarrow> RtlIsLeftChild h NewNode;
     let bal = (if isleft then RtlLeftHeavyAvlTree else RtlRightHeavyAvlTree);
     pb \<leftarrow> RtlBalance h NodeOrParent;
     if pb = RtlBalancedAvlTree then do {
       h \<leftarrow> RtlSetBalance h NodeOrParent bal;
       next \<leftarrow> RtlParent h NodeOrParent;
       insert_climb Root h NodeOrParent next
     }
     else if pb \<noteq> bal then do {
       h \<leftarrow> RtlSetBalance h NodeOrParent RtlBalancedAvlTree;
       rb \<leftarrow> RtlBalance h Root;
       Some (rb = RtlBalancedAvlTree, h)
     }
     else do {
       (done, h) \<leftarrow> RtlpRebalanceAvlTreeNode h NodeOrParent;
       Some (False, h)
     }
   }"

definition RtlpInsertAvlTreeNode ::
  "RTL_AVL_TABLE \<Rightarrow> ('d, 'z) avl_heap_scheme \<Rightarrow> nat \<Rightarrow> nat \<Rightarrow> TABLE_SEARCH_RESULT \<Rightarrow>
     (RTL_AVL_TABLE \<times> ('d, 'z) avl_heap_scheme) option" where
  "RtlpInsertAvlTreeNode Table h NewNode NodeOrParent SearchResult = do {
     h \<leftarrow> set_RightChild h NewNode 0;
     h \<leftarrow> set_LeftChild h NewNode 0;
     h \<leftarrow> RtlSetBalance h NewNode RtlBalancedAvlTree;
     let Table = Table\<lparr>NumberGenericTableElements := NumberGenericTableElements Table + 1\<rparr>;
     if SearchResult = TableEmptyTree then do {
       h \<leftarrow> RtlInsertAsRightChild h (BalancedRoot Table) NewNode;
       Some (Table\<lparr>DepthOfTree := 1\<rparr>, h)
     }
     else do {
       h \<leftarrow> (if SearchResult = TableInsertAsLeft then RtlInsertAsLeftChild h NodeOrParent NewNode
             else RtlInsertAsRightChild h NodeOrParent NewNode);
       h \<leftarrow> RtlSetBalance h (BalancedRoot Table) RtlLeftHeavyAvlTree;
       (deeper, h) \<leftarrow> insert_climb (BalancedRoot Table) h NewNode NodeOrParent;
       Some (if deeper then Table\<lparr>DepthOfTree := DepthOfTree Table + 1\<rparr> else Table, h)
     }
   }"

section \<open>Deletion\<close>

text \<open>The climb after a deletion; the result is whether a level was lost, and the heap.\<close>

partial_function (option) delete_climb ::
  "nat \<Rightarrow> ('d, 'z) avl_heap_scheme \<Rightarrow> nat \<Rightarrow> int \<Rightarrow> (bool \<times> ('d, 'z) avl_heap_scheme) option" where
  "delete_climb Root h ParentNode bal = do {
     pb \<leftarrow> RtlBalance h ParentNode;
     (stop, ParentNode, h, lost) \<leftarrow>
       (if pb = bal then do {
          h \<leftarrow> RtlSetBalance h ParentNode RtlBalancedAvlTree;
          Some (False, ParentNode, h, False)
        }
        else if pb = RtlBalancedAvlTree then do {
          h \<leftarrow> RtlSetBalance h ParentNode (- bal);
          rb \<leftarrow> RtlBalance h Root;
          Some (True, ParentNode, h, rb \<noteq> RtlBalancedAvlTree)
        }
        else do {
          (done, h) \<leftarrow> RtlpRebalanceAvlTreeNode h ParentNode;
          if done then Some (True, ParentNode, h, False)
          else do { p \<leftarrow> RtlParent h ParentNode; Some (False, p, h, False) }
        });
     if stop then Some (lost, h)
     else do {
       isright \<leftarrow> RtlIsRightChild h ParentNode;
       let bal = (if isright then RtlRightHeavyAvlTree else RtlLeftHeavyAvlTree);
       p \<leftarrow> RtlParent h ParentNode;
       delete_climb Root h p bal
     }
   }"

definition pick_delete_node :: "('d, 'z) avl_heap_scheme \<Rightarrow> nat \<Rightarrow> nat option" where
  "pick_delete_node h N = do {
     l \<leftarrow> RtlLeftChild h N;
     r \<leftarrow> RtlRightChild h N;
     if l = 0 \<or> r = 0 then Some N
     else do {
       b \<leftarrow> RtlBalance h N;
       if b \<ge> RtlBalancedAvlTree then leftmost h r else rightmost h l
     }
   }"

definition RtlpDeleteAvlTreeNode ::
  "RTL_AVL_TABLE \<Rightarrow> ('d, 'z) avl_heap_scheme \<Rightarrow> nat \<Rightarrow> (RTL_AVL_TABLE \<times> ('d, 'z) avl_heap_scheme) option" where
  "RtlpDeleteAvlTreeNode Table h N = do {
     DeleteNode \<leftarrow> pick_delete_node h N;
     ParentNode \<leftarrow> RtlParent h DeleteNode;
     l \<leftarrow> RtlLeftChild h DeleteNode;
     let Node1 = (DeleteNode, l \<noteq> 0);
     isleft \<leftarrow> RtlIsLeftChild h DeleteNode;
     let Node2 = (ParentNode, isleft);
     let bal = (if isleft then RtlLeftHeavyAvlTree else RtlRightHeavyAvlTree);
     v \<leftarrow> get_link h Node1;
     h \<leftarrow> set_link h Node2 v;
     v \<leftarrow> get_link h Node1;
     h \<leftarrow> (if v \<noteq> 0 then set_Parent h v ParentNode else Some h);
     h \<leftarrow> RtlSetBalance h (BalancedRoot Table) RtlBalancedAvlTree;
     (lost, h) \<leftarrow> delete_climb (BalancedRoot Table) h ParentNode bal;
     let Table = (if lost then Table\<lparr>DepthOfTree := DepthOfTree Table - 1\<rparr> else Table);
     if N = DeleteNode then Some (Table, h)
     else do {
       h \<leftarrow> RtlpCopyAvlNodeData h DeleteNode N;
       isleft \<leftarrow> RtlIsLeftChild h N;
       p \<leftarrow> RtlParent h DeleteNode;
       h \<leftarrow> set_link h (p, isleft) DeleteNode;
       l \<leftarrow> RtlLeftChild h DeleteNode;
       h \<leftarrow> (if l \<noteq> 0 then set_Parent h l DeleteNode else Some h);
       r \<leftarrow> RtlRightChild h DeleteNode;
       h \<leftarrow> (if r \<noteq> 0 then set_Parent h r DeleteNode else Some h);
       Some (Table, h)
     }
   }"

end
