(* ===== verification/Avl_Rotation.thy ===== *)
theory Avl_Rotation
  imports Avl_Links Splay_Spec
begin

text \<open>
  The rotations of \<^verbatim>\<open>avlsupp.c\<close> on trees in the heap: what promoting a node does, and how a
  rebalanced node changes height and balances.
\<close>

section \<open>Heaps with other links\<close>

text \<open>The links have changed and nothing else.\<close>

definition relinked :: "'z links_scheme \<Rightarrow> 'z links_scheme \<Rightarrow> bool" where
  "relinked h h' \<longleftrightarrow> alloc h' = alloc h \<and> links.more h' = links.more h"

lemma relinked_refl [simp]: "relinked h h"
  by (simp add: relinked_def)

lemma relinked_trans: "relinked h h' \<Longrightarrow> relinked h' h'' \<Longrightarrow> relinked h h''"
  by (simp add: relinked_def)

lemma relinked_live: "relinked h h' \<Longrightarrow> live h' x = live h x"
  by (simp add: relinked_def live_def)

lemma relinked_fields:
  fixes h h' :: "('d, 'z) avl_heap_scheme"
  shows "relinked h h' \<Longrightarrow> Balance h' = Balance h \<and> UserData h' = UserData h"
  by (cases h; cases h') (simp add: relinked_def)

section \<open>One rotation\<close>

text \<open>A node \<open>n\<close> below \<open>p\<close> in the context \<open>c\<close>, with the three subtrees \<open>ts\<close>.\<close>

definition pivot :: "'z links_scheme \<Rightarrow> nat \<Rightarrow> nat \<Rightarrow> frame list \<Rightarrow> (nat \<times> nat \<times> nat tree) list \<Rightarrow> bool" where
  "pivot h n p c ts \<longleftrightarrow> is_ctx h c p (parent_of h p) \<and> forest h ts ({n, p} \<union> set (frame_list c)) \<and>
     distinct (n # p # frame_list c)"

lemma pivot_facts:
  assumes "pivot h n p c ts" "c \<noteq> []"
  shows "live h n" "live h p" "n \<noteq> p" "live h (parent_of h p)" "parent_of h p \<noteq> p" "parent_of h p \<noteq> n"
    "left_of h (parent_of h p) = p \<or> right_of h (parent_of h p) = p"
proof -
  have c: "is_ctx h c p (parent_of h p)" and l: "live h n" "live h p" and d: "distinct (n # p # frame_list c)"
    using assms by (auto simp: pivot_def forest_def)
  show "live h n" "live h p" "n \<noteq> p" using l d by auto
  have p: "p \<notin> set (frame_list c)" using d by simp
  show "live h (parent_of h p)" "parent_of h p \<noteq> p" "parent_of h p \<noteq> n"
    using ctx_parent [OF c l(2) p] assms(2) d by auto
  show "left_of h (parent_of h p) = p \<or> right_of h (parent_of h p) = p"
    using c assms(2) by (cases c; cases "hd c") auto
qed

lemma pivot_turned:
  assumes "pivot h n p c ts" and live: "\<And>x. live h' x = live h x"
    and kids: "\<And>x. x \<notin> {n, p} \<Longrightarrow> left_of h' x = placed_left (parent_of h) (left_of h) n p x \<and>
      right_of h' x = placed_right (parent_of h) (left_of h) (right_of h) n p x"
    and par: "\<And>x. x \<notin> {n, p} \<Longrightarrow> x \<notin> (\<lambda>(q, p, t). p) ` set ts \<Longrightarrow> parent_of h' x = parent_of h x"
    and top: "parent_of h' n = parent_of h p" and ne: "c \<noteq> []"
  shows "is_ctx h' c n (parent_of h' n)"
    and "(q, a, t) \<in> set ts \<Longrightarrow> (a \<noteq> 0 \<Longrightarrow> parent_of h' a = q') \<Longrightarrow> is_tree h' q' a t"
proof -
  let ?S = "{n, p} \<union> set (frame_list c)"
  have c: "is_ctx h c p (parent_of h p)" and F: "forest h ts ?S" and d: "distinct (n # p # frame_list c)"
    using assms(1) by (auto simp: pivot_def)
  note pf = pivot_facts [OF assms(1) ne]
  have fr: "x \<notin> {n, p}" "x \<notin> (\<lambda>(q, p, t). p) ` set ts" "live h x" if "x \<in> set (frame_list c)" for x
  proof -
    show "x \<notin> (\<lambda>(q, p, t). p) ` set ts" by (rule forest_ctx [OF c _ F that]) blast
  qed (use that d is_ctx_live [OF c that] in auto)
  have "is_ctx h' c n (if c = [] then n else parent_of h p)"
    by (rule placed_refills [OF c pf(2), of "left_of h" "right_of h" "parent_of h"])
      (use d fr in \<open>simp_all add: live kids par\<close>)
  then show "is_ctx h' c n (parent_of h' n)" using ne top by simp
  show "is_tree h' q' a t" if "(q, a, t) \<in> set ts" "a \<noteq> 0 \<Longrightarrow> parent_of h' a = q'"
  proof (rule forest_moved [OF F that])
    have G: "parent_of h p \<in> ?S" using ctx_parent(3) [OF c pf(2)] d ne by auto
    show "left_of h' x = left_of h x \<and> right_of h' x = right_of h x" if "x \<notin> ?S" for x
    proof -
      have "x \<noteq> parent_of h p" using that G by auto
      then show ?thesis using that kids [of x] by (simp add: placed_other)
    qed
  qed (use live par in auto)
qed

lemma focus_pivot:
  assumes "focus h (f # c) l n r"
  defines "side \<equiv> case f of FL p b \<Rightarrow> (p, b) | FR b p \<Rightarrow> (p, b)"
    and "other \<equiv> case f of FL p b \<Rightarrow> right_of h p | FR b p \<Rightarrow> left_of h p"
  shows "pivot h n (fst side) c [(n, left_of h n, l), (n, right_of h n, r), (fst side, other, snd side)]"
    "parent_of h n = fst side"
  using assms(1) unfolding focus_def pivot_def forest_def side_def other_def
  by (cases f; auto dest: is_ctx_live)+

lemma pivot_subtrees:
  assumes "pivot h n p c [(n, a1, t1), (n, a2, t2), (p, a3, t3)]"
  shows "a1 \<noteq> n" "a1 \<noteq> p" "a2 \<noteq> n" "a2 \<noteq> p" "a3 \<noteq> n" "a3 \<noteq> p" "ptrs_differ [a1, a2, a3]"
    "a1 \<noteq> 0 \<longrightarrow> parent_of h a1 = n" "a2 \<noteq> 0 \<longrightarrow> parent_of h a2 = n" "a3 \<noteq> 0 \<longrightarrow> parent_of h a3 = p"
    "a1 = 0 \<or> live h a1" "a2 = 0 \<or> live h a2" "a3 = 0 \<or> live h a3"
    "a1 \<noteq> 0 \<Longrightarrow> a1 \<notin> set (frame_list c)" "a2 \<noteq> 0 \<Longrightarrow> a2 \<notin> set (frame_list c)"
proof -
  have F: "forest h [(n, a1, t1), (n, a2, t2), (p, a3, t3)] ({n, p} \<union> set (frame_list c))"
    using assms by (simp add: pivot_def)
  show "ptrs_differ [a1, a2, a3]" using forest_ptrs_differ [OF F] by simp
  show "a1 \<noteq> n" "a1 \<noteq> p" "a2 \<noteq> n" "a2 \<noteq> p" "a3 \<noteq> n" "a3 \<noteq> p"
    "a1 = 0 \<or> live h a1" "a2 = 0 \<or> live h a2" "a3 = 0 \<or> live h a3"
    "a1 \<noteq> 0 \<Longrightarrow> a1 \<notin> set (frame_list c)" "a2 \<noteq> 0 \<Longrightarrow> a2 \<notin> set (frame_list c)"
    using forest_ptrs [OF F] by simp_all
  show "a1 \<noteq> 0 \<longrightarrow> parent_of h a1 = n" "a2 \<noteq> 0 \<longrightarrow> parent_of h a2 = n" "a3 \<noteq> 0 \<longrightarrow> parent_of h a3 = p"
    using forest_parents [OF F] by simp_all
qed

text \<open>Promoting a node, field by field.\<close>

lemma promote_eq:
  assumes "live h n" "live h p" "live h G" "parent_of h n = p" "parent_of h p = G" "n \<noteq> p" "G \<noteq> n" "G \<noteq> p"
  defines "rn \<equiv> right_of h n" and "ln \<equiv> left_of h n"
  shows "left_of h p = n \<Longrightarrow> rn = 0 \<or> live h rn \<Longrightarrow> RtlpPromoteAvlTreeNode h n = Some (h\<lparr>
      parent_of := (reparent (parent_of h) rn p)(p := n, n := G),
      left_of := placed_left (parent_of h) ((left_of h)(p := rn)) n p,
      right_of := placed_right (parent_of h) ((left_of h)(p := rn)) ((right_of h)(n := p)) n p\<rparr>)"
    and "left_of h p \<noteq> n \<Longrightarrow> ln = 0 \<or> live h ln \<Longrightarrow> RtlpPromoteAvlTreeNode h n = Some (h\<lparr>
      parent_of := (reparent (parent_of h) ln p)(p := n, n := G),
      left_of := placed_left (parent_of h) ((left_of h)(n := p)) n p,
      right_of := placed_right (parent_of h) ((left_of h)(n := p)) ((right_of h)(p := ln)) n p\<rparr>)"
  using assms
  by (cases "left_of h G = p"; cases "rn = 0"; cases "ln = 0";
      simp add: RtlpPromoteAvlTreeNode_def links_access get_link_def set_link_def placed_left_def
        placed_right_def reparent_def)+

lemma promote_left:
  assumes "focus h (FL p b # c) l n r" "c \<noteq> []"
  shows "\<exists>h'. RtlpPromoteAvlTreeNode h n = Some h' \<and> relinked h h' \<and> focus h' c l n (Node r p b) \<and> parent_of h' p = n"
proof -
  let ?ln = "left_of h n" and ?rn = "right_of h n" and ?x = "right_of h p" and ?G = "parent_of h p"
  have H: "pivot h n p c [(n, ?ln, l), (n, ?rn, r), (p, ?x, b)]" "parent_of h n = p"
    using focus_pivot [OF assms(1)] by simp_all
  have lp: "left_of h p = n" using assms(1) by (simp add: focus_def)
  note pf = pivot_facts [OF H(1) assms(2)] and hs = pivot_subtrees [OF H(1)]
  have sib: "?x \<noteq> n \<and> ?rn \<noteq> p" using hs by simp
  obtain h' where run: "RtlpPromoteAvlTreeNode h n = Some h'" and live: "\<And>x. live h' x = live h x" and re: "relinked h h'"
    and h': "parent_of h' = (reparent (parent_of h) ?rn p)(p := n, n := ?G)"
      "left_of h' = placed_left (parent_of h) ((left_of h)(p := ?rn)) n p"
      "right_of h' = placed_right (parent_of h) ((left_of h)(p := ?rn)) ((right_of h)(n := p)) n p"
    by (rule that [OF promote_eq(1) [OF pf(1,2,4) H(2) refl pf(3,6,5) lp]]) (use hs in \<open>simp_all add: relinked_def\<close>)
  have pl: "placed_left (parent_of h) ((left_of h)(p := ?rn)) n p x = (if x = p then ?rn else placed_left (parent_of h) (left_of h) n p x)"
    "placed_right (parent_of h) ((left_of h)(p := ?rn)) ((right_of h)(n := p)) n p x
      = (if x = n then p else placed_right (parent_of h) (left_of h) (right_of h) n p x)" for x
    using pf(3-6) by (auto simp: placed_left_def placed_right_def)
  have kids: "left_of h' n = ?ln" "right_of h' n = p" "left_of h' p = ?rn" "right_of h' p = ?x" "parent_of h' p = n" "parent_of h' n = ?G"
    using pf(3-6) by (simp_all add: h' pl) (simp_all add: placed_left_def placed_right_def)
  have T: "is_ctx h' c n (parent_of h' n)"
    "\<And>q a t q'. (q, a, t) \<in> set [(n, ?ln, l), (n, ?rn, r), (p, ?x, b)] \<Longrightarrow> (a \<noteq> 0 \<Longrightarrow> parent_of h' a = q') \<Longrightarrow> is_tree h' q' a t"
    by (rule pivot_turned [OF H(1) live _ _ _ assms(2)]; simp add: h' pl reparent_apply kids(6) pf(3))+
  have "is_tree h' n ?ln l" by (rule T(2) [of n]) (use hs pf(3) in \<open>simp_all add: h' reparent_apply\<close>)
  moreover have "is_tree h' p ?rn r" by (rule T(2) [of n]) (use hs pf(3) in \<open>simp_all add: h' reparent_apply\<close>)
  moreover have "is_tree h' p ?x b" by (rule T(2) [of p]) (use hs pf(3) in \<open>simp_all add: h' reparent_apply\<close>)
  ultimately have "focus h' c l n (Node r p b)"
    using kids T(1) pf(1-3) live assms(1) by (auto simp: focus_def)
  then show ?thesis using run re kids(5) by blast
qed

lemma promote_right:
  assumes "focus h (FR b p # c) l n r" "c \<noteq> []"
  shows "\<exists>h'. RtlpPromoteAvlTreeNode h n = Some h' \<and> relinked h h' \<and> focus h' c (Node b p l) n r \<and> parent_of h' p = n"
proof -
  let ?ln = "left_of h n" and ?rn = "right_of h n" and ?x = "left_of h p" and ?G = "parent_of h p"
  have H: "pivot h n p c [(n, ?ln, l), (n, ?rn, r), (p, ?x, b)]" "parent_of h n = p"
    using focus_pivot [OF assms(1)] by simp_all
  note pf = pivot_facts [OF H(1) assms(2)] and hs = pivot_subtrees [OF H(1)]
  have hs0: "?x \<noteq> n" using hs by simp
  have lp: "left_of h p \<noteq> n" "right_of h p = n" using hs0 assms(1) by (simp_all add: focus_def)
  have sib: "?x \<noteq> n \<and> ?ln \<noteq> p" using hs by simp
  obtain h' where run: "RtlpPromoteAvlTreeNode h n = Some h'" and live: "\<And>x. live h' x = live h x" and re: "relinked h h'"
    and h': "parent_of h' = (reparent (parent_of h) ?ln p)(p := n, n := ?G)"
      "left_of h' = placed_left (parent_of h) ((left_of h)(n := p)) n p"
      "right_of h' = placed_right (parent_of h) ((left_of h)(n := p)) ((right_of h)(p := ?ln)) n p"
    by (rule that [OF promote_eq(2) [OF pf(1,2,4) H(2) refl pf(3,6,5) lp(1)]]) (use hs in \<open>simp_all add: relinked_def\<close>)
  have pl: "placed_left (parent_of h) ((left_of h)(n := p)) n p x = (if x = n then p else placed_left (parent_of h) (left_of h) n p x)"
    "placed_right (parent_of h) ((left_of h)(n := p)) ((right_of h)(p := ?ln)) n p x
      = (if x = p then ?ln else placed_right (parent_of h) (left_of h) (right_of h) n p x)" for x
    using pf(3-6) by (auto simp: placed_left_def placed_right_def)
  have kids: "left_of h' n = p" "right_of h' n = ?rn" "left_of h' p = ?x" "right_of h' p = ?ln" "parent_of h' p = n" "parent_of h' n = ?G"
    using pf(3-6) by (simp_all add: h' pl) (simp_all add: placed_left_def placed_right_def)
  have T: "is_ctx h' c n (parent_of h' n)"
    "\<And>q a t q'. (q, a, t) \<in> set [(n, ?ln, l), (n, ?rn, r), (p, ?x, b)] \<Longrightarrow> (a \<noteq> 0 \<Longrightarrow> parent_of h' a = q') \<Longrightarrow> is_tree h' q' a t"
    by (rule pivot_turned [OF H(1) live _ _ _ assms(2)]; simp add: h' pl reparent_apply kids(6) pf(3))+
  have "is_tree h' p ?ln l" by (rule T(2) [of n]) (use hs pf(3) in \<open>simp_all add: h' reparent_apply\<close>)
  moreover have "is_tree h' n ?rn r" by (rule T(2) [of n]) (use hs pf(3) in \<open>simp_all add: h' reparent_apply\<close>)
  moreover have "is_tree h' p ?x b" by (rule T(2) [of p]) (use hs pf(3) in \<open>simp_all add: h' reparent_apply\<close>)
  ultimately have "focus h' c (Node b p l) n r"
    using kids T(1) pf(1-3) live assms(1) by (auto simp: focus_def)
  then show ?thesis using run re kids(5) by blast
qed

section \<open>Balances\<close>

text \<open>A balance is the height of the right subtree less that of the left one, and at most one.\<close>

fun avl :: "(nat \<Rightarrow> int) \<Rightarrow> nat tree \<Rightarrow> bool" where
  "avl b Leaf \<longleftrightarrow> True"
| "avl b (Node l a r) \<longleftrightarrow> b a = int (height r) - int (height l) \<and> \<bar>int (height r) - int (height l)\<bar> \<le> 1 \<and> avl b l \<and> avl b r"

lemma avl_cong: "(\<And>a. a \<in> set_tree t \<Longrightarrow> b' a = b a) \<Longrightarrow> avl b' t = avl b t"
  by (induction t) auto

lemma avl_same: "avl b t \<Longrightarrow> (\<And>a. a \<in> set_tree t \<Longrightarrow> b' a = b a) \<Longrightarrow> avl b' t"
  using avl_cong by blast

lemma live_Balance [simp]: "live (h\<lparr>Balance := f\<rparr>) x = live h x"
  by (simp add: live_def)

lemma is_tree_Balance [simp]: "is_tree (h\<lparr>Balance := f\<rparr>) q p t = is_tree h q p t"
  by (induction t arbitrary: q p) auto

lemma is_ctx_Balance [simp]: "is_ctx (h\<lparr>Balance := f\<rparr>) c p q = is_ctx h c p q"
  by (induction c arbitrary: p q rule: frame_list.induct) auto

lemma focus_Balance [simp]: "focus (h\<lparr>Balance := f\<rparr>) c l n r = focus h c l n r"
  by (simp add: focus_def)

lemma RtlBalance_live: "live h p \<Longrightarrow> RtlBalance h p = Some (Balance h p)"
  "live h p \<Longrightarrow> RtlSetBalance h p v = Some (h\<lparr>Balance := (Balance h)(p := v)\<rparr>)"
  by (simp_all add: RtlBalance_def RtlSetBalance_def)

lemmas avl_access = links_access RtlBalance_live

lemma focus_down:
  "focus h c (Node a m b) n r = focus h (FL n r # c) a m b"
  "focus h c l n (Node a m b) = focus h (FR l n # c) a m b"
  by (simp_all add: focus_plug)

lemma focus_live:
  assumes "focus h c l n r"
  shows "live h n" "l = Leaf \<longleftrightarrow> left_of h n = 0" "r = Leaf \<longleftrightarrow> right_of h n = 0"
    "l = Node a m b \<Longrightarrow> left_of h n = m \<and> live h m" "r = Node a m b \<Longrightarrow> right_of h n = m \<and> live h m"
  using assms by (cases l; cases r; auto simp: focus_def)+

text \<open>Nothing but the links and the balances of the nodes \<open>S\<close> has changed.\<close>

definition rebalanced :: "('d, 'z) avl_heap_scheme \<Rightarrow> ('d, 'z) avl_heap_scheme \<Rightarrow> nat set \<Rightarrow> bool" where
  "rebalanced h h' S \<longleftrightarrow> alloc h' = alloc h \<and> UserData h' = UserData h \<and> (\<forall>x. x \<notin> S \<longrightarrow> Balance h' x = Balance h x)"

lemma rebalanced_trans: "rebalanced h h' S \<Longrightarrow> rebalanced h' h'' S' \<Longrightarrow> rebalanced h h'' (S \<union> S')"
  by (simp add: rebalanced_def)

lemma rebalanced_mono: "rebalanced h h' S \<Longrightarrow> S \<subseteq> S' \<Longrightarrow> rebalanced h h' S'"
  by (auto simp: rebalanced_def)

text \<open>What rebalancing a node yields: the same nodes in order, balanced, in their context.\<close>

definition leveled :: "('d, 'z) avl_heap_scheme \<Rightarrow> ('d, 'z) avl_heap_scheme \<Rightarrow> nat \<Rightarrow> frame list \<Rightarrow> nat list \<Rightarrow> nat \<Rightarrow> bool" where
  "leveled h h' p c ns k \<longleftrightarrow> (\<exists>l m r. focus h' c l m r \<and> inorder (Node l m r) = ns \<and> avl (Balance h') (Node l m r) \<and>
     height (Node l m r) = k \<and> parent_of h' p = m \<and> rebalanced h h' (set ns))"

lemma leveledI:
  "focus h' c l m r \<Longrightarrow> avl (Balance h') (Node l m r) \<Longrightarrow> int (height (Node l m r)) = int k \<Longrightarrow> inorder (Node l m r) = ns \<Longrightarrow>
     parent_of h' p = m \<Longrightarrow> rebalanced h h' (set ns) \<Longrightarrow> leveled h h' p c ns k"
  unfolding leveled_def by force

text \<open>The balances are taken from heights.\<close>

lemma avl_node:
  "avl b l \<Longrightarrow> avl b r \<Longrightarrow> b a = int (height r) - int (height l) \<Longrightarrow> \<bar>b a\<bar> \<le> 1 \<Longrightarrow> avl b (Node l a r)"
  by simp

lemma int_height: "int (height (Node l a r)) = (if height l \<le> height r then int (height r) + 1 else int (height l) + 1)"
  by simp

lemma avl_updated:
  assumes "avl b t" "a \<notin> set_tree t"
  shows "avl (b(a := v)) t"
  by (rule avl_same [OF assms(1)]) (use assms(2) in auto)

lemma rebalance_left:
  fixes h :: "('d, 'z) avl_heap_scheme"
  assumes F: "focus h (FL p x # c) l n r" "c \<noteq> []" and B: "Balance h p = -1" "avl (Balance h) (Node l n r)" "avl (Balance h) x"
    and H: "height (Node l n r) = height x + 2"
  shows "\<exists>h'. RtlpRebalanceAvlTreeNode h p = Some (Balance h n = 0, h') \<and>
    leveled h h' p c (inorder (Node (Node l n r) p x)) (height x + (if Balance h n = 0 then 3 else 2))"
proof -
  have L: "live h p" "left_of h p = n" "live h n" "n \<noteq> p" and d: "distinct (inorder l @ n # inorder r @ p # inorder x)"
    using F(1) by (auto simp: focus_def)
  have nin: "n \<notin> set_tree l" "n \<notin> set_tree r" "n \<notin> set_tree x" "p \<notin> set_tree l" "p \<notin> set_tree r" "p \<notin> set_tree x"
    using d by auto
  have bs: "avl (Balance h) l" "avl (Balance h) r" "Balance h n = int (height r) - int (height l)" "\<bar>Balance h n\<bar> \<le> 1"
    using B(2) by auto
  have hx: "int (height x) + 2 = (if height l \<le> height r then int (height r) + 1 else int (height l) + 1)"
    using H by (simp add: max_def split: if_splits)
  obtain h1 where P: "RtlpPromoteAvlTreeNode h n = Some h1" "relinked h h1" "focus h1 c l n (Node r p x)" "parent_of h1 p = n"
    using promote_left [OF F] by blast
  note P1 = relinked_fields [OF P(2)] relinked_live [OF P(2)]
  have A: "alloc h1 = alloc h" using P(2) by (simp add: relinked_def)
  consider "Balance h n = -1" | "Balance h n = 0" | "Balance h n = 1" using bs(4) by linarith
  then show ?thesis
  proof cases
    case 1
    let ?b = "(Balance h)(n := 0, p := 0)" and ?h = "h1\<lparr>Balance := (Balance h)(n := 0, p := 0)\<rparr>"
    have hs: "int (height r) = int (height x)" "int (height l) = int (height x) + 1" using 1 hx bs(3) by (simp_all split: if_splits)
    have "avl ?b (Node l n (Node r p x))"
      by (intro avl_node avl_updated) (use bs B(3) nin hs L(4) in simp_all)
    then have "leveled h ?h p c (inorder (Node (Node l n r) p x)) (height x + 2)"
      by (intro leveledI [of _ _ l n "Node r p x"]) (use P A P1 hs in \<open>simp_all add: int_height rebalanced_def\<close>)
    moreover have "RtlpRebalanceAvlTreeNode h p = Some (False, ?h)"
      using L P P1 1 B(1) by (simp add: RtlpRebalanceAvlTreeNode_def avl_balance avl_access)
    ultimately show ?thesis using 1 by auto
  next
    case 2
    let ?b = "(Balance h)(n := 1)" and ?h = "h1\<lparr>Balance := (Balance h)(n := 1)\<rparr>"
    have hs: "int (height r) = int (height x) + 1" "int (height l) = int (height x) + 1" using 2 hx bs(3) by (simp_all split: if_splits)
    have "avl ?b (Node l n (Node r p x))"
      by (intro avl_node avl_updated) (use bs B nin hs L(4) in simp_all)
    then have "leveled h ?h p c (inorder (Node (Node l n r) p x)) (height x + 3)"
      by (intro leveledI [of _ _ l n "Node r p x"]) (use P A P1 hs in \<open>simp_all add: int_height rebalanced_def\<close>)
    moreover have "RtlpRebalanceAvlTreeNode h p = Some (True, ?h)"
      using L P P1 2 B(1) by (simp add: RtlpRebalanceAvlTreeNode_def avl_balance avl_access)
    ultimately show ?thesis using 2 by auto
  next
    case 3
    have hs: "int (height r) = int (height x) + 1" "int (height l) = int (height x)" using 3 hx bs(3) by (simp_all split: if_splits)
    then obtain a s e where r: "r = Node a s e" by (cases r) auto
    let ?s = "Balance h s"
    have bs': "avl (Balance h) a" "avl (Balance h) e" "?s = int (height e) - int (height a)" "?s = -1 \<or> ?s = 0 \<or> ?s = 1"
      using bs(2) by (auto simp: r)
    have hs': "int (height x) = (if height a \<le> height e then int (height e) else int (height a))"
      using hs(1) by (simp add: r max_def split: if_splits)
    obtain h2 where Q: "RtlpPromoteAvlTreeNode h s = Some h2" "relinked h h2" "focus h2 (FL p x # c) (Node l n a) s e"
      using promote_right [of h l n "FL p x # c" a s e] F(1) by (auto simp: r focus_down)
    obtain h3 where R: "RtlpPromoteAvlTreeNode h2 s = Some h3" "relinked h2 h3" "focus h3 c (Node l n a) s (Node e p x)" "parent_of h3 p = s"
      using promote_left [OF Q(3) F(2)] by blast
    note T = relinked_trans [OF Q(2) R(2)]
    note T1 = relinked_fields [OF T] relinked_live [OF T]
    have A: "alloc h3 = alloc h" using T by (simp add: relinked_def)
    have S: "right_of h n = s" "live h s" "s \<noteq> n" "s \<noteq> p" "s \<notin> set_tree l" "s \<notin> set_tree x" "s \<notin> set_tree a" "s \<notin> set_tree e"
      using focus_live(5) [OF F(1) r] d r by auto
    have nin': "n \<notin> set_tree a" "n \<notin> set_tree e" "p \<notin> set_tree a" "p \<notin> set_tree e" using nin r by auto
    let ?b = "(Balance h)(n := if ?s = 1 then -1 else 0, p := if ?s = -1 then 1 else 0, s := 0)"
    let ?h = "h3\<lparr>Balance := ?b\<rparr>"
    have "avl ?b (Node (Node l n a) s (Node e p x)) \<and> int (height (Node (Node l n a) s (Node e p x))) = int (height x) + 2"
      using bs'(4) by (elim disjE; intro conjI avl_node avl_updated)
        (use bs(1) bs'(1,2,3) B(3) nin nin' S hs hs' L(4) in \<open>simp_all add: int_height split: if_splits\<close>)
    then have "leveled h ?h p c (inorder (Node (Node l n r) p x)) (height x + 2)"
      by (intro leveledI [of _ _ "Node l n a" s "Node e p x"]) (use R A T1 r in \<open>simp_all add: rebalanced_def del: avl.simps\<close>)
    moreover have "RtlpRebalanceAvlTreeNode h p = Some (False, ?h)"
      using L Q R T1 3 B(1) S bs'(4) by (elim disjE) (simp_all add: RtlpRebalanceAvlTreeNode_def avl_balance avl_access fun_upd_twist)
    ultimately show ?thesis using 3 by auto
  qed
qed

lemma rebalance_right:
  fixes h :: "('d, 'z) avl_heap_scheme"
  assumes F: "focus h (FR x p # c) l n r" "c \<noteq> []" and B: "Balance h p = 1" "avl (Balance h) (Node l n r)" "avl (Balance h) x"
    and H: "height (Node l n r) = height x + 2"
  shows "\<exists>h'. RtlpRebalanceAvlTreeNode h p = Some (Balance h n = 0, h') \<and>
    leveled h h' p c (inorder (Node x p (Node l n r))) (height x + (if Balance h n = 0 then 3 else 2))"
proof -
  have L: "live h p" "right_of h p = n" "live h n" "n \<noteq> p" and d: "distinct (inorder l @ n # inorder r @ p # inorder x)"
    using F(1) by (auto simp: focus_def)
  have nin: "n \<notin> set_tree l" "n \<notin> set_tree r" "n \<notin> set_tree x" "p \<notin> set_tree l" "p \<notin> set_tree r" "p \<notin> set_tree x"
    using d by auto
  have bs: "avl (Balance h) l" "avl (Balance h) r" "Balance h n = int (height r) - int (height l)" "\<bar>Balance h n\<bar> \<le> 1"
    using B(2) by auto
  have hx: "int (height x) + 2 = (if height l \<le> height r then int (height r) + 1 else int (height l) + 1)"
    using H by (simp add: max_def split: if_splits)
  obtain h1 where P: "RtlpPromoteAvlTreeNode h n = Some h1" "relinked h h1" "focus h1 c (Node x p l) n r" "parent_of h1 p = n"
    using promote_right [OF F] by blast
  note P1 = relinked_fields [OF P(2)] relinked_live [OF P(2)]
  have A: "alloc h1 = alloc h" using P(2) by (simp add: relinked_def)
  consider "Balance h n = 1" | "Balance h n = 0" | "Balance h n = -1" using bs(4) by linarith
  then show ?thesis
  proof cases
    case 1
    let ?b = "(Balance h)(n := 0, p := 0)" and ?h = "h1\<lparr>Balance := (Balance h)(n := 0, p := 0)\<rparr>"
    have hs: "int (height l) = int (height x)" "int (height r) = int (height x) + 1" using 1 hx bs(3) by (simp_all split: if_splits)
    have "avl ?b (Node (Node x p l) n r)"
      by (intro avl_node avl_updated) (use bs B(3) nin hs L(4) in simp_all)
    then have "leveled h ?h p c (inorder (Node x p (Node l n r))) (height x + 2)"
      by (intro leveledI [of _ _ "Node x p l" n r]) (use P A P1 hs in \<open>simp_all add: int_height rebalanced_def\<close>)
    moreover have "RtlpRebalanceAvlTreeNode h p = Some (False, ?h)"
      using L P P1 1 B(1) by (simp add: RtlpRebalanceAvlTreeNode_def avl_balance avl_access)
    ultimately show ?thesis using 1 by auto
  next
    case 2
    let ?b = "(Balance h)(n := -1)" and ?h = "h1\<lparr>Balance := (Balance h)(n := -1)\<rparr>"
    have hs: "int (height r) = int (height x) + 1" "int (height l) = int (height x) + 1" using 2 hx bs(3) by (simp_all split: if_splits)
    have "avl ?b (Node (Node x p l) n r)"
      by (intro avl_node avl_updated) (use bs B nin hs L(4) in simp_all)
    then have "leveled h ?h p c (inorder (Node x p (Node l n r))) (height x + 3)"
      by (intro leveledI [of _ _ "Node x p l" n r]) (use P A P1 hs in \<open>simp_all add: int_height rebalanced_def\<close>)
    moreover have "RtlpRebalanceAvlTreeNode h p = Some (True, ?h)"
      using L P P1 2 B(1) by (simp add: RtlpRebalanceAvlTreeNode_def avl_balance avl_access)
    ultimately show ?thesis using 2 by auto
  next
    case 3
    have hs: "int (height l) = int (height x) + 1" "int (height r) = int (height x)" using 3 hx bs(3) by (simp_all split: if_splits)
    then obtain a s e where l: "l = Node a s e" by (cases l) auto
    let ?s = "Balance h s"
    have bs': "avl (Balance h) a" "avl (Balance h) e" "?s = int (height e) - int (height a)" "?s = -1 \<or> ?s = 0 \<or> ?s = 1"
      using bs(1) by (auto simp: l)
    have hs': "int (height x) = (if height a \<le> height e then int (height e) else int (height a))"
      using hs(1) by (simp add: l max_def split: if_splits)
    obtain h2 where Q: "RtlpPromoteAvlTreeNode h s = Some h2" "relinked h h2" "focus h2 (FR x p # c) a s (Node e n r)"
      using promote_left [of h n r "FR x p # c" a s e] F(1) by (auto simp: l focus_down)
    obtain h3 where R: "RtlpPromoteAvlTreeNode h2 s = Some h3" "relinked h2 h3" "focus h3 c (Node x p a) s (Node e n r)" "parent_of h3 p = s"
      using promote_right [OF Q(3) F(2)] by blast
    note T = relinked_trans [OF Q(2) R(2)]
    note T1 = relinked_fields [OF T] relinked_live [OF T]
    have A: "alloc h3 = alloc h" using T by (simp add: relinked_def)
    have S: "left_of h n = s" "live h s" "s \<noteq> n" "s \<noteq> p" "s \<notin> set_tree r" "s \<notin> set_tree x" "s \<notin> set_tree a" "s \<notin> set_tree e"
      using focus_live(4) [OF F(1) l] d l by auto
    have nin': "n \<notin> set_tree a" "n \<notin> set_tree e" "p \<notin> set_tree a" "p \<notin> set_tree e" using nin l by auto
    let ?b = "(Balance h)(n := if ?s = -1 then 1 else 0, p := if ?s = 1 then -1 else 0, s := 0)"
    let ?h = "h3\<lparr>Balance := ?b\<rparr>"
    have "avl ?b (Node (Node x p a) s (Node e n r)) \<and> int (height (Node (Node x p a) s (Node e n r))) = int (height x) + 2"
      using bs'(4) by (elim disjE; intro conjI avl_node avl_updated)
        (use bs(2) bs'(1,2,3) B(3) nin nin' S hs hs' L(4) in \<open>simp_all add: int_height split: if_splits\<close>)
    then have "leveled h ?h p c (inorder (Node x p (Node l n r))) (height x + 2)"
      by (intro leveledI [of _ _ "Node x p a" s "Node e n r"]) (use R A T1 l in \<open>simp_all add: rebalanced_def del: avl.simps\<close>)
    moreover have "RtlpRebalanceAvlTreeNode h p = Some (False, ?h)"
      using L Q R T1 3 B(1) S bs'(4) by (elim disjE) (simp_all add: RtlpRebalanceAvlTreeNode_def avl_balance avl_access fun_upd_twist)
    ultimately show ?thesis using 3 by auto
  qed
qed

end
