(* ===== verification/Avl_Insertion.thy ===== *)
theory Avl_Insertion
  imports Avl_Rotation
begin

text \<open>
  The climb after an insertion of \<^verbatim>\<open>avlsupp.c\<close>: it ends, and leaves a balanced tree with the same
  nodes in the same order.
\<close>

section \<open>Balanced contexts\<close>

text \<open>The context is balanced when its hole gets a balanced tree of height \<open>k\<close>.\<close>

fun avl_ctx :: "(nat \<Rightarrow> int) \<Rightarrow> frame list \<Rightarrow> nat \<Rightarrow> bool" where
  "avl_ctx b [] k \<longleftrightarrow> True"
| "avl_ctx b (FL a r # c) k \<longleftrightarrow> b a = int (height r) - int k \<and> \<bar>int (height r) - int k\<bar> \<le> 1 \<and> avl b r \<and> avl_ctx b c (Suc (max k (height r)))"
| "avl_ctx b (FR l a # c) k \<longleftrightarrow> b a = int k - int (height l) \<and> \<bar>int k - int (height l)\<bar> \<le> 1 \<and> avl b l \<and> avl_ctx b c (Suc (max (height l) k))"

fun ctx_height :: "frame list \<Rightarrow> nat \<Rightarrow> nat" where
  "ctx_height [] k = k"
| "ctx_height (FL a r # c) k = ctx_height c (Suc (max k (height r)))"
| "ctx_height (FR l a # c) k = ctx_height c (Suc (max (height l) k))"

lemma avl_plug: "avl b (plug c t) \<longleftrightarrow> avl b t \<and> avl_ctx b c (height t)"
  by (induction c t rule: plug.induct) auto

lemma height_plug: "height (plug c t) = ctx_height c (height t)"
  by (induction c t rule: plug.induct) auto

lemma avl_ctx_same: "avl_ctx b c k \<Longrightarrow> (\<And>a. a \<in> set (frame_list c) \<Longrightarrow> b' a = b a) \<Longrightarrow> avl_ctx b' c k"
  by (induction b c k rule: avl_ctx.induct) (auto intro: avl_same)

lemma avl_updates [simp]:
  "a \<notin> set_tree t \<Longrightarrow> avl (b(a := v)) t = avl b t"
  "a \<notin> set (frame_list c) \<Longrightarrow> avl_ctx (b(a := v)) c k = avl_ctx b c k"
proof -
  show "a \<notin> set_tree t \<Longrightarrow> avl (b(a := v)) t = avl b t" by (intro avl_cong) auto
  show "avl_ctx (b(a := v)) c k = avl_ctx b c k" if "a \<notin> set (frame_list c)"
    by (rule iffI; erule avl_ctx_same) (use that in auto)
qed

lemma set_plug: "set_tree (plug c t) = set_tree t \<union> set (frame_list c)"
  by (induction c t rule: plug.induct) auto

lemma plug_same: "inorder t' = inorder t \<Longrightarrow> inorder (plug c t') = inorder (plug c t)"
  by (simp add: inorder_plug)

section \<open>A tree below the node of the table\<close>

text \<open>The node of the table is its own parent, and the tree is its right subtree.\<close>

abbreviation sentinel :: "nat \<Rightarrow> frame list" where
  "sentinel R \<equiv> [FR Leaf R]"

definition below :: "'z links_scheme \<Rightarrow> nat \<Rightarrow> nat tree \<Rightarrow> bool" where
  "below h R t \<longleftrightarrow> focus h [] Leaf R t"

lemma below_facts:
  assumes "below h R t"
  shows "live h R" "is_tree h R (right_of h R) t" "left_of h R = 0" "parent_of h R = R" "R \<notin> set_tree t" "distinct (inorder t)"
  using assms by (auto simp: below_def focus_def)

lemma ctx_root_append: "ctx_root (c @ d) a = ctx_root d (ctx_root c a)"
  by (induction c a rule: ctx_root.induct) auto

lemma below_focus: "focus h (c @ sentinel R) l n r \<longleftrightarrow> below h R (plug c (Node l n r))"
  unfolding below_def focus_plug by (simp add: plug_append ctx_root_append)

lemma focus_frame_left:
  assumes "focus h (FL p x # c) l n r"
  shows "live h n" "live h p" "parent_of h n = p" "left_of h p = n" "focus h c (Node l n r) p x" "n \<noteq> p"
  using assms focus_down(1) [of h c l n r p x] by (auto simp: focus_def)

lemma focus_frame_right:
  assumes "focus h (FR x p # c) l n r"
  shows "live h n" "live h p" "parent_of h n = p" "left_of h p \<noteq> n" "focus h c x p (Node l n r)" "n \<noteq> p" "right_of h p = n"
proof -
  show "left_of h p \<noteq> n" using assms is_tree_ptr [of h p "left_of h p" x] by (auto simp: focus_def)
qed (use assms focus_down(2) [of h c x p l n r] in \<open>auto simp: focus_def\<close>)

lemma frame_list_append [simp]: "frame_list (c @ d) = frame_list c @ frame_list d"
  by (induction c rule: frame_list.induct) auto

lemma sentinel_live:
  assumes "focus h (c @ sentinel R) l n r"
  shows "live h R" "R \<noteq> n" "R \<notin> set (inorder l)" "R \<notin> set (inorder r)" "R \<notin> set (frame_list c)"
proof -
  show "R \<noteq> n" "R \<notin> set (inorder l)" "R \<notin> set (inorder r)" "R \<notin> set (frame_list c)"
    using assms by (auto simp: focus_def)
  have "focus h [] Leaf R (plug c (Node l n r))" using assms by (simp only: below_focus below_def)
  then show "live h R" by (simp only: focus_def)
qed

section \<open>The climb\<close>

text \<open>The heap after a climb holds a balanced tree with the nodes \<open>ns\<close>.\<close>

definition settled :: "('d, 'z) avl_heap_scheme \<Rightarrow> ('d, 'z) avl_heap_scheme \<Rightarrow> nat \<Rightarrow> nat list \<Rightarrow> nat \<Rightarrow> bool" where
  "settled h h' R ns k \<longleftrightarrow> alloc h' = alloc h \<and> UserData h' = UserData h \<and>
     (\<exists>t. below h' R t \<and> inorder t = ns \<and> avl (Balance h') t \<and> height t = k)"

lemma settledI:
  assumes "focus h' (c @ sentinel R) l m r" "avl (Balance h') (Node l m r)" "avl_ctx (Balance h') c (height (Node l m r))"
    and "alloc h' = alloc h" "UserData h' = UserData h" "inorder (plug c (Node l m r)) = ns" "ctx_height c (height (Node l m r)) = k"
  shows "settled h h' R ns k"
  using assms unfolding settled_def below_focus by (auto simp: avl_plug height_plug simp del: avl.simps height_tree.simps)

lemma settled_trans: "settled h' h'' R ns k \<Longrightarrow> alloc h' = alloc h \<Longrightarrow> UserData h' = UserData h \<Longrightarrow> settled h h'' R ns k"
  by (simp add: settled_def)

lemma leveled_settled:
  assumes "leveled h h' p (c @ sentinel R) (inorder t) k" "avl_ctx (Balance h) c k" "set (inorder t) \<inter> set (frame_list c) = {}"
  shows "settled h h' R (inorder (plug c t)) (ctx_height c k)"
proof -
  obtain l m r where L: "focus h' (c @ sentinel R) l m r" "inorder (Node l m r) = inorder t" "avl (Balance h') (Node l m r)"
    "height (Node l m r) = k" "rebalanced h h' (set (inorder t))" using assms(1) unfolding leveled_def by blast
  have "avl_ctx (Balance h') c k"
    by (rule avl_ctx_same [OF assms(2)]) (use L(5) assms(3) in \<open>auto simp: rebalanced_def\<close>)
  then show ?thesis
    by (intro settledI [OF L(1,3)]) (use L plug_same [OF L(2)] in \<open>simp_all add: rebalanced_def\<close>)
qed

lemma insert_climb_step:
  assumes "live h n" "live h p" "parent_of h n = p"
  defines "bal \<equiv> if left_of h p = n then -1 else 1"
  shows "Balance h p = 0 \<Longrightarrow> insert_climb R h n p = insert_climb R (h\<lparr>Balance := (Balance h)(p := bal)\<rparr>) p (parent_of h p)"
    and "Balance h p \<noteq> 0 \<Longrightarrow> Balance h p \<noteq> bal \<Longrightarrow> live h R \<Longrightarrow> insert_climb R h n p =
      Some (((Balance h)(p := 0)) R = 0, h\<lparr>Balance := (Balance h)(p := 0)\<rparr>)"
    and "Balance h p = bal \<Longrightarrow> insert_climb R h n p = map_option (\<lambda>(d, h). (False, h)) (RtlpRebalanceAvlTreeNode h p)"
  using assms(1-3) unfolding bal_def
  by (subst insert_climb.simps; cases "RtlpRebalanceAvlTreeNode h p"; auto simp: avl_access avl_balance split: if_splits; fail)+

text \<open>The climb from \<open>n\<close>, whose subtree has become one higher than \<open>k\<close>, to a balanced tree.\<close>

definition climbing :: "('d, 'z) avl_heap_scheme \<Rightarrow> nat \<Rightarrow> frame list \<Rightarrow> nat tree \<Rightarrow> nat \<Rightarrow> nat tree \<Rightarrow> nat \<Rightarrow> bool" where
  "climbing h R c l n r k \<longleftrightarrow> focus h (c @ sentinel R) l n r \<and> avl (Balance h) (Node l n r) \<and> height (Node l n r) = Suc k \<and>
     avl_ctx (Balance h) c k \<and> Balance h R = -1 \<and> (k = 0 \<or> Balance h n \<noteq> 0)"

definition climbs :: "('d, 'z) avl_heap_scheme \<Rightarrow> nat \<Rightarrow> nat \<Rightarrow> nat list \<Rightarrow> nat \<Rightarrow> bool" where
  "climbs h R n ns k \<longleftrightarrow> (\<exists>d h'. insert_climb R h n (parent_of h n) = Some (d, h') \<and> settled h h' R ns (k + (if d then 1 else 0)))"

lemma climb_top:
  assumes "climbing h R [] l n r k"
  shows "climbs h R n (inorder (Node l n r)) k"
proof -
  note C = assms [unfolded climbing_def, THEN conjunct1] assms [unfolded climbing_def, THEN conjunct2]
  note F = focus_frame_right [OF C(1)[simplified]] and S = sentinel_live [OF C(1)]
  let ?h = "h\<lparr>Balance := (Balance h)(R := 0)\<rparr>"
  have "settled h ?h R (inorder (Node l n r)) (Suc k)"
    by (rule settledI [of _ "[]" R l n r])
      (use C S in \<open>simp_all del: height_tree.simps\<close>)
  moreover have "insert_climb R h n R = Some (True, ?h)"
    using insert_climb_step(2) [OF F(1-3) _ _ S(1)] F(4) C(2) by simp
  ultimately show ?thesis using F(3) unfolding climbs_def by (intro exI [of _ True] exI [of _ ?h]) simp
qed

lemma climb_left:
  fixes h :: "('d, 'z) avl_heap_scheme"
  assumes IH: "\<And>(h :: ('d, 'z) avl_heap_scheme) k. climbing h R c (Node l n r) p x k \<Longrightarrow> climbs h R p (inorder (plug c (Node (Node l n r) p x))) (ctx_height c k)"
    and "climbing h R (FL p x # c) l n r k"
  shows "climbs h R n (inorder (plug c (Node (Node l n r) p x))) (ctx_height (FL p x # c) k)"
proof -
  have C: "focus h ((FL p x # c) @ sentinel R) l n r" "avl (Balance h) (Node l n r)" "height (Node l n r) = Suc k"
    "avl_ctx (Balance h) (FL p x # c) k" "Balance h R = -1" "k = 0 \<or> Balance h n \<noteq> 0"
    using assms(2) by (auto simp: climbing_def simp del: avl.simps avl_ctx.simps height_tree.simps)
  note S = sentinel_live [OF C(1)]
  have P: "focus h (FL p x # c @ sentinel R) l n r" using C(1) by simp
  note F = focus_frame_left [OF P]
  have B: "Balance h p = int (height x) - int k" "\<bar>int (height x) - int k\<bar> \<le> 1" "avl (Balance h) x" "avl_ctx (Balance h) c (Suc (max k (height x)))"
    using C(4) by simp_all
  have fresh: "R \<noteq> p" "p \<notin> set_tree l" "p \<notin> set_tree r" "p \<notin> set_tree x" "p \<notin> set (frame_list c)"
    "(set_tree l \<union> set_tree r \<union> set_tree x \<union> {n, p}) \<inter> set (frame_list c) = {}"
    using P by (auto simp: focus_def)
  consider "Balance h p = 0" | "Balance h p = 1" | "Balance h p = -1" using B(1,2) by linarith
  then show ?thesis
  proof cases
    case 1
    let ?h = "h\<lparr>Balance := (Balance h)(p := -1)\<rparr>"
    have cx: "avl_ctx (Balance h) c (Suc k)" using B(1,4) 1 by simp
    have "climbing ?h R c (Node l n r) p x (Suc k)"
      unfolding climbing_def using F(5,6) C(2,3,5) B(1,3) 1 fresh(1-5) cx by simp
    then obtain d h' where D: "insert_climb R ?h p (parent_of ?h p) = Some (d, h')"
      "settled ?h h' R (inorder (plug c (Node (Node l n r) p x))) (ctx_height c (Suc k) + (if d then 1 else 0))" using IH unfolding climbs_def by blast
    have "insert_climb R h n p = Some (d, h')" using insert_climb_step(1) [OF F(1-3) 1] F(4) D(1) by simp
    moreover have "ctx_height (FL p x # c) k = ctx_height c (Suc k)" using B(1) 1 by simp
    ultimately show ?thesis using settled_trans [OF D(2), of h] F(3) unfolding climbs_def by (intro exI [of _ d] exI [of _ h']) simp
  next
    case 2
    let ?h = "h\<lparr>Balance := (Balance h)(p := 0)\<rparr>"
    have hx: "height x = Suc k" using B(1) 2 by simp
    have "settled h ?h R (inorder (plug c (Node (Node l n r) p x))) (ctx_height c (Suc (Suc k)))"
      by (rule settledI [of _ c R "Node l n r" p x])
        (use F(5,6) C(2,3) B hx fresh in simp_all)
    moreover have "insert_climb R h n p = Some (False, ?h)"
      using insert_climb_step(2) [OF F(1-3) _ _ S(1)] F(4) 2 C(5) fresh(1) by simp
    moreover have "ctx_height (FL p x # c) k = ctx_height c (Suc (Suc k))" using hx by simp
    ultimately show ?thesis using F(3) unfolding climbs_def by (intro exI [of _ False] exI [of _ ?h]) simp
  next
    case 3
    obtain h' where H: "RtlpRebalanceAvlTreeNode h p = Some (Balance h n = 0, h')"
      "leveled h h' p (c @ sentinel R) (inorder (Node (Node l n r) p x)) (height x + (if Balance h n = 0 then 3 else 2))"
      using rebalance_left [OF P _ 3 C(2) B(3)] C(3) B(1) 3 by auto
    have k: "Balance h n \<noteq> 0" "k = Suc (height x)" using C(6) B(1) 3 by auto
    have "settled h h' R (inorder (plug c (Node (Node l n r) p x))) (ctx_height c (Suc k))"
      by (rule leveled_settled) (use H(2) k B(4) fresh(6) in auto)
    moreover have "insert_climb R h n p = Some (False, h')" using insert_climb_step(3) [OF F(1-3)] F(4) H(1) 3 by simp
    moreover have "ctx_height (FL p x # c) k = ctx_height c (Suc k)" using k(2) by simp
    ultimately show ?thesis using F(3) unfolding climbs_def by (intro exI [of _ False] exI [of _ h']) simp
  qed
qed

lemma climb_right:
  fixes h :: "('d, 'z) avl_heap_scheme"
  assumes IH: "\<And>(h :: ('d, 'z) avl_heap_scheme) k. climbing h R c x p (Node l n r) k \<Longrightarrow> climbs h R p (inorder (plug c (Node x p (Node l n r)))) (ctx_height c k)"
    and "climbing h R (FR x p # c) l n r k"
  shows "climbs h R n (inorder (plug c (Node x p (Node l n r)))) (ctx_height (FR x p # c) k)"
proof -
  have C: "focus h ((FR x p # c) @ sentinel R) l n r" "avl (Balance h) (Node l n r)" "height (Node l n r) = Suc k"
    "avl_ctx (Balance h) (FR x p # c) k" "Balance h R = -1" "k = 0 \<or> Balance h n \<noteq> 0"
    using assms(2) by (auto simp: climbing_def simp del: avl.simps avl_ctx.simps height_tree.simps)
  note S = sentinel_live [OF C(1)]
  have P: "focus h (FR x p # c @ sentinel R) l n r" using C(1) by simp
  note F = focus_frame_right [OF P]
  have B: "Balance h p = int k - int (height x)" "\<bar>int k - int (height x)\<bar> \<le> 1" "avl (Balance h) x" "avl_ctx (Balance h) c (Suc (max (height x) k))"
    using C(4) by simp_all
  have fresh: "R \<noteq> p" "p \<notin> set_tree l" "p \<notin> set_tree r" "p \<notin> set_tree x" "p \<notin> set (frame_list c)"
    "(set_tree l \<union> set_tree r \<union> set_tree x \<union> {n, p}) \<inter> set (frame_list c) = {}"
    using P by (auto simp: focus_def)
  consider "Balance h p = 0" | "Balance h p = -1" | "Balance h p = 1" using B(1,2) by linarith
  then show ?thesis
  proof cases
    case 1
    let ?h = "h\<lparr>Balance := (Balance h)(p := 1)\<rparr>"
    have cx: "avl_ctx (Balance h) c (Suc k)" using B(1,4) 1 by simp
    have "climbing ?h R c x p (Node l n r) (Suc k)"
      unfolding climbing_def using F(5,6) C(2,3,5) B(1,3) 1 fresh(1-5) cx by simp
    then obtain d h' where D: "insert_climb R ?h p (parent_of ?h p) = Some (d, h')"
      "settled ?h h' R (inorder (plug c (Node x p (Node l n r)))) (ctx_height c (Suc k) + (if d then 1 else 0))" using IH unfolding climbs_def by blast
    have "insert_climb R h n p = Some (d, h')" using insert_climb_step(1) [OF F(1-3) 1] F(4) D(1) by simp
    moreover have "ctx_height (FR x p # c) k = ctx_height c (Suc k)" using B(1) 1 by simp
    ultimately show ?thesis using settled_trans [OF D(2), of h] F(3) unfolding climbs_def by (intro exI [of _ d] exI [of _ h']) simp
  next
    case 2
    let ?h = "h\<lparr>Balance := (Balance h)(p := 0)\<rparr>"
    have hx: "height x = Suc k" using B(1) 2 by simp
    have "settled h ?h R (inorder (plug c (Node x p (Node l n r)))) (ctx_height c (Suc (Suc k)))"
      by (rule settledI [of _ c R x p "Node l n r"])
        (use F(5,6) C(2,3) B hx fresh in simp_all)
    moreover have "insert_climb R h n p = Some (False, ?h)"
      using insert_climb_step(2) [OF F(1-3) _ _ S(1)] F(4) 2 C(5) fresh(1) by simp
    moreover have "ctx_height (FR x p # c) k = ctx_height c (Suc (Suc k))" using hx by simp
    ultimately show ?thesis using F(3) unfolding climbs_def by (intro exI [of _ False] exI [of _ ?h]) simp
  next
    case 3
    obtain h' where H: "RtlpRebalanceAvlTreeNode h p = Some (Balance h n = 0, h')"
      "leveled h h' p (c @ sentinel R) (inorder (Node x p (Node l n r))) (height x + (if Balance h n = 0 then 3 else 2))"
      using rebalance_right [OF P _ 3 C(2) B(3)] C(3) B(1) 3 by auto
    have k: "Balance h n \<noteq> 0" "k = Suc (height x)" using C(6) B(1) 3 by auto
    have "settled h h' R (inorder (plug c (Node x p (Node l n r)))) (ctx_height c (Suc k))"
      by (rule leveled_settled) (use H(2) k B(4) fresh(6) in auto)
    moreover have "insert_climb R h n p = Some (False, h')" using insert_climb_step(3) [OF F(1-3)] F(4) H(1) 3 by simp
    moreover have "ctx_height (FR x p # c) k = ctx_height c (Suc k)" using k(2) by simp
    ultimately show ?thesis using F(3) unfolding climbs_def by (intro exI [of _ False] exI [of _ h']) simp
  qed
qed

lemma insert_climb_settles: "climbing h R c l n r k \<Longrightarrow> climbs h R n (inorder (plug c (Node l n r))) (ctx_height c k)"
proof (induction c arbitrary: h l n r k)
  case Nil
  then show ?case using climb_top by fastforce
next
  case (Cons f c)
  then show ?case by (cases f) (auto dest: climb_left [rotated] climb_right [rotated])
qed

end
