(* ===== verification/Avl_Deletion.thy ===== *)
theory Avl_Deletion
  imports Avl_Insertion
begin

text \<open>
  The deletion of \<^verbatim>\<open>avlsupp.c\<close>: unlinking a node with at most one child, the climb from there,
  and putting a node in the place of another one.
\<close>

lemma before_append: "before (c @ e) = before e @ before c"
  by (induction c rule: frame_list.induct) auto

lemma after_append: "after (c @ e) = after c @ after e"
  by (induction c rule: frame_list.induct) auto

section \<open>The climb\<close>

text \<open>The node above the hole of a context, and the side of the hole.\<close>

fun joint :: "frame list \<Rightarrow> nat \<times> int" where
  "joint [] = (0, 0)"
| "joint (FL p x # c) = (p, -1)"
| "joint (FR x p # c) = (p, 1)"

lemma joint_parent: "is_ctx h c n q \<Longrightarrow> c \<noteq> [] \<Longrightarrow> fst (joint c) = q"
  by (cases c rule: joint.cases) auto

lemma joint_side:
  assumes "focus h c l n r" "c \<noteq> []"
  shows "live h (parent_of h n)" "fst (joint c) = parent_of h n" "RtlIsLeftChild h n = Some (snd (joint c) = -1)"
    "RtlIsRightChild h n = Some (snd (joint c) = 1)"
  using focus_sides [OF assms(1)] joint_parent [of h c n "parent_of h n"] assms
  by (cases c rule: joint.cases; simp add: focus_def)+

lemma joint_next:
  assumes "focus h c l n r" "c \<noteq> []"
  shows "RtlParent h n = Some (fst (joint c))" "RtlIsRightChild h n = Some (snd (joint c) = 1)"
    "(if snd (joint c) = 1 then RtlRightHeavyAvlTree else RtlLeftHeavyAvlTree) = snd (joint c)"
proof -
  show "RtlParent h n = Some (fst (joint c))" using joint_side [OF assms] assms(1) by (simp add: focus_def links_live)
  show "RtlIsRightChild h n = Some (snd (joint c) = 1)" by (rule joint_side(4) [OF assms])
  show "(if snd (joint c) = 1 then RtlRightHeavyAvlTree else RtlLeftHeavyAvlTree) = snd (joint c)"
    using assms(2) by (cases c rule: joint.cases) (simp_all add: avl_balance)
qed

lemma delete_climb_step:
  assumes "live h p" "bal \<noteq> 0"
  shows "Balance h p = bal \<Longrightarrow> focus (h\<lparr>Balance := (Balance h)(p := 0)\<rparr>) c l p r \<Longrightarrow> c \<noteq> [] \<Longrightarrow>
      delete_climb R h p bal = delete_climb R (h\<lparr>Balance := (Balance h)(p := 0)\<rparr>) (fst (joint c)) (snd (joint c))"
    and "Balance h p = 0 \<Longrightarrow> live h R \<Longrightarrow> delete_climb R h p bal =
      Some (((Balance h)(p := - bal)) R \<noteq> 0, h\<lparr>Balance := (Balance h)(p := - bal)\<rparr>)"
    and "Balance h p = - bal \<Longrightarrow> RtlpRebalanceAvlTreeNode h p = Some (True, h') \<Longrightarrow> delete_climb R h p bal = Some (False, h')"
    and "Balance h p = - bal \<Longrightarrow> RtlpRebalanceAvlTreeNode h p = Some (False, h') \<Longrightarrow> focus h' c l m r \<Longrightarrow>
      parent_of h' p = m \<Longrightarrow> live h' p \<Longrightarrow> c \<noteq> [] \<Longrightarrow> delete_climb R h p bal = delete_climb R h' (fst (joint c)) (snd (joint c))"
proof -
  let ?h = "h\<lparr>Balance := (Balance h)(p := 0)\<rparr>"
  show "delete_climb R h p bal = delete_climb R ?h (fst (joint c)) (snd (joint c))"
    if "Balance h p = bal" "focus ?h c l p r" "c \<noteq> []"
    using joint_next [OF that(2,3)] assms that(1)
    by (subst delete_climb.simps) (simp add: RtlBalance_live avl_balance)
  show "Balance h p = 0 \<Longrightarrow> live h R \<Longrightarrow> delete_climb R h p bal =
      Some (((Balance h)(p := - bal)) R \<noteq> 0, h\<lparr>Balance := (Balance h)(p := - bal)\<rparr>)"
    using assms by (subst delete_climb.simps) (simp add: RtlBalance_live avl_balance)
  show "Balance h p = - bal \<Longrightarrow> RtlpRebalanceAvlTreeNode h p = Some (True, h') \<Longrightarrow> delete_climb R h p bal = Some (False, h')"
    using assms by (subst delete_climb.simps) (simp add: RtlBalance_live avl_balance)
  show "delete_climb R h p bal = delete_climb R h' (fst (joint c)) (snd (joint c))"
    if "Balance h p = - bal" "RtlpRebalanceAvlTreeNode h p = Some (False, h')" "focus h' c l m r" "parent_of h' p = m" "live h' p" "c \<noteq> []"
    using joint_next [OF that(3,6)] assms that(1,2,4,5)
    by (subst delete_climb.simps) (simp add: RtlBalance_live avl_balance links_live)
qed

text \<open>The subtree \<open>s\<close> in the hole has become one lower.\<close>

definition shrinking :: "('d, 'z) avl_heap_scheme \<Rightarrow> nat \<Rightarrow> frame list \<Rightarrow> nat tree \<Rightarrow> bool" where
  "shrinking h R c s \<longleftrightarrow> below h R (plug c s) \<and> avl (Balance h) s \<and> avl_ctx (Balance h) c (Suc (height s)) \<and> Balance h R = 0"

definition sinks :: "('d, 'z) avl_heap_scheme \<Rightarrow> nat \<Rightarrow> frame list \<Rightarrow> nat list \<Rightarrow> nat \<Rightarrow> bool" where
  "sinks h R c ns k \<longleftrightarrow> (\<exists>lost h'. delete_climb R h (fst (joint (c @ sentinel R))) (snd (joint (c @ sentinel R))) = Some (lost, h') \<and>
     settled h h' R ns (k - (if lost then 1 else 0)))"

lemma sink_top:
  assumes "shrinking h R [] s"
  shows "sinks h R [] (inorder s) (Suc (height s))"
proof -
  have S: "below h R s" "avl (Balance h) s" "Balance h R = 0" using assms by (simp_all add: shrinking_def)
  note f = below_facts [OF S(1)]
  let ?h = "h\<lparr>Balance := (Balance h)(R := -1)\<rparr>"
  have "below ?h R s" using S(1) by (simp add: below_def)
  then have "settled h ?h R (inorder s) (height s)" using S f(5) unfolding settled_def by auto
  then show ?thesis using delete_climb_step(2) [OF f(1) _ S(3) f(1), of 1] unfolding sinks_def
    by (intro exI [of _ True] exI [of _ ?h]) simp
qed

text \<open>After a rebalancing that lost a level the climb goes on above.\<close>

lemma sink_rebalanced:
  fixes h h' :: "('d, 'z) avl_heap_scheme"
  assumes IH: "\<And>(h :: ('d, 'z) avl_heap_scheme) t. shrinking h R c t \<Longrightarrow> sinks h R c (inorder (plug c t)) (ctx_height c (Suc (height t)))"
    and H: "RtlpRebalanceAvlTreeNode h p = Some (False, h')" "leveled h h' p (c @ sentinel R) (inorder u) k"
    and B: "Balance h p = - bal" "bal \<noteq> 0" "live h p" "avl_ctx (Balance h) c (Suc k)" "Balance h R = 0"
    and fresh: "set_tree u \<inter> set (frame_list c) = {}" "R \<notin> set_tree u"
  shows "\<exists>lost h''. delete_climb R h p bal = Some (lost, h'') \<and>
    settled h h'' R (inorder (plug c u)) (ctx_height c (Suc k) - (if lost then 1 else 0))"
proof -
  obtain l m r where L: "focus h' (c @ sentinel R) l m r" "inorder (Node l m r) = inorder u" "avl (Balance h') (Node l m r)"
    "height (Node l m r) = k" "parent_of h' p = m" "rebalanced h h' (set (inorder u))" using H(2) unfolding leveled_def by blast
  have "avl_ctx (Balance h') c (Suc k)"
    by (rule avl_ctx_same [OF B(4)]) (use L(6) fresh in \<open>auto simp: rebalanced_def\<close>)
  moreover have "Balance h' R = 0" using L(6) B(5) fresh(2) by (simp add: rebalanced_def)
  ultimately have "shrinking h' R c (Node l m r)" using L(1,3,4) by (simp add: shrinking_def below_focus)
  from IH [OF this] obtain lost h'' where
    D: "delete_climb R h' (fst (joint (c @ sentinel R))) (snd (joint (c @ sentinel R))) = Some (lost, h'')"
    "settled h' h'' R (inorder (plug c u)) (ctx_height c (Suc k) - (if lost then 1 else 0))"
    using L(4) plug_same [OF L(2)] unfolding sinks_def by metis
  have "live h' p" using B(3) L(6) by (simp add: live_def rebalanced_def)
  then have "delete_climb R h p bal = Some (lost, h'')"
    using delete_climb_step(4) [OF B(3,2,1) H(1) L(1,5)] D(1) by simp
  moreover have "settled h h'' R (inorder (plug c u)) (ctx_height c (Suc k) - (if lost then 1 else 0))"
    using settled_trans [OF D(2)] L(6) by (simp add: rebalanced_def)
  ultimately show ?thesis by blast
qed

lemma sink_left:
  fixes h :: "('d, 'z) avl_heap_scheme"
  assumes IH: "\<And>(h :: ('d, 'z) avl_heap_scheme) t. shrinking h R c t \<Longrightarrow> sinks h R c (inorder (plug c t)) (ctx_height c (Suc (height t)))"
    and "shrinking h R (FL p x # c) s"
  shows "sinks h R (FL p x # c) (inorder (plug c (Node s p x))) (ctx_height (FL p x # c) (Suc (height s)))"
proof -
  let ?c = "c @ sentinel R" and ?k = "Suc (height s)"
  have C: "below h R (plug c (Node s p x))" "avl (Balance h) s" "avl_ctx (Balance h) (FL p x # c) ?k" "Balance h R = 0"
    using assms(2) by (simp_all add: shrinking_def)
  have P: "focus h ?c s p x" using C(1) by (simp add: below_focus)
  note S = sentinel_live [OF P]
  have B: "Balance h p = int (height x) - int ?k" "\<bar>int (height x) - int ?k\<bar> \<le> 1" "avl (Balance h) x" "avl_ctx (Balance h) c (Suc (max ?k (height x)))"
    using C(3) by simp_all
  have fresh: "R \<noteq> p" "p \<notin> set_tree s" "p \<notin> set_tree x" "p \<notin> set (frame_list c)" "live h p"
    "(set_tree s \<union> set_tree x \<union> {p}) \<inter> set (frame_list c) = {}"
    using P by (auto simp: focus_def)
  have j: "joint ((FL p x # c) @ sentinel R) = (p, -1)" by simp
  consider "Balance h p = -1" | "Balance h p = 0" | "Balance h p = - (-1)" using B(1,2) by linarith
  then show ?thesis
  proof cases
    case 1
    let ?h = "h\<lparr>Balance := (Balance h)(p := 0)\<rparr>"
    have x: "height x = height s" using B(1) 1 by simp
    have cx: "avl_ctx (Balance ?h) c (Suc (Suc (height s)))" using B(4) x fresh(4) by simp
    have "below ?h R (plug c (Node s p x))" using C(1) by (simp add: below_def)
    then have "shrinking ?h R c (Node s p x)" unfolding shrinking_def using C(2,4) B(3) fresh(1-3) x cx by simp
    from IH [OF this] obtain lost h' where D: "delete_climb R ?h (fst (joint ?c)) (snd (joint ?c)) = Some (lost, h')"
      "settled ?h h' R (inorder (plug c (Node s p x))) (ctx_height c (Suc ?k) - (if lost then 1 else 0))"
      using x unfolding sinks_def by auto
    have "delete_climb R h p (-1) = Some (lost, h')"
      using delete_climb_step(1) [OF fresh(5) _ 1, of ?c] P D(1) by simp
    then show ?thesis using settled_trans [OF D(2), of h] x unfolding sinks_def j by (intro exI [of _ lost] exI [of _ h']) simp
  next
    case 2
    let ?h = "h\<lparr>Balance := (Balance h)(p := 1)\<rparr>"
    have x: "height x = ?k" using B(1) 2 by simp
    have "settled h ?h R (inorder (plug c (Node s p x))) (ctx_height c (Suc ?k))"
      by (rule settledI [of _ c R s p x]) (use P C(2) B(3,4) fresh x in simp_all)
    moreover have "delete_climb R h p (-1) = Some (False, ?h)"
      using delete_climb_step(2) [OF fresh(5) _ 2 S(1), of "-1"] C(4) fresh(1) by simp
    ultimately show ?thesis using x unfolding sinks_def j by (intro exI [of _ False] exI [of _ ?h]) simp
  next
    case 3
    have x: "height x = height s + 2" using B(1) 3 by simp
    then obtain xl m xr where X: "x = Node xl m xr" by (cases x) auto
    have F: "focus h (FR s p # ?c) xl m xr" using P X by (simp add: focus_down)
    obtain h' where H: "RtlpRebalanceAvlTreeNode h p = Some (Balance h m = 0, h')"
      "leveled h h' p ?c (inorder (Node s p x)) (height s + (if Balance h m = 0 then 3 else 2))"
      using rebalance_right [OF F _ _ _ C(2)] 3 B(3) x X by auto
    show ?thesis
    proof (cases "Balance h m = 0")
      case True
      have "settled h h' R (inorder (plug c (Node s p x))) (ctx_height c (height s + 3))"
        by (rule leveled_settled) (use H(2) True B(4) x fresh(6) in \<open>auto simp: numeral_3_eq_3\<close>)
      moreover have "delete_climb R h p (-1) = Some (False, h')" using delete_climb_step(3) [OF fresh(5), of "-1"] 3 H(1) True by simp
      ultimately show ?thesis using x unfolding sinks_def j by (intro exI [of _ False] exI [of _ h']) (simp add: numeral_3_eq_3)
    next
      case False
      have bx: "avl_ctx (Balance h) c (Suc (height s + 2))" using B(4) x by simp
      have "\<exists>lost h''. delete_climb R h p (-1) = Some (lost, h'') \<and>
        settled h h'' R (inorder (plug c (Node s p x))) (ctx_height c (Suc (height s + 2)) - (if lost then 1 else 0))"
      proof (rule sink_rebalanced [where h' = h'])
        show "sinks h R c (inorder (plug c t)) (ctx_height c (Suc (height t)))" if "shrinking h R c t" for h :: "('d, 'z) avl_heap_scheme" and t
          by (rule IH [OF that])
      qed (use bx H False 3 fresh S(2-4) C(4) in auto)
      then obtain lost h'' where "delete_climb R h p (-1) = Some (lost, h'')"
        "settled h h'' R (inorder (plug c (Node s p x))) (ctx_height c (Suc (height s + 2)) - (if lost then 1 else 0))" by blast
      then show ?thesis using x unfolding sinks_def j by (intro exI [of _ lost] exI [of _ h'']) simp
    qed
  qed
qed

lemma sink_right:
  fixes h :: "('d, 'z) avl_heap_scheme"
  assumes IH: "\<And>(h :: ('d, 'z) avl_heap_scheme) t. shrinking h R c t \<Longrightarrow> sinks h R c (inorder (plug c t)) (ctx_height c (Suc (height t)))"
    and "shrinking h R (FR x p # c) s"
  shows "sinks h R (FR x p # c) (inorder (plug c (Node x p s))) (ctx_height (FR x p # c) (Suc (height s)))"
proof -
  let ?c = "c @ sentinel R" and ?k = "Suc (height s)"
  have C: "below h R (plug c (Node x p s))" "avl (Balance h) s" "avl_ctx (Balance h) (FR x p # c) ?k" "Balance h R = 0"
    using assms(2) by (simp_all add: shrinking_def)
  have P: "focus h ?c x p s" using C(1) by (simp add: below_focus)
  note S = sentinel_live [OF P]
  have B: "Balance h p = int ?k - int (height x)" "\<bar>int ?k - int (height x)\<bar> \<le> 1" "avl (Balance h) x" "avl_ctx (Balance h) c (Suc (max (height x) ?k))"
    using C(3) by simp_all
  have fresh: "R \<noteq> p" "p \<notin> set_tree s" "p \<notin> set_tree x" "p \<notin> set (frame_list c)" "live h p"
    "(set_tree s \<union> set_tree x \<union> {p}) \<inter> set (frame_list c) = {}"
    using P by (auto simp: focus_def)
  have j: "joint ((FR x p # c) @ sentinel R) = (p, 1)" by simp
  consider "Balance h p = 1" | "Balance h p = 0" | "Balance h p = -1" using B(1,2) by linarith
  then show ?thesis
  proof cases
    case 1
    let ?h = "h\<lparr>Balance := (Balance h)(p := 0)\<rparr>"
    have x: "height x = height s" using B(1) 1 by simp
    have cx: "avl_ctx (Balance ?h) c (Suc (Suc (height s)))" using B(4) x fresh(4) by simp
    have "below ?h R (plug c (Node x p s))" using C(1) by (simp add: below_def)
    then have "shrinking ?h R c (Node x p s)" unfolding shrinking_def using C(2,4) B(3) fresh(1-3) x cx by simp
    from IH [OF this] obtain lost h' where D: "delete_climb R ?h (fst (joint ?c)) (snd (joint ?c)) = Some (lost, h')"
      "settled ?h h' R (inorder (plug c (Node x p s))) (ctx_height c (Suc ?k) - (if lost then 1 else 0))"
      using x unfolding sinks_def by auto
    have "delete_climb R h p 1 = Some (lost, h')"
      using delete_climb_step(1) [OF fresh(5) _ 1, of ?c] P D(1) by simp
    then show ?thesis using settled_trans [OF D(2), of h] x unfolding sinks_def j by (intro exI [of _ lost] exI [of _ h']) simp
  next
    case 2
    let ?h = "h\<lparr>Balance := (Balance h)(p := -1)\<rparr>"
    have x: "height x = ?k" using B(1) 2 by simp
    have "settled h ?h R (inorder (plug c (Node x p s))) (ctx_height c (Suc ?k))"
      by (rule settledI [of _ c R x p s]) (use P C(2) B(3,4) fresh x in simp_all)
    moreover have "delete_climb R h p 1 = Some (False, ?h)"
      using delete_climb_step(2) [OF fresh(5) _ 2 S(1), of 1] C(4) fresh(1) by simp
    ultimately show ?thesis using x unfolding sinks_def j by (intro exI [of _ False] exI [of _ ?h]) simp
  next
    case 3
    have x: "height x = height s + 2" using B(1) 3 by simp
    then obtain xl m xr where X: "x = Node xl m xr" by (cases x) auto
    have F: "focus h (FL p s # ?c) xl m xr" using P X by (simp add: focus_down)
    obtain h' where H: "RtlpRebalanceAvlTreeNode h p = Some (Balance h m = 0, h')"
      "leveled h h' p ?c (inorder (Node x p s)) (height s + (if Balance h m = 0 then 3 else 2))"
      using rebalance_left [OF F _ _ _ C(2)] 3 B(3) x X by auto
    show ?thesis
    proof (cases "Balance h m = 0")
      case True
      have "settled h h' R (inorder (plug c (Node x p s))) (ctx_height c (height s + 3))"
        by (rule leveled_settled) (use H(2) True B(4) x fresh(6) in \<open>auto simp: numeral_3_eq_3\<close>)
      moreover have "delete_climb R h p 1 = Some (False, h')" using delete_climb_step(3) [OF fresh(5), of 1] 3 H(1) True by simp
      ultimately show ?thesis using x unfolding sinks_def j by (intro exI [of _ False] exI [of _ h']) (simp add: numeral_3_eq_3)
    next
      case False
      have bx: "avl_ctx (Balance h) c (Suc (height s + 2))" using B(4) x by simp
      have "\<exists>lost h''. delete_climb R h p 1 = Some (lost, h'') \<and>
        settled h h'' R (inorder (plug c (Node x p s))) (ctx_height c (Suc (height s + 2)) - (if lost then 1 else 0))"
      proof (rule sink_rebalanced [where h' = h'])
        show "sinks h R c (inorder (plug c t)) (ctx_height c (Suc (height t)))" if "shrinking h R c t" for h :: "('d, 'z) avl_heap_scheme" and t
          by (rule IH [OF that])
      qed (use bx H False 3 fresh S(2-4) C(4) in auto)
      then obtain lost h'' where "delete_climb R h p 1 = Some (lost, h'')"
        "settled h h'' R (inorder (plug c (Node x p s))) (ctx_height c (Suc (height s + 2)) - (if lost then 1 else 0))" by blast
      then show ?thesis using x unfolding sinks_def j by (intro exI [of _ lost] exI [of _ h'']) simp
    qed
  qed
qed

lemma delete_climb_settles: "shrinking h R c s \<Longrightarrow> sinks h R c (inorder (plug c s)) (ctx_height c (Suc (height s)))"
proof (induction c arbitrary: h s)
  case Nil
  then show ?case using sink_top by fastforce
next
  case (Cons f c)
  then show ?case by (cases f) (auto dest: sink_left [rotated] sink_right [rotated])
qed

section \<open>Unlinking a node\<close>

lemma unlink_left:
  fixes h :: "'z links_scheme"
  assumes F: "focus h (FL p x # c) l n r" and t: "is_tree h n a s" "set_tree s \<subseteq> set_tree l \<union> set_tree r" "distinct (inorder s)"
  defines "h' \<equiv> h\<lparr>left_of := (left_of h)(p := a), parent_of := reparent (parent_of h) a p\<rparr>"
  shows "focus h' c s p x"
proof -
  have d: "live h p" "is_tree h p (right_of h p) x" "is_ctx h c p (parent_of h p)"
    "distinct (p # inorder x @ frame_list c)" "(set_tree l \<union> set_tree r) \<inter> (insert p (set_tree x \<union> set (frame_list c))) = {}"
    using F by (auto simp: focus_def)
  have a: "a = 0 \<or> a \<in> set_tree s" using is_tree_ptr [OF t(1)] by auto
  have ps: "p \<notin> set_tree s" using t(2) d(5) by blast
  have "y \<notin> set_tree s \<and> y \<noteq> p \<and> live h y" if "y \<in> set_tree x \<or> y \<in> set (frame_list c)" for y
    using that t(2) d(4,5) is_tree_nonzero [OF d(2)] is_ctx_live [OF d(3)] by auto
  then have other: "live h' y \<and> left_of h' y = left_of h y \<and> right_of h' y = right_of h y \<and> parent_of h' y = parent_of h y"
    if "y \<in> set_tree x \<or> y \<in> set (frame_list c)" for y
    using that a by (auto simp: h'_def reparent_apply)
  have "is_tree h' p a s"
  proof (rule is_tree_moved [OF t(1)])
    show "live h' y \<and> left_of h' y = left_of h y \<and> right_of h' y = right_of h y" if "y \<in> set_tree s" for y
      using that ps is_tree_nonzero [OF t(1) that] by (auto simp: h'_def)
  qed (use t(3) in \<open>simp_all add: h'_def reparent_apply\<close>)
  moreover have "is_tree h' p (right_of h p) x" by (rule is_tree_same [OF d(2)]) (use other in blast)
  moreover have "is_ctx h' c p (parent_of h p)" by (rule is_ctx_same [OF d(3)]) (use other in blast)
  moreover have "parent_of h' p = parent_of h p" "left_of h' p = a" "right_of h' p = right_of h p" "live h' p"
    using ps a d(1) by (auto simp: h'_def reparent_apply)
  moreover have "distinct (inorder s @ p # inorder x @ frame_list c)" using d(4,5) t(2,3) by auto
  ultimately show ?thesis by (simp add: focus_def)
qed

lemma unlink_right:
  fixes h :: "'z links_scheme"
  assumes F: "focus h (FR x p # c) l n r" and t: "is_tree h n a s" "set_tree s \<subseteq> set_tree l \<union> set_tree r" "distinct (inorder s)"
  defines "h' \<equiv> h\<lparr>right_of := (right_of h)(p := a), parent_of := reparent (parent_of h) a p\<rparr>"
  shows "focus h' c x p s"
proof -
  have d: "live h p" "is_tree h p (left_of h p) x" "is_ctx h c p (parent_of h p)"
    "distinct (p # inorder x @ frame_list c)" "(set_tree l \<union> set_tree r) \<inter> (insert p (set_tree x \<union> set (frame_list c))) = {}"
    using F by (auto simp: focus_def)
  have a: "a = 0 \<or> a \<in> set_tree s" using is_tree_ptr [OF t(1)] by auto
  have ps: "p \<notin> set_tree s" using t(2) d(5) by blast
  have "y \<notin> set_tree s \<and> y \<noteq> p \<and> live h y" if "y \<in> set_tree x \<or> y \<in> set (frame_list c)" for y
    using that t(2) d(4,5) is_tree_nonzero [OF d(2)] is_ctx_live [OF d(3)] by auto
  then have other: "live h' y \<and> left_of h' y = left_of h y \<and> right_of h' y = right_of h y \<and> parent_of h' y = parent_of h y"
    if "y \<in> set_tree x \<or> y \<in> set (frame_list c)" for y
    using that a by (auto simp: h'_def reparent_apply)
  have "is_tree h' p a s"
  proof (rule is_tree_moved [OF t(1)])
    show "live h' y \<and> left_of h' y = left_of h y \<and> right_of h' y = right_of h y" if "y \<in> set_tree s" for y
      using that ps is_tree_nonzero [OF t(1) that] by (auto simp: h'_def)
  qed (use t(3) in \<open>simp_all add: h'_def reparent_apply\<close>)
  moreover have "is_tree h' p (left_of h p) x" by (rule is_tree_same [OF d(2)]) (use other in blast)
  moreover have "is_ctx h' c p (parent_of h p)" by (rule is_ctx_same [OF d(3)]) (use other in blast)
  moreover have "parent_of h' p = parent_of h p" "right_of h' p = a" "left_of h' p = left_of h p" "live h' p"
    using ps a d(1) by (auto simp: h'_def reparent_apply)
  moreover have "distinct (inorder x @ p # inorder s @ frame_list c)" using d(4,5) t(2,3) by auto
  ultimately show ?thesis by (simp add: focus_def)
qed

text \<open>The code that unlinks \<open>n\<close>, which has at most one child.\<close>

definition unlink_node :: "'z links_scheme \<Rightarrow> nat \<Rightarrow> nat \<Rightarrow> bool \<Rightarrow> link_ref \<Rightarrow> 'z links_scheme option" where
  "unlink_node h n p isleft child = do {
     v \<leftarrow> get_link h child;
     h \<leftarrow> set_link h (p, isleft) v;
     v \<leftarrow> get_link h child;
     if v \<noteq> 0 then set_Parent h v p else Some h
   }"

lemma unlink_runs:
  fixes h :: "('d, 'z) avl_heap_scheme"
  assumes F: "focus h (c @ sentinel R) l n r" and one: "l = Leaf \<or> r = Leaf"
  defines "p \<equiv> parent_of h n"
  shows "\<exists>h'. unlink_node h n p (snd (joint (c @ sentinel R)) = -1) (n, left_of h n \<noteq> 0) = Some h' \<and> relinked h h' \<and>
    below h' R (plug c (if l = Leaf then r else l))"
proof -
  let ?s = "if l = Leaf then r else l" and ?a = "if left_of h n \<noteq> 0 then left_of h n else right_of h n"
  obtain f C where fC: "c @ sentinel R = f # C" by (cases c) auto
  note P = F [unfolded fC]
  have t: "is_tree h n ?a ?s" "set_tree ?s \<subseteq> set_tree l \<union> set_tree r" "distinct (inorder ?s)"
    using P focus_live(2) [OF P] by (auto simp: focus_def)
  have a: "?a = 0 \<or> live h ?a" using is_tree_ptr [OF t(1)] by blast
  note lv = focus_live(1) [OF P] joint_side(1,2) [OF P list.distinct(2)]
  have np: "n \<noteq> p" using P by (cases f) (auto simp: focus_def p_def)
  show ?thesis
  proof (cases f)
    case (FL q x)
    let ?h = "h\<lparr>left_of := (left_of h)(q := ?a), parent_of := reparent (parent_of h) ?a q\<rparr>"
    have q: "q = p" using P FL by (simp add: focus_def p_def)
    have fo: "focus ?h C ?s q x" by (rule unlink_left [OF P [unfolded FL] t])
    obtain c' where c': "c = f # c'" "C = c' @ sentinel R" using fC FL by (cases c) auto
    have "below ?h R (plug c ?s)" using fo c' FL by (simp add: below_focus)
    moreover have "unlink_node h n p True (n, left_of h n \<noteq> 0) = Some ?h"
      using lv a np q by (auto simp: unlink_node_def get_link_def set_link_def links_live p_def reparent_def)
    ultimately show ?thesis using FL fC by (intro exI [of _ ?h]) (simp add: relinked_def)
  next
    case (FR x q)
    let ?h = "h\<lparr>right_of := (right_of h)(q := ?a), parent_of := reparent (parent_of h) ?a q\<rparr>"
    have q: "q = p" using P FR by (simp add: focus_def p_def)
    have fo: "focus ?h C x q ?s" by (rule unlink_right [OF P [unfolded FR] t])
    have "below ?h R (plug c ?s)"
    proof (cases c)
      case Nil
      then show ?thesis using fo fC FR by (simp add: below_def)
    next
      case (Cons f' c')
      then show ?thesis using fo fC FR by (simp flip: below_focus)
    qed
    moreover have "unlink_node h n p False (n, left_of h n \<noteq> 0) = Some ?h"
      using lv a np q by (auto simp: unlink_node_def get_link_def set_link_def links_live p_def reparent_def)
    ultimately show ?thesis using FR fC by (intro exI [of _ ?h]) (simp add: relinked_def)
  qed
qed

section \<open>Putting a node in the place of another\<close>

text \<open>The code that gives \<open>m\<close> the place of \<open>n\<close>.\<close>

definition put_in_place :: "('d, 'z) avl_heap_scheme \<Rightarrow> nat \<Rightarrow> nat \<Rightarrow> ('d, 'z) avl_heap_scheme option" where
  "put_in_place h m n = do {
     h \<leftarrow> RtlpCopyAvlNodeData h m n;
     isleft \<leftarrow> RtlIsLeftChild h n;
     p \<leftarrow> RtlParent h m;
     h \<leftarrow> set_link h (p, isleft) m;
     l \<leftarrow> RtlLeftChild h m;
     h \<leftarrow> (if l \<noteq> 0 then set_Parent h l m else Some h);
     r \<leftarrow> RtlRightChild h m;
     if r \<noteq> 0 then set_Parent h r m else Some h
   }"

lemma replaced_focus:
  fixes h h' :: "('d, 'z) avl_heap_scheme"
  assumes F: "focus h c l n r" "c \<noteq> []" and m: "live h m" "m \<notin> set (n # inorder l @ inorder r @ frame_list c)"
    and live: "\<And>y. live h' y = live h y"
    and par: "\<And>y. parent_of h' y = (if y = m then parent_of h n else if y \<noteq> 0 \<and> (y = left_of h n \<or> y = right_of h n) then m else parent_of h y)"
    and le: "\<And>y. left_of h' y = (if y = m then left_of h n else if left_of h (parent_of h n) = n \<and> y = parent_of h n then m else left_of h y)"
    and ri: "\<And>y. right_of h' y = (if y = m then right_of h n else if left_of h (parent_of h n) \<noteq> n \<and> y = parent_of h n then m else right_of h y)"
  shows "focus h' c l m r"
proof -
  have d: "live h n" "is_tree h n (left_of h n) l" "is_tree h n (right_of h n) r" "is_ctx h c n (parent_of h n)"
    "distinct (inorder l @ n # inorder r @ frame_list c)" using F(1) by (simp_all add: focus_def)
  have n: "n \<notin> set (frame_list c)" using d(5) by simp
  note q = ctx_parent(3) [OF d(4,1) n F(2)]
  have ptr: "left_of h n = 0 \<or> left_of h n \<in> set_tree l" "right_of h n = 0 \<or> right_of h n \<in> set_tree r"
    using is_tree_ptr [OF d(2)] is_tree_ptr [OF d(3)] by auto
  have kid: "is_tree h' m a t" if "is_tree h n a t" "a = left_of h n \<and> t = l \<or> a = right_of h n \<and> t = r" for a t
  proof (rule is_tree_moved [OF that(1)])
    show "live h' y \<and> left_of h' y = left_of h y \<and> right_of h' y = right_of h y" if "y \<in> set_tree t" for y
      using that \<open>a = _ \<and> t = l \<or> _\<close> q m(2) d(5) is_tree_nonzero [OF \<open>is_tree h n a t\<close> that] by (auto simp: le ri live)
    show "parent_of h' y = parent_of h y" if "y \<in> set_tree t" "y \<noteq> a" for y
      using that \<open>a = _ \<and> t = l \<or> _\<close> ptr m(2) d(5) by (auto simp: par)
    show "distinct (inorder t)" using that(2) d(5) by auto
    show "parent_of h' a = m" if "a \<noteq> 0" using that \<open>a = _ \<and> t = l \<or> _\<close> ptr m(2) by (auto simp: par)
  qed
  have "is_ctx h' c m (if c = [] then m else parent_of h n)"
  proof (rule is_ctx_refilled [OF d(4)])
    show "refilled h h' c m"
      using d(1,4) n m(2) q by (cases c; cases "hd c") (auto simp: le ri dest!: is_tree_ptr)
    show "live h' y \<and> parent_of h' y = parent_of h y" if "y \<in> set (frame_list c)" for y
      using that is_ctx_live [OF d(4) that] m(2) d(5) ptr by (auto simp: live par)
    show "left_of h' y = left_of h y \<and> right_of h' y = right_of h y" if "y \<in> set (frame_list c)" "y \<notin> top_node c" for y
      using that m(2) q by (auto simp: le ri)
  qed (use d(5) in simp)
  then have "is_ctx h' c m (parent_of h' m)" using F(2) by (simp add: par)
  then show ?thesis using kid [OF d(2)] kid [OF d(3)] d(5) m live by (simp add: focus_def le ri)
qed

lemma replace_runs:
  assumes F: "focus h c l n r" "c \<noteq> []" and m: "live h m" "m \<notin> set (n # inorder l @ inorder r @ frame_list c)"
  shows "\<exists>h'. put_in_place h m n = Some h' \<and> focus h' c l m r \<and> alloc h' = alloc h \<and> UserData h' = UserData h \<and>
    Balance h' = (Balance h)(m := Balance h n)"
proof -
  let ?p = "parent_of h n" and ?l = "left_of h n" and ?r = "right_of h n"
  have d: "live h n" "is_tree h n ?l l" "is_tree h n ?r r" "is_ctx h c n ?p" "n \<notin> set (frame_list c)"
    "n \<notin> set_tree l" "n \<notin> set_tree r" "set_tree l \<inter> set_tree r = {}"
    using F(1) by (auto simp: focus_def)
  note q = ctx_parent(1) [OF d(4,1,5)] ctx_parent(3) [OF d(4,1,5) F(2)]
  have ptr: "?l = 0 \<or> ?l \<in> set_tree l \<and> live h ?l" "?r = 0 \<or> ?r \<in> set_tree r \<and> live h ?r"
    using is_tree_ptr [OF d(2)] is_tree_ptr [OF d(3)] by blast+
  have ne: "m \<noteq> n" "m \<noteq> ?p" "?l \<noteq> m" "?r \<noteq> m" "n \<noteq> ?p" "m \<noteq> 0" using m q(2) d(5) ptr by (auto simp: live_def)
  let ?h = "h\<lparr>parent_of := reparent (reparent ((parent_of h)(m := ?p)) ?l m) ?r m,
    left_of := (if left_of h ?p = n then ((left_of h)(m := ?l))(?p := m) else (left_of h)(m := ?l)),
    right_of := (if left_of h ?p = n then (right_of h)(m := ?r) else ((right_of h)(m := ?r))(?p := m)),
    Balance := (Balance h)(m := Balance h n)\<rparr>"
  have "put_in_place h m n = Some ?h"
    using d(1) m(1) q(1) ptr ne
    by (auto simp: put_in_place_def RtlpCopyAvlNodeData_def load_links_def store_links_def RtlBalance_live links_live
        RtlIsLeftChild_def set_link_def reparent_def)
  moreover have "focus ?h c l m r"
    by (rule replaced_focus [OF F m]) (use ne in \<open>auto simp: reparent_apply\<close>)
  ultimately show ?thesis by (intro exI [of _ ?h]) simp
qed

section \<open>The deletion\<close>

text \<open>The stages of the deletion: unlinking the node and climbing, then giving it the place of the other.\<close>

definition remove_node :: "nat \<Rightarrow> ('d, 'z) avl_heap_scheme \<Rightarrow> nat \<Rightarrow> (bool \<times> ('d, 'z) avl_heap_scheme) option" where
  "remove_node R h n = do {
     p \<leftarrow> RtlParent h n;
     l \<leftarrow> RtlLeftChild h n;
     isleft \<leftarrow> RtlIsLeftChild h n;
     h \<leftarrow> unlink_node h n p isleft (n, l \<noteq> 0);
     h \<leftarrow> RtlSetBalance h R RtlBalancedAvlTree;
     delete_climb R h p (if isleft then RtlLeftHeavyAvlTree else RtlRightHeavyAvlTree)
   }"

lemma delete_stages:
  "RtlpDeleteAvlTreeNode Table h n = do {
     m \<leftarrow> pick_delete_node h n;
     (lost, h) \<leftarrow> remove_node (BalancedRoot Table) h m;
     let Table = (if lost then Table\<lparr>DepthOfTree := DepthOfTree Table - 1\<rparr> else Table);
     if n = m then Some (Table, h) else do { h \<leftarrow> put_in_place h m n; Some (Table, h) }
   }"
  unfolding RtlpDeleteAvlTreeNode_def remove_node_def unlink_node_def put_in_place_def Let_def
  by (simp add: bind_assoc split_def cong: if_cong)

lemma remove_runs:
  fixes h :: "('d, 'z) avl_heap_scheme"
  assumes F: "focus h (c @ sentinel R) l n r" and one: "l = Leaf \<or> r = Leaf" and B: "avl (Balance h) (plug c (Node l n r))"
  shows "\<exists>lost h'. remove_node R h n = Some (lost, h') \<and>
    settled h h' R (before c @ inorder l @ inorder r @ after c) (height (plug c (Node l n r)) - (if lost then 1 else 0))"
proof -
  let ?s = "if l = Leaf then r else l" and ?c = "c @ sentinel R"
  have nz: "?c \<noteq> []" by simp
  obtain h1 where H: "unlink_node h n (parent_of h n) (snd (joint ?c) = -1) (n, left_of h n \<noteq> 0) = Some h1" "relinked h h1"
    "below h1 R (plug c ?s)" using unlink_runs [OF F one] by blast
  note H1 = relinked_fields [OF H(2)] relinked_live [OF H(2)]
  note S = sentinel_live [OF F] and J = joint_side [OF F nz]
  let ?h = "h1\<lparr>Balance := (Balance h)(R := 0)\<rparr>"
  have hs: "Suc (height ?s) = height (Node l n r)" "inorder ?s = inorder l @ inorder r" using one by auto
  have "avl (Balance ?h) ?s" "avl_ctx (Balance ?h) c (Suc (height ?s))"
    using B S hs(1) by (auto simp: avl_plug simp del: height_tree.simps)
  moreover have "below ?h R (plug c ?s)" using H(3) by (simp add: below_def)
  ultimately have "shrinking ?h R c ?s" by (simp add: shrinking_def)
  from delete_climb_settles [OF this] obtain lost h' where D: "delete_climb R ?h (fst (joint ?c)) (snd (joint ?c)) = Some (lost, h')"
    "settled ?h h' R (inorder (plug c ?s)) (ctx_height c (Suc (height ?s)) - (if lost then 1 else 0))"
    unfolding sinks_def by blast
  have bal: "(if snd (joint ?c) = -1 then RtlLeftHeavyAvlTree else RtlRightHeavyAvlTree) = snd (joint ?c)"
    by (cases ?c rule: joint.cases) (simp_all add: avl_balance)
  have "remove_node R h n = Some (lost, h')"
    using focus_live(1) [OF F] J H(1) H1 S(1) D(1) bal
    by (simp add: remove_node_def links_live RtlBalance_live avl_balance)
  moreover have "settled h h' R (before c @ inorder l @ inorder r @ after c) (height (plug c (Node l n r)) - (if lost then 1 else 0))"
    using settled_trans [OF D(2), of h] H(2) H1 hs by (simp add: relinked_def inorder_plug height_plug del: height_tree.simps)
  ultimately show ?thesis by blast
qed

text \<open>The ends of a tree, as subtrees in a context.\<close>

lemma leftmost_context:
  "is_tree h q p t \<Longrightarrow> t \<noteq> Leaf \<Longrightarrow> \<exists>c m r. leftmost h p = Some m \<and> t = plug c (Node Leaf m r) \<and> before c = []"
proof (induction t arbitrary: q p)
  case (Node l a r)
  then have p: "p = a" "live h a" "is_tree h a (left_of h a) l" by auto
  show ?case
  proof (cases l)
    case Leaf
    then show ?thesis using p by (intro exI [of _ "[]"]) (simp add: leftmost.simps [of h a] links_live)
  next
    case (Node x y z)
    then obtain c m r' where "leftmost h (left_of h a) = Some m" "l = plug c (Node Leaf m r')" "before c = []"
      using Node.IH(1) [OF p(3)] by blast
    moreover have "leftmost h a = leftmost h (left_of h a)" using p Node by (subst leftmost.simps) (auto simp: links_live)
    ultimately show ?thesis using p(1)
      by (intro exI [of _ "c @ [FL a r]"] exI [of _ m] exI [of _ r']) (simp add: plug_append before_append)
  qed
qed simp

lemma rightmost_context:
  "is_tree h q p t \<Longrightarrow> t \<noteq> Leaf \<Longrightarrow> \<exists>c m l. rightmost h p = Some m \<and> t = plug c (Node l m Leaf) \<and> after c = []"
proof (induction t arbitrary: q p)
  case (Node l a r)
  then have p: "p = a" "live h a" "is_tree h a (right_of h a) r" by auto
  show ?case
  proof (cases r)
    case Leaf
    then show ?thesis using p by (intro exI [of _ "[]"]) (simp add: rightmost.simps [of h a] links_live)
  next
    case (Node x y z)
    then obtain c m l' where "rightmost h (right_of h a) = Some m" "r = plug c (Node l' m Leaf)" "after c = []"
      using Node.IH(2) [OF p(3)] by blast
    moreover have "rightmost h a = rightmost h (right_of h a)" using p Node by (subst rightmost.simps) (auto simp: links_live)
    ultimately show ?thesis using p(1)
      by (intro exI [of _ "c @ [FR l a]"] exI [of _ m] exI [of _ l']) (simp add: plug_append after_append)
  qed
qed simp

text \<open>The node that is unlinked has at most one child, and is the node or a neighbour of it.\<close>

lemma pick_context:
  assumes F: "focus h (c @ sentinel R) l n r"
  shows "\<exists>m c' l' r'. pick_delete_node h n = Some m \<and> plug c (Node l n r) = plug c' (Node l' m r') \<and> (l' = Leaf \<or> r' = Leaf) \<and>
    (m = n \<and> c' = c \<and> l' = l \<and> r' = r \<or>
     (\<exists>xs ys. before c' @ inorder l' @ inorder r' @ after c' = xs @ n # ys \<and>
       (inorder (plug c (Node l n r)) = xs @ n # m # ys \<or> inorder (plug c (Node l n r)) = xs @ m # n # ys)))"
proof (cases "l = Leaf \<or> r = Leaf")
  case True
  then show ?thesis using focus_live [OF F]
    by (intro exI [of _ n] exI [of _ c] exI [of _ l] exI [of _ r]) (auto simp: pick_delete_node_def links_live)
next
  case False
  have t: "is_tree h n (left_of h n) l" "is_tree h n (right_of h n) r" using F by (auto simp: focus_def)
  have pick: "pick_delete_node h n = (if Balance h n \<ge> 0 then leftmost h (right_of h n) else rightmost h (left_of h n))"
    using focus_live [OF F] False by (auto simp: pick_delete_node_def links_live RtlBalance_live avl_balance)
  show ?thesis
  proof (cases "Balance h n \<ge> 0")
    case True
    obtain c1 m r' where L: "leftmost h (right_of h n) = Some m" "r = plug c1 (Node Leaf m r')" "before c1 = []"
      using leftmost_context [OF t(2)] False by blast
    let ?c = "c1 @ FR l n # c"
    have "before ?c @ inorder Leaf @ inorder r' @ after ?c = (before c @ inorder l) @ n # inorder r' @ after c1 @ after c"
      "inorder (plug c (Node l n r)) = (before c @ inorder l) @ n # m # inorder r' @ after c1 @ after c"
      using L by (simp_all add: before_append after_append inorder_plug)
    moreover have "plug c (Node l n r) = plug ?c (Node Leaf m r')" using L(2) by (simp add: plug_append)
    moreover have "pick_delete_node h n = Some m" using pick True L(1) by simp
    ultimately show ?thesis by blast
next
    case neg: False
    obtain c1 m l' where L: "rightmost h (left_of h n) = Some m" "l = plug c1 (Node l' m Leaf)" "after c1 = []"
      using rightmost_context [OF t(1)] False by blast
    let ?c = "c1 @ FL n r # c"
    have "before ?c @ inorder l' @ inorder Leaf @ after ?c = (before c @ before c1 @ inorder l') @ n # inorder r @ after c"
      "inorder (plug c (Node l n r)) = (before c @ before c1 @ inorder l') @ m # n # inorder r @ after c"
      using L by (simp_all add: before_append after_append inorder_plug)
    moreover have "plug c (Node l n r) = plug ?c (Node l' m Leaf)" using L(2) by (simp add: plug_append)
    moreover have "pick_delete_node h n = Some m" using pick neg L(1) by simp
    ultimately show ?thesis by blast
  qed
qed

lemma below_node:
  assumes "below h R t" "inorder t = xs @ n # ys"
  obtains c l r where "t = plug c (Node l n r)" "focus h (c @ sentinel R) l n r"
    "xs = before c @ inorder l" "ys = inorder r @ after c"
proof -
  have "n \<in> set_tree t" using assms(2) by (simp flip: set_inorder)
  then obtain c l r where t: "t = plug c (Node l n r)" using node_context by blast
  have "(before c @ inorder l) @ n # inorder r @ after c = xs @ n # ys" using assms(2) by (simp add: t inorder_plug)
  moreover have "distinct (xs @ n # ys)" using below_facts(6) [OF assms(1)] assms(2) by simp
  ultimately have "xs = before c @ inorder l \<and> ys = inorder r @ after c" using distinct_split_unique by metis
  then show ?thesis using that [OF t] assms(1) t below_focus [of h c R l n r] by simp
qed

lemma put_settles:
  assumes S: "settled h h' R (us @ n # vs) k" and m: "live h m" "m \<notin> set (us @ n # vs)" "m \<noteq> R"
  shows "\<exists>h''. put_in_place h' m n = Some h'' \<and> settled h h'' R (us @ m # vs) k"
proof -
  obtain t where t: "below h' R t" "inorder t = us @ n # vs" "avl (Balance h') t" "height t = k" and h': "alloc h' = alloc h" "UserData h' = UserData h"
    using S by (auto simp: settled_def)
  obtain c l r where c: "t = plug c (Node l n r)" "focus h' (c @ sentinel R) l n r" "us = before c @ inorder l" "vs = inorder r @ after c"
    using below_node [OF t(1,2)] .
  have "set_tree t = set (us @ n # vs)" using t(2) by (metis set_inorder)
  then have fresh: "m \<notin> set_tree (plug c (Node l n r))" using m(2) c(1) by simp
  then have fr: "m \<notin> set (n # inorder l @ inorder r @ frame_list (c @ sentinel R))" "m \<notin> set (frame_list c)" "m \<notin> set_tree l" "m \<notin> set_tree r" "m \<noteq> n"
    using m(3) by (auto simp: set_plug)
  have "live h' m" using m(1) h' by (simp add: live_def)
  then obtain h'' where H: "put_in_place h' m n = Some h''" "focus h'' (c @ sentinel R) l m r" "alloc h'' = alloc h'" "UserData h'' = UserData h'"
    "Balance h'' = (Balance h')(m := Balance h' n)" using replace_runs [OF c(2) _ _ fr(1)] by auto
  have "avl (Balance h') (Node l n r)" "avl_ctx (Balance h') c (height (Node l n r))" using t(3) by (simp_all only: c(1) avl_plug)
  then have "settled h h'' R (us @ m # vs) k"
    by (intro settledI [OF H(2)])
      (use fr H(3-5) h' t(4) in \<open>simp_all add: c inorder_plug height_plug\<close>)
  then show ?thesis using H(1) by blast
qed

lemma delete_node_runs:
  assumes "below h (BalancedRoot Table) t" "avl (Balance h) t" "inorder t = xs @ n # ys"
  shows "\<exists>lost h'. RtlpDeleteAvlTreeNode Table h n =
      Some (if lost then Table\<lparr>DepthOfTree := DepthOfTree Table - 1\<rparr> else Table, h') \<and>
    settled h h' (BalancedRoot Table) (xs @ ys) (height t - (if lost then 1 else 0))"
proof -
  let ?R = "BalancedRoot Table"
  obtain c l r where c: "t = plug c (Node l n r)" "focus h (c @ sentinel ?R) l n r" "xs = before c @ inorder l" "ys = inorder r @ after c"
    using below_node [OF assms(1,3)] .
  from pick_context [OF c(2)] obtain m c' l' r' where P: "pick_delete_node h n = Some m" "t = plug c' (Node l' m r')" "l' = Leaf \<or> r' = Leaf"
    "m = n \<and> c' = c \<and> l' = l \<and> r' = r \<or> (\<exists>us vs. before c' @ inorder l' @ inorder r' @ after c' = us @ n # vs \<and>
       (inorder t = us @ n # m # vs \<or> inorder t = us @ m # n # vs))" unfolding c(1) by blast
  have "focus h (c' @ sentinel ?R) l' m r'" using assms(1) P(2) by (simp add: below_focus)
  from remove_runs [OF this P(3)] obtain lost h' where D: "remove_node ?R h m = Some (lost, h')"
    "settled h h' ?R (before c' @ inorder l' @ inorder r' @ after c') (height t - (if lost then 1 else 0))"
    using assms(2) unfolding P(2) by blast
  from P(4) show ?thesis
  proof
    assume "m = n \<and> c' = c \<and> l' = l \<and> r' = r"
    then show ?thesis using D P(1) c(3,4) by (intro exI [of _ lost] exI [of _ h']) (simp add: delete_stages)
  next
    assume "\<exists>us vs. before c' @ inorder l' @ inorder r' @ after c' = us @ n # vs \<and> (inorder t = us @ n # m # vs \<or> inorder t = us @ m # n # vs)"
    then obtain us vs where E: "before c' @ inorder l' @ inorder r' @ after c' = us @ n # vs"
      "inorder t = us @ n # m # vs \<or> inorder t = us @ m # n # vs" by blast
    note f = below_facts [OF assms(1)]
    have m: "m \<in> set_tree t" "m \<notin> set (us @ n # vs)" using E(2) f(6) by (auto simp flip: set_inorder)
    have "live h m" "m \<noteq> ?R" using is_tree_nonzero [OF f(2) m(1)] f(5) m(1) by auto
    then obtain h'' where H: "put_in_place h' m n = Some h''" "settled h h'' ?R (us @ m # vs) (height t - (if lost then 1 else 0))"
      using put_settles [OF D(2) [unfolded E(1)] _ m(2)] by blast
    have ns: "us @ m # vs = xs @ ys"
    proof -
      have d: "distinct (xs @ n # ys)" using f(6) assms(3) by simp
      from E(2) show ?thesis
      proof
        assume "inorder t = us @ n # m # vs"
        then have "xs = us \<and> ys = m # vs" using distinct_split_unique [OF d] assms(3) by metis
        then show ?thesis by simp
      next
        assume "inorder t = us @ m # n # vs"
        then have "xs = us @ [m] \<and> ys = vs" using distinct_split_unique [OF d, of "us @ [m]" vs] assms(3) by simp
        then show ?thesis by simp
      qed
    qed
    have "n \<noteq> m" using m(2) by auto
    then show ?thesis using D(1) P(1) H ns by (intro exI [of _ lost] exI [of _ h'']) (simp add: delete_stages)
  qed
qed

end
