(* ===== verification/Avl_Table.thy ===== *)
theory Avl_Table
  imports Avl_Links
begin

text \<open>
  The AVL tables of \<^verbatim>\<open>libs/ntdll/avltable.c\<close>.  A pointer to the data of a node is named by the
  node; the callbacks of the table (compare, allocate, free) are arguments.
\<close>

section \<open>Setting up\<close>

text \<open>\<open>zero_table\<close> is \<^verbatim>\<open>RtlZeroMemory\<close> on the table that lies at \<open>p\<close>.\<close>

definition RtlInitializeGenericTableAvl ::
  "('d, 'z) avl_heap_scheme \<Rightarrow> nat \<Rightarrow> (RTL_AVL_TABLE \<times> ('d, 'z) avl_heap_scheme) option" where
  "RtlInitializeGenericTableAvl h p = do {
     h \<leftarrow> store_links h p (0, 0, 0);
     h \<leftarrow> RtlSetBalance h p 0;
     h \<leftarrow> set_Parent h p p;
     Some (\<lparr>BalancedRoot = p, OrderedPointer = 0, WhichOrderedElement = 0,
       NumberGenericTableElements = 0, DepthOfTree = 0, RestartKey = 0, DeleteCount = 0\<rparr>, h)
   }"

section \<open>Insertion and lookup\<close>

text \<open>
  The result: the item (\<open>0\<close> for null), what is stored in \<^verbatim>\<open>*NewElement\<close>, the table and the
  heap.  \<^verbatim>\<open>FIELD_OFFSET(TABLE_ENTRY_HEADER, UserData)\<close> is 32.
\<close>

definition RtlInsertElementGenericTableFullAvl ::
  "(('d, 'z) avl_heap_scheme \<Rightarrow> u32 \<Rightarrow> nat \<times> ('d, 'z) avl_heap_scheme) \<Rightarrow> RTL_AVL_TABLE \<Rightarrow>
     ('d, 'z) avl_heap_scheme \<Rightarrow> 'd \<Rightarrow> u32 \<Rightarrow> nat \<Rightarrow> TABLE_SEARCH_RESULT \<Rightarrow>
     (nat \<times> bool \<times> RTL_AVL_TABLE \<times> ('d, 'z) avl_heap_scheme) option" where
  "RtlInsertElementGenericTableFullAvl AllocateRoutine Table h Buffer BufferSize NodeOrParent SearchResult =
     (if SearchResult \<noteq> TableFoundNode then do {
        let (NewNode, h) = AllocateRoutine h (BufferSize + 32);
        if NewNode = 0 then Some (0, False, Table, h)
        else do {
          h \<leftarrow> store_links h NewNode (0, 0, 0);
          h \<leftarrow> RtlSetBalance h NewNode 0;
          (Table, h) \<leftarrow> RtlpInsertAvlTreeNode Table h NewNode NodeOrParent SearchResult;
          Some (NewNode, True, Table, h\<lparr>UserData := (UserData h)(NewNode := Buffer)\<rparr>)
        }
      }
      else Some (NodeOrParent, False, Table, h))"

definition RtlInsertElementGenericTableAvl ::
  "('d \<Rightarrow> 'd \<Rightarrow> AVL_COMPARE_RESULTS) \<Rightarrow>
     (('d, 'z) avl_heap_scheme \<Rightarrow> u32 \<Rightarrow> nat \<times> ('d, 'z) avl_heap_scheme) \<Rightarrow> RTL_AVL_TABLE \<Rightarrow>
     ('d, 'z) avl_heap_scheme \<Rightarrow> 'd \<Rightarrow> u32 \<Rightarrow>
     (nat \<times> bool \<times> RTL_AVL_TABLE \<times> ('d, 'z) avl_heap_scheme) option" where
  "RtlInsertElementGenericTableAvl cmp AllocateRoutine Table h Buffer BufferSize = do {
     (Result, NodeOrParent) \<leftarrow> RtlpFindAvlTableNodeOrParent cmp Table h Buffer 0;
     RtlInsertElementGenericTableFullAvl AllocateRoutine Table h Buffer BufferSize NodeOrParent Result
   }"

definition RtlIsGenericTableEmptyAvl :: "RTL_AVL_TABLE \<Rightarrow> bool" where
  "RtlIsGenericTableEmptyAvl Table \<longleftrightarrow> NumberGenericTableElements Table = 0"

definition RtlNumberGenericTableElementsAvl :: "RTL_AVL_TABLE \<Rightarrow> u32" where
  "RtlNumberGenericTableElementsAvl Table = NumberGenericTableElements Table"

text \<open>The result: the item, \<^verbatim>\<open>*NodeOrParent\<close> and \<^verbatim>\<open>*SearchResult\<close>.\<close>

definition RtlLookupElementGenericTableFullAvl ::
  "('d \<Rightarrow> 'd \<Rightarrow> AVL_COMPARE_RESULTS) \<Rightarrow> RTL_AVL_TABLE \<Rightarrow> ('d, 'z) avl_heap_scheme \<Rightarrow> 'd \<Rightarrow> nat \<Rightarrow>
     (nat \<times> nat \<times> TABLE_SEARCH_RESULT) option" where
  "RtlLookupElementGenericTableFullAvl cmp Table h Buffer NodeOrParent = do {
     (SearchResult, NodeOrParent) \<leftarrow> RtlpFindAvlTableNodeOrParent cmp Table h Buffer NodeOrParent;
     if SearchResult \<noteq> TableFoundNode then Some (0, NodeOrParent, SearchResult)
     else Some (NodeOrParent, NodeOrParent, SearchResult)
   }"

definition RtlLookupElementGenericTableAvl ::
  "('d \<Rightarrow> 'd \<Rightarrow> AVL_COMPARE_RESULTS) \<Rightarrow> RTL_AVL_TABLE \<Rightarrow> ('d, 'z) avl_heap_scheme \<Rightarrow> 'd \<Rightarrow> nat option" where
  "RtlLookupElementGenericTableAvl cmp Table h Buffer = do {
     (item, NodeOrParent, Lookup) \<leftarrow> RtlLookupElementGenericTableFullAvl cmp Table h Buffer 0;
     Some item
   }"

section \<open>Enumeration\<close>

text \<open>The result: the item (\<open>0\<close> for null) and the new restart key.\<close>

definition RtlEnumerateGenericTableWithoutSplayingAvl ::
  "RTL_AVL_TABLE \<Rightarrow> ('d, 'z) avl_heap_scheme \<Rightarrow> nat \<Rightarrow> (nat \<times> nat) option" where
  "RtlEnumerateGenericTableWithoutSplayingAvl Table h Key =
     (if RtlIsGenericTableEmptyAvl Table then Some (0, Key)
      else if Key = 0 then do {
        r \<leftarrow> RtlRightChild h (BalancedRoot Table);
        CurrentNode \<leftarrow> leftmost h r;
        Some (CurrentNode, CurrentNode)
      }
      else do {
        CurrentNode \<leftarrow> RtlRealSuccessor h Key;
        Some (CurrentNode, if CurrentNode \<noteq> 0 then CurrentNode else Key)
      })"

definition RtlEnumerateGenericTableAvl ::
  "RTL_AVL_TABLE \<Rightarrow> ('d, 'z) avl_heap_scheme \<Rightarrow> bool \<Rightarrow> (nat \<times> RTL_AVL_TABLE) option" where
  "RtlEnumerateGenericTableAvl Table h Restart = do {
     let Table = (if Restart then Table\<lparr>RestartKey := 0\<rparr> else Table);
     (item, Key) \<leftarrow> RtlEnumerateGenericTableWithoutSplayingAvl Table h (RestartKey Table);
     Some (item, Table\<lparr>RestartKey := Key\<rparr>)
   }"

partial_function (option) match_back ::
  "('d \<Rightarrow> 'd \<Rightarrow> AVL_COMPARE_RESULTS) \<Rightarrow> 'd \<Rightarrow> ('d, 'z) avl_heap_scheme \<Rightarrow> nat \<Rightarrow> nat option" where
  "match_back cmp Buffer h N = do {
     PreviousNode \<leftarrow> RtlRealPredecessor h N;
     if PreviousNode = 0 then Some N
     else do {
       p \<leftarrow> RtlParent h PreviousNode;
       if p = PreviousNode then Some N
       else do {
         d \<leftarrow> user_data h PreviousNode;
         if cmp Buffer d = EqualTo then match_back cmp Buffer h PreviousNode else Some N
       }
     }
   }"

text \<open>The result: the item and \<^verbatim>\<open>*RestartKey\<close>.\<close>

definition RtlLookupFirstMatchingElementGenericTableAvl ::
  "('d \<Rightarrow> 'd \<Rightarrow> AVL_COMPARE_RESULTS) \<Rightarrow> RTL_AVL_TABLE \<Rightarrow> ('d, 'z) avl_heap_scheme \<Rightarrow> 'd \<Rightarrow> (nat \<times> nat) option" where
  "RtlLookupFirstMatchingElementGenericTableAvl cmp Table h Buffer = do {
     (SearchResult, N) \<leftarrow> RtlpFindAvlTableNodeOrParent cmp Table h Buffer 0;
     if SearchResult \<noteq> TableFoundNode then Some (0, 0)
     else do { N \<leftarrow> match_back cmp Buffer h N; Some (N, N) }
   }"

definition RtlGetElementGenericTableAvl :: "RTL_AVL_TABLE \<Rightarrow> u32 \<Rightarrow> nat" where
  "RtlGetElementGenericTableAvl Table I = 0"

section \<open>Deletion\<close>

definition RtlDeleteElementGenericTableAvlEx ::
  "(('d, 'z) avl_heap_scheme \<Rightarrow> nat \<Rightarrow> ('d, 'z) avl_heap_scheme) \<Rightarrow> RTL_AVL_TABLE \<Rightarrow>
     ('d, 'z) avl_heap_scheme \<Rightarrow> nat \<Rightarrow> (bool \<times> RTL_AVL_TABLE \<times> ('d, 'z) avl_heap_scheme) option" where
  "RtlDeleteElementGenericTableAvlEx FreeRoutine Table h N = do {
     Table \<leftarrow> (if N = RestartKey Table then do {
                 p \<leftarrow> RtlRealPredecessor h N; Some (Table\<lparr>RestartKey := p\<rparr>)
               } else Some Table);
     let Table = Table\<lparr>DeleteCount := DeleteCount Table + 1\<rparr>;
     (Table, h) \<leftarrow> RtlpDeleteAvlTreeNode Table h N;
     let Table = Table\<lparr>NumberGenericTableElements := NumberGenericTableElements Table - 1,
                       WhichOrderedElement := 0, OrderedPointer := 0\<rparr>;
     Some (True, Table, FreeRoutine h N)
   }"

definition RtlDeleteElementGenericTableAvl ::
  "('d \<Rightarrow> 'd \<Rightarrow> AVL_COMPARE_RESULTS) \<Rightarrow> (('d, 'z) avl_heap_scheme \<Rightarrow> nat \<Rightarrow> ('d, 'z) avl_heap_scheme) \<Rightarrow>
     RTL_AVL_TABLE \<Rightarrow> ('d, 'z) avl_heap_scheme \<Rightarrow> 'd \<Rightarrow>
     (bool \<times> RTL_AVL_TABLE \<times> ('d, 'z) avl_heap_scheme) option" where
  "RtlDeleteElementGenericTableAvl cmp FreeRoutine Table h Buffer = do {
     (SearchResult, N) \<leftarrow> RtlpFindAvlTableNodeOrParent cmp Table h Buffer 0;
     if SearchResult \<noteq> TableFoundNode then Some (False, Table, h)
     else do {
       Table \<leftarrow> (if N = RestartKey Table then do {
                   p \<leftarrow> RtlRealPredecessor h N; Some (Table\<lparr>RestartKey := p\<rparr>)
                 } else Some Table);
       let Table = Table\<lparr>DeleteCount := DeleteCount Table + 1\<rparr>;
       (Table, h) \<leftarrow> RtlpDeleteAvlTreeNode Table h N;
       let Table = Table\<lparr>NumberGenericTableElements := NumberGenericTableElements Table - 1,
                         WhichOrderedElement := 0, OrderedPointer := 0\<rparr>;
       Some (True, Table, FreeRoutine h N)
     }
   }"

end
