(* ===== verification/Avl_Table_Spec.thy ===== *)
theory Avl_Table_Spec
  imports Avl_Deletion Avl_Table
begin

text \<open>
  What the AVL tables of \<^verbatim>\<open>avltable.c\<close> promise: on a table whose tree is ordered by a key and
  balanced, whose counter is its number of items and whose depth is its height, lookup finds the
  item with the key, insertion adds it where it is missing, deletion takes it out and enumeration
  visits the items in order, and all of them keep the table that way.
\<close>

section \<open>The invariant\<close>

definition avl_compares :: "('d \<Rightarrow> 'd \<Rightarrow> AVL_COMPARE_RESULTS) \<Rightarrow> ('d \<Rightarrow> 'k::linorder) \<Rightarrow> bool" where
  "avl_compares cmp key \<longleftrightarrow>
     (\<forall>x y. cmp x y = (if key x < key y then LessThan else if key y < key x then GreaterThan else EqualTo))"

definition keyed :: "('d \<Rightarrow> 'k::linorder) \<Rightarrow> (nat \<Rightarrow> 'd) \<Rightarrow> nat list \<Rightarrow> bool" where
  "keyed key d xs \<longleftrightarrow> sorted_wrt (\<lambda>x y. key (d x) < key (d y)) xs"

lemma keyed_simps [simp]:
  "keyed key d []"
  "keyed key d (x # xs) \<longleftrightarrow> (\<forall>y \<in> set xs. key (d x) < key (d y)) \<and> keyed key d xs"
  "keyed key d (xs @ ys) \<longleftrightarrow> keyed key d xs \<and> keyed key d ys \<and> (\<forall>x \<in> set xs. \<forall>y \<in> set ys. key (d x) < key (d y))"
  by (simp_all add: keyed_def sorted_wrt_append)

lemma keyed_cong: "(\<And>x. x \<in> set xs \<Longrightarrow> d' x = d x) \<Longrightarrow> keyed key d' xs = keyed key d xs"
  by (induction xs) auto

lemma keyed_update: "p \<notin> set xs \<Longrightarrow> keyed key (d(p := v)) xs = keyed key d xs"
  by (rule keyed_cong) auto

definition avl_table_ok :: "('d \<Rightarrow> 'k::linorder) \<Rightarrow> RTL_AVL_TABLE \<Rightarrow> ('d, 'z) avl_heap_scheme \<Rightarrow> nat tree \<Rightarrow> bool" where
  "avl_table_ok key Table h t \<longleftrightarrow> below h (BalancedRoot Table) t \<and> avl (Balance h) t \<and> keyed key (UserData h) (inorder t) \<and>
     unat (NumberGenericTableElements Table) = size t \<and> unat (DepthOfTree Table) = height t"

definition avl_keys :: "('d \<Rightarrow> 'k) \<Rightarrow> ('d, 'z) avl_heap_scheme \<Rightarrow> nat tree \<Rightarrow> 'k set" where
  "avl_keys key h t = key ` UserData h ` set_tree t"

text \<open>A table that has been set up is empty, whatever its memory held.\<close>

lemma initialized_table_ok:
  assumes "live h p"
  shows "\<exists>Table h'. RtlInitializeGenericTableAvl h p = Some (Table, h') \<and> avl_table_ok key Table h' Leaf"
  using assms
  by (simp add: RtlInitializeGenericTableAvl_def store_links_def links_live RtlBalance_live avl_table_ok_def below_def focus_def)

section \<open>Search\<close>

text \<open>What a search for \<open>v\<close> ends with: the item, or the place where it belongs.\<close>

fun place :: "frame list \<Rightarrow> TABLE_SEARCH_RESULT \<times> nat" where
  "place [] = (TableEmptyTree, 0)"
| "place (FL p r # c) = (TableInsertAsLeft, p)"
| "place (FR l p # c) = (TableInsertAsRight, p)"

definition gap :: "('d \<Rightarrow> 'k::linorder) \<Rightarrow> (nat \<Rightarrow> 'd) \<Rightarrow> 'k \<Rightarrow> frame list \<Rightarrow> nat tree \<Rightarrow> bool" where
  "gap key d v c t \<longleftrightarrow> t = plug c Leaf \<and> (\<forall>x \<in> set (before c). key (d x) < v) \<and> (\<forall>x \<in> set (after c). v < key (d x))"

lemma place_misses [simp]: "fst (place c) \<noteq> TableFoundNode" "place c \<noteq> (TableFoundNode, q)"
  by (cases c rule: place.cases; simp)+

lemma place_append: "c \<noteq> [] \<Longrightarrow> place (c @ e) = place c"
  by (cases c rule: place.cases) auto

lemma gap_nonempty: "gap key d v c t \<Longrightarrow> t \<noteq> Leaf \<Longrightarrow> c \<noteq> []"
  by (auto simp: gap_def)

lemma gap_up:
  assumes "gap key d v c t"
  shows "(\<forall>x \<in> insert a (set_tree r). v < key (d x)) \<Longrightarrow> gap key d v (c @ [FL a r]) (Node t a r)"
    and "(\<forall>x \<in> insert a (set_tree l). key (d x) < v) \<Longrightarrow> gap key d v (c @ [FR l a]) (Node l a t)"
  using assms by (auto simp: gap_def before_append after_append plug_append)

lemma find_down_finds:
  assumes cmp: "avl_compares cmp key"
  shows "is_tree h q p t \<Longrightarrow> keyed key (UserData h) (inorder t) \<Longrightarrow> t \<noteq> Leaf \<Longrightarrow>
    (if key v \<in> avl_keys key h t
     then \<exists>a \<in> set_tree t. key (UserData h a) = key v \<and> find_down cmp v h p = Some (TableFoundNode, a)
     else \<exists>c. gap key (UserData h) (key v) c t \<and> find_down cmp v h p = Some (place c))"
proof (induction t arbitrary: q p)
  case (Node l a r)
  have h: "live h a" "p = a" "is_tree h a (left_of h a) l" "is_tree h a (right_of h a) r" using Node.prems(1) by auto
  have K: "\<forall>x \<in> set_tree l. key (UserData h x) < key (UserData h a)" "\<forall>x \<in> set_tree r. key (UserData h a) < key (UserData h x)"
    "keyed key (UserData h) (inorder l)" "keyed key (UserData h) (inorder r)"
    using Node.prems(2) by auto
  let ?k = "key (UserData h a)"
  consider "key v < ?k" | "?k < key v" | "key v = ?k" by fastforce
  then show ?case
  proof cases
    case 1
    have K2: "\<forall>x \<in> insert a (set_tree r). key v < key (UserData h x)" using 1 K(2) by force
    then have in_l: "key v \<in> avl_keys key h (Node l a r) \<longleftrightarrow> key v \<in> avl_keys key h l"
      using 1 by (auto simp: avl_keys_def)
    have step: "find_down cmp v h p = (if l = Leaf then Some (TableInsertAsLeft, a) else find_down cmp v h (left_of h a))"
      using cmp 1 h is_tree_0 [of h a l] is_tree_ptr [OF h(3)]
      by (subst find_down.simps) (auto simp: user_data_def avl_compares_def links_live)
    show ?thesis
    proof (cases "l = Leaf")
      case True
      then have "gap key (UserData h) (key v) [FL a r] (Node l a r)" using K2 by (auto simp: gap_def)
      then show ?thesis using True step in_l by (auto simp: avl_keys_def)
    next
      case False
      show ?thesis
      proof (cases "key v \<in> avl_keys key h l")
        case True
        then show ?thesis using Node.IH(1) [OF h(3) K(3) False] step False in_l by auto
      next
        case nf: False
        then obtain c where c: "gap key (UserData h) (key v) c l" "find_down cmp v h (left_of h a) = Some (place c)"
          using Node.IH(1) [OF h(3) K(3) False] by auto
        then show ?thesis using gap_up(1) [OF c(1) K2] place_append [OF gap_nonempty [OF c(1) False]] step False in_l nf by auto
      qed
    qed
  next
    case 2
    have K2: "\<forall>x \<in> insert a (set_tree l). key (UserData h x) < key v" using 2 K(1) by force
    then have in_r: "key v \<in> avl_keys key h (Node l a r) \<longleftrightarrow> key v \<in> avl_keys key h r"
      using 2 by (auto simp: avl_keys_def)
    have step: "find_down cmp v h p = (if r = Leaf then Some (TableInsertAsRight, a) else find_down cmp v h (right_of h a))"
      using cmp 2 h is_tree_0 [of h a r] is_tree_ptr [OF h(4)]
      by (subst find_down.simps) (auto simp: user_data_def avl_compares_def links_live)
    show ?thesis
    proof (cases "r = Leaf")
      case True
      then have "gap key (UserData h) (key v) [FR l a] (Node l a r)" using K2 by (auto simp: gap_def)
      then show ?thesis using True step in_r by (auto simp: avl_keys_def)
    next
      case False
      show ?thesis
      proof (cases "key v \<in> avl_keys key h r")
        case True
        then show ?thesis using Node.IH(2) [OF h(4) K(4) False] step False in_r by auto
      next
        case nf: False
        then obtain c where c: "gap key (UserData h) (key v) c r" "find_down cmp v h (right_of h a) = Some (place c)"
          using Node.IH(2) [OF h(4) K(4) False] by auto
        then show ?thesis using gap_up(2) [OF c(1) K2] place_append [OF gap_nonempty [OF c(1) False]] step False in_r nf by auto
      qed
    qed
  next
    case 3
    have "find_down cmp v h p = Some (TableFoundNode, a)"
      using cmp 3 h by (subst find_down.simps) (auto simp: user_data_def avl_compares_def)
    then show ?thesis using 3 by (auto simp: avl_keys_def)
  qed
qed simp

lemma table_find:
  assumes cmp: "avl_compares cmp key" and ok: "avl_table_ok key Table h t"
  shows "if key v \<in> avl_keys key h t
    then \<exists>a \<in> set_tree t. key (UserData h a) = key v \<and> RtlpFindAvlTableNodeOrParent cmp Table h v 0 = Some (TableFoundNode, a)
    else \<exists>c. gap key (UserData h) (key v) c t \<and> RtlpFindAvlTableNodeOrParent cmp Table h v 0 = Some (place c)"
proof (cases t)
  case Leaf
  then have "NumberGenericTableElements Table = 0" using ok by (simp add: avl_table_ok_def unat_eq_0)
  then show ?thesis using Leaf by (auto simp: RtlpFindAvlTableNodeOrParent_def avl_keys_def gap_def intro!: exI [of _ "[]"])
next
  case (Node l a r)
  have b: "below h (BalancedRoot Table) t" "keyed key (UserData h) (inorder t)" "t \<noteq> Leaf" "NumberGenericTableElements Table \<noteq> 0"
    using ok Node by (auto simp: avl_table_ok_def)
  have "RtlpFindAvlTableNodeOrParent cmp Table h v 0 = find_down cmp v h (right_of h (BalancedRoot Table))"
    using b(4) below_facts(1) [OF b(1)] by (simp add: RtlpFindAvlTableNodeOrParent_def links_live)
  then show ?thesis using find_down_finds [OF cmp below_facts(2) [OF b(1)] b(2,3), of v] by simp
qed

section \<open>A new node\<close>

lemma below_grown:
  assumes "below h R t" "\<not> live h p"
    and "\<And>x. x \<noteq> p \<Longrightarrow> live h' x = live h x \<and> left_of h' x = left_of h x \<and> right_of h' x = right_of h x \<and> parent_of h' x = parent_of h x"
  shows "below h' R t"
proof -
  note f = below_facts [OF assms(1)]
  have "R \<noteq> p" using f(1) assms(2) by auto
  moreover have "is_tree h' R (right_of h R) t"
    by (rule is_tree_same [OF f(2)]) (use is_tree_nonzero [OF f(2)] assms(2,3) in metis)
  ultimately show ?thesis using f assms(3) [of R] by (simp add: below_def focus_def)
qed

lemma hang_leaf:
  fixes h :: "('d, 'z) avl_heap_scheme"
  assumes "below h R (plug c Leaf)" "c \<noteq> []" "place c = (s, q)" "live h p" "p \<notin> set_tree (plug c Leaf)" "p \<noteq> R"
    and "left_of h p = 0" "right_of h p = 0"
  shows "\<exists>h'. (if s = TableInsertAsLeft then RtlInsertAsLeftChild h q p else RtlInsertAsRightChild h q p) = Some h' \<and>
    focus h' (c @ sentinel R) Leaf p Leaf \<and> parent_of h' p = q \<and> relinked h h'"
proof (cases c rule: place.cases)
  case (2 q' r c')
  then have F: "focus h (c' @ sentinel R) Leaf q r" and s: "s = TableInsertAsLeft" "q' = q"
    using assms(1,3) by (simp_all add: below_focus)
  have p: "p \<noteq> q" "p \<notin> set_tree r" "p \<notin> set (frame_list c')" using assms(5) 2 s by (simp_all add: set_plug)
  have d: "live h q" "left_of h q = 0" "is_tree h q (right_of h q) r" "is_ctx h (c' @ sentinel R) q (parent_of h q)"
    "distinct (q # inorder r @ frame_list c' @ [R])" using F by (auto simp: focus_def)
  let ?h = "h\<lparr>left_of := (left_of h)(q := p), parent_of := (parent_of h)(p := q)\<rparr>"
  have "is_tree ?h q (right_of h q) r" by (rule is_tree_same [OF d(3)]) (use p d(5) is_tree_nonzero [OF d(3)] in auto)
  moreover have "is_ctx ?h (c' @ sentinel R) q (parent_of h q)"
    by (rule is_ctx_same [OF d(4)]) (use p d(5) assms(6) is_ctx_live [OF d(4)] in auto)
  ultimately have "focus ?h (c @ sentinel R) Leaf p Leaf" using p d assms(4,6-8) 2 s by (auto simp: focus_def)
  then show ?thesis using links_live_insert [OF d(1) assms(4)] s by (intro exI [of _ ?h]) (simp add: relinked_def)
next
  case (3 l q' c')
  then have F: "focus h (c' @ sentinel R) l q Leaf" and s: "s = TableInsertAsRight" "q' = q"
    using assms(1,3) by (simp_all add: below_focus)
  have p: "p \<noteq> q" "p \<notin> set_tree l" "p \<notin> set (frame_list c')" using assms(5) 3 s by (simp_all add: set_plug)
  have d: "live h q" "right_of h q = 0" "is_tree h q (left_of h q) l" "is_ctx h (c' @ sentinel R) q (parent_of h q)"
    "distinct (q # inorder l @ frame_list c' @ [R])" using F by (auto simp: focus_def)
  let ?h = "h\<lparr>right_of := (right_of h)(q := p), parent_of := (parent_of h)(p := q)\<rparr>"
  have "is_tree ?h q (left_of h q) l" by (rule is_tree_same [OF d(3)]) (use p d(5) is_tree_nonzero [OF d(3)] in auto)
  moreover have "is_ctx ?h (c' @ sentinel R) q (parent_of h q)"
    by (rule is_ctx_same [OF d(4)]) (use p d(5) assms(6) is_ctx_live [OF d(4)] in auto)
  ultimately have "focus ?h (c @ sentinel R) Leaf p Leaf" using p d assms(4,6-8) 3 s by (auto simp: focus_def)
  then show ?thesis using links_live_insert [OF d(1) assms(4)] s by (intro exI [of _ ?h]) (simp add: relinked_def)
qed (use assms(2) in simp)

section \<open>Insertion\<close>

definition avl_allocates :: "(('d, 'z) avl_heap_scheme \<Rightarrow> u32 \<Rightarrow> nat \<times> ('d, 'z) avl_heap_scheme) \<Rightarrow>
    ('d, 'z) avl_heap_scheme \<Rightarrow> u32 \<Rightarrow> nat \<Rightarrow> bool" where
  "avl_allocates Alloc h n p \<longleftrightarrow> (p = 0 \<or> \<not> alloc h p) \<and>
     Alloc h n = (p, if p = 0 then h else h\<lparr>alloc := (alloc h)(p := True)\<rparr>)"

definition fresh_node :: "('d, 'z) avl_heap_scheme \<Rightarrow> nat \<Rightarrow> ('d, 'z) avl_heap_scheme" where
  "fresh_node h p = h\<lparr>alloc := (alloc h)(p := True), parent_of := (parent_of h)(p := 0), left_of := (left_of h)(p := 0),
     right_of := (right_of h)(p := 0), Balance := (Balance h)(p := 0)\<rparr>"

lemma fresh_node_fields:
  "live (fresh_node h p) x \<longleftrightarrow> live h x \<or> x = p \<and> p \<noteq> 0" "Balance (fresh_node h p) = (Balance h)(p := 0)"
  "UserData (fresh_node h p) = UserData h" "alloc (fresh_node h p) = (alloc h)(p := True)"
  "left_of (fresh_node h p) = (left_of h)(p := 0)" "right_of (fresh_node h p) = (right_of h)(p := 0)"
  "parent_of (fresh_node h p) = (parent_of h)(p := 0)"
  by (auto simp: fresh_node_def live_def)

lemma fresh_node_again:
  "p \<noteq> 0 \<Longrightarrow> set_RightChild (fresh_node h p) p 0 = Some (fresh_node h p)"
  "p \<noteq> 0 \<Longrightarrow> set_LeftChild (fresh_node h p) p 0 = Some (fresh_node h p)"
  "p \<noteq> 0 \<Longrightarrow> RtlSetBalance (fresh_node h p) p RtlBalancedAvlTree = Some (fresh_node h p)"
  by (simp_all add: links_live RtlBalance_live fresh_node_fields) (simp_all add: fresh_node_def avl_balance)

lemma fresh_node_stored:
  assumes "p \<noteq> 0"
  shows "Option.bind (store_links (h\<lparr>alloc := (alloc h)(p := True)\<rparr>) p (0, 0, 0)) (\<lambda>g. RtlSetBalance g p 0) = Some (fresh_node h p)"
  using assms by (simp add: store_links_def set_Parent_def set_LeftChild_def set_RightChild_def RtlSetBalance_def live_def fresh_node_def)

lemma below_UserData [simp]: "below (h\<lparr>UserData := d\<rparr>) R t = below h R t"
proof -
  have "is_tree (h\<lparr>UserData := d\<rparr>) q p t = is_tree h q p t" for q p t
    by (induction t arbitrary: q p) (auto simp: live_def)
  then show ?thesis by (simp add: below_def focus_def live_def)
qed

lemma insert_node_runs:
  fixes h :: "('d, 'z) avl_heap_scheme"
  assumes ok: "avl_table_ok key Table h t" and g: "gap key (UserData h) v c t" and p: "p \<noteq> 0" "\<not> alloc h p"
    and room: "Suc (size t) < 2 ^ 32"
  defines "R \<equiv> BalancedRoot Table"
  shows "\<exists>Table' h' t'. RtlpInsertAvlTreeNode Table (fresh_node h p) p (snd (place c)) (fst (place c)) = Some (Table', h') \<and>
    below h' R t' \<and> avl (Balance h') t' \<and> inorder t' = before c @ p # after c \<and> unat (DepthOfTree Table') = height t' \<and>
    NumberGenericTableElements Table' = NumberGenericTableElements Table + 1 \<and> BalancedRoot Table' = R \<and>
    alloc h' = (alloc h)(p := True) \<and> UserData h' = UserData h"
proof -
  have B: "below h R (plug c Leaf)" "avl (Balance h) (plug c Leaf)" and D: "unat (DepthOfTree Table) = height t" and t: "t = plug c Leaf"
    using ok g by (auto simp: avl_table_ok_def gap_def R_def)
  have fresh: "p \<notin> set_tree (plug c Leaf)" "p \<noteq> R" "\<not> live h p"
    using p below_facts(1) [OF B(1)] is_tree_nonzero [OF below_facts(2) [OF B(1)], of p] by (auto simp: live_def)
  let ?h = "fresh_node h p"
  have B': "below ?h R (plug c Leaf)" by (rule below_grown [OF B(1) fresh(3)]) (simp add: fresh_node_fields)
  have L: "live ?h p" "live ?h R" using p(1) below_facts(1) [OF B'] by (simp_all add: fresh_node_fields)
  note start = fresh_node_again [OF p(1), of h]
  show ?thesis
  proof (cases "c = []")
    case True
    let ?h1 = "?h\<lparr>right_of := (right_of ?h)(R := p), parent_of := (parent_of ?h)(p := R)\<rparr>"
    have "below ?h1 R (Node Leaf p Leaf)"
      using below_facts [OF B'] L fresh(2) True by (auto simp: below_def focus_def fresh_node_fields)
    moreover have "RtlpInsertAvlTreeNode Table ?h p (snd (place c)) (fst (place c)) =
        Some (Table\<lparr>NumberGenericTableElements := NumberGenericTableElements Table + 1, DepthOfTree := 1\<rparr>, ?h1)"
      using start links_live_insert(2) [OF L(2,1)] True by (simp add: RtlpInsertAvlTreeNode_def R_def)
    ultimately show ?thesis using True fresh(2) R_def
      by (intro exI [of _ "Table\<lparr>NumberGenericTableElements := NumberGenericTableElements Table + 1, DepthOfTree := 1\<rparr>"]
          exI [of _ ?h1] exI [of _ "Node Leaf p Leaf"]) (simp add: fresh_node_fields)
  next
    case False
    obtain s q where pl: "place c = (s, q)" "s \<noteq> TableEmptyTree" using False by (cases c rule: place.cases) auto
    obtain h1 where H1: "(if s = TableInsertAsLeft then RtlInsertAsLeftChild ?h q p else RtlInsertAsRightChild ?h q p) = Some h1"
      "focus h1 (c @ sentinel R) Leaf p Leaf" "parent_of h1 p = q" "relinked ?h h1"
      using hang_leaf [OF B' False pl(1) L(1) fresh(1,2)] by (auto simp: fresh_node_fields)
    note H1f = relinked_fields [OF H1(4)] relinked_live [OF H1(4)]
    let ?h2 = "h1\<lparr>Balance := (Balance ?h)(R := -1)\<rparr>"
    have fl: "p \<notin> set (frame_list c)" "R \<notin> set (frame_list c)"
      using fresh(1) below_facts(5) [OF B(1)] by (simp_all add: set_plug)
    have "climbing ?h2 R c Leaf p Leaf 0"
      using H1(2) B(2) fl fresh(2) by (simp add: climbing_def avl_plug fresh_node_fields)
    then obtain d h3 where H3: "insert_climb R ?h2 p (parent_of ?h2 p) = Some (d, h3)"
      "settled ?h2 h3 R (inorder (plug c (Node Leaf p Leaf))) (ctx_height c 0 + (if d then 1 else 0))"
      using insert_climb_settles unfolding climbs_def by blast
    let ?T = "Table\<lparr>NumberGenericTableElements := NumberGenericTableElements Table + 1\<rparr>"
    let ?T' = "if d then ?T\<lparr>DepthOfTree := DepthOfTree Table + 1\<rparr> else ?T"
    have run: "RtlpInsertAvlTreeNode Table ?h p (snd (place c)) (fst (place c)) = Some (?T', h3)"
      using start pl H1(1,3) H1f L(2) H3(1)
      by (simp add: RtlpInsertAvlTreeNode_def Let_def RtlBalance_live avl_balance flip: R_def)
    have ht: "height t = ctx_height c 0" using t height_plug [of c Leaf] by simp
    have "unat (DepthOfTree Table + 1) = Suc (height t)"
      using D room height_le_size_tree [of t] by (simp add: unat_word_ariths)
    then show ?thesis using H3(2) run D ht H1(4) H1f
      by (intro exI [of _ ?T'] exI [of _ h3])
        (auto simp: settled_def relinked_def fresh_node_fields inorder_plug R_def)
  qed
qed

section \<open>A table of two numbers\<close>

definition avl_number_compare :: "int \<Rightarrow> int \<Rightarrow> AVL_COMPARE_RESULTS" where
  "avl_number_compare x y = (if x < y then LessThan else if y < x then GreaterThan else EqualTo)"

definition avl_two_heap :: "int avl_heap" where
  "avl_two_heap = \<lparr>alloc = (\<lambda>x. x = 3 \<or> x = 4 \<or> x = 5), parent_of = (\<lambda>_. 0)(3 := 3, 4 := 3, 5 := 4), left_of = (\<lambda>_. 0),
     right_of = (\<lambda>_. 0)(3 := 4, 4 := 5), Balance = (\<lambda>_. 0)(4 := 1), UserData = (\<lambda>_. 0)(4 := 10, 5 := 20)\<rparr>"

definition avl_two_table :: RTL_AVL_TABLE where
  "avl_two_table = \<lparr>BalancedRoot = 3, OrderedPointer = 0, WhichOrderedElement = 0, NumberGenericTableElements = 2,
     DepthOfTree = 2, RestartKey = 0, DeleteCount = 0\<rparr>"

lemma avl_number_compares: "avl_compares avl_number_compare (\<lambda>x. x)"
  by (simp add: avl_compares_def avl_number_compare_def)

lemma avl_two_ok: "avl_table_ok (\<lambda>x. x) avl_two_table avl_two_heap (Node Leaf 4 (Node Leaf 5 Leaf))"
  by (auto simp: avl_table_ok_def below_def focus_def avl_two_table_def avl_two_heap_def live_def)

lemma avl_two_keys: "avl_keys (\<lambda>x. x) avl_two_heap (Node Leaf 4 (Node Leaf 5 Leaf)) = {10, 20}"
  by (auto simp: avl_keys_def avl_two_heap_def)

section \<open>The operations\<close>

text \<open>
  On a table that is ordered and balanced a lookup always returns: the item with the key when
  the table has it, null otherwise.
\<close>

theorem avl_lookup_finds:
  assumes "avl_compares cmp key" "avl_table_ok key Table h t"
  shows "\<exists>p. RtlLookupElementGenericTableAvl cmp Table h v = Some p \<and>
    (if key v \<in> avl_keys key h t then p \<in> set_tree t \<and> key (UserData h p) = key v else p = 0)"
  using table_find [OF assms, of v]
  by (auto simp: RtlLookupElementGenericTableAvl_def RtlLookupElementGenericTableFullAvl_def split: if_splits prod.splits)

theorem avl_lookup_finds_witness:
  "\<exists>p. RtlLookupElementGenericTableAvl avl_number_compare avl_two_table avl_two_heap 20 = Some p \<and> UserData avl_two_heap p = 20"
  using avl_lookup_finds [OF avl_number_compares avl_two_ok, of 20] avl_two_keys by auto

text \<open>
  C5. On a table that is ordered and balanced an insertion yields the item that has the key, or adds
  the new node with its data; the table stays ordered and balanced and its counter and its depth
  stay right.  When the allocation fails nothing changes.
\<close>

theorem avl_insert_adds:
  assumes "avl_compares cmp key" "avl_table_ok key Table h t" "avl_allocates Alloc h (n + 32) p" "Suc (size t) < 2 ^ 32"
  shows "\<exists>q new Table' h' t'. RtlInsertElementGenericTableAvl cmp Alloc Table h v n = Some (q, new, Table', h') \<and>
    avl_table_ok key Table' h' t' \<and>
    (if key v \<in> avl_keys key h t then q \<in> set_tree t \<and> key (UserData h q) = key v \<and> \<not> new \<and> t' = t \<and> h' = h
     else if p = 0 then q = 0 \<and> \<not> new \<and> t' = t \<and> h' = h
     else q = p \<and> new \<and> set_tree t' = insert p (set_tree t) \<and> UserData h' = (UserData h)(p := v))"
proof (cases "key v \<in> avl_keys key h t")
  case True
  then show ?thesis using table_find [OF assms(1,2), of v] assms(2)
    by (auto simp: RtlInsertElementGenericTableAvl_def RtlInsertElementGenericTableFullAvl_def)
next
  case new: False
  obtain c where c: "gap key (UserData h) (key v) c t" "RtlpFindAvlTableNodeOrParent cmp Table h v 0 = Some (place c)"
    using table_find [OF assms(1,2), of v] new by auto
  show ?thesis
  proof (cases "p = 0")
    case True
    then show ?thesis using c(2) new assms(2,3)
      by (auto simp: RtlInsertElementGenericTableAvl_def RtlInsertElementGenericTableFullAvl_def avl_allocates_def split: prod.splits)
  next
    case False
    have p: "\<not> alloc h p" and A: "Alloc h (n + 32) = (p, h\<lparr>alloc := (alloc h)(p := True)\<rparr>)"
      using assms(3) False by (auto simp: avl_allocates_def)
    obtain Table' h' t' where R: "RtlpInsertAvlTreeNode Table (fresh_node h p) p (snd (place c)) (fst (place c)) = Some (Table', h')"
      "below h' (BalancedRoot Table) t'" "avl (Balance h') t'" "inorder t' = before c @ p # after c" "unat (DepthOfTree Table') = height t'"
      "NumberGenericTableElements Table' = NumberGenericTableElements Table + 1" "BalancedRoot Table' = BalancedRoot Table"
      "alloc h' = (alloc h)(p := True)" "UserData h' = UserData h"
      using insert_node_runs [OF assms(2) c(1) False p assms(4)] by blast
    let ?h = "h'\<lparr>UserData := (UserData h')(p := v)\<rparr>"
    obtain s q where pl: "place c = (s, q)" "s \<noteq> TableFoundNode" by (cases "place c") (use place_misses(1) [of c] in auto)
    have "RtlInsertElementGenericTableAvl cmp Alloc Table h v n = Some (p, True, Table', ?h)"
      using c(2) pl A R(1) False fresh_node_stored [OF False, of h]
      by (auto simp: RtlInsertElementGenericTableAvl_def RtlInsertElementGenericTableFullAvl_def split: Option.bind_splits)
    moreover have t: "inorder t = before c @ after c" "t = plug c Leaf" using c(1) by (simp_all add: gap_def inorder_plug)
    have fresh: "p \<notin> set (before c)" "p \<notin> set (after c)"
      using p False is_tree_nonzero [OF below_facts(2), of h "BalancedRoot Table" t p] assms(2) t(1)
      by (auto simp: avl_table_ok_def live_def set_inorder [symmetric] simp del: set_inorder)
    have "keyed key (UserData ?h) (inorder t')"
      using assms(2) c(1) fresh unfolding R(4,9) avl_table_ok_def t(1) gap_def
      by (auto simp: keyed_update)
    moreover have "size t' = Suc (size t)" using R(4) t(1) by (metis length_inorder length_append length_Cons add_Suc_right)
    moreover have "set_tree t' = insert p (set_tree t)" using R(4) t(1) by (metis set_inorder set_append list.set(2) Un_insert_right)
    moreover have "unat (NumberGenericTableElements Table + 1) = Suc (size t)"
      using assms(2,4) by (simp add: avl_table_ok_def unat_word_ariths)
    ultimately show ?thesis using R(2,3,5-7,9) new False
      by (intro exI [of _ p] exI [of _ True] exI [of _ Table'] exI [of _ ?h] exI [of _ t']) (simp add: avl_table_ok_def)
  qed
qed

theorem avl_insert_adds_witness:
  "\<exists>Table' h' t'. RtlInsertElementGenericTableAvl avl_number_compare (\<lambda>h n. (6, h\<lparr>alloc := (alloc h)(6 := True)\<rparr>)) avl_two_table avl_two_heap 15 8 =
    Some (6, True, Table', h') \<and> avl_table_ok (\<lambda>x. x) Table' h' t' \<and> set_tree t' = {4, 5, 6}"
proof -
  let ?A = "\<lambda>(h :: int avl_heap) (n :: u32). (6 :: nat, h\<lparr>alloc := (alloc h)(6 := True)\<rparr>)"
  have a: "avl_allocates ?A avl_two_heap (8 + 32) 6" by (simp add: avl_allocates_def avl_two_heap_def)
  have n: "Suc (size (Node Leaf 4 (Node Leaf (5 :: nat) Leaf))) < 2 ^ 32" by simp
  from avl_insert_adds [OF avl_number_compares avl_two_ok a n, of 15] avl_two_keys show ?thesis by (auto simp: insert_commute)
qed

section \<open>Deletion\<close>

definition avl_frees :: "(('d, 'z) avl_heap_scheme \<Rightarrow> nat \<Rightarrow> ('d, 'z) avl_heap_scheme) \<Rightarrow> bool" where
  "avl_frees Free \<longleftrightarrow> (\<forall>h p. Free h p = h\<lparr>alloc := (alloc h)(p := False)\<rparr>)"

lemma below_freed:
  assumes "below h R t" "n \<notin> set_tree t" "n \<noteq> R"
  shows "below (h\<lparr>alloc := (alloc h)(n := False)\<rparr>) R t"
proof -
  note f = below_facts [OF assms(1)]
  let ?h = "h\<lparr>alloc := (alloc h)(n := False)\<rparr>"
  have "is_tree ?h R (right_of h R) t"
    by (rule is_tree_same [OF f(2)]) (use is_tree_nonzero [OF f(2)] assms(2) in \<open>auto simp: live_def\<close>)
  then show ?thesis using f assms(3) by (simp add: below_def focus_def live_def)
qed

lemma restart_runs:
  assumes "below h (BalancedRoot Table) t" "n \<in> set_tree t"
  shows "\<exists>k. (if n = RestartKey Table then do { p \<leftarrow> RtlRealPredecessor h n; Some (Table\<lparr>RestartKey := p\<rparr>) } else Some Table) =
    Some (Table\<lparr>RestartKey := k\<rparr>)"
proof (cases "n = RestartKey Table")
  case True
  obtain xs ys where "inorder t = xs @ n # ys" using assms(2) by (metis set_inorder in_set_conv_decomp)
  then obtain c l r where "focus h (c @ sentinel (BalancedRoot Table)) l n r" using below_node [OF assms(1)] by metis
  from predecessor_focus [OF this] show ?thesis using True by auto
next
  case False
  then show ?thesis by (intro exI [of _ "RestartKey Table"]) simp
qed

text \<open>
  C6. On a table that is ordered and balanced a deletion always returns and says whether the table
  has the key; then it takes out the one item with the key and releases its node, and the table
  stays ordered and balanced with the right counter and depth.
\<close>

theorem avl_delete_removes:
  assumes "avl_compares cmp key" "avl_table_ok key Table h t" "avl_frees Free"
  shows "\<exists>Table' h' t'. RtlDeleteElementGenericTableAvl cmp Free Table h v = Some (key v \<in> avl_keys key h t, Table', h') \<and>
    avl_table_ok key Table' h' t' \<and> UserData h' = UserData h \<and>
    (if key v \<in> avl_keys key h t
     then \<exists>a \<in> set_tree t. key (UserData h a) = key v \<and> inorder t' = remove1 a (inorder t) \<and> alloc h' = (alloc h)(a := False)
     else t' = t \<and> h' = h)"
proof (cases "key v \<in> avl_keys key h t")
  case False
  have miss: "(a, b) = place c \<Longrightarrow> a \<noteq> TableFoundNode" for a b c by (metis place_misses(2))
  from table_find [OF assms(1,2), of v] False show ?thesis using assms(2)
    by (auto simp: RtlDeleteElementGenericTableAvl_def split: prod.splits)
next
  case True
  then obtain n where n: "n \<in> set_tree t" "key (UserData h n) = key v" "RtlpFindAvlTableNodeOrParent cmp Table h v 0 = Some (TableFoundNode, n)"
    using table_find [OF assms(1,2), of v] by auto
  have ok: "below h (BalancedRoot Table) t" "avl (Balance h) t" "keyed key (UserData h) (inorder t)" "unat (NumberGenericTableElements Table) = size t"
    "unat (DepthOfTree Table) = height t" using assms(2) by (simp_all add: avl_table_ok_def)
  note f = below_facts [OF ok(1)]
  obtain xs ys where t: "inorder t = xs @ n # ys" using n(1) by (metis set_inorder in_set_conv_decomp)
  obtain k where K: "(if n = RestartKey Table then do { p \<leftarrow> RtlRealPredecessor h n; Some (Table\<lparr>RestartKey := p\<rparr>) } else Some Table) =
    Some (Table\<lparr>RestartKey := k\<rparr>)" using restart_runs [OF ok(1) n(1)] by blast
  let ?T = "Table\<lparr>RestartKey := k, DeleteCount := DeleteCount Table + 1\<rparr>"
  obtain lost h' where D: "RtlpDeleteAvlTreeNode ?T h n = Some (if lost then ?T\<lparr>DepthOfTree := DepthOfTree ?T - 1\<rparr> else ?T, h')"
    "settled h h' (BalancedRoot Table) (xs @ ys) (height t - (if lost then 1 else 0))"
    using delete_node_runs [of h ?T t xs n ys] ok(1,2) t by auto
  obtain t' where t': "below h' (BalancedRoot Table) t'" "inorder t' = xs @ ys" "avl (Balance h') t'" "height t' = height t - (if lost then 1 else 0)"
    and h': "alloc h' = alloc h" "UserData h' = UserData h" using D(2) by (auto simp: settled_def)
  let ?T' = "if lost then ?T\<lparr>DepthOfTree := DepthOfTree ?T - 1\<rparr> else ?T"
  let ?T'' = "?T'\<lparr>NumberGenericTableElements := NumberGenericTableElements ?T' - 1, WhichOrderedElement := 0, OrderedPointer := 0\<rparr>"
  have run: "RtlDeleteElementGenericTableAvl cmp Free Table h v = Some (True, ?T'', Free h' n)"
    using n(3) K D(1) by (simp add: RtlDeleteElementGenericTableAvl_def)
  have n': "n \<notin> set_tree t'" "n \<noteq> BalancedRoot Table"
    using t'(2) f(5,6) t n(1) by (auto simp flip: set_inorder)
  have sz: "size t = Suc (size t')" using t t'(2) by (simp flip: length_inorder)
  have "height t > 0" using n(1) by (cases t) auto
  then have dep: "lost \<Longrightarrow> unat (DepthOfTree Table - 1) = height t - 1" using ok(5) by (subst unat_minus_one) auto
  have num: "unat (NumberGenericTableElements Table - 1) = size t'" using ok(4) sz by (subst unat_minus_one) auto
  have "keyed key (UserData h) (inorder t')" using ok(3) t t'(2) by simp
  then have "avl_table_ok key ?T'' (Free h' n) t'"
    using below_freed [OF t'(1) n'] t'(3,4) ok(5) dep num h'(2) assms(3) by (simp add: avl_table_ok_def avl_frees_def)
  moreover have "inorder t' = remove1 n (inorder t)" using t t'(2) f(6) by (simp add: remove1_append)
  moreover have "UserData (Free h' n) = UserData h" "alloc (Free h' n) = (alloc h)(n := False)"
    using assms(3) h' by (simp_all add: avl_frees_def)
  ultimately show ?thesis using run True n(1,2)
    by (intro exI [of _ ?T''] exI [of _ "Free h' n"] exI [of _ t']) auto
qed

theorem avl_delete_removes_witness:
  "\<exists>Table' h' t'. RtlDeleteElementGenericTableAvl avl_number_compare (\<lambda>h p. h\<lparr>alloc := (alloc h)(p := False)\<rparr>) avl_two_table avl_two_heap 10 =
    Some (True, Table', h') \<and> avl_table_ok (\<lambda>x. x) Table' h' t' \<and> inorder t' = [5]"
proof -
  have f: "avl_frees (\<lambda>(h :: int avl_heap) p. h\<lparr>alloc := (alloc h)(p := False)\<rparr>)" by (simp add: avl_frees_def)
  have "(10 :: int) \<in> avl_keys (\<lambda>x. x) avl_two_heap (Node Leaf 4 (Node Leaf 5 Leaf))" by (simp add: avl_two_keys)
  with avl_delete_removes [OF avl_number_compares avl_two_ok f, of 10] show ?thesis by (auto simp: avl_two_heap_def)
qed

section \<open>Enumeration\<close>

text \<open>The items that \<open>k\<close> calls of the enumeration return, the first one with \<^verbatim>\<open>Restart\<close>.\<close>

fun avl_enumeration :: "RTL_AVL_TABLE \<Rightarrow> ('d, 'z) avl_heap_scheme \<Rightarrow> bool \<Rightarrow> nat \<Rightarrow> nat list option" where
  "avl_enumeration Table h Restart 0 = Some []"
| "avl_enumeration Table h Restart (Suc k) = do {
     (item, Table) \<leftarrow> RtlEnumerateGenericTableAvl Table h Restart;
     rest \<leftarrow> avl_enumeration Table h False k;
     Some (item # rest)
   }"

lemma enumerate_next:
  assumes "below h (BalancedRoot Table) t" "NumberGenericTableElements Table \<noteq> 0" "inorder t = xs @ n # ys" "RestartKey Table = n"
  shows "RtlEnumerateGenericTableAvl Table h False =
    Some (if ys = [] then 0 else hd ys, Table\<lparr>RestartKey := if ys = [] then n else hd ys\<rparr>)"
proof -
  obtain c l r where c: "t = plug c (Node l n r)" "focus h (c @ sentinel (BalancedRoot Table)) l n r" "ys = inorder r @ after c"
    using below_node [OF assms(1,3)] .
  have "ys \<noteq> [] \<Longrightarrow> hd ys \<in> set_tree t" using assms(3) by (simp flip: set_inorder)
  then have "ys = [] \<or> hd ys \<noteq> 0" "n \<noteq> 0"
    using is_tree_nonzero [OF below_facts(2) [OF assms(1)]] focus_live(1) [OF c(2)] by (metis live_0)+
  then show ?thesis using successor_focus [OF c(2)] assms(2,4) c(3)
    by (auto simp: RtlEnumerateGenericTableAvl_def RtlEnumerateGenericTableWithoutSplayingAvl_def RtlIsGenericTableEmptyAvl_def after_append)
qed

lemma enumeration_step:
  "RtlEnumerateGenericTableAvl Table h Restart = Some (item, Table') \<Longrightarrow> avl_enumeration Table' h False k = Some rest \<Longrightarrow>
     avl_enumeration Table h Restart (Suc k) = Some (item # rest)"
  by simp

lemma enumerate_rest:
  "below h (BalancedRoot Table) t \<Longrightarrow> NumberGenericTableElements Table \<noteq> 0 \<Longrightarrow> inorder t = xs @ n # ys \<Longrightarrow> RestartKey Table = n \<Longrightarrow>
     avl_enumeration Table h False (Suc (length ys)) = Some (ys @ [0])"
proof (induction ys arbitrary: xs n Table)
  case Nil
  then show ?case using enumerate_next [OF Nil] by simp
next
  case (Cons y ys)
  have "avl_enumeration (Table\<lparr>RestartKey := y\<rparr>) h False (Suc (length ys)) = Some (ys @ [0])"
    by (rule Cons.IH [of _ "xs @ [n]" y]) (use Cons.prems in simp_all)
  moreover have "RtlEnumerateGenericTableAvl Table h False = Some (y, Table\<lparr>RestartKey := y\<rparr>)" using enumerate_next [OF Cons.prems] by simp
  ultimately show ?case using enumeration_step [of Table h False y _ "Suc (length ys)"] by (simp del: avl_enumeration.simps)
qed

text \<open>
  C21. An enumeration that is restarted returns the items of the table in the order of their keys,
  each once, and then null.
\<close>

theorem avl_enumerates:
  assumes "avl_table_ok key Table h t"
  shows "avl_enumeration Table h True (Suc (size t)) = Some (inorder t @ [0]) \<and>
    sorted_wrt (\<lambda>x y. key (UserData h x) < key (UserData h y)) (inorder t)"
proof -
  have ok: "below h (BalancedRoot Table) t" "keyed key (UserData h) (inorder t)" "unat (NumberGenericTableElements Table) = size t"
    using assms by (simp_all add: avl_table_ok_def)
  note f = below_facts [OF ok(1)]
  have "avl_enumeration Table h True (Suc (size t)) = Some (inorder t @ [0])"
  proof (cases "inorder t")
    case Nil
    then have "t = Leaf" by (cases t) auto
    then show ?thesis using ok(3)
      by (simp add: RtlEnumerateGenericTableAvl_def RtlEnumerateGenericTableWithoutSplayingAvl_def RtlIsGenericTableEmptyAvl_def unat_eq_0)
  next
    case (Cons n ys)
    have nz: "NumberGenericTableElements Table \<noteq> 0" "t \<noteq> Leaf" "size t = Suc (length ys)" using ok(3) Cons length_inorder [of t] by auto
    have "RtlEnumerateGenericTableAvl Table h True = Some (n, Table\<lparr>RestartKey := n\<rparr>)"
      using leftmost_hd [OF f(2) nz(2)] f(1) nz(1) Cons
      by (simp add: RtlEnumerateGenericTableAvl_def RtlEnumerateGenericTableWithoutSplayingAvl_def RtlIsGenericTableEmptyAvl_def links_live)
    moreover have "avl_enumeration (Table\<lparr>RestartKey := n\<rparr>) h False (Suc (length ys)) = Some (ys @ [0])"
      by (rule enumerate_rest [of h _ t "[]" n]) (use ok(1) nz(1) Cons in simp_all)
    ultimately show ?thesis using enumeration_step [of Table h True n _ "Suc (length ys)"] nz(3) Cons by (simp del: avl_enumeration.simps)
  qed
  then show ?thesis using ok(2) by (simp add: keyed_def)
qed

theorem avl_enumerates_witness: "avl_enumeration avl_two_table avl_two_heap True 3 = Some [4, 5, 0]"
  using avl_enumerates [OF avl_two_ok] by (simp add: numeral_3_eq_3)

section \<open>The depth\<close>

text \<open>The depth of a balanced tree is at most twice the logarithm of its size.\<close>

lemma avl_size: "avl b t \<Longrightarrow> 2 ^ height t \<le> (size t + 1)\<^sup>2"
proof (induction t)
  case (Node l a r)
  let ?m = "size l + 1" and ?n = "size r + 1"
  have IH: "2 ^ height l \<le> ?m\<^sup>2" "2 ^ height r \<le> ?n\<^sup>2" using Node by simp_all
  have mix: "2 ^ Suc (max p q) \<le> (x + y)\<^sup>2"
    if "2 ^ p \<le> x\<^sup>2" "2 ^ q \<le> y\<^sup>2" "q \<le> p" "p \<le> Suc q" for x y p q :: nat
  proof -
    have "(2 :: nat) ^ p \<le> 2 * 2 ^ q" using that(4) power_increasing [of p "Suc q" "2 :: nat"] by simp
    then have q: "2 ^ p \<le> 2 * y\<^sup>2" using that(2) by simp
    have "(2 :: nat) ^ p * 2 ^ p \<le> 2 * (x * y)\<^sup>2" using mult_mono [OF that(1) q] by (simp add: power_mult_distrib)
    then have "((2 :: nat) ^ p)\<^sup>2 \<le> (2 * (x * y))\<^sup>2" by (simp add: power2_eq_square algebra_simps)
    then have "2 ^ p \<le> 2 * (x * y)" by (rule power2_le_imp_le) simp
    then show ?thesis using that(1,3) by (simp add: power2_sum max_absorb1)
  qed
  show ?case
  proof (cases "height r \<le> height l")
    case True
    then show ?thesis using mix [OF IH] Node.prems by simp
  next
    case False
    then show ?thesis using mix [OF IH(2,1)] Node.prems by (simp add: max.commute add.commute)
  qed
qed simp

lemma avl_table_depth:
  "avl_table_ok key Table h t \<Longrightarrow> 2 ^ unat (DepthOfTree Table) \<le> (unat (NumberGenericTableElements Table) + 1)\<^sup>2"
  using avl_size [of "Balance h" t] by (simp add: avl_table_ok_def)

end
