(* ===== verification/Lznt1.thy ===== *)
theory Lznt1
  imports Nt_Status
begin

text \<open>
  The LZNT1 decompressor of \<^verbatim>\<open>libs/ntdll/lznt1.c\<close>.  The buffers are byte lists; a read or
  write outside its list, also a back reference that points before the start of the output
  buffer, is \<open>None\<close>.  The sizes are the 32-bit counters of the code, chunk positions and
  sizes the 16-bit ones.
\<close>

section \<open>The code\<close>

text \<open>\<open>c\<close> and \<open>d\<close> as positions, what is left of both buffers, and the output buffer.\<close>

record lz =
  src_pos :: nat
  CompressedBufferSize :: u32
  dst :: "u8 list"
  dst_pos :: nat
  UncompressedBufferSize :: u32

text \<open>A step either goes on or leaves the routine with a status and the output buffer.\<close>

type_synonym 'a lz_result = "(NTSTATUS \<times> u8 list + 'a) option"

definition lz_fail :: "NTSTATUS \<Rightarrow> lz \<Rightarrow> 'a lz_result" where
  "lz_fail status s = Some (Inl (status, dst s))"

definition lz_u16 :: "u8 list \<Rightarrow> nat \<Rightarrow> u16 option" where
  "lz_u16 src i = do { hi \<leftarrow> rd src (i + 1); lo \<leftarrow> rd src i; Some (push_bit 8 (ucast hi) + ucast lo) }"

text \<open>How a 16-bit token splits into length and distance, by the position in the chunk.\<close>

fun token_split :: "nat \<Rightarrow> u16 \<Rightarrow> u16 \<Rightarrow> u16 \<times> u16" where
  "token_split j len dist =
     (if j \<ge> 16 then token_split (j div 2) (drop_bit 1 len) (dist - 1) else (len, dist))"

declare token_split.simps [simp del]

text \<open>\<^verbatim>\<open>while (len--) { *d = d[-back]; d++; }\<close>\<close>

fun copy_back :: "nat \<Rightarrow> nat \<Rightarrow> u8 list \<Rightarrow> nat \<Rightarrow> (u8 list \<times> nat) option" where
  "copy_back 0 dist d i = Some (d, i)"
| "copy_back (Suc len) dist d i =
     (if dist \<le> i then do { v \<leftarrow> rd d (i - dist); d \<leftarrow> wr d i v; copy_back len dist d (i + 1) }
      else None)"

text \<open>A token with its flag set: the state, \<^verbatim>\<open>blocksz\<close> and \<^verbatim>\<open>blockpos\<close>.\<close>

definition lz_copy :: "u8 list \<Rightarrow> lz \<Rightarrow> u16 \<Rightarrow> u16 \<Rightarrow> (lz \<times> u16 \<times> u16) lz_result" where
  "lz_copy src s blocksz blockpos =
     (if CompressedBufferSize s < 2 \<or> blocksz < 2 then lz_fail STATUS_BAD_COMPRESSION_BUFFER s
      else do {
        runlen \<leftarrow> lz_u16 src (src_pos s);
        let s = s\<lparr>src_pos := src_pos s + 2, CompressedBufferSize := CompressedBufferSize s - 2\<rparr>;
        let blocksz = blocksz - 2;
        if blockpos = 0 then lz_fail STATUS_BAD_COMPRESSION_BUFFER s
        else do {
          let (len, dist) = token_split (unat blockpos - 1) 0xfff 12;
          let len = (runlen AND len) + 3;
          let dist = drop_bit (unat dist) runlen + 1;
          if UncompressedBufferSize s < ucast len then lz_fail STATUS_BAD_COMPRESSION_BUFFER s
          else do {
            (d, i) \<leftarrow> copy_back (unat len) (unat dist) (dst s) (dst_pos s);
            Some (Inr (s\<lparr>UncompressedBufferSize := UncompressedBufferSize s - ucast len, dst := d, dst_pos := i\<rparr>,
              blocksz, blockpos + len))
          }
        }
      })"

definition lz_literal :: "u8 list \<Rightarrow> lz \<Rightarrow> u16 \<Rightarrow> u16 \<Rightarrow> (lz \<times> u16 \<times> u16) lz_result" where
  "lz_literal src s blocksz blockpos =
     (if CompressedBufferSize s = 0 \<or> blocksz = 0 then lz_fail STATUS_BAD_COMPRESSION_BUFFER s
      else if UncompressedBufferSize s = 0 then lz_fail STATUS_BAD_COMPRESSION_BUFFER s
      else do {
        v \<leftarrow> rd src (src_pos s);
        d \<leftarrow> wr (dst s) (dst_pos s) v;
        Some (Inr (s\<lparr>src_pos := src_pos s + 1, dst := d, dst_pos := dst_pos s + 1,
            UncompressedBufferSize := UncompressedBufferSize s - 1,
            CompressedBufferSize := CompressedBufferSize s - 1\<rparr>,
          blocksz - 1, blockpos + 1))
      })"

text \<open>The \<^verbatim>\<open>for\<close> loop over the flags of a mask, \<open>n\<close> of which are left.\<close>

fun lz_group :: "nat \<Rightarrow> u8 list \<Rightarrow> u8 \<Rightarrow> lz \<Rightarrow> u16 \<Rightarrow> u16 \<Rightarrow> (lz \<times> u16 \<times> u16) lz_result" where
  "lz_group 0 src flags s blocksz blockpos = Some (Inr (s, blocksz, blockpos))"
| "lz_group (Suc n) src flags s blocksz blockpos =
     (if blocksz = 0 then Some (Inr (s, blocksz, blockpos))
      else do {
        r \<leftarrow> (if flags AND 1 \<noteq> 0 then lz_copy src s blocksz blockpos else lz_literal src s blocksz blockpos);
        case r of
          Inl e \<Rightarrow> Some (Inl e)
        | Inr (s, blocksz, blockpos) \<Rightarrow> lz_group n src (drop_bit 1 flags) s blocksz blockpos
      })"

text \<open>\<^verbatim>\<open>while (blocksz)\<close>: one compressed chunk.\<close>

partial_function (option) lz_chunk :: "u8 list \<Rightarrow> lz \<Rightarrow> u16 \<Rightarrow> u16 \<Rightarrow> lz lz_result" where
  "lz_chunk src s blocksz blockpos =
     (if blocksz = 0 then Some (Inr s)
      else if CompressedBufferSize s = 0 then lz_fail STATUS_BAD_COMPRESSION_BUFFER s
      else do {
        flags \<leftarrow> rd src (src_pos s);
        let s = s\<lparr>src_pos := src_pos s + 1, CompressedBufferSize := CompressedBufferSize s - 1\<rparr>;
        r \<leftarrow> lz_group 8 src flags s (blocksz - 1) blockpos;
        case r of
          Inl e \<Rightarrow> Some (Inl e)
        | Inr (s, blocksz, blockpos) \<Rightarrow> lz_chunk src s blocksz blockpos
      })"

text \<open>\<^verbatim>\<open>memcpy(d, c, n)\<close> on disjoint buffers.\<close>

definition lz_memcpy :: "u8 list \<Rightarrow> nat \<Rightarrow> u8 list \<Rightarrow> nat \<Rightarrow> nat \<Rightarrow> u8 list option" where
  "lz_memcpy src i d j n =
     (if i + n \<le> length src \<and> j + n \<le> length d
      then Some (take j d @ take n (drop i src) @ drop (j + n) d) else None)"

definition lz_stored :: "u8 list \<Rightarrow> lz \<Rightarrow> lz lz_result" where
  "lz_stored src s =
     (if 4096 > UncompressedBufferSize s then lz_fail STATUS_BAD_COMPRESSION_BUFFER s
      else if 4096 > CompressedBufferSize s then lz_fail STATUS_BAD_COMPRESSION_BUFFER s
      else do {
        d \<leftarrow> lz_memcpy src (src_pos s) (dst s) (dst_pos s) 4096;
        Some (Inr (s\<lparr>dst := d, dst_pos := dst_pos s + 4096, src_pos := src_pos s + 4096,
          UncompressedBufferSize := UncompressedBufferSize s - 4096,
          CompressedBufferSize := CompressedBufferSize s - 4096\<rparr>))
      })"

partial_function (option) lz_chunks :: "u8 list \<Rightarrow> lz \<Rightarrow> lz lz_result" where
  "lz_chunks src s =
     (if CompressedBufferSize s = 0 then Some (Inr s)
      else if CompressedBufferSize s < 2 then lz_fail STATUS_INVALID_PARAMETER s
      else do {
        blocksz \<leftarrow> lz_u16 src (src_pos s);
        let s = s\<lparr>src_pos := src_pos s + 2, CompressedBufferSize := CompressedBufferSize s - 2\<rparr>;
        r \<leftarrow> (if blocksz AND 0x8000 = 0 then lz_stored src s
             else lz_chunk src s ((blocksz AND 0xfff) + 1) 0);
        case r of Inl e \<Rightarrow> Some (Inl e) | Inr s \<Rightarrow> lz_chunks src s
      })"

text \<open>
  The pointer arguments are \<open>option\<close>s, \<open>None\<close> for null (\<open>fin\<close> tells whether
  \<^verbatim>\<open>FinalUncompressedSize\<close> is one).  The result: the status, the output buffer and what is
  stored in \<^verbatim>\<open>*FinalUncompressedSize\<close>, if anything.
\<close>

definition RtlDecompressBufferLZNT1 ::
  "u8 list option \<Rightarrow> u32 \<Rightarrow> u8 list option \<Rightarrow> u32 \<Rightarrow> bool \<Rightarrow>
     (NTSTATUS \<times> u8 list option \<times> u32 option) option" where
  "RtlDecompressBufferLZNT1 UncompressedBuffer usize CompressedBuffer csize fin =
     (case (CompressedBuffer, UncompressedBuffer) of
        (Some src, Some d) \<Rightarrow>
          if \<not> fin \<or> csize = 0 then Some (STATUS_ACCESS_VIOLATION, Some d, None)
          else do {
            r \<leftarrow> lz_chunks src \<lparr>src_pos = 0, CompressedBufferSize = csize, dst = d, dst_pos = 0,
                 UncompressedBufferSize = usize\<rparr>;
            case r of
              Inl (status, d) \<Rightarrow> Some (status, Some d, Some usize)
            | Inr s \<Rightarrow> Some (STATUS_SUCCESS, Some (dst s), Some (usize - UncompressedBufferSize s))
          }
      | _ \<Rightarrow> Some (STATUS_ACCESS_VIOLATION, UncompressedBuffer, None))"

definition COMPRESSION_FORMAT_LZNT1 :: u16 where "COMPRESSION_FORMAT_LZNT1 = 2"

definition RtlDecompressBuffer ::
  "u16 \<Rightarrow> u8 list option \<Rightarrow> u32 \<Rightarrow> u8 list option \<Rightarrow> u32 \<Rightarrow> bool \<Rightarrow>
     (NTSTATUS \<times> u8 list option \<times> u32 option) option" where
  "RtlDecompressBuffer CompressionFormat UncompressedBuffer usize CompressedBuffer csize fin =
     (if CompressionFormat \<noteq> COMPRESSION_FORMAT_LZNT1 then Some (STATUS_INVALID_PARAMETER, UncompressedBuffer, None)
      else RtlDecompressBufferLZNT1 UncompressedBuffer usize CompressedBuffer csize fin)"

end
