(* ===== verification/Lznt1_Spec.thy ===== *)
theory Lznt1_Spec
  imports Lznt1
begin

text \<open>
  What the LZNT1 decompressor may touch, and that it always returns: the only access outside
  the buffers the caller names is a read of at most 64 KiB before the output position.
\<close>

section \<open>Ranges\<close>

text \<open>The output buffer changed inside the range the state may still write.\<close>

definition kept :: "lz \<Rightarrow> u8 list \<Rightarrow> bool" where
  "kept s d \<longleftrightarrow> length d = length (dst s) \<and>
     (\<forall>i. i < dst_pos s \<or> dst_pos s + unat (UncompressedBufferSize s) \<le> i \<longrightarrow> d ! i = dst s ! i)"

definition moved :: "lz \<Rightarrow> lz \<Rightarrow> bool" where
  "moved s s' \<longleftrightarrow> kept s (dst s') \<and> dst_pos s \<le> dst_pos s' \<and> src_pos s \<le> src_pos s' \<and>
     dst_pos s' + unat (UncompressedBufferSize s') = dst_pos s + unat (UncompressedBufferSize s) \<and>
     src_pos s' + unat (CompressedBufferSize s') = src_pos s + unat (CompressedBufferSize s)"

definition lz_wf :: "u8 list \<Rightarrow> lz \<Rightarrow> bool" where
  "lz_wf src s \<longleftrightarrow> src_pos s + unat (CompressedBufferSize s) \<le> length src \<and>
     dst_pos s + unat (UncompressedBufferSize s) \<le> length (dst s) \<and> 2 ^ 16 \<le> dst_pos s"

lemma kept_refl [simp]: "kept s (dst s)"
  by (simp add: kept_def)

lemma moved_refl [simp]: "moved s s"
  by (simp add: moved_def)

lemma moved_kept: "moved s s' \<Longrightarrow> kept s' d \<Longrightarrow> kept s d"
  unfolding moved_def kept_def by (metis le_trans not_le_imp_less not_less)

lemma moved_trans: "moved s s' \<Longrightarrow> moved s' s'' \<Longrightarrow> moved s s''"
  using moved_kept [of s s' "dst s''"] unfolding moved_def by auto

lemma moved_wf: "moved s s' \<Longrightarrow> lz_wf src s \<Longrightarrow> lz_wf src s'"
  by (auto simp: moved_def lz_wf_def kept_def)

text \<open>A step returned, and did not touch what it must not.\<close>

definition safe :: "lz \<Rightarrow> (lz \<Rightarrow> 'a \<Rightarrow> bool) \<Rightarrow> 'a lz_result \<Rightarrow> bool" where
  "safe s P r \<longleftrightarrow> (case r of None \<Rightarrow> False | Some (Inl (st, d)) \<Rightarrow> kept s d | Some (Inr a) \<Rightarrow> P s a)"

lemma safe_fail [simp]: "safe s P (lz_fail st s) = True"
  by (simp add: safe_def lz_fail_def)

lemma unat_u16_less: "unat (w :: u16) < 2 ^ 16"
  using unsigned_less [of w] by simp

lemma unat_ucast_u16: "unat (ucast (w :: u16) :: u32) = unat w"
proof -
  have "unat w < 2 ^ 32" using unat_u16_less [of w] by simp
  then show ?thesis by (simp add: unsigned_ucast_eq take_bit_nat_eq_self)
qed

text \<open>Skipping source bytes.\<close>

lemma skip_src:
  assumes "unat k \<le> unat (CompressedBufferSize s)" "lz_wf src s"
  defines "s' \<equiv> s\<lparr>src_pos := src_pos s + unat k, CompressedBufferSize := CompressedBufferSize s - k\<rparr>"
  shows "moved s s'" "lz_wf src s'"
proof -
  have "unat (CompressedBufferSize s - k) = unat (CompressedBufferSize s) - unat k"
    using assms(1) by (simp add: unat_sub word_le_nat_alt)
  then show "moved s s'" using assms by (simp add: moved_def s'_def kept_def)
  then show "lz_wf src s'" using assms(2) moved_wf by blast
qed

section \<open>One token\<close>

lemma copy_back_safe:
  assumes "dist \<le> i" "i + len \<le> length d"
  shows "\<exists>d'. copy_back len dist d i = Some (d', i + len) \<and> length d' = length d \<and>
    (\<forall>k. k < i \<or> i + len \<le> k \<longrightarrow> d' ! k = d ! k)"
  using assms
proof (induction len arbitrary: d i)
  case (Suc len)
  let ?v = "if dist = 0 then d ! i else d ! (i - dist)"
  have "copy_back (Suc len) dist d i = copy_back len dist (d[i := ?v]) (i + 1)"
    using Suc.prems by (auto simp: faults)
  moreover obtain d' where "copy_back len dist (d[i := ?v]) (i + 1) = Some (d', i + 1 + len)"
    "length d' = length d" "\<forall>k. k < i + 1 \<or> i + 1 + len \<le> k \<longrightarrow> d' ! k = d[i := ?v] ! k"
    using Suc.IH [of "i + 1" "d[i := ?v]"] Suc.prems by auto
  ultimately show ?case by (auto simp: nth_list_update)
qed simp

lemma lz_copy_safe:
  assumes "lz_wf src s"
  shows "safe s (\<lambda>s a. moved s (fst a)) (lz_copy src s blocksz blockpos)"
proof (cases "CompressedBufferSize s < 2 \<or> blocksz < 2")
  case True
  then show ?thesis by (simp add: lz_copy_def)
next
  case False
  then have csz: "2 \<le> unat (CompressedBufferSize s)" by (simp add: word_less_nat_alt)
  let ?s = "s\<lparr>src_pos := src_pos s + 2, CompressedBufferSize := CompressedBufferSize s - 2\<rparr>"
  have mv: "moved s ?s" "lz_wf src ?s" using skip_src [of 2 s src] csz assms by simp_all
  obtain runlen where rl: "lz_u16 src (src_pos s) = Some runlen"
    using csz assms by (auto simp: lz_u16_def lz_wf_def faults)
  obtain lm bb where sp: "token_split (unat blockpos - 1) 0xfff 12 = (lm, bb)" by fastforce
  let ?len = "(runlen AND lm) + 3" and ?dist = "drop_bit (unat bb) runlen + 1"
  show ?thesis
  proof (cases "blockpos = 0 \<or> UncompressedBufferSize s < ucast ?len")
    case True
    then show ?thesis using False rl sp
      by (auto simp: lz_copy_def safe_def lz_fail_def kept_def Let_def)
  next
    case ok: False
    have len: "unat ?len \<le> unat (UncompressedBufferSize s)"
      using ok by (simp add: word_less_nat_alt not_less unat_ucast_u16)
    have "unat ?dist \<le> dst_pos s" using assms unat_u16_less [of ?dist] by (simp add: lz_wf_def)
    moreover have "dst_pos s + unat ?len \<le> length (dst s)" using assms len by (simp add: lz_wf_def)
    ultimately obtain d' where cb: "copy_back (unat ?len) (unat ?dist) (dst s) (dst_pos s) = Some (d', dst_pos s + unat ?len)"
      "length d' = length (dst s)" "\<forall>k. k < dst_pos s \<or> dst_pos s + unat ?len \<le> k \<longrightarrow> d' ! k = dst s ! k"
      using copy_back_safe by blast
    have us: "unat (UncompressedBufferSize s - ucast ?len) = unat (UncompressedBufferSize s) - unat ?len"
      using ok by (subst unat_sub) (simp_all add: not_less unat_ucast_u16)
    have "lz_copy src s blocksz blockpos =
      Some (Inr (?s\<lparr>UncompressedBufferSize := UncompressedBufferSize s - ucast ?len, dst := d', dst_pos := dst_pos s + unat ?len\<rparr>,
        blocksz - 2, blockpos + ?len))"
      using False ok rl sp cb by (simp add: lz_copy_def Let_def)
    moreover have "kept s d'" using cb len by (auto simp: kept_def)
    ultimately show ?thesis using mv(1) len us by (simp add: safe_def moved_def)
  qed
qed

lemma lz_literal_safe:
  assumes "lz_wf src s"
  shows "safe s (\<lambda>s a. moved s (fst a)) (lz_literal src s blocksz blockpos)"
proof (cases "CompressedBufferSize s = 0 \<or> blocksz = 0 \<or> UncompressedBufferSize s = 0")
  case True
  then show ?thesis by (auto simp: lz_literal_def)
next
  case False
  then have "0 < unat (CompressedBufferSize s)" "0 < unat (UncompressedBufferSize s)"
    by (simp_all add: unat_gt_0)
  moreover from this have "unat (CompressedBufferSize s - 1) = unat (CompressedBufferSize s) - 1"
    "unat (UncompressedBufferSize s - 1) = unat (UncompressedBufferSize s) - 1"
    by (simp_all add: unat_minus_one unat_gt_0)
  ultimately show ?thesis using False assms
    by (auto simp: lz_literal_def safe_def lz_wf_def faults moved_def kept_def nth_list_update)
qed

section \<open>Groups, chunks, the whole buffer\<close>

lemma safe_moved:
  assumes "safe s' P r" "moved s s'" "\<And>a. P s' a \<Longrightarrow> Q s a"
  shows "safe s Q r"
  using assms moved_kept [OF assms(2)] by (auto simp: safe_def split: option.splits sum.splits)

lemma lz_group_safe:
  "lz_wf src s \<Longrightarrow> safe s (\<lambda>s a. moved s (fst a)) (lz_group n src flags s blocksz blockpos)"
proof (induction n arbitrary: flags s blocksz blockpos)
  case 0
  then show ?case by (simp add: safe_def)
next
  case (Suc n)
  let ?step = "if flags AND 1 \<noteq> 0 then lz_copy src s blocksz blockpos else lz_literal src s blocksz blockpos"
  have step: "safe s (\<lambda>s a. moved s (fst a)) ?step"
    using lz_copy_safe [OF Suc.prems, of blocksz blockpos] lz_literal_safe [OF Suc.prems, of blocksz blockpos]
    by (auto simp: safe_def split: option.splits sum.splits)
  show ?case
  proof (cases "blocksz = 0")
    case True
    then show ?thesis by (simp add: safe_def)
  next
    case False
    obtain r where r: "?step = Some r" using step by (auto simp: safe_def split: option.splits)
    show ?thesis
    proof (cases r)
      case (Inl e)
      then show ?thesis using False r step by (auto simp: safe_def)
    next
      case (Inr a)
      obtain s' bs bp where a: "a = (s', bs, bp)" by (cases a)
      have mv: "moved s s'" using step r Inr a by (simp add: safe_def)
      have "safe s (\<lambda>s a. moved s (fst a)) (lz_group n src (drop_bit 1 flags) s' bs bp)"
        by (rule safe_moved [OF Suc.IH [OF moved_wf [OF mv Suc.prems]] mv])
          (auto intro: moved_trans [OF mv])
      then show ?thesis using False r Inr a by simp
    qed
  qed
qed

lemma lz_chunk_safe:
  "lz_wf src s \<Longrightarrow> safe s moved (lz_chunk src s blocksz blockpos)"
proof (induction "unat (CompressedBufferSize s)" arbitrary: s blocksz blockpos rule: less_induct)
  case less
  show ?case
  proof (cases "blocksz = 0 \<or> CompressedBufferSize s = 0")
    case True
    then show ?thesis by (subst lz_chunk.simps) (auto simp: safe_def lz_fail_def)
  next
    case False
    let ?s = "s\<lparr>src_pos := src_pos s + 1, CompressedBufferSize := CompressedBufferSize s - 1\<rparr>"
    have pos: "0 < unat (CompressedBufferSize s)" using False by (simp add: unat_gt_0)
    have mv: "moved s ?s" "lz_wf src ?s" using skip_src [of 1 s src] pos less.prems by simp_all
    have dec: "unat (CompressedBufferSize ?s) < unat (CompressedBufferSize s)"
      using pos by (simp add: unat_minus_one unat_gt_0)
    obtain m where m: "rd src (src_pos s) = Some m"
      using pos less.prems by (simp add: lz_wf_def faults)
    have g: "safe ?s (\<lambda>s a. moved s (fst a)) (lz_group 8 src m ?s (blocksz - 1) blockpos)"
      by (rule lz_group_safe [OF mv(2)])
    then obtain r where r: "lz_group 8 src m ?s (blocksz - 1) blockpos = Some r"
      by (auto simp: safe_def split: option.splits)
    show ?thesis
    proof (cases r)
      case (Inl e)
      then show ?thesis using False r g m moved_kept [OF mv(1)]
        by (subst lz_chunk.simps) (auto simp: safe_def)
    next
      case (Inr a)
      obtain s' bs bp where a: "a = (s', bs, bp)" by (cases a)
      have mv': "moved ?s s'" using g r Inr a by (simp add: safe_def)
      have "unat (CompressedBufferSize s') \<le> unat (CompressedBufferSize ?s)"
        using mv' by (simp add: moved_def)
      then have "safe s' moved (lz_chunk src s' bs bp)"
        using less.hyps dec moved_wf [OF mv' mv(2)] by force
      then have "safe s moved (lz_chunk src s' bs bp)"
        by (rule safe_moved) (use moved_trans mv mv' in blast)+
      then show ?thesis using False r m Inr a by (subst lz_chunk.simps) simp
    qed
  qed
qed

lemma lz_stored_safe: "lz_wf src s \<Longrightarrow> safe s moved (lz_stored src s)"
proof (cases "4096 > UncompressedBufferSize s \<or> 4096 > CompressedBufferSize s")
  case True
  then show ?thesis by (auto simp: lz_stored_def)
next
  case False
  assume wf: "lz_wf src s"
  have "4096 \<le> unat (UncompressedBufferSize s)" "4096 \<le> unat (CompressedBufferSize s)"
    using False by (simp_all add: word_less_nat_alt)
  moreover have "unat (UncompressedBufferSize s - 4096) = unat (UncompressedBufferSize s) - 4096"
    "unat (CompressedBufferSize s - 4096) = unat (CompressedBufferSize s) - 4096"
    using False by (simp_all add: unat_sub not_less)
  moreover have "min (length src - src_pos s) 4096 = 4096"
    using calculation(2) wf by (auto simp: lz_wf_def)
  ultimately show ?thesis using wf False
    by (auto simp: lz_stored_def lz_memcpy_def safe_def lz_wf_def moved_def kept_def nth_append)
qed

lemma lz_chunks_safe_aux:
  "lz_wf src s \<Longrightarrow> safe s moved (lz_chunks src s)"
proof (induction "unat (CompressedBufferSize s)" arbitrary: s rule: less_induct)
  case less
  show ?case
  proof (cases "CompressedBufferSize s < 2")
    case True
    then show ?thesis by (subst lz_chunks.simps) (simp add: safe_def lz_fail_def)
  next
    case False
    let ?s = "s\<lparr>src_pos := src_pos s + 2, CompressedBufferSize := CompressedBufferSize s - 2\<rparr>"
    have pos: "2 \<le> unat (CompressedBufferSize s)" using False by (simp add: word_less_nat_alt)
    then have nz: "CompressedBufferSize s \<noteq> 0" by auto
    have mv: "moved s ?s" "lz_wf src ?s" using skip_src [of 2 s src] pos less.prems by simp_all
    have dec: "unat (CompressedBufferSize ?s) < unat (CompressedBufferSize s)"
      using pos unat_sub [of 2 "CompressedBufferSize s"] by (simp add: word_le_nat_alt)
    obtain b where b: "lz_u16 src (src_pos s) = Some b"
      using pos less.prems by (auto simp: lz_u16_def lz_wf_def faults)
    let ?step = "if b AND 0x8000 = 0 then lz_stored src ?s else lz_chunk src ?s ((b AND 0xfff) + 1) 0"
    have g: "safe ?s moved ?step"
      using lz_stored_safe [OF mv(2)] lz_chunk_safe [OF mv(2)] by simp
    then obtain r where r: "?step = Some r" by (auto simp: safe_def split: option.splits)
    have run: "lz_chunks src s = (case r of Inl e \<Rightarrow> Some (Inl e) | Inr s \<Rightarrow> lz_chunks src s)"
      by (subst lz_chunks.simps) (simp add: False nz b r Let_def del: add_2_eq_Suc')
    show ?thesis
    proof (cases r)
      case (Inl e)
      then show ?thesis using r g moved_kept [OF mv(1)] by (auto simp: safe_def run)
    next
      case (Inr s')
      have mv': "moved ?s s'" using g r Inr by (simp add: safe_def)
      then have "unat (CompressedBufferSize s') \<le> unat (CompressedBufferSize ?s)"
        by (simp add: moved_def)
      then have "safe s' moved (lz_chunks src s')"
        using less.hyps dec moved_wf [OF mv' mv(2)] by force
      then have "safe s moved (lz_chunks src s')"
        by (rule safe_moved) (use moved_trans mv mv' in blast)+
      then show ?thesis using Inr by (simp add: run)
    qed
  qed
qed

section \<open>The properties\<close>

text \<open>
  C12. The decompression loop always returns, whatever the compressed bytes are.  If the
  counters do not exceed the buffers, it reads the compressed buffer inside its counter and
  writes the output inside its counter; the only other access is a read of at most 64 KiB
  before the output position.  At the end both counters have fallen by what was consumed.
\<close>
theorem lz_chunks_safe:
  assumes "src_pos s + unat (CompressedBufferSize s) \<le> length src"
    and "dst_pos s + unat (UncompressedBufferSize s) \<le> length (dst s)" and "2 ^ 16 \<le> dst_pos s"
  shows "\<exists>r. lz_chunks src s = Some r \<and> (case r of Inl (st, d) \<Rightarrow> kept s d | Inr s' \<Rightarrow> moved s s')"
proof -
  have "safe s moved (lz_chunks src s)" by (rule lz_chunks_safe_aux) (use assms in \<open>simp add: lz_wf_def\<close>)
  then show ?thesis by (auto simp: safe_def split: option.splits)
qed

theorem lz_chunks_safe_witness:
  "\<exists>r. lz_chunks [3, 0xb0, 2, 7, 0, 0] \<lparr>src_pos = 0, CompressedBufferSize = 6,
     dst = replicate (2 ^ 16 + 9) 0, dst_pos = 2 ^ 16, UncompressedBufferSize = 9\<rparr> = Some r"
  using lz_chunks_safe [of "\<lparr>src_pos = 0, CompressedBufferSize = 6,
     dst = replicate (2 ^ 16 + 9) 0, dst_pos = 2 ^ 16, UncompressedBufferSize = 9\<rparr>" "[3, 0xb0, 2, 7, 0, 0]"]
  by fastforce

declare lz_chunks.simps [code] lz_chunk.simps [code] token_split.simps [code]

text \<open>
  Without room before the output a back reference leaves the buffer: one literal, then a
  copy from distance 16, of which the code does not check that it was produced.
\<close>
lemma LZNT1_copies_from_before_the_buffer:
  "RtlDecompressBuffer 2 (Some (replicate 8 0)) 8 (Some [3, 0xb0, 2, 7, 0, 0xf0]) 6 True = None"
  by code_simp

end
