(* ===== verification/Wide_Strings.thy ===== *)
theory Wide_Strings
  imports Nt_Status
begin

text \<open>
  The wide string routines of \<^verbatim>\<open>libs/ntdll/crt.c\<close> with the character macros of
  \<^verbatim>\<open>ntdll.h\<close> and the conversion to narrow strings of \<^verbatim>\<open>rtl.c\<close> they use for their log.

  A string pointer is the memory from that address to the end of its allocation, a list of
  characters; walking past the end is \<open>None\<close>.  A result that points into an argument is the
  offset in it.  \<^verbatim>\<open>tolower\<close> and \<^verbatim>\<open>toupper\<close> are those of the C locale.
\<close>

section \<open>Characters\<close>

definition widetoa :: "u16 \<Rightarrow> u16" where "widetoa x = x AND 0xff"

definition tolower :: "u16 \<Rightarrow> u16" where
  "tolower c = (if 0x41 \<le> c \<and> c \<le> 0x5a then c + 32 else c)"

definition toupper :: "u16 \<Rightarrow> u16" where
  "toupper c = (if 0x61 \<le> c \<and> c \<le> 0x7a then c - 32 else c)"

definition widetol :: "u16 \<Rightarrow> u16" where "widetol x = tolower (widetoa x)"
definition widetou :: "u16 \<Rightarrow> u16" where "widetou x = toupper (widetoa x)"

definition wcmp :: "u16 \<Rightarrow> u16 \<Rightarrow> bool \<Rightarrow> bool" where
  "wcmp a b ci = (if ci then widetol a = widetol b else a = b)"

definition rpl_isspace :: "int \<Rightarrow> int" where
  "rpl_isspace c = (if c \<noteq> 0 \<and> 0 \<le> c \<and> c \<le> 255 \<and> c \<in> {32, 12, 10, 13, 9} then 1 else 0)"

definition rpl_isprint :: "int \<Rightarrow> int" where
  "rpl_isprint c = (if 0 \<le> c \<and> c \<le> 255 \<and> 32 \<le> c \<and> c \<le> 126 then 1 else 0)"

section \<open>Length and copies\<close>

fun wcslen :: "u16 list \<Rightarrow> nat option" where
  "wcslen [] = None"
| "wcslen (c # s) = (if c = 0 then Some 0 else map_option Suc (wcslen s))"

definition rpl_wcslen :: "u16 list option \<Rightarrow> nat option" where
  "rpl_wcslen str = (case str of None \<Rightarrow> Some 0 | Some s \<Rightarrow> wcslen s)"

text \<open>Copying a string with its terminator to position \<open>i\<close> of \<open>d\<close>.\<close>

fun copy_str :: "u16 list \<Rightarrow> nat \<Rightarrow> u16 list \<Rightarrow> u16 list option" where
  "copy_str d i [] = None"
| "copy_str d i (c # s) = do { d \<leftarrow> wr d i c; if c = 0 then Some d else copy_str d (i + 1) s }"

definition rpl_wcscat :: "u16 list \<Rightarrow> u16 list option \<Rightarrow> u16 list option" where
  "rpl_wcscat dest src =
     (case src of None \<Rightarrow> Some dest | Some s \<Rightarrow> do { n \<leftarrow> wcslen dest; copy_str dest n s })"

definition rpl_wcscpy :: "u16 list \<Rightarrow> u16 list \<Rightarrow> u16 list option" where
  "rpl_wcscpy dest src = copy_str dest 0 src"

definition EINVAL :: int where "EINVAL = 22"
definition ERANGE :: int where "ERANGE = 34"

text \<open>
  The bounded copy: at most \<open>n\<close> characters, and whether the terminator was among them.
\<close>

fun copy_bounded :: "nat \<Rightarrow> u16 list \<Rightarrow> nat \<Rightarrow> u16 list \<Rightarrow> (bool \<times> u16 list) option" where
  "copy_bounded 0 d i s = Some (False, d)"
| "copy_bounded (Suc n) d i [] = None"
| "copy_bounded (Suc n) d i (c # s) =
     do { d \<leftarrow> wr d i c; if c = 0 then Some (True, d) else copy_bounded n d (i + 1) s }"

text \<open>Looking for the end of the destination; \<open>Inl\<close> when \<open>remaining\<close> runs out first.\<close>

fun find_end :: "nat \<Rightarrow> u16 list \<Rightarrow> nat \<Rightarrow> (unit + nat \<times> nat) option" where
  "find_end 0 d i = None"
| "find_end (Suc remaining) d i = do {
     c \<leftarrow> rd d i;
     if c = 0 then Some (Inr (i, Suc remaining))
     else if remaining = 0 then Some (Inl ())
     else find_end remaining d (i + 1)
   }"

definition rpl_wcscat_s :: "u16 list option \<Rightarrow> nat \<Rightarrow> u16 list option \<Rightarrow> (int \<times> u16 list option) option" where
  "rpl_wcscat_s dest dest_size src =
     (case dest of None \<Rightarrow> Some (EINVAL, dest) | Some d \<Rightarrow>
        if dest_size = 0 then Some (EINVAL, dest)
        else (case src of None \<Rightarrow> do { d \<leftarrow> wr d 0 0; Some (EINVAL, Some d) } | Some s \<Rightarrow> do {
          r \<leftarrow> find_end dest_size d 0;
          case r of
            Inl _ \<Rightarrow> do { d \<leftarrow> wr d 0 0; Some (EINVAL, Some d) }
          | Inr (out, remaining) \<Rightarrow> do {
              (ended, d) \<leftarrow> copy_bounded remaining d out s;
              if ended then Some (0, Some d)
              else do { d \<leftarrow> wr d 0 0; Some (ERANGE, Some d) }
            }
        }))"

definition rpl_wcscpy_s :: "u16 list option \<Rightarrow> nat \<Rightarrow> u16 list option \<Rightarrow> (int \<times> u16 list option) option" where
  "rpl_wcscpy_s dest dest_size src =
     (case dest of None \<Rightarrow> Some (EINVAL, dest) | Some d \<Rightarrow>
        if dest_size = 0 then Some (EINVAL, dest)
        else (case src of None \<Rightarrow> do { d \<leftarrow> wr d 0 0; Some (EINVAL, Some d) } | Some s \<Rightarrow> do {
          (ended, d) \<leftarrow> copy_bounded dest_size d 0 s;
          if ended then Some (0, Some d)
          else do { d \<leftarrow> wr d 0 0; Some (ERANGE, Some d) }
        }))"

section \<open>Comparison\<close>

fun rpl_wcscmp :: "u16 list \<Rightarrow> u16 list \<Rightarrow> int option" where
  "rpl_wcscmp (a # s1) (b # s2) =
     (if a = b then (if a = 0 then Some 0 else rpl_wcscmp s1 s2) else Some (if a < b then -1 else 1))"
| "rpl_wcscmp _ _ = None"

text \<open>Both pointers have moved behind the first difference when the loop of \<open>rpl_wcsncmp\<close> ends.\<close>

fun rpl_wcsncmp :: "u16 list \<Rightarrow> u16 list \<Rightarrow> nat \<Rightarrow> int option" where
  "rpl_wcsncmp s1 s2 0 = Some 0"
| "rpl_wcsncmp [] s2 (Suc n) = None"
| "rpl_wcsncmp (a # s1) s2 (Suc n) =
     (if a = 0 then Some 0
      else case s2 of
        [] \<Rightarrow> None
      | b # s2 \<Rightarrow>
          if a = b then rpl_wcsncmp s1 s2 n
          else do { x \<leftarrow> rd s1 0; y \<leftarrow> rd s2 0; Some (if x < y then -1 else 1) })"

fun rpl__wcsicmp :: "u16 list \<Rightarrow> u16 list \<Rightarrow> int option" where
  "rpl__wcsicmp (a # s1) (b # s2) =
     (if wcmp a b True then (if a = 0 then Some 0 else rpl__wcsicmp s1 s2)
      else Some (if widetol a < widetol b then -1 else 1))"
| "rpl__wcsicmp _ _ = None"

text \<open>\<open>n\<close> is a \<^verbatim>\<open>SIZE_T\<close>: with \<open>0\<close> the counter wraps around.\<close>

fun rpl__wcsnicmp :: "u16 list \<Rightarrow> u16 list \<Rightarrow> u64 \<Rightarrow> int option" where
  "rpl__wcsnicmp (a # s1) (b # s2) n =
     (if wcmp a b True then
        (let n = n - 1 in if n = 0 \<or> a = 0 then Some 0 else rpl__wcsnicmp s1 s2 n)
      else Some (if widetol a < widetol b then -1 else 1))"
| "rpl__wcsnicmp _ _ n = None"

section \<open>Searching and mapping\<close>

text \<open>The last occurrence so far is \<open>p\<close>; the terminator takes part in the search.\<close>

fun wcsrchr_from :: "u16 list \<Rightarrow> u16 \<Rightarrow> nat \<Rightarrow> nat option \<Rightarrow> nat option option" where
  "wcsrchr_from [] c i p = None"
| "wcsrchr_from (x # s) c i p =
     (let p = (if x = c then Some i else p) in if x = 0 then Some p else wcsrchr_from s c (i + 1) p)"

definition rpl_wcsrchr :: "u16 list \<Rightarrow> u16 \<Rightarrow> nat option option" where
  "rpl_wcsrchr s c = wcsrchr_from s c 0 None"

fun wcschr_from :: "u16 list \<Rightarrow> u16 \<Rightarrow> nat \<Rightarrow> nat option option" where
  "wcschr_from [] c i = None"
| "wcschr_from (x # s) c i =
     (if x = 0 then Some None else if x = c then Some (Some i) else wcschr_from s c (i + 1))"

definition rpl_wcschr :: "u16 list \<Rightarrow> u16 \<Rightarrow> nat option option" where
  "rpl_wcschr str c = wcschr_from str c 0"

fun rpl__wcsupr :: "u16 list \<Rightarrow> u16 list option" where
  "rpl__wcsupr [] = None"
| "rpl__wcsupr (c # s) = (if c = 0 then Some (c # s) else map_option ((#) (widetou c)) (rpl__wcsupr s))"

fun rpl__wcslwr :: "u16 list \<Rightarrow> u16 list option" where
  "rpl__wcslwr [] = None"
| "rpl__wcslwr (c # s) = (if c = 0 then Some (c # s) else map_option ((#) (widetol c)) (rpl__wcslwr s))"

section \<open>Conversion to narrow strings\<close>

fun oem_copy :: "nat \<Rightarrow> u8 list \<Rightarrow> nat \<Rightarrow> u16 list \<Rightarrow> u8 list option" where
  "oem_copy 0 d i s = Some d"
| "oem_copy (Suc n) d i [] = None"
| "oem_copy (Suc n) d i (c # s) = do { d \<leftarrow> wr d i (ucast (widetoa c)); oem_copy n d (i + 1) s }"

text \<open>
  The loop runs to \<open>end\<close> inclusive.  The result: the status, the narrow buffer and what is
  stored in \<^verbatim>\<open>*BytesInOemString\<close>, if anything.
\<close>

definition RtlUnicodeToOemN ::
  "u8 list \<Rightarrow> u32 \<Rightarrow> u16 list option \<Rightarrow> u32 \<Rightarrow> (NTSTATUS \<times> u8 list \<times> u32 option) option" where
  "RtlUnicodeToOemN OemString MaxBytesInOemString UnicodeString BytesInUnicodeString =
     (let stop = min (unat BytesInUnicodeString div 2) (unat MaxBytesInOemString) in
      case UnicodeString of
        None \<Rightarrow> Some (STATUS_ACCESS_VIOLATION, OemString, None)
      | Some s \<Rightarrow>
          if stop = 0 then do { d \<leftarrow> wr OemString 0 0; Some (STATUS_SUCCESS, d, None) }
          else do {
            d \<leftarrow> oem_copy (stop + 1) OemString 0 s;
            Some (STATUS_SUCCESS, d, Some (of_nat (stop + 1)))
          })"

text \<open>\<^verbatim>\<open>DECLAREVARCONV\<close> and \<^verbatim>\<open>WSTR2STR\<close>, \<^verbatim>\<open>US2STR\<close>: conversion into a local buffer.\<close>

definition varconv :: "u8 list" where
  "varconv = [0x28, 0x6e, 0x69, 0x6c, 0x29] @ replicate 1019 0"

definition WSTR2STR :: "u16 list option \<Rightarrow> u8 list option" where
  "WSTR2STR src = do {
     n \<leftarrow> rpl_wcslen src;
     (_, d, _) \<leftarrow> RtlUnicodeToOemN varconv 1024 src (of_nat (n * 2));
     Some d
   }"

text \<open>The narrow string in a buffer: what is before the first null byte.\<close>

fun narrow :: "u8 list \<Rightarrow> u8 list option" where
  "narrow [] = None"
| "narrow (c # s) = (if c = 0 then Some [] else map_option ((#) c) (narrow s))"

fun strspn :: "u8 list \<Rightarrow> u8 list \<Rightarrow> nat" where
  "strspn [] accept = 0"
| "strspn (c # s) accept = (if c \<in> set accept then Suc (strspn s accept) else 0)"

fun strstr :: "u8 list \<Rightarrow> u8 list \<Rightarrow> nat option" where
  "strstr s needle =
     (if take (length needle) s = needle then Some 0
      else case s of [] \<Rightarrow> None | c # s \<Rightarrow> map_option Suc (strstr s needle))"

definition rpl_wcsspn :: "u16 list \<Rightarrow> u16 list \<Rightarrow> nat option" where
  "rpl_wcsspn wcs accept = do {
     a \<leftarrow> WSTR2STR (Some wcs);
     a \<leftarrow> narrow a;
     b \<leftarrow> WSTR2STR (Some accept);
     b \<leftarrow> narrow b;
     Some (strspn a b)
   }"

text \<open>
  The result of the search is only tested: the offset that is returned is the distance
  between the two local buffers, the argument \<open>delta\<close>.
\<close>

definition rpl_wcsstr :: "int \<Rightarrow> u16 list \<Rightarrow> u16 list option \<Rightarrow> int option option" where
  "rpl_wcsstr delta haystack needle = do {
     n \<leftarrow> rpl_wcslen needle;
     if n = 0 then Some (Some 0)
     else do {
       h \<leftarrow> WSTR2STR (Some haystack);
       h \<leftarrow> narrow h;
       m \<leftarrow> WSTR2STR needle;
       m \<leftarrow> narrow m;
       Some (case strstr h m of None \<Rightarrow> None | Some _ \<Rightarrow> Some delta)
     }
   }"

section \<open>Numbers\<close>

fun skip_space :: "u16 list \<Rightarrow> u16 list" where
  "skip_space [] = []"
| "skip_space (c # s) = (if rpl_isspace (uint (widetoa c)) \<noteq> 0 then skip_space s else c # s)"

fun digits_value :: "u64 \<Rightarrow> u16 list \<Rightarrow> u64 option" where
  "digits_value v [] = None"
| "digits_value v (c # s) =
     (if 0x30 \<le> widetoa c \<and> widetoa c \<le> 0x39 then digits_value (v * 10 + ucast (widetoa c) - 0x30) s
      else Some v)"

definition rpl__wtoi64 :: "u16 list \<Rightarrow> u64 option" where
  "rpl__wtoi64 str =
     (case skip_space str of
        [] \<Rightarrow> None
      | c # s \<Rightarrow>
          if c = 0x2b then digits_value 0 s
          else if c = 0x2d then map_option (\<lambda>v. 0 - v) (digits_value 0 s)
          else digits_value 0 (c # s))"

definition rpl__wtol :: "u16 list \<Rightarrow> u32 option" where
  "rpl__wtol str = map_option ucast (rpl__wtoi64 str)"

text \<open>
  \<^verbatim>\<open>strtoul\<close> and \<^verbatim>\<open>strtoll\<close> are arguments: they take a narrow string and a base and return the
  value and the number of characters consumed.
\<close>

definition rpl_wcstoul ::
  "(u8 list \<Rightarrow> int \<Rightarrow> u64 \<times> nat) \<Rightarrow> u16 list \<Rightarrow> int \<Rightarrow> (u32 \<times> nat) option" where
  "rpl_wcstoul strtoul nptr base = do {
     a \<leftarrow> WSTR2STR (Some nptr);
     a \<leftarrow> narrow a;
     let (ret, endptr) = strtoul a base;
     Some (ucast ret, endptr)
   }"

definition rpl__wcstoui64 ::
  "(u8 list \<Rightarrow> int \<Rightarrow> u64 \<times> nat) \<Rightarrow> u16 list \<Rightarrow> int \<Rightarrow> (u64 \<times> nat) option" where
  "rpl__wcstoui64 strtoll nptr base = do {
     a \<leftarrow> WSTR2STR (Some nptr);
     a \<leftarrow> narrow a;
     let (ret, endptr) = strtoll a base;
     Some (ret, endptr)
   }"

end
