(* ===== verification/Wide_Strings_Spec.thy ===== *)
theory Wide_Strings_Spec
  imports Wide_Strings
begin

text \<open>
  What the wide string routines compute on terminated strings: memory of the form
  \<open>cs @ 0 # rest\<close> where \<open>cs\<close> has no null character.
\<close>

abbreviation terminated :: "u16 list \<Rightarrow> bool" where "terminated cs \<equiv> 0 \<notin> set cs"

lemma wcslen_terminated [simp]: "terminated cs \<Longrightarrow> wcslen (cs @ 0 # r) = Some (length cs)"
  by (induction cs) auto

section \<open>Bounded copies\<close>




section \<open>Numbers\<close>

definition digit :: "nat \<Rightarrow> u16" where "digit d = 0x30 + of_nat d"

fun decimal :: "nat \<Rightarrow> u16 list" where
  "decimal n = (if n < 10 then [digit n] else decimal (n div 10) @ [digit (n mod 10)])"

declare decimal.simps [simp del]

lemma digit_char:
  assumes "d < 10"
  shows "widetoa (digit d) = digit d" "0x30 \<le> digit d" "digit d \<le> 0x39"
    "ucast (digit d) = (0x30 + of_nat d :: u64)" "rpl_isspace (uint (digit d)) = 0"
    "digit d \<noteq> 0x2b" "digit d \<noteq> 0x2d"
proof -
  have "d \<in> {0, 1, 2, 3, 4, 5, 6, 7, 8, 9}" using assms by auto
  then show "widetoa (digit d) = digit d" "0x30 \<le> digit d" "digit d \<le> 0x39"
    "ucast (digit d) = (0x30 + of_nat d :: u64)" "rpl_isspace (uint (digit d)) = 0"
    "digit d \<noteq> 0x2b" "digit d \<noteq> 0x2d"
    by (elim insertE; simp add: widetoa_def rpl_isspace_def digit_def)+
qed

lemma digits_value_decimal:
  "digits_value v (decimal n @ s) = digits_value (v * 10 ^ length (decimal n) + of_nat n) s"
proof (induction n arbitrary: v s rule: decimal.induct)
  case (1 n)
  have step: "digits_value w (digit k # s) = digits_value (w * 10 + of_nat k) s" if "k < 10" for w k s
    using digit_char [OF that] by (simp add: algebra_simps)
  show ?case
  proof (cases "n < 10")
    case True
    then show ?thesis by (simp add: decimal.simps [of n] step del: digits_value.simps)
  next
    case False
    let ?m = "n div 10" and ?k = "n mod 10"
    have eq: "decimal n = decimal ?m @ [digit ?k]" using False by (simp add: decimal.simps [of n])
    let ?p = "10 ^ length (decimal ?m) :: u64"
    have "of_nat ?m * 10 + of_nat ?k = (of_nat (?m * 10 + ?k) :: u64)"
      by (simp only: of_nat_add of_nat_mult of_nat_numeral)
    then have n: "of_nat ?m * 10 + of_nat ?k = (of_nat n :: u64)" by simp
    have "(v * ?p + of_nat ?m) * 10 + of_nat ?k = v * (?p * 10) + (of_nat ?m * 10 + of_nat ?k)"
      by (simp only: distrib_right mult.assoc add.assoc)
    also have "\<dots> = v * 10 ^ length (decimal n) + of_nat n" by (simp only: n) (simp add: eq)
    finally have e: "(v * ?p + of_nat ?m) * 10 + of_nat ?k = v * 10 ^ length (decimal n) + of_nat n" .
    have "digits_value v (decimal n @ s) = digits_value v (decimal ?m @ digit ?k # s)" by (simp add: eq)
    also have "\<dots> = digits_value (v * ?p + of_nat ?m) (digit ?k # s)" by (rule "1" [OF False])
    also have "\<dots> = digits_value (v * 10 ^ length (decimal n) + of_nat n) s"
      by (simp only: step [OF mod_less_divisor [OF zero_less_numeral]] e)
    finally show ?thesis .
  qed
qed

lemma decimal_Cons: "\<exists>d ds. decimal n = digit d # ds \<and> d < 10"
proof (induction n rule: decimal.induct)
  case (1 n)
  then show ?case by (cases "n < 10") (auto simp: decimal.simps [of n])
qed

section \<open>The properties\<close>



text \<open>
  \<^verbatim>\<open>wcscmp\<close> compares terminated strings lexicographically by character code, whatever
  lies behind the terminators.
\<close>
theorem rpl_wcscmp_lexicographic:
  assumes "terminated a" "terminated b"
  shows "rpl_wcscmp (a @ 0 # r) (b @ 0 # q) = Some (if a = b then 0 else if ord_class.lexordp a b then -1 else 1)"
  using assms
proof (induction a arbitrary: b)
  case Nil
  then show ?case by (cases b) (auto simp: word_gt_0)
next
  case (Cons x a)
  then show ?case by (cases b) (auto simp: word_gt_0)
qed

theorem rpl_wcscmp_lexicographic_witness:
  "rpl_wcscmp [0x61, 0x62, 0, 7] [0x61, 0x62, 0x63, 0] = Some (-1)"
  using rpl_wcscmp_lexicographic [of "[0x61, 0x62]" "[0x61, 0x62, 0x63]" "[7]" "[]"] by simp

text \<open>
  \<^verbatim>\<open>wcsncmp\<close> looks behind the first difference: it compares the characters after it, and
  takes the end of the first string for equality.
\<close>
lemma rpl_wcsncmp_skips_difference:
  "rpl_wcsncmp [0x61, 0] [0x62, 0] 1 = Some 1" "rpl_wcsncmp [0x62, 0] [0x61, 0x63, 0] 2 = Some (-1)"
  "rpl_wcsncmp [0x61, 0] [0x61, 0x62, 0] 2 = Some 0"
  by code_simp+

text \<open>
  Parsing inverts printing: \<^verbatim>\<open>_wtoi64\<close> on the decimal digits of a number, with an
  optional minus sign, returns that number modulo \<open>2 ^ 64\<close>, when the digits end with the
  string.
\<close>
theorem rpl__wtoi64_decimal:
  "rpl__wtoi64 (decimal n @ 0 # r) = Some (of_nat n) \<and> rpl__wtoi64 (0x2d # decimal n @ 0 # r) = Some (- of_nat n)"
proof -
  have v: "digits_value 0 (decimal n @ 0 # r) = Some (of_nat n)"
    by (simp add: digits_value_decimal widetoa_def)
  obtain d ds where d: "decimal n = digit d # ds" "d < 10" using decimal_Cons by blast
  note dc = digit_char [OF d(2)]
  have "skip_space (decimal n @ 0 # r) = decimal n @ 0 # r" using d dc by simp
  moreover have "skip_space (0x2d # decimal n @ 0 # r) = 0x2d # decimal n @ 0 # r"
    by (simp add: rpl_isspace_def widetoa_def)
  ultimately show ?thesis using v d dc by (simp add: rpl__wtoi64_def)
qed

text \<open>
  The conversion to narrow strings stores one character more than the buffer may hold: with
  a source at least as long as the buffer it writes behind it.
\<close>

lemma oem_copy_overrun: "length d < i + n \<Longrightarrow> i \<le> length d \<Longrightarrow> oem_copy n d i s = None"
proof (induction n arbitrary: d i s)
  case (Suc n)
  then show ?case by (cases s; cases "i < length d") (auto simp: faults)
qed simp

text \<open>
  \<^verbatim>\<open>RtlUnicodeToOemN\<close> with a source of at least as many characters as the narrow buffer
  holds always writes outside that buffer.
\<close>
theorem RtlUnicodeToOemN_overruns:
  assumes "unat size_d = length d" "0 < length d" "length d \<le> unat bytes div 2"
  shows "RtlUnicodeToOemN d size_d (Some s) bytes = None"
proof -
  have "min (unat bytes div 2) (unat size_d) = length d" using assms by simp
  then show ?thesis using assms(2) oem_copy_overrun [of d 0 "Suc (length d)" s]
    by (simp add: RtlUnicodeToOemN_def del: oem_copy.simps)
qed

theorem RtlUnicodeToOemN_overruns_witness:
  "RtlUnicodeToOemN [0, 0] 2 (Some [0x61, 0x62, 0x63, 0]) 6 = None"
  using RtlUnicodeToOemN_overruns [of 2 "[0, 0]" 6] by simp

end
