(* ===== verification/Keyboard.thy ===== *)
theory Keyboard
  imports Nt_Status
begin

text \<open>
  The keyboard on standard input: the parked read of \<^verbatim>\<open>libs/ntdll/io.c\<close> (\<^verbatim>\<open>g_stdin_kbd\<close>,
  \<^verbatim>\<open>deliver_kbd_event\<close>, \<^verbatim>\<open>nl_kbd_pump\<close>, the keyboard paths of \<^verbatim>\<open>NtReadFile\<close> and
  \<^verbatim>\<open>NtCancelIoFile\<close>) and the table of \<^verbatim>\<open>scancodes.c\<close>.

  Threads interleave between the critical sections and the system calls: each rule of
  \<open>kbd_step\<close> is one critical section, one system call or one group of plain stores.  Buffers,
  status blocks and events are named by their addresses; with \<^verbatim>\<open>VMIN = 0\<close> a \<^verbatim>\<open>read\<close> of an empty
  terminal returns nothing.
\<close>

section \<open>Scan codes\<close>

definition AsciiToScan :: "u8 list" where
  "AsciiToScan = [
   0x00, 0x00, 0x00, 0x00, 0x00, 0x00, 0x00, 0x00, 0x0e, 0x00, 0x1c, 0x00, 0x00, 0x1c, 0x00, 0x00,
   0x00, 0x00, 0x00, 0x00, 0x00, 0x00, 0x00, 0x00, 0x00, 0x00, 0x00, 0x00, 0x00, 0x00, 0x00, 0x00,
   0x39, 0x02, 0x28, 0x04, 0x05, 0x06, 0x08, 0x29, 0x0a, 0x0b, 0x37, 0x4e, 0x33, 0x4a, 0x34, 0x35,
   0x0b, 0x02, 0x03, 0x04, 0x05, 0x06, 0x07, 0x08, 0x09, 0x0a, 0x27, 0x27, 0x33, 0x0d, 0x34, 0x35,
   0x03, 0x1e, 0x30, 0x2e, 0x20, 0x12, 0x21, 0x22, 0x23, 0x17, 0x24, 0x25, 0x26, 0x32, 0x31, 0x18,
   0x19, 0x10, 0x13, 0x1f, 0x14, 0x16, 0x2f, 0x11, 0x2d, 0x15, 0x2c, 0x1a, 0x2b, 0x1b, 0x07, 0x0c,
   0x00, 0x1e, 0x30, 0x2e, 0x20, 0x12, 0x21, 0x22, 0x23, 0x17, 0x24, 0x25, 0x26, 0x32, 0x31, 0x18,
   0x19, 0x10, 0x13, 0x1f, 0x14, 0x16, 0x2f, 0x11, 0x2d, 0x15, 0x2c, 0x1a, 0x2b, 0x1b, 0x29, 0x0e,
   0x00, 0x00, 0x00, 0x00, 0x00, 0x00, 0x00, 0x00, 0x00, 0x00, 0x00, 0x00, 0x00, 0x00, 0x00, 0x00,
   0x00, 0x00, 0x00, 0x00, 0x00, 0x00, 0x00, 0x00, 0x00, 0x00, 0x00, 0x00, 0x00, 0x00, 0x00, 0x00,
   0x00, 0x00, 0x00, 0x00, 0x00, 0x00, 0x00, 0x00, 0x00, 0x00, 0x00, 0x00, 0x00, 0x00, 0x00, 0x00,
   0x00, 0x00, 0x00, 0x00, 0x00, 0x00, 0x00, 0x00, 0x00, 0x00, 0x00, 0x00, 0x00, 0x00, 0x00, 0x00,
   0x00, 0x00, 0x00, 0x00, 0x00, 0x00, 0x00, 0x00, 0x00, 0x00, 0x00, 0x00, 0x00, 0x00, 0x00, 0x00,
   0x00, 0x00, 0x00, 0x00, 0x00, 0x00, 0x00, 0x00, 0x00, 0x00, 0x00, 0x00, 0x00, 0x00, 0x00, 0x00,
   0x00, 0x00, 0x00, 0x00, 0x00, 0x00, 0x00, 0x00, 0x00, 0x00, 0x00, 0x00, 0x00, 0x00, 0x00, 0x00,
   0x00, 0x00, 0x00, 0x00, 0x00, 0x00, 0x00, 0x00, 0x00, 0x00, 0x00, 0x00, 0x00, 0x00, 0x00]"

section \<open>Requests and state\<close>

definition KEY_MAKE :: u16 where "KEY_MAKE = 0"
definition KEY_BREAK :: u16 where "KEY_BREAK = 1"

text \<open>The three fields of the record that are written.\<close>

record KEYBOARD_INPUT_DATA =
  UnitId :: int
  MakeCode :: u8
  Flags :: u16

definition sizeof_KEYBOARD_INPUT_DATA :: u32 where "sizeof_KEYBOARD_INPUT_DATA = 12"

record request =
  unit_id :: int
  buffer :: nat
  iosb :: nat
  event :: "nat option"

text \<open>The digit behind \<^verbatim>\<open>\Device\KeyboardClass\<close> in the description of the handle.\<close>

definition kbd_unit_id :: "string \<Rightarrow> int" where
  "kbd_unit_id name = (if length name \<ge> 24 then of_char (name ! 23) - 48 else 0)"

text \<open>Where a thread is.\<close>

datatype pc = Idle
  | PumpPoll | PumpRead | PumpTake u8 | PumpDeliver u8 request
  | ReadPoll request | ReadRead request | ReadDeliver u8 request | ReadPark request | ReadPending request
  | CancelComplete request nat
  | Faulted

record kbd =
  active :: bool
  slot :: request
  input :: "u8 list"
  status :: "nat \<Rightarrow> NTSTATUS"
  information :: "nat \<Rightarrow> u32"
  records :: "nat \<Rightarrow> KEYBOARD_INPUT_DATA option"
  signaled :: "nat \<Rightarrow> bool"
  threads :: "nat \<Rightarrow> pc"

section \<open>Operations\<close>

definition goto :: "nat \<Rightarrow> pc \<Rightarrow> kbd \<Rightarrow> kbd" where
  "goto t p s = s\<lparr>threads := (threads s)(t := p)\<rparr>"

definition signal :: "nat option \<Rightarrow> kbd \<Rightarrow> kbd" where
  "signal e s = (case e of None \<Rightarrow> s | Some v \<Rightarrow> s\<lparr>signaled := (signaled s)(v := True)\<rparr>)"

text \<open>The table lookup faults on a byte behind the table.\<close>

definition deliver_kbd_event :: "request \<Rightarrow> u8 \<Rightarrow> kbd \<Rightarrow> kbd option" where
  "deliver_kbd_event r ch s = do {
     code \<leftarrow> rd AsciiToScan (unat ch);
     Some (signal (event r) (s\<lparr>
       records := (records s)(buffer r \<mapsto> \<lparr>UnitId = unit_id r, MakeCode = code, Flags = KEY_BREAK\<rparr>),
       information := (information s)(iosb r := sizeof_KEYBOARD_INPUT_DATA),
       status := (status s)(iosb r := STATUS_SUCCESS)\<rparr>))
   }"

definition park :: "request \<Rightarrow> kbd \<Rightarrow> kbd" where
  "park r s = s\<lparr>active := True, slot := r\<rparr>"

definition set_pending :: "request \<Rightarrow> kbd \<Rightarrow> kbd" where
  "set_pending r s = s\<lparr>status := (status s)(iosb r := STATUS_PENDING),
     information := (information s)(iosb r := 0)\<rparr>"

definition complete_cancelled :: "request \<Rightarrow> kbd \<Rightarrow> kbd" where
  "complete_cancelled r s = signal (event r) (s\<lparr>information := (information s)(iosb r := 0),
     status := (status s)(iosb r := STATUS_CANCELLED)\<rparr>)"

definition set_status :: "nat \<Rightarrow> NTSTATUS \<Rightarrow> kbd \<Rightarrow> kbd" where
  "set_status i st s = s\<lparr>status := (status s)(i := st)\<rparr>"

text \<open>The routines as one thread runs them when no other thread interferes.\<close>

definition nl_kbd_pump :: "kbd \<Rightarrow> kbd option" where
  "nl_kbd_pump s =
     (if \<not> active s then Some s
      else case input s of
        [] \<Rightarrow> Some s
      | ch # rest \<Rightarrow> deliver_kbd_event (slot s) ch (s\<lparr>input := rest, active := False\<rparr>))"

definition NtReadFile_stdin :: "request \<Rightarrow> u32 \<Rightarrow> kbd \<Rightarrow> (NTSTATUS \<times> kbd) option" where
  "NtReadFile_stdin r Length s =
     (if Length \<noteq> sizeof_KEYBOARD_INPUT_DATA then
        Some (STATUS_INVALID_PARAMETER, set_status (iosb r) STATUS_INVALID_PARAMETER s)
      else case input s of
        ch # rest \<Rightarrow> do { s \<leftarrow> deliver_kbd_event r ch (s\<lparr>input := rest\<rparr>); Some (STATUS_SUCCESS, s) }
      | [] \<Rightarrow> Some (STATUS_PENDING, set_pending r (park r s)))"

definition NtCancelIoFile_stdin :: "nat \<Rightarrow> kbd \<Rightarrow> NTSTATUS \<times> kbd" where
  "NtCancelIoFile_stdin i s =
     (STATUS_SUCCESS,
      set_status i STATUS_CANCELLED
        (if active s then complete_cancelled (slot s) (s\<lparr>active := False\<rparr>) else s))"

section \<open>Interleaving\<close>

text \<open>
  Addresses a thread works on.  A thread \<open>owns\<close> the request it is going to complete or park;
  in \<open>ReadPending\<close> it has parked the request and only stores the status.
\<close>

fun owns :: "pc \<Rightarrow> nat option" where
  "owns (PumpDeliver c r) = Some (iosb r)"
| "owns (ReadPoll r) = Some (iosb r)"
| "owns (ReadRead r) = Some (iosb r)"
| "owns (ReadDeliver c r) = Some (iosb r)"
| "owns (ReadPark r) = Some (iosb r)"
| "owns (CancelComplete r i) = Some (iosb r)"
| "owns _ = None"

fun uses :: "pc \<Rightarrow> nat option" where
  "uses (ReadPending r) = Some (iosb r)"
| "uses p = owns p"

definition in_flight :: "kbd \<Rightarrow> nat \<Rightarrow> bool" where
  "in_flight s i \<longleftrightarrow> (active s \<and> iosb (slot s) = i) \<or> (\<exists>t. uses (threads s t) = Some i)"

text \<open>A caller does not pass the status block of a read that is still in flight.\<close>

inductive kbd_step :: "kbd \<Rightarrow> kbd \<Rightarrow> bool" where
  key: "kbd_step s (s\<lparr>input := input s @ [ch]\<rparr>)"
| pump_start: "threads s t = Idle \<Longrightarrow> active s \<Longrightarrow> kbd_step s (goto t PumpPoll s)"
| pump_nothing: "threads s t = PumpPoll \<Longrightarrow> input s = [] \<Longrightarrow> kbd_step s (goto t Idle s)"
| pump_polled: "threads s t = PumpPoll \<Longrightarrow> input s \<noteq> [] \<Longrightarrow> kbd_step s (goto t PumpRead s)"
| pump_raced: "threads s t = PumpRead \<Longrightarrow> input s = [] \<Longrightarrow> kbd_step s (goto t Idle s)"
| pump_read: "threads s t = PumpRead \<Longrightarrow> input s = ch # rest \<Longrightarrow>
    kbd_step s (goto t (PumpTake ch) (s\<lparr>input := rest\<rparr>))"
| pump_dropped: "threads s t = PumpTake ch \<Longrightarrow> \<not> active s \<Longrightarrow> kbd_step s (goto t Idle s)"
| pump_take: "threads s t = PumpTake ch \<Longrightarrow> active s \<Longrightarrow>
    kbd_step s (goto t (PumpDeliver ch (slot s)) (s\<lparr>active := False\<rparr>))"
| pump_deliver: "threads s t = PumpDeliver ch r \<Longrightarrow> deliver_kbd_event r ch s = Some s' \<Longrightarrow>
    kbd_step s (goto t Idle s')"
| pump_fault: "threads s t = PumpDeliver ch r \<Longrightarrow> deliver_kbd_event r ch s = None \<Longrightarrow>
    kbd_step s (goto t Faulted s)"
| read_bad: "threads s t = Idle \<Longrightarrow> \<not> in_flight s i \<Longrightarrow>
    kbd_step s (set_status i STATUS_INVALID_PARAMETER s)"
| read_start: "threads s t = Idle \<Longrightarrow> \<not> in_flight s (iosb r) \<Longrightarrow> kbd_step s (goto t (ReadPoll r) s)"
| read_nothing: "threads s t = ReadPoll r \<Longrightarrow> input s = [] \<Longrightarrow> kbd_step s (goto t (ReadPark r) s)"
| read_polled: "threads s t = ReadPoll r \<Longrightarrow> input s \<noteq> [] \<Longrightarrow> kbd_step s (goto t (ReadRead r) s)"
| read_raced: "threads s t = ReadRead r \<Longrightarrow> input s = [] \<Longrightarrow> kbd_step s (goto t (ReadPark r) s)"
| read_fast: "threads s t = ReadRead r \<Longrightarrow> input s = ch # rest \<Longrightarrow>
    kbd_step s (goto t (ReadDeliver ch r) (s\<lparr>input := rest\<rparr>))"
| read_deliver: "threads s t = ReadDeliver ch r \<Longrightarrow> deliver_kbd_event r ch s = Some s' \<Longrightarrow>
    kbd_step s (goto t Idle s')"
| read_fault: "threads s t = ReadDeliver ch r \<Longrightarrow> deliver_kbd_event r ch s = None \<Longrightarrow>
    kbd_step s (goto t Faulted s)"
| read_park: "threads s t = ReadPark r \<Longrightarrow> kbd_step s (goto t (ReadPending r) (park r s))"
| read_pending: "threads s t = ReadPending r \<Longrightarrow> kbd_step s (goto t Idle (set_pending r s))"
| cancel_none: "threads s t = Idle \<Longrightarrow> \<not> active s \<Longrightarrow> \<not> in_flight s i \<Longrightarrow>
    kbd_step s (set_status i STATUS_CANCELLED s)"
| cancel_take: "threads s t = Idle \<Longrightarrow> active s \<Longrightarrow> \<not> in_flight s i \<Longrightarrow>
    kbd_step s (goto t (CancelComplete (slot s) i) (s\<lparr>active := False\<rparr>))"
| cancel_done: "threads s t = CancelComplete r i \<Longrightarrow>
    kbd_step s (goto t Idle (set_status i STATUS_CANCELLED (complete_cancelled r s)))"

definition kbd_init :: kbd where
  "kbd_init = \<lparr>active = False, slot = \<lparr>unit_id = 0, buffer = 0, iosb = 0, event = None\<rparr>, input = [],
     status = (\<lambda>_. 0), information = (\<lambda>_. 0), records = (\<lambda>_. None), signaled = (\<lambda>_. False),
     threads = (\<lambda>_. Idle)\<rparr>"

inductive kbd_reachable :: "kbd \<Rightarrow> bool" where
  init: "kbd_reachable kbd_init"
| step: "kbd_reachable s \<Longrightarrow> kbd_step s s' \<Longrightarrow> kbd_reachable s'"

end
