(* ===== verification/Keyboard_Spec.thy ===== *)
theory Keyboard_Spec
  imports Keyboard
begin

text \<open>
  Properties of the parked keyboard read: no request is completed twice, an undisturbed pump
  completes the parked read, and the races the code has, as reachable states.
\<close>

section \<open>Ownership\<close>

definition one_owner :: "kbd \<Rightarrow> bool" where
  "one_owner s \<longleftrightarrow>
     (\<forall>t t' i. owns (threads s t) = Some i \<longrightarrow> owns (threads s t') = Some i \<longrightarrow> t = t') \<and>
     (\<forall>t i. owns (threads s t) = Some i \<longrightarrow> active s \<longrightarrow> iosb (slot s) \<noteq> i)"

lemma owns_uses: "owns p = Some i \<Longrightarrow> uses p = Some i"
  by (cases p) auto

lemma in_flight_owner: "owns (threads s t) = Some i \<Longrightarrow> in_flight s i"
  by (auto simp: in_flight_def dest: owns_uses)

lemma goto_simps [simp]:
  "threads (goto t p s) = (threads s)(t := p)" "active (goto t p s) = active s"
  "slot (goto t p s) = slot s" "input (goto t p s) = input s"
  "status (goto t p s) = status s" "records (goto t p s) = records s"
  "information (goto t p s) = information s" "signaled (goto t p s) = signaled s"
  by (simp_all add: goto_def)

lemma deliver_keeps:
  assumes "deliver_kbd_event r ch s = Some s'"
  shows "threads s' = threads s" "active s' = active s" "slot s' = slot s" "input s' = input s"
  using assms by (auto simp: deliver_kbd_event_def signal_def split: bind_splits option.splits)

lemma set_keeps [simp]:
  "threads (set_status i st s) = threads s" "active (set_status i st s) = active s" "slot (set_status i st s) = slot s"
  "threads (set_pending r s) = threads s" "active (set_pending r s) = active s" "slot (set_pending r s) = slot s"
  "threads (complete_cancelled r s) = threads s" "active (complete_cancelled r s) = active s"
  "slot (complete_cancelled r s) = slot s"
  "threads (park r s) = threads s" "active (park r s) = True" "slot (park r s) = r"
  by (auto simp: set_status_def set_pending_def complete_cancelled_def park_def signal_def split: option.splits)

text \<open>
  The ways a step moves ownership: a thread drops it or hands its own on, it takes the slot,
  it fills the slot, or a new read starts.
\<close>

lemma one_ownerD:
  assumes "one_owner s" "owns (threads s t) = Some i"
  shows "owns (threads s t') = Some i \<Longrightarrow> t' = t" "active s \<Longrightarrow> iosb (slot s) \<noteq> i"
  using assms unfolding one_owner_def by blast+

lemma one_ownerI:
  assumes "\<And>t t' i. owns (threads s t) = Some i \<Longrightarrow> owns (threads s t') = Some i \<Longrightarrow> t = t'"
    and "\<And>t i. owns (threads s t) = Some i \<Longrightarrow> active s \<Longrightarrow> iosb (slot s) \<noteq> i"
  shows "one_owner s"
  using assms unfolding one_owner_def by blast

lemma one_owner_same:
  "one_owner s \<Longrightarrow> threads s' = threads s \<Longrightarrow> active s' = active s \<Longrightarrow> slot s' = slot s \<Longrightarrow> one_owner s'"
  unfolding one_owner_def by simp

lemma one_owner_goto:
  assumes "one_owner s" "\<And>i. owns p = Some i \<Longrightarrow> owns (threads s t) = Some i"
  shows "one_owner (goto t p s)"
  by (rule one_ownerI) (use assms in \<open>auto split: if_splits dest: one_ownerD\<close>)

lemma one_owner_take:
  assumes "one_owner s" "owns p = Some (iosb (slot s))" "active s"
  shows "one_owner (goto t p (s\<lparr>active := False\<rparr>))"
  by (rule one_ownerI) (use assms in \<open>auto split: if_splits dest: one_ownerD\<close>)

lemma one_owner_fill:
  assumes "one_owner s" "owns p = None" "owns (threads s t) = Some (iosb r)"
  shows "one_owner (goto t p (park r s))"
  by (rule one_ownerI) (use assms in \<open>auto split: if_splits dest: one_ownerD\<close>)

lemma one_owner_new:
  assumes "one_owner s" "owns p = Some i" "\<not> in_flight s i"
  shows "one_owner (goto t p s)"
proof (rule one_ownerI)
  have new: "owns (threads s t') \<noteq> Some i" for t' using assms(3) in_flight_owner by blast
  show "t1 = t2" if "owns (threads (goto t p s) t1) = Some k" "owns (threads (goto t p s) t2) = Some k" for t1 t2 k
    using that new [of t1] new [of t2] assms(1,2) by (auto split: if_splits dest: one_ownerD)
  show "iosb (slot (goto t p s)) \<noteq> k"
    if "owns (threads (goto t p s) t1) = Some k" "active (goto t p s)" for t1 k
    using that assms by (auto simp: in_flight_def split: if_splits dest: one_ownerD)
qed

lemma kbd_step_one_owner: "kbd_step s s' \<Longrightarrow> one_owner s \<Longrightarrow> one_owner s'"
proof (induction rule: kbd_step.induct)
  case (pump_take s t ch)
  then show ?case by (intro one_owner_take) simp_all
next
  case (cancel_take s t i)
  then show ?case by (intro one_owner_take) simp_all
next
  case (read_park s t r)
  then show ?case by (intro one_owner_fill) simp_all
next
  case (read_start s t r)
  then show ?case by (intro one_owner_new) simp_all
next
  case (pump_deliver s t ch r s')
  then show ?case by (intro one_owner_goto one_owner_same [of s s']) (simp_all add: deliver_keeps)
next
  case (read_deliver s t ch r s')
  then show ?case by (intro one_owner_goto one_owner_same [of s s']) (simp_all add: deliver_keeps)
next
  case (pump_read s t ch rest)
  then show ?case by (intro one_owner_goto one_owner_same [of s "s\<lparr>input := rest\<rparr>"]) simp_all
next
  case (read_fast s t r ch rest)
  then show ?case by (intro one_owner_goto one_owner_same [of s "s\<lparr>input := rest\<rparr>"]) simp_all
next
  case (key s ch)
  show ?case by (rule one_owner_same [OF key]) simp_all
next
  case (read_bad s t i)
  show ?case by (rule one_owner_same [OF read_bad(3)]) simp_all
next
  case (cancel_none s t i)
  show ?case by (rule one_owner_same [OF cancel_none(4)]) simp_all
next
  case (read_pending s t r)
  then show ?case by (intro one_owner_goto one_owner_same [of s "set_pending r s"]) simp_all
next
  case (cancel_done s t r i)
  then show ?case
    by (intro one_owner_goto one_owner_same [of s "set_status i STATUS_CANCELLED (complete_cancelled r s)"]) simp_all
qed (intro one_owner_goto; simp)+

section \<open>An undisturbed pump\<close>

lemma goto_goto [simp]: "goto t p (goto t q s) = goto t p s"
  by (simp add: goto_def)

lemma goto_update [simp]:
  "(goto t p s)\<lparr>input := v\<rparr> = goto t p (s\<lparr>input := v\<rparr>)"
  "(goto t p s)\<lparr>active := b\<rparr> = goto t p (s\<lparr>active := b\<rparr>)"
  by (simp_all add: goto_def)

lemma deliver_goto:
  "deliver_kbd_event r ch (goto t p s) = map_option (goto t p) (deliver_kbd_event r ch s)"
  by (cases "rd AsciiToScan (unat ch)")
    (auto simp: deliver_kbd_event_def goto_def signal_def split: option.splits)

lemma deliver_Some:
  assumes "unat ch < 255"
  shows "\<exists>s'. deliver_kbd_event r ch s = Some s' \<and> threads s' = threads s \<and>
    records s' (buffer r) = Some \<lparr>UnitId = unit_id r, MakeCode = AsciiToScan ! unat ch, Flags = KEY_BREAK\<rparr> \<and>
    status s' (iosb r) = STATUS_SUCCESS \<and> information s' (iosb r) = 12 \<and>
    (\<forall>e. event r = Some e \<longrightarrow> signaled s' e)"
proof -
  have "length AsciiToScan = 255" by (simp add: AsciiToScan_def)
  then show ?thesis using assms
    by (auto simp: deliver_kbd_event_def faults signal_def sizeof_KEYBOARD_INPUT_DATA_def split: option.splits)
qed

lemma goto_Idle_id: "threads s t = Idle \<Longrightarrow> goto t Idle s = s"
  by (simp add: goto_def fun_upd_idem)

lemma pump_run:
  assumes "threads s t = Idle" "active s" "input s = ch # rest"
    and "deliver_kbd_event (slot s) ch (s\<lparr>input := rest, active := False\<rparr>) = Some s'"
  shows "kbd_step\<^sup>*\<^sup>* s s'"
proof -
  let ?s = "s\<lparr>input := rest\<rparr>" and ?s' = "s\<lparr>input := rest, active := False\<rparr>"
  have 1: "kbd_step s (goto t PumpPoll s)" by (rule pump_start) (use assms in simp_all)
  have 2: "kbd_step (goto t PumpPoll s) (goto t PumpRead s)"
    using pump_polled [of "goto t PumpPoll s" t] assms by simp
  have 3: "kbd_step (goto t PumpRead s) (goto t (PumpTake ch) ?s)"
    using pump_read [of "goto t PumpRead s" t ch rest] assms by simp
  have 4: "kbd_step (goto t (PumpTake ch) ?s) (goto t (PumpDeliver ch (slot s)) ?s')"
    using pump_take [of "goto t (PumpTake ch) ?s" t ch] assms by simp
  have "deliver_kbd_event (slot s) ch (goto t (PumpDeliver ch (slot s)) ?s') =
      Some (goto t (PumpDeliver ch (slot s)) s')"
    using assms(4) by (simp add: deliver_goto)
  then have 5: "kbd_step (goto t (PumpDeliver ch (slot s)) ?s') (goto t Idle s')"
    using pump_deliver [of "goto t (PumpDeliver ch (slot s)) ?s'" t ch "slot s"] by simp
  have "goto t Idle s' = s'" using deliver_keeps(1) [OF assms(4)] assms(1) by (simp add: goto_Idle_id)
  then show ?thesis using 1 2 3 4 5 by (metis converse_rtranclp_into_rtranclp rtranclp.rtrancl_refl)
qed

section \<open>Races\<close>

definition one_read :: request where
  "one_read = \<lparr>unit_id = 0, buffer = 100, iosb = 200, event = Some 300\<rparr>"

text \<open>A read was parked, a byte came, a pump has taken the request; the reader has not yet stored its status.\<close>

definition taken :: kbd where
  "taken = goto 2 (PumpDeliver 0x20 one_read) (goto 1 (ReadPending one_read) (kbd_init\<lparr>slot := one_read\<rparr>))"

lemma kbd_init_simps [simp]:
  "threads kbd_init t = Idle" "active kbd_init = False" "input kbd_init = []"
  by (simp_all add: kbd_init_def)

lemma reach: "kbd_step\<^sup>*\<^sup>* s s' \<Longrightarrow> kbd_reachable s \<Longrightarrow> kbd_reachable s'"
  by (induction rule: rtranclp_induct) (auto intro: kbd_reachable.step)

lemma taken_reachable: "kbd_reachable taken"
proof -
  let ?p = "goto 1 (ReadPending one_read) (park one_read kbd_init)"
  have 1: "kbd_reachable (goto 1 (ReadPoll one_read) kbd_init)"
    by (rule kbd_reachable.step [OF kbd_reachable.init read_start]) (simp_all add: in_flight_def)
  have 2: "kbd_reachable (goto 1 (ReadPark one_read) kbd_init)"
    using kbd_reachable.step [OF 1 read_nothing [of _ 1 one_read]] by simp
  have 3: "kbd_reachable ?p"
    using kbd_reachable.step [OF 2 read_park [of _ 1 one_read]] by (simp add: goto_def park_def)
  have 4: "kbd_reachable (?p\<lparr>input := [0x20]\<rparr>)"
    using kbd_reachable.step [OF 3 key [of _ "0x20"]] by (simp add: park_def)
  have 5: "kbd_reachable (goto 2 PumpPoll (?p\<lparr>input := [0x20]\<rparr>))"
    using kbd_reachable.step [OF 4 pump_start [of _ 2]] by (simp add: park_def)
  have 6: "kbd_reachable (goto 2 PumpRead (?p\<lparr>input := [0x20]\<rparr>))"
    using kbd_reachable.step [OF 5 pump_polled [of _ 2]] by simp
  have 7: "kbd_reachable (goto 2 (PumpTake 0x20) ?p)"
    using kbd_reachable.step [OF 6 pump_read [of _ 2 "0x20" "[]"]]
    by (simp add: park_def goto_def kbd_init_def)
  have "kbd_reachable (goto 2 (PumpDeliver 0x20 one_read) (?p\<lparr>active := False\<rparr>))"
    using kbd_reachable.step [OF 7 pump_take [of _ 2 "0x20"]] by simp
  then show ?thesis by (simp add: taken_def park_def goto_def kbd_init_def)
qed

text \<open>
  The late store: a read that was completed with \<^verbatim>\<open>STATUS_SUCCESS\<close> and whose event is signalled ends
  with status \<^verbatim>\<open>STATUS_PENDING\<close> and no bytes, and no thread is left that would correct it.
\<close>
lemma NtReadFile_loses_completion:
  "\<exists>s. kbd_reachable s \<and> signaled s 300 \<and> records s 100 \<noteq> None \<and> \<not> in_flight s 200 \<and>
     status s 200 = STATUS_PENDING \<and> information s 200 = 0"
proof -
  obtain s where s: "deliver_kbd_event one_read 0x20 taken = Some s" "threads s = threads taken"
    "records s 100 \<noteq> None" "signaled s 300"
    using deliver_Some [of "0x20" one_read taken] by (auto simp: one_read_def)
  let ?s = "goto 1 Idle (set_pending one_read (goto 2 Idle s))"
  have "kbd_reachable (goto 2 Idle s)"
    by (rule kbd_reachable.step [OF taken_reachable pump_deliver [of _ 2 "0x20" one_read]])
      (use s in \<open>simp_all add: taken_def\<close>)
  then have "kbd_reachable ?s"
    by (rule kbd_reachable.step [OF _ read_pending [of _ 1 one_read]]) (simp add: s taken_def)
  moreover have "\<not> in_flight ?s 200"
    using s(2) deliver_keeps(2) [OF s(1)] by (simp add: in_flight_def taken_def)
  moreover have "status ?s 200 = STATUS_PENDING" "information ?s 200 = 0" "signaled ?s 300" "records ?s 100 \<noteq> None"
    using s by (simp_all add: set_pending_def one_read_def)
  ultimately show ?thesis by blast
qed

text \<open>
  The late write: \<^verbatim>\<open>NtCancelIoFile\<close> has returned, and a pump still writes the buffer of the
  read it was to cancel.
\<close>
lemma NtCancelIoFile_does_not_stop_the_pump:
  "\<exists>s s'. kbd_reachable s \<and> kbd_step s (set_status 400 STATUS_CANCELLED s) \<and>
     kbd_step (set_status 400 STATUS_CANCELLED s) s' \<and> records s 100 = None \<and> records s' 100 \<noteq> None"
proof -
  have 1: "kbd_step taken (set_status 400 STATUS_CANCELLED taken)"
    by (rule cancel_none [of _ 3]) (simp_all add: taken_def in_flight_def one_read_def)
  obtain s where s: "deliver_kbd_event one_read 0x20 (set_status 400 STATUS_CANCELLED taken) = Some s"
    "records s 100 \<noteq> None"
    using deliver_Some [of "0x20" one_read "set_status 400 STATUS_CANCELLED taken"] by (auto simp: one_read_def)
  have "kbd_step (set_status 400 STATUS_CANCELLED taken) (goto 2 Idle s)"
    by (rule pump_deliver [of _ 2 "0x20" one_read]) (use s in \<open>simp_all add: taken_def\<close>)
  moreover have "records taken 100 = None" by (simp add: taken_def goto_def kbd_init_def)
  ultimately show ?thesis using 1 s taken_reachable by fastforce
qed

text \<open>A second read that finds no byte replaces the parked one, which is then never completed.\<close>

lemma second_park_replaces_the_first:
  "input s = [] \<Longrightarrow> active s \<Longrightarrow>
     NtReadFile_stdin r 12 s = Some (STATUS_PENDING, set_pending r (s\<lparr>active := True, slot := r\<rparr>))"
  by (simp add: NtReadFile_stdin_def sizeof_KEYBOARD_INPUT_DATA_def park_def)

text \<open>The table has no entry for the last byte.\<close>

lemma AsciiToScan_overread: "deliver_kbd_event r 0xff s = None"
  by (simp add: deliver_kbd_event_def AsciiToScan_def rd_def)

section \<open>The properties\<close>

text \<open>
  C11. Whatever the interleaving of pumps, reads and cancellations: no two threads are ever
  about to complete the same read, and none is while that read is parked.
\<close>
theorem kbd_completes_once:
  assumes "kbd_reachable s"
  shows "one_owner s"
  using assms
proof (induction rule: kbd_reachable.induct)
  case init
  then show ?case by (simp add: one_owner_def kbd_init_def)
next
  case (step s s')
  then show ?case using kbd_step_one_owner by blast
qed

theorem kbd_completes_once_witness: "one_owner taken"
  by (rule kbd_completes_once [OF taken_reachable])

text \<open>
  A pump that is not disturbed completes the parked read with the next byte: the record
  with the scan code of the byte as a key release, the status, the byte count and the event.
  The sequential routine is one of the interleavings.
\<close>
theorem nl_kbd_pump_completes:
  assumes "threads s t = Idle" "active s" "input s = ch # rest" "unat ch < 255"
  shows "\<exists>s'. nl_kbd_pump s = Some s' \<and> kbd_step\<^sup>*\<^sup>* s s' \<and>
    records s' (buffer (slot s)) =
      Some \<lparr>UnitId = unit_id (slot s), MakeCode = AsciiToScan ! unat ch, Flags = KEY_BREAK\<rparr> \<and>
    status s' (iosb (slot s)) = STATUS_SUCCESS \<and> \<not> active s'"
proof -
  obtain s' where s': "deliver_kbd_event (slot s) ch (s\<lparr>input := rest, active := False\<rparr>) = Some s'"
    "records s' (buffer (slot s)) =
      Some \<lparr>UnitId = unit_id (slot s), MakeCode = AsciiToScan ! unat ch, Flags = KEY_BREAK\<rparr>"
    "status s' (iosb (slot s)) = STATUS_SUCCESS"
    using deliver_Some [OF assms(4)] by blast
  then show ?thesis using pump_run [OF assms(1-3) s'(1)] deliver_keeps(2) [OF s'(1)] assms
    by (simp add: nl_kbd_pump_def)
qed

theorem nl_kbd_pump_completes_witness:
  "\<exists>s'. nl_kbd_pump (kbd_init\<lparr>active := True, input := [0x61]\<rparr>) = Some s' \<and> \<not> active s'"
  using nl_kbd_pump_completes [of "kbd_init\<lparr>active := True, input := [0x61]\<rparr>" 1 "0x61" "[]"]
  by (auto simp: kbd_init_def)

end
