(* ===== verification/Security.thy ===== *)
theory Security
  imports Byte_Memory Nt_Status
begin

text \<open>
  Security identifiers, access control lists and security descriptors of
  \<^verbatim>\<open>libs/ntdll/sd.c\<close>, on flat memory with the layout of the structures on x86_64:

  \<^item> \<^verbatim>\<open>SID\<close>: revision 0, count 1, authority 2, sub-authorities 8; 12 bytes;
  \<^item> \<^verbatim>\<open>ACL\<close>: revision 0, size 2, count 4; 8 bytes;
  \<^item> \<^verbatim>\<open>ACE\<close>: type 0, flags 1, size 2, mask 4; 8 bytes;
  \<^item> \<^verbatim>\<open>SECURITY_DESCRIPTOR\<close>: revision 0, control 2, pointers 8, 16, 24, 32; 40 bytes; the relative
    form has offsets 4, 8, 12, 16 and 20 bytes.
\<close>

section \<open>Constants\<close>

definition SECURITY_DESCRIPTOR_REVISION1 :: u8 where "SECURITY_DESCRIPTOR_REVISION1 = 1"
definition SID_REVISION :: u8 where "SID_REVISION = 1"
definition SID_MAX_SUB_AUTHORITIES :: u8 where "SID_MAX_SUB_AUTHORITIES = 15"
definition SE_GROUP_DEFAULTED :: u16 where "SE_GROUP_DEFAULTED = 2"
definition SE_DACL_PRESENT :: u16 where "SE_DACL_PRESENT = 4"
definition SE_DACL_DEFAULTED :: u16 where "SE_DACL_DEFAULTED = 8"
definition SE_SACL_PRESENT :: u16 where "SE_SACL_PRESENT = 0x10"
definition SE_SELF_RELATIVE :: u16 where "SE_SELF_RELATIVE = 0x8000"
definition OWNER_SECURITY_INFORMATION :: u32 where "OWNER_SECURITY_INFORMATION = 1"
definition GROUP_SECURITY_INFORMATION :: u32 where "GROUP_SECURITY_INFORMATION = 2"
definition MIN_ACL_REVISION :: u32 where "MIN_ACL_REVISION = 2"
definition MAX_ACL_REVISION :: u32 where "MAX_ACL_REVISION = 4"
definition ACL_REVISION3 :: u32 where "ACL_REVISION3 = 3"
definition ACE_OBJECT_TYPE_PRESENT :: u32 where "ACE_OBJECT_TYPE_PRESENT = 1"
definition ACE_INHERITED_OBJECT_TYPE_PRESENT :: u32 where "ACE_INHERITED_OBJECT_TYPE_PRESENT = 2"
definition ACCESS_ALLOWED_ACE_TYPE :: u32 where "ACCESS_ALLOWED_ACE_TYPE = 0"
definition ACCESS_ALLOWED_COMPOUND_ACE_TYPE :: u8 where "ACCESS_ALLOWED_COMPOUND_ACE_TYPE = 4"
definition SYSTEM_AUDIT_ACE_TYPE :: u32 where "SYSTEM_AUDIT_ACE_TYPE = 2"
definition SYSTEM_AUDIT_OBJECT_ACE_TYPE :: u32 where "SYSTEM_AUDIT_OBJECT_ACE_TYPE = 7"
definition SYSTEM_AUDIT_CALLBACK_OBJECT_ACE_TYPE :: u32 where "SYSTEM_AUDIT_CALLBACK_OBJECT_ACE_TYPE = 0xf"
definition SYSTEM_MANDATORY_LABEL_ACE_TYPE :: u32 where "SYSTEM_MANDATORY_LABEL_ACE_TYPE = 0x11"
definition VALID_INHERIT_FLAGS :: u32 where "VALID_INHERIT_FLAGS = 0x1f"
definition SUCCESSFUL_ACCESS_ACE_FLAG :: u32 where "SUCCESSFUL_ACCESS_ACE_FLAG = 0x40"
definition FAILED_ACCESS_ACE_FLAG :: u32 where "FAILED_ACCESS_ACE_FLAG = 0x80"
definition SECURITY_MANDATORY_LABEL_AUTHORITY :: "u8 list" where
  "SECURITY_MANDATORY_LABEL_AUTHORITY = [0, 0, 0, 0, 0, 16]"

lemmas sd_consts = SECURITY_DESCRIPTOR_REVISION1_def SID_REVISION_def SID_MAX_SUB_AUTHORITIES_def
  SE_GROUP_DEFAULTED_def SE_DACL_PRESENT_def SE_DACL_DEFAULTED_def SE_SACL_PRESENT_def SE_SELF_RELATIVE_def
  MIN_ACL_REVISION_def MAX_ACL_REVISION_def ACL_REVISION3_def ACCESS_ALLOWED_ACE_TYPE_def
  ACCESS_ALLOWED_COMPOUND_ACE_TYPE_def SYSTEM_AUDIT_ACE_TYPE_def SYSTEM_AUDIT_OBJECT_ACE_TYPE_def
  SYSTEM_AUDIT_CALLBACK_OBJECT_ACE_TYPE_def SYSTEM_MANDATORY_LABEL_ACE_TYPE_def VALID_INHERIT_FLAGS_def
  OWNER_SECURITY_INFORMATION_def GROUP_SECURITY_INFORMATION_def

definition ROUND_UP :: "u32 \<Rightarrow> u32 \<Rightarrow> u32" where
  "ROUND_UP n align = (n + align - 1) AND NOT (align - 1)"

section \<open>Security identifiers\<close>

definition RtlValidSid :: "mem \<Rightarrow> nat \<Rightarrow> bool option" where
  "RtlValidSid m Sid =
     (if Sid = 0 then Some False
      else do {
        r \<leftarrow> ld8 m Sid;
        if r AND 0xf = SID_REVISION then do { c \<leftarrow> ld8 m (Sid + 1); Some (c \<le> SID_MAX_SUB_AUTHORITIES) }
        else Some False
      })"

definition RtlLengthSid :: "mem \<Rightarrow> nat \<Rightarrow> u32 option" where
  "RtlLengthSid m Sid = do { c \<leftarrow> ld8 m (Sid + 1); Some (8 + 4 * ucast c) }"

definition RtlLengthRequiredSid :: "u32 \<Rightarrow> u32" where
  "RtlLengthRequiredSid SubAuthorityCount = 8 + 4 * SubAuthorityCount"

definition RtlInitializeSid :: "mem \<Rightarrow> nat \<Rightarrow> nat \<Rightarrow> u8 \<Rightarrow> (NTSTATUS \<times> mem) option" where
  "RtlInitializeSid m Sid IdentifierAuthority SubAuthorityCount = do {
     m \<leftarrow> st8 m Sid SID_REVISION;
     m \<leftarrow> st8 m (Sid + 1) SubAuthorityCount;
     m \<leftarrow> memmove m (Sid + 2) IdentifierAuthority 6;
     Some (STATUS_SUCCESS, m)
   }"

definition RtlCopySid :: "mem \<Rightarrow> u32 \<Rightarrow> nat \<Rightarrow> nat \<Rightarrow> (NTSTATUS \<times> mem) option" where
  "RtlCopySid m BufferLength Dest Src = do {
     SidLength \<leftarrow> RtlLengthSid m Src;
     if SidLength > BufferLength then Some (STATUS_BUFFER_TOO_SMALL, m)
     else do { m \<leftarrow> memmove m Dest Src (unat SidLength); Some (STATUS_SUCCESS, m) }
   }"

definition RtlSubAuthoritySid :: "nat \<Rightarrow> u32 \<Rightarrow> nat" where
  "RtlSubAuthoritySid Sid SubAuthority = Sid + 8 + 4 * unat SubAuthority"

section \<open>Access control lists\<close>

text \<open>The walk over \<open>n + 1\<close> entries from \<open>Current\<close>; \<open>None\<close> inside is the return of \<^verbatim>\<open>FALSE\<close>.\<close>

fun walk_aces :: "nat \<Rightarrow> mem \<Rightarrow> u8 \<Rightarrow> nat \<Rightarrow> nat \<Rightarrow> nat option option" where
  "walk_aces 0 m AclRevision AclEnd Current = Some (Some Current)"
| "walk_aces (Suc n) m AclRevision AclEnd Current =
     (if Current \<ge> AclEnd then Some None
      else do {
        t \<leftarrow> ld8 m Current;
        if t = ACCESS_ALLOWED_COMPOUND_ACE_TYPE \<and> ucast AclRevision < ACL_REVISION3 then Some None
        else do { size \<leftarrow> ld16 m (Current + 2); walk_aces n m AclRevision AclEnd (Current + unat size) }
      })"

text \<open>The result: the return value and \<^verbatim>\<open>*Ace\<close>.\<close>

definition RtlFirstFreeAce :: "mem \<Rightarrow> nat \<Rightarrow> (bool \<times> nat) option" where
  "RtlFirstFreeAce m Acl = do {
     AceCount \<leftarrow> ld16 m (Acl + 4);
     if AceCount = 0 then Some (True, Acl + 8)
     else do {
       AclSize \<leftarrow> ld16 m (Acl + 2);
       AclRevision \<leftarrow> ld8 m Acl;
       let AclEnd = Acl + unat AclSize;
       r \<leftarrow> walk_aces (unat AceCount) m AclRevision AclEnd (Acl + 8);
       Some (case r of None \<Rightarrow> (False, 0) | Some Current \<Rightarrow> (True, if Current < AclEnd then Current else 0))
     }
   }"

definition RtlpAddData :: "mem \<Rightarrow> nat \<Rightarrow> u32 \<Rightarrow> nat \<Rightarrow> u32 \<Rightarrow> mem option" where
  "RtlpAddData m AceList AceListLength Ace Offset = do {
     m \<leftarrow> (if Offset > 0 then memcpy m (Ace + unat AceListLength) Ace (unat Offset) else Some m);
     if AceListLength \<noteq> 0 then memcpy m Ace AceList (unat AceListLength) else Some m
   }"

text \<open>The flags that are not valid for the type.\<close>

definition ace_invalid_flags :: "u32 \<Rightarrow> u32 \<Rightarrow> u32" where
  "ace_invalid_flags Type Flags =
     (if Type = SYSTEM_AUDIT_ACE_TYPE \<or> Type = SYSTEM_AUDIT_OBJECT_ACE_TYPE \<or>
         Type = SYSTEM_AUDIT_CALLBACK_OBJECT_ACE_TYPE
      then Flags AND NOT (VALID_INHERIT_FLAGS OR SUCCESSFUL_ACCESS_ACE_FLAG OR FAILED_ACCESS_ACE_FLAG)
      else Flags AND NOT VALID_INHERIT_FLAGS)"

text \<open>Filling in a new entry at \<open>Ace\<close>; the GUID pointers may be null.\<close>

definition write_ace :: "mem \<Rightarrow> nat \<Rightarrow> u32 \<Rightarrow> u32 \<Rightarrow> u32 \<Rightarrow> u32 \<Rightarrow> u32 \<Rightarrow> nat \<Rightarrow> nat \<Rightarrow> nat \<Rightarrow> mem option" where
  "write_ace m Ace Flags Type AceSize AccessMask AceObjectFlags ObjectTypeGuid InheritedObjectTypeGuid Sid = do {
     m \<leftarrow> st8 m (Ace + 1) (ucast Flags);
     m \<leftarrow> st8 m Ace (ucast Type);
     m \<leftarrow> st16 m (Ace + 2) (ucast AceSize);
     m \<leftarrow> st32 m (Ace + 4) AccessMask;
     m \<leftarrow> (if AceObjectFlags \<noteq> 0 then st32 m (Ace + 8) AceObjectFlags else Some m);
     let SidStart = (if AceObjectFlags \<noteq> 0 then Ace + 12 else Ace + 8);
     m \<leftarrow> (if ObjectTypeGuid \<noteq> 0 then memcpy m SidStart ObjectTypeGuid 16 else Some m);
     let SidStart = (if ObjectTypeGuid \<noteq> 0 then SidStart + 16 else SidStart);
     m \<leftarrow> (if InheritedObjectTypeGuid \<noteq> 0 then memcpy m SidStart InheritedObjectTypeGuid 16 else Some m);
     let SidStart = (if InheritedObjectTypeGuid \<noteq> 0 then SidStart + 16 else SidStart);
     len \<leftarrow> RtlLengthSid m Sid;
     (_, m) \<leftarrow> RtlCopySid m len SidStart Sid;
     Some m
   }"

text \<open>
  \<^verbatim>\<open>memcmp\<close> is an argument: the standard fixes only the sign of its result, and the code
  compares the result with a length.
\<close>

definition RtlpAddKnownAce ::
  "(u8 list \<Rightarrow> u8 list \<Rightarrow> int) \<Rightarrow> mem \<Rightarrow> nat \<Rightarrow> u32 \<Rightarrow> u32 \<Rightarrow> u32 \<Rightarrow> nat \<Rightarrow> nat \<Rightarrow> nat \<Rightarrow> u32 \<Rightarrow>
     (NTSTATUS \<times> mem) option" where
  "RtlpAddKnownAce memcmp m Acl Revision Flags AccessMask ObjectTypeGuid InheritedObjectTypeGuid Sid Type = do {
     valid \<leftarrow> RtlValidSid m Sid;
     if \<not> valid then Some (STATUS_INVALID_SID, m)
     else do {
       auth \<leftarrow> (if Type = SYSTEM_MANDATORY_LABEL_ACE_TYPE then bytes_at m (Sid + 2) 6 else Some []);
       if Type = SYSTEM_MANDATORY_LABEL_ACE_TYPE \<and> memcmp auth SECURITY_MANDATORY_LABEL_AUTHORITY \<noteq> 6
       then Some (STATUS_INVALID_PARAMETER, m)
       else do {
         AclRevision \<leftarrow> ld8 m Acl;
         if ucast AclRevision > MAX_ACL_REVISION \<or> Revision > MAX_ACL_REVISION
         then Some (STATUS_UNKNOWN_REVISION, m)
         else do {
           let Revision = (if Revision < ucast AclRevision then ucast AclRevision else Revision);
           if ace_invalid_flags Type Flags \<noteq> 0 then Some (STATUS_INVALID_PARAMETER, m)
           else do {
             (ok, Ace) \<leftarrow> RtlFirstFreeAce m Acl;
             if \<not> ok then Some (STATUS_INVALID_ACL, m)
             else if Ace = 0 then Some (STATUS_ALLOTTED_SPACE_EXCEEDED, m)
             else do {
               len \<leftarrow> RtlLengthSid m Sid;
               let AceObjectFlags = (if ObjectTypeGuid \<noteq> 0 then ACE_OBJECT_TYPE_PRESENT else 0) OR
                 (if InheritedObjectTypeGuid \<noteq> 0 then ACE_INHERITED_OBJECT_TYPE_PRESENT else 0);
               let AceSize = len + 8 + (if ObjectTypeGuid \<noteq> 0 then 16 else 0) +
                 (if InheritedObjectTypeGuid \<noteq> 0 then 16 else 0) + (if AceObjectFlags \<noteq> 0 then 4 else 0);
               AclSize \<leftarrow> ld16 m (Acl + 2);
               if Ace + unat AceSize > Acl + unat AclSize then Some (STATUS_ALLOTTED_SPACE_EXCEEDED, m)
               else do {
                 m \<leftarrow> write_ace m Ace Flags Type AceSize AccessMask AceObjectFlags
                   ObjectTypeGuid InheritedObjectTypeGuid Sid;
                 AceCount \<leftarrow> ld16 m (Acl + 4);
                 m \<leftarrow> st16 m (Acl + 4) (AceCount + 1);
                 m \<leftarrow> st8 m Acl (ucast Revision);
                 Some (STATUS_SUCCESS, m)
               }
             }
           }
         }
       }
     }
   }"

definition RtlAddAccessAllowedAce ::
  "(u8 list \<Rightarrow> u8 list \<Rightarrow> int) \<Rightarrow> mem \<Rightarrow> nat \<Rightarrow> u32 \<Rightarrow> u32 \<Rightarrow> nat \<Rightarrow> (NTSTATUS \<times> mem) option" where
  "RtlAddAccessAllowedAce memcmp m Acl Revision AccessMask Sid =
     RtlpAddKnownAce memcmp m Acl Revision 0 AccessMask 0 0 Sid ACCESS_ALLOWED_ACE_TYPE"

text \<open>
  Counting the entries of a list that ends at \<open>ListEnd\<close>; an entry of size 0 makes the loop of
  the code run forever.  The type that is tested is that of the first entry each time.
\<close>

partial_function (option) count_aces :: "mem \<Rightarrow> u32 \<Rightarrow> nat \<Rightarrow> nat \<Rightarrow> nat \<Rightarrow> u32 \<Rightarrow> u32 option option" where
  "count_aces m AclRevision AceList ListEnd Current NewAceCount =
     (if Current < ListEnd then do {
        t \<leftarrow> ld8 m AceList;
        if t = ACCESS_ALLOWED_COMPOUND_ACE_TYPE \<and> AclRevision < ACL_REVISION3 then Some None
        else do {
          size \<leftarrow> ld16 m (Current + 2);
          count_aces m AclRevision AceList ListEnd (Current + unat size) (NewAceCount + 1)
        }
      } else Some (Some NewAceCount))"

fun skip_aces :: "nat \<Rightarrow> mem \<Rightarrow> nat \<Rightarrow> nat option" where
  "skip_aces 0 m Current = Some Current"
| "skip_aces (Suc n) m Current = do { size \<leftarrow> ld16 m (Current + 2); skip_aces n m (Current + unat size) }"

definition RtlAddAce :: "mem \<Rightarrow> nat \<Rightarrow> u32 \<Rightarrow> u32 \<Rightarrow> nat \<Rightarrow> u32 \<Rightarrow> (NTSTATUS \<times> mem) option" where
  "RtlAddAce m Acl AclRev StartingIndex AceList AceListLength = do {
     rev \<leftarrow> ld8 m Acl;
     if ucast rev < MIN_ACL_REVISION \<or> ucast rev > MAX_ACL_REVISION then Some (STATUS_INVALID_PARAMETER, m)
     else do {
       (ok, Ace) \<leftarrow> RtlFirstFreeAce m Acl;
       if \<not> ok then Some (STATUS_INVALID_PARAMETER, m)
       else do {
         let AclRev = (if ucast rev \<le> AclRev then ucast rev else AclRev);
         if AceListLength = 0 then Some (STATUS_INVALID_PARAMETER, m)
         else do {
           r \<leftarrow> count_aces m AclRev AceList (AceList + unat AceListLength) AceList 0;
           case r of None \<Rightarrow> Some (STATUS_INVALID_PARAMETER, m) | Some NewAceCount \<Rightarrow> do {
             AclSize \<leftarrow> ld16 m (Acl + 2);
             if Ace = 0 \<or> Ace + unat AceListLength > Acl + unat AclSize then Some (STATUS_BUFFER_TOO_SMALL, m)
             else do {
               AceCount \<leftarrow> ld16 m (Acl + 4);
               Current \<leftarrow> skip_aces (min (unat StartingIndex) (unat AceCount)) m (Acl + 8);
               m \<leftarrow> RtlpAddData m AceList AceListLength Current (of_nat (Ace - Current));
               AceCount \<leftarrow> ld16 m (Acl + 4);
               m \<leftarrow> st16 m (Acl + 4) (AceCount + ucast NewAceCount);
               m \<leftarrow> st8 m Acl (ucast AclRev);
               Some (STATUS_SUCCESS, m)
             }
           }
         }
       }
     }
   }"

definition RtlValidAcl :: "mem \<Rightarrow> nat \<Rightarrow> bool option" where
  "RtlValidAcl m Acl = do {
     AclSize \<leftarrow> ld16 m (Acl + 2);
     rev \<leftarrow> ld8 m Acl;
     let Size = (ucast (ROUND_UP (ucast AclSize) 4) :: u16);
     if ucast rev < MIN_ACL_REVISION \<or> ucast rev > MAX_ACL_REVISION then Some False
     else if Size \<noteq> AclSize then Some False
     else map_option fst (RtlFirstFreeAce m Acl)
   }"

definition RtlCreateAcl :: "mem \<Rightarrow> nat \<Rightarrow> u32 \<Rightarrow> u32 \<Rightarrow> (NTSTATUS \<times> mem) option" where
  "RtlCreateAcl m Acl AclSize AclRevision =
     (if AclSize < 8 then Some (STATUS_BUFFER_TOO_SMALL, m)
      else if AclRevision < MIN_ACL_REVISION \<or> AclRevision > MAX_ACL_REVISION \<or> AclSize > 0xffff
      then Some (STATUS_INVALID_PARAMETER, m)
      else do {
        let AclSize = ROUND_UP AclSize 4;
        m \<leftarrow> st16 m (Acl + 2) (ucast AclSize);
        m \<leftarrow> st8 m Acl (ucast AclRevision);
        m \<leftarrow> st16 m (Acl + 4) 0;
        m \<leftarrow> st8 m (Acl + 1) 0;
        m \<leftarrow> st16 m (Acl + 6) 0;
        Some (STATUS_SUCCESS, m)
      })"

datatype ACL_INFORMATION_CLASS = AclRevisionInformation | AclSizeInformation
  | AclOtherInformation \<comment> \<open>every other value\<close>

definition RtlQueryInformationAcl ::
  "mem \<Rightarrow> nat \<Rightarrow> nat \<Rightarrow> u32 \<Rightarrow> ACL_INFORMATION_CLASS \<Rightarrow> (NTSTATUS \<times> mem) option" where
  "RtlQueryInformationAcl m Acl Information InformationLength InformationClass = do {
     rev \<leftarrow> ld8 m Acl;
     if ucast rev < MIN_ACL_REVISION \<or> ucast rev > MAX_ACL_REVISION then Some (STATUS_INVALID_PARAMETER, m)
     else case InformationClass of
       AclRevisionInformation \<Rightarrow>
         if InformationLength < 4 then Some (STATUS_BUFFER_TOO_SMALL, m)
         else do { m \<leftarrow> st32 m Information (ucast rev); Some (STATUS_SUCCESS, m) }
     | AclSizeInformation \<Rightarrow>
         if InformationLength < 12 then Some (STATUS_BUFFER_TOO_SMALL, m)
         else do {
           (ok, Ace) \<leftarrow> RtlFirstFreeAce m Acl;
           if \<not> ok then Some (STATUS_INVALID_PARAMETER, m)
           else do {
             AceCount \<leftarrow> ld16 m (Acl + 4);
             AclSize \<leftarrow> ld16 m (Acl + 2);
             let InUse = (if Ace \<noteq> 0 then of_nat (Ace - Acl) else ucast AclSize);
             m \<leftarrow> st32 m Information (ucast AceCount);
             m \<leftarrow> st32 m (Information + 4) InUse;
             m \<leftarrow> st32 m (Information + 8) (if Ace \<noteq> 0 then ucast AclSize - InUse else 0);
             Some (STATUS_SUCCESS, m)
           }
         }
     | AclOtherInformation \<Rightarrow> Some (STATUS_INVALID_INFO_CLASS, m)
   }"

end
