(* ===== verification/Security_Descriptor.thy ===== *)
theory Security_Descriptor
  imports Security
begin

text \<open>
  Security descriptors of \<^verbatim>\<open>libs/ntdll/sd.c\<close>, absolute and self-relative, on the flat memory of
  \<^verbatim>\<open>Security\<close>.
\<close>

section \<open>The code\<close>

text \<open>The result: the return value and \<^verbatim>\<open>*MaxLength\<close>.\<close>

definition RtlpValidateSDOffsetAndSize :: "u32 \<Rightarrow> u32 \<Rightarrow> u32 \<Rightarrow> bool \<times> u32" where
  "RtlpValidateSDOffsetAndSize Offset Length MinLength =
     (if Offset < 20 then (False, 0)
      else if Offset \<ge> Length then (False, 0)
      else if Length - Offset < MinLength then (False, 0)
      else if Offset AND NOT 3 \<noteq> Offset then (False, 0)
      else (True, Length - Offset))"

text \<open>One of the two identifiers: absent, or inside the descriptor and valid.\<close>

definition valid_relative_sid :: "mem \<Rightarrow> nat \<Rightarrow> u32 \<Rightarrow> u32 \<Rightarrow> bool \<Rightarrow> bool option" where
  "valid_relative_sid m pSD SecurityDescriptorLength Offset required =
     (if Offset \<noteq> 0 then do {
        let (ok, Length) = RtlpValidateSDOffsetAndSize Offset SecurityDescriptorLength 12;
        if \<not> ok then Some False
        else do {
          let Sid = unat Offset + pSD;
          valid \<leftarrow> RtlValidSid m Sid;
          if \<not> valid then Some False
          else do { len \<leftarrow> RtlLengthSid m Sid; Some (\<not> Length < len) }
        }
      } else Some (\<not> required))"

text \<open>One of the two lists, when the control flag says that it is there.\<close>

definition valid_relative_acl :: "mem \<Rightarrow> nat \<Rightarrow> u32 \<Rightarrow> u32 \<Rightarrow> bool option" where
  "valid_relative_acl m pSD SecurityDescriptorLength Offset = do {
     let (ok, Length) = RtlpValidateSDOffsetAndSize Offset SecurityDescriptorLength 8;
     if \<not> ok then Some False
     else do {
       let Acl = unat Offset + pSD;
       valid \<leftarrow> RtlValidAcl m Acl;
       if \<not> valid then Some False
       else do { AclSize \<leftarrow> ld16 m (Acl + 2); Some (\<not> Length < ucast AclSize) }
     }
   }"

definition RtlValidRelativeSecurityDescriptor :: "mem \<Rightarrow> nat \<Rightarrow> u32 \<Rightarrow> u32 \<Rightarrow> bool option" where
  "RtlValidRelativeSecurityDescriptor m pSD SecurityDescriptorLength RequiredInformation =
     (if SecurityDescriptorLength < 20 then Some False
      else do {
        rev \<leftarrow> ld8 m pSD;
        control \<leftarrow> ld16 m (pSD + 2);
        if rev \<noteq> SECURITY_DESCRIPTOR_REVISION1 \<or> control AND SE_SELF_RELATIVE = 0 then Some False
        else do {
          owner \<leftarrow> ld32 m (pSD + 4);
          ok \<leftarrow> valid_relative_sid m pSD SecurityDescriptorLength owner
            (RequiredInformation AND OWNER_SECURITY_INFORMATION \<noteq> 0);
          if \<not> ok then Some False
          else do {
            group \<leftarrow> ld32 m (pSD + 8);
            ok \<leftarrow> valid_relative_sid m pSD SecurityDescriptorLength group
              (RequiredInformation AND GROUP_SECURITY_INFORMATION \<noteq> 0);
            if \<not> ok then Some False
            else do {
              dacl \<leftarrow> ld32 m (pSD + 16);
              ok \<leftarrow> (if control AND SE_DACL_PRESENT \<noteq> 0
                     then valid_relative_acl m pSD SecurityDescriptorLength dacl else Some True);
              if \<not> ok then Some False
              else do {
                sacl \<leftarrow> ld32 m (pSD + 12);
                if control AND SE_SACL_PRESENT \<noteq> 0
                then valid_relative_acl m pSD SecurityDescriptorLength sacl else Some True
              }
            }
          }
        }
      })"

text \<open>The four pointers of either form, null where there is none.\<close>

record sd_pointers =
  sd_owner :: nat
  sd_group :: nat
  sd_sacl :: nat
  sd_dacl :: nat

definition RtlpQuerySecurityDescriptorPointers :: "mem \<Rightarrow> nat \<Rightarrow> sd_pointers option" where
  "RtlpQuerySecurityDescriptorPointers m SD = do {
     control \<leftarrow> ld16 m (SD + 2);
     if control AND SE_SELF_RELATIVE \<noteq> 0 then do {
       owner \<leftarrow> ld32 m (SD + 4);
       group \<leftarrow> ld32 m (SD + 8);
       sacl \<leftarrow> (if control AND SE_SACL_PRESENT \<noteq> 0 then ld32 m (SD + 12) else Some 0);
       dacl \<leftarrow> (if control AND SE_DACL_PRESENT \<noteq> 0 then ld32 m (SD + 16) else Some 0);
       let at = (\<lambda>offset. if offset \<noteq> 0 then SD + unat (offset :: u32) else 0);
       Some \<lparr>sd_owner = at owner, sd_group = at group, sd_sacl = at sacl, sd_dacl = at dacl\<rparr>
     }
     else do {
       owner \<leftarrow> ld64 m (SD + 8);
       group \<leftarrow> ld64 m (SD + 16);
       sacl \<leftarrow> (if control AND SE_SACL_PRESENT \<noteq> 0 then ld64 m (SD + 24) else Some 0);
       dacl \<leftarrow> (if control AND SE_DACL_PRESENT \<noteq> 0 then ld64 m (SD + 32) else Some 0);
       Some \<lparr>sd_owner = unat owner, sd_group = unat group, sd_sacl = unat sacl, sd_dacl = unat dacl\<rparr>
     }
   }"

definition sid_room :: "mem \<Rightarrow> nat \<Rightarrow> u32 option" where
  "sid_room m Sid = (if Sid \<noteq> 0 then map_option (\<lambda>n. ROUND_UP n 4) (RtlLengthSid m Sid) else Some 0)"

definition acl_room :: "mem \<Rightarrow> nat \<Rightarrow> u32 option" where
  "acl_room m Acl = (if Acl \<noteq> 0 then map_option (\<lambda>n. ROUND_UP (ucast n) 4) (ld16 m (Acl + 2)) else Some 0)"

definition RtlLengthSecurityDescriptor :: "mem \<Rightarrow> nat \<Rightarrow> u32 option" where
  "RtlLengthSecurityDescriptor m SD = do {
     p \<leftarrow> RtlpQuerySecurityDescriptorPointers m SD;
     a \<leftarrow> sid_room m (sd_owner p);
     b \<leftarrow> sid_room m (sd_group p);
     c \<leftarrow> acl_room m (sd_dacl p);
     d \<leftarrow> acl_room m (sd_sacl p);
     Some (40 + a + b + c + d)
   }"

definition valid_or_null :: "(mem \<Rightarrow> nat \<Rightarrow> bool option) \<Rightarrow> mem \<Rightarrow> nat \<Rightarrow> bool option" where
  "valid_or_null valid m p = (if p = 0 then Some True else valid m p)"

definition RtlValidSecurityDescriptor :: "mem \<Rightarrow> nat \<Rightarrow> bool option" where
  "RtlValidSecurityDescriptor m pSD = do {
     rev \<leftarrow> ld8 m pSD;
     if rev \<noteq> SECURITY_DESCRIPTOR_REVISION1 then Some False
     else do {
       p \<leftarrow> RtlpQuerySecurityDescriptorPointers m pSD;
       a \<leftarrow> valid_or_null RtlValidSid m (sd_owner p);
       if \<not> a then Some False else do {
         b \<leftarrow> valid_or_null RtlValidSid m (sd_group p);
         if \<not> b then Some False else do {
           c \<leftarrow> valid_or_null RtlValidAcl m (sd_sacl p);
           if \<not> c then Some False else valid_or_null RtlValidAcl m (sd_dacl p)
         }
       }
     }
   }"

definition RtlCreateSecurityDescriptor :: "mem \<Rightarrow> nat \<Rightarrow> u32 \<Rightarrow> (NTSTATUS \<times> mem) option" where
  "RtlCreateSecurityDescriptor m pSD Revision =
     (if Revision \<noteq> ucast SECURITY_DESCRIPTOR_REVISION1 then Some (STATUS_UNKNOWN_REVISION, m)
      else do {
        m \<leftarrow> st8 m pSD (ucast Revision);
        m \<leftarrow> st8 m (pSD + 1) 0;
        m \<leftarrow> st16 m (pSD + 2) 0;
        m \<leftarrow> st64 m (pSD + 8) 0;
        m \<leftarrow> st64 m (pSD + 16) 0;
        m \<leftarrow> st64 m (pSD + 24) 0;
        m \<leftarrow> st64 m (pSD + 32) 0;
        Some (STATUS_SUCCESS, m)
      })"

definition RtlSetGroupSecurityDescriptor :: "mem \<Rightarrow> nat \<Rightarrow> u64 \<Rightarrow> bool \<Rightarrow> (NTSTATUS \<times> mem) option" where
  "RtlSetGroupSecurityDescriptor m pSD Group GroupDefaulted = do {
     rev \<leftarrow> ld8 m pSD;
     if rev \<noteq> SECURITY_DESCRIPTOR_REVISION1 then Some (STATUS_UNKNOWN_REVISION, m)
     else do {
       control \<leftarrow> ld16 m (pSD + 2);
       if control AND SE_SELF_RELATIVE \<noteq> 0 then Some (STATUS_BAD_DESCRIPTOR_FORMAT, m)
       else do {
         m \<leftarrow> st64 m (pSD + 16) Group;
         control \<leftarrow> ld16 m (pSD + 2);
         let control = control AND NOT SE_GROUP_DEFAULTED;
         m \<leftarrow> st16 m (pSD + 2) (if GroupDefaulted then control OR SE_GROUP_DEFAULTED else control);
         Some (STATUS_SUCCESS, m)
       }
     }
   }"

definition RtlSetDaclSecurityDescriptor :: "mem \<Rightarrow> nat \<Rightarrow> bool \<Rightarrow> u64 \<Rightarrow> bool \<Rightarrow> (NTSTATUS \<times> mem) option" where
  "RtlSetDaclSecurityDescriptor m pSD DaclPresent Dacl DaclDefaulted = do {
     rev \<leftarrow> ld8 m pSD;
     if rev \<noteq> SECURITY_DESCRIPTOR_REVISION1 then Some (STATUS_UNKNOWN_REVISION, m)
     else do {
       control \<leftarrow> ld16 m (pSD + 2);
       if control AND SE_SELF_RELATIVE \<noteq> 0 then Some (STATUS_BAD_DESCRIPTOR_FORMAT, m)
       else if \<not> DaclPresent then do {
         m \<leftarrow> st16 m (pSD + 2) (control AND NOT SE_DACL_PRESENT);
         Some (STATUS_SUCCESS, m)
       }
       else do {
         m \<leftarrow> st64 m (pSD + 32) Dacl;
         control \<leftarrow> ld16 m (pSD + 2);
         let control = (control OR SE_DACL_PRESENT) AND NOT SE_DACL_DEFAULTED;
         m \<leftarrow> st16 m (pSD + 2) (if DaclDefaulted then control OR SE_DACL_DEFAULTED else control);
         Some (STATUS_SUCCESS, m)
       }
     }
   }"

definition RtlNewSecurityObject :: NTSTATUS where "RtlNewSecurityObject = STATUS_NOT_IMPLEMENTED"

section \<open>Accepted descriptors stay inside their length\<close>

text \<open>The identifier or list at an offset lies inside the descriptor.\<close>

definition sid_inside :: "mem \<Rightarrow> nat \<Rightarrow> u32 \<Rightarrow> u32 \<Rightarrow> bool" where
  "sid_inside m pSD Length Offset \<longleftrightarrow>
     (\<exists>len. RtlLengthSid m (unat Offset + pSD) = Some len \<and> 20 \<le> unat Offset \<and>
       unat Offset + unat len \<le> unat Length)"

definition acl_inside :: "mem \<Rightarrow> nat \<Rightarrow> u32 \<Rightarrow> u32 \<Rightarrow> bool" where
  "acl_inside m pSD Length Offset \<longleftrightarrow>
     (\<exists>size. ld16 m (unat Offset + pSD + 2) = Some size \<and> 20 \<le> unat Offset \<and>
       unat Offset + unat size \<le> unat Length)"

lemma offset_inside:
  assumes "RtlpValidateSDOffsetAndSize Offset Length MinLength = (True, MaxLength)"
  shows "20 \<le> unat Offset" "unat Offset + unat MaxLength = unat Length" "unat MinLength \<le> unat MaxLength"
    "unat Offset mod 4 = 0"
proof -
  have o: "\<not> Offset < 20" "\<not> Offset \<ge> Length" "\<not> Length - Offset < MinLength" "Offset AND NOT 3 = Offset"
    "MaxLength = Length - Offset"
    using assms by (auto simp: RtlpValidateSDOffsetAndSize_def split: if_splits)
  show "20 \<le> unat Offset" using o(1) by (simp add: word_less_nat_alt)
  have "unat MaxLength = unat Length - unat Offset" using o(2,5) by (simp add: unat_sub)
  then show "unat Offset + unat MaxLength = unat Length" using o(2) by (simp add: word_le_nat_alt)
  show "unat MinLength \<le> unat MaxLength" using o(3,5) by (simp add: word_less_nat_alt)
  have "Offset AND 3 = (Offset AND NOT 3) AND 3" using o(4) by simp
  also have "\<dots> = 0" by (simp add: and.assoc)
  finally have "take_bit 2 Offset = 0" by (simp add: take_bit_eq_mask mask_eq_exp_minus_1)
  then have "take_bit 2 (unat Offset) = 0" by (metis unsigned_take_bit_eq unsigned_0)
  then show "unat Offset mod 4 = 0" by (simp add: take_bit_eq_mod)
qed

lemma valid_relative_sid_inside:
  assumes "valid_relative_sid m pSD Length Offset required = Some True" "Offset \<noteq> 0"
  shows "sid_inside m pSD Length Offset"
proof -
  obtain MaxLength len where "RtlpValidateSDOffsetAndSize Offset Length 12 = (True, MaxLength)"
    "RtlLengthSid m (unat Offset + pSD) = Some len" "\<not> MaxLength < len"
    using assms by (auto simp: valid_relative_sid_def bind_eq_Some_conv Let_def split: prod.splits if_splits)
  with offset_inside [OF this(1)] show ?thesis
    by (auto simp: sid_inside_def word_less_nat_alt)
qed

lemma unat_ucast_16: "unat (ucast (w :: u16) :: u32) = unat w"
proof -
  have "unat w < 2 ^ 16" using unsigned_less [of w] by simp
  then show ?thesis by (simp add: unsigned_ucast_eq take_bit_nat_eq_self)
qed

lemma valid_relative_acl_inside:
  assumes "valid_relative_acl m pSD Length Offset = Some True"
  shows "acl_inside m pSD Length Offset"
proof -
  obtain MaxLength size where "RtlpValidateSDOffsetAndSize Offset Length 8 = (True, MaxLength)"
    "ld16 m (unat Offset + pSD + 2) = Some size" "\<not> MaxLength < ucast size"
    using assms by (auto simp: valid_relative_acl_def bind_eq_Some_conv Let_def split: prod.splits if_splits)
  with offset_inside [OF this(1)] show ?thesis
    by (auto simp: acl_inside_def word_less_nat_alt unat_ucast_16)
qed

lemma required_bits:
  fixes info info' :: u32
  assumes "info' AND 3 = info AND 3"
  shows "info' AND 1 = info AND 1" "info' AND 2 = info AND 2"
proof -
  have "x AND 1 = (x AND 3) AND 1" "x AND 2 = (x AND 3) AND 2" for x :: u32 by (simp_all add: and.assoc)
  with assms show "info' AND 1 = info AND 1" "info' AND 2 = info AND 2" by metis+
qed

text \<open>
  C22. A self-relative descriptor that \<^verbatim>\<open>RtlValidRelativeSecurityDescriptor\<close> accepts keeps its
  parts inside the length it was given: the owner, the group and the lists that its control word says are
  present start behind the header and end before the length.  It has an owner and a group where they were required; of
  the required information nothing else counts, a list that was required may be missing.
\<close>
theorem accepted_descriptor_is_contained:
  assumes "RtlValidRelativeSecurityDescriptor m pSD len info = Some True"
    and "ld16 m (pSD + 2) = Some control" "ld32 m (pSD + 4) = Some owner" "ld32 m (pSD + 8) = Some grp"
    and "ld32 m (pSD + 12) = Some sacl" "ld32 m (pSD + 16) = Some dacl"
  shows "(if owner = 0 then info AND 1 = 0 else sid_inside m pSD len owner) \<and>
    (if grp = 0 then info AND 2 = 0 else sid_inside m pSD len grp) \<and>
    (control AND 4 = 0 \<or> acl_inside m pSD len dacl) \<and> (control AND 0x10 = 0 \<or> acl_inside m pSD len sacl) \<and>
    (\<forall>info'. info' AND 3 = info AND 3 \<longrightarrow> RtlValidRelativeSecurityDescriptor m pSD len info' = Some True)"
proof -
  have "valid_relative_sid m pSD len owner (info AND 1 \<noteq> 0) = Some True"
    "valid_relative_sid m pSD len grp (info AND 2 \<noteq> 0) = Some True"
    "control AND 4 \<noteq> 0 \<Longrightarrow> valid_relative_acl m pSD len dacl = Some True"
    "control AND 0x10 \<noteq> 0 \<Longrightarrow> valid_relative_acl m pSD len sacl = Some True"
    using assms by (auto simp: RtlValidRelativeSecurityDescriptor_def bind_eq_Some_conv sd_consts split: if_splits)
  note parts = this
  have "if owner = 0 then info AND 1 = 0 else sid_inside m pSD len owner"
    using parts(1) valid_relative_sid_inside by (cases "owner = 0") (auto simp: valid_relative_sid_def)
  moreover have "if grp = 0 then info AND 2 = 0 else sid_inside m pSD len grp"
    using parts(2) valid_relative_sid_inside by (cases "grp = 0") (auto simp: valid_relative_sid_def)
  moreover have "control AND 4 = 0 \<or> acl_inside m pSD len dacl" "control AND 0x10 = 0 \<or> acl_inside m pSD len sacl"
    using parts(3,4) valid_relative_acl_inside by blast+
  moreover have "RtlValidRelativeSecurityDescriptor m pSD len info' = Some True" if "info' AND 3 = info AND 3" for info'
    using assms(1)
    unfolding RtlValidRelativeSecurityDescriptor_def OWNER_SECURITY_INFORMATION_def GROUP_SECURITY_INFORMATION_def required_bits [OF that] .
  ultimately show ?thesis by blast
qed

text \<open>A descriptor with an owner and an empty list.\<close>

definition small_descriptor :: mem where
  "small_descriptor =
     [0,0,0,0, 1,0,4,0x80, 20,0,0,0, 0,0,0,0, 0,0,0,0, 32,0,0,0, 1,1,0,0,0,0,0,5, 18,0,0,0, 2,0,8,0,0,0,0,0]"

lemma small_descriptor_accepted: "RtlValidRelativeSecurityDescriptor small_descriptor 4 40 1 = Some True"
  by code_simp

theorem accepted_descriptor_is_contained_witness:
  "sid_inside small_descriptor 4 40 20 \<and> acl_inside small_descriptor 4 40 32"
proof -
  have "ld16 small_descriptor (4 + 2) = Some 0x8004" "ld32 small_descriptor (4 + 4) = Some 20"
    "ld32 small_descriptor (4 + 8) = Some 0" "ld32 small_descriptor (4 + 12) = Some 0"
    "ld32 small_descriptor (4 + 16) = Some 32"
    by code_simp+
  from accepted_descriptor_is_contained [OF small_descriptor_accepted this] show ?thesis by simp
qed

section \<open>Deviations\<close>

text \<open>A descriptor without a list is accepted where the list was required.\<close>

lemma required_list_not_checked:
  "RtlValidRelativeSecurityDescriptor (small_descriptor[6 := 0]) 4 40 4 = Some True \<and>
   RtlValidRelativeSecurityDescriptor (small_descriptor[6 := 0]) 4 40 8 = Some True"
  by code_simp

text \<open>A mandatory label entry is refused although the authority of its identifier is right.\<close>

lemma mandatory_label_always_refused:
  assumes "\<And>xs :: u8 list. memcmp xs xs = (0 :: int)" "RtlValidSid m Sid = Some True"
    and "bytes_at m (Sid + 2) 6 = Some SECURITY_MANDATORY_LABEL_AUTHORITY"
  shows "RtlpAddKnownAce memcmp m Acl r f am g1 g2 Sid SYSTEM_MANDATORY_LABEL_ACE_TYPE =
    Some (STATUS_INVALID_PARAMETER, m)"
  using assms by (simp add: RtlpAddKnownAce_def)

text \<open>A size just below the limit is rounded up to zero.\<close>

lemma RtlCreateAcl_size_wraps: "RtlCreateAcl (replicate 16 7) 8 0xfffd 2 =
    Some (STATUS_SUCCESS, replicate 8 7 @ [2, 0, 0, 0, 0, 0, 0, 0])"
  by code_simp

text \<open>Inserting a short entry before longer ones copies overlapping ranges with \<^verbatim>\<open>memcpy\<close>.\<close>

lemma RtlAddAce_overlaps:
  "0 < unat n \<Longrightarrow> unat n < unat Offset \<Longrightarrow> RtlpAddData m AceList n Ace Offset = None"
  by (auto simp: RtlpAddData_def memcpy_def word_less_nat_alt)

end
