(* ===== verification/Timeouts.thy ===== *)
theory Timeouts
  imports Time
begin

text \<open>
  \<open>interval_to_timespec\<close> of \<^verbatim>\<open>libs/ntdll/sync.c\<close> and the sleeping time of
  \<open>NtDelayExecution\<close>.  The arithmetic is on \<^verbatim>\<open>LONGLONG\<close>: \<open>s64\<close> is \<open>None\<close> where a
  result leaves its range, which C leaves undefined.  The quotients are of numbers that are
  not negative, where C agrees with \<open>div\<close> and \<open>mod\<close>.
\<close>

section \<open>The code\<close>

definition s64 :: "int \<Rightarrow> int option" where
  "s64 x = (if - (2 ^ 63) \<le> x \<and> x < 2 ^ 63 then Some x else None)"

record timespec =
  ts_sec :: int
  ts_nsec :: int

definition relative_ns :: "int \<Rightarrow> int option" where
  "relative_ns q = do { m \<leftarrow> s64 (- q); s64 (m * 100) }"

definition absolute_ns :: "timeval \<Rightarrow> int \<Rightarrow> int option" where
  "absolute_ns now q = do {
     unix_100ns \<leftarrow> s64 (q - uint TICKS_1601_TO_1970);
     s \<leftarrow> s64 (sint (tv_sec now) * 10000000);
     u \<leftarrow> s64 (sint (tv_usec now) * 10);
     now_100ns \<leftarrow> s64 (s + u);
     d \<leftarrow> s64 (unix_100ns - now_100ns);
     ns_offset \<leftarrow> s64 (d * 100);
     Some (if ns_offset < 0 then 0 else ns_offset)
   }"

definition deadline_after :: "timeval \<Rightarrow> int \<Rightarrow> timespec option" where
  "deadline_after now ns_offset = do {
     s \<leftarrow> s64 (sint (tv_sec now) + ns_offset div 1000000000);
     u \<leftarrow> s64 (sint (tv_usec now) * 1000);
     n \<leftarrow> s64 (u + ns_offset mod 1000000000);
     if n \<ge> 1000000000 then do { s \<leftarrow> s64 (s + 1); Some \<lparr>ts_sec = s, ts_nsec = n - 1000000000\<rparr> }
     else Some \<lparr>ts_sec = s, ts_nsec = n\<rparr>
   }"

text \<open>The inner \<open>None\<close>: no deadline (the function returns 0 and leaves \<^verbatim>\<open>timeout\<close> alone).\<close>

definition interval_to_timespec :: "timeval \<Rightarrow> int option \<Rightarrow> timespec option option" where
  "interval_to_timespec now DelayInterval =
     (case DelayInterval of
        None \<Rightarrow> Some None
      | Some q \<Rightarrow>
          if q = 0 then Some None
          else do {
            ns_offset \<leftarrow> (if q < 0 then relative_ns q else absolute_ns now q);
            ts \<leftarrow> deadline_after now ns_offset;
            Some (Some ts)
          })"

text \<open>The status and the time slept, if any.\<close>

definition NtDelayExecution :: "int option \<Rightarrow> (NTSTATUS \<times> timespec option) option" where
  "NtDelayExecution DelayInterval =
     (case DelayInterval of
        None \<Rightarrow> Some (STATUS_SUCCESS, None)
      | Some q \<Rightarrow>
          if q < 0 then do {
            ns \<leftarrow> relative_ns q;
            Some (STATUS_SUCCESS, Some \<lparr>ts_sec = ns div 1000000000, ts_nsec = ns mod 1000000000\<rparr>)
          }
          else Some (STATUS_SUCCESS, None))"

section \<open>Deadlines\<close>

text \<open>A time in nanoseconds, and the clock readings a system returns (before the year 2096).\<close>

definition nanoseconds :: "timespec \<Rightarrow> int" where
  "nanoseconds ts = ts_sec ts * 1000000000 + ts_nsec ts"

definition now_ns :: "timeval \<Rightarrow> int" where
  "now_ns now = sint (tv_sec now) * 1000000000 + sint (tv_usec now) * 1000"

definition clock_ok :: "timeval \<Rightarrow> bool" where
  "clock_ok now \<longleftrightarrow> 0 \<le> sint (tv_sec now) \<and> sint (tv_sec now) \<le> 4000000000 \<and>
     0 \<le> sint (tv_usec now) \<and> sint (tv_usec now) < 1000000"

lemma s64_id [simp]: "- (2 ^ 63) \<le> x \<Longrightarrow> x < 2 ^ 63 \<Longrightarrow> s64 x = Some x"
  by (simp add: s64_def)

lemma relative_ns_exact: "q < 0 \<Longrightarrow> - 92233720368547758 \<le> q \<Longrightarrow> relative_ns q = Some (- q * 100)"
  by (simp add: relative_ns_def)

lemma TICKS_value: "uint TICKS_1601_TO_1970 = 116444736000000000"
  by (simp add: TICKS_1601_TO_1970_def)

lemma absolute_ns_exact:
  assumes now: "clock_ok now" and q: "65000000000000000 \<le> q" "q \<le> 208444736000000000"
  shows "absolute_ns now q = Some (max 0 ((q - 116444736000000000) * 100 - now_ns now))"
proof -
  let ?s = "sint (tv_sec now)" and ?u = "sint (tv_usec now)"
  have b: "0 \<le> ?s" "?s \<le> 4000000000" "0 \<le> ?u" "?u < 1000000"
    using now by (simp_all add: clock_ok_def)
  have d: "s64 (q - 116444736000000000 - (?s * 10000000 + ?u * 10)) =
      Some (q - 116444736000000000 - (?s * 10000000 + ?u * 10))"
    using b q by simp
  show ?thesis using b q d
    by (simp add: absolute_ns_def TICKS_value now_ns_def max_def algebra_simps)
qed

lemma deadline_after_exact:
  assumes now: "clock_ok now" and off: "0 \<le> off" "off < 2 ^ 63"
  shows "\<exists>ts. deadline_after now off = Some ts \<and> 0 \<le> ts_nsec ts \<and> ts_nsec ts < 1000000000 \<and>
    nanoseconds ts = now_ns now + off"
proof -
  have b: "0 \<le> sint (tv_sec now)" "sint (tv_sec now) \<le> 4000000000" "0 \<le> sint (tv_usec now)"
    "sint (tv_usec now) < 1000000"
    using now by (simp_all add: clock_ok_def)
  have o: "0 \<le> off div 1000000000" "off div 1000000000 \<le> 9223372036"
    "0 \<le> off mod 1000000000" "off mod 1000000000 < 1000000000"
    "off div 1000000000 * 1000000000 + off mod 1000000000 = off"
    using off by simp_all
  then show ?thesis using b
    by (auto simp: deadline_after_def nanoseconds_def now_ns_def)
qed

text \<open>
  For a clock reading before the year 2096, a relative timeout of at most 292 years and an
  absolute one between the years 1807 and 2261, no intermediate result overflows, the deadline is a
  normalised time (its nanoseconds below one second, which \<^verbatim>\<open>pthread_cond_timedwait\<close> demands),
  and it is exactly now plus the interval, or the later of now and the absolute time.
\<close>

theorem interval_to_timespec_exact:
  assumes "clock_ok now" "- 92233720368547758 \<le> q" "q < 0 \<or> 65000000000000000 \<le> q" "q \<le> 208444736000000000"
  shows "\<exists>ts. interval_to_timespec now (Some q) = Some (Some ts) \<and>
    0 \<le> ts_nsec ts \<and> ts_nsec ts < 1000000000 \<and>
    nanoseconds ts = (if q < 0 then now_ns now + - q * 100
                      else max (now_ns now) ((q - uint TICKS_1601_TO_1970) * 100))"
proof (cases "q < 0")
  case True
  then have "0 \<le> - q * 100" "- q * 100 < 2 ^ 63" using assms(2) by simp_all
  from deadline_after_exact [OF assms(1) this] True assms(2) show ?thesis
    by (auto simp: interval_to_timespec_def relative_ns_exact)
next
  case False
  let ?off = "max 0 ((q - 116444736000000000) * 100 - now_ns now)"
  have n: "0 \<le> now_ns now" using assms(1) by (simp add: now_ns_def clock_ok_def)
  then have "0 \<le> ?off" "?off < 2 ^ 63" using assms(4) by simp_all
  from deadline_after_exact [OF assms(1) this] show ?thesis
    using False assms(3,4) absolute_ns_exact [OF assms(1), of q] by (auto simp: interval_to_timespec_def TICKS_value)
qed

lemma interval_to_timespec_exact_witness:
  "\<exists>ts. interval_to_timespec \<lparr>tv_sec = 1700000000, tv_usec = 999999\<rparr> (Some (- 15000000)) = Some (Some ts) \<and>
    0 \<le> ts_nsec ts \<and> ts_nsec ts < 1000000000 \<and> nanoseconds ts = 1700000002499999000"
  using interval_to_timespec_exact [of "\<lparr>tv_sec = 1700000000, tv_usec = 999999\<rparr>" "- 15000000"]
  by (simp add: clock_ok_def now_ns_def)

text \<open>An absolute time long past overflows as well: the first tick of 1601, in 2023.\<close>

lemma first_tick_overflows:
  "interval_to_timespec \<lparr>tv_sec = 1700000000, tv_usec = 0\<rparr> (Some 1) = None"
  by (simp add: interval_to_timespec_def absolute_ns_def s64_def TICKS_value)

text \<open>The most negative interval, which callers use for an endless wait, overflows.\<close>

lemma longest_interval_overflows: "interval_to_timespec now (Some (- (2 ^ 63))) = None"
  by (simp add: interval_to_timespec_def relative_ns_def s64_def)

end
