(* ===== verification/Runs.thy ===== *)
theory Runs
  imports Prelude
begin

text \<open>
  Runs of labelled step relations, and the two interfaces the concurrent components share: an
  invariant that every step keeps, and an abstraction that every step respects.
\<close>

inductive run :: "('s \<Rightarrow> 'a \<Rightarrow> 's \<Rightarrow> bool) \<Rightarrow> 's \<Rightarrow> 'a list \<Rightarrow> 's \<Rightarrow> bool" for step s where
  start: "run step s [] s"
| more: "run step s as s' \<Longrightarrow> step s' a s'' \<Longrightarrow> run step s (as @ [a]) s''"

lemma run_one: "step s a s' \<Longrightarrow> run step s [a] s'"
  using run.more [OF run.start] by fastforce

text \<open>An abstract machine is deterministic; \<open>None\<close> is an action it does not allow.\<close>

fun abs_run :: "('t \<Rightarrow> 'a \<Rightarrow> 't option) \<Rightarrow> 't \<Rightarrow> 'a list \<Rightarrow> 't option" where
  "abs_run f t [] = Some t"
| "abs_run f t (a # as) = do { t \<leftarrow> f t a; abs_run f t as }"

lemma abs_run_snoc: "abs_run f t (as @ [a]) = do { t \<leftarrow> abs_run f t as; f t a }"
  by (induction as arbitrary: t) (auto split: bind_splits)

locale invariant =
  fixes step :: "'s \<Rightarrow> 'a \<Rightarrow> 's \<Rightarrow> bool" and good :: "'s \<Rightarrow> bool"
  assumes keeps: "step s a s' \<Longrightarrow> good s \<Longrightarrow> good s'"
begin

lemma along_run: "run step s as s' \<Longrightarrow> good s \<Longrightarrow> good s'"
  by (induction rule: run.induct) (auto intro: keeps)

end

locale simulation = invariant step good
  for step :: "'s \<Rightarrow> 'a \<Rightarrow> 's \<Rightarrow> bool" and good +
  fixes abstract :: "'s \<Rightarrow> 't" and allowed :: "'t \<Rightarrow> 'a \<Rightarrow> 't option"
  assumes respects: "step s a s' \<Longrightarrow> good s \<Longrightarrow> allowed (abstract s) a = Some (abstract s')"
begin

lemma run_abs_run: "run step s as s' \<Longrightarrow> good s \<Longrightarrow> abs_run allowed (abstract s) as = Some (abstract s')"
  by (induction rule: run.induct) (auto simp: abs_run_snoc dest: along_run intro: respects)

end

end
