(* ===== verification/Handles.thy ===== *)
theory Handles
  imports Wide_Strings
begin

text \<open>
  The handles of \<^verbatim>\<open>libs/ntdll/ntdll.h\<close>: creation, the check most entry points start with and
  the description in the log (\<^verbatim>\<open>str.c\<close>).  A handle is the address of a heap block that holds
  the record; \<open>__CreateHandle\<close> is modelled by the record it fills in.
\<close>

section \<open>Narrow strings\<close>

definition narrow_lit :: "string \<Rightarrow> u8 list" where
  "narrow_lit s = map of_char s"

text \<open>\<^verbatim>\<open>US2STR\<close> and \<^verbatim>\<open>OA2STR\<close>: a counted string converted into a local buffer.\<close>

definition US2STR :: "u16 list option \<Rightarrow> u16 \<Rightarrow> u8 list option" where
  "US2STR buf len = do { (_, d, _) \<leftarrow> RtlUnicodeToOemN varconv 1024 buf (ucast len); Some d }"

text \<open>\<^verbatim>\<open>strncpy\<close> and \<^verbatim>\<open>snprintf\<close> into an array of \<open>n\<close> bytes, of a string without its terminator.\<close>

definition strncpy_to :: "nat \<Rightarrow> u8 list \<Rightarrow> u8 list" where
  "strncpy_to n s = take n (s @ replicate n 0)"

definition snprintf_to :: "nat \<Rightarrow> u8 list \<Rightarrow> u8 list" where
  "snprintf_to n s = strncpy_to n (take (n - 1) s)"

section \<open>Handles\<close>

datatype EVENT_TYPE = NotificationEvent | SynchronizationEvent

definition HANDLE_COOKIE :: u32 where "HANDLE_COOKIE = 0xfafadada"
definition HANDLE_FILE :: u8 where "HANDLE_FILE = 0x46"
definition HANDLE_LINK :: u8 where "HANDLE_LINK = 0x4c"
definition HANDLE_DIR :: u8 where "HANDLE_DIR = 0x44"
definition HANDLE_REG :: u8 where "HANDLE_REG = 0x52"
definition HANDLE_EV :: u8 where "HANDLE_EV = 0x45"
definition HANDLE_TH :: u8 where "HANDLE_TH = 0x54"
definition HANDLE_TOK :: u8 where "HANDLE_TOK = 0x4b"

lemmas handle_types = HANDLE_FILE_def HANDLE_LINK_def HANDLE_DIR_def HANDLE_REG_def HANDLE_EV_def
  HANDLE_TH_def HANDLE_TOK_def

text \<open>Of the union, the event; \<open>exited\<close> tells whether the thread of a thread handle has ended.\<close>

record handle =
  cookie :: u32
  handle_type :: u8
  desc :: "u8 list"
  handle_name :: "u8 list"
  event_type :: EVENT_TYPE
  signaled :: int
  exited :: bool

text \<open>The block comes from the heap filled with zeros.\<close>

definition CreateHandle :: "u8 \<Rightarrow> u8 list \<Rightarrow> string \<Rightarrow> handle" where
  "CreateHandle t nm func =
     \<lparr>cookie = HANDLE_COOKIE, handle_type = t,
      desc = snprintf_to 512 (t # narrow_lit '':'' @ nm @ narrow_lit '' (by '' @ narrow_lit func @ narrow_lit '')''),
      handle_name = strncpy_to 512 nm,
      event_type = NotificationEvent, signaled = 0, exited = False\<rparr>"

text \<open>The status with which \<^verbatim>\<open>CHECK_HANDLE\<close> returns, if it does.\<close>

definition CHECK_HANDLE :: "handle option \<Rightarrow> u8 \<Rightarrow> NTSTATUS option" where
  "CHECK_HANDLE h t =
     (case h of
        None \<Rightarrow> Some STATUS_ACCESS_VIOLATION
      | Some h \<Rightarrow>
          if cookie h \<noteq> HANDLE_COOKIE \<or> handle_type h \<noteq> t then Some STATUS_INVALID_PARAMETER else None)"

definition strhandle :: "handle option \<Rightarrow> u8 list" where
  "strhandle Handle =
     (case Handle of
        None \<Rightarrow> narrow_lit ''!! NULL HANDLE !!'' @ [0]
      | Some h \<Rightarrow> if cookie h = HANDLE_COOKIE then desc h else narrow_lit ''Not my own'' @ [0])"

section \<open>Lemmas\<close>

lemma CHECK_HANDLE_eq_None:
  "CHECK_HANDLE h t = None \<longleftrightarrow> (\<exists>x. h = Some x \<and> cookie x = HANDLE_COOKIE \<and> handle_type x = t)"
  by (auto simp: CHECK_HANDLE_def split: option.splits)

lemma CreateHandle_simps [simp]:
  "cookie (CreateHandle t nm f) = HANDLE_COOKIE" "handle_type (CreateHandle t nm f) = t"
  "handle_name (CreateHandle t nm f) = strncpy_to 512 nm"
  by (simp_all add: CreateHandle_def)

lemma narrow_append_zero: "0 \<notin> set s \<Longrightarrow> narrow (s @ 0 # r) = Some s"
  by (induction s) auto

lemma narrow_no_zero: "narrow s = None \<longleftrightarrow> 0 \<notin> set s"
  by (induction s) auto

lemma narrow_prefix: "narrow s = Some t \<longleftrightarrow> (\<exists>r. s = t @ 0 # r \<and> 0 \<notin> set t)"
proof
  show "narrow s = Some t \<Longrightarrow> \<exists>r. s = t @ 0 # r \<and> 0 \<notin> set t"
    by (induction s arbitrary: t) (auto split: if_splits)
  show "\<exists>r. s = t @ 0 # r \<and> 0 \<notin> set t \<Longrightarrow> narrow s = Some t"
    by (auto simp: narrow_append_zero)
qed

lemma strncpy_to_short:
  assumes "length s < n" "0 \<notin> set s"
  shows "narrow (strncpy_to n s) = Some s"
proof -
  have "strncpy_to n s = s @ replicate (n - length s) 0"
    using assms(1) by (simp add: strncpy_to_def)
  also have "\<dots> = s @ 0 # replicate (n - length s - 1) 0"
    using assms(1) by (cases "n - length s") auto
  finally show ?thesis using narrow_append_zero [OF assms(2)] by simp
qed

lemma snprintf_to_narrow:
  assumes "0 < n" "0 \<notin> set s"
  shows "narrow (snprintf_to n s) = Some (take (n - 1) s)"
  unfolding snprintf_to_def using assms by (intro strncpy_to_short) (auto dest: in_set_takeD)

text \<open>A name of 512 characters or more is stored without a terminator.\<close>

lemma long_name_unterminated:
  assumes "512 \<le> length nm" "0 \<notin> set nm"
  shows "narrow (handle_name (CreateHandle t nm f)) = None"
  using assms by (auto simp: narrow_no_zero strncpy_to_def dest: in_set_takeD)

end
