(* ===== verification/Events.thy ===== *)
theory Events
  imports Timeouts Runs Handles
begin

text \<open>
  The event objects and waits of \<^verbatim>\<open>libs/ntdll/sync.c\<close>.  The first part has the entry
  points as functions on handles; a wait takes as an argument what happens each time it blocks.
  The second part lets threads interleave: a step is one critical section of
  \<^verbatim>\<open>state_mutex\<close> or one wake-up of the condition variable.
\<close>

section \<open>Event objects\<close>

datatype OBJECT_WAIT_TYPE = WaitAllObject | WaitAnyObject

definition event_object :: "u8 list \<Rightarrow> EVENT_TYPE \<Rightarrow> int \<Rightarrow> handle" where
  "event_object nm ty v = (CreateHandle HANDLE_EV nm ''NtCreateEvent'')\<lparr>event_type := ty, signaled := v\<rparr>"

text \<open>\<open>ObjectName\<close> is the name of the object attributes, if there is one.\<close>

definition NtCreateEvent ::
  "unit option \<Rightarrow> (u16 list option \<times> u16) option \<Rightarrow> EVENT_TYPE \<Rightarrow> int \<Rightarrow> (NTSTATUS \<times> handle option) option" where
  "NtCreateEvent EventHandle ObjectName EventType InitialState =
     (case EventHandle of
        None \<Rightarrow> Some (STATUS_ACCESS_VIOLATION, None)
      | Some _ \<Rightarrow> do {
          let EventA = strncpy_to 1024 (narrow_lit ''-Event-'');
          EventA \<leftarrow> (case ObjectName of
             None \<Rightarrow> Some EventA
           | Some (buf, len) \<Rightarrow> do { (_, d, _) \<leftarrow> RtlUnicodeToOemN EventA 1024 buf (ucast len); Some d });
          nm \<leftarrow> narrow EventA;
          Some (STATUS_SUCCESS, Some (event_object nm EventType InitialState))
        })"

text \<open>The status, the event afterwards and what \<^verbatim>\<open>*PreviousState\<close> receives.\<close>

definition set_state :: "int \<Rightarrow> handle option \<Rightarrow> NTSTATUS \<times> handle option \<times> int option" where
  "set_state v EventHandle =
     (case CHECK_HANDLE EventHandle HANDLE_EV of
        Some st \<Rightarrow> (st, EventHandle, None)
      | None \<Rightarrow> (STATUS_SUCCESS, map_option (\<lambda>h. h\<lparr>signaled := v\<rparr>) EventHandle, map_option signaled EventHandle))"

definition NtSetEvent :: "handle option \<Rightarrow> NTSTATUS \<times> handle option \<times> int option" where
  "NtSetEvent = set_state 1"

definition NtResetEvent :: "handle option \<Rightarrow> NTSTATUS \<times> handle option \<times> int option" where
  "NtResetEvent = set_state 0"

definition NtClearEvent :: "handle option \<Rightarrow> NTSTATUS \<times> handle option \<times> int option" where
  "NtClearEvent EventHandle =
     (case CHECK_HANDLE EventHandle HANDLE_EV of
        Some st \<Rightarrow> (st, EventHandle, None)
      | None \<Rightarrow> NtResetEvent EventHandle)"

section \<open>Waiting\<close>

text \<open>What a successful wait does to the event.\<close>

definition consume :: "handle \<Rightarrow> handle" where
  "consume h = (if event_type h = SynchronizationEvent then h\<lparr>signaled := 0\<rparr> else h)"

type_synonym store = "nat \<Rightarrow> handle"

text \<open>
  Each time the thread blocks, the call of the C library returns a number, and other threads
  have changed the objects.  A wait that is still blocked when the list ends is \<open>None\<close>.  The
  results: the status, the objects, and what is left of the list.
\<close>

type_synonym wakeups = "(int \<times> (store \<Rightarrow> store)) list"

definition ETIMEDOUT :: int where "ETIMEDOUT = 110"

fun wait_event :: "nat \<Rightarrow> wakeups \<Rightarrow> store \<Rightarrow> (NTSTATUS \<times> store \<times> wakeups) option" where
  "wait_event a env s =
     (if signaled (s a) \<noteq> 0 then Some (STATUS_SUCCESS, s(a := consume (s a)), env)
      else case env of
        [] \<Rightarrow> None
      | (ret, others) # env \<Rightarrow>
          let s = others s in
          if ret = ETIMEDOUT then Some (STATUS_TIMEOUT, s, env)
          else if ret \<noteq> 0 then Some (STATUS_UNSUCCESSFUL, s, env)
          else wait_event a env s)"

declare wait_event.simps [simp del]

fun join_thread :: "nat \<Rightarrow> wakeups \<Rightarrow> store \<Rightarrow> (NTSTATUS \<times> store \<times> wakeups) option" where
  "join_thread a env s =
     (if exited (s a) then Some (STATUS_SUCCESS, s, env)
      else case env of
        [] \<Rightarrow> None
      | (ret, others) # env \<Rightarrow> join_thread a env (others s))"

declare join_thread.simps [simp del]

definition NtWaitForSingleObject ::
  "timeval \<Rightarrow> int option \<Rightarrow> nat option \<Rightarrow> wakeups \<Rightarrow> store \<Rightarrow> (NTSTATUS \<times> store \<times> wakeups) option" where
  "NtWaitForSingleObject now Timeout Handle env s =
     (case Handle of
        None \<Rightarrow> Some (STATUS_ACCESS_VIOLATION, s, env)
      | Some a \<Rightarrow>
          if handle_type (s a) = HANDLE_FILE then Some (STATUS_SUCCESS, s, env)
          else if handle_type (s a) = HANDLE_EV then do {
            deadline \<leftarrow> interval_to_timespec now Timeout;
            wait_event a env s
          }
          else if handle_type (s a) = HANDLE_TH then join_thread a env s
          else Some (STATUS_NOT_IMPLEMENTED, s, env))"

text \<open>All objects, one after the other; each wait reads the clock anew.\<close>

fun wait_all :: "timeval list \<Rightarrow> int option \<Rightarrow> nat option list \<Rightarrow> wakeups \<Rightarrow> store \<Rightarrow>
    (NTSTATUS \<times> store \<times> wakeups) option" where
  "wait_all clock Timeout [] env s = Some (STATUS_SUCCESS, s, env)"
| "wait_all [] Timeout (h # hs) env s = None"
| "wait_all (now # clock) Timeout (h # hs) env s = do {
     (st, s, env) \<leftarrow> NtWaitForSingleObject now Timeout h env s;
     if st \<noteq> STATUS_SUCCESS then Some (st, s, env) else wait_all clock Timeout hs env s
   }"

text \<open>
  One pass over the objects of a wait for any of them: the index of the object found, if any.
  Other handles are waited for; the interval of a tick that is meant to poll has no effect on
  a thread handle.
\<close>

fun scan_any :: "timeval \<Rightarrow> nat option list \<Rightarrow> nat \<Rightarrow> wakeups \<Rightarrow> store \<Rightarrow>
    (nat option \<times> store \<times> wakeups) option" where
  "scan_any now [] i env s = Some (None, s, env)"
| "scan_any now (None # hs) i env s = scan_any now hs (i + 1) env s"
| "scan_any now (Some a # hs) i env s =
     (if handle_type (s a) = HANDLE_EV then
        (if signaled (s a) \<noteq> 0 then Some (Some i, s(a := consume (s a)), env)
         else scan_any now hs (i + 1) env s)
      else do {
        (st, s, env) \<leftarrow> NtWaitForSingleObject now (Some (- 1)) (Some a) env s;
        if st = STATUS_SUCCESS then Some (Some i, s, env) else scan_any now hs (i + 1) env s
      })"

text \<open>
  A turn of the polling loop: what other threads did while it slept, the event of the parked
  keyboard read that \<open>nl_kbd_pump\<close> completes, and the two clock readings.
\<close>

record turn =
  others :: "store \<Rightarrow> store"
  completed :: "nat option"
  turn_time :: timeval
  turn_clock :: timespec

definition pumped :: "nat option \<Rightarrow> store \<Rightarrow> store" where
  "pumped e s = (case e of None \<Rightarrow> s | Some a \<Rightarrow>
     (case NtSetEvent (Some (s a)) of (_, Some h, _) \<Rightarrow> s(a := h) | _ \<Rightarrow> s))"

definition reached :: "timespec \<Rightarrow> timespec \<Rightarrow> bool" where
  "reached now deadline \<longleftrightarrow>
     ts_sec now > ts_sec deadline \<or> ts_sec now = ts_sec deadline \<and> ts_nsec now \<ge> ts_nsec deadline"

text \<open>\<open>None\<close> when the loop is still polling after the last turn, or a join blocks.\<close>

fun poll_any :: "timespec option \<Rightarrow> int option \<Rightarrow> nat option list \<Rightarrow> turn list \<Rightarrow> wakeups \<Rightarrow> store \<Rightarrow>
    (NTSTATUS \<times> store) option" where
  "poll_any deadline Timeout hs [] env s = None"
| "poll_any deadline Timeout hs (t # ts) env s = do {
     (found, s, env) \<leftarrow> scan_any (turn_time t) hs 0 env (pumped (completed t) (others t s));
     case found of
       Some i \<Rightarrow> Some (STATUS_WAIT_0 + of_nat i, s)
     | None \<Rightarrow>
         if (case deadline of
               Some d \<Rightarrow> reached (turn_clock t) d
             | None \<Rightarrow> Timeout = Some 0)
         then Some (STATUS_TIMEOUT, s)
         else poll_any deadline Timeout hs ts env s
   }"

definition NtWaitForMultipleObjects ::
  "timeval list \<Rightarrow> turn list \<Rightarrow> nat option list option \<Rightarrow> OBJECT_WAIT_TYPE \<Rightarrow> int option \<Rightarrow> wakeups \<Rightarrow> store \<Rightarrow>
     (NTSTATUS \<times> store) option" where
  "NtWaitForMultipleObjects clock turns ObjectsArray WaitType Timeout env s =
     (case ObjectsArray of
        None \<Rightarrow> Some (STATUS_INVALID_PARAMETER, s)
      | Some hs \<Rightarrow>
          if hs = [] then Some (STATUS_INVALID_PARAMETER, s)
          else if WaitType = WaitAllObject then do {
            (st, s, env) \<leftarrow> wait_all clock Timeout hs env s;
            Some (st, s)
          }
          else (case clock of [] \<Rightarrow> None | now # _ \<Rightarrow> do {
            deadline \<leftarrow> interval_to_timespec now Timeout;
            poll_any deadline Timeout hs turns env s
          }))"

section \<open>Interleaving\<close>

text \<open>Where a thread is; the flag tells whether its wait has a deadline.\<close>

datatype wait_pc = Outside | Blocked bool | Woken bool

record event_state =
  object :: handle
  waits :: "nat \<Rightarrow> wait_pc"

text \<open>What a step does, seen from outside.\<close>

datatype event_action = Sets | Resets | Passes nat | Expires nat | Fails nat | Quiet

definition at_pc :: "nat \<Rightarrow> wait_pc \<Rightarrow> event_state \<Rightarrow> event_state" where
  "at_pc t p s = s\<lparr>waits := (waits s)(t := p)\<rparr>"

fun wake :: "wait_pc \<Rightarrow> wait_pc" where
  "wake (Blocked b) = Woken b"
| "wake p = p"

definition broadcast :: "event_state \<Rightarrow> event_state" where
  "broadcast s = s\<lparr>waits := (\<lambda>t. wake (waits s t))\<rparr>"

definition put_signaled :: "int \<Rightarrow> event_state \<Rightarrow> event_state" where
  "put_signaled v s = s\<lparr>object := (object s)\<lparr>signaled := v\<rparr>\<rparr>"

definition pass :: "nat \<Rightarrow> event_state \<Rightarrow> event_state" where
  "pass t s = at_pc t Outside (s\<lparr>object := consume (object s)\<rparr>)"

text \<open>
  \<^verbatim>\<open>pthread_cond_signal\<close> wakes one blocked thread if there is one; a spurious wake-up can
  happen at any time.
\<close>

inductive event_step :: "event_state \<Rightarrow> event_action \<Rightarrow> event_state \<Rightarrow> bool" where
  enter_pass: "waits s t = Outside \<Longrightarrow> signaled (object s) \<noteq> 0 \<Longrightarrow> event_step s (Passes t) (pass t s)"
| enter_block: "waits s t = Outside \<Longrightarrow> signaled (object s) = 0 \<Longrightarrow>
    event_step s Quiet (at_pc t (Blocked b) s)"
| woken_pass: "waits s t = Woken b \<Longrightarrow> signaled (object s) \<noteq> 0 \<Longrightarrow> event_step s (Passes t) (pass t s)"
| woken_block: "waits s t = Woken b \<Longrightarrow> signaled (object s) = 0 \<Longrightarrow>
    event_step s Quiet (at_pc t (Blocked b) s)"
| spurious: "waits s t = Blocked b \<Longrightarrow> event_step s Quiet (at_pc t (Woken b) s)"
| timed_out: "waits s t = Blocked True \<Longrightarrow> event_step s (Expires t) (at_pc t Outside s)"
| failed: "waits s t = Blocked b \<Longrightarrow> event_step s (Fails t) (at_pc t Outside s)"
| set_all: "event_type (object s) = NotificationEvent \<Longrightarrow>
    event_step s Sets (broadcast (put_signaled 1 s))"
| set_one: "event_type (object s) = SynchronizationEvent \<Longrightarrow> waits s t = Blocked b \<Longrightarrow>
    event_step s Sets (at_pc t (Woken b) (put_signaled 1 s))"
| set_none: "event_type (object s) = SynchronizationEvent \<Longrightarrow> \<forall>t b. waits s t \<noteq> Blocked b \<Longrightarrow>
    event_step s Sets (put_signaled 1 s)"
| reset: "event_step s Resets (put_signaled 0 s)"

definition event_init :: "u8 list \<Rightarrow> EVENT_TYPE \<Rightarrow> int \<Rightarrow> event_state" where
  "event_init nm ty v = \<lparr>object = event_object nm ty v, waits = (\<lambda>_. Outside)\<rparr>"

end
