(* ===== verification/Events_Spec.thy ===== *)
theory Events_Spec
  imports Events
begin

text \<open>
  What events promise: they behave like a flag whatever the interleaving, a wake-up is never
  lost, one set lets at most one waiter through an auto-reset event, and a wait for any of
  several events takes the first that is set.
\<close>

section \<open>Steps\<close>

lemma at_pc_simps [simp]:
  "object (at_pc t p s) = object s" "waits (at_pc t p s) u = (if u = t then p else waits s u)"
  by (simp_all add: at_pc_def)

lemma put_signaled_simps [simp]:
  "waits (put_signaled v s) = waits s" "signaled (object (put_signaled v s)) = v"
  "event_type (object (put_signaled v s)) = event_type (object s)"
  by (simp_all add: put_signaled_def)

lemma broadcast_simps [simp]: "object (broadcast s) = object s" "waits (broadcast s) t = wake (waits s t)"
  by (simp_all add: broadcast_def)

lemma consume_simps [simp]:
  "event_type (consume h) = event_type h" "cookie (consume h) = cookie h"
  "handle_type (consume h) = handle_type h" "exited (consume h) = exited h"
  "signaled (consume h) = (if event_type h = SynchronizationEvent then 0 else signaled h)"
  by (simp_all add: consume_def)

lemma pass_simps [simp]:
  "object (pass t s) = consume (object s)" "waits (pass t s) u = (if u = t then Outside else waits s u)"
  by (simp_all add: pass_def)

lemma wake_not_Blocked [simp]: "wake p \<noteq> Blocked b"
  by (cases p) simp_all

lemma wake_Outside [simp]: "wake p = Outside \<longleftrightarrow> p = Outside"
  by (cases p) simp_all

lemma event_step_type: "event_step s a s' \<Longrightarrow> event_type (object s') = event_type (object s)"
  by (induction rule: event_step.induct) simp_all

inductive_cases passesE: "event_step s (Passes t) s'"

section \<open>Steps and calls\<close>

text \<open>
  The steps that set and reset an event leave it as \<open>NtSetEvent\<close> and \<open>NtResetEvent\<close> do, and there is
  such a step in every state; a step of a thread that passes leaves it as \<open>NtWaitForSingleObject\<close> does.
\<close>

lemma sets_is_NtSetEvent:
  assumes "CHECK_HANDLE (Some (object s)) HANDLE_EV = None"
  shows "event_step s Sets s' \<Longrightarrow> NtSetEvent (Some (object s)) = (STATUS_SUCCESS, Some (object s'), Some (signaled (object s)))"
    "\<exists>s'. event_step s Sets s' \<and> NtSetEvent (Some (object s)) = (STATUS_SUCCESS, Some (object s'), Some (signaled (object s)))"
proof -
  have set: "NtSetEvent (Some (object s)) = (STATUS_SUCCESS, Some ((object s)\<lparr>signaled := 1\<rparr>), Some (signaled (object s)))"
    using assms by (simp add: NtSetEvent_def set_state_def)
  have put: "object (put_signaled 1 s) = (object s)\<lparr>signaled := 1\<rparr>" by (simp add: put_signaled_def)
  show "event_step s Sets s' \<Longrightarrow> NtSetEvent (Some (object s)) = (STATUS_SUCCESS, Some (object s'), Some (signaled (object s)))"
    by (erule event_step.cases) (use set put in auto)
  have "\<exists>s'. event_step s Sets s' \<and> object s' = (object s)\<lparr>signaled := 1\<rparr>"
  proof (cases "event_type (object s)")
    case NotificationEvent
    then show ?thesis using set_all [of s] put by (metis broadcast_simps(1))
  next
    case SynchronizationEvent
    then show ?thesis using set_one [of s] set_none [of s] put by (metis at_pc_simps(1))
  qed
  then show "\<exists>s'. event_step s Sets s' \<and> NtSetEvent (Some (object s)) = (STATUS_SUCCESS, Some (object s'), Some (signaled (object s)))"
    using set by metis
qed

lemma resets_is_NtResetEvent:
  assumes "CHECK_HANDLE (Some (object s)) HANDLE_EV = None"
  shows "event_step s Resets s' \<longleftrightarrow> s' = put_signaled 0 s"
    "NtResetEvent (Some (object s)) = (STATUS_SUCCESS, Some (object (put_signaled 0 s)), Some (signaled (object s)))"
    "fst (snd (NtClearEvent (Some (object s)))) = Some (object (put_signaled 0 s))"
  using assms reset [of s]
  by (auto simp: NtResetEvent_def NtClearEvent_def set_state_def put_signaled_def elim: event_step.cases)

lemma passes_is_wait_event:
  assumes "event_step s (Passes t) s'"
  shows "wait_event a env (m(a := object s)) = Some (STATUS_SUCCESS, m(a := object s'), env)"
  using assms by (rule passesE) (simp_all add: wait_event.simps)

section \<open>No wake-up is lost\<close>

text \<open>
  When the event is set, nobody is blocked on a notification event, and if somebody is blocked
  on a synchronization event then somebody else has been woken and will look.
\<close>

definition wakeups_kept :: "event_state \<Rightarrow> bool" where
  "wakeups_kept s \<longleftrightarrow> signaled (object s) \<noteq> 0 \<longrightarrow>
     (\<exists>t b. waits s t = Blocked b) \<longrightarrow>
     event_type (object s) = SynchronizationEvent \<and> (\<exists>t b. waits s t = Woken b)"

lemma wakeups_kept_init: "wakeups_kept (event_init nm ty v)"
  by (simp add: wakeups_kept_def event_init_def)

lemma wakeups_kept_leave:
  assumes "waits s t = Blocked b" "wakeups_kept s"
  shows "wakeups_kept (at_pc t Outside s)"
  unfolding wakeups_kept_def
proof (intro impI)
  assume "signaled (object (at_pc t Outside s)) \<noteq> 0"
  with assms obtain u c where u: "waits s u = Woken c" and ty: "event_type (object s) = SynchronizationEvent"
    by (fastforce simp: wakeups_kept_def)
  moreover have "u \<noteq> t" using u assms(1) by auto
  ultimately show "event_type (object (at_pc t Outside s)) = SynchronizationEvent \<and>
      (\<exists>t' b. waits (at_pc t Outside s) t' = Woken b)" by auto
qed

lemma wakeups_kept_step: "event_step s a s' \<Longrightarrow> wakeups_kept s \<Longrightarrow> wakeups_kept s'"
proof (induction rule: event_step.induct)
  case (woken_pass s t b)
  then show ?case by (cases "event_type (object s)") (auto simp: wakeups_kept_def)
next
  case (enter_pass s t)
  then show ?case by (cases "event_type (object s)") (auto simp: wakeups_kept_def)
next
  case (timed_out s t)
  then show ?case by (rule wakeups_kept_leave)
next
  case (failed s t b)
  then show ?case by (rule wakeups_kept_leave)
qed (auto simp: wakeups_kept_def)

interpretation wakeups: invariant event_step wakeups_kept
  by unfold_locales (rule wakeups_kept_step)

text \<open>
  C13. A wake-up is never lost: whatever threads have done so far, when the event is set and a
  thread waits, some waiting thread can leave its wait with success in its next step, without
  any further wake-up; on a notification event that is the thread itself.
\<close>

theorem event_waiter_passes:
  assumes "run event_step (event_init nm ty v) as s" "signaled (object s) \<noteq> 0" "waits s t \<noteq> Outside"
  shows "\<exists>u s'. waits s u \<noteq> Outside \<and> event_step s (Passes u) s' \<and> waits s' u = Outside \<and>
    (ty = NotificationEvent \<longrightarrow> u = t)"
proof -
  have kept: "wakeups_kept s" using wakeups.along_run [OF assms(1) wakeups_kept_init] .
  have "run event_step (event_init nm ty v) as s \<Longrightarrow> event_type (object s) = ty"
    by (induction rule: run.induct) (auto simp: event_step_type event_init_def event_object_def)
  with assms(1) have ty: "event_type (object s) = ty" by simp
  have go: "\<exists>s'. event_step s (Passes u) s' \<and> waits s' u = Outside" if "waits s u = Woken b" for u b
    using woken_pass [OF that assms(2)] by (auto intro!: exI [of _ "pass u s"])
  show ?thesis
  proof (cases "\<exists>b. waits s t = Woken b")
    case True
    then show ?thesis using go by force
  next
    case False
    then obtain b where "waits s t = Blocked b" using assms(3) by (cases "waits s t") auto
    with kept assms(2) ty obtain u c where "ty = SynchronizationEvent" "waits s u = Woken c"
      by (auto simp: wakeups_kept_def)
    then show ?thesis using go by force
  qed
qed

lemma event_waiter_passes_witness:
  "\<exists>s. \<exists>u s'. waits s u \<noteq> Outside \<and> event_step s (Passes u) s' \<and> waits s' u = Outside \<and>
    (SynchronizationEvent = NotificationEvent \<longrightarrow> u = 3)"
proof -
  let ?s0 = "event_init [] SynchronizationEvent 0" and ?s1 = "at_pc 3 (Blocked True) (event_init [] SynchronizationEvent 0)"
  have "event_step ?s0 Quiet ?s1"
    by (rule enter_block) (simp_all add: event_init_def event_object_def)
  moreover have "event_step ?s1 Sets (at_pc 3 (Woken True) (put_signaled 1 ?s1))"
    by (rule set_one) (simp_all add: event_init_def event_object_def)
  ultimately have "run event_step ?s0 ([Quiet] @ [Sets]) (at_pc 3 (Woken True) (put_signaled 1 ?s1))"
    by (rule run.more [OF run_one])
  from event_waiter_passes [OF this, of 3] show ?thesis
    by (intro exI [of _ "at_pc 3 (Woken True) (put_signaled 1 ?s1)"]) simp
qed

section \<open>Refinement of a flag\<close>

text \<open>The abstract event: a flag.  Only setting and clearing change it, and it lets threads pass
  while it is up; an auto-reset flag falls when it lets one pass.\<close>

fun flag :: "EVENT_TYPE \<Rightarrow> bool \<Rightarrow> event_action \<Rightarrow> bool option" where
  "flag ty up Sets = Some True"
| "flag ty up Resets = Some False"
| "flag ty up (Passes t) = (if up then Some (ty = NotificationEvent) else None)"
| "flag ty up (Expires t) = Some up"
| "flag ty up (Fails t) = Some up"
| "flag ty up Quiet = Some up"

definition up :: "event_state \<Rightarrow> bool" where "up s \<longleftrightarrow> signaled (object s) \<noteq> 0"

definition of_type :: "EVENT_TYPE \<Rightarrow> event_state \<Rightarrow> bool" where "of_type ty s \<longleftrightarrow> event_type (object s) = ty"

lemma event_step_flag: "event_step s a s' \<Longrightarrow> flag (event_type (object s)) (up s) a = Some (up s')"
  by (induction rule: event_step.induct) (auto simp: up_def intro: EVENT_TYPE.exhaust)

interpretation flags: simulation event_step "of_type ty" up "flag ty" for ty
  by unfold_locales (auto simp: of_type_def event_step_type event_step_flag)

text \<open>
  C16. Events refine a flag: whatever the interleaving of waits, time-outs, spurious wake-ups, sets
  and resets, the visible actions are ones the flag allows, and the event is signaled exactly
  when the flag is up.
\<close>

theorem event_refines_flag:
  assumes "run event_step (event_init nm ty v) as s"
  shows "abs_run (flag ty) (v \<noteq> 0) as = Some (signaled (object s) \<noteq> 0)"
  using flags.run_abs_run [OF assms, of ty] by (simp add: of_type_def up_def event_init_def event_object_def)

lemma event_refines_flag_witness:
  "\<exists>s :: event_state. abs_run (flag SynchronizationEvent) ((1::int) \<noteq> 0) [Passes 2] = Some (signaled (object s) \<noteq> 0)"
proof -
  have "event_step (event_init [] SynchronizationEvent 1) (Passes 2) (pass 2 (event_init [] SynchronizationEvent 1))"
    by (rule enter_pass) (simp_all add: event_init_def event_object_def)
  from event_refines_flag [OF run_one, of "[]" SynchronizationEvent 1, OF this] show ?thesis
    by (rule exI)
qed

section \<open>One set, one waiter\<close>

definition is_pass :: "event_action \<Rightarrow> bool" where
  "is_pass a \<longleftrightarrow> (case a of Passes _ \<Rightarrow> True | _ \<Rightarrow> False)"

lemma flag_counts:
  "abs_run (flag SynchronizationEvent) f as = Some g \<Longrightarrow>
     length (filter is_pass as) + of_bool g \<le> count_list as Sets + of_bool f"
proof (induction as arbitrary: f)
  case (Cons a as)
  then obtain h where h: "flag SynchronizationEvent f a = Some h" "abs_run (flag SynchronizationEvent) h as = Some g"
    by (auto simp: bind_eq_Some_conv)
  from Cons.IH [OF h(2)] h(1) show ?case
    by (cases a) (auto simp: is_pass_def split: if_splits)
qed simp

text \<open>
  C19. One set lets at most one waiter through an auto-reset event: in every run, the waits that
  returned with success are at most as many as the sets, plus one if the event was created
  signaled.
\<close>

theorem auto_reset_admits_one:
  assumes "run event_step (event_init nm SynchronizationEvent v) as s"
  shows "length (filter is_pass as) \<le> count_list as Sets + of_bool (v \<noteq> 0)"
  using flag_counts [OF flags.run_abs_run [OF assms, of SynchronizationEvent]]
  by (simp add: of_type_def up_def event_init_def event_object_def)

lemma auto_reset_admits_one_witness:
  "length (filter is_pass [Passes 2]) \<le> count_list [Passes 2] Sets + of_bool ((1::int) \<noteq> 0)"
proof -
  have "event_step (event_init [] SynchronizationEvent 1) (Passes 2) (pass 2 (event_init [] SynchronizationEvent 1))"
    by (rule enter_pass) (simp_all add: event_init_def event_object_def)
  from auto_reset_admits_one [OF run_one, of "[]" 1, OF this] show ?thesis .
qed

section \<open>Waiting for one of several\<close>

text \<open>No event among the handles is set; null handles are passed over.\<close>

definition none_set :: "nat option list \<Rightarrow> store \<Rightarrow> bool" where
  "none_set hs s \<longleftrightarrow> list_all (\<lambda>h. case h of None \<Rightarrow> True | Some a \<Rightarrow> handle_type (s a) = HANDLE_EV \<and> signaled (s a) = 0) hs"

text \<open>What the loop sees on a turn: what the other threads left, with the event of a completed keyboard read set.\<close>

definition seen :: "turn \<Rightarrow> store \<Rightarrow> store" where
  "seen t s = (let s = others t s in
     case completed t of None \<Rightarrow> s | Some e \<Rightarrow> if cookie (s e) = HANDLE_COOKIE \<and> handle_type (s e) = HANDLE_EV then s(e := (s e)\<lparr>signaled := 1\<rparr>) else s)"

definition past_deadline :: "timespec option \<Rightarrow> int option \<Rightarrow> turn \<Rightarrow> bool" where
  "past_deadline deadline Timeout t \<longleftrightarrow>
     (case deadline of None \<Rightarrow> Timeout = Some 0
      | Some d \<Rightarrow> ts_sec d < ts_sec (turn_clock t) \<or> ts_sec d = ts_sec (turn_clock t) \<and> ts_nsec d \<le> ts_nsec (turn_clock t))"

text \<open>Turns that find nothing: from the objects \<open>s\<close> they lead to \<open>s'\<close>.\<close>

fun idle_turns :: "timespec option \<Rightarrow> int option \<Rightarrow> nat option list \<Rightarrow> turn list \<Rightarrow> store \<Rightarrow> store \<Rightarrow> bool" where
  "idle_turns deadline Timeout hs [] s s' \<longleftrightarrow> s' = s"
| "idle_turns deadline Timeout hs (t # ts) s s' \<longleftrightarrow>
     none_set hs (seen t s) \<and> \<not> past_deadline deadline Timeout t \<and> idle_turns deadline Timeout hs ts (seen t s) s'"

lemma pumped_seen: "pumped (completed t) (others t s) = seen t s"
  by (auto simp: pumped_def seen_def NtSetEvent_def set_state_def CHECK_HANDLE_def Let_def split: option.splits)

lemma scan_any_none: "none_set hs s \<Longrightarrow> scan_any now hs i env s = Some (None, s, env)"
  by (induction hs arbitrary: i) (auto simp: none_set_def split: option.splits)

lemma scan_any_at:
  assumes "none_set hs s" "handle_type (s a) = HANDLE_EV" "signaled (s a) \<noteq> 0"
  shows "scan_any now (hs @ Some a # rest) i env s = Some (Some (i + length hs), s(a := consume (s a)), env)"
  using assms by (induction hs arbitrary: i) (auto simp: none_set_def split: option.splits)

lemma poll_any_idle:
  "idle_turns deadline Timeout hs ts s s' \<Longrightarrow> poll_any deadline Timeout hs (ts @ later) env s = poll_any deadline Timeout hs later env s'"
  by (induction ts arbitrary: s) (auto simp: pumped_seen scan_any_none past_deadline_def reached_def split: option.splits if_splits)

text \<open>
  C38. A wait for any of several events polls them all, turn after turn; between its looks other threads
  may do anything to the objects, and a parked keyboard read may set its event.  After any number of turns that found no
  event set before the deadline, the first turn that finds one returns \<open>STATUS_WAIT_0\<close> plus the position of
  the first one that is set; it resets that event if it is an auto-reset event and touches no other object.  A turn that
  finds none when the deadline is reached (or the timeout is zero) returns \<open>STATUS_TIMEOUT\<close> and touches none.
\<close>

theorem NtWaitForMultipleObjects_first:
  assumes "interval_to_timespec now Timeout = Some deadline" "hs \<noteq> []"
    and "idle_turns deadline Timeout hs early s0 s" "s1 = seen turn s"
  shows "(hs = before @ Some a # rest \<and> none_set before s1 \<and> handle_type (s1 a) = HANDLE_EV \<and> signaled (s1 a) \<noteq> 0 \<longrightarrow>
      NtWaitForMultipleObjects (now # clock) (early @ turn # later) (Some hs) WaitAnyObject Timeout env s0 =
        Some (STATUS_WAIT_0 + of_nat (length before),
          s1(a := (if event_type (s1 a) = SynchronizationEvent then (s1 a)\<lparr>signaled := 0\<rparr> else s1 a)))) \<and>
    (none_set hs s1 \<and> past_deadline deadline Timeout turn \<longrightarrow>
      NtWaitForMultipleObjects (now # clock) (early @ turn # later) (Some hs) WaitAnyObject Timeout env s0 = Some (STATUS_TIMEOUT, s1))"
proof -
  have "NtWaitForMultipleObjects (now # clock) (early @ turn # later) (Some hs) WaitAnyObject Timeout env s0 =
      poll_any deadline Timeout hs (turn # later) env s"
    using assms(1,2) poll_any_idle [OF assms(3)] by (simp add: NtWaitForMultipleObjects_def)
  then show ?thesis
    using scan_any_at [of before s1 a "turn_time turn" rest 0 env] scan_any_none [of hs s1 "turn_time turn" 0 env]
    by (auto simp: pumped_seen assms(4) [symmetric] consume_def past_deadline_def reached_def split: option.splits)
qed

text \<open>The second of two events is set by a keyboard read that completes on the second turn.\<close>

theorem NtWaitForMultipleObjects_first_witness:
  "\<exists>s'. NtWaitForMultipleObjects [\<lparr>tv_sec = 0, tv_usec = 0\<rparr>]
     ([\<lparr>others = (\<lambda>s. s), completed = None, turn_time = \<lparr>tv_sec = 0, tv_usec = 0\<rparr>, turn_clock = \<lparr>ts_sec = 0, ts_nsec = 0\<rparr>\<rparr>] @
      [\<lparr>others = (\<lambda>s. s), completed = Some 2, turn_time = \<lparr>tv_sec = 1, tv_usec = 0\<rparr>, turn_clock = \<lparr>ts_sec = 1, ts_nsec = 0\<rparr>\<rparr>])
     (Some [Some 1, Some 2]) WaitAnyObject None [] (\<lambda>_. event_object [] SynchronizationEvent 0) = Some (STATUS_WAIT_0 + of_nat 1, s')"
proof -
  let ?e = "event_object [] SynchronizationEvent 0"
  let ?t = "\<lparr>others = (\<lambda>s. s), completed = None, turn_time = \<lparr>tv_sec = 0, tv_usec = 0\<rparr>, turn_clock = \<lparr>ts_sec = 0, ts_nsec = 0\<rparr>\<rparr>"
  let ?u = "\<lparr>others = (\<lambda>s. s), completed = Some 2, turn_time = \<lparr>tv_sec = 1, tv_usec = 0\<rparr>, turn_clock = \<lparr>ts_sec = 1, ts_nsec = 0\<rparr>\<rparr>"
  have i: "interval_to_timespec \<lparr>tv_sec = 0, tv_usec = 0\<rparr> None = Some None" by (simp add: interval_to_timespec_def)
  have t: "idle_turns None None [Some 1, Some 2] [?t] (\<lambda>_. ?e) (\<lambda>_. ?e)"
    by (simp add: none_set_def seen_def past_deadline_def event_object_def)
  have "[Some 1, Some 2] = [Some 1] @ Some (2 :: nat) # [] \<and> none_set [Some 1] (seen ?u (\<lambda>_. ?e)) \<and>
      handle_type (seen ?u (\<lambda>_. ?e) 2) = HANDLE_EV \<and> signaled (seen ?u (\<lambda>_. ?e) 2) \<noteq> 0"
    by (simp add: none_set_def seen_def event_object_def CreateHandle_def)
  with NtWaitForMultipleObjects_first [OF i _ t refl, where turn = ?u and before = "[Some 1]" and a = 2 and rest = "[]"
      and clock = "[]" and later = "[]" and env = "[]"] show ?thesis
    by auto
qed

section \<open>Deviations\<close>

text \<open>A timeout of zero waits forever in a wait for one object, and polls in a wait for any.\<close>

lemma zero_timeout_blocks:
  "handle_type (s a) = HANDLE_EV \<Longrightarrow> signaled (s a) = 0 \<Longrightarrow>
     NtWaitForSingleObject now (Some 0) (Some a) [] s = None"
  by (simp add: NtWaitForSingleObject_def interval_to_timespec_def handle_types wait_event.simps)

text \<open>A wait for all objects that times out has already reset the events it got past.\<close>

lemma wait_all_not_atomic:
  assumes "a \<noteq> b" "handle_type (s a) = HANDLE_EV" "signaled (s a) \<noteq> 0" "event_type (s a) = SynchronizationEvent"
    "handle_type (s b) = HANDLE_EV" "signaled (s b) = 0"
    "interval_to_timespec now Timeout = Some d" "interval_to_timespec later Timeout = Some e"
  shows "NtWaitForMultipleObjects [now, later] turns (Some [Some a, Some b]) WaitAllObject Timeout [(ETIMEDOUT, id)] s =
    Some (STATUS_TIMEOUT, s(a := (s a)\<lparr>signaled := 0\<rparr>))"
  using assms
  by (simp add: NtWaitForMultipleObjects_def NtWaitForSingleObject_def handle_types wait_event.simps [of a]
      wait_event.simps [of b] consume_def nt_status ETIMEDOUT_def)

text \<open>A wait for any object blocks on a running thread, whatever its timeout.\<close>

lemma wait_any_blocks_on_thread:
  assumes "handle_type (s a) = HANDLE_TH" "\<not> exited (s a)" "interval_to_timespec now Timeout = Some d"
  shows "NtWaitForMultipleObjects (now # clock)
    [\<lparr>others = id, completed = None, turn_time = t, turn_clock = c\<rparr>] (Some [Some a]) WaitAnyObject Timeout [] s = None"
  using assms
  by (simp add: NtWaitForMultipleObjects_def NtWaitForSingleObject_def handle_types join_thread.simps pumped_def)

end
