(* ===== verification/Unicode_Strings.thy ===== *)
theory Unicode_Strings
  imports Handles Case_Map
begin

text \<open>
  The counted strings of \<^verbatim>\<open>libs/ntdll/rtl.c\<close>.  A buffer is the memory from its address to the
  end of its allocation; a block that \<open>RtlAllocateHeap\<close> returns holds unspecified characters,
  of which \<open>junk\<close> is one.  An allocation does not fail (it aborts, see \<open>Heap\<close>).
\<close>

section \<open>Strings\<close>

text \<open>\<open>Length\<close> and \<open>MaximumLength\<close> are in bytes.\<close>

record 'c counted =
  Length :: u16
  MaximumLength :: u16
  Buffer :: "'c list option"

type_synonym UNICODE_STRING = "u16 counted"
type_synonym ANSI_STRING = "u8 counted"

definition chars_of :: "'c counted \<Rightarrow> nat \<Rightarrow> 'c option" where
  "chars_of s i = do { b \<leftarrow> Buffer s; rd b i }"

definition put_char :: "'c counted \<Rightarrow> nat \<Rightarrow> 'c \<Rightarrow> 'c counted option" where
  "put_char s i c = do { b \<leftarrow> Buffer s; b \<leftarrow> wr b i c; Some (s\<lparr>Buffer := Some b\<rparr>) }"

text \<open>The loop that maps the first \<open>n\<close> characters, from position \<open>i\<close>.\<close>

fun map_chars :: "('a \<Rightarrow> 'b) \<Rightarrow> nat \<Rightarrow> nat \<Rightarrow> 'a counted \<Rightarrow> 'b counted \<Rightarrow> 'b counted option" where
  "map_chars f i 0 src dest = Some dest"
| "map_chars f i (Suc n) src dest = do {
     c \<leftarrow> chars_of src i;
     dest \<leftarrow> put_char dest i (f c);
     map_chars f (i + 1) n src dest
   }"

definition strlen :: "u8 list \<Rightarrow> nat option" where
  "strlen s = map_option length (narrow s)"

section \<open>Initialisation\<close>

text \<open>The source is converted for the log even where the log is off.\<close>

definition RtlInitUnicodeString :: "u16 list option \<Rightarrow> UNICODE_STRING option" where
  "RtlInitUnicodeString SourceString = do {
     _ \<leftarrow> WSTR2STR SourceString;
     case SourceString of
       Some _ \<Rightarrow> do {
         n \<leftarrow> rpl_wcslen SourceString;
         let len = (of_nat (n * 2) :: u16);
         Some \<lparr>Length = len, MaximumLength = len + 2, Buffer = SourceString\<rparr>
       }
     | None \<Rightarrow> Some \<lparr>Length = 0, MaximumLength = 0, Buffer = None\<rparr>
   }"

definition RtlInitAnsiString :: "u8 list option \<Rightarrow> ANSI_STRING option" where
  "RtlInitAnsiString SourceString =
     (case SourceString of
       Some s \<Rightarrow> do {
         n \<leftarrow> strlen s;
         Some \<lparr>Length = of_nat n, MaximumLength = of_nat n + 1, Buffer = SourceString\<rparr>
       }
     | None \<Rightarrow> Some \<lparr>Length = 0, MaximumLength = 0, Buffer = None\<rparr>)"

definition RtlInitAnsiStringEx :: "ANSI_STRING \<Rightarrow> u8 list option \<Rightarrow> (NTSTATUS \<times> ANSI_STRING) option" where
  "RtlInitAnsiStringEx DestinationString SourceString =
     (case SourceString of
       Some s \<Rightarrow> do {
         len \<leftarrow> strlen s;
         if len + 1 > 0xffff then Some (STATUS_NAME_TOO_LONG, DestinationString)
         else Some (STATUS_SUCCESS,
           \<lparr>Length = of_nat len, MaximumLength = of_nat (len + 1), Buffer = SourceString\<rparr>)
       }
     | None \<Rightarrow> Some (STATUS_SUCCESS, \<lparr>Length = 0, MaximumLength = 0, Buffer = None\<rparr>))"

text \<open>What is handed to \<open>RtlFreeHeap\<close>, if anything, and the string afterwards.\<close>

definition RtlFreeUnicodeString :: "'c counted \<Rightarrow> 'c list option \<times> 'c counted" where
  "RtlFreeUnicodeString s =
     (case Buffer s of
        Some b \<Rightarrow> (Some b, \<lparr>Length = 0, MaximumLength = 0, Buffer = None\<rparr>)
      | None \<Rightarrow> (None, s))"

definition RtlFreeAnsiString :: "'c counted \<Rightarrow> 'c list option \<times> 'c counted" where
  "RtlFreeAnsiString = RtlFreeUnicodeString"

section \<open>Conversion\<close>

definition RtlUnicodeStringToAnsiString ::
  "u8 \<Rightarrow> ANSI_STRING \<Rightarrow> UNICODE_STRING \<Rightarrow> bool \<Rightarrow> (NTSTATUS \<times> ANSI_STRING) option" where
  "RtlUnicodeStringToAnsiString junk DestinationString SourceString AllocateDestinationString = do {
     let len = Length SourceString div 2;
     let alloc = MaximumLength SourceString div 2;
     let d = (if AllocateDestinationString
              then DestinationString\<lparr>Buffer := Some (replicate (unat alloc) junk)\<rparr> else DestinationString);
     let d = d\<lparr>Length := len, MaximumLength := alloc\<rparr>;
     d \<leftarrow> map_chars (\<lambda>c. ucast (widetoa c)) 0 (unat len) SourceString d;
     d \<leftarrow> put_char d (unat len) 0;
     Some (STATUS_SUCCESS, d)
   }"

text \<open>A narrow character is signed.\<close>

definition RtlAnsiStringToUnicodeString ::
  "u16 \<Rightarrow> UNICODE_STRING \<Rightarrow> ANSI_STRING \<Rightarrow> bool \<Rightarrow> (NTSTATUS \<times> UNICODE_STRING) option" where
  "RtlAnsiStringToUnicodeString junk DestinationString SourceString AllocateDestinationString = do {
     let len = Length SourceString;
     let alloc = MaximumLength SourceString * 2;
     let d = (if AllocateDestinationString
              then DestinationString\<lparr>Buffer := Some (replicate (unat alloc div 2) junk)\<rparr> else DestinationString);
     let d = d\<lparr>Length := len * 2, MaximumLength := alloc\<rparr>;
     d \<leftarrow> map_chars scast 0 (unat len) SourceString d;
     d \<leftarrow> put_char d (unat len) 0;
     Some (STATUS_SUCCESS, d)
   }"

definition RtlCreateUnicodeStringFromAsciiz ::
  "u16 \<Rightarrow> UNICODE_STRING \<Rightarrow> u8 list option \<Rightarrow> (bool \<times> UNICODE_STRING) option" where
  "RtlCreateUnicodeStringFromAsciiz junk DestinationString SourceString = do {
     ansi \<leftarrow> RtlInitAnsiString SourceString;
     (st, d) \<leftarrow> RtlAnsiStringToUnicodeString junk DestinationString ansi True;
     Some (st = 0, d)
   }"

text \<open>The character, and how far the pointer moves.\<close>

definition RtlAnsiCharToUnicodeChar :: "u8 \<Rightarrow> u16 \<times> nat" where
  "RtlAnsiCharToUnicodeChar c = (if c AND 0x80 = 0 then ucast c else 0x20, 1)"

fun upcase_chars :: "nat \<Rightarrow> nat \<Rightarrow> UNICODE_STRING \<Rightarrow> UNICODE_STRING \<Rightarrow> UNICODE_STRING option" where
  "upcase_chars i 0 src dest = Some dest"
| "upcase_chars i (Suc n) src dest = do {
     c \<leftarrow> chars_of src i;
     u \<leftarrow> toupperW c;
     dest \<leftarrow> put_char dest i u;
     upcase_chars (i + 1) n src dest
   }"

definition RtlUpcaseUnicodeString ::
  "u16 \<Rightarrow> UNICODE_STRING \<Rightarrow> UNICODE_STRING \<Rightarrow> bool \<Rightarrow> (NTSTATUS \<times> UNICODE_STRING) option" where
  "RtlUpcaseUnicodeString junk DestinationString SourceString AllocateDestinationString =
     (let len = Length SourceString in
      if \<not> AllocateDestinationString \<and> len > MaximumLength DestinationString
      then Some (STATUS_BUFFER_OVERFLOW, DestinationString)
      else do {
        let d = (if AllocateDestinationString
                 then DestinationString\<lparr>MaximumLength := len, Buffer := Some (replicate (unat len div 2) junk)\<rparr>
                 else DestinationString);
        d \<leftarrow> upcase_chars 0 (unat len div 2) SourceString d;
        Some (STATUS_SUCCESS, d\<lparr>Length := len\<rparr>)
      })"

fun widen :: "nat \<Rightarrow> nat \<Rightarrow> u8 list \<Rightarrow> u16 list \<Rightarrow> u16 list option" where
  "widen i 0 s d = Some d"
| "widen i (Suc n) s d = do { c \<leftarrow> rd s i; d \<leftarrow> wr d i (scast c); widen (i + 1) n s d }"

text \<open>The status, the destination, and what is stored in \<^verbatim>\<open>*BytesInUnicodeString\<close>, if anything.\<close>

definition RtlMultiByteToUnicodeN ::
  "u16 list \<Rightarrow> u32 \<Rightarrow> u8 list \<Rightarrow> u32 \<Rightarrow> (NTSTATUS \<times> u16 list \<times> u32 option) option" where
  "RtlMultiByteToUnicodeN UnicodeString MaxBytes MultiByteString Bytes =
     (let stop = min (unat MaxBytes div 2) (unat Bytes) in
      if stop = 0 then do { d \<leftarrow> wr UnicodeString 0 0; Some (STATUS_SUCCESS, d, None) }
      else do {
        d \<leftarrow> widen 0 stop MultiByteString UnicodeString;
        Some (STATUS_SUCCESS, d, Some (of_nat stop * 2))
      })"

section \<open>Comparison\<close>

fun same_prefix :: "bool \<Rightarrow> nat \<Rightarrow> nat \<Rightarrow> UNICODE_STRING \<Rightarrow> UNICODE_STRING \<Rightarrow> bool option" where
  "same_prefix ci i 0 s t = Some True"
| "same_prefix ci i (Suc n) s t = do {
     a \<leftarrow> chars_of s i;
     b \<leftarrow> chars_of t i;
     if wcmp a b ci then same_prefix ci (i + 1) n s t else Some False
   }"

text \<open>Both strings are converted for the log, after the comparison.\<close>

definition RtlPrefixUnicodeString :: "UNICODE_STRING \<Rightarrow> UNICODE_STRING \<Rightarrow> bool \<Rightarrow> bool option" where
  "RtlPrefixUnicodeString String1 String2 CaseInSensitive = do {
     res \<leftarrow> (if Length String1 \<le> Length String2
            then same_prefix CaseInSensitive 0 (unat (Length String1) div 2) String1 String2
            else Some False);
     _ \<leftarrow> US2STR (Buffer String1) (Length String1);
     _ \<leftarrow> US2STR (Buffer String2) (Length String2);
     Some res
   }"

definition lower8 :: "u8 \<Rightarrow> u8" where
  "lower8 c = (if 0x41 \<le> c \<and> c \<le> 0x5a then c + 32 else c)"

text \<open>Whether \<^verbatim>\<open>strcasecmp\<close> returns 0.\<close>

definition same_text :: "u8 list \<Rightarrow> u8 list \<Rightarrow> bool" where
  "same_text a b \<longleftrightarrow> map lower8 a = map lower8 b"

definition RtlEqualUnicodeString :: "UNICODE_STRING \<Rightarrow> UNICODE_STRING \<Rightarrow> bool \<Rightarrow> bool option" where
  "RtlEqualUnicodeString String1 String2 CaseInSensitive = do {
     a \<leftarrow> US2STR (Buffer String1) (Length String1);
     b \<leftarrow> US2STR (Buffer String2) (Length String2);
     a \<leftarrow> narrow a;
     b \<leftarrow> narrow b;
     Some (if CaseInSensitive then same_text a b else a = b)
   }"

section \<open>Paths and environment\<close>

text \<open>\<^verbatim>\<open>memcpy\<close> of \<open>n\<close> characters from one buffer to the start of another.\<close>

definition copy_chars :: "'c list \<Rightarrow> 'c list \<Rightarrow> nat \<Rightarrow> 'c list option" where
  "copy_chars d s n = (if n \<le> length s \<and> n \<le> length d then Some (take n s @ drop n d) else None)"

text \<open>The same with a number of bytes: an odd one copies the low byte of one more character.\<close>

definition copy_bytes :: "u16 list \<Rightarrow> u16 list \<Rightarrow> nat \<Rightarrow> u16 list option" where
  "copy_bytes d s n = do {
     d \<leftarrow> copy_chars d s (n div 2);
     if even n then Some d
     else do { c \<leftarrow> rd s (n div 2); e \<leftarrow> rd d (n div 2); wr d (n div 2) (e AND 0xff00 OR c AND 0xff) }
   }"

text \<open>\<^verbatim>\<open>Buffer[dplen_inb - 1]\<close> indexes characters with a number of bytes.\<close>

definition RtlDosPathNameToNtPathName_U :: "u16 \<Rightarrow> u16 list \<Rightarrow> (bool \<times> UNICODE_STRING) option" where
  "RtlDosPathNameToNtPathName_U junk dos_path = do {
     n \<leftarrow> wcslen dos_path;
     let dplen_inb = n * 2;
     _ \<leftarrow> RtlInitUnicodeString None;
     b \<leftarrow> copy_chars (replicate (n + 1) junk) dos_path (n + 1);
     b \<leftarrow> wr b 1 0x3f;
     b \<leftarrow> (if dplen_inb = 0 then None else wr b (dplen_inb - 1) 0);
     let ntpath = \<lparr>Length = of_nat dplen_inb, MaximumLength = of_nat dplen_inb + 2, Buffer = Some b\<rparr>;
     _ \<leftarrow> WSTR2STR (Some dos_path);
     _ \<leftarrow> US2STR (Buffer ntpath) (Length ntpath);
     Some (True, ntpath)
   }"

definition RtlDosPathNameToNtPathName_U_WithStatus ::
  "u16 \<Rightarrow> u16 list \<Rightarrow> (NTSTATUS \<times> UNICODE_STRING) option" where
  "RtlDosPathNameToNtPathName_U_WithStatus junk dos_path = do {
     (ok, ntpath) \<leftarrow> RtlDosPathNameToNtPathName_U junk dos_path;
     Some (if ok then STATUS_SUCCESS else STATUS_OBJECT_NAME_INVALID, ntpath)
   }"

text \<open>The status, \<^verbatim>\<open>*BufferLengthOut\<close> and the target.\<close>

definition RtlGetPersistedStateLocation ::
  "u16 list option \<Rightarrow> u32 \<Rightarrow> u16 list option \<Rightarrow> u32 \<Rightarrow> (NTSTATUS \<times> u32 option \<times> u16 list option) option" where
  "RtlGetPersistedStateLocation DefaultPath StateLocation TargetPath BufferLengthInBytes =
     (if StateLocation > 1 then Some (STATUS_INVALID_PARAMETER, None, TargetPath)
      else case DefaultPath of
        None \<Rightarrow> Some (STATUS_OBJECT_NAME_NOT_FOUND, None, TargetPath)
      | Some p \<Rightarrow> do {
          n \<leftarrow> wcslen p;
          let bytes_needed = (of_nat ((n + 1) * 2) :: u32);
          case TargetPath of
            None \<Rightarrow> Some (STATUS_BUFFER_OVERFLOW, Some bytes_needed, None)
          | Some d \<Rightarrow>
              if BufferLengthInBytes < bytes_needed then Some (STATUS_BUFFER_OVERFLOW, Some bytes_needed, TargetPath)
              else do {
                d \<leftarrow> copy_bytes d p (unat bytes_needed);
                Some (STATUS_SUCCESS, Some bytes_needed, Some d)
              }
        })"

definition wide_lit :: "string \<Rightarrow> u16 list" where
  "wide_lit s = map of_char s @ [0]"

text \<open>\<open>/\<close> stands for a backslash in the literals of paths.\<close>

definition wide_path :: "string \<Rightarrow> u16 list" where
  "wide_path s = map (\<lambda>c. if c = CHR ''/'' then 0x5c else of_char c) s @ [0]"

definition systemroot :: "u16 list" where "systemroot = wide_path ''c:/windows''"

text \<open>The status, the destination and what is stored in \<^verbatim>\<open>*DestinationBufferLength\<close>.\<close>

definition RtlExpandEnvironmentStrings_U ::
  "UNICODE_STRING option \<Rightarrow> UNICODE_STRING option \<Rightarrow> (NTSTATUS \<times> UNICODE_STRING option \<times> u32 option) option" where
  "RtlExpandEnvironmentStrings_U SourceString DestinationString =
     (case (SourceString, DestinationString) of
        (Some src, Some dest) \<Rightarrow> do {
          a \<leftarrow> US2STR (Buffer src) (Length src);
          a \<leftarrow> narrow a;
          d \<leftarrow> Buffer dest;
          (d, len) \<leftarrow> (if same_text a (narrow_lit ''%SystemRoot%'') then do {
              d \<leftarrow> copy_chars d systemroot (length systemroot);
              Some (d, of_nat (2 * length systemroot - 2))
            }
            else do {
              s \<leftarrow> Buffer src;
              d \<leftarrow> copy_bytes d s (unat (Length src));
              Some (d, Length src)
            });
          Some (STATUS_SUCCESS, Some (dest\<lparr>Buffer := Some d, Length := len\<rparr>), Some (ucast len))
        }
      | _ \<Rightarrow> Some (STATUS_ACCESS_VIOLATION, DestinationString, None))"

definition RtlGetCurrentDirectory_U :: "u16 list \<Rightarrow> (u32 \<times> u16 list) option" where
  "RtlGetCurrentDirectory_U b = do { b \<leftarrow> wr b 0 0x2e; b \<leftarrow> wr b 1 0; Some (1, b) }"

section \<open>Process parameters\<close>

text \<open>The buffers are offsets from the block until they are normalised to addresses; 0 is null.\<close>

record process_parameters =
  param_flags :: u32
  param_buffers :: "u64 list"

definition RTL_USER_PROCESS_PARAMETERS_NORMALIZED :: u32 where
  "RTL_USER_PROCESS_PARAMETERS_NORMALIZED = 0x01"

definition NORMALIZE :: "u64 \<Rightarrow> u64 \<Rightarrow> u64" where
  "NORMALIZE x addr = (if x \<noteq> 0 then x + addr else x)"

definition RtlNormalizeProcessParams :: "u64 \<Rightarrow> process_parameters option \<Rightarrow> process_parameters option" where
  "RtlNormalizeProcessParams addr Params =
     (case Params of
        None \<Rightarrow> None
      | Some p \<Rightarrow>
          if param_flags p AND RTL_USER_PROCESS_PARAMETERS_NORMALIZED = 0 then
            Some (p\<lparr>param_buffers := map (\<lambda>b. NORMALIZE b addr) (param_buffers p),
                    param_flags := param_flags p OR RTL_USER_PROCESS_PARAMETERS_NORMALIZED\<rparr>)
          else Some p)"

text \<open>The two fields of the thread block.\<close>

definition RtlSetLastWin32ErrorAndNtStatusFromNtStatus :: "NTSTATUS \<Rightarrow> NTSTATUS \<times> u32" where
  "RtlSetLastWin32ErrorAndNtStatusFromNtStatus st = (st, st)"

text \<open>The status and \<^verbatim>\<open>*Enabled\<close>.\<close>

definition RtlAdjustPrivilege :: "bool \<Rightarrow> NTSTATUS \<times> bool" where
  "RtlAdjustPrivilege Enable = (STATUS_SUCCESS, Enable)"

definition RtlGetSystemBootStatus :: "u32 \<Rightarrow> NTSTATUS" where
  "RtlGetSystemBootStatus InformationClass = STATUS_UNSUCCESSFUL"

definition RtlSetSystemBootStatus :: "u32 \<Rightarrow> NTSTATUS" where
  "RtlSetSystemBootStatus InformationClass = STATUS_SUCCESS"

end
