(* ===== verification/Unicode_Strings_Spec.thy ===== *)
theory Unicode_Strings_Spec
  imports Unicode_Strings
begin

text \<open>
  The counted strings: conversion there and back, the prefix test, the copy of a default path;
  and where the routines leave their buffers.
\<close>

section \<open>Copying loops\<close>

lemma chars_of_Some: "Buffer s = Some b \<Longrightarrow> chars_of s i = rd b i"
  by (simp add: chars_of_def)

lemma put_char_Some:
  "Buffer s = Some b \<Longrightarrow> i < length b \<Longrightarrow> put_char s i c = Some (s\<lparr>Buffer := Some (b[i := c])\<rparr>)"
  by (simp add: put_char_def faults)

lemma put_char_None: "Buffer s = Some b \<Longrightarrow> length b \<le> i \<Longrightarrow> put_char s i c = None"
  by (simp add: put_char_def faults)

lemma take_Suc_update: "i < length d \<Longrightarrow> take (Suc i) (d[i := x]) = take i d @ [x]"
  by (induction d arbitrary: i) (auto split: nat.splits)

lemma map_chars_exact:
  assumes "Buffer src = Some s" "Buffer dest = Some d" "i + n \<le> length s" "i + n \<le> length d"
  shows "map_chars f i n src dest =
    Some (dest\<lparr>Buffer := Some (take i d @ map f (take n (drop i s)) @ drop (i + n) d)\<rparr>)"
  using assms
proof (induction n arbitrary: i dest d)
  case (Suc n)
  let ?d = "d[i := f (s ! i)]"
  have i: "i < length d" "i < length s" using Suc.prems by simp_all
  have "map_chars f i (Suc n) src dest = map_chars f (i + 1) n src (dest\<lparr>Buffer := Some ?d\<rparr>)"
    using Suc.prems(1,2) i by (simp add: chars_of_Some put_char_Some faults)
  also have "\<dots> = Some (dest\<lparr>Buffer := Some (take (i + 1) ?d @ map f (take n (drop (i + 1) s)) @ drop (i + 1 + n) ?d)\<rparr>)"
    using Suc.IH [where dest = "dest\<lparr>Buffer := Some ?d\<rparr>" and d = ?d and i = "i + 1"] Suc.prems by simp
  also have "take (i + 1) ?d = take i d @ [f (s ! i)]"
    using take_Suc_update [OF i(1)] by simp
  also have "drop (i + 1 + n) ?d = drop (i + Suc n) d" by simp
  also have "(take i d @ [f (s ! i)]) @ map f (take n (drop (i + 1) s)) @ drop (i + Suc n) d =
      take i d @ map f (take (Suc n) (drop i s)) @ drop (i + Suc n) d"
    using Cons_nth_drop_Suc [OF i(2), symmetric] by simp
  finally show ?case .
qed (simp add: append_take_drop_id)

lemma ucast_widetoa_scast [simp]: "ucast (widetoa (scast c)) = c" for c :: u8
proof (rule bit_word_eqI)
  fix n assume "n < LENGTH(8)"
  then show "bit (ucast (widetoa (scast c)) :: u8) n \<longleftrightarrow> bit c n"
    using bit_mask_iff [of 8 n, where 'a = u16]
    by (auto simp: widetoa_def bit_simps mask_eq_exp_minus_1 less_Suc_eq numeral_eq_Suc)
qed

section \<open>Upper case\<close>

lemma upcase_chars_map: "upcase_chars i n src = map_chars upper_case i n src"
proof (induction n arbitrary: i)
  case (Suc n)
  show ?case by (rule ext) (simp add: toupperW_total Suc.IH)
qed (simp add: fun_eq_iff)

text \<open>
  C37. A string is converted to upper case character by character.  With a new buffer the destination is
  the converted characters in a block of their size, whatever it was before; into the caller's buffer they go
  when \<open>MaximumLength\<close> allows it, the rest of the buffer stays, and otherwise the answer is
  \<open>STATUS_BUFFER_OVERFLOW\<close> and the destination is as before.  The upper case of the first 256 characters is that of Unicode
  (\<open>latin_upper\<close>) and the characters from U+3000 to U+A5FF stay as they are.
\<close>

theorem RtlUpcaseUnicodeString_upcases:
  assumes "Buffer src = Some s" "n = unat (Length src) div 2" "n \<le> length s"
  shows "RtlUpcaseUnicodeString junk dest src True =
      Some (STATUS_SUCCESS, dest\<lparr>Length := Length src, MaximumLength := Length src, Buffer := Some (map upper_case (take n s))\<rparr>)
    \<and> (MaximumLength dest < Length src \<longrightarrow> RtlUpcaseUnicodeString junk dest src False = Some (STATUS_BUFFER_OVERFLOW, dest))
    \<and> (\<forall>d. Buffer dest = Some d \<and> n \<le> length d \<and> Length src \<le> MaximumLength dest \<longrightarrow>
        RtlUpcaseUnicodeString junk dest src False =
          Some (STATUS_SUCCESS, dest\<lparr>Length := Length src, Buffer := Some (map upper_case (take n s) @ drop n d)\<rparr>))
    \<and> (\<forall>c. (unat c < 256 \<longrightarrow> upper_case c = latin_upper c) \<and> (0x3000 \<le> c \<and> c \<le> 0xa5ff \<longrightarrow> upper_case c = c))"
  using assms
  by (simp add: RtlUpcaseUnicodeString_def upcase_chars_map map_chars_exact not_less [symmetric] Let_def upper_case_latin upper_case_cjk)

theorem RtlUpcaseUnicodeString_upcases_witness:
  "RtlUpcaseUnicodeString 0 \<lparr>Length = 0, MaximumLength = 6, Buffer = Some [1, 2, 3]\<rparr>
     \<lparr>Length = 4, MaximumLength = 4, Buffer = Some [0xe9, 0x3044]\<rparr> False
   = Some (STATUS_SUCCESS, \<lparr>Length = 4, MaximumLength = 6, Buffer = Some [0xc9, 0x3044, 3]\<rparr>) \<and>
   RtlUpcaseUnicodeString 0 \<lparr>Length = 0, MaximumLength = 2, Buffer = None\<rparr>
     \<lparr>Length = 4, MaximumLength = 4, Buffer = Some [0xe9, 0x3044]\<rparr> True
   = Some (STATUS_SUCCESS, \<lparr>Length = 4, MaximumLength = 4, Buffer = Some [0xc9, 0x3044]\<rparr>)"
proof -
  note T = RtlUpcaseUnicodeString_upcases [of "\<lparr>Length = 4, MaximumLength = 4, Buffer = Some [0xe9, 0x3044]\<rparr>" "[0xe9, 0x3044]" 2 0]
  have "upper_case 0xe9 = 0xc9" "upper_case 0x3044 = 0x3044" using T by (simp_all add: latin_upper_def)
  then show ?thesis
    using T [of "\<lparr>Length = 0, MaximumLength = 6, Buffer = Some [1, 2, 3]\<rparr>"] T [of "\<lparr>Length = 0, MaximumLength = 2, Buffer = None\<rparr>"]
    by simp
qed

section \<open>There and back\<close>

text \<open>A loop that maps more characters than the destination has room for writes behind it.\<close>

lemma map_chars_None:
  "Buffer dest = Some d \<Longrightarrow> i \<le> length d \<Longrightarrow> length d < i + n \<Longrightarrow> map_chars f i n src dest = None"
proof (induction n arbitrary: i dest d)
  case (Suc n)
  show ?case
  proof (cases "i < length d")
    case True
    then show ?thesis using Suc.IH [of _ "d[i := _]" "i + 1"] Suc.prems by (simp add: put_char_Some split: option.splits bind_split)
  next
    case False
    then show ?thesis using Suc.prems by (simp add: put_char_None split: bind_split)
  qed
qed simp

text \<open>
  C39. Converting a narrow string whose \<open>MaximumLength\<close> is below \<open>0x8000\<close>, with room for its terminator,
  to a wide one and back restores its bytes, whatever they are, with the terminator behind them, and its two lengths.
  From \<open>0x8000\<close> on twice \<open>MaximumLength\<close> wraps in 16 bits: the block is too small, and a string that does not fit
  into what is left is written behind its end.
\<close>

theorem RtlAnsiStringToUnicodeString_roundtrip:
  assumes "Buffer a = Some s" "unat (Length a) < unat (MaximumLength a)" "unat (Length a) \<le> length s"
  shows "(MaximumLength a < 0x8000 \<longrightarrow>
      (\<exists>u b. RtlAnsiStringToUnicodeString junk d a True = Some (STATUS_SUCCESS, u) \<and>
        RtlUnicodeStringToAnsiString junk' e u True = Some (STATUS_SUCCESS, b) \<and>
        Length b = Length a \<and> MaximumLength b = MaximumLength a \<and>
        (\<exists>t. Buffer b = Some t \<and> take (unat (Length a) + 1) t = take (unat (Length a)) s @ [0]))) \<and>
    (0x8000 \<le> MaximumLength a \<and> unat (MaximumLength a) - 0x8000 \<le> unat (Length a) \<longrightarrow>
      RtlAnsiStringToUnicodeString junk d a True = None)"
proof (intro conjI impI)
  assume small: "MaximumLength a < 0x8000"
  let ?l = "unat (Length a)" and ?m = "unat (MaximumLength a)"
  have m: "?m < 0x8000" using small by (simp add: word_less_nat_alt)
  have m2: "unat (MaximumLength a * 2) = ?m * 2" and l2: "unat (Length a * 2) = ?l * 2"
    using m assms(2) by (simp_all add: unat_word_ariths)
  have mh: "MaximumLength a * 2 div 2 = MaximumLength a" and lh: "Length a * 2 div 2 = Length a"
    by (simp_all add: word_unat_eq_iff unat_div_distrib m2 l2)
  let ?w = "map scast (take ?l s) @ replicate (?m - ?l) junk"
  let ?u = "d\<lparr>Length := Length a * 2, MaximumLength := MaximumLength a * 2, Buffer := Some (?w[?l := 0])\<rparr>"
  let ?t = "map (\<lambda>c. ucast (widetoa c)) (map scast (take ?l s)) @ replicate (?m - ?l) junk'"
  let ?b = "e\<lparr>Length := Length a, MaximumLength := MaximumLength a, Buffer := Some (?t[?l := 0])\<rparr>"
  have u: "RtlAnsiStringToUnicodeString junk d a True = Some (STATUS_SUCCESS, ?u)"
    using assms
    by (simp add: RtlAnsiStringToUnicodeString_def m2 map_chars_exact put_char_Some Let_def)
  have b: "RtlUnicodeStringToAnsiString junk' e ?u True = Some (STATUS_SUCCESS, ?b)"
    using assms
    by (simp add: RtlUnicodeStringToAnsiString_def mh lh map_chars_exact put_char_Some Let_def)
  have "?t[?l := 0] = take ?l s @ 0 # replicate (?m - ?l - 1) junk'"
    using assms by (cases "?m - ?l") (simp_all add: list_update_append comp_def)
  then have "take (?l + 1) (?t[?l := 0]) = take ?l s @ [0]" using assms(3) by simp
  with u b show "\<exists>u b. RtlAnsiStringToUnicodeString junk d a True = Some (STATUS_SUCCESS, u) \<and>
        RtlUnicodeStringToAnsiString junk' e u True = Some (STATUS_SUCCESS, b) \<and>
        Length b = Length a \<and> MaximumLength b = MaximumLength a \<and>
        (\<exists>t. Buffer b = Some t \<and> take (unat (Length a) + 1) t = take (unat (Length a)) s @ [0])"
    by (intro exI [of _ ?u] exI [of _ ?b]) simp
next
  let ?l = "unat (Length a)" and ?m = "unat (MaximumLength a)"
  assume "0x8000 \<le> MaximumLength a \<and> ?m - 0x8000 \<le> ?l"
  then have m: "0x8000 \<le> ?m" "?m - 0x8000 \<le> ?l" by (simp_all add: word_le_nat_alt)
  have "?m < 0x10000" using unsigned_less [of "MaximumLength a"] by simp
  moreover obtain k where k: "?m = 0x8000 + k" using m(1) le_Suc_ex by blast
  ultimately have "unat (MaximumLength a * 2) = 2 * k" by (simp add: unat_word_ariths mod_if)
  then have m2: "unat (MaximumLength a * 2) div 2 = ?m - 0x8000" by (simp add: k)
  show "RtlAnsiStringToUnicodeString junk d a True = None"
  proof (cases "?m - 0x8000 < ?l")
    case True
    then show ?thesis by (simp add: RtlAnsiStringToUnicodeString_def m2 Let_def map_chars_None)
  next
    case False
    with m(2) have "?m - 0x8000 = ?l" by simp
    then show ?thesis using assms(1,3)
      by (simp add: RtlAnsiStringToUnicodeString_def m2 Let_def map_chars_exact put_char_None)
  qed
qed

theorem RtlAnsiStringToUnicodeString_roundtrip_witness:
  "\<exists>u b. RtlAnsiStringToUnicodeString 7 \<lparr>Length = 0, MaximumLength = 0, Buffer = None\<rparr>
      \<lparr>Length = 2, MaximumLength = 4, Buffer = Some [0x41, 0xe9, 0, 0]\<rparr> True = Some (STATUS_SUCCESS, u) \<and>
    RtlUnicodeStringToAnsiString 9 \<lparr>Length = 0, MaximumLength = 0, Buffer = None\<rparr> u True = Some (STATUS_SUCCESS, b) \<and>
    Length b = 2 \<and> MaximumLength b = 4 \<and> (\<exists>t. Buffer b = Some t \<and> take 3 t = [0x41, 0xe9, 0])"
  using RtlAnsiStringToUnicodeString_roundtrip
    [of "\<lparr>Length = 2, MaximumLength = 4, Buffer = Some [0x41, 0xe9, 0, 0]\<rparr>" "[0x41, 0xe9, 0, 0]" 7
        "\<lparr>Length = 0, MaximumLength = 0, Buffer = None\<rparr>" 9 "\<lparr>Length = 0, MaximumLength = 0, Buffer = None\<rparr>"]
  by simp

section \<open>Prefixes\<close>

lemma same_prefix_exact:
  assumes "Buffer s = Some a" "Buffer t = Some b" "i + n \<le> length a" "i + n \<le> length b"
  shows "same_prefix ci i n s t = Some (list_all2 (\<lambda>x y. wcmp x y ci) (take n (drop i a)) (take n (drop i b)))"
  using assms
proof (induction n arbitrary: i)
  case (Suc n)
  have "drop i a = a ! i # drop (i + 1) a" "drop i b = b ! i # drop (i + 1) b"
    using Suc.prems by (simp_all add: Cons_nth_drop_Suc)
  with Suc show ?case by (simp add: chars_of_Some faults)
qed simp

lemma oem_copy_defined: "n \<le> length s \<Longrightarrow> i + n \<le> length d \<Longrightarrow> \<exists>e. oem_copy n d i s = Some e \<and> length e = length d"
proof (induction n arbitrary: d i s)
  case (Suc n)
  then obtain c t where "s = c # t" by (cases s) auto
  with Suc.prems Suc.IH [of t "i + 1" "d[i := ucast (widetoa c)]"] show ?case by (auto simp: faults)
qed simp

lemma length_varconv: "length varconv = 1024"
  by (simp add: varconv_def)

lemma US2STR_defined:
  assumes "buf = Some b" "unat len div 2 < length b" "unat len div 2 < 1024"
  shows "\<exists>d. US2STR buf len = Some d \<and> length d = 1024"
proof -
  let ?n = "min (unat len div 2) 1024"
  have u: "unat (ucast len :: u32) = unat len"
    by (simp add: unsigned_ucast_eq take_bit_nat_eq_self_iff less_trans [OF unsigned_less])
  obtain e where "oem_copy (?n + 1) varconv 0 b = Some e" "length e = 1024"
    using oem_copy_defined [of "?n + 1" b 0 varconv] assms by (auto simp: length_varconv)
  then show ?thesis using assms
    by (auto simp: US2STR_def RtlUnicodeToOemN_def u Let_def faults length_varconv)
qed

text \<open>
  For strings shorter than the conversion buffer of the log, with a character behind each,
  \<open>RtlPrefixUnicodeString\<close> says whether the first is not longer and its characters match those
  the second starts with, ignoring case where asked.
\<close>

theorem RtlPrefixUnicodeString_exact:
  assumes "Buffer s = Some a" "Buffer t = Some b"
    "unat (Length s) div 2 < length a" "unat (Length t) div 2 < length b"
    "unat (Length s) div 2 < 1024" "unat (Length t) div 2 < 1024"
  shows "RtlPrefixUnicodeString s t ci =
    Some (Length s \<le> Length t \<and>
      list_all2 (\<lambda>x y. wcmp x y ci) (take (unat (Length s) div 2) a) (take (unat (Length s) div 2) b))"
proof -
  obtain d e where "US2STR (Some a) (Length s) = Some d" "US2STR (Some b) (Length t) = Some e"
    using US2STR_defined [of "Some a" a "Length s"] US2STR_defined [of "Some b" b "Length t"] assms by auto
  moreover have "unat (Length s) div 2 \<le> length b" if "Length s \<le> Length t"
    using that assms(4) div_le_mono [of "unat (Length s)" "unat (Length t)" 2] by (simp add: word_le_nat_alt)
  ultimately show ?thesis using assms
    by (simp add: RtlPrefixUnicodeString_def same_prefix_exact)
qed

lemma RtlPrefixUnicodeString_exact_witness:
  "RtlPrefixUnicodeString \<lparr>Length = 2, MaximumLength = 4, Buffer = Some [0x41, 0]\<rparr>
     \<lparr>Length = 4, MaximumLength = 6, Buffer = Some [0x61, 0x62, 0]\<rparr> True = Some True"
  using RtlPrefixUnicodeString_exact
    [of "\<lparr>Length = 2, MaximumLength = 4, Buffer = Some [0x41, 0]\<rparr>" "[0x41, 0]"
        "\<lparr>Length = 4, MaximumLength = 6, Buffer = Some [0x61, 0x62, 0]\<rparr>" "[0x61, 0x62, 0]" True]
  by (simp add: wcmp_def widetol_def widetoa_def tolower_def)

section \<open>The default path\<close>

lemma wcslen_less: "wcslen s = Some n \<Longrightarrow> n < length s"
  by (induction s arbitrary: n) (auto split: if_splits)

text \<open>
  \<open>RtlGetPersistedStateLocation\<close> reports the bytes the default path needs with its
  terminator; if the target has as many it receives the path and nothing behind it changes, and
  otherwise the answer is \<open>STATUS_BUFFER_OVERFLOW\<close> and the target is untouched.
\<close>

theorem RtlGetPersistedStateLocation_copies:
  assumes "wcslen p = Some n" "n < 0x10000000" "StateLocation \<le> 1" "unat room div 2 \<le> length d"
  shows "RtlGetPersistedStateLocation (Some p) StateLocation (Some d) room =
    (if unat room < (n + 1) * 2 then Some (STATUS_BUFFER_OVERFLOW, Some (of_nat ((n + 1) * 2)), Some d)
     else Some (STATUS_SUCCESS, Some (of_nat ((n + 1) * 2)), Some (take (n + 1) p @ drop (n + 1) d)))"
proof -
  let ?bytes = "of_nat ((n + 1) * 2) :: u32"
  have u: "unat ?bytes = (n + 1) * 2"
    by (rule unat_of_nat_u32) (use assms(2) in simp)
  have lt: "room < ?bytes \<longleftrightarrow> unat room < (n + 1) * 2"
    by (simp only: word_less_nat_alt u)
  have p: "n + 1 \<le> length p" using wcslen_less [OF assms(1)] by simp
  have "copy_bytes d p (unat ?bytes) = Some (take (n + 1) p @ drop (n + 1) d)" if "\<not> unat room < (n + 1) * 2"
  proof -
    have "n + 1 \<le> length d" using that assms(4) div_le_mono [of "(n + 1) * 2" "unat room" 2] by simp
    then show ?thesis unfolding copy_bytes_def u using p by (simp add: copy_chars_def)
  qed
  moreover have "(1 < StateLocation) = False" using assms(3) by simp
  ultimately show ?thesis
    by (simp only: RtlGetPersistedStateLocation_def Let_def assms(1) Option.bind.simps option.case if_False lt split: if_split) auto
qed

lemma RtlGetPersistedStateLocation_copies_witness:
  "RtlGetPersistedStateLocation (Some [0x61, 0]) 1 (Some [1, 2, 3]) 6 = Some (STATUS_SUCCESS, Some 4, Some [0x61, 0, 3])"
  using RtlGetPersistedStateLocation_copies [of "[0x61, 0]" 1 1 6 "[1, 2, 3]"] by simp

section \<open>Deviations\<close>

text \<open>The terminator of a converted string lands behind a block that has no room for it.\<close>

lemma RtlUnicodeStringToAnsiString_overflows:
  assumes "Buffer s = Some b" "MaximumLength s = Length s" "unat (Length s) div 2 \<le> length b"
  shows "RtlUnicodeStringToAnsiString junk d s True = None"
  using assms
  by (simp add: RtlUnicodeStringToAnsiString_def map_chars_exact unat_div_distrib put_char_None Let_def)

text \<open>Every path of two characters or more is written behind its block.\<close>

lemma RtlDosPathNameToNtPathName_U_overflows:
  assumes "wcslen p = Some n" "2 \<le> n"
  shows "RtlDosPathNameToNtPathName_U junk p = None"
proof -
  have "wr (take (n + 1) p @ []) 1 0x3f = Some ((take (n + 1) p)[1 := 0x3f])"
    using wcslen_less [OF assms(1)] assms(2) by (simp add: faults)
  moreover have "wr ((take (n + 1) p)[1 := 0x3f]) (n * 2 - 1) 0 = None"
    using assms(2) by (auto simp: wr_def)
  ultimately show ?thesis
    using assms wcslen_less [OF assms(1)]
    by (auto simp: RtlDosPathNameToNtPathName_U_def copy_chars_def bind_eq_None_conv Let_def split: option.splits)
qed

text \<open>Strings of equal characters compare unequal when the memory behind them differs.\<close>

lemma RtlEqualUnicodeString_reads_behind:
  "RtlEqualUnicodeString \<lparr>Length = 2, MaximumLength = 2, Buffer = Some [0x61, 0x62]\<rparr>
     \<lparr>Length = 2, MaximumLength = 2, Buffer = Some [0x61, 0x63]\<rparr> False = Some False"
  by code_simp

text \<open>A wide string of 1024 characters overflows the conversion buffer of the log.\<close>

lemma oem_copy_overflow: "length d < i + n \<Longrightarrow> i \<le> length d \<Longrightarrow> oem_copy n d i s = None"
proof (induction n arbitrary: d i s)
  case (Suc n)
  then show ?case
    by (cases s; cases "i < length d") (auto simp: faults)
qed simp

lemma RtlInitUnicodeString_overflows:
  assumes "wcslen s = Some n" "1024 \<le> n" "n < 0x10000000"
  shows "RtlInitUnicodeString (Some s) = None"
proof -
  have "unat (of_nat (n * 2) :: u32) = n * 2"
    by (rule unat_of_nat_u32) (use assms(3) in simp)
  with assms show ?thesis
    by (simp add: RtlInitUnicodeString_def WSTR2STR_def rpl_wcslen_def RtlUnicodeToOemN_def Let_def
        oem_copy_overflow length_varconv)
qed

end
