(* ===== verification/Registry.thy ===== *)
theory Registry
  imports Unicode_Strings Byte_Memory
begin

text \<open>
  The read-only registry of \<^verbatim>\<open>libs/ntdll/registry.c\<close>: a table of values, found by their path
  without regard to case.  The caller's buffer is flat memory, as in \<open>Byte_Memory\<close>; the
  data of a value are 16-bit characters.
\<close>

section \<open>The table\<close>

record RegKey =
  key_path :: "u8 list"
  key_data :: "u16 list"
  key_type :: u32

definition REG_SZ :: u32 where "REG_SZ = 1"
definition REG_MULTI_SZ :: u32 where "REG_MULTI_SZ = 7"

text \<open>\<open>/\<close> stands for a backslash in the literals of paths.\<close>

definition path_lit :: "string \<Rightarrow> u8 list" where
  "path_lit s = map (\<lambda>c. if c = CHR ''/'' then 0x5c else of_char c) s"

definition BootExecute :: "u16 list" where
  "BootExecute = wide_lit ''autocheck autochk *'' @ [0, 0]"

definition RegKeys :: "RegKey list" where
  "RegKeys = [
   \<lparr>key_path = path_lit ''Software/Microsoft/Windows NT/CurrentVersion/SystemRoot'',
    key_data = systemroot, key_type = REG_SZ\<rparr>,
   \<lparr>key_path = path_lit ''Hardware/Description/System/Identifier'',
    key_data = wide_lit ''AT/AT COMPATIBLE'', key_type = REG_SZ\<rparr>,
   \<lparr>key_path = path_lit ''System/Setup/SystemPartition'',
    key_data = wide_path ''/Device/HarddiskVolume1'', key_type = REG_SZ\<rparr>,
   \<lparr>key_path = path_lit ''System/ControlSet000/Control/SystemStartOptions'',
    key_data = wide_lit ''FASTDETECT'', key_type = REG_SZ\<rparr>,
   \<lparr>key_path = path_lit ''System/CurrentControlSet/Control/SystemStartOptions'',
    key_data = wide_lit ''FASTDETECT'', key_type = REG_SZ\<rparr>,
   \<lparr>key_path = path_lit ''Session Manager/BootExecute'',
    key_data = BootExecute, key_type = REG_MULTI_SZ\<rparr>,
   \<lparr>key_path = path_lit ''System/ControlSet000/Control/Session Manager/BootExecute'',
    key_data = BootExecute, key_type = REG_MULTI_SZ\<rparr>,
   \<lparr>key_path = path_lit ''System/CurrentControlSet/Control/Session Manager/BootExecute'',
    key_data = BootExecute, key_type = REG_MULTI_SZ\<rparr>,
   \<lparr>key_path = path_lit ''System/ControlSet000/Control/Session Manager/Memory Management/PagingFiles'',
    key_data = wide_path ''c:/pagefile.sys'' @ [0, 0], key_type = REG_MULTI_SZ\<rparr>]"

text \<open>The size of the data in bytes, and the bytes.\<close>

definition key_len :: "RegKey \<Rightarrow> nat" where "key_len k = 2 * length (key_data k)"

definition wide_bytes :: "u16 list \<Rightarrow> u8 list" where
  "wide_bytes cs = concat (map (\<lambda>c. [ucast c, ucast (drop_bit 8 c)]) cs)"

lemma length_wide_bytes [simp]: "length (wide_bytes cs) = 2 * length cs"
  by (induction cs) (simp_all add: wide_bytes_def)

definition REG_PREFIX :: "u8 list" where "REG_PREFIX = path_lit ''/Registry/Machine/''"

definition strip_prefix :: "u8 list \<Rightarrow> u8 list" where
  "strip_prefix path =
     (if same_text (take (length REG_PREFIX) path) REG_PREFIX then drop (length REG_PREFIX) path else path)"

definition RegistryLookup :: "u8 list \<Rightarrow> RegKey option" where
  "RegistryLookup path = find (\<lambda>k. same_text (strip_prefix path) (key_path k)) RegKeys"

section \<open>Queries\<close>

text \<open>The object attributes: \<open>None\<close> where a pointer on the way to the name is null.\<close>

definition NtOpenKey :: "unit option \<Rightarrow> (u16 list option \<times> u16) option \<Rightarrow> (NTSTATUS \<times> handle option) option" where
  "NtOpenKey retkey ObjectName =
     (case (retkey, ObjectName) of
        (Some _, Some (buf, len)) \<Rightarrow> do {
          a \<leftarrow> US2STR buf len;
          nm \<leftarrow> narrow a;
          Some (STATUS_SUCCESS, Some (CreateHandle HANDLE_REG nm ''NtOpenKey''))
        }
      | _ \<Rightarrow> Some (STATUS_ACCESS_VIOLATION, None))"

datatype KEY_VALUE_INFORMATION_CLASS = KeyValueBasicInformation | KeyValueFullInformation
  | KeyValuePartialInformation | KeyValueFullInformationAlign64 | KeyValuePartialInformationAlign64

text \<open>The path of a value: \<^verbatim>\<open>snprintf(path, sizeof(path), "%s\\%s", ...)\<close>.\<close>

definition value_path :: "u8 list \<Rightarrow> u8 list \<Rightarrow> u8 list option" where
  "value_path key value = narrow (snprintf_to 512 (key @ [0x5c] @ value))"

definition put_full :: "RegKey \<Rightarrow> nat \<Rightarrow> mem \<Rightarrow> mem option" where
  "put_full v k m = do {
     m \<leftarrow> st32 m k 0;
     m \<leftarrow> st32 m (k + 4) (key_type v);
     m \<leftarrow> st32 m (k + 8) 20;
     m \<leftarrow> st32 m (k + 16) (of_nat (key_len v));
     m \<leftarrow> st32 m (k + 12) (of_nat (key_len v));
     put_bytes m (k + 20) (wide_bytes (key_data v))
   }"

definition put_partial :: "RegKey \<Rightarrow> nat \<Rightarrow> mem \<Rightarrow> mem option" where
  "put_partial v k m = do {
     m \<leftarrow> st32 m k 0;
     m \<leftarrow> st32 m (k + 4) (key_type v);
     m \<leftarrow> st32 m (k + 8) (of_nat (key_len v));
     put_bytes m (k + 12) (wide_bytes (key_data v))
   }"

text \<open>
  The status, the memory and what is stored in \<^verbatim>\<open>*ResultLength\<close>, if the pointer is given.  The
  structures have 24 and 16 bytes.
\<close>

definition answer :: "RegKey \<Rightarrow> KEY_VALUE_INFORMATION_CLASS \<Rightarrow> nat \<Rightarrow> u32 \<Rightarrow> mem \<Rightarrow>
    (NTSTATUS \<times> mem \<times> u32 option) option" where
  "answer v cls k Len m =
     (case cls of
        KeyValueFullInformation \<Rightarrow>
          (let vlen = key_len v + 24 in
           if unat Len < vlen then Some (STATUS_BUFFER_TOO_SMALL, m, Some (of_nat vlen))
           else do { m \<leftarrow> put_full v k m; Some (STATUS_SUCCESS, m, Some (of_nat vlen)) })
      | KeyValuePartialInformation \<Rightarrow>
          (let vlen = key_len v + 16 in
           if unat Len < vlen then Some (STATUS_BUFFER_TOO_SMALL, m, Some (of_nat vlen))
           else do { m \<leftarrow> put_partial v k m; Some (STATUS_SUCCESS, m, Some (of_nat vlen)) })
      | _ \<Rightarrow> Some (STATUS_NOT_IMPLEMENTED, m, None))"

definition NtQueryValueKey ::
  "handle option \<Rightarrow> (u16 list option \<times> u16) option \<Rightarrow> KEY_VALUE_INFORMATION_CLASS \<Rightarrow> nat \<Rightarrow> u32 \<Rightarrow> mem \<Rightarrow>
     (NTSTATUS \<times> mem \<times> u32 option) option" where
  "NtQueryValueKey KeyHandle ValueName cls KeyValueInformation Len m =
     (case CHECK_HANDLE KeyHandle HANDLE_REG of
        Some st \<Rightarrow> Some (st, m, None)
      | None \<Rightarrow> (case ValueName of
          None \<Rightarrow> Some (STATUS_ACCESS_VIOLATION, m, None)
        | Some (buf, len) \<Rightarrow> do {
            a \<leftarrow> US2STR buf len;
            a \<leftarrow> narrow a;
            h \<leftarrow> KeyHandle;
            nm \<leftarrow> narrow (handle_name h);
            path \<leftarrow> value_path nm a;
            case RegistryLookup path of
              None \<Rightarrow> Some (STATUS_OBJECT_NAME_NOT_FOUND, m, None)
            | Some v \<Rightarrow> answer v cls KeyValueInformation Len m
          }))"

section \<open>Setting a value\<close>

text \<open>The loop that is meant to make a list of strings printable.\<close>

fun bars :: "nat \<Rightarrow> nat \<Rightarrow> u8 list \<Rightarrow> u8 list option" where
  "bars i 0 a = Some a"
| "bars i (Suc n) a = do { c \<leftarrow> rd a i; a \<leftarrow> (if c = 0 then wr a i 0x7c else Some a); bars (i + 1) n a }"

text \<open>The status and the two buffers that are logged: the name of the value and the data.\<close>

definition NtSetValueKey ::
  "handle option \<Rightarrow> (u16 list option \<times> u16) option \<Rightarrow> u32 \<Rightarrow> u16 list option \<Rightarrow> u32 \<Rightarrow>
     (NTSTATUS \<times> (u8 list \<times> u8 list) option) option" where
  "NtSetValueKey KeyHandle ValueName Type Data DataSize =
     (case CHECK_HANDLE KeyHandle HANDLE_REG of
        Some st \<Rightarrow> Some (st, None)
      | None \<Rightarrow> (case ValueName of
          None \<Rightarrow> Some (STATUS_ACCESS_VIOLATION, None)
        | Some (buf, len) \<Rightarrow> do {
            a \<leftarrow> US2STR buf len;
            (_, d, _) \<leftarrow> RtlUnicodeToOemN varconv 1024 Data DataSize;
            a \<leftarrow> (if Type = REG_MULTI_SZ then bars 0 (unat DataSize div 2) a else Some a);
            Some (STATUS_SUCCESS, Some (a, d))
          }))"

definition RtlWriteRegistryValue :: "u16 list option \<Rightarrow> u16 list option \<Rightarrow> NTSTATUS option" where
  "RtlWriteRegistryValue Path ValueName = do {
     _ \<leftarrow> WSTR2STR Path;
     _ \<leftarrow> WSTR2STR ValueName;
     Some STATUS_SUCCESS
   }"

section \<open>Query tables\<close>

record query_entry =
  has_routine :: bool
  query_flags :: u32
  query_name :: "u16 list option"
  entry_context :: nat

definition RTL_QUERY_REGISTRY_DIRECT :: u32 where "RTL_QUERY_REGISTRY_DIRECT = 0x20"

definition conv_into :: "u8 list \<Rightarrow> u16 list option \<Rightarrow> u8 list option" where
  "conv_into d src = do {
     n \<leftarrow> rpl_wcslen src;
     (_, d, _) \<leftarrow> RtlUnicodeToOemN d 1024 src (of_nat (n * 2));
     Some d
   }"

definition put_value :: "RegKey \<Rightarrow> UNICODE_STRING \<Rightarrow> (NTSTATUS \<times> UNICODE_STRING) option" where
  "put_value v s =
     (if unat (MaximumLength s) < key_len v then Some (STATUS_BUFFER_TOO_SMALL, s)
      else do {
        b \<leftarrow> Buffer s;
        b \<leftarrow> copy_chars b (key_data v) (length (key_data v));
        Some (STATUS_SUCCESS, s\<lparr>Buffer := Some b, Length := of_nat (key_len v)\<rparr>)
      })"

text \<open>
  The strings of the caller are named by \<open>entry_context\<close>.  The buffer \<open>key\<close> is shared by the
  turns of the loop.  A table without an end is \<open>None\<close>.
\<close>

fun query_loop :: "u8 list \<Rightarrow> u8 list \<Rightarrow> NTSTATUS \<Rightarrow> query_entry list \<Rightarrow> (nat \<Rightarrow> UNICODE_STRING) \<Rightarrow>
    (NTSTATUS \<times> (nat \<Rightarrow> UNICODE_STRING)) option" where
  "query_loop pathA key result [] s = None"
| "query_loop pathA key result (q # qs) s =
     (if \<not> has_routine q \<and> query_name q = None then Some (result, s)
      else do {
        key \<leftarrow> conv_into key (query_name q);
        k \<leftarrow> narrow key;
        path \<leftarrow> value_path pathA k;
        case RegistryLookup path of
          None \<Rightarrow> query_loop pathA key result qs s
        | Some v \<Rightarrow>
            if query_flags q AND RTL_QUERY_REGISTRY_DIRECT \<noteq> 0 then do {
              (st, str) \<leftarrow> put_value v (s (entry_context q));
              Some (st, s(entry_context q := str))
            }
            else query_loop pathA key result qs s
      })"

definition RtlQueryRegistryValues ::
  "u16 list option \<Rightarrow> query_entry list option \<Rightarrow> (nat \<Rightarrow> UNICODE_STRING) \<Rightarrow>
     (NTSTATUS \<times> (nat \<Rightarrow> UNICODE_STRING)) option" where
  "RtlQueryRegistryValues Path QueryTable s =
     (case (Path, QueryTable) of
        (Some p, Some qs) \<Rightarrow> do {
          a \<leftarrow> WSTR2STR (Some p);
          a \<leftarrow> narrow a;
          query_loop a varconv STATUS_OBJECT_NAME_NOT_FOUND qs s
        }
      | _ \<Rightarrow> Some (STATUS_ACCESS_VIOLATION, s))"

end
