(* ===== verification/Registry_Spec.thy ===== *)
theory Registry_Spec
  imports Registry
begin

text \<open>
  The registry: every value of the table is found whatever the case of its path and with or
  without the prefix, a query stays inside the buffer of the caller, and the answer holds the
  data.
\<close>

section \<open>Lookup\<close>

lemma find_distinct:
  assumes "distinct (map f xs)" "i < length xs" "f (xs ! i) = y"
  shows "find (\<lambda>x. y = f x) xs = Some (xs ! i)"
proof -
  have "y \<noteq> f (xs ! j)" if "j < i" for j
  proof -
    have "map f xs ! j \<noteq> map f xs ! i"
      using assms(1,2) that by (subst nth_eq_iff_index_eq) simp_all
    then show ?thesis using assms(2,3) that by simp
  qed
  then show ?thesis
    unfolding find_Some_iff using assms(2,3) by (intro exI [of _ i]) simp
qed

text \<open>The paths differ also without case, and none begins with the prefix.\<close>

lemma RegKeys_distinct: "distinct (map (\<lambda>k. map lower8 (key_path k)) RegKeys)"
  by code_simp

lemma RegKeys_no_prefix:
  "list_all (\<lambda>k. map lower8 (take (length REG_PREFIX) (key_path k)) \<noteq> map lower8 REG_PREFIX) RegKeys"
  by code_simp

lemma strip_prefix_add: "same_text q REG_PREFIX \<Longrightarrow> strip_prefix (q @ p) = p"
proof -
  assume q: "same_text q REG_PREFIX"
  then have "length q = length REG_PREFIX" by (simp add: same_text_def) (metis length_map)
  with q show ?thesis by (simp add: strip_prefix_def)
qed

text \<open>
  C40. Every value of the registry is found by its path in any case, and by its path behind
  \<^verbatim>\<open>\Registry\Machine\\<close> in any case; no value hides another.
\<close>

theorem RegistryLookup_finds:
  assumes "i < length RegKeys" "same_text p (key_path (RegKeys ! i))" "same_text q REG_PREFIX"
  shows "RegistryLookup p = Some (RegKeys ! i) \<and> RegistryLookup (q @ p) = Some (RegKeys ! i)"
proof -
  have found: "find (\<lambda>k. same_text p (key_path k)) RegKeys = Some (RegKeys ! i)"
    using find_distinct [OF RegKeys_distinct assms(1)] assms(2) by (simp add: same_text_def)
  have "map lower8 (take n p) = map lower8 (take n (key_path (RegKeys ! i)))" for n
    using assms(2) by (simp add: same_text_def take_map [symmetric])
  then have "strip_prefix p = p"
    using RegKeys_no_prefix assms(1) by (simp add: strip_prefix_def same_text_def list_all_length)
  then show ?thesis
    using found by (simp add: RegistryLookup_def strip_prefix_add [OF assms(3)])
qed

lemma RegistryLookup_finds_witness:
  "RegistryLookup (path_lit ''/REGISTRY/Machine/'' @ path_lit ''HARDWARE/Description/System/identifier'') = Some (RegKeys ! 1)"
  by (rule RegistryLookup_finds [THEN conjunct2]) code_simp+

section \<open>Queries\<close>

lemma put_full_within:
  assumes "put_full v k m = Some m'" "key_len v + 24 \<le> n"
  shows "writes_within k (k + n) m m'"
proof -
  obtain m1 m2 m3 m4 m5 where "st32 m k 0 = Some m1" "st32 m1 (k + 4) (key_type v) = Some m2"
    "st32 m2 (k + 8) 20 = Some m3" "st32 m3 (k + 16) (of_nat (key_len v)) = Some m4"
    "st32 m4 (k + 12) (of_nat (key_len v)) = Some m5" "put_bytes m5 (k + 20) (wide_bytes (key_data v)) = Some m'"
    using assms(1) by (auto simp: put_full_def bind_eq_Some_conv)
  note steps = this
  from steps(1-5) [THEN writes_within_st32, of k "k + n"] steps(6) [THEN writes_within_put_bytes, of k "k + n"] assms(2)
  show ?thesis by (simp add: key_len_def) (blast intro: writes_within_trans)
qed

lemma put_partial_within:
  assumes "put_partial v k m = Some m'" "key_len v + 16 \<le> n"
  shows "writes_within k (k + n) m m'"
proof -
  obtain m1 m2 m3 where "st32 m k 0 = Some m1" "st32 m1 (k + 4) (key_type v) = Some m2"
    "st32 m2 (k + 8) (of_nat (key_len v)) = Some m3" "put_bytes m3 (k + 12) (wide_bytes (key_data v)) = Some m'"
    using assms(1) by (auto simp: put_partial_def bind_eq_Some_conv)
  note steps = this
  from steps(1-3) [THEN writes_within_st32, of k "k + n"] steps(4) [THEN writes_within_put_bytes, of k "k + n"] assms(2)
  show ?thesis by (simp add: key_len_def) (blast intro: writes_within_trans)
qed

lemma answer_within:
  assumes "answer v cls k Len m = Some (st, m', rl)"
  shows "writes_within k (k + unat Len) m m' \<and> (m' = m \<or> st = STATUS_SUCCESS)"
  using assms
  by (cases cls) (auto simp: answer_def Let_def bind_eq_Some_conv split: if_splits
      intro: put_full_within put_partial_within)

text \<open>
  A query writes only inside the buffer the caller named, \<open>Len\<close> bytes from
  \<open>KeyValueInformation\<close>, and writes nothing unless it succeeds.
\<close>

theorem NtQueryValueKey_contained:
  assumes "NtQueryValueKey h nm cls k Len m = Some (st, m', rl)"
  shows "writes_within k (k + unat Len) m m' \<and> (m' = m \<or> st = STATUS_SUCCESS)"
  using assms
  by (auto simp: NtQueryValueKey_def bind_eq_Some_conv split: option.splits prod.splits dest: answer_within)

lemma NtQueryValueKey_contained_witness:
  "\<exists>m' rl. NtQueryValueKey (Some (CreateHandle HANDLE_REG (path_lit ''Hardware/Description/System'') []))
      (Some (Some (wide_lit ''Identifier''), 20)) KeyValuePartialInformation 4 50 (replicate 64 0xee) =
      Some (STATUS_SUCCESS, m', rl) \<and> writes_within 4 54 (replicate 64 0xee) m'"
proof -
  let ?q = "NtQueryValueKey (Some (CreateHandle HANDLE_REG (path_lit ''Hardware/Description/System'') []))
      (Some (Some (wide_lit ''Identifier''), 20)) KeyValuePartialInformation 4 50 (replicate 64 0xee)"
  have "case ?q of None \<Rightarrow> False | Some (st, _, _) \<Rightarrow> st = STATUS_SUCCESS"
    by code_simp
  then obtain m' rl where "?q = Some (STATUS_SUCCESS, m', rl)"
    by (auto split: option.splits)
  from this NtQueryValueKey_contained [OF this] show ?thesis by auto
qed

section \<open>Answers\<close>

end
