(* ===== verification/Heap.thy ===== *)
theory Heap
  imports Byte_Memory Nt_Status
begin

text \<open>
  The heap of \<^verbatim>\<open>libs/ntdll/heap.c\<close>: blocks of the C library with a header of a magic number
  and the size, four bytes each.  The C library is an argument of the operations that call it:
  the address it returns, \<open>None\<close> for a null pointer, and the contents of fresh memory.  A
  failed \<^verbatim>\<open>assert\<close> and an access outside every block are \<open>None\<close>.
\<close>

section \<open>The code\<close>

type_synonym heap = "nat \<Rightarrow> u8 list option"

definition MAX_HEAP_ALLOC :: nat where "MAX_HEAP_ALLOC = 1073741824"
definition HEAPALLOC_MAGIC :: u32 where "HEAPALLOC_MAGIC = 0xFEFAF0F0"
definition HEAPFREE_MAGIC :: u32 where "HEAPFREE_MAGIC = NOT HEAPALLOC_MAGIC"
definition HEAP_ZERO_MEMORY :: u32 where "HEAP_ZERO_MEMORY = 8"

text \<open>The block whose user part begins at a pointer.\<close>

definition block_of :: "heap \<Rightarrow> nat \<Rightarrow> u8 list option" where
  "block_of h p = (if p < 8 then None else h (p - 8))"

definition HEAP_OFFMAGIC :: "u8 list \<Rightarrow> u32 option" where "HEAP_OFFMAGIC b = ld32 b 0"
definition HEAP_OFFSIZE :: "u8 list \<Rightarrow> u32 option" where "HEAP_OFFSIZE b = ld32 b 4"

definition put_header :: "u8 list \<Rightarrow> nat \<Rightarrow> u8 list option" where
  "put_header b n = do { b \<leftarrow> st32 b 0 HEAPALLOC_MAGIC; st32 b 4 (of_nat n) }"

text \<open>\<^verbatim>\<open>memset\<close> to zero from offset \<open>i\<close> of the user part to its end.\<close>

definition zero_from :: "u8 list \<Rightarrow> nat \<Rightarrow> u8 list" where
  "zero_from b i = take (8 + i) b @ replicate (length b - (8 + i)) 0"

definition fresh :: "(nat \<Rightarrow> u8) \<Rightarrow> nat \<Rightarrow> u8 list" where
  "fresh fill n = map fill [0..<n]"

definition RtlAllocateHeap ::
  "nat option \<Rightarrow> (nat \<Rightarrow> u8) \<Rightarrow> u32 \<Rightarrow> nat \<Rightarrow> heap \<Rightarrow> (nat \<times> heap) option" where
  "RtlAllocateHeap malloc fill Flags Size h =
     (if \<not> Size < MAX_HEAP_ALLOC then None
      else do {
        a \<leftarrow> malloc;
        b \<leftarrow> put_header (fresh fill (Size + 8)) Size;
        let b = (if Flags AND HEAP_ZERO_MEMORY \<noteq> 0 then zero_from b 0 else b);
        Some (a + 8, h(a \<mapsto> b))
      })"

text \<open>
  \<^verbatim>\<open>realloc\<close> keeps the bytes that fit and releases the old block; it is a null pointer's
  \<^verbatim>\<open>malloc\<close> that the first case replaces.  The magic number is not looked at.
\<close>

definition RtlReAllocateHeap ::
  "nat option \<Rightarrow> (nat \<Rightarrow> u8) \<Rightarrow> u32 \<Rightarrow> nat \<Rightarrow> nat \<Rightarrow> heap \<Rightarrow> (nat \<times> heap) option" where
  "RtlReAllocateHeap malloc fill Flags MemoryPointer Size h =
     (if \<not> Size < MAX_HEAP_ALLOC then None
      else if MemoryPointer = 0 then RtlAllocateHeap malloc fill Flags Size h
      else do {
        old \<leftarrow> block_of h MemoryPointer;
        OldSize \<leftarrow> HEAP_OFFSIZE old;
        a \<leftarrow> malloc;
        b \<leftarrow> put_header (take (Size + 8) (old @ fresh fill (Size + 8 - length old))) Size;
        let b = (if Size > unat OldSize \<and> Flags AND HEAP_ZERO_MEMORY \<noteq> 0 then zero_from b (unat OldSize) else b);
        Some (a + 8, (h(MemoryPointer - 8 := None))(a \<mapsto> b))
      })"

definition RtlSizeHeap :: "nat \<Rightarrow> heap \<Rightarrow> u32 option" where
  "RtlSizeHeap MemoryPointer h = do {
     b \<leftarrow> block_of h MemoryPointer;
     magic \<leftarrow> HEAP_OFFMAGIC b;
     if magic = HEAPALLOC_MAGIC then HEAP_OFFSIZE b else None
   }"

definition RtlFreeHeap :: "nat \<Rightarrow> heap \<Rightarrow> (bool \<times> heap) option" where
  "RtlFreeHeap MemoryPointer h = do {
     b \<leftarrow> block_of h MemoryPointer;
     magic \<leftarrow> HEAP_OFFMAGIC b;
     if magic = HEAPALLOC_MAGIC then do {
       b \<leftarrow> st32 b 0 HEAPFREE_MAGIC;
       Some (True, h(MemoryPointer - 8 := None))
     }
     else None
   }"

section \<open>Headers\<close>

text \<open>The blocks that hold a header that fits them, and the user part of a block.\<close>

definition sound :: "u8 list \<Rightarrow> bool" where
  "sound b \<longleftrightarrow> 8 \<le> length b \<and> length b < MAX_HEAP_ALLOC + 8 \<and>
     HEAP_OFFMAGIC b = Some HEAPALLOC_MAGIC \<and> HEAP_OFFSIZE b = Some (of_nat (length b - 8))"

definition heap_ok :: "heap \<Rightarrow> bool" where
  "heap_ok h \<longleftrightarrow> (\<forall>a b. h a = Some b \<longrightarrow> sound b)"

lemma put_header_exact:
  assumes "length b = n + 8" "n < MAX_HEAP_ALLOC"
  shows "\<exists>b'. put_header b n = Some b' \<and> sound b' \<and> length b' = n + 8 \<and> drop 8 b' = drop 8 b"
proof -
  obtain b1 where b1: "st32 b 0 HEAPALLOC_MAGIC = Some b1" using st32_defined [of 0 b] assms by auto
  have l1: "length b1 = n + 8" using st_length(3) [OF b1] assms by simp
  obtain b2 where b2: "st32 b1 4 (of_nat n) = Some b2" using st32_defined [of 4 b1] l1 by auto
  have l2: "length b2 = n + 8" using st_length(3) [OF b2] l1 by simp
  have "drop 8 b2 = drop 8 b"
    by (rule nth_ld8) (use b1 b2 l1 l2 assms in \<open>auto simp: ld8_st32\<close>)
  moreover have "ld32 b2 0 = Some HEAPALLOC_MAGIC" "ld32 b2 4 = Some (of_nat n)"
    using ld32_st32 [OF b1] ld32_st32 [OF b2] ld32_st32_other [OF b2, of 0] by simp_all
  ultimately show ?thesis using b1 b2 l2 assms(2)
    by (simp add: put_header_def sound_def HEAP_OFFMAGIC_def HEAP_OFFSIZE_def)
qed

lemma ld32_take: "a + 4 \<le> n \<Longrightarrow> a + 4 \<le> length b \<Longrightarrow> ld32 (take n b @ c) a = ld32 b a"
  by (simp add: ld32_def ld16_def ld8_def rd_def nth_append)

lemma sound_zero_from:
  assumes "sound b" "i \<le> length b - 8"
  shows "sound (zero_from b i)" "length (zero_from b i) = length b"
    "drop 8 (zero_from b i) = take i (drop 8 b) @ replicate (length b - 8 - i) 0"
proof -
  have "8 \<le> length b" using assms(1) by (simp add: sound_def)
  then have l: "8 + i \<le> length b" using assms(2) by linarith
  then show len: "length (zero_from b i) = length b" by (simp add: zero_from_def)
  have "ld32 (zero_from b i) x = ld32 b x" if "x \<le> 4" for x
    unfolding zero_from_def using that l by (intro ld32_take) simp_all
  then show "sound (zero_from b i)" using assms(1) by (simp add: sound_def len HEAP_OFFMAGIC_def HEAP_OFFSIZE_def)
  show "drop 8 (zero_from b i) = take i (drop 8 b) @ replicate (length b - 8 - i) 0"
    using l by (simp add: zero_from_def take_drop add.commute)
qed

lemma length_fresh [simp]: "length (fresh fill n) = n"
  by (simp add: fresh_def)

lemma unat_of_size: "n < MAX_HEAP_ALLOC \<Longrightarrow> unat (of_nat n :: u32) = n"
  by (rule unat_of_nat_u32) (simp add: MAX_HEAP_ALLOC_def)

end
