(* ===== verification/Heap_Spec.thy ===== *)
theory Heap_Spec
  imports Heap
begin

text \<open>
  The contract of the heap: it implements a map from pointers to byte strings.  The contract is
  a locale, interpreted on the code; what callers rely on is proved from the contract.
\<close>

section \<open>The contract\<close>

locale allocator =
  fixes contents :: "'h \<Rightarrow> nat \<Rightarrow> u8 list option"
    and ok :: "'h \<Rightarrow> bool"
    and vacant :: "'h \<Rightarrow> nat \<Rightarrow> bool"
    and alloc :: "nat \<Rightarrow> nat \<Rightarrow> 'h \<Rightarrow> (nat \<times> 'h) option"
    and usable :: "nat \<Rightarrow> 'h \<Rightarrow> u32 option"
    and free :: "nat \<Rightarrow> 'h \<Rightarrow> (bool \<times> 'h) option"
  assumes alloc: "ok h \<Longrightarrow> vacant h a \<Longrightarrow> n < MAX_HEAP_ALLOC \<Longrightarrow>
      \<exists>p h' bs. alloc a n h = Some (p, h') \<and> ok h' \<and> contents h p = None \<and> length bs = n \<and>
        contents h' = (contents h)(p \<mapsto> bs)"
    and usable: "ok h \<Longrightarrow> contents h p = Some bs \<Longrightarrow> usable p h = Some (of_nat (length bs)) \<and> length bs < MAX_HEAP_ALLOC"
    and free: "ok h \<Longrightarrow> contents h p = Some bs \<Longrightarrow>
      \<exists>h'. free p h = Some (True, h') \<and> ok h' \<and> contents h' = (contents h)(p := None)"
    and free_unknown: "ok h \<Longrightarrow> contents h p = None \<Longrightarrow> free p h = None"
begin

text \<open>What was allocated can be released once, after which the heap is as before.\<close>

lemma alloc_free:
  assumes "ok h" "vacant h a" "n < MAX_HEAP_ALLOC"
  shows "\<exists>p h1 h2. alloc a n h = Some (p, h1) \<and> usable p h1 = Some (of_nat n) \<and>
    free p h1 = Some (True, h2) \<and> ok h2 \<and> contents h2 = contents h \<and> free p h2 = None"
proof -
  from alloc [OF assms] obtain p h1 bs where 1: "alloc a n h = Some (p, h1)" "ok h1" "contents h p = None"
    "length bs = n" "contents h1 = (contents h)(p \<mapsto> bs)" by auto
  then have c: "contents h1 p = Some bs" by simp
  from free [OF 1(2) c] obtain h2 where 2: "free p h1 = Some (True, h2)" "ok h2"
    "contents h2 = (contents h1)(p := None)" by auto
  have "contents h2 = contents h" using 1 2 by auto
  moreover from this have "free p h2 = None" using free_unknown [OF 2(2)] 1(3) by simp
  ultimately show ?thesis using 1 2 usable [OF 1(2) c] by auto
qed

text \<open>Two allocations never overlap.\<close>

lemma alloc_twice:
  assumes "ok h" "vacant h a" "n < MAX_HEAP_ALLOC" "alloc a n h = Some (p, h1)"
    "vacant h1 b" "m < MAX_HEAP_ALLOC" "alloc b m h1 = Some (q, h2)"
  shows "p \<noteq> q \<and> contents h2 p = contents h1 p"
  using alloc [OF assms(1-3)] assms(4) alloc [OF _ assms(5,6)] assms(7) by fastforce

end

section \<open>The code meets the contract\<close>

definition contents :: "heap \<Rightarrow> nat \<Rightarrow> u8 list option" where
  "contents h p = map_option (drop 8) (block_of h p)"

lemma contents_Some: "contents h p = Some bs \<longleftrightarrow> 8 \<le> p \<and> (\<exists>b. h (p - 8) = Some b \<and> bs = drop 8 b)"
  by (auto simp: contents_def block_of_def)

lemma contents_put: "contents (h(a \<mapsto> b)) = (contents h)(a + 8 \<mapsto> drop 8 b)"
  by (auto simp: contents_def block_of_def fun_eq_iff)

lemma contents_drop: "8 \<le> p \<Longrightarrow> contents (h(p - 8 := None)) = (contents h)(p := None)"
  by (auto simp: contents_def block_of_def fun_eq_iff)

lemma heap_okD: "heap_ok h \<Longrightarrow> h a = Some b \<Longrightarrow> sound b"
  by (auto simp: heap_ok_def)

lemma heap_ok_put: "heap_ok h \<Longrightarrow> sound b \<Longrightarrow> heap_ok (h(a \<mapsto> b))"
  by (auto simp: heap_ok_def)

lemma heap_ok_drop: "heap_ok h \<Longrightarrow> heap_ok (h(a := None))"
  by (auto simp: heap_ok_def)

lemma RtlAllocateHeap_exact:
  assumes "heap_ok h" "n < MAX_HEAP_ALLOC"
  shows "\<exists>h' bs. RtlAllocateHeap (Some a) fill flags n h = Some (a + 8, h') \<and> heap_ok h' \<and> length bs = n \<and>
    contents h' = (contents h)(a + 8 \<mapsto> bs) \<and> (flags AND HEAP_ZERO_MEMORY \<noteq> 0 \<longrightarrow> bs = replicate n 0)"
proof -
  obtain b where b: "put_header (fresh fill (n + 8)) n = Some b" "sound b" "length b = n + 8"
    using put_header_exact [of "fresh fill (n + 8)" n] assms(2) by auto
  let ?e = "if flags AND HEAP_ZERO_MEMORY \<noteq> 0 then zero_from b 0 else b"
  have "sound ?e" "length (drop 8 ?e) = n" "flags AND HEAP_ZERO_MEMORY \<noteq> 0 \<longrightarrow> drop 8 ?e = replicate n 0"
    using b sound_zero_from [of b 0] by auto
  moreover have "RtlAllocateHeap (Some a) fill flags n h = Some (a + 8, h(a \<mapsto> ?e))"
    using b assms(2) by (simp add: RtlAllocateHeap_def Let_def)
  ultimately show ?thesis
    using heap_ok_put [OF assms(1)] contents_put [of h a ?e] by blast
qed

lemma RtlSizeHeap_exact: "heap_ok h \<Longrightarrow> contents h p = Some bs \<Longrightarrow>
    RtlSizeHeap p h = Some (of_nat (length bs)) \<and> length bs < MAX_HEAP_ALLOC"
proof -
  assume "heap_ok h" "contents h p = Some bs"
  then obtain b where "8 \<le> p" "h (p - 8) = Some b" "bs = drop 8 b" "sound b"
    by (auto simp: contents_Some dest: heap_okD)
  then show ?thesis by (auto simp: RtlSizeHeap_def block_of_def sound_def)
qed

lemma RtlFreeHeap_exact:
  assumes "heap_ok h" "contents h p = Some bs"
  shows "\<exists>h'. RtlFreeHeap p h = Some (True, h') \<and> heap_ok h' \<and> contents h' = (contents h)(p := None)"
proof -
  from assms obtain b where b: "8 \<le> p" "h (p - 8) = Some b" "sound b"
    by (auto simp: contents_Some dest: heap_okD)
  then obtain b' where "st32 b 0 HEAPFREE_MAGIC = Some b'"
    using st32_defined [of 0 b] by (auto simp: sound_def)
  with b assms(1) show ?thesis
    by (simp add: RtlFreeHeap_def block_of_def sound_def heap_ok_drop contents_drop)
qed

lemma RtlFreeHeap_unknown: "contents h p = None \<Longrightarrow> RtlFreeHeap p h = None"
  by (simp add: RtlFreeHeap_def contents_def)

text \<open>For the contract the C library chooses a free address and fresh memory is arbitrary.\<close>

interpretation nt: allocator contents heap_ok "\<lambda>h a. h a = None"
    "\<lambda>a. RtlAllocateHeap (Some a) fill flags" RtlSizeHeap RtlFreeHeap for fill flags
proof unfold_locales
  show "\<exists>p h' bs. RtlAllocateHeap (Some a) fill flags n h = Some (p, h') \<and> heap_ok h' \<and> contents h p = None \<and>
      length bs = n \<and> contents h' = (contents h)(p \<mapsto> bs)"
    if "heap_ok h" "h a = None" "n < MAX_HEAP_ALLOC" for h a n
  proof -
    from RtlAllocateHeap_exact [OF that(1,3), of a fill flags] obtain h' bs where
      "RtlAllocateHeap (Some a) fill flags n h = Some (a + 8, h')" "heap_ok h'" "length bs = n"
      "contents h' = (contents h)(a + 8 \<mapsto> bs)" by blast
    moreover have "contents h (a + 8) = None" using that(2) by (simp add: contents_def block_of_def)
    ultimately show ?thesis by blast
  qed
qed (simp_all add: RtlSizeHeap_exact RtlFreeHeap_exact RtlFreeHeap_unknown)

section \<open>Properties\<close>

text \<open>
  C32. A block that was allocated at a free address has the size that was asked for, can be
  released exactly once, and leaves every other block as it was; the header of every block stays
  in order.
\<close>

theorem RtlAllocateHeap_RtlFreeHeap:
  assumes "heap_ok h" "h a = None" "n < MAX_HEAP_ALLOC"
  shows "\<exists>p h1 h2. RtlAllocateHeap (Some a) fill flags n h = Some (p, h1) \<and> RtlSizeHeap p h1 = Some (of_nat n) \<and>
    RtlFreeHeap p h1 = Some (True, h2) \<and> heap_ok h2 \<and> contents h2 = contents h \<and> RtlFreeHeap p h2 = None"
  using assms by (rule nt.alloc_free)

lemma RtlAllocateHeap_RtlFreeHeap_witness:
  "\<exists>p h1 h2. RtlAllocateHeap (Some 100) (\<lambda>_. 0xee) 0 5 Map.empty = Some (p, h1) \<and> RtlSizeHeap p h1 = Some 5 \<and>
    RtlFreeHeap p h1 = Some (True, h2) \<and> heap_ok h2 \<and> contents h2 = contents Map.empty \<and> RtlFreeHeap p h2 = None"
  using RtlAllocateHeap_RtlFreeHeap [of Map.empty 100 5 "\<lambda>_. 0xee" 0]
  by (simp add: heap_ok_def MAX_HEAP_ALLOC_def)

text \<open>
  C33. Reallocation keeps the bytes that fit, in the new block, and with \<open>HEAP_ZERO_MEMORY\<close> fills
  what it adds with zeros; no other block changes and the headers stay in order.
\<close>

theorem RtlReAllocateHeap_keeps:
  assumes "heap_ok h" "contents h p = Some bs" "n < MAX_HEAP_ALLOC" "p \<noteq> 0" "a + 8 = p \<or> h a = None"
  shows "\<exists>h' new. RtlReAllocateHeap (Some a) fill flags p n h = Some (a + 8, h') \<and> heap_ok h' \<and>
    contents h' = (contents h)(p := None, a + 8 \<mapsto> new) \<and> length new = n \<and>
    take (length bs) new = take n bs \<and>
    (flags AND HEAP_ZERO_MEMORY \<noteq> 0 \<longrightarrow> drop (length bs) new = replicate (n - length bs) 0)"
proof -
  from assms(1,2) obtain b where b: "8 \<le> p" "h (p - 8) = Some b" "bs = drop 8 b" "sound b"
    by (auto simp: contents_Some dest: heap_okD)
  let ?m = "length bs"
  have lb: "length b = ?m + 8" using b by (simp add: sound_def)
  have m: "?m < MAX_HEAP_ALLOC" using RtlSizeHeap_exact [OF assms(1,2)] by simp
  have old: "HEAP_OFFSIZE b = Some (of_nat ?m)" "unat (of_nat ?m :: u32) = ?m"
    using b unat_of_size [OF m] by (simp_all add: sound_def)
  let ?c = "take (n + 8) (b @ fresh fill (n + 8 - length b))"
  have lc: "length ?c = n + 8" by simp
  have "drop 8 ?c = take n (bs @ fresh fill (n + 8 - length b))"
    using b(3) lb by (simp add: drop_take)
  then have dc: "take ?m (drop 8 ?c) = take n bs"
    by (cases "?m \<le> n") simp_all
  obtain d where d: "put_header ?c n = Some d" "sound d" "length d = n + 8" "drop 8 d = drop 8 ?c"
    using put_header_exact [OF lc assms(3)] by auto
  let ?e = "if ?m < n \<and> flags AND HEAP_ZERO_MEMORY \<noteq> 0 then zero_from d ?m else d"
  have e: "sound ?e" "length (drop 8 ?e) = n" "take ?m (drop 8 ?e) = take n bs"
    "flags AND HEAP_ZERO_MEMORY \<noteq> 0 \<longrightarrow> drop ?m (drop 8 ?e) = replicate (n - ?m) 0"
    using d dc sound_zero_from [OF d(2), of ?m] by (auto simp del: drop_drop)
  have "RtlReAllocateHeap (Some a) fill flags p n h = Some (a + 8, (h(p - 8 := None))(a \<mapsto> ?e))"
    using assms(3,4) b(1,2) old d(1) by (simp add: RtlReAllocateHeap_def block_of_def Let_def)
  moreover have "heap_ok ((h(p - 8 := None))(a \<mapsto> ?e))"
    using assms(1) e(1) by (intro heap_ok_put heap_ok_drop)
  moreover have "contents ((h(p - 8 := None))(a \<mapsto> ?e)) = (contents h)(p := None, a + 8 \<mapsto> drop 8 ?e)"
    by (simp add: contents_put contents_drop [OF b(1)])
  ultimately show ?thesis using e(2-4)
    by (intro exI [of _ "(h(p - 8 := None))(a \<mapsto> ?e)"] exI [of _ "drop 8 ?e"]) (simp only: simp_thms)
qed

lemma RtlReAllocateHeap_keeps_witness:
  "\<exists>h' new. RtlReAllocateHeap (Some 200) (\<lambda>_. 0xee) 8 108 3
      [100 \<mapsto> [0xf0, 0xf0, 0xfa, 0xfe, 2, 0, 0, 0, 7, 9]] = Some (208, h') \<and>
     contents h' 208 = Some new \<and> take 2 new = [7, 9] \<and> drop 2 new = [0]"
proof -
  let ?h = "[100 \<mapsto> [0xf0, 0xf0, 0xfa, 0xfe, 2, 0, 0, 0, 7, 9]] :: heap"
  have c: "contents ?h 108 = Some [7, 9]" by (simp add: contents_def block_of_def)
  have "heap_ok ?h"
    by (simp add: heap_ok_def sound_def HEAP_OFFMAGIC_def HEAP_OFFSIZE_def HEAPALLOC_MAGIC_def MAX_HEAP_ALLOC_def
        ld32_def ld16_def ld8_def rd_def)
  from RtlReAllocateHeap_keeps [OF this c, of 3 200 "\<lambda>_. 0xee" 8]
  obtain h' new where "RtlReAllocateHeap (Some 200) (\<lambda>_. 0xee) 8 108 3 ?h = Some (208, h')"
    "contents h' = (contents ?h)(108 := None, 208 \<mapsto> new)" "take (length [7, 9 :: u8]) new = [7, 9]"
    "drop (length [7, 9 :: u8]) new = [0]"
    by (auto simp: MAX_HEAP_ALLOC_def HEAP_ZERO_MEMORY_def)
  then show ?thesis by (simp add: numeral_2_eq_2 [symmetric])
qed

section \<open>Deviations\<close>

text \<open>Reallocation does not look at the magic number: a block with a broken header is accepted.\<close>

lemma RtlReAllocateHeap_unchecked:
  "RtlSizeHeap 108 [100 \<mapsto> replicate 10 0] = None"
  "\<exists>r. RtlReAllocateHeap (Some 100) fill 0 108 2 [100 \<mapsto> replicate 10 0] = Some r"
proof -
  show "RtlSizeHeap 108 [100 \<mapsto> replicate 10 0] = None"
    by (simp add: RtlSizeHeap_def block_of_def HEAP_OFFMAGIC_def HEAPALLOC_MAGIC_def ld32_def ld16_def ld8_def rd_def)
  have "ld32 (replicate 10 0) 4 = Some 0" by (simp add: ld32_def ld16_def ld8_def rd_def)
  moreover obtain b where "put_header (take (2 + 8) (replicate 10 0 @ fresh fill (2 + 8 - length (replicate 10 (0 :: u8))))) 2 = Some b"
    using put_header_exact [of "take (2 + 8) (replicate 10 0 @ fresh fill (2 + 8 - length (replicate 10 (0 :: u8))))" 2]
    by (auto simp: MAX_HEAP_ALLOC_def)
  ultimately show "\<exists>r. RtlReAllocateHeap (Some 100) fill 0 108 2 [100 \<mapsto> replicate 10 0] = Some r"
    by (simp add: RtlReAllocateHeap_def block_of_def HEAP_OFFSIZE_def MAX_HEAP_ALLOC_def fresh_def)
qed

end
