(* ===== verification/Format.thy ===== *)
theory Format
  imports Wide_Strings
begin

text \<open>
  The formatted output of \<^verbatim>\<open>libs/ntdll/format.c\<close>.  The variable arguments are a list of
  \<open>varg\<close>; taking one of another type than the code expects is \<open>None\<close>, as is
  \<^verbatim>\<open>abort()\<close>.  The conversions of \<^verbatim>\<open>snprintf\<close> that \<open>__format\<close> builds (an optional width, then
  \<^verbatim>\<open>d\<close>, \<^verbatim>\<open>u\<close>, \<^verbatim>\<open>x\<close> or \<^verbatim>\<open>X\<close>) are spelled out; \<open>__dbg_print\<close>, which passes on every conversion of
  C, has \<^verbatim>\<open>snprintf\<close> as an argument.
\<close>

section \<open>Numbers\<close>

definition digit_char :: "bool \<Rightarrow> int \<Rightarrow> u8" where
  "digit_char upper d = (if d < 10 then of_int (48 + d) else of_int ((if upper then 55 else 87) + d))"

function digits_of :: "bool \<Rightarrow> int \<Rightarrow> int \<Rightarrow> u8 list" where
  "digits_of upper b n =
     (if b < 2 \<or> n < b then [digit_char upper n]
      else digits_of upper b (n div b) @ [digit_char upper (n mod b)])"
  by pat_completeness auto
termination
  by (relation "measure (\<lambda>(u, b, n). nat n)") (auto simp: int_div_less_self)

declare digits_of.simps [simp del]

datatype conv = Conv_d | Conv_u | Conv_x | Conv_X

text \<open>The sign and the digits of an argument of \<open>bits\<close> bits.\<close>

definition number_parts :: "conv \<Rightarrow> nat \<Rightarrow> u64 \<Rightarrow> u8 list \<times> u8 list" where
  "number_parts c bits v =
     (let n = take_bit bits (uint v) in
      case c of
        Conv_d \<Rightarrow> if n < 2 ^ (bits - 1) then ([], digits_of False 10 n) else ([0x2d], digits_of False 10 (2 ^ bits - n))
      | Conv_u \<Rightarrow> ([], digits_of False 10 n)
      | Conv_x \<Rightarrow> ([], digits_of False 16 n)
      | Conv_X \<Rightarrow> ([], digits_of True 16 n))"

text \<open>Leading zeros of the width are the flag that pads with zeros.\<close>

definition width_of :: "nat list \<Rightarrow> int" where
  "width_of ds = fold (\<lambda>d n. n * 10 + int d) ds 0"

definition print_number :: "nat list \<Rightarrow> conv \<Rightarrow> nat \<Rightarrow> u64 \<Rightarrow> u8 list" where
  "print_number ds c bits v =
     (let (sign, digits) = number_parts c bits v;
          pad = nat (width_of ds - int (length sign + length digits))
      in if ds \<noteq> [] \<and> hd ds = 0 then sign @ replicate pad 0x30 @ digits
         else replicate pad 0x20 @ sign @ digits)"

section \<open>The target\<close>

datatype varg = Int_arg u64 | Wide_arg "u16 list option" | Narrow_arg "u8 list option"

text \<open>\<open>remaining\<close> is \<^verbatim>\<open>count\<close> of \<open>__format\<close>, a \<^verbatim>\<open>size_t\<close>; \<open>position\<close> is that of the target.\<close>

record target =
  data :: "u16 list"
  position :: nat
  remaining :: u64
  vargs :: "varg list"

definition emit :: "u16 \<Rightarrow> target \<Rightarrow> target option" where
  "emit c t = do { d \<leftarrow> wr (data t) (position t) c; Some (t\<lparr>data := d, position := position t + 1\<rparr>) }"

definition emit_wchar :: "u16 \<Rightarrow> target \<Rightarrow> target option" where
  "emit_wchar c t = do { t \<leftarrow> emit c t; Some (t\<lparr>remaining := remaining t - 1\<rparr>) }"

fun emit_all :: "u16 list \<Rightarrow> target \<Rightarrow> target option" where
  "emit_all [] t = Some t"
| "emit_all (c # s) t = do { t \<leftarrow> emit c t; emit_all s t }"

text \<open>A wide string in memory, up to its terminator.\<close>

fun wide :: "u16 list \<Rightarrow> u16 list option" where
  "wide [] = None"
| "wide (c # s) = (if c = 0 then Some [] else map_option ((#) c) (wide s))"

definition emit_wstring :: "u16 list option \<Rightarrow> target \<Rightarrow> target option" where
  "emit_wstring str t = do {
     s \<leftarrow> (case str of None \<Rightarrow> Some (map of_char ''(nil)'') | Some s \<Rightarrow> wide s);
     t \<leftarrow> emit_all s t;
     Some (t\<lparr>remaining := remaining t - of_nat (length s)\<rparr>)
   }"

text \<open>A narrow character is signed.\<close>

definition emit_string :: "u8 list option \<Rightarrow> target \<Rightarrow> target option" where
  "emit_string str t = do {
     s \<leftarrow> (case str of None \<Rightarrow> Some (map of_char ''(null)'') | Some s \<Rightarrow> narrow s);
     t \<leftarrow> emit_all (map scast s) t;
     Some (t\<lparr>remaining := remaining t - of_nat (length s)\<rparr>)
   }"

text \<open>
  \<open>room\<close> bytes for the number; what does not fit is cut off, but counted.  A width that is not
  an \<^verbatim>\<open>int\<close> is an error of \<^verbatim>\<open>snprintf\<close>.
\<close>

definition emit_number :: "nat \<Rightarrow> nat list \<Rightarrow> conv \<Rightarrow> nat \<Rightarrow> u64 \<Rightarrow> target \<Rightarrow> target option" where
  "emit_number room ds c bits v t =
     (if width_of ds \<ge> 2 ^ 31 then None
      else do {
        let s = print_number ds c bits v;
        t \<leftarrow> emit_all (map scast (take (room - 1) s)) t;
        Some (t\<lparr>remaining := remaining t - of_nat (length s)\<rparr>)
      })"

definition emit_int32 :: "nat list \<Rightarrow> conv \<Rightarrow> u64 \<Rightarrow> target \<Rightarrow> target option" where
  "emit_int32 ds c = emit_number 32 ds c 32"

definition emit_int64 :: "nat list \<Rightarrow> conv \<Rightarrow> u64 \<Rightarrow> target \<Rightarrow> target option" where
  "emit_int64 ds c = emit_number 64 ds c 64"

definition next_int :: "target \<Rightarrow> (u64 \<times> target) option" where
  "next_int t = (case vargs t of Int_arg v # as \<Rightarrow> Some (v, t\<lparr>vargs := as\<rparr>) | _ \<Rightarrow> None)"

definition next_wide :: "target \<Rightarrow> (u16 list option \<times> target) option" where
  "next_wide t = (case vargs t of Wide_arg s # as \<Rightarrow> Some (s, t\<lparr>vargs := as\<rparr>) | _ \<Rightarrow> None)"

definition next_narrow :: "target \<Rightarrow> (u8 list option \<times> target) option" where
  "next_narrow t = (case vargs t of Narrow_arg s # as \<Rightarrow> Some (s, t\<lparr>vargs := as\<rparr>) | _ \<Rightarrow> None)"

section \<open>The format loop\<close>

definition is_digit :: "u16 \<Rightarrow> bool" where "is_digit c \<longleftrightarrow> 0x30 \<le> c \<and> c \<le> 0x39"

definition conv_of :: "u16 \<Rightarrow> conv option" where
  "conv_of c =
     (if c = 0x64 then Some Conv_d else if c = 0x75 then Some Conv_u
      else if c = 0x78 then Some Conv_x else if c = 0x58 then Some Conv_X else None)"

text \<open>What follows \<^verbatim>\<open>%I64\<close>: the conversion, and the rest of the format.\<close>

definition conv64 :: "u16 list \<Rightarrow> (conv \<times> u16 list) option" where
  "conv64 fmt =
     (case fmt of
        [] \<Rightarrow> None
      | c # rest \<Rightarrow> Some (case conv_of c of
            Some Conv_X \<Rightarrow> (Conv_u, fmt)
          | Some v \<Rightarrow> (v, rest)
          | None \<Rightarrow> (Conv_u, fmt)))"

lemma conv64_shorter: "conv64 fmt = Some (c, rest) \<Longrightarrow> length rest \<le> length fmt"
  by (auto simp: conv64_def split: list.splits option.splits conv.splits)

text \<open>
  \<open>spec\<close> is \<open>None\<close> at \<open>format_next\<close>, and the digits of the width so far at \<open>switch_next\<close>.  The width may
  have 25 digits.
\<close>

function (sequential) format_loop :: "nat list option \<Rightarrow> u16 list \<Rightarrow> target \<Rightarrow> target option" where
  "format_loop None fmt t =
     (if remaining t = 0 then Some t
      else case fmt of
        [] \<Rightarrow> None
      | c # fmt \<Rightarrow>
          if c = 0 then Some t
          else if c \<noteq> 0x25 then do { t \<leftarrow> emit_wchar c t; format_loop None fmt t }
          else format_loop (Some []) fmt t)"
| "format_loop (Some ds) [] t = None"
| "format_loop (Some ds) (c # fmt) t =
     (if c = 0x63 then do { (v, t) \<leftarrow> next_int t; t \<leftarrow> emit_wchar (ucast v) t; format_loop None fmt t }
      else if c = 0x73 then do { (s, t) \<leftarrow> next_wide t; t \<leftarrow> emit_wstring s t; format_loop None fmt t }
      else if c = 0x77 \<or> c = 0x57 then (case fmt of
          [] \<Rightarrow> None
        | c # fmt \<Rightarrow>
            if c = 0x73 then do { (s, t) \<leftarrow> next_wide t; t \<leftarrow> emit_wstring s t; format_loop None fmt t }
            else format_loop None fmt t)
      else if c = 0x68 \<or> c = 0x48 then (case fmt of
          [] \<Rightarrow> None
        | c # fmt \<Rightarrow>
            if c = 0x73 then do { (s, t) \<leftarrow> next_narrow t; t \<leftarrow> emit_string s t; format_loop None fmt t }
            else format_loop None fmt t)
      else if c = 0x49 \<or> c = 0x69 then (case fmt of
          [] \<Rightarrow> None
        | c6 # fmt \<Rightarrow>
            if c6 \<noteq> 0x36 then format_loop None fmt t
            else (case fmt of
                [] \<Rightarrow> None
              | c4 # fmt \<Rightarrow>
                  if c4 \<noteq> 0x34 then format_loop None fmt t
                  else (case conv64 fmt of
                      None \<Rightarrow> None
                    | Some (cv, rest) \<Rightarrow> do {
                        (v, t) \<leftarrow> next_int t;
                        t \<leftarrow> emit_int64 ds cv v t;
                        format_loop None rest t
                      })))
      else (case conv_of c of
          Some cv \<Rightarrow> do { (v, t) \<leftarrow> next_int t; t \<leftarrow> emit_int32 ds cv v t; format_loop None fmt t }
        | None \<Rightarrow>
            if is_digit c then
              (if length ds + 1 \<ge> 26 then None else format_loop (Some (ds @ [unat (c - 0x30)])) fmt t)
            else None))"
  by pat_completeness auto
termination
  by (relation "measure (\<lambda>(s, fmt, t). length fmt)") (auto dest: conv64_shorter)

declare format_loop.simps [simp del]

text \<open>The number of characters (an \<^verbatim>\<open>int\<close>) and the buffer.\<close>

definition format :: "u16 list \<Rightarrow> u16 list \<Rightarrow> u64 \<Rightarrow> varg list \<Rightarrow> (u32 \<times> u16 list) option" where
  "format fmt buffer count args = do {
     t \<leftarrow> format_loop None fmt \<lparr>data = buffer, position = 0, remaining = count, vargs = args\<rparr>;
     d \<leftarrow> wr (data t) (position t) 0;
     Some (ucast (count - remaining t), d)
   }"

definition rpl_swprintf :: "u16 list \<Rightarrow> u16 list \<Rightarrow> varg list \<Rightarrow> (u32 \<times> u16 list) option" where
  "rpl_swprintf buffer fmt args = format fmt buffer (- 1) args"

definition rpl__vsnwprintf :: "u16 list \<Rightarrow> u64 \<Rightarrow> u16 list \<Rightarrow> varg list \<Rightarrow> (u32 \<times> u16 list) option" where
  "rpl__vsnwprintf buffer count fmt args = format fmt buffer count args"

definition rpl_swprintf_s :: "u16 list \<Rightarrow> u64 \<Rightarrow> u16 list \<Rightarrow> varg list \<Rightarrow> (u32 \<times> u16 list) option" where
  "rpl_swprintf_s buffer sizeOfBuffer fmt args = format fmt buffer sizeOfBuffer args"

end
