(* ===== verification/Format_Spec.thy ===== *)
theory Format_Spec
  imports Format
begin

text \<open>
  What \<open>__format\<close> prints: a format is the text of a list of directives, and the output is the
  concatenation of what the directives stand for.  The lemmas at the end show where the count of
  the destination does not protect it.
\<close>

section \<open>Directives\<close>

datatype directive = Text u16 | Chr u64 | Str "u16 list option" | Nstr "u8 list option"
  | Num "nat list" conv u64 | Num64 "nat list" conv u64

definition digit_wchar :: "nat \<Rightarrow> u16" where "digit_wchar d = of_nat (48 + d)"

definition conv_char :: "conv \<Rightarrow> u16" where
  "conv_char c = (case c of Conv_d \<Rightarrow> 0x64 | Conv_u \<Rightarrow> 0x75 | Conv_x \<Rightarrow> 0x78 | Conv_X \<Rightarrow> 0x58)"

text \<open>How a directive is written, the argument it takes and what it prints.\<close>

fun unparse :: "directive \<Rightarrow> u16 list" where
  "unparse (Text c) = [c]"
| "unparse (Chr v) = [0x25, 0x63]"
| "unparse (Str s) = [0x25, 0x73]"
| "unparse (Nstr s) = [0x25, 0x68, 0x73]"
| "unparse (Num ds c v) = 0x25 # map digit_wchar ds @ [conv_char c]"
| "unparse (Num64 ds c v) = 0x25 # map digit_wchar ds @ [0x49, 0x36, 0x34, conv_char c]"

fun takes :: "directive \<Rightarrow> varg list" where
  "takes (Text c) = []"
| "takes (Chr v) = [Int_arg v]"
| "takes (Str s) = [Wide_arg s]"
| "takes (Nstr s) = [Narrow_arg s]"
| "takes (Num ds c v) = [Int_arg v]"
| "takes (Num64 ds c v) = [Int_arg v]"

fun render :: "directive \<Rightarrow> u16 list" where
  "render (Text c) = [c]"
| "render (Chr v) = [ucast v]"
| "render (Str s) = (case s of None \<Rightarrow> map of_char ''(nil)'' | Some s \<Rightarrow> the (wide s))"
| "render (Nstr s) = map scast (case s of None \<Rightarrow> map of_char ''(null)'' | Some s \<Rightarrow> the (narrow s))"
| "render (Num ds c v) = map scast (print_number ds c 32 v)"
| "render (Num64 ds c v) = map scast (print_number ds c 64 v)"

text \<open>Strings are terminated, and numbers fit the local buffer.\<close>

fun printable :: "directive \<Rightarrow> bool" where
  "printable (Text c) \<longleftrightarrow> c \<noteq> 0 \<and> c \<noteq> 0x25"
| "printable (Chr v) \<longleftrightarrow> True"
| "printable (Str s) \<longleftrightarrow> (case s of None \<Rightarrow> True | Some s \<Rightarrow> wide s \<noteq> None)"
| "printable (Nstr s) \<longleftrightarrow> (case s of None \<Rightarrow> True | Some s \<Rightarrow> narrow s \<noteq> None)"
| "printable (Num ds c v) \<longleftrightarrow> length ds \<le> 25 \<and> list_all (\<lambda>d. d < 10) ds \<and> length (print_number ds c 32 v) < 32"
| "printable (Num64 ds c v) \<longleftrightarrow> c \<noteq> Conv_X \<and> length ds \<le> 25 \<and> list_all (\<lambda>d. d < 10) ds \<and>
     length (print_number ds c 64 v) < 64"

section \<open>Output\<close>

definition fits :: "target \<Rightarrow> nat \<Rightarrow> bool" where
  "fits t n \<longleftrightarrow> position t + n \<le> length (data t)"

definition advance :: "u16 list \<Rightarrow> target \<Rightarrow> target" where
  "advance out t = t\<lparr>data := take (position t) (data t) @ out @ drop (position t + length out) (data t),
     position := position t + length out, remaining := remaining t - of_nat (length out)\<rparr>"

lemma advance_simps [simp]:
  "position (advance out t) = position t + length out"
  "remaining (advance out t) = remaining t - of_nat (length out)"
  "vargs (advance out t) = vargs t"
  "(advance out t)\<lparr>vargs := as\<rparr> = advance out (t\<lparr>vargs := as\<rparr>)"
  by (simp_all add: advance_def)

lemma length_advance [simp]: "fits t (length out) \<Longrightarrow> length (data (advance out t)) = length (data t)"
  by (simp add: advance_def fits_def)

lemma fits_advance: "fits t (length a + n) \<Longrightarrow> fits (advance a t) n"
  by (simp add: advance_def fits_def)

lemma fits_vargs [simp]: "fits (t\<lparr>vargs := as\<rparr>) n = fits t n"
  by (simp add: fits_def)

lemma advance_Nil [simp]: "advance [] t = t"
  by (simp add: advance_def)

lemma advance_append: "fits t (length a + length b) \<Longrightarrow> advance b (advance a t) = advance (a @ b) t"
  by (simp add: advance_def fits_def diff_diff_eq add.commute add.left_commute)

lemma emit_all_exact:
  "fits t (length s) \<Longrightarrow>
     emit_all s t = Some (t\<lparr>data := take (position t) (data t) @ s @ drop (position t + length s) (data t),
       position := position t + length s\<rparr>)"
proof (induction s arbitrary: t)
  case (Cons c s)
  let ?t = "t\<lparr>data := (data t)[position t := c], position := position t + 1\<rparr>"
  have f: "fits ?t (length s)" "position t < length (data t)" using Cons.prems by (simp_all add: fits_def)
  have "take (position t + 1) ((data t)[position t := c]) = take (position t) (data t) @ [c]"
    using f(2) by (simp add: take_Suc_conv_app_nth del: take_update_swap) 
  with Cons.IH [OF f(1)] f(2) show ?case
    by (simp add: emit_def faults)
qed simp

text \<open>The routines that put out strings and numbers advance the target by what they print.\<close>

lemma emit_wchar_exact: "fits t 1 \<Longrightarrow> emit_wchar c t = Some (advance [c] t)"
  by (simp add: emit_wchar_def emit_def advance_def fits_def faults upd_conv_take_nth_drop)

lemma emit_wstring_Some:
  "(case str of None \<Rightarrow> Some (map of_char ''(nil)'') | Some s \<Rightarrow> wide s) = Some w \<Longrightarrow> fits t (length w) \<Longrightarrow>
     emit_wstring str t = Some (advance w t)"
  by (simp add: emit_wstring_def emit_all_exact advance_def)

lemma emit_string_Some:
  "(case str of None \<Rightarrow> Some (map of_char ''(null)'') | Some s \<Rightarrow> narrow s) = Some w \<Longrightarrow> fits t (length w) \<Longrightarrow>
     emit_string str t = Some (advance (map scast w) t)"
  by (simp add: emit_string_def emit_all_exact advance_def)

lemma emit_wstring_exact:
  assumes "fits t (length (render (Str s)))" "printable (Str s)"
  shows "emit_wstring s t = Some (advance (render (Str s)) t)"
  by (rule emit_wstring_Some) (use assms in \<open>cases s; auto\<close>)+

lemma emit_string_exact:
  assumes "fits t (length (render (Nstr s)))" "printable (Nstr s)"
  shows "emit_string s t = Some (advance (render (Nstr s)) t)"
  unfolding render.simps by (rule emit_string_Some) (use assms in \<open>cases s; auto\<close>)+

lemma width_le_length: "width_of ds \<le> int (length (print_number ds c bits v))"
  by (cases "number_parts c bits v") (simp add: print_number_def Let_def)

lemma emit_number_exact:
  assumes "fits t (length (print_number ds c bits v))" "length (print_number ds c bits v) < room" "room \<le> 64"
  shows "emit_number room ds c bits v t = Some (advance (map scast (print_number ds c bits v)) t)"
proof -
  have "width_of ds < 2 ^ 31" using width_le_length [of ds c bits v] assms(2,3) by simp
  moreover have "take (room - 1) (print_number ds c bits v) = print_number ds c bits v"
    using assms(2) by simp
  ultimately show ?thesis
    using assms(1) by (simp add: emit_number_def emit_all_exact advance_def Let_def)
qed

section \<open>The loop\<close>

lemma digit_wchar_cases:
  assumes "d < 10"
  shows "is_digit (digit_wchar d)" "conv_of (digit_wchar d) = None" "unat (digit_wchar d - 0x30) = d"
    "digit_wchar d \<notin> {0x63, 0x73, 0x77, 0x57, 0x68, 0x48, 0x49, 0x69}"
proof -
  have "d \<in> {0, 1, 2, 3, 4, 5, 6, 7, 8, 9}" using assms by auto
  then show "is_digit (digit_wchar d)" "conv_of (digit_wchar d) = None" "unat (digit_wchar d - 0x30) = d"
    "digit_wchar d \<notin> {0x63, 0x73, 0x77, 0x57, 0x68, 0x48, 0x49, 0x69}"
    by (auto simp: digit_wchar_def is_digit_def conv_of_def)
qed

lemma format_loop_digits:
  "list_all (\<lambda>d. d < 10) ds \<Longrightarrow> length es + length ds \<le> 25 \<Longrightarrow>
     format_loop (Some es) (map digit_wchar ds @ fmt) t = format_loop (Some (es @ ds)) fmt t"
proof (induction ds arbitrary: es)
  case (Cons d ds)
  then show ?case
    using digit_wchar_cases [of d] by (simp add: format_loop.simps)
qed simp

lemma format_loop_percent:
  "remaining t \<noteq> 0 \<Longrightarrow> format_loop None (0x25 # fmt) t = format_loop (Some []) fmt t"
  by (simp add: format_loop.simps)

lemma format_loop_text:
  "remaining t \<noteq> 0 \<Longrightarrow> c \<noteq> 0 \<Longrightarrow> c \<noteq> 0x25 \<Longrightarrow>
     format_loop None (c # fmt) t = do { t \<leftarrow> emit_wchar c t; format_loop None fmt t }"
  by (subst format_loop.simps(1)) simp

lemma unat_u64_less: "unat (w :: u64) < 18446744073709551616"
  using unsigned_less [of w] by simp

lemma conv_of_char [simp]: "conv_of (conv_char c) = Some c"
  by (cases c) (simp_all add: conv_char_def conv_of_def)

lemma conv_char_cases:
  "conv_char c \<notin> {0x63, 0x73, 0x77, 0x57, 0x68, 0x48, 0x49, 0x69}"
  by (cases c) (simp_all add: conv_char_def)

lemma next_simps [simp]:
  "vargs t = Int_arg v # as \<Longrightarrow> next_int t = Some (v, t\<lparr>vargs := as\<rparr>)"
  "vargs t = Wide_arg s # as \<Longrightarrow> next_wide t = Some (s, t\<lparr>vargs := as\<rparr>)"
  "vargs t = Narrow_arg n # as \<Longrightarrow> next_narrow t = Some (n, t\<lparr>vargs := as\<rparr>)"
  by (simp_all add: next_int_def next_wide_def next_narrow_def)

text \<open>One directive, in front of the rest of the format.\<close>

lemma format_loop_directive:
  assumes "printable d" "fits t (length (render d))" "remaining t \<noteq> 0" "vargs t = takes d @ as"
  shows "format_loop None (unparse d @ fmt) t = format_loop None fmt (advance (render d) (t\<lparr>vargs := as\<rparr>))"
proof (cases d)
  case (Text c)
  with assms(4) have same: "t\<lparr>vargs := as\<rparr> = t" by auto
  show ?thesis unfolding same using Text assms by (simp add: format_loop_text emit_wchar_exact)
next
  case (Chr v)
  then show ?thesis using assms
    by (simp add: format_loop_percent format_loop.simps(3) emit_wchar_exact)
next
  case (Str s)
  then show ?thesis using assms emit_wstring_exact [of "t\<lparr>vargs := as\<rparr>" s]
    by (simp add: format_loop_percent format_loop.simps(3))
next
  case (Nstr s)
  then show ?thesis using assms emit_string_exact [of "t\<lparr>vargs := as\<rparr>" s]
    by (simp add: format_loop_percent format_loop.simps(3))
next
  case (Num ds c v)
  then show ?thesis using assms emit_number_exact [of "t\<lparr>vargs := as\<rparr>" ds c 32 v 32] conv_char_cases [of c]
    by (simp add: format_loop_percent format_loop_digits format_loop.simps(3) emit_int32_def)
next
  case (Num64 ds c v)
  then have "conv64 (conv_char c # fmt) = Some (c, fmt)"
    using assms(1) by (cases c) (simp_all add: conv64_def)
  then show ?thesis using Num64 assms emit_number_exact [of "t\<lparr>vargs := as\<rparr>" ds c 64 v 64]
    by (simp add: format_loop_percent format_loop_digits format_loop.simps(3) emit_int64_def)
qed

lemma format_loop_directives:
  assumes "list_all printable ds" "fits t (length (concat (map render ds)))"
    "length (concat (map render ds)) < unat (remaining t)" "vargs t = concat (map takes ds) @ as"
  shows "format_loop None (concat (map unparse ds) @ [0]) t =
    Some (advance (concat (map render ds)) (t\<lparr>vargs := as\<rparr>))"
  using assms
proof (induction ds arbitrary: t)
  case Nil
  then have "t\<lparr>vargs := as\<rparr> = t" "remaining t \<noteq> 0" by auto
  then show ?case by (simp add: format_loop.simps)
next
  case (Cons d ds)
  let ?n = "length (render d)" and ?u = "advance (render d) (t\<lparr>vargs := concat (map takes ds) @ as\<rparr>)"
  have n: "?n + length (concat (map render ds)) < unat (remaining t)" using Cons.prems(3) by simp
  then have "unat (of_nat ?n :: u64) = ?n"
    using unat_u64_less [of "remaining t"] by (simp add: unat_of_nat take_bit_nat_eq_self_iff)
  then have r: "unat (remaining t - of_nat ?n) = unat (remaining t) - ?n"
    using n by (subst unat_sub) (simp_all add: word_le_nat_alt)
  have "format_loop None (concat (map unparse (d # ds)) @ [0]) t = format_loop None (concat (map unparse ds) @ [0]) ?u"
    using Cons.prems n format_loop_directive [of d t "concat (map takes ds) @ as" "concat (map unparse ds) @ [0]"]
    by (cases "remaining t = 0") (auto simp: fits_def)
  also have "\<dots> = Some (advance (concat (map render ds)) (?u\<lparr>vargs := as\<rparr>))"
    using Cons.prems n r by (intro Cons.IH fits_advance) simp_all
  also have "\<dots> = Some (advance (concat (map render (d # ds))) (t\<lparr>vargs := as\<rparr>))"
    using Cons.prems(2) by (simp add: advance_append)
  finally show ?case .
qed

text \<open>
  C26. For every list of printable directives with the arguments they take, and a count and a buffer
  larger than the output, \<open>_vsnwprintf\<close> writes exactly what the directives print and a
  terminator, leaves the rest of the buffer alone, and returns the number of characters.  Printable are plain characters,
  \<^verbatim>\<open>%c\<close>, \<^verbatim>\<open>%s\<close> and \<^verbatim>\<open>%hs\<close> with a null pointer or a terminated string, and numbers of 32 bits (\<^verbatim>\<open>%d %u %x %X\<close>)
  and 64 bits (\<^verbatim>\<open>%I64d %I64u %I64x\<close>, not \<^verbatim>\<open>%I64X\<close>, which the code does not know), with a width or without, that take fewer than
  32 or 64 characters with their padding, the size of the local buffer.
\<close>

theorem rpl__vsnwprintf_prints:
  assumes "list_all printable ds" "out = concat (map render ds)" "length out < length buffer" "length out < unat count"
  shows "rpl__vsnwprintf buffer count (concat (map unparse ds) @ [0]) (concat (map takes ds)) =
    Some (of_nat (length out), out @ 0 # drop (length out + 1) buffer)"
proof -
  let ?t = "\<lparr>data = buffer, position = 0, remaining = count, vargs = concat (map takes ds)\<rparr>"
  have "format_loop None (concat (map unparse ds) @ [0]) ?t = Some (advance out (?t\<lparr>vargs := []\<rparr>))"
    unfolding assms(2)
    by (rule format_loop_directives) (use assms in \<open>simp_all add: fits_def\<close>)
  moreover have "(out @ drop (length out) buffer)[length out := 0] = out @ 0 # drop (length out + 1) buffer"
    using assms(3) by (simp add: list_update_append Cons_nth_drop_Suc [symmetric])
  moreover have "ucast (of_nat (length out) :: u64) = (of_nat (length out) :: u32)"
    using assms(4) unat_u64_less [of count]
    by (simp add: unsigned_of_nat take_bit_nat_eq_self [of "length out" 64])
  ultimately show ?thesis using assms(3)
    by (simp add: rpl__vsnwprintf_def format_def advance_def wr_def)
qed

lemma rpl__vsnwprintf_prints_witness:
  "rpl__vsnwprintf (replicate 20 7) 20 (concat (map unparse [Text 0x61, Num [0, 4] Conv_x 0xbeef, Str (Some [0x62, 0x63, 0])]) @ [0])
     [Int_arg 0xbeef, Wide_arg (Some [0x62, 0x63, 0])] =
   Some (7, [0x61, 0x62, 0x65, 0x65, 0x66, 0x62, 0x63] @ 0 # drop 8 (replicate 20 7))"
proof -
  let ?ds = "[Text 0x61, Num [0, 4] Conv_x 0xbeef, Str (Some [0x62, 0x63, 0])]"
  have p: "print_number [0, 4] Conv_x 32 0xbeef = [0x62, 0x65, 0x65, 0x66]" by code_simp
  have r: "concat (map render ?ds) = [0x61, 0x62, 0x65, 0x65, 0x66, 0x62, 0x63]"
    by (simp add: p)
  show ?thesis
    using rpl__vsnwprintf_prints [of ?ds _ "replicate 20 7" 20, OF _ refl] by (simp add: r p)
qed

section \<open>Deviations\<close>

text \<open>
  The count is a \<^verbatim>\<open>size_t\<close>: a string longer than it makes it wrap around, and everything behind is
  written without a bound.
\<close>

lemma format_count_wraps:
  "rpl_swprintf_s (replicate 4 0) 2 [0x25, 0x73, 0x61, 0x62, 0x63, 0] [Wide_arg (Some [0x78, 0x79, 0x7a, 0])] = None"
  by code_simp

text \<open>The terminator lies behind a destination that is full.\<close>

lemma format_terminator_behind: "rpl_swprintf_s (replicate 2 7) 2 [0x61, 0x62, 0x63, 0] [] = None"
  by code_simp

text \<open>\<^verbatim>\<open>%I64X\<close> prints a decimal number and an X.\<close>

lemma format_I64X:
  "rpl_swprintf (replicate 5 0) [0x25, 0x49, 0x36, 0x34, 0x58, 0] [Int_arg 255] =
     Some (4, [0x32, 0x35, 0x35, 0x58, 0])"
  by code_simp

end
