(* ===== verification/Debug_Print.thy ===== *)
theory Debug_Print
  imports Format
begin

text \<open>
  \<open>__dbg_print\<close> of \<^verbatim>\<open>libs/ntdll/format.c\<close>, behind \<^verbatim>\<open>DbgPrint\<close>: a narrow format with the
  conventions of Microsoft, printed to a stream.  \<^verbatim>\<open>snprintf\<close>, to which every number is passed with
  a normalised conversion, is an argument; of its result the local buffer keeps 63 bytes.  A \<^verbatim>\<open>*\<close>
  in the conversion makes \<^verbatim>\<open>snprintf\<close> read arguments that were not passed: \<open>None\<close>.
\<close>

text \<open>Characters outside ASCII are printed as a question mark.\<close>

definition dbg_char :: "u16 \<Rightarrow> u8" where
  "dbg_char c = (if c < 0x80 then ucast c else 0x3f)"

definition dbg_emit_wstr :: "u16 list option \<Rightarrow> u8 list option" where
  "dbg_emit_wstr s = (case s of None \<Rightarrow> Some (map of_char ''(null)'') | Some s \<Rightarrow> map_option (map dbg_char) (wide s))"

text \<open>Characters that go into the conversion, while it has room: 8 of its 64 bytes stay free.\<close>

fun span_spec :: "(u8 \<Rightarrow> bool) \<Rightarrow> u8 list \<Rightarrow> u8 list \<Rightarrow> (u8 list \<times> u8 list) option" where
  "span_spec p spec [] = None"
| "span_spec p spec (c # fmt) =
     (if p c \<and> length spec < 56 then span_spec p (spec @ [c]) fmt else Some (spec, c # fmt))"

definition is_flag :: "u8 \<Rightarrow> bool" where "is_flag c \<longleftrightarrow> c \<in> {0x2d, 0x2b, 0x20, 0x23, 0x30}"
definition is_digit8 :: "u8 \<Rightarrow> bool" where "is_digit8 c \<longleftrightarrow> 0x30 \<le> c \<and> c \<le> 0x39"

text \<open>A width or a precision: \<^verbatim>\<open>*\<close> or digits.\<close>

definition span_width :: "u8 list \<Rightarrow> u8 list \<Rightarrow> (u8 list \<times> u8 list) option" where
  "span_width spec fmt =
     (case fmt of
        [] \<Rightarrow> None
      | c # rest \<Rightarrow>
          if c = 0x2a \<and> length spec < 56 then Some (spec @ [c], rest) else span_spec is_digit8 spec fmt)"

definition span_precision :: "u8 list \<Rightarrow> u8 list \<Rightarrow> (u8 list \<times> u8 list) option" where
  "span_precision spec fmt =
     (case fmt of
        [] \<Rightarrow> None
      | c # rest \<Rightarrow> if c = 0x2e \<and> length spec < 56 then span_width (spec @ [c]) rest else Some (spec, fmt))"

text \<open>The length modifier: whether the argument is wide, the conversion and the rest.\<close>

definition dbg_modifier :: "u8 list \<Rightarrow> u8 list \<Rightarrow> (bool \<times> u8 list \<times> u8 list) option" where
  "dbg_modifier spec fmt =
     (case fmt of
        [] \<Rightarrow> None
      | c # f \<Rightarrow>
          if c = 0x6c then (case f of
              [] \<Rightarrow> None
            | d # g \<Rightarrow> Some (if d = 0x6c then (False, spec @ [0x6c, 0x6c], g) else (True, spec, f)))
          else if c = 0x68 then (case f of
              [] \<Rightarrow> None
            | d # g \<Rightarrow> Some (if d = 0x68 then (False, spec @ [0x68, 0x68], g) else (False, spec @ [0x68], f)))
          else if c = 0x49 then (case f of
              [] \<Rightarrow> None
            | d # g \<Rightarrow>
                if d = 0x36 \<or> d = 0x33 then (case g of
                    [] \<Rightarrow> None
                  | e # h \<Rightarrow> Some (
                      if d = 0x36 \<and> e = 0x34 then (False, spec @ [0x6c, 0x6c], h)
                      else if d = 0x33 \<and> e = 0x32 then (False, spec, h)
                      else (False, spec @ [0x6c, 0x6c], f)))
                else Some (False, spec @ [0x6c, 0x6c], f))
          else if c = 0x77 then Some (True, spec, f)
          else Some (False, spec, fmt))"

text \<open>One conversion: what it prints, what it adds to the total, and the arguments left.\<close>

definition is_number_conv :: "u8 \<Rightarrow> bool" where
  "is_number_conv c \<longleftrightarrow> c \<in> {0x64, 0x69, 0x75, 0x6f, 0x78, 0x58, 0x70, 0x66, 0x65, 0x45, 0x67, 0x47, 0x61, 0x41}"

definition dbg_conv ::
  "(u8 list \<Rightarrow> u64 \<Rightarrow> u8 list) \<Rightarrow> bool \<Rightarrow> u8 list \<Rightarrow> u8 \<Rightarrow> varg list \<Rightarrow> (u8 list \<times> nat \<times> varg list) option" where
  "dbg_conv snprintf wide_arg spec c args =
     (if c = 0x25 then Some ([0x25], 1, args)
      else if c = 0x73 \<and> \<not> wide_arg then (case args of
          Narrow_arg s # as \<Rightarrow> do {
            t \<leftarrow> (case s of None \<Rightarrow> Some (map of_char ''(null)'') | Some s \<Rightarrow> narrow s);
            Some (t, 0, as)
          }
        | _ \<Rightarrow> None)
      else if c = 0x73 \<or> c = 0x53 then (case args of
          Wide_arg s # as \<Rightarrow> do { t \<leftarrow> dbg_emit_wstr s; Some (t, 0, as) }
        | _ \<Rightarrow> None)
      else if c = 0x63 \<and> \<not> wide_arg then (case args of
          Int_arg v # as \<Rightarrow> Some ([ucast v], 0, as)
        | _ \<Rightarrow> None)
      else if c = 0x63 \<or> c = 0x43 then (case args of
          Int_arg v # as \<Rightarrow> Some ([dbg_char (ucast v)], 0, as)
        | _ \<Rightarrow> None)
      else if is_number_conv c then
        (if 0x2a \<in> set spec then None
         else case args of
           Int_arg v # as \<Rightarrow> Some (take 63 (snprintf (spec @ [c]) v), 0, as)
         | _ \<Rightarrow> None)
      else Some ([0x25, c], 0, args))"

lemma span_spec_shorter: "span_spec p spec fmt = Some (s, r) \<Longrightarrow> length r \<le> length fmt"
  by (induction fmt arbitrary: spec) (fastforce split: if_splits)+

lemma span_width_shorter: "span_width spec fmt = Some (s, r) \<Longrightarrow> length r \<le> length fmt"
  by (auto simp: span_width_def dest: span_spec_shorter split: list.splits if_splits)

lemma span_precision_shorter: "span_precision spec fmt = Some (s, r) \<Longrightarrow> length r \<le> length fmt"
  by (auto simp: span_precision_def dest: span_width_shorter split: list.splits if_splits)

lemma dbg_modifier_shorter: "dbg_modifier spec fmt = Some (w, s, r) \<Longrightarrow> length r \<le> length fmt"
  by (auto simp: dbg_modifier_def split: list.splits if_splits)

text \<open>From the percent sign to the conversion character: \<open>None\<close> inside is the end of the format.\<close>

definition dbg_spec :: "u8 list \<Rightarrow> ((bool \<times> u8 list \<times> u8) \<times> u8 list) option option" where
  "dbg_spec fmt = do {
     (spec, fmt) \<leftarrow> span_spec is_flag [0x25] fmt;
     (spec, fmt) \<leftarrow> span_width spec fmt;
     (spec, fmt) \<leftarrow> span_precision spec fmt;
     (wide_arg, spec, fmt) \<leftarrow> dbg_modifier spec fmt;
     case fmt of
       [] \<Rightarrow> None
     | c # fmt \<Rightarrow> Some (if c = 0 then None else Some ((wide_arg, spec, c), fmt))
   }"

lemma dbg_spec_shorter:
  assumes "dbg_spec fmt = Some (Some (x, r))"
  shows "length r < length fmt"
proof -
  obtain s1 f1 where 1: "span_spec is_flag [0x25] fmt = Some (s1, f1)"
    using assms by (cases "span_spec is_flag [0x25] fmt") (auto simp: dbg_spec_def)
  obtain s2 f2 where 2: "span_width s1 f1 = Some (s2, f2)"
    using assms by (cases "span_width s1 f1") (auto simp: dbg_spec_def 1)
  obtain s3 f3 where 3: "span_precision s2 f2 = Some (s3, f3)"
    using assms by (cases "span_precision s2 f2") (auto simp: dbg_spec_def 1 2)
  obtain w s4 f4 where 4: "dbg_modifier s3 f3 = Some (w, s4, f4)"
    using assms by (cases "dbg_modifier s3 f3") (auto simp: dbg_spec_def 1 2 3)
  have f4: "(case f4 of [] \<Rightarrow> None | c # g \<Rightarrow> Some (if c = 0 then None else Some ((w, s4, c), g))) = Some (Some (x, r))"
    using assms by (simp add: dbg_spec_def 1 2 3 4)
  have "length f4 \<le> length fmt"
    using span_spec_shorter [OF 1] span_width_shorter [OF 2] span_precision_shorter [OF 3] dbg_modifier_shorter [OF 4]
    by linarith
  moreover have "length r < length f4" using f4 by (cases f4) (auto split: if_splits)
  ultimately show ?thesis by simp
qed

text \<open>The text printed and the total returned.\<close>

function dbg_print :: "(u8 list \<Rightarrow> u64 \<Rightarrow> u8 list) \<Rightarrow> u8 list \<Rightarrow> varg list \<Rightarrow> (u8 list \<times> nat) option" where
  "dbg_print snprintf fmt args =
     (case fmt of
        [] \<Rightarrow> None
      | c # fmt \<Rightarrow>
          if c = 0 then Some ([], 0)
          else if c \<noteq> 0x25 then map_option (\<lambda>(out, n). (c # out, n + 1)) (dbg_print snprintf fmt args)
          else (case dbg_spec fmt of
              None \<Rightarrow> None
            | Some None \<Rightarrow> Some ([], 0)
            | Some (Some ((wide_arg, spec, conv), rest)) \<Rightarrow>
                (case dbg_conv snprintf wide_arg spec conv args of
                   None \<Rightarrow> None
                 | Some (text, k, as) \<Rightarrow>
                     map_option (\<lambda>(out, n). (text @ out, n + k)) (dbg_print snprintf rest as))))"
  by pat_completeness auto
termination
  by (relation "measure (\<lambda>(f, fmt, as). length fmt)") (auto dest!: dbg_spec_shorter)

declare dbg_print.simps [simp del]

definition DbgPrint :: "(u8 list \<Rightarrow> u64 \<Rightarrow> u8 list) \<Rightarrow> u8 list \<Rightarrow> varg list \<Rightarrow> (u8 list \<times> NTSTATUS) option" where
  "DbgPrint snprintf fmt args = map_option (\<lambda>(out, n). (out, STATUS_SUCCESS)) (dbg_print snprintf fmt args)"

definition DbgPrintEx ::
  "(u8 list \<Rightarrow> u64 \<Rightarrow> u8 list) \<Rightarrow> u32 \<Rightarrow> u32 \<Rightarrow> u8 list \<Rightarrow> varg list \<Rightarrow> (u8 list \<times> NTSTATUS) option" where
  "DbgPrintEx snprintf ComponentId Level fmt args = DbgPrint snprintf fmt args"

section \<open>Lemmas\<close>

text \<open>Text without conversions is printed as it is.\<close>

lemma dbg_print_text:
  "0 \<notin> set s \<Longrightarrow> 0x25 \<notin> set s \<Longrightarrow> dbg_print f (s @ 0 # r) args = Some (s, length s)"
  by (induction s) (auto simp: dbg_print.simps)

text \<open>A width that is an argument is not passed on.\<close>

lemma DbgPrint_star: "DbgPrint f [0x25, 0x2a, 0x64, 0] [Int_arg 5, Int_arg 7] = None"
  by (simp add: DbgPrint_def dbg_print.simps dbg_spec_def span_width_def span_precision_def dbg_modifier_def
      is_flag_def dbg_conv_def is_number_conv_def)

text \<open>The total counts neither strings nor numbers.\<close>

lemma dbg_print_total: "map_option snd (dbg_print f [0x25, 0x64, 0] [Int_arg 7]) = Some 0"
  by (simp add: dbg_print.simps dbg_spec_def span_width_def span_precision_def dbg_modifier_def
      is_flag_def is_digit8_def dbg_conv_def is_number_conv_def)

end
