(* ===== verification/Device_Control.thy ===== *)
theory Device_Control
  imports Handles Time Byte_Memory Registry
begin

text \<open>
  The information and control calls on file handles of \<^verbatim>\<open>libs/ntdll/ioctl.c\<close>: what a file, a volume
  and a disk report about themselves.  Structures are written into flat memory with the layout of
  the 64-bit build.  The result of a call is its status and the memory; \<open>None\<close> is a fault or
  \<^verbatim>\<open>abort()\<close>.
\<close>

section \<open>Files\<close>

text \<open>What \<^verbatim>\<open>fstat\<close> left in the handle when the file was opened; times as the code casts them.\<close>

record file_stat =
  st_mode :: u32
  st_size :: u64
  st_blocks :: u64
  st_nlink :: u32
  st_mtime :: u32
  st_ctime :: u32
  st_atime :: u32

record file_handle = handle +
  fh :: int
  mode :: u32
  stat :: file_stat

definition S_ISDIR :: "u32 \<Rightarrow> bool" where "S_ISDIR m \<longleftrightarrow> m AND 0xf000 = 0x4000"

definition CHECK_FILE :: "file_handle option \<Rightarrow> NTSTATUS option" where
  "CHECK_FILE h = CHECK_HANDLE (map_option handle.truncate h) HANDLE_FILE"

section \<open>Writing structures\<close>

text \<open>Assignments to the fields of a structure, by offset, and \<^verbatim>\<open>memset\<close> to zero.\<close>

datatype field = F8 nat u8 | F16 nat u16 | F32 nat u32 | F64 nat u64 | Fzero nat nat

fun put_field :: "nat \<Rightarrow> field \<Rightarrow> mem \<Rightarrow> mem option" where
  "put_field a (F8 x v) m = st8 m (a + x) v"
| "put_field a (F16 x v) m = st16 m (a + x) v"
| "put_field a (F32 x v) m = st32 m (a + x) v"
| "put_field a (F64 x v) m = st64 m (a + x) v"
| "put_field a (Fzero x n) m = put_bytes m (a + x) (replicate n 0)"

fun put_all :: "nat \<Rightarrow> field list \<Rightarrow> mem \<Rightarrow> mem option" where
  "put_all a [] m = Some m"
| "put_all a (f # fs) m = do { m \<leftarrow> put_field a f m; put_all a fs m }"

text \<open>Through a pointer, which must not be null.\<close>

definition put_fields :: "nat \<Rightarrow> field list \<Rightarrow> mem \<Rightarrow> mem option" where
  "put_fields a fs m = (if a = 0 then None else put_all a fs m)"

type_synonym answer = "(NTSTATUS \<times> mem) option"

text \<open>\<^verbatim>\<open>IoStatusBlock->u.Status = st; return st\<close>, with or without \<open>Information\<close> first.\<close>

definition set_Status :: "nat \<Rightarrow> NTSTATUS \<Rightarrow> mem \<Rightarrow> answer" where
  "set_Status iosb st m = do { m \<leftarrow> put_fields iosb [F32 0 st] m; Some (st, m) }"

definition succeed :: "nat \<Rightarrow> u64 \<Rightarrow> mem \<Rightarrow> answer" where
  "succeed iosb info m = do { m \<leftarrow> put_fields iosb [F64 8 info] m; set_Status iosb STATUS_SUCCESS m }"

text \<open>\<^verbatim>\<open>CHECK_HANDLE\<close> and \<^verbatim>\<open>CHECK_POINTER(IoStatusBlock)\<close>, and the body.\<close>

definition checked :: "file_handle option \<Rightarrow> nat \<Rightarrow> mem \<Rightarrow> (file_handle \<Rightarrow> answer) \<Rightarrow> answer" where
  "checked FileHandle iosb m body =
     (case CHECK_FILE FileHandle of Some st \<Rightarrow> Some (st, m)
      | None \<Rightarrow> if iosb = 0 then Some (STATUS_ACCESS_VIOLATION, m)
          else (case FileHandle of None \<Rightarrow> None | Some h \<Rightarrow> body h))"

section \<open>Files and volumes\<close>

definition FILE_ATTRIBUTE_READONLY :: u32 where "FILE_ATTRIBUTE_READONLY = 1"
definition FILE_ATTRIBUTE_DIRECTORY :: u32 where "FILE_ATTRIBUTE_DIRECTORY = 0x10"
definition FILE_ATTRIBUTE_ARCHIVE :: u32 where "FILE_ATTRIBUTE_ARCHIVE = 0x20"

definition file_attributes :: "file_stat \<Rightarrow> u32" where
  "file_attributes st =
     (if S_ISDIR (st_mode st) then FILE_ATTRIBUTE_DIRECTORY else FILE_ATTRIBUTE_ARCHIVE) OR
     (if st_mode st AND 0x92 = 0 then FILE_ATTRIBUTE_READONLY else 0)"

definition file_time :: "u32 \<Rightarrow> u64" where
  "file_time t = QuadPart (RtlSecondsSince1970ToTime t)"

definition basic_information :: "file_stat \<Rightarrow> field list" where
  "basic_information st =
     [F32 32 (file_attributes st), F64 0 (file_time (st_mtime st)), F64 16 (file_time (st_mtime st)),
      F64 24 (file_time (st_ctime st)), F64 8 (file_time (st_atime st))]"

definition standard_information :: "file_stat \<Rightarrow> field list" where
  "standard_information st =
     (if S_ISDIR (st_mode st) then [F8 21 1, F64 0 0, F64 8 0, F32 16 1]
      else [F8 21 0, F64 8 (st_size st), F64 0 (st_blocks st * 512), F32 16 (st_nlink st)])"

text \<open>The classes are 4 (basic), 5 (standard) and 17 (alignment).\<close>

definition NtQueryInformationFile :: "file_handle option \<Rightarrow> nat \<Rightarrow> nat \<Rightarrow> u32 \<Rightarrow> nat \<Rightarrow> mem \<Rightarrow> answer" where
  "NtQueryInformationFile FileHandle iosb FileInformation Len cls m =
     checked FileHandle iosb m (\<lambda>h.
       if cls = 17 then
         (if Len < 4 then set_Status iosb STATUS_BUFFER_TOO_SMALL m
          else do { m \<leftarrow> put_fields FileInformation [F32 0 0] m; succeed iosb 4 m })
       else if cls = 4 then
         (if Len < 40 then set_Status iosb STATUS_BUFFER_TOO_SMALL m
          else do { m \<leftarrow> put_fields FileInformation (basic_information (stat h)) m; succeed iosb 40 m })
       else if cls = 5 then
         (if Len < 24 then set_Status iosb STATUS_BUFFER_TOO_SMALL m
          else do { m \<leftarrow> put_fields FileInformation (standard_information (stat h)) m; succeed iosb 24 m })
       else set_Status iosb STATUS_NOT_IMPLEMENTED m)"

definition NtSetInformationFile :: "file_handle option \<Rightarrow> nat \<Rightarrow> nat \<Rightarrow> u32 \<Rightarrow> nat \<Rightarrow> mem \<Rightarrow> answer" where
  "NtSetInformationFile FileHandle iosb FileInformation Len cls m =
     checked FileHandle iosb m (\<lambda>h.
       if cls = 4 then
         (if Len < 40 then set_Status iosb STATUS_BUFFER_TOO_SMALL m else set_Status iosb STATUS_SUCCESS m)
       else set_Status iosb STATUS_NOT_IMPLEMENTED m)"

definition FILE_DEVICE_DISK :: u32 where "FILE_DEVICE_DISK = 7"

definition NtQueryVolumeInformationFile :: "file_handle option \<Rightarrow> nat \<Rightarrow> nat \<Rightarrow> u32 \<Rightarrow> nat \<Rightarrow> mem \<Rightarrow> answer" where
  "NtQueryVolumeInformationFile FileHandle iosb FileSystemInformation Len cls m =
     checked FileHandle iosb m (\<lambda>h.
       if cls = 4 then
         (if Len < 8 then set_Status iosb STATUS_BUFFER_TOO_SMALL m
          else do { m \<leftarrow> put_fields FileSystemInformation [F32 0 FILE_DEVICE_DISK, F32 4 0] m; succeed iosb 8 m })
       else set_Status iosb STATUS_NOT_IMPLEMENTED m)"

section \<open>Control codes\<close>

definition CTL_CODE :: "u32 \<Rightarrow> u32 \<Rightarrow> u32 \<Rightarrow> u32 \<Rightarrow> u32" where
  "CTL_CODE DeviceType func method access =
     push_bit 16 DeviceType OR push_bit 14 access OR push_bit 2 func OR method"

definition METHOD_BUFFERED :: u32 where "METHOD_BUFFERED = 0"
definition METHOD_NEITHER :: u32 where "METHOD_NEITHER = 3"
definition FILE_ANY_ACCESS :: u32 where "FILE_ANY_ACCESS = 0"
definition FILE_READ_ACCESS :: u32 where "FILE_READ_ACCESS = 1"
definition FILE_WRITE_ACCESS :: u32 where "FILE_WRITE_ACCESS = 2"

definition FILE_DEVICE_FILE_SYSTEM :: u32 where "FILE_DEVICE_FILE_SYSTEM = 9"
definition FILE_DEVICE_MASS_STORAGE :: u32 where "FILE_DEVICE_MASS_STORAGE = 0x2d"
definition FILE_DEVICE_KEYBOARD :: u32 where "FILE_DEVICE_KEYBOARD = 0xb"
definition IOCTL_MOUNTDEV_BASE :: u32 where "IOCTL_MOUNTDEV_BASE = 0x4d"

definition FSCTL_LOCK_VOLUME :: u32 where
  "FSCTL_LOCK_VOLUME = CTL_CODE FILE_DEVICE_FILE_SYSTEM 6 METHOD_BUFFERED FILE_ANY_ACCESS"
definition FSCTL_UNLOCK_VOLUME :: u32 where
  "FSCTL_UNLOCK_VOLUME = CTL_CODE FILE_DEVICE_FILE_SYSTEM 7 METHOD_BUFFERED FILE_ANY_ACCESS"
definition FSCTL_DISMOUNT_VOLUME :: u32 where
  "FSCTL_DISMOUNT_VOLUME = CTL_CODE FILE_DEVICE_FILE_SYSTEM 8 METHOD_BUFFERED FILE_ANY_ACCESS"
definition FSCTL_GET_RETRIEVAL_POINTERS :: u32 where
  "FSCTL_GET_RETRIEVAL_POINTERS = CTL_CODE FILE_DEVICE_FILE_SYSTEM 28 METHOD_NEITHER FILE_ANY_ACCESS"
definition FSCTL_IS_VOLUME_DIRTY :: u32 where
  "FSCTL_IS_VOLUME_DIRTY = CTL_CODE FILE_DEVICE_FILE_SYSTEM 30 METHOD_BUFFERED FILE_ANY_ACCESS"
definition FSCTL_ALLOW_EXTENDED_DASD_IO :: u32 where
  "FSCTL_ALLOW_EXTENDED_DASD_IO = CTL_CODE FILE_DEVICE_FILE_SYSTEM 32 METHOD_NEITHER FILE_ANY_ACCESS"
definition IOCTL_STORAGE_GET_HOTPLUG_INFO :: u32 where
  "IOCTL_STORAGE_GET_HOTPLUG_INFO = CTL_CODE FILE_DEVICE_MASS_STORAGE 0x305 METHOD_BUFFERED FILE_ANY_ACCESS"
definition IOCTL_STORAGE_GET_DEVICE_NUMBER :: u32 where
  "IOCTL_STORAGE_GET_DEVICE_NUMBER = CTL_CODE FILE_DEVICE_MASS_STORAGE 0x420 METHOD_BUFFERED FILE_ANY_ACCESS"
definition IOCTL_STORAGE_QUERY_PROPERTY :: u32 where
  "IOCTL_STORAGE_QUERY_PROPERTY = CTL_CODE FILE_DEVICE_MASS_STORAGE 0x500 METHOD_BUFFERED FILE_ANY_ACCESS"
definition IOCTL_KEYBOARD_SET_INDICATORS :: u32 where
  "IOCTL_KEYBOARD_SET_INDICATORS = CTL_CODE FILE_DEVICE_KEYBOARD 2 METHOD_BUFFERED FILE_ANY_ACCESS"
definition IOCTL_KEYBOARD_QUERY_INDICATORS :: u32 where
  "IOCTL_KEYBOARD_QUERY_INDICATORS = CTL_CODE FILE_DEVICE_KEYBOARD 0x10 METHOD_BUFFERED FILE_ANY_ACCESS"
definition IOCTL_DISK_GET_DRIVE_GEOMETRY :: u32 where
  "IOCTL_DISK_GET_DRIVE_GEOMETRY = CTL_CODE FILE_DEVICE_DISK 0 METHOD_BUFFERED FILE_ANY_ACCESS"
definition IOCTL_DISK_GET_PARTITION_INFO :: u32 where
  "IOCTL_DISK_GET_PARTITION_INFO = CTL_CODE FILE_DEVICE_DISK 1 METHOD_BUFFERED FILE_READ_ACCESS"
definition IOCTL_DISK_SET_PARTITION_INFO :: u32 where
  "IOCTL_DISK_SET_PARTITION_INFO = CTL_CODE FILE_DEVICE_DISK 2 METHOD_BUFFERED (FILE_READ_ACCESS OR FILE_WRITE_ACCESS)"
definition IOCTL_DISK_GET_DRIVE_LAYOUT :: u32 where
  "IOCTL_DISK_GET_DRIVE_LAYOUT = CTL_CODE FILE_DEVICE_DISK 3 METHOD_BUFFERED FILE_READ_ACCESS"
definition IOCTL_DISK_VERIFY :: u32 where
  "IOCTL_DISK_VERIFY = CTL_CODE FILE_DEVICE_DISK 5 METHOD_BUFFERED FILE_ANY_ACCESS"
definition IOCTL_DISK_IS_WRITABLE :: u32 where
  "IOCTL_DISK_IS_WRITABLE = CTL_CODE FILE_DEVICE_DISK 9 METHOD_BUFFERED FILE_ANY_ACCESS"
definition IOCTL_DISK_GET_PARTITION_INFO_EX :: u32 where
  "IOCTL_DISK_GET_PARTITION_INFO_EX = CTL_CODE FILE_DEVICE_DISK 0x12 METHOD_BUFFERED FILE_ANY_ACCESS"
definition IOCTL_DISK_GET_DRIVE_LAYOUT_EX :: u32 where
  "IOCTL_DISK_GET_DRIVE_LAYOUT_EX = CTL_CODE FILE_DEVICE_DISK 0x14 METHOD_BUFFERED FILE_ANY_ACCESS"
definition IOCTL_DISK_GET_LENGTH_INFO :: u32 where
  "IOCTL_DISK_GET_LENGTH_INFO = CTL_CODE FILE_DEVICE_DISK 0x17 METHOD_BUFFERED FILE_READ_ACCESS"
definition IOCTL_DISK_GET_MEDIA_TYPES :: u32 where
  "IOCTL_DISK_GET_MEDIA_TYPES = CTL_CODE FILE_DEVICE_DISK 0x300 METHOD_BUFFERED FILE_ANY_ACCESS"
definition IOCTL_MOUNTDEV_QUERY_DEVICE_NAME :: u32 where
  "IOCTL_MOUNTDEV_QUERY_DEVICE_NAME = CTL_CODE IOCTL_MOUNTDEV_BASE 2 METHOD_BUFFERED FILE_ANY_ACCESS"

lemmas control_codes = FSCTL_LOCK_VOLUME_def FSCTL_UNLOCK_VOLUME_def FSCTL_DISMOUNT_VOLUME_def
  FSCTL_GET_RETRIEVAL_POINTERS_def FSCTL_IS_VOLUME_DIRTY_def FSCTL_ALLOW_EXTENDED_DASD_IO_def
  IOCTL_STORAGE_GET_HOTPLUG_INFO_def IOCTL_STORAGE_GET_DEVICE_NUMBER_def
  IOCTL_STORAGE_QUERY_PROPERTY_def IOCTL_KEYBOARD_SET_INDICATORS_def
  IOCTL_KEYBOARD_QUERY_INDICATORS_def IOCTL_DISK_GET_DRIVE_GEOMETRY_def
  IOCTL_DISK_GET_PARTITION_INFO_def IOCTL_DISK_SET_PARTITION_INFO_def
  IOCTL_DISK_GET_DRIVE_LAYOUT_def IOCTL_DISK_VERIFY_def IOCTL_DISK_IS_WRITABLE_def
  IOCTL_DISK_GET_PARTITION_INFO_EX_def IOCTL_DISK_GET_DRIVE_LAYOUT_EX_def
  IOCTL_DISK_GET_LENGTH_INFO_def IOCTL_DISK_GET_MEDIA_TYPES_def
  IOCTL_MOUNTDEV_QUERY_DEVICE_NAME_def METHOD_BUFFERED_def METHOD_NEITHER_def FILE_ANY_ACCESS_def
  FILE_READ_ACCESS_def FILE_WRITE_ACCESS_def FILE_DEVICE_FILE_SYSTEM_def
  FILE_DEVICE_MASS_STORAGE_def FILE_DEVICE_KEYBOARD_def FILE_DEVICE_DISK_def
  IOCTL_MOUNTDEV_BASE_def CTL_CODE_def

text \<open>\<^verbatim>\<open>CTL_CHECK_SIZE\<close>\<close>

definition with_room :: "nat \<Rightarrow> u32 \<Rightarrow> u32 \<Rightarrow> mem \<Rightarrow> answer \<Rightarrow> answer" where
  "with_room iosb OutputBufferLength n m body =
     (if OutputBufferLength < n then set_Status iosb STATUS_BUFFER_TOO_SMALL m else body)"

definition VOLUME_IS_DIRTY :: u32 where "VOLUME_IS_DIRTY = 1"

definition NtFsControlFile :: "file_handle option \<Rightarrow> nat \<Rightarrow> u32 \<Rightarrow> nat \<Rightarrow> u32 \<Rightarrow> mem \<Rightarrow> answer" where
  "NtFsControlFile FileHandle iosb FsControlCode OutputBuffer OutputBufferLength m =
     checked FileHandle iosb m (\<lambda>h.
       if FsControlCode = FSCTL_LOCK_VOLUME \<or> FsControlCode = FSCTL_UNLOCK_VOLUME \<or> FsControlCode = FSCTL_DISMOUNT_VOLUME then
         set_Status iosb STATUS_SUCCESS m
       else if FsControlCode = FSCTL_GET_RETRIEVAL_POINTERS then set_Status iosb STATUS_NOT_IMPLEMENTED m
       else if FsControlCode = FSCTL_IS_VOLUME_DIRTY then
         with_room iosb OutputBufferLength 4 m
           (do { m \<leftarrow> put_fields OutputBuffer [F32 0 VOLUME_IS_DIRTY] m; succeed iosb 4 m })
       else if FsControlCode = FSCTL_ALLOW_EXTENDED_DASD_IO then set_Status iosb STATUS_SUCCESS m
       else set_Status iosb STATUS_INVALID_DEVICE_REQUEST m)"

section \<open>The disk\<close>

definition systempartition :: "u16 list" where "systempartition = wide_path ''/Device/Harddisk1''"

text \<open>
  A call that fills a local of \<open>n\<close> bytes: the local lies behind the memory for the duration of the
  call; the result is the memory and the local.
\<close>

definition call_local :: "nat \<Rightarrow> (nat \<Rightarrow> mem \<Rightarrow> answer) \<Rightarrow> mem \<Rightarrow> (mem \<times> mem) option" where
  "call_local n call m = do {
     (_, m') \<leftarrow> call (length m) (m @ replicate n 0);
     Some (take (length m) m', drop (length m) m')
   }"

definition cylinders :: "u64 \<Rightarrow> u64" where
  "cylinders n = 1 + n div 8225280"

definition ioctl_geometry :: "file_stat \<Rightarrow> nat \<Rightarrow> nat \<Rightarrow> u32 \<Rightarrow> mem \<Rightarrow> answer" where
  "ioctl_geometry st iosb OutputBuffer OutputBufferLength m =
     with_room iosb OutputBufferLength 24 m (do {
       m \<leftarrow> put_fields OutputBuffer [F32 8 11, F32 12 255, F32 16 63, F32 20 512, F64 0 (cylinders (st_size st))] m;
       if cylinders (st_size st) < 2 then set_Status iosb STATUS_INVALID_PARAMETER m else succeed iosb 24 m
     })"

definition ioctl_partition_ex :: "file_stat \<Rightarrow> nat \<Rightarrow> nat \<Rightarrow> u32 \<Rightarrow> mem \<Rightarrow> answer" where
  "ioctl_partition_ex st iosb OutputBuffer OutputBufferLength m =
     with_room iosb OutputBufferLength 144 m (do {
       (m, geo) \<leftarrow> call_local 24 (\<lambda>a. ioctl_geometry st iosb a 24) m;
       m \<leftarrow> put_fields OutputBuffer [F32 0 0, F32 24 1, F8 28 0, F8 32 0, F8 33 1, F8 34 0, F32 36 63] m;
       BytesPerSector \<leftarrow> ld32 geo 20;
       HiddenSectors \<leftarrow> ld32 m (OutputBuffer + 36);
       m \<leftarrow> put_fields OutputBuffer [F64 8 (ucast (BytesPerSector * HiddenSectors)), F64 16 (st_size st)] m;
       succeed iosb 144 m
     })"

definition ioctl_partition :: "file_stat \<Rightarrow> nat \<Rightarrow> nat \<Rightarrow> u32 \<Rightarrow> mem \<Rightarrow> answer" where
  "ioctl_partition st iosb OutputBuffer OutputBufferLength m =
     with_room iosb OutputBufferLength 32 m (do {
       (m, piex) \<leftarrow> call_local 144 (\<lambda>a. ioctl_partition_ex st iosb a 144) m;
       start \<leftarrow> ld64 piex 8;
       len \<leftarrow> ld64 piex 16;
       hidden \<leftarrow> ld32 piex 36;
       number \<leftarrow> ld32 piex 24;
       ptype \<leftarrow> ld8 piex 32;
       boot \<leftarrow> ld8 piex 33;
       recognized \<leftarrow> ld8 piex 34;
       rewrite \<leftarrow> ld8 piex 28;
       m \<leftarrow> put_fields OutputBuffer [F64 0 start, F64 8 len, F32 16 hidden, F32 20 number, F8 24 ptype, F8 25 boot,
              F8 26 recognized, F8 27 rewrite] m;
       succeed iosb 32 m
     })"

definition ioctl_layout :: "file_stat \<Rightarrow> nat \<Rightarrow> nat \<Rightarrow> u32 \<Rightarrow> mem \<Rightarrow> answer" where
  "ioctl_layout st iosb OutputBuffer OutputBufferLength m =
     with_room iosb OutputBufferLength 72 m (do {
       m \<leftarrow> put_fields OutputBuffer [Fzero 0 40, F32 0 4, F32 4 0] m;
       (_, m) \<leftarrow> ioctl_partition st iosb (OutputBuffer + 8) 32 m;
       m \<leftarrow> put_fields OutputBuffer [Fzero 40 96] m;
       succeed iosb 72 m
     })"

definition ioctl_layout_ex :: "file_stat \<Rightarrow> nat \<Rightarrow> nat \<Rightarrow> u32 \<Rightarrow> mem \<Rightarrow> answer" where
  "ioctl_layout_ex st iosb OutputBuffer OutputBufferLength m =
     with_room iosb OutputBufferLength 336 m (do {
       m \<leftarrow> put_fields OutputBuffer [Fzero 0 192, F32 0 0, F32 4 4, F32 8 0] m;
       (_, m) \<leftarrow> ioctl_partition_ex st iosb (OutputBuffer + 48) 144 m;
       m \<leftarrow> put_fields OutputBuffer [Fzero 192 432] m;
       succeed iosb 336 m
     })"

definition ioctl_device_name :: "nat \<Rightarrow> nat \<Rightarrow> u32 \<Rightarrow> mem \<Rightarrow> answer" where
  "ioctl_device_name iosb OutputBuffer OutputBufferLength m =
     (let sz = 2 * length systempartition; datalen = 4 + sz
      in with_room iosb OutputBufferLength (of_nat datalen) m
        (if OutputBuffer = 0 then None
         else do {
           m \<leftarrow> put_bytes m (OutputBuffer + 2) (wide_bytes systempartition);
           m \<leftarrow> put_fields OutputBuffer [F16 0 (of_nat sz)] m;
           succeed iosb (of_nat datalen) m
         }))"

text \<open>The adapter is property 1, the access alignment property 6; the standard query is type 0.\<close>

definition StorageQueryProperty :: "nat \<Rightarrow> nat \<Rightarrow> nat \<Rightarrow> u32 \<Rightarrow> mem \<Rightarrow> answer" where
  "StorageQueryProperty iosb spq OutputBuffer OutputBufferLength m =
     (if spq = 0 then None
      else do {
        PropertyId \<leftarrow> ld32 m spq;
        QueryType \<leftarrow> ld32 m (spq + 4);
        (_, m) \<leftarrow> set_Status iosb STATUS_NOT_IMPLEMENTED m;
        if QueryType \<noteq> 0 then Some (STATUS_NOT_IMPLEMENTED, m)
        else if PropertyId = 1 then
          with_room iosb OutputBufferLength 32 m (do {
            m \<leftarrow> put_fields OutputBuffer [F32 4 32, F32 0 32, F32 8 0x10000, F32 12 0x11, F32 16 0, F8 20 0, F8 21 0,
                   F8 22 0, F8 23 0, F8 24 7, F16 26 1, F16 28 0] m;
            succeed iosb 32 m
          })
        else if PropertyId = 6 then
          with_room iosb OutputBufferLength 28 m (set_Status iosb STATUS_NOT_IMPLEMENTED m)
        else Some (STATUS_NOT_IMPLEMENTED, m)
      })"


definition NtDeviceIoControlFile ::
  "file_handle option \<Rightarrow> nat \<Rightarrow> u32 \<Rightarrow> nat \<Rightarrow> nat \<Rightarrow> u32 \<Rightarrow> mem \<Rightarrow> answer" where
  "NtDeviceIoControlFile FileHandle iosb IoControlCode InputBuffer OutputBuffer OutputBufferLength m =
     checked FileHandle iosb m (\<lambda>h. do {
       (_, m) \<leftarrow> set_Status iosb STATUS_NOT_IMPLEMENTED m;
       let st = stat h;
       if IoControlCode = IOCTL_STORAGE_GET_DEVICE_NUMBER then
         with_room iosb OutputBufferLength 12 m
           (do { m \<leftarrow> put_fields OutputBuffer [F32 0 FILE_DEVICE_DISK, F32 4 1, F32 8 1] m; succeed iosb 12 m })
       else if IoControlCode = IOCTL_STORAGE_GET_HOTPLUG_INFO then
         with_room iosb OutputBufferLength 8 m
           (do { m \<leftarrow> put_fields OutputBuffer [F32 0 8, F8 4 1, F8 5 0, F8 6 1, F8 7 0] m; succeed iosb 8 m })
       else if IoControlCode = IOCTL_STORAGE_QUERY_PROPERTY then
         StorageQueryProperty iosb InputBuffer OutputBuffer OutputBufferLength m
       else if IoControlCode = IOCTL_KEYBOARD_SET_INDICATORS then set_Status iosb STATUS_SUCCESS m
       else if IoControlCode = IOCTL_KEYBOARD_QUERY_INDICATORS then
         with_room iosb OutputBufferLength 4 m
           (do { m \<leftarrow> put_fields OutputBuffer [F16 0 0, F16 2 0] m; succeed iosb 4 m })
       else if IoControlCode = IOCTL_DISK_IS_WRITABLE then set_Status iosb STATUS_SUCCESS m
       else if IoControlCode = IOCTL_DISK_VERIFY then
         (if InputBuffer = 0 then None
          else do { _ \<leftarrow> ld64 m InputBuffer; _ \<leftarrow> ld32 m (InputBuffer + 8); succeed iosb 0 m })
       else if IoControlCode = IOCTL_DISK_GET_PARTITION_INFO then ioctl_partition st iosb OutputBuffer OutputBufferLength m
       else if IoControlCode = IOCTL_DISK_SET_PARTITION_INFO then
         (if InputBuffer = 0 then None else do { _ \<leftarrow> ld8 m InputBuffer; succeed iosb 0 m })
       else if IoControlCode = IOCTL_DISK_GET_PARTITION_INFO_EX then ioctl_partition_ex st iosb OutputBuffer OutputBufferLength m
       else if IoControlCode = IOCTL_DISK_GET_DRIVE_LAYOUT then ioctl_layout st iosb OutputBuffer OutputBufferLength m
       else if IoControlCode = IOCTL_DISK_GET_DRIVE_LAYOUT_EX then ioctl_layout_ex st iosb OutputBuffer OutputBufferLength m
       else if IoControlCode = IOCTL_DISK_GET_LENGTH_INFO then
         with_room iosb OutputBufferLength 8 m
           (do { m \<leftarrow> put_fields OutputBuffer [F64 0 (st_size st)] m; succeed iosb 8 m })
       else if IoControlCode = IOCTL_DISK_GET_DRIVE_GEOMETRY then ioctl_geometry st iosb OutputBuffer OutputBufferLength m
       else if IoControlCode = IOCTL_MOUNTDEV_QUERY_DEVICE_NAME then ioctl_device_name iosb OutputBuffer OutputBufferLength m
       else if IoControlCode = IOCTL_DISK_GET_MEDIA_TYPES then set_Status iosb STATUS_NOT_IMPLEMENTED m
       else None
     })"

end
