(* ===== verification/Device_Control_Spec.thy ===== *)
theory Device_Control_Spec
  imports Device_Control
begin

text \<open>
  The calls of \<^verbatim>\<open>ioctl.c\<close> write only to the status block and the buffer of the caller, with the
  exception of the two drive layouts, and what they report of a disk fits together.
\<close>

section \<open>Structures\<close>

fun field_end :: "field \<Rightarrow> nat" where
  "field_end (F8 x v) = x + 1"
| "field_end (F16 x v) = x + 2"
| "field_end (F32 x v) = x + 4"
| "field_end (F64 x v) = x + 8"
| "field_end (Fzero x n) = x + n"

lemma put_field_in: "put_field a f m = Some m' \<Longrightarrow> writes_in {a..<a + field_end f} m m'"
  by (cases f) (auto dest!: writes_in_st elim!: writes_in_mono)

lemma put_all_in: "put_all a fs m = Some m' \<Longrightarrow> list_all (\<lambda>f. field_end f \<le> n) fs \<Longrightarrow> writes_in {a..<a + n} m m'"
proof (induction fs arbitrary: m)
  case (Cons f fs)
  then obtain m1 where m1: "put_field a f m = Some m1" "put_all a fs m1 = Some m'" by (auto simp: bind_eq_Some_conv)
  have "writes_in {a..<a + n} m m1" by (rule writes_in_mono [OF put_field_in [OF m1(1)]]) (use Cons.prems in auto)
  with Cons.IH [OF m1(2)] Cons.prems(2) show ?case by (auto intro: writes_in_trans)
qed simp

lemma put_fields_in:
  "put_fields a fs m = Some m' \<Longrightarrow> list_all (\<lambda>f. field_end f \<le> n) fs \<Longrightarrow> {a..<a + n} \<subseteq> S \<Longrightarrow> writes_in S m m'"
  by (auto simp: put_fields_def split: if_splits intro: writes_in_mono put_all_in)

lemma set_Status_in: "set_Status iosb st m = Some (r, m') \<Longrightarrow> {iosb..<iosb + 16} \<subseteq> S \<Longrightarrow> writes_in S m m' \<and> r = st"
  by (auto simp: set_Status_def bind_eq_Some_conv intro!: put_fields_in [where n = 16 and a = iosb])

lemma succeed_in:
  assumes "succeed iosb n m = Some (r, m')" "{iosb..<iosb + 16} \<subseteq> S"
  shows "writes_in S m m' \<and> r = STATUS_SUCCESS"
proof -
  from assms(1) obtain m1 where 1: "put_fields iosb [F64 8 n] m = Some m1" "set_Status iosb STATUS_SUCCESS m1 = Some (r, m')"
    by (auto simp: succeed_def bind_eq_Some_conv)
  have "writes_in S m m1" by (rule put_fields_in [OF 1(1) _ assms(2)]) simp
  with set_Status_in [OF 1(2) assms(2)] show ?thesis by (blast intro: writes_in_trans)
qed

text \<open>A local shields the memory.\<close>

lemma call_local_in:
  assumes "call_local n call m = Some (m', loc)"
    and "\<And>r x. call (length m) (m @ replicate n 0) = Some (r, x) \<Longrightarrow> writes_in (S \<union> {length m..<length m + n}) (m @ replicate n 0) x"
  shows "writes_in S m m'" "length loc = n"
proof -
  from assms(1) obtain r x where x: "call (length m) (m @ replicate n 0) = Some (r, x)" "m' = take (length m) x" "loc = drop (length m) x"
    by (auto simp: call_local_def bind_eq_Some_conv)
  note w = assms(2) [OF x(1)]
  show "length loc = n" using w x by (simp add: writes_in_def)
  have "ld8 m' i = ld8 m i" if "i \<notin> S" for i
  proof (cases "i < length m")
    case True
    then have "ld8 x i = ld8 (m @ replicate n 0) i" using w that by (simp add: writes_in_def)
    then show ?thesis using True x(2) w by (simp add: ld8_def rd_def writes_in_def nth_append)
  next
    case False
    then show ?thesis using x(2) w by (simp add: ld8_def rd_def writes_in_def)
  qed
  then show "writes_in S m m'" using w x(2) by (simp add: writes_in_def)
qed

section \<open>The regions of the calls\<close>

text \<open>The status block and the output buffer.\<close>

definition caller :: "nat \<Rightarrow> nat \<Rightarrow> nat \<Rightarrow> nat set" where
  "caller iosb out n = {iosb..<iosb + 16} \<union> {out..<out + n}"

lemma caller_parts: "{iosb..<iosb + 16} \<subseteq> caller iosb out n" "k \<le> n \<Longrightarrow> {out..<out + k} \<subseteq> caller iosb out n"
  by (auto simp: caller_def)

lemma with_room_in:
  assumes "with_room iosb len n m body = Some (r, m')"
    and "\<And>r m'. \<not> len < n \<Longrightarrow> body = Some (r, m') \<Longrightarrow> writes_in (caller iosb out k) m m'"
  shows "writes_in (caller iosb out k) m m'"
  using assms set_Status_in [of iosb STATUS_BUFFER_TOO_SMALL m r m', OF _ caller_parts(1)]
  by (cases "len < n") (auto simp: with_room_def)

text \<open>Filling a structure and reporting success.\<close>

lemma fill_in:
  assumes "do { m \<leftarrow> put_fields out fs m; succeed iosb c m } = Some (r, m')"
    and "list_all (\<lambda>f. field_end f \<le> unat n) fs" "\<not> len < n"
  shows "writes_in (caller iosb out (unat len)) m m'"
proof -
  from assms(1) obtain m1 where 1: "put_fields out fs m = Some m1" "succeed iosb c m1 = Some (r, m')"
    by (auto simp: bind_eq_Some_conv)
  have "unat n \<le> unat len" using assms(3) by (simp add: not_less word_le_nat_alt)
  then have "writes_in (caller iosb out (unat len)) m m1"
    using put_fields_in [OF 1(1) assms(2)] caller_parts(2) by blast
  moreover have "writes_in (caller iosb out (unat len)) m1 m'" using succeed_in [OF 1(2)] caller_parts(1) by blast
  ultimately show ?thesis by (rule writes_in_trans)
qed

lemma room_fill_in:
  assumes "with_room iosb len n m (do { m \<leftarrow> put_fields out fs m; succeed iosb c m }) = Some (r, m')"
    and "list_all (\<lambda>f. field_end f \<le> unat n) fs"
  shows "writes_in (caller iosb out (unat len)) m m'"
  by (rule with_room_in [OF assms(1)], erule fill_in) (use assms(2) in auto)

lemma ioctl_geometry_in:
  assumes "ioctl_geometry st iosb out len m = Some (r, m')"
  shows "writes_in (caller iosb out (unat len)) m m'"
proof (rule with_room_in [OF assms [unfolded ioctl_geometry_def]])
  let ?fs = "[F32 8 11, F32 12 255, F32 16 63, F32 20 512, F64 0 (cylinders (st_size st))]"
  fix r m' assume n: "\<not> len < 24"
    and "do { m \<leftarrow> put_fields out ?fs m;
              if cylinders (st_size st) < 2 then set_Status iosb STATUS_INVALID_PARAMETER m else succeed iosb 24 m } = Some (r, m')"
  then obtain m1 where 1: "put_fields out ?fs m = Some m1"
    "(if cylinders (st_size st) < 2 then set_Status iosb STATUS_INVALID_PARAMETER m1 else succeed iosb 24 m1) = Some (r, m')"
    unfolding bind_eq_Some_conv by blast
  have "24 \<le> unat len" using n by (simp add: not_less word_le_nat_alt)
  then have "writes_in (caller iosb out (unat len)) m m1"
    using caller_parts(2) [of 24 "unat len" out iosb] by (intro put_fields_in [OF 1(1), of 24]) auto
  moreover have "writes_in (caller iosb out (unat len)) m1 m'"
  proof -
    from 1(2) have "set_Status iosb STATUS_INVALID_PARAMETER m1 = Some (r, m') \<or> succeed iosb 24 m1 = Some (r, m')"
      by metis
    then show ?thesis
      using set_Status_in [of iosb _ m1 r m', OF _ caller_parts(1)] succeed_in [of iosb _ m1 r m', OF _ caller_parts(1)] by blast
  qed
  ultimately show "writes_in (caller iosb out (unat len)) m m'" by (rule writes_in_trans)
qed

lemma local_call_in:
  assumes "call_local n call m = Some (m1, loc)"
    and "\<And>r x. call (length m) (m @ replicate n 0) = Some (r, x) \<Longrightarrow> writes_in (caller iosb (length m) n) (m @ replicate n 0) x"
  shows "writes_in (caller iosb out k) m m1"
  by (rule call_local_in(1) [OF assms(1)], rule writes_in_mono, erule assms(2)) (auto simp: caller_def)

lemma ioctl_partition_ex_in:
  assumes "ioctl_partition_ex st iosb out len m = Some (r, m')"
  shows "writes_in (caller iosb out (unat len)) m m'"
proof (rule with_room_in [OF assms [unfolded ioctl_partition_ex_def]])
  let ?fs = "[F32 0 0, F32 24 1, F8 28 0, F8 32 0, F8 33 1, F8 34 0, F32 36 63]"
  fix r m' assume n: "\<not> len < 144"
    and "do { (m, geo) \<leftarrow> call_local 24 (\<lambda>a. ioctl_geometry st iosb a 24) m;
       m \<leftarrow> put_fields out ?fs m;
       BytesPerSector \<leftarrow> ld32 geo 20;
       HiddenSectors \<leftarrow> ld32 m (out + 36);
       m \<leftarrow> put_fields out [F64 8 (ucast (BytesPerSector * HiddenSectors)), F64 16 (st_size st)] m;
       succeed iosb 144 m } = Some (r, m')"
  then obtain m1 geo m2 v m3 where 1: "call_local 24 (\<lambda>a. ioctl_geometry st iosb a 24) m = Some (m1, geo)"
    "put_fields out ?fs m1 = Some m2" "put_fields out [F64 8 v, F64 16 (st_size st)] m2 = Some m3" "succeed iosb 144 m3 = Some (r, m')"
    by (auto simp: bind_eq_Some_conv)
  have n': "144 \<le> unat len" using n by (simp add: not_less word_le_nat_alt)
  have "writes_in (caller iosb out (unat len)) m m1"
    by (rule local_call_in [OF 1(1)]) (use ioctl_geometry_in [of st iosb "length m" 24] in simp)
  moreover have "writes_in (caller iosb out (unat len)) m1 m2"
    by (rule put_fields_in [OF 1(2), of 144]) (use caller_parts(2) [OF n'] in auto)
  moreover have "writes_in (caller iosb out (unat len)) m2 m3"
    by (rule put_fields_in [OF 1(3), of 144]) (use caller_parts(2) [OF n'] in auto)
  moreover have "writes_in (caller iosb out (unat len)) m3 m'" using succeed_in [OF 1(4) caller_parts(1)] by blast
  ultimately show "writes_in (caller iosb out (unat len)) m m'" by (blast intro: writes_in_trans)
qed

lemma ioctl_partition_in:
  assumes "ioctl_partition st iosb out len m = Some (r, m')"
  shows "writes_in (caller iosb out (unat len)) m m'"
proof (rule with_room_in [OF assms [unfolded ioctl_partition_def]])
  fix r m' assume n: "\<not> len < 32" and body: "do {
       (m, piex) \<leftarrow> call_local 144 (\<lambda>a. ioctl_partition_ex st iosb a 144) m;
       start \<leftarrow> ld64 piex 8; l \<leftarrow> ld64 piex 16; hidden \<leftarrow> ld32 piex 36; number \<leftarrow> ld32 piex 24;
       ptype \<leftarrow> ld8 piex 32; boot \<leftarrow> ld8 piex 33; recognized \<leftarrow> ld8 piex 34; rewrite \<leftarrow> ld8 piex 28;
       m \<leftarrow> put_fields out [F64 0 start, F64 8 l, F32 16 hidden, F32 20 number, F8 24 ptype, F8 25 boot,
              F8 26 recognized, F8 27 rewrite] m;
       succeed iosb 32 m } = Some (r, m')"
  obtain m1 piex v1 v2 v3 v4 v5 v6 v7 v8 m2 where 1: "call_local 144 (\<lambda>a. ioctl_partition_ex st iosb a 144) m = Some (m1, piex)"
    "put_fields out [F64 0 v1, F64 8 v2, F32 16 v3, F32 20 v4, F8 24 v5, F8 25 v6, F8 26 v7, F8 27 v8] m1 = Some m2"
    "succeed iosb 32 m2 = Some (r, m')"
    using body by (auto simp: bind_eq_Some_conv)
  have n': "32 \<le> unat len" using n by (simp add: not_less word_le_nat_alt)
  have "writes_in (caller iosb out (unat len)) m m1"
    by (rule local_call_in [OF 1(1)]) (use ioctl_partition_ex_in [of st iosb "length m" 144] in simp)
  moreover have "writes_in (caller iosb out (unat len)) m1 m2"
    by (rule put_fields_in [OF 1(2), of 32]) (use caller_parts(2) [OF n'] in auto)
  moreover have "writes_in (caller iosb out (unat len)) m2 m'" using succeed_in [OF 1(3) caller_parts(1)] by blast
  ultimately show "writes_in (caller iosb out (unat len)) m m'" by (blast intro: writes_in_trans)
qed

text \<open>A layout of four entries needs more room than the code asks for.\<close>

lemma layout_steps:
  assumes "do { m \<leftarrow> put_fields out fs m; (_, m) \<leftarrow> call m; m \<leftarrow> put_fields out fs' m; succeed iosb c m } = Some (r, m')"
    and "list_all (\<lambda>f. field_end f \<le> n) (fs @ fs')" "n \<le> k"
    and "\<And>m r m'. call m = Some (r, m') \<Longrightarrow> writes_in (caller iosb (out + x) y) m m'" "x + y \<le> k"
  shows "writes_in (caller iosb out k) m m'"
proof -
  from assms(1) obtain m1 r2 m2 m3 where 1: "put_fields out fs m = Some m1" "call m1 = Some (r2, m2)"
    "put_fields out fs' m2 = Some m3" "succeed iosb c m3 = Some (r, m')" by (auto simp: bind_eq_Some_conv)
  have "writes_in (caller iosb out k) m m1" "writes_in (caller iosb out k) m2 m3"
    using put_fields_in [OF 1(1), of n] put_fields_in [OF 1(3), of n] assms(2) caller_parts(2) [OF assms(3)] by auto
  moreover have "writes_in (caller iosb out k) m1 m2"
    by (rule writes_in_mono [OF assms(4) [OF 1(2)]]) (use assms(5) in \<open>auto simp: caller_def\<close>)
  moreover have "writes_in (caller iosb out k) m3 m'" using succeed_in [OF 1(4) caller_parts(1)] by blast
  ultimately show ?thesis by (blast intro: writes_in_trans)
qed

lemma ioctl_layout_in:
  assumes "ioctl_layout st iosb out len m = Some (r, m')" "136 \<le> k" "unat len \<le> k"
  shows "writes_in (caller iosb out k) m m'"
  by (rule with_room_in [OF assms(1) [unfolded ioctl_layout_def]], erule layout_steps [where n = 136 and x = 8 and y = 32])
    (use assms(2) ioctl_partition_in [where len = 32] in auto)

lemma ioctl_layout_ex_in:
  assumes "ioctl_layout_ex st iosb out len m = Some (r, m')" "624 \<le> k" "unat len \<le> k"
  shows "writes_in (caller iosb out k) m m'"
  by (rule with_room_in [OF assms(1) [unfolded ioctl_layout_ex_def]], erule layout_steps [where n = 624 and x = 48 and y = 144])
    (use assms(2) ioctl_partition_ex_in [where len = 144] in auto)

lemma systempartition_length: "length systempartition = 18"
  by code_simp

text \<open>The remaining calls are read off their text.\<close>

definition stays :: "nat set \<Rightarrow> mem \<Rightarrow> answer \<Rightarrow> bool" where
  "stays S m a \<longleftrightarrow> (\<forall>r m'. a = Some (r, m') \<longrightarrow> writes_in S m m')"

named_theorems stays

lemma stays_trivial [stays]: "stays S m None" "stays S m (Some (r, m))"
  by (auto simp: stays_def)

lemma stays_if [stays]: "(c \<Longrightarrow> stays S m a) \<Longrightarrow> (\<not> c \<Longrightarrow> stays S m b) \<Longrightarrow> stays S m (if c then a else b)"
  by simp

lemma stays_read [stays]: "(\<And>x. stays S m (f x)) \<Longrightarrow> stays S m (v \<bind> f)"
  by (cases v) (auto simp: stays_def)

lemma stays_status [stays]: "stays (caller iosb out n) m (set_Status iosb st m)"
  "stays (caller iosb out n) m (succeed iosb c m)"
  using set_Status_in [OF _ caller_parts(1)] succeed_in [OF _ caller_parts(1)] by (auto simp: stays_def)

lemma stays_after_status:
  assumes "\<And>m' r. stays (caller iosb out n) m' (f (r, m'))"
  shows "stays (caller iosb out n) m (set_Status iosb st m \<bind> f)"
  using assms set_Status_in [OF _ caller_parts(1)]
  by (fastforce simp: stays_def bind_eq_Some_conv intro: writes_in_trans)

lemma stays_room [stays]: "(\<not> len < n \<Longrightarrow> stays (caller iosb out k) m a) \<Longrightarrow> stays (caller iosb out k) m (with_room iosb len n m a)"
  using stays_status(1) by (auto simp: with_room_def)

lemma stays_fill [stays]:
  "list_all (\<lambda>f. field_end f \<le> unat n) fs \<Longrightarrow>
     stays (caller iosb out (unat len)) m (with_room iosb len n m (do { m \<leftarrow> put_fields out fs m; succeed iosb c m }))"
  by (auto simp: stays_def dest: room_fill_in)

lemma ioctl_device_name_in: "stays (caller iosb out (unat len)) m (ioctl_device_name iosb out len m)"
proof -
  let ?S = "caller iosb out (unat len)"
  have "writes_in ?S m m'"
    if body: "do { m \<leftarrow> put_bytes m (out + 2) (wide_bytes systempartition); m \<leftarrow> put_fields out [F16 0 36] m; succeed iosb 40 m } = Some (r, m')"
      and n: "\<not> len < 40" for r m'
  proof -
    obtain m1 m2 where 1: "put_bytes m (out + 2) (wide_bytes systempartition) = Some m1"
      "put_fields out [F16 0 36] m1 = Some m2" "succeed iosb 40 m2 = Some (r, m')"
      using body unfolding bind_eq_Some_conv by blast
    have n': "40 \<le> unat len" using n by (simp add: not_less word_le_nat_alt)
    have "writes_in ?S m m1"
      by (rule writes_in_mono [OF writes_in_st(5) [OF 1(1)]]) (use n' in \<open>auto simp: caller_def systempartition_length\<close>)
    moreover have "writes_in ?S m1 m2"
      by (rule put_fields_in [OF 1(2), of 40]) (use caller_parts(2) [OF n'] in auto)
    moreover have "writes_in ?S m2 m'" using succeed_in [OF 1(3) caller_parts(1)] by blast
    ultimately show ?thesis by (blast intro: writes_in_trans)
  qed
  then have "stays ?S m (with_room iosb len 40 m (if out = 0 then None else do {
      m \<leftarrow> put_bytes m (out + 2) (wide_bytes systempartition); m \<leftarrow> put_fields out [F16 0 36] m; succeed iosb 40 m }))"
    by (intro stays_room stays_if stays_trivial) (simp add: stays_def)
  moreover have "ioctl_device_name iosb out len m = with_room iosb len 40 m (if out = 0 then None else do {
      m \<leftarrow> put_bytes m (out + 2) (wide_bytes systempartition); m \<leftarrow> put_fields out [F16 0 36] m; succeed iosb 40 m })"
    unfolding ioctl_device_name_def Let_def systempartition_length by (simp only: numeral_times_numeral numeral_plus_numeral semiring_norm of_nat_numeral)
  ultimately show ?thesis by simp
qed

lemma StorageQueryProperty_in: "stays (caller iosb out (unat len)) m (StorageQueryProperty iosb spq out len m)"
  unfolding StorageQueryProperty_def by (intro stays stays_after_status | simp only: prod.case)+ simp_all

text \<open>The two codes whose size check is too small, and the room they need.\<close>

definition room_for_layouts :: "u32 \<Rightarrow> u32 \<Rightarrow> bool" where
  "room_for_layouts code len \<longleftrightarrow>
     \<not> (code = IOCTL_DISK_GET_DRIVE_LAYOUT \<and> unat len < 136) \<and> \<not> (code = IOCTL_DISK_GET_DRIVE_LAYOUT_EX \<and> unat len < 624)"

lemma stays_ioctl:
  "stays (caller iosb out (unat len)) m (ioctl_geometry st iosb out len m)"
  "stays (caller iosb out (unat len)) m (ioctl_partition st iosb out len m)"
  "stays (caller iosb out (unat len)) m (ioctl_partition_ex st iosb out len m)"
  "136 \<le> unat len \<Longrightarrow> stays (caller iosb out (unat len)) m (ioctl_layout st iosb out len m)"
  "624 \<le> unat len \<Longrightarrow> stays (caller iosb out (unat len)) m (ioctl_layout_ex st iosb out len m)"
  using ioctl_geometry_in ioctl_partition_in ioctl_partition_ex_in ioctl_layout_in ioctl_layout_ex_in
  by (auto simp: stays_def)

lemma NtDeviceIoControlFile_stays:
  assumes "room_for_layouts code len"
  shows "stays (caller iosb out (unat len)) m (NtDeviceIoControlFile FileHandle iosb code inb out len m)"
proof -
  have layouts: "code = IOCTL_DISK_GET_DRIVE_LAYOUT \<Longrightarrow> 136 \<le> unat len" "code = IOCTL_DISK_GET_DRIVE_LAYOUT_EX \<Longrightarrow> 624 \<le> unat len"
    using assms by (auto simp: room_for_layouts_def not_less)
  show ?thesis
    unfolding NtDeviceIoControlFile_def checked_def Let_def
    by (auto split: option.split intro!: stays stays_after_status stays_ioctl StorageQueryProperty_in ioctl_device_name_in layouts)
qed

text \<open>
  C29. A device control request changes nothing but the status block and the output buffer of the
  caller, for every control code and every length, provided a request for a drive layout comes
  with room for its four entries.
\<close>

theorem device_control_contained:
  assumes "NtDeviceIoControlFile FileHandle iosb code inb out len m = Some (r, m')" "room_for_layouts code len"
  shows "writes_in (caller iosb out (unat len)) m m'"
  using NtDeviceIoControlFile_stays [OF assms(2)] assms(1) by (auto simp: stays_def)

definition disk :: file_handle where
  "disk = \<lparr> cookie = HANDLE_COOKIE, handle_type = HANDLE_FILE, desc = [], handle_name = [], event_type = NotificationEvent,
     signaled = 0, exited = False, fh = 3, mode = 0,
     stat = \<lparr> st_mode = 0x81a4, st_size = 0x1000000, st_blocks = 0x8000, st_nlink = 1, st_mtime = 0, st_ctime = 0, st_atime = 0 \<rparr> \<rparr>"

definition room :: mem where "room = replicate 300 7"

definition layout_call :: "u32 \<Rightarrow> answer" where
  "layout_call len = NtDeviceIoControlFile (Some disk) 16 (IOCTL_DISK_GET_DRIVE_LAYOUT) 0 40 len room"

lemma layout_call_returns:
  "map_option fst (layout_call 136) = Some STATUS_SUCCESS" "map_option fst (layout_call 72) = Some STATUS_SUCCESS"
  by code_simp+

theorem device_control_contained_witness: "\<exists>m'. layout_call 136 = Some (STATUS_SUCCESS, m') \<and> writes_in (caller 16 40 136) room m'"
proof -
  obtain m' where m': "layout_call 136 = Some (STATUS_SUCCESS, m')" using layout_call_returns(1) by auto
  have "writes_in (caller 16 40 (unat (136 :: u32))) room m'"
    by (rule device_control_contained [OF m' [unfolded layout_call_def]]) (simp add: room_for_layouts_def control_codes)
  then show ?thesis using m' by auto
qed

section \<open>Reports\<close>

lemma ld64_stays: "writes_in S m m' \<Longrightarrow> {a..<a + 8} \<inter> S = {} \<Longrightarrow> ld64 m' a = ld64 m a"
  by (rule ld64_same) (auto simp: writes_in_def disjoint_iff)

lemma ld32_stays: "writes_in S m m' \<Longrightarrow> {a..<a + 4} \<inter> S = {} \<Longrightarrow> ld32 m' a = ld32 m a"
  by (rule ld32_same) (auto simp: writes_in_def disjoint_iff)

lemma put_fieldsD: "put_fields a fs m = Some m' \<Longrightarrow> put_all a fs m = Some m'"
  by (simp add: put_fields_def split: if_splits)

text \<open>The last assignment to a place decides what is read from it.\<close>

lemma put_all_append: "put_all a (fs @ gs) m = do { m \<leftarrow> put_all a fs m; put_all a gs m }"
  by (induction fs arbitrary: m) (auto split: bind_splits)

fun field_start :: "field \<Rightarrow> nat" where
  "field_start (F8 x v) = x"
| "field_start (F16 x v) = x"
| "field_start (F32 x v) = x"
| "field_start (F64 x v) = x"
| "field_start (Fzero x n) = x"

lemma put_all_beside:
  assumes "put_all a fs m = Some m'" "list_all (\<lambda>f. field_end f \<le> x \<or> y \<le> field_start f) fs"
  shows "writes_in (- {a + x..<a + y}) m m'"
  using assms
proof (induction fs arbitrary: m)
  case (Cons f fs)
  then obtain m1 where m1: "put_field a f m = Some m1" "put_all a fs m1 = Some m'" by (auto simp: bind_eq_Some_conv)
  have "writes_in {a + field_start f..<a + field_end f} m m1"
    using m1(1) by (cases f) (auto dest!: writes_in_st elim!: writes_in_mono)
  then have "writes_in (- {a + x..<a + y}) m m1" by (rule writes_in_mono) (use Cons.prems(2) in auto)
  with Cons.IH [OF m1(2)] Cons.prems(2) show ?case by (auto intro: writes_in_trans)
qed simp

lemma put_fields_reads:
  assumes "put_fields a (fs @ f # gs) m = Some m'" "list_all (\<lambda>g. field_end g \<le> field_start f \<or> field_end f \<le> field_start g) gs"
  shows "f = F64 x v64 \<Longrightarrow> ld64 m' (a + x) = Some v64" "f = F32 x v32 \<Longrightarrow> ld32 m' (a + x) = Some v32"
proof -
  obtain m1 m2 where 1: "put_field a f m1 = Some m2" "put_all a gs m2 = Some m'"
    using put_fieldsD [OF assms(1)] by (auto simp: put_all_append bind_eq_Some_conv)
  note same = put_all_beside [OF 1(2) assms(2)]
  show "ld64 m' (a + x) = Some v64" if "f = F64 x v64"
    using ld64_stays [OF same, of "a + x"] 1(1) that by (auto simp: ld64_st64 add.assoc)
  show "ld32 m' (a + x) = Some v32" if "f = F32 x v32"
    using ld32_stays [OF same, of "a + x"] 1(1) that by (auto simp: ld32_st32 add.assoc)
qed

text \<open>What a call leaves in its local.\<close>

lemma call_localD:
  assumes "call_local n call m = Some (m', loc)"
  obtains r x where "call (length m) (m @ replicate n 0) = Some (r, x)" "m' = take (length m) x" "loc = drop (length m) x"
  using assms by (auto simp: call_local_def bind_eq_Some_conv)

lemma ld32_drop: "ld32 (drop k m) a = ld32 m (k + a)"
  by (auto simp: ld32_def ld16_def ld8_def rd_def add.assoc)

lemma answer_status_region:
  assumes "set_Status iosb st m = Some (r, m') \<or> succeed iosb c m = Some (r, m')"
  shows "writes_in {iosb..<iosb + 16} m m'"
  using assms set_Status_in [of iosb st m r m' "{iosb..<iosb + 16}"] succeed_in [of iosb c m r m' "{iosb..<iosb + 16}"] by blast

lemma geometry_sector:
  assumes "call_local 24 (\<lambda>a. ioctl_geometry st iosb a 24) m = Some (m', geo)" "iosb + 16 \<le> length m"
  shows "ld32 geo 20 = Some 512"
proof -
  let ?a = "length m"
  obtain r x where x: "ioctl_geometry st iosb ?a 24 (m @ replicate 24 0) = Some (r, x)" "geo = drop ?a x"
    by (rule call_localD [OF assms(1)])
  obtain m1 where 1: "put_fields ?a ([F32 8 11, F32 12 255, F32 16 63] @ F32 20 512 # [F64 0 (cylinders (st_size st))]) (m @ replicate 24 0) = Some m1"
    "(if cylinders (st_size st) < 2 then set_Status iosb STATUS_INVALID_PARAMETER m1 else succeed iosb 24 m1) = Some (r, x)"
    using x(1) by (auto simp: ioctl_geometry_def with_room_def bind_eq_Some_conv)
  have "ld32 m1 (?a + 20) = Some 512" by (rule put_fields_reads(2) [OF 1(1)]) simp_all
  moreover have "writes_in {iosb..<iosb + 16} m1 x"
    by (rule answer_status_region [of iosb STATUS_INVALID_PARAMETER m1 r x 24]) (use 1(2) in \<open>auto split: if_splits\<close>)
  then have "ld32 x (?a + 20) = ld32 m1 (?a + 20)" by (rule ld32_stays) (use assms(2) in auto)
  ultimately show ?thesis by (simp add: x(2) ld32_drop)
qed

lemma partition_ex_reports:
  assumes "ioctl_partition_ex st iosb out 144 m = Some (r, m')" "iosb + 16 \<le> out \<or> out + 144 \<le> iosb" "iosb + 16 \<le> length m"
  shows "ld64 m' (out + 8) = Some 32256 \<and> ld64 m' (out + 16) = Some (st_size st) \<and> ld32 m' (out + 36) = Some 63"
proof -
  obtain m1 geo m2 bps hid m3 where 1: "call_local 24 (\<lambda>a. ioctl_geometry st iosb a 24) m = Some (m1, geo)"
    "put_fields out ([F32 0 0, F32 24 1, F8 28 0, F8 32 0, F8 33 1, F8 34 0] @ F32 36 63 # []) m1 = Some m2"
    "ld32 geo 20 = Some bps" "ld32 m2 (out + 36) = Some hid"
    "put_fields out [F64 8 (ucast (bps * hid)), F64 16 (st_size st)] m2 = Some m3" "succeed iosb 144 m3 = Some (r, m')"
    using assms(1) by (auto simp: ioctl_partition_ex_def with_room_def bind_eq_Some_conv)
  have hid2: "ld32 m2 (out + 36) = Some 63" by (rule put_fields_reads(2) [OF 1(2)]) simp_all
  have bps: "bps = 512" "hid = 63" using geometry_sector [OF 1(1) assms(3)] 1(3,4) hid2 by simp_all
  have "ld64 m3 (out + 8) = Some (ucast (bps * hid))"
    by (rule put_fields_reads(1) [where fs = "[]" and gs = "[_]"]) (use 1(5) in auto)
  moreover have "ld64 m3 (out + 16) = Some (st_size st)"
    by (rule put_fields_reads(1) [where fs = "[_]" and gs = "[]"]) (use 1(5) in auto)
  moreover have "ld32 m3 (out + 36) = ld32 m2 (out + 36)"
    by (rule ld32_stays [OF put_all_beside [OF put_fieldsD [OF 1(5)], of 36 40]]) auto
  moreover have same: "writes_in {iosb..<iosb + 16} m3 m'" using answer_status_region 1(6) by blast
  have "ld64 m' (out + 8) = ld64 m3 (out + 8)" "ld64 m' (out + 16) = ld64 m3 (out + 16)" "ld32 m' (out + 36) = ld32 m3 (out + 36)"
    using assms(2) by (auto intro!: ld64_stays [OF same] ld32_stays [OF same])
  ultimately show ?thesis using bps hid2 by simp
qed

lemmas control_parts = NtDeviceIoControlFile_def checked_def CHECK_FILE_def CHECK_HANDLE_def

lemma control_call:
  assumes "NtDeviceIoControlFile (Some h) iosb code inb out len m = Some (STATUS_SUCCESS, m')"
  obtains m1 where "writes_in {iosb..<iosb + 16} m m1"
    "code = IOCTL_DISK_GET_PARTITION_INFO_EX \<Longrightarrow> ioctl_partition_ex (stat h) iosb out len m1 = Some (STATUS_SUCCESS, m')"
    "code = IOCTL_DISK_GET_DRIVE_LAYOUT \<Longrightarrow> ioctl_layout (stat h) iosb out len m1 = Some (STATUS_SUCCESS, m')"
proof -
  have codes: "STATUS_ACCESS_VIOLATION \<noteq> STATUS_SUCCESS" "STATUS_INVALID_PARAMETER \<noteq> STATUS_SUCCESS" by code_simp+
  obtain r1 m1 where 1: "set_Status iosb STATUS_NOT_IMPLEMENTED m = Some (r1, m1)"
    using assms(1) codes
    by (auto simp: control_parts bind_eq_Some_conv split: if_splits)
  have "writes_in {iosb..<iosb + 16} m m1" using set_Status_in [OF 1] by blast
  moreover have "ioctl_partition_ex (stat h) iosb out len m1 = Some (STATUS_SUCCESS, m')" if "code = IOCTL_DISK_GET_PARTITION_INFO_EX"
    using assms(1) codes 1 that
    by (auto simp: control_parts control_codes split: if_splits)
  moreover have "ioctl_layout (stat h) iosb out len m1 = Some (STATUS_SUCCESS, m')" if "code = IOCTL_DISK_GET_DRIVE_LAYOUT"
    using assms(1) codes 1 that
    by (auto simp: control_parts control_codes split: if_splits)
  ultimately show thesis by (rule that)
qed

text \<open>
  The partition of a disk is reported as the 63 hidden sectors say: it starts at byte 32256;
  its length is that of the whole disk, so it ends 32256 bytes behind it.
\<close>

theorem partition_reported:
  assumes "NtDeviceIoControlFile (Some h) iosb (IOCTL_DISK_GET_PARTITION_INFO_EX) inb out 144 m = Some (STATUS_SUCCESS, m')"
    and "iosb + 16 \<le> out \<or> out + 144 \<le> iosb" "iosb + 16 \<le> length m"
  shows "ld64 m' (out + 8) = Some 32256 \<and> ld64 m' (out + 16) = Some (st_size (stat h)) \<and> ld32 m' (out + 36) = Some 63"
proof (rule control_call [OF assms(1)])
  fix m1 assume "writes_in {iosb..<iosb + 16} m m1"
    and "IOCTL_DISK_GET_PARTITION_INFO_EX = IOCTL_DISK_GET_PARTITION_INFO_EX \<Longrightarrow> ioctl_partition_ex (stat h) iosb out 144 m1 = Some (STATUS_SUCCESS, m')"
  then show ?thesis using partition_ex_reports [of "stat h" iosb out m1] assms(2,3) by (simp add: writes_in_def)
qed

lemma partition_call_returns:
  "map_option fst (NtDeviceIoControlFile (Some disk) 16 (IOCTL_DISK_GET_PARTITION_INFO_EX) 0 40 144 room) = Some STATUS_SUCCESS"
  by code_simp

theorem partition_reported_witness:
  "\<exists>m'. NtDeviceIoControlFile (Some disk) 16 (IOCTL_DISK_GET_PARTITION_INFO_EX) 0 40 144 room = Some (STATUS_SUCCESS, m')
     \<and> ld64 m' 48 = Some 32256 \<and> ld64 m' 56 = Some 0x1000000"
proof -
  obtain m' where m': "NtDeviceIoControlFile (Some disk) 16 (IOCTL_DISK_GET_PARTITION_INFO_EX) 0 40 144 room = Some (STATUS_SUCCESS, m')"
    using partition_call_returns by auto
  show ?thesis using partition_reported [OF m'] m' by (simp add: room_def disk_def)
qed

text \<open>
  A request for the drive layout with a buffer of exactly the size the code asks for, 72
  bytes, clears the 64 bytes behind it.
\<close>

theorem layout_overruns:
  assumes "NtDeviceIoControlFile (Some h) iosb (IOCTL_DISK_GET_DRIVE_LAYOUT) inb out 72 m = Some (STATUS_SUCCESS, m')"
    and "iosb + 16 \<le> out \<or> out + 136 \<le> iosb" "out + 72 \<le> i" "i < out + 136"
  shows "ld8 m' i = Some 0"
proof (rule control_call [OF assms(1)])
  fix m1 assume "IOCTL_DISK_GET_DRIVE_LAYOUT = IOCTL_DISK_GET_DRIVE_LAYOUT \<Longrightarrow> ioctl_layout (stat h) iosb out 72 m1 = Some (STATUS_SUCCESS, m')"
  then obtain m2 m3 where 1: "put_fields out [Fzero 40 96] m2 = Some m3" "succeed iosb 72 m3 = Some (STATUS_SUCCESS, m')"
    by (auto simp: ioctl_layout_def with_room_def bind_eq_Some_conv)
  have "ld8 m3 i = Some 0"
    using put_fieldsD [OF 1(1)] assms(3,4) by (auto simp: bind_eq_Some_conv ld8_put_bytes)
  moreover have "writes_in {iosb..<iosb + 16} m3 m'" using answer_status_region 1(2) by blast
  moreover have "i \<notin> {iosb..<iosb + 16}" using assms(2-4) by auto
  ultimately show ?thesis by (simp add: writes_in_def)
qed

theorem layout_overruns_witness: "\<exists>m'. layout_call 72 = Some (STATUS_SUCCESS, m') \<and> ld8 room 112 = Some 7 \<and> ld8 m' 112 = Some 0"
proof -
  obtain m' where m': "layout_call 72 = Some (STATUS_SUCCESS, m')" using layout_call_returns(2) by auto
  have "ld8 m' 112 = Some 0" by (rule layout_overruns [OF m' [unfolded layout_call_def]]) simp_all
  then show ?thesis using m' by (simp add: ld8_def rd_def room_def)
qed

end
