(* ===== verification/Unix_Files.thy ===== *)
theory Unix_Files
  imports Device_Control
begin

text \<open>
  The part of the host that \<^verbatim>\<open>libs/ntdll/io.c\<close> uses: names, inodes and open descriptors, with the
  documented behaviour of \<^verbatim>\<open>open\<close>, \<^verbatim>\<open>fstat\<close>, \<^verbatim>\<open>read\<close>, \<^verbatim>\<open>write\<close>, \<^verbatim>\<open>lseek\<close>, \<^verbatim>\<open>fsync\<close> and \<^verbatim>\<open>close\<close>
  on regular files, block devices, directories and character devices, and \<^verbatim>\<open>fgets\<close> and the
  comparisons of \<^verbatim>\<open>strings.h\<close>.  The value \<open>-1\<close> of a call is \<open>None\<close>, except for descriptors.
\<close>

section \<open>State\<close>

text \<open>
  Of the attributes of a regular file the size is that of its content.  A \<open>failing\<close> file gives
  I/O errors.
\<close>

record inode =
  attributes :: file_stat
  content :: "u8 list"
  writable :: bool
  failing :: bool

record descr =
  ino :: nat
  pos :: nat
  oflags :: u32

text \<open>
  \<open>stray_mode\<close> is what an \<^verbatim>\<open>open\<close> without its third argument takes for the mode of a file it
  creates.
\<close>

record unix =
  names :: "u8 list \<Rightarrow> nat option"
  inodes :: "nat \<Rightarrow> inode option"
  next_ino :: nat
  descrs :: "int \<Rightarrow> descr option"
  fd_limit :: nat
  mtab :: "u8 list option"
  stray_mode :: u32

definition O_RDONLY :: u32 where "O_RDONLY = 0"
definition O_WRONLY :: u32 where "O_WRONLY = 1"
definition O_RDWR :: u32 where "O_RDWR = 2"
definition O_CREAT :: u32 where "O_CREAT = 0x40"
definition O_APPEND :: u32 where "O_APPEND = 0x400"

lemmas open_flags = O_RDONLY_def O_WRONLY_def O_RDWR_def O_CREAT_def O_APPEND_def

definition wants_write :: "u32 \<Rightarrow> bool" where
  "wants_write flags \<longleftrightarrow> flags AND 3 \<noteq> 0"

definition S_ISREG :: "u32 \<Rightarrow> bool" where "S_ISREG m \<longleftrightarrow> m AND 0xf000 = 0x8000"
definition S_ISBLK :: "u32 \<Rightarrow> bool" where "S_ISBLK m \<longleftrightarrow> m AND 0xf000 = 0x6000"

section \<open>Descriptors\<close>

fun first_free :: "nat \<Rightarrow> int \<Rightarrow> (int \<Rightarrow> descr option) \<Rightarrow> int option" where
  "first_free 0 fd f = None"
| "first_free (Suc k) fd f = (if f fd = None then Some fd else first_free k (fd + 1) f)"

definition attach :: "nat \<Rightarrow> u32 \<Rightarrow> 'a unix_scheme \<Rightarrow> int \<times> 'a unix_scheme" where
  "attach i flags s =
     (case first_free (fd_limit s) 0 (descrs s) of
        None \<Rightarrow> (-1, s)
      | Some fd \<Rightarrow> (fd, s\<lparr>descrs := (descrs s)(fd \<mapsto> \<lparr>ino = i, pos = 0, oflags = flags\<rparr>)\<rparr>))"

definition new_file :: "u32 \<Rightarrow> inode" where
  "new_file m =
     \<lparr>attributes = \<lparr>st_mode = 0x8000 OR (m AND 0xfff), st_size = 0, st_blocks = 0, st_nlink = 1,
        st_mtime = 0, st_ctime = 0, st_atime = 0\<rparr>,
      content = [], writable = True, failing = False\<rparr>"

definition sys_open :: "u8 list \<Rightarrow> u32 \<Rightarrow> 'a unix_scheme \<Rightarrow> int \<times> 'a unix_scheme" where
  "sys_open path flags s =
     (case names s path of
        Some i \<Rightarrow>
          (case inodes s i of
             None \<Rightarrow> (-1, s)
           | Some nd \<Rightarrow>
               if S_ISDIR (st_mode (attributes nd)) \<and> (wants_write flags \<or> flags AND O_CREAT \<noteq> 0) then (-1, s)
               else if wants_write flags \<and> \<not> writable nd then (-1, s)
               else attach i flags s)
      | None \<Rightarrow>
          if flags AND O_CREAT = 0 \<or> path = [] then (-1, s)
          else attach (next_ino s) flags
            (s\<lparr>names := (names s)(path \<mapsto> next_ino s),
               inodes := (inodes s)(next_ino s \<mapsto> new_file (stray_mode s)),
               next_ino := next_ino s + 1\<rparr>))"

definition sys_close :: "int \<Rightarrow> 'a unix_scheme \<Rightarrow> 'a unix_scheme" where
  "sys_close fd s = s\<lparr>descrs := (descrs s)(fd := None)\<rparr>"

definition open_file :: "int \<Rightarrow> 'a unix_scheme \<Rightarrow> (descr \<times> inode) option" where
  "open_file fd s = do { d \<leftarrow> descrs s fd; nd \<leftarrow> inodes s (ino d); Some (d, nd) }"

definition sys_fstat :: "int \<Rightarrow> 'a unix_scheme \<Rightarrow> file_stat option" where
  "sys_fstat fd s = do {
     (_, nd) \<leftarrow> open_file fd s;
     Some (if S_ISREG (st_mode (attributes nd)) then (attributes nd)\<lparr>st_size := of_nat (length (content nd))\<rparr>
           else attributes nd)
   }"

definition blkgetsize64 :: "int \<Rightarrow> 'a unix_scheme \<Rightarrow> u64 option" where
  "blkgetsize64 fd s = do {
     (_, nd) \<leftarrow> open_file fd s;
     if S_ISBLK (st_mode (attributes nd)) \<and> \<not> failing nd then Some (of_nat (length (content nd))) else None
   }"

section \<open>Transfers\<close>

definition seekable :: "inode \<Rightarrow> bool" where
  "seekable nd \<longleftrightarrow> S_ISREG (st_mode (attributes nd)) \<or> S_ISBLK (st_mode (attributes nd))"

definition move_to :: "int \<Rightarrow> nat \<Rightarrow> 'a unix_scheme \<Rightarrow> 'a unix_scheme" where
  "move_to fd p s = s\<lparr>descrs := (descrs s)(fd := map_option (\<lambda>d. d\<lparr>pos := p\<rparr>) (descrs s fd))\<rparr>"

text \<open>A negative offset is refused.\<close>

definition sys_lseek :: "int \<Rightarrow> u64 \<Rightarrow> 'a unix_scheme \<Rightarrow> 'a unix_scheme" where
  "sys_lseek fd off s =
     (case open_file fd s of
        None \<Rightarrow> s
      | Some (_, nd) \<Rightarrow> if \<not> seekable nd \<or> off <s 0 then s else move_to fd (unat off) s)"

definition sys_read :: "int \<Rightarrow> nat \<Rightarrow> 'a unix_scheme \<Rightarrow> (u8 list \<times> 'a unix_scheme) option" where
  "sys_read fd n s = do {
     (d, nd) \<leftarrow> open_file fd s;
     if S_ISDIR (st_mode (attributes nd)) \<or> failing nd \<or> oflags d AND 3 = O_WRONLY then None
     else if \<not> seekable nd then Some ([], s)
     else (let bs = take n (drop (pos d) (content nd))
           in Some (bs, move_to fd (pos d + length bs) s))
   }"

text \<open>The content after bytes are written at a position; a gap is filled with zeros.\<close>

definition spliced :: "nat \<Rightarrow> u8 list \<Rightarrow> u8 list \<Rightarrow> u8 list" where
  "spliced p bs c = take p c @ replicate (p - length c) 0 @ bs @ drop (p + length bs) c"

definition set_content :: "nat \<Rightarrow> u8 list \<Rightarrow> 'a unix_scheme \<Rightarrow> 'a unix_scheme" where
  "set_content i c s = s\<lparr>inodes := (inodes s)(i := map_option (\<lambda>nd. nd\<lparr>content := c\<rparr>) (inodes s i))\<rparr>"

text \<open>A block device does not grow: what does not fit is not written.\<close>

definition sys_write :: "int \<Rightarrow> u8 list \<Rightarrow> 'a unix_scheme \<Rightarrow> (nat \<times> 'a unix_scheme) option" where
  "sys_write fd bs s = do {
     (d, nd) \<leftarrow> open_file fd s;
     if \<not> wants_write (oflags d) \<or> S_ISDIR (st_mode (attributes nd)) \<or> failing nd then None
     else if \<not> seekable nd then Some (length bs, s)
     else (let p = (if oflags d AND O_APPEND \<noteq> 0 \<and> S_ISREG (st_mode (attributes nd)) then length (content nd) else pos d);
               out = (if S_ISREG (st_mode (attributes nd)) then bs else take (length (content nd) - p) bs)
           in if bs \<noteq> [] \<and> out = [] then None
              else if out = [] then Some (0, s)
              else Some (length out, move_to fd (p + length out) (set_content (ino d) (spliced p out (content nd)) s)))
   }"

definition sys_fsync :: "int \<Rightarrow> 'a unix_scheme \<Rightarrow> bool" where
  "sys_fsync fd s =
     (case open_file fd s of
        None \<Rightarrow> False
      | Some (_, nd) \<Rightarrow> (seekable nd \<or> S_ISDIR (st_mode (attributes nd))) \<and> \<not> failing nd)"

section \<open>Text\<close>

text \<open>What \<^verbatim>\<open>fgets\<close> with a buffer of \<open>n + 1\<close> bytes takes from the rest of a file.\<close>

fun fgets_take :: "nat \<Rightarrow> u8 list \<Rightarrow> u8 list \<times> u8 list" where
  "fgets_take 0 bs = ([], bs)"
| "fgets_take (Suc n) [] = ([], [])"
| "fgets_take (Suc n) (b # bs) =
     (if b = 0x0a then ([b], bs) else (let (l, r) = fgets_take n bs in (b # l, r)))"

text \<open>Whether \<^verbatim>\<open>strncasecmp\<close> returns 0, and whether \<^verbatim>\<open>strcasestr\<close> finds.\<close>

definition strncaseeq :: "u8 list \<Rightarrow> u8 list \<Rightarrow> nat \<Rightarrow> bool" where
  "strncaseeq a b n \<longleftrightarrow> same_text (take n a) (take n b)"

fun strcasestr :: "u8 list \<Rightarrow> u8 list \<Rightarrow> bool" where
  "strcasestr [] b \<longleftrightarrow> b = []"
| "strcasestr (x # xs) b \<longleftrightarrow> strncaseeq (x # xs) b (length b) \<or> strcasestr xs b"

end
