(* ===== verification/Files.thy ===== *)
theory Files
  imports Unix_Files Keyboard
begin

text \<open>
  Files, directories and links of \<^verbatim>\<open>libs/ntdll/io.c\<close> on the host of \<open>Unix_Files\<close>.  The keyboard on
  standard input is the component \<open>Keyboard\<close>; \<open>NtReadFile\<close> and \<open>NtCancelIoFile\<close> pass its requests
  on.  A handle is the record it points to, a status block and a buffer are addresses in the
  memory of the program.  \<open>None\<close> is a fault.
\<close>

record io = unix +
  memory :: mem
  keyboard :: kbd
  dir_count :: int

section \<open>Access rights\<close>

definition FILE_RESERVE_OPFILTER :: u32 where "FILE_RESERVE_OPFILTER = 0x100000"
definition FILE_ATTRIBUTE_NORMAL :: u32 where "FILE_ATTRIBUTE_NORMAL = 0x80"
definition FILE_READ_DATA :: u32 where "FILE_READ_DATA = 1"
definition FILE_WRITE_DATA :: u32 where "FILE_WRITE_DATA = 2"
definition FILE_APPEND_DATA :: u32 where "FILE_APPEND_DATA = 4"
definition FILE_READ_ATTRIBUTES :: u32 where "FILE_READ_ATTRIBUTES = 0x80"
definition FILE_WRITE_ATTRIBUTES :: u32 where "FILE_WRITE_ATTRIBUTES = 0x100"
definition FILE_READ_EA :: u32 where "FILE_READ_EA = 8"
definition FILE_WRITE_EA :: u32 where "FILE_WRITE_EA = 0x10"
definition GENERIC_READ :: u32 where "GENERIC_READ = 0x80000000"
definition GENERIC_WRITE :: u32 where "GENERIC_WRITE = 0x40000000"

lemmas access_rights = FILE_RESERVE_OPFILTER_def FILE_ATTRIBUTE_NORMAL_def FILE_READ_DATA_def
  FILE_WRITE_DATA_def FILE_APPEND_DATA_def FILE_READ_ATTRIBUTES_def FILE_WRITE_ATTRIBUTES_def
  FILE_READ_EA_def FILE_WRITE_EA_def GENERIC_READ_def GENERIC_WRITE_def

text \<open>\<^verbatim>\<open>CHECK_FLAG\<close> on the rights not yet translated and the flags.\<close>

definition CHECK_FLAG :: "u32 \<times> u32 \<Rightarrow> u32 \<times> u32 \<Rightarrow> u32 \<times> u32" where
  "CHECK_FLAG p st =
     (case (p, st) of ((nt, ux), (DesiredAccess, flags)) \<Rightarrow>
        if DesiredAccess AND nt \<noteq> 0 then (DesiredAccess AND NOT nt, flags OR ux) else (DesiredAccess, flags))"

definition ntflags_unix :: "u32 \<Rightarrow> u32" where
  "ntflags_unix DesiredAccess =
     snd (fold CHECK_FLAG
       [(FILE_RESERVE_OPFILTER, 0), (FILE_ATTRIBUTE_NORMAL, 0), (FILE_READ_EA, 0), (FILE_WRITE_EA, 0),
        (FILE_READ_ATTRIBUTES, O_RDONLY), (FILE_READ_DATA, O_RDONLY), (FILE_APPEND_DATA, O_APPEND),
        (0x20000, O_CREAT), (GENERIC_READ, O_RDONLY), (FILE_WRITE_ATTRIBUTES, O_RDWR),
        (FILE_WRITE_DATA, O_RDWR), (GENERIC_WRITE, O_RDWR)]
       (DesiredAccess, 0))"

section \<open>Mounted devices\<close>

datatype mtab_mounted = MTAB_MOUNTED | MTAB_NOTMOUNTED | MTAB_ERROR

text \<open>The first field of a line, which may be part of a longer one.\<close>

definition mtab_field :: "u8 list \<Rightarrow> u8 list" where
  "mtab_field line = takeWhile (\<lambda>c. c \<noteq> 0 \<and> c \<noteq> 0x20 \<and> c \<noteq> 0x09) line"

lemma fgets_shorter: "0 < n \<Longrightarrow> bs \<noteq> [] \<Longrightarrow> length (snd (fgets_take n bs)) < length bs"
proof (induction n bs rule: fgets_take.induct)
  case (3 n b bs)
  show ?case
  proof (cases "b = 0x0a \<or> n = 0 \<or> bs = []")
    case True
    then show ?thesis by (cases n; cases bs) auto
  next
    case False
    then show ?thesis using 3 by (auto simp: Let_def split: prod.splits)
  qed
qed auto

function mtab_scan :: "u8 list \<Rightarrow> u8 list \<Rightarrow> bool" where
  "mtab_scan device bs =
     (if bs = [] then False
      else (let (line, rest) = fgets_take 511 bs
            in device = mtab_field line \<or> mtab_scan device rest))"
  by pat_completeness auto

termination
proof (relation "measure (\<lambda>(device, bs). length bs)")
  fix device bs line rest :: "u8 list" and x
  assume "bs \<noteq> []" "x = fgets_take 511 bs" "(line, rest) = x"
  then have "length rest < length bs" using fgets_shorter [of 511 bs] by (metis snd_conv zero_less_numeral)
  then show "((device, rest), (device, bs)) \<in> measure (\<lambda>(device, bs). length bs)" by simp
qed simp

declare mtab_scan.simps [simp del]

definition is_mounted :: "u8 list \<Rightarrow> u8 list option \<Rightarrow> mtab_mounted" where
  "is_mounted device f_mtab =
     (case f_mtab of
        None \<Rightarrow> MTAB_ERROR
      | Some bs \<Rightarrow>
          if bs = [] then MTAB_ERROR
          else if mtab_scan device bs then MTAB_MOUNTED else MTAB_NOTMOUNTED)"

section \<open>Opening\<close>

definition dev_null :: "u8 list" where "dev_null = narrow_lit ''/dev/null''"
definition disk_img :: "u8 list" where "disk_img = narrow_lit ''disk.img''"
definition volume_prefix :: "u8 list" where "volume_prefix = narrow_lit ''Volume{''"

text \<open>The text between the braces; without any, the length of the copy wraps.\<close>

definition devpath :: "u8 list \<Rightarrow> u8 list option" where
  "devpath path = (if length path \<le> 7 then None else Some (butlast (drop 7 path)))"

definition unix_open :: "u8 list \<Rightarrow> u32 \<Rightarrow> 'a unix_scheme \<Rightarrow> (int \<times> 'a unix_scheme) option" where
  "unix_open path flags s =
     (if strcasestr path (narrow_lit ''BOOTEX.LOG'') then Some (sys_open dev_null flags s)
      else if strncaseeq path volume_prefix 7 then
        (if path \<noteq> [] \<and> last path = 0x5c then Some (-1, s)
         else do {
           d \<leftarrow> devpath path;
           case is_mounted d (mtab s) of
             MTAB_NOTMOUNTED \<Rightarrow> Some (sys_open d flags s)
           | _ \<Rightarrow> Some (-1, s)
         })
      else if same_text path (path_lit ''/??/Volume{X}/'') then Some (sys_open disk_img flags s)
      else if same_text path disk_img then Some (sys_open disk_img flags s)
      else if strncaseeq path (path_lit ''/Device/KeyboardClass'') 21 then
        Some (if length path = 22 \<and> (path ! 21 = 0x30 \<or> path ! 21 = 0x31) then 0 else -1, s)
      else if strncaseeq path (path_lit ''/Device/Mailslot'') 16 then Some (1, s)
      else if flags = O_RDONLY then Some (sys_open path flags s)
      else Some (-1, s))"

section \<open>Status blocks\<close>

type_synonym io_answer = "(NTSTATUS \<times> io) option"

definition io_status :: "nat \<Rightarrow> NTSTATUS \<Rightarrow> io \<Rightarrow> io_answer" where
  "io_status sb st s = do { m \<leftarrow> put_fields sb [F32 0 st] (memory s); Some (st, s\<lparr>memory := m\<rparr>) }"

definition io_information :: "nat \<Rightarrow> u64 \<Rightarrow> io \<Rightarrow> io option" where
  "io_information sb n s = do { m \<leftarrow> put_fields sb [F64 8 n] (memory s); Some (s\<lparr>memory := m\<rparr>) }"

definition checked_io :: "file_handle option \<Rightarrow> nat \<Rightarrow> io \<Rightarrow> (file_handle \<Rightarrow> io_answer) \<Rightarrow> io_answer" where
  "checked_io FileHandle sb s body =
     (case CHECK_FILE FileHandle of Some st \<Rightarrow> Some (st, s)
      | None \<Rightarrow> if sb = 0 then Some (STATUS_ACCESS_VIOLATION, s)
          else (case FileHandle of None \<Rightarrow> None | Some h \<Rightarrow> body h))"

section \<open>NtCreateFile\<close>

definition FILE_CREATED :: u64 where "FILE_CREATED = 2"
definition FILE_DOES_NOT_EXIST :: u64 where "FILE_DOES_NOT_EXIST = 5"

text \<open>\<^verbatim>\<open>fstat\<close>, and the size of a block device.\<close>

definition opened_stat :: "int \<Rightarrow> 'a unix_scheme \<Rightarrow> file_stat option" where
  "opened_stat fd s = do {
     st \<leftarrow> sys_fstat fd s;
     Some (if S_ISBLK (st_mode st) then (case blkgetsize64 fd s of Some n \<Rightarrow> st\<lparr>st_size := n\<rparr> | None \<Rightarrow> st\<lparr>st_size := 0\<rparr>)
           else st)
   }"

definition file_handle_of :: "u8 list \<Rightarrow> int \<Rightarrow> u32 \<Rightarrow> file_stat \<Rightarrow> file_handle" where
  "file_handle_of nm fd DesiredAccess st =
     handle.extend (CreateHandle HANDLE_FILE nm ''NtCreateFile'') \<lparr>fh = fd, mode = DesiredAccess, stat = st\<rparr>"

definition NtCreateFile ::
  "unit option \<Rightarrow> u32 \<Rightarrow> (u16 list option \<times> u16) option \<Rightarrow> nat \<Rightarrow> io \<Rightarrow> (NTSTATUS \<times> file_handle option \<times> io) option" where
  "NtCreateFile FileHandle DesiredAccess ObjectName sb s =
     (if FileHandle = None \<or> sb = 0 then Some (STATUS_ACCESS_VIOLATION, None, s)
      else case ObjectName of
        None \<Rightarrow> None
      | Some (buf, len) \<Rightarrow> do {
          a \<leftarrow> US2STR buf len;
          nm \<leftarrow> narrow a;
          s \<leftarrow> io_information sb FILE_DOES_NOT_EXIST s;
          (fd, s) \<leftarrow> unix_open nm (ntflags_unix DesiredAccess) s;
          case (if fd < 0 then None else opened_stat fd s) of
            None \<Rightarrow> do { (st, s) \<leftarrow> io_status sb STATUS_OBJECT_NAME_NOT_FOUND s; Some (st, None, s) }
          | Some st \<Rightarrow> do {
              s \<leftarrow> io_information sb FILE_CREATED s;
              (r, s) \<leftarrow> io_status sb STATUS_SUCCESS s;
              Some (r, Some (file_handle_of nm fd DesiredAccess st), s)
            }
        })"

definition NtOpenFile ::
  "unit option \<Rightarrow> u32 \<Rightarrow> (u16 list option \<times> u16) option \<Rightarrow> nat \<Rightarrow> io \<Rightarrow> (NTSTATUS \<times> file_handle option \<times> io) option" where
  "NtOpenFile FileHandle DesiredAccess ObjectName sb s =
     (if FileHandle = None \<or> sb = 0 then Some (STATUS_ACCESS_VIOLATION, None, s)
      else NtCreateFile FileHandle DesiredAccess ObjectName sb s)"

section \<open>Transfers\<close>

definition FILE_USE_FILE_POINTER_POSITION :: u64 where
  "FILE_USE_FILE_POINTER_POSITION = 0xfffffffffffffffe"

text \<open>An asynchronous procedure call: the routine with its context, given the status block.\<close>

type_synonym apc = "nat \<Rightarrow> io \<Rightarrow> io option"

definition IsValidHandle :: "int \<Rightarrow> bool" where "IsValidHandle h \<longleftrightarrow> h \<noteq> -1"

text \<open>A transfer of \<open>Len\<close> bytes moves at most \<open>0x7ffff000\<close>.\<close>

definition transfer :: "u32 \<Rightarrow> nat" where
  "transfer Len = unat (min Len 0x7ffff000)"

text \<open>\<^verbatim>\<open>read\<close> and \<^verbatim>\<open>write\<close> between a file and memory; a bad buffer is an error.\<close>

definition read_into :: "int \<Rightarrow> nat \<Rightarrow> u32 \<Rightarrow> io \<Rightarrow> (nat \<times> io) option" where
  "read_into fd a Len s = do {
     (bs, s') \<leftarrow> sys_read fd (transfer Len) s;
     m \<leftarrow> (if bs = [] then Some (memory s) else put_bytes (memory s) a bs);
     Some (length bs, s'\<lparr>memory := m\<rparr>)
   }"

definition write_from :: "int \<Rightarrow> nat \<Rightarrow> u32 \<Rightarrow> io \<Rightarrow> (nat \<times> io) option" where
  "write_from fd a Len s = do {
     bs \<leftarrow> (if Len = 0 then Some [] else bytes_at (memory s) a (transfer Len));
     sys_write fd bs s
   }"

text \<open>The check of the offset and the seek; the difference is signed and the seek may fail.\<close>

definition seek_to :: "file_handle \<Rightarrow> u64 option \<Rightarrow> io \<Rightarrow> io option" where
  "seek_to h ByteOffset s =
     (case ByteOffset of
        None \<Rightarrow> Some s
      | Some off \<Rightarrow>
          if off = FILE_USE_FILE_POINTER_POSITION then Some s
          else if st_size (stat h) <s off then None
          else Some (sys_lseek (fh h) off s))"

definition set_event :: "nat option \<Rightarrow> io \<Rightarrow> io" where
  "set_event Event s = s\<lparr>keyboard := signal Event (keyboard s)\<rparr>"

definition complete :: "nat \<Rightarrow> nat option \<Rightarrow> apc option \<Rightarrow> nat \<Rightarrow> io \<Rightarrow> io_answer" where
  "complete sb Event ApcRoutine count s = do {
     s \<leftarrow> io_information sb (of_nat count) s;
     (_, s) \<leftarrow> io_status sb STATUS_SUCCESS s;
     let s = set_event Event s;
     s \<leftarrow> (case ApcRoutine of None \<Rightarrow> Some s | Some f \<Rightarrow> f sb s);
     Some (STATUS_SUCCESS, s)
   }"

text \<open>The digit in the description of the handle.\<close>

definition handle_unit :: "file_handle \<Rightarrow> int" where
  "handle_unit h = kbd_unit_id (map (\<lambda>c. char_of (unat c)) (takeWhile (\<lambda>c. c \<noteq> 0) (strhandle (Some (handle.truncate h)))))"

definition NtReadFile ::
  "file_handle option \<Rightarrow> nat option \<Rightarrow> apc option \<Rightarrow> nat \<Rightarrow> nat \<Rightarrow> u32 \<Rightarrow> u64 option \<Rightarrow> io \<Rightarrow> io_answer" where
  "NtReadFile FileHandle Event ApcRoutine sb Buf Len ByteOffset s =
     checked_io FileHandle sb s (\<lambda>h.
       if fh h = 0 then do {
         (st, k) \<leftarrow> NtReadFile_stdin \<lparr>unit_id = handle_unit h, buffer = Buf, iosb = sb, event = Event\<rparr> Len (keyboard s);
         Some (st, s\<lparr>keyboard := k\<rparr>)
       }
       else if \<not> IsValidHandle (fh h) then io_status sb STATUS_INVALID_HANDLE s
       else case seek_to h ByteOffset s of
         None \<Rightarrow> io_status sb STATUS_INVALID_PARAMETER s
       | Some s \<Rightarrow>
           (case read_into (fh h) Buf Len s of
              None \<Rightarrow> io_status sb STATUS_UNSUCCESSFUL s
            | Some (count, s) \<Rightarrow> complete sb Event ApcRoutine count s))"

definition NtWriteFile ::
  "file_handle option \<Rightarrow> nat option \<Rightarrow> apc option \<Rightarrow> nat \<Rightarrow> nat \<Rightarrow> u32 \<Rightarrow> u64 option \<Rightarrow> io \<Rightarrow> io_answer" where
  "NtWriteFile FileHandle Event ApcRoutine sb Buf Len ByteOffset s =
     checked_io FileHandle sb s (\<lambda>h.
       case seek_to h ByteOffset s of
         None \<Rightarrow> io_status sb STATUS_INVALID_PARAMETER s
       | Some s \<Rightarrow>
           (case write_from (fh h) Buf Len s of
              None \<Rightarrow> io_status sb STATUS_UNSUCCESSFUL s
            | Some (count, s) \<Rightarrow> complete sb Event ApcRoutine count s))"

section \<open>Closing and flushing\<close>

datatype any_handle = File_handle file_handle | Other_handle handle

definition any_base :: "any_handle \<Rightarrow> handle" where
  "any_base H = (case H of File_handle h \<Rightarrow> handle.truncate h | Other_handle h \<Rightarrow> h)"

text \<open>
  The effect on descriptors; the block of the handle goes back to the heap, which is reported
  as the second result.  The three standard descriptors stay open.
\<close>

definition NtClose :: "any_handle option \<Rightarrow> io \<Rightarrow> NTSTATUS \<times> bool \<times> io" where
  "NtClose Handle s =
     (case Handle of
        None \<Rightarrow> (STATUS_ACCESS_VIOLATION, False, s)
      | Some H \<Rightarrow>
          if cookie (any_base H) \<noteq> HANDLE_COOKIE then (STATUS_SUCCESS, False, s)
          else (STATUS_SUCCESS, True,
            case H of
              File_handle h \<Rightarrow>
                if handle_type h = HANDLE_FILE \<and> IsValidHandle (fh h) \<and> fh h \<noteq> 0 \<and> fh h \<noteq> 1 \<and> fh h \<noteq> 2
                then sys_close (fh h) s else s
            | Other_handle h \<Rightarrow> s))"

definition NtFlushBuffersFile :: "file_handle option \<Rightarrow> nat \<Rightarrow> io \<Rightarrow> io_answer" where
  "NtFlushBuffersFile FileHandle sb s =
     checked_io FileHandle sb s (\<lambda>h.
       if \<not> IsValidHandle (fh h) then io_status sb STATUS_INVALID_HANDLE s
       else do {
         s \<leftarrow> io_information sb 0 s;
         io_status sb (if sys_fsync (fh h) s then STATUS_SUCCESS else STATUS_UNSUCCESSFUL) s
       })"

definition NtCancelIoFile :: "file_handle option \<Rightarrow> nat \<Rightarrow> io \<Rightarrow> io_answer" where
  "NtCancelIoFile FileHandle sb s =
     checked_io FileHandle sb s (\<lambda>h.
       if \<not> IsValidHandle (fh h) then io_status sb STATUS_INVALID_HANDLE s
       else do {
         let s = (if fh h = 0 then s\<lparr>keyboard := snd (NtCancelIoFile_stdin sb (keyboard s))\<rparr> else s);
         (_, s) \<leftarrow> io_status sb STATUS_CANCELLED s;
         Some (STATUS_SUCCESS, s)
       })"

definition NtQueryDirectoryFile :: "file_handle option \<Rightarrow> nat \<Rightarrow> io \<Rightarrow> io_answer" where
  "NtQueryDirectoryFile FileHandle sb s =
     checked_io FileHandle sb s (\<lambda>h.
       io_status sb (if \<not> IsValidHandle (fh h) then STATUS_INVALID_HANDLE else STATUS_UNSUCCESSFUL) s)"

section \<open>Directory and link objects\<close>

text \<open>The name of the object attributes, converted.\<close>

definition OA2STR :: "(u16 list option \<times> u16) option \<Rightarrow> u8 list option" where
  "OA2STR ObjectName = (case ObjectName of None \<Rightarrow> None | Some (buf, len) \<Rightarrow> do { a \<leftarrow> US2STR buf len; narrow a })"

definition NtDeleteFile :: "(u16 list option \<times> u16) option \<Rightarrow> NTSTATUS option" where
  "NtDeleteFile ObjectName =
     (if ObjectName = None then Some STATUS_ACCESS_VIOLATION
      else do { _ \<leftarrow> OA2STR ObjectName; Some STATUS_SUCCESS })"

definition NtOpenSymbolicLinkObject ::
  "unit option \<Rightarrow> (u16 list option \<times> u16) option \<Rightarrow> (NTSTATUS \<times> handle option) option" where
  "NtOpenSymbolicLinkObject LinkHandle ObjectName =
     (if LinkHandle = None then Some (STATUS_ACCESS_VIOLATION, None)
      else do {
        nm \<leftarrow> OA2STR ObjectName;
        if \<not> strncaseeq nm volume_prefix 7 then Some (STATUS_OBJECT_NAME_NOT_FOUND, None)
        else Some (STATUS_SUCCESS, Some (CreateHandle HANDLE_LINK nm ''NtOpenSymbolicLinkObject''))
      })"

definition NtOpenDirectoryObject ::
  "unit option \<Rightarrow> (u16 list option \<times> u16) option \<Rightarrow> (NTSTATUS \<times> handle option) option" where
  "NtOpenDirectoryObject DirectoryHandle ObjectName =
     (if DirectoryHandle = None \<or> ObjectName = None then Some (STATUS_ACCESS_VIOLATION, None)
      else do {
        nm \<leftarrow> OA2STR ObjectName;
        Some (STATUS_SUCCESS, Some (CreateHandle HANDLE_DIR nm ''NtOpenDirectoryObject''))
      })"

definition dirinfo_name :: "u16 list" where "dirinfo_name = wide_lit ''Volume{X}''"
definition dirinfo_type :: "u16 list" where "dirinfo_type = wide_lit ''SymbolicLink''"

text \<open>The counted string of a zero-terminated text at \<open>p\<close>, written at \<open>a\<close>.\<close>

definition put_string :: "nat \<Rightarrow> u16 list \<Rightarrow> nat \<Rightarrow> mem \<Rightarrow> mem option" where
  "put_string a text p m = do {
     u \<leftarrow> RtlInitUnicodeString (Some text);
     put_fields a [F16 0 (Length u), F16 2 (MaximumLength u), F64 8 (of_nat p)] m
   }"

definition NtQueryDirectoryObject :: "handle option \<Rightarrow> nat \<Rightarrow> u32 \<Rightarrow> bool \<Rightarrow> nat \<Rightarrow> io \<Rightarrow> io_answer" where
  "NtQueryDirectoryObject DirectoryHandle Buf Len ReturnSingleEntry ReturnLength s =
     (case CHECK_HANDLE DirectoryHandle HANDLE_DIR of
        Some st \<Rightarrow> Some (st, s)
      | None \<Rightarrow>
          if Buf = 0 then Some (STATUS_ACCESS_VIOLATION, s)
          else if \<not> ReturnSingleEntry then Some (STATUS_NOT_IMPLEMENTED, s)
          else if dir_count s \<noteq> 0 then Some (STATUS_NO_MORE_ENTRIES, s\<lparr>dir_count := 0\<rparr>)
          else do {
            m \<leftarrow> put_fields Buf [Fzero 32 32] (memory s);
            m \<leftarrow> put_bytes m (Buf + 64) (wide_bytes dirinfo_name);
            m \<leftarrow> put_string Buf dirinfo_name (Buf + 64) m;
            m \<leftarrow> put_bytes m (Buf + 84) (wide_bytes dirinfo_type);
            m \<leftarrow> put_string (Buf + 16) dirinfo_type (Buf + 84) m;
            m \<leftarrow> (if ReturnLength = 0 then Some m else put_fields ReturnLength [F32 0 110] m);
            Some (STATUS_SUCCESS, s\<lparr>dir_count := dir_count s + 1, memory := m\<rparr>)
          })"

text \<open>The answer is a string of the library, not of the program.\<close>

definition NtQuerySymbolicLinkObject :: "handle option \<Rightarrow> unit option \<Rightarrow> (NTSTATUS \<times> UNICODE_STRING option) option" where
  "NtQuerySymbolicLinkObject LinkHandle LinkTarget =
     (case CHECK_HANDLE LinkHandle HANDLE_LINK of
        Some st \<Rightarrow> Some (st, None)
      | None \<Rightarrow>
          if LinkTarget = None then Some (STATUS_ACCESS_VIOLATION, None)
          else do { u \<leftarrow> RtlInitUnicodeString (Some systempartition); Some (STATUS_SUCCESS, Some u) })"

end
