(* ===== verification/Files_Spec.thy ===== *)
theory Files_Spec
  imports Files Device_Control_Spec Runs
begin

text \<open>
  What the file calls promise: a mounted device is never written to, whatever calls a program
  makes; a write puts its bytes where it was told and a read gives them back; the mount table is
  searched exactly.
\<close>

section \<open>Examples\<close>

text \<open>A host with an image that is open as descriptor 3 and a mounted device.\<close>

definition disk_image :: inode where
  "disk_image = \<lparr>attributes = \<lparr>st_mode = 0x81a4, st_size = 0, st_blocks = 1, st_nlink = 1, st_mtime = 0, st_ctime = 0, st_atime = 0\<rparr>,
     content = [1, 2, 3, 4, 5, 6, 7, 8], writable = True, failing = False\<rparr>"

definition sda1 :: "u8 list" where "sda1 = narrow_lit ''/dev/sda1''"

definition sda1_line :: "u8 list" where "sda1_line = narrow_lit ''/dev/sda1 / ext4 rw 0 0''"

definition host :: io where
  "host = \<lparr>names = [disk_img \<mapsto> 5, sda1 \<mapsto> 6], inodes = [5 \<mapsto> disk_image, 6 \<mapsto> disk_image], next_ino = 7,
     descrs = [3 \<mapsto> \<lparr>ino = 5, pos = 0, oflags = O_RDWR\<rparr>], fd_limit = 8, mtab = Some (sda1_line @ [0x0a]),
     stray_mode = 0, memory = replicate 40 0 @ [9, 9, 9] @ replicate 40 0, keyboard = kbd_init, dir_count = 0\<rparr>"

definition image_handle :: file_handle where
  "image_handle = \<lparr>cookie = HANDLE_COOKIE, handle_type = HANDLE_FILE, desc = [], handle_name = [],
     event_type = NotificationEvent, signaled = 0, exited = False, fh = 3, mode = 0,
     stat = (attributes disk_image)\<lparr>st_size := 8\<rparr>\<rparr>"

definition host_write :: "io_answer" where
  "host_write = NtWriteFile (Some image_handle) None None 8 40 3 (Some 7) host"

definition host_read :: "io_answer" where
  "host_read = (case host_write of None \<Rightarrow> None
     | Some (r, s) \<Rightarrow> NtReadFile (Some image_handle) None None 8 60 3 (Some 7) s)"

lemma host_results: "map_option fst host_write = Some STATUS_SUCCESS" "map_option fst host_read = Some STATUS_SUCCESS"
  by code_simp+

lemma host_facts: "\<not> (7 :: u64) <s 0" "(0xfffffffffffffffb :: u64) <s 0" "\<not> st_size (stat image_handle) <s 0"
  "S_ISREG (st_mode (attributes disk_image))" "oflags \<lparr>ino = 5, pos = 0, oflags = O_RDWR\<rparr> AND O_APPEND = 0"
  by code_simp+

lemma host_open: "open_file (fh image_handle) host = Some (\<lparr>ino = 5, pos = 0, oflags = O_RDWR\<rparr>, disk_image)"
  by (simp add: open_file_def host_def image_handle_def)

lemma host_bytes: "bytes_at (memory host) 40 (transfer 3) = Some [9, 9, 9]"
  by code_simp

section \<open>Calls\<close>

text \<open>
  A procedure call that a transfer delivers runs last in the transfer: the calls it makes are
  steps that follow.
\<close>

datatype io_call =
    Create u32 "(u16 list option \<times> u16) option" nat
  | Open u32 "(u16 list option \<times> u16) option" nat
  | Read "file_handle option" "nat option" nat nat u32 "u64 option"
  | Write "file_handle option" "nat option" nat nat u32 "u64 option"
  | Close "any_handle option"
  | Flush "file_handle option" nat
  | Cancel "file_handle option" nat
  | Query_directory "handle option" nat u32 bool nat

inductive io_step :: "io \<Rightarrow> io_call \<Rightarrow> io \<Rightarrow> bool" where
  create: "NtCreateFile (Some ()) acc nm sb s = Some (r, H, s') \<Longrightarrow> io_step s (Create acc nm sb) s'"
| open_file: "NtOpenFile (Some ()) acc nm sb s = Some (r, H, s') \<Longrightarrow> io_step s (Open acc nm sb) s'"
| reads: "NtReadFile H E None sb a n off s = Some (r, s') \<Longrightarrow> io_step s (Read H E sb a n off) s'"
| writes: "NtWriteFile H E None sb a n off s = Some (r, s') \<Longrightarrow> io_step s (Write H E sb a n off) s'"
| close: "NtClose C s = (r, freed, s') \<Longrightarrow> io_step s (Close C) s'"
| flush: "NtFlushBuffersFile H sb s = Some (r, s') \<Longrightarrow> io_step s (Flush H sb) s'"
| cancel: "NtCancelIoFile H sb s = Some (r, s') \<Longrightarrow> io_step s (Cancel H sb) s'"
| query: "NtQueryDirectoryObject D a n b rl s = Some (r, s') \<Longrightarrow> io_step s (Query_directory D a n b rl) s'"

section \<open>Mounted devices\<close>

text \<open>
  A file that only goes by names of mounted devices, that no descriptor can write to, and what is
  in it.
\<close>

definition mounted_file :: "nat \<Rightarrow> 'a unix_scheme \<Rightarrow> bool" where
  "mounted_file i s \<longleftrightarrow> i < next_ino s
     \<and> (\<forall>p. names s p = Some i \<longrightarrow> p \<noteq> dev_null \<and> p \<noteq> disk_img \<and> is_mounted p (mtab s) \<noteq> MTAB_NOTMOUNTED)"

definition harmless :: "nat \<Rightarrow> descr option \<Rightarrow> bool" where
  "harmless i d \<longleftrightarrow> (case d of None \<Rightarrow> True | Some d \<Rightarrow> wants_write (oflags d) \<longrightarrow> ino d \<noteq> i)"

lemma harmless_simps [simp]: "harmless i None" "harmless i (Some d) \<longleftrightarrow> (wants_write (oflags d) \<longrightarrow> ino d \<noteq> i)"
  by (simp_all add: harmless_def)

definition no_writer :: "nat \<Rightarrow> 'a unix_scheme \<Rightarrow> bool" where
  "no_writer i s \<longleftrightarrow> (\<forall>fd. harmless i (descrs s fd))"

definition held :: "nat \<Rightarrow> inode \<Rightarrow> 'a unix_scheme \<Rightarrow> bool" where
  "held i nd s \<longleftrightarrow> mounted_file i s \<and> no_writer i s \<and> inodes s i = Some nd"

lemmas held_parts = held_def mounted_file_def no_writer_def

text \<open>Other parts of the state do not matter.\<close>

lemma held_other [simp]:
  "held i nd (s\<lparr>memory := m\<rparr>) = held i nd s" "held i nd (s\<lparr>keyboard := k\<rparr>) = held i nd s"
  "held i nd (s\<lparr>dir_count := n\<rparr>) = held i nd s"
  by (simp_all add: held_parts)

lemma attach_held: "attach j flags s = (fd, s') \<Longrightarrow> held i nd s \<Longrightarrow> (wants_write flags \<Longrightarrow> j \<noteq> i) \<Longrightarrow> held i nd s'"
  by (auto simp: attach_def held_parts split: option.splits if_splits)

lemma sys_open_held:
  assumes "sys_open p flags s = (fd, s')" "held i nd s"
    and "wants_write flags \<Longrightarrow> p = dev_null \<or> p = disk_img \<or> is_mounted p (mtab s) = MTAB_NOTMOUNTED"
  shows "held i nd s'"
proof (cases "names s p")
  case None
  let ?s = "s\<lparr>names := (names s)(p \<mapsto> next_ino s), inodes := (inodes s)(next_ino s \<mapsto> new_file (stray_mode s)),
      next_ino := next_ino s + 1\<rparr>"
  have new: "held i nd ?s" "next_ino s \<noteq> i" using assms(2) by (auto simp: held_parts)
  show ?thesis
  proof (cases "flags AND O_CREAT = 0 \<or> p = []")
    case True
    then show ?thesis using assms(1,2) None by (simp add: sys_open_def)
  next
    case False
    then have "attach (next_ino s) flags ?s = (fd, s')" using assms(1) None by (simp add: sys_open_def)
    then show ?thesis by (rule attach_held) (use new in auto)
  qed
next
  case (Some j)
  have *: "wants_write flags \<Longrightarrow> j \<noteq> i" using assms(2,3) Some by (auto simp: held_parts)
  have "attach j flags s = (fd, s') \<or> s' = s"
    using assms(1) Some by (auto simp: sys_open_def split: option.splits if_splits)
  with * show ?thesis using assms(2) attach_held by blast
qed

text \<open>Names that are opened as they are given are opened for reading.\<close>

lemma unix_open_held:
  assumes "unix_open path flags s = Some (fd, s')" "held i nd s"
  shows "held i nd s'"
proof -
  have *: "sys_open p flags s = (fd, s') \<Longrightarrow> p = dev_null \<or> p = disk_img \<or> is_mounted p (mtab s) = MTAB_NOTMOUNTED \<or> flags = O_RDONLY \<Longrightarrow> held i nd s'" for p
    by (rule sys_open_held [OF _ assms(2)]) (auto simp: wants_write_def O_RDONLY_def)
  have volume: "held i nd s'"
    if "do { d \<leftarrow> devpath path; case is_mounted d (mtab s) of MTAB_NOTMOUNTED \<Rightarrow> Some (sys_open d flags s) | _ \<Rightarrow> Some (-1, s) } = Some (fd, s')"
  proof -
    from that obtain d where d: "(case is_mounted d (mtab s) of MTAB_NOTMOUNTED \<Rightarrow> Some (sys_open d flags s) | _ \<Rightarrow> Some (-1, s)) = Some (fd, s')"
      unfolding bind_eq_Some_conv by blast
    then show ?thesis using * [of d] assms(2) by (cases "is_mounted d (mtab s)") auto
  qed
  show ?thesis
    using assms volume by (auto simp: unix_open_def intro: * split: if_splits)
qed

lemma io_status_held: "io_status sb st s = Some (r, s') \<Longrightarrow> held i nd s \<Longrightarrow> held i nd s'"
  by (auto simp: io_status_def bind_eq_Some_conv)

lemma io_information_held: "io_information sb n s = Some s' \<Longrightarrow> held i nd s \<Longrightarrow> held i nd s'"
  by (auto simp: io_information_def bind_eq_Some_conv)

lemma move_to_held [simp]: "held i nd (move_to fd p s) = held i nd s"
proof -
  have "harmless i (map_option (\<lambda>d. d\<lparr>pos := p\<rparr>) d) = harmless i d" for d
    by (cases d) simp_all
  then have "no_writer i (move_to fd p s) = no_writer i s"
    unfolding no_writer_def move_to_def by (intro all_cong1) simp
  then show ?thesis by (simp add: held_def mounted_file_def move_to_def)
qed

lemma sys_lseek_held [simp]: "held i nd (sys_lseek fd off s) = held i nd s"
  by (auto simp: sys_lseek_def split: option.splits)

lemma sys_read_held: "sys_read fd n s = Some (bs, s') \<Longrightarrow> held i nd s \<Longrightarrow> held i nd s'"
  by (auto simp: sys_read_def bind_eq_Some_conv Let_def split: if_splits)

lemma sys_write_held: "sys_write fd bs s = Some (n, s') \<Longrightarrow> held i nd s \<Longrightarrow> held i nd s'"
proof -
  assume w: "sys_write fd bs s = Some (n, s')" and h: "held i nd s"
  have "held i nd (set_content j c s)" if "j \<noteq> i" for j c
    using h that by (simp add: held_parts set_content_def)
  moreover have "ino d \<noteq> i" if "open_file fd s = Some (d, nd')" "wants_write (oflags d)" for d nd'
    using h that by (auto simp: open_file_def held_parts bind_eq_Some_conv dest: spec [of _ fd])
  ultimately show "held i nd s'"
    using w h by (auto simp: sys_write_def bind_eq_Some_conv Let_def split: if_splits)
qed

lemma sys_close_held: "held i nd s \<Longrightarrow> held i nd (sys_close fd s)"
  by (auto simp: held_parts sys_close_def)

lemma read_into_held: "read_into fd a n s = Some (k, s') \<Longrightarrow> held i nd s \<Longrightarrow> held i nd s'"
  by (auto simp: read_into_def bind_eq_Some_conv intro: sys_read_held)

lemma write_from_held: "write_from fd a n s = Some (k, s') \<Longrightarrow> held i nd s \<Longrightarrow> held i nd s'"
  by (auto simp: write_from_def bind_eq_Some_conv intro: sys_write_held)

lemma seek_to_held: "seek_to h off s = Some s' \<Longrightarrow> held i nd s \<Longrightarrow> held i nd s'"
  by (auto simp: seek_to_def split: option.splits if_splits)

lemma complete_held: "complete sb E None n s = Some (r, s') \<Longrightarrow> held i nd s \<Longrightarrow> held i nd s'"
  by (auto simp: complete_def set_event_def bind_eq_Some_conv Let_def; blast intro: io_status_held io_information_held)

lemmas held_calls = io_status_held io_information_held seek_to_held read_into_held write_from_held complete_held
  unix_open_held

lemma checked_io_held:
  assumes "checked_io H sb s body = Some (r, s')" "held i nd s" "\<And>h. body h = Some (r, s') \<Longrightarrow> held i nd s'"
  shows "held i nd s'"
  using assms by (auto simp: checked_io_def split: option.splits if_splits)

lemma NtCreateFile_steps:
  assumes "NtCreateFile F acc nm sb s = Some (r, H, s')"
  obtains "s' = s"
  | path s1 fd s2 st where "io_information sb FILE_DOES_NOT_EXIST s = Some s1"
      "unix_open path (ntflags_unix acc) s1 = Some (fd, s2)" "io_status sb st s2 = Some (r, s')"
  | path s1 fd s2 s3 st where "io_information sb FILE_DOES_NOT_EXIST s = Some s1"
      "unix_open path (ntflags_unix acc) s1 = Some (fd, s2)" "io_information sb FILE_CREATED s2 = Some s3"
      "io_status sb st s3 = Some (r, s')"
proof (cases "F = None \<or> sb = 0")
  case True
  then show thesis using assms that(1) by (auto simp: NtCreateFile_def)
next
  case False
  then obtain path s1 fd s2 where 1: "io_information sb FILE_DOES_NOT_EXIST s = Some s1"
    "unix_open path (ntflags_unix acc) s1 = Some (fd, s2)"
    "(case (if fd < 0 then None else opened_stat fd s2) of
       None \<Rightarrow> do { (st, s) \<leftarrow> io_status sb STATUS_OBJECT_NAME_NOT_FOUND s2; Some (st, None, s) }
     | Some st \<Rightarrow> do {
         s \<leftarrow> io_information sb FILE_CREATED s2;
         (r, s) \<leftarrow> io_status sb STATUS_SUCCESS s;
         Some (r, Some (file_handle_of path fd acc st), s)
       }) = Some (r, H, s')"
    using assms by (auto simp: NtCreateFile_def bind_eq_Some_conv split: option.splits)
  show thesis
  proof (cases "if fd < 0 then None else opened_stat fd s2")
    case None
    then have "io_status sb STATUS_OBJECT_NAME_NOT_FOUND s2 = Some (r, s')"
      using 1(3) by (auto simp only: option.case bind_eq_Some_conv prod.case split: prod.splits)
    then show thesis using that(2) 1(1,2) by blast
  next
    case (Some st)
    then obtain s3 where "io_information sb FILE_CREATED s2 = Some s3" "io_status sb STATUS_SUCCESS s3 = Some (r, s')"
      using 1(3) by (auto simp only: option.case bind_eq_Some_conv prod.case split: prod.splits)
    then show thesis using that(3) 1(1,2) by blast
  qed
qed

lemma NtCreateFile_held: "NtCreateFile F acc nm sb s = Some (r, H, s') \<Longrightarrow> held i nd s \<Longrightarrow> held i nd s'"
  by (erule NtCreateFile_steps) (simp, metis unix_open_held io_status_held io_information_held,
    metis unix_open_held io_status_held io_information_held)

lemma NtReadFile_held: "NtReadFile H E None sb a n off s = Some (r, s') \<Longrightarrow> held i nd s \<Longrightarrow> held i nd s'"
  unfolding NtReadFile_def
  by (erule checked_io_held, assumption)
    (auto simp: bind_eq_Some_conv split: if_splits option.splits; blast intro: held_calls)

lemma NtWriteFile_held: "NtWriteFile H E None sb a n off s = Some (r, s') \<Longrightarrow> held i nd s \<Longrightarrow> held i nd s'"
  unfolding NtWriteFile_def
  by (erule checked_io_held, assumption)
    (auto split: if_splits option.splits; blast intro: held_calls)

lemma io_step_held: "io_step s c s' \<Longrightarrow> held i nd s \<Longrightarrow> held i nd s'"
proof (induction rule: io_step.induct)
  case (close C s r freed s')
  then show ?case by (auto simp: NtClose_def sys_close_held split: option.splits if_splits any_handle.splits)
next
  case (flush H sb s r s')
  show ?case
    by (rule checked_io_held [OF flush(1) [unfolded NtFlushBuffersFile_def] flush(2)])
      (auto simp: bind_eq_Some_conv split: if_splits; blast intro: flush(2) held_calls)
next
  case (cancel H sb s r s')
  have k: "held i nd (s\<lparr>keyboard := k\<rparr>)" for k using cancel(2) by simp
  show ?case
    by (rule checked_io_held [OF cancel(1) [unfolded NtCancelIoFile_def] cancel(2)])
      (auto simp: bind_eq_Some_conv Let_def split: if_splits; blast intro: k cancel(2) held_calls)
next
  case (query D a n b rl s r s')
  then show ?case
    by (auto simp: NtQueryDirectoryObject_def bind_eq_Some_conv split: option.splits if_splits)
qed (auto simp: NtOpenFile_def intro: NtCreateFile_held NtReadFile_held NtWriteFile_held split: if_splits)

interpretation mounted: invariant io_step "held i nd" for i nd
  by unfold_locales (rule io_step_held)

text \<open>
  C10. Whatever files a program opens and whatever it reads, writes, closes, flushes or cancels,
  a file all of whose names the mount table lists keeps its content.
\<close>

theorem mounted_files_untouched:
  assumes "run io_step s calls s'" "mounted_file i s" "no_writer i s" "inodes s i = Some nd"
  shows "inodes s' i = Some nd"
  using mounted.along_run [OF assms(1), of i nd] assms(2-4) by (simp add: held_def)

theorem mounted_files_untouched_witness:
  "\<exists>s'. run io_step host [Write (Some image_handle) None 8 40 3 (Some 7)] s' \<and> inodes s' 6 = Some disk_image"
proof -
  obtain s' where w: "host_write = Some (STATUS_SUCCESS, s')" using host_results(1) by auto
  have r: "run io_step host [Write (Some image_handle) None 8 40 3 (Some 7)] s'"
    by (rule run_one, rule io_step.writes) (use w in \<open>simp add: host_write_def\<close>)
  have "is_mounted sda1 (mtab host) = MTAB_MOUNTED" "sda1 \<noteq> dev_null" "sda1 \<noteq> disk_img" by code_simp+
  then have "mounted_file 6 host" by (simp add: mounted_file_def host_def)
  moreover have "no_writer 6 host" by (simp add: no_writer_def host_def)
  ultimately show ?thesis using mounted_files_untouched [OF r, of 6 disk_image] r by (auto simp: host_def)
qed

section \<open>Transfers\<close>


lemma length_spliced: "bs \<noteq> [] \<Longrightarrow> length (spliced p bs c) = max (length c) (p + length bs)"
  by (cases "p \<le> length c") (auto simp: spliced_def)

lemma open_file_other [simp]:
  "open_file fd (s\<lparr>memory := m\<rparr>) = open_file fd s" "open_file fd (s\<lparr>keyboard := k\<rparr>) = open_file fd s"
  by (simp_all add: open_file_def)

lemma open_file_move_to [simp]:
  "open_file fd (move_to fd p s) = map_option (\<lambda>(d, nd). (d\<lparr>pos := p\<rparr>, nd)) (open_file fd s)"
  by (cases "descrs s fd") (auto simp: open_file_def move_to_def map_option_bind comp_def split: bind_splits)

lemma memory_move_to [simp]: "memory (move_to fd p s) = memory s"
  by (simp add: move_to_def)

lemma io_status_memory:
  "io_status sb st s = Some (r, s') \<Longrightarrow> r = st \<and> writes_in {sb..<sb + 16} (memory s) (memory s') \<and> inodes s' = inodes s \<and> descrs s' = descrs s"
  by (auto simp: io_status_def bind_eq_Some_conv intro!: put_fields_in [where n = 16])

lemma io_information_memory:
  "io_information sb n s = Some s' \<Longrightarrow> writes_in {sb..<sb + 16} (memory s) (memory s') \<and> inodes s' = inodes s \<and> descrs s' = descrs s"
  by (auto simp: io_information_def bind_eq_Some_conv intro!: put_fields_in [where n = 16])

lemma complete_memory:
  assumes "complete sb E None n s = Some (r, s')"
  shows "r = STATUS_SUCCESS" "writes_in {sb..<sb + 16} (memory s) (memory s')" "inodes s' = inodes s" "descrs s' = descrs s"
proof -
  obtain s1 r2 s2 where 1: "io_information sb (of_nat n) s = Some s1" "io_status sb STATUS_SUCCESS s1 = Some (r2, s2)"
    "r = STATUS_SUCCESS" "s' = set_event E s2"
    using assms by (auto simp: complete_def Let_def bind_eq_Some_conv)
  note 2 = io_information_memory [OF 1(1)] io_status_memory [OF 1(2)]
  show "r = STATUS_SUCCESS" by (fact 1(3))
  show "writes_in {sb..<sb + 16} (memory s) (memory s')" using 2 1(4) by (auto simp: set_event_def intro: writes_in_trans)
  show "inodes s' = inodes s" "descrs s' = descrs s" using 2 1(4) by (simp_all add: set_event_def)
qed

lemma error_codes: "STATUS_INVALID_PARAMETER \<noteq> STATUS_SUCCESS" "STATUS_UNSUCCESSFUL \<noteq> STATUS_SUCCESS"
  "STATUS_INVALID_HANDLE \<noteq> STATUS_SUCCESS" "STATUS_ACCESS_VIOLATION \<noteq> STATUS_SUCCESS"
  by code_simp+

text \<open>A transfer that succeeds has sought, moved the bytes and completed.\<close>

lemma NtWriteFile_success:
  assumes "NtWriteFile (Some h) E None sb a Len off s = Some (STATUS_SUCCESS, s')"
  obtains s1 n s2 where "seek_to h off s = Some s1" "write_from (fh h) a Len s1 = Some (n, s2)"
    "complete sb E None n s2 = Some (STATUS_SUCCESS, s')"
  using assms error_codes
  by (auto simp: NtWriteFile_def checked_io_def CHECK_FILE_def CHECK_HANDLE_def split: option.splits if_splits dest!: io_status_memory)


lemma FILE_USE_FILE_POINTER_POSITION_negative: "FILE_USE_FILE_POINTER_POSITION <s 0"
  by (simp add: FILE_USE_FILE_POINTER_POSITION_def word_sless_alt)

lemma seek_to_offset:
  assumes "seek_to h (Some off) s = Some s1" "\<not> off <s 0" "open_file (fh h) s = Some (d, nd)" "seekable nd"
  shows "s1 = move_to (fh h) (unat off) s"
  using assms FILE_USE_FILE_POINTER_POSITION_negative by (auto simp: seek_to_def sys_lseek_def split: if_splits)

lemma write_at_offset:
  assumes "NtWriteFile (Some h) E None sb a Len (Some off) s = Some (STATUS_SUCCESS, s')"
    and "open_file (fh h) s = Some (d, nd)" "S_ISREG (st_mode (attributes nd))" "oflags d AND O_APPEND = 0"
    and "\<not> off <s 0" "Len \<noteq> 0" "bytes_at (memory s) a (transfer Len) = Some bs"
  shows "inodes s' = (inodes s)(ino d \<mapsto> nd\<lparr>content := spliced (unat off) bs (content nd)\<rparr>)"
    "\<exists>d'. open_file (fh h) s' = Some (d', nd\<lparr>content := spliced (unat off) bs (content nd)\<rparr>)"
    "length (spliced (unat off) bs (content nd)) = max (length (content nd)) (unat off + transfer Len)"
proof -
  obtain s1 n s2 where 1: "seek_to h (Some off) s = Some s1" "write_from (fh h) a Len s1 = Some (n, s2)"
    "complete sb E None n s2 = Some (STATUS_SUCCESS, s')"
    by (rule NtWriteFile_success [OF assms(1)])
  have s1: "s1 = move_to (fh h) (unat off) s"
    by (rule seek_to_offset [OF 1(1) assms(5,2)]) (simp add: seekable_def assms(3))
  have "0 < transfer Len" using assms(6) by (simp add: transfer_def min_def unat_gt_0)
  then have n: "length bs = transfer Len" "bs \<noteq> []"
    using assms(7) by (auto simp: bytes_at_def split: if_splits)
  have "inodes s2 = (inodes s)(ino d \<mapsto> nd\<lparr>content := spliced (unat off) bs (content nd)\<rparr>)"
    using 1(2) assms(2-4,6,7) n
    by (auto simp: write_from_def sys_write_def s1 set_content_def move_to_def open_file_def Let_def bind_eq_Some_conv seekable_def split: if_splits)
  moreover have "\<exists>d'. descrs s2 (fh h) = Some d' \<and> ino d' = ino d"
    using 1(2) assms(2-4,6,7) n
    by (auto simp: write_from_def sys_write_def s1 set_content_def move_to_def open_file_def Let_def bind_eq_Some_conv seekable_def split: if_splits)
  ultimately show "inodes s' = (inodes s)(ino d \<mapsto> nd\<lparr>content := spliced (unat off) bs (content nd)\<rparr>)"
    "\<exists>d'. open_file (fh h) s' = Some (d', nd\<lparr>content := spliced (unat off) bs (content nd)\<rparr>)"
    using complete_memory(3,4) [OF 1(3)] by (auto simp: open_file_def)
  show "length (spliced (unat off) bs (content nd)) = max (length (content nd)) (unat off + transfer Len)"
    using n length_spliced by simp
qed


text \<open>
  A successful write at a position of an ordinary file replaces the bytes there, leaves the
  rest alone and fills a gap with zeros.  The file grows when the bytes reach behind its end, which
  the check of the start against the size does not prevent.
\<close>

theorem write_places_bytes:
  assumes "NtWriteFile (Some h) E None sb a Len (Some off) s = Some (STATUS_SUCCESS, s')"
    and "open_file (fh h) s = Some (d, nd)" "S_ISREG (st_mode (attributes nd))" "oflags d AND O_APPEND = 0"
    and "\<not> off <s 0" "Len \<noteq> 0" "bytes_at (memory s) a (transfer Len) = Some bs"
  shows "inodes s' = (inodes s)(ino d \<mapsto> nd\<lparr>content := spliced (unat off) bs (content nd)\<rparr>)
    \<and> length (spliced (unat off) bs (content nd)) = max (length (content nd)) (unat off + transfer Len)"
  using write_at_offset [OF assms] by simp

theorem write_places_bytes_witness:
  "\<exists>s'. host_write = Some (STATUS_SUCCESS, s') \<and> map_option content (inodes s' 5) = Some [1, 2, 3, 4, 5, 6, 7, 9, 9, 9]"
proof -
  obtain s' where w: "host_write = Some (STATUS_SUCCESS, s')" using host_results(1) by auto
  have "inodes s' 5 = Some (disk_image\<lparr>content := spliced (unat (7 :: u64)) [9, 9, 9] (content disk_image)\<rparr>)"
    using write_places_bytes [OF w [unfolded host_write_def] host_open host_facts(4,5,1) _ host_bytes] by simp
  then show ?thesis using w by (intro exI [of _ s']) (simp add: disk_image_def spliced_def)
qed




text \<open>
  A negative position other than the mark for the file pointer passes the check, the seek
  fails and its failure is dropped: the transfer happens at the file pointer.
\<close>

theorem negative_offset_ignored:
  assumes "off <s 0" "\<not> st_size (stat h) <s 0"
  shows "NtReadFile (Some h) E A sb a n (Some off) s = NtReadFile (Some h) E A sb a n None s
    \<and> NtWriteFile (Some h) E A sb a n (Some off) s = NtWriteFile (Some h) E A sb a n None s"
proof -
  have "\<not> st_size (stat h) <s off" using assms by (simp add: word_sless_alt)
  then have "seek_to h (Some off) s = Some s"
    using assms(1) by (auto simp: seek_to_def sys_lseek_def split: option.splits)
  then have "seek_to h (Some off) s = seek_to h None s" by (simp add: seek_to_def)
  moreover have "seek_to g (Some off) s = seek_to g None s \<Longrightarrow> g = h \<Longrightarrow>
      NtReadFile (Some g) E A sb a n (Some off) s = NtReadFile (Some g) E A sb a n None s
    \<and> NtWriteFile (Some g) E A sb a n (Some off) s = NtWriteFile (Some g) E A sb a n None s" for g
    by (simp add: NtReadFile_def NtWriteFile_def checked_io_def split: option.splits)
  ultimately show ?thesis by blast
qed

theorem negative_offset_ignored_witness:
  "NtReadFile (Some image_handle) None None 8 40 3 (Some 0xfffffffffffffffb) host
     = NtReadFile (Some image_handle) None None 8 40 3 None host"
  using negative_offset_ignored [OF host_facts(2,3)] by blast

section \<open>The mount table\<close>

definition mtab_text :: "u8 list list \<Rightarrow> u8 list" where
  "mtab_text ls = concat (map (\<lambda>l. l @ [0x0a]) ls)"

text \<open>A line that fits the buffer and has a blank behind the device.\<close>

definition mtab_line :: "u8 list \<Rightarrow> bool" where
  "mtab_line l \<longleftrightarrow> length l < 511 \<and> 0x0a \<notin> set l \<and> 0x20 \<in> set l"

lemma fgets_line: "length l < n \<Longrightarrow> 0x0a \<notin> set l \<Longrightarrow> fgets_take n (l @ 0x0a # r) = (l @ [0x0a], r)"
proof (induction l arbitrary: n)
  case Nil
  then show ?case by (cases n) auto
next
  case (Cons b l)
  then show ?case by (cases n) auto
qed

lemma mtab_field_line: "0x20 \<in> set l \<Longrightarrow> mtab_field (l @ [0x0a]) = mtab_field l"
  by (auto simp: mtab_field_def intro: takeWhile_append1)

lemma mtab_scan_lines: "list_all mtab_line ls \<Longrightarrow> mtab_scan device (mtab_text ls) \<longleftrightarrow> device \<in> mtab_field ` set ls"
proof (induction ls)
  case Nil
  then show ?case by (simp add: mtab_text_def mtab_scan.simps)
next
  case (Cons l ls)
  then have l: "length l < 511" "0x0a \<notin> set l" "0x20 \<in> set l" by (simp_all add: mtab_line_def)
  have "mtab_scan device (l @ 0x0a # mtab_text ls) \<longleftrightarrow> device = mtab_field l \<or> mtab_scan device (mtab_text ls)"
    by (subst mtab_scan.simps) (simp add: fgets_line [OF l(1,2)] mtab_field_line [OF l(3)])
  then show ?case using Cons by (simp add: mtab_text_def)
qed

lemma is_mounted_lines:
  assumes "ls \<noteq> []" "list_all mtab_line ls"
  shows "is_mounted device (Some (mtab_text ls)) = (if device \<in> mtab_field ` set ls then MTAB_MOUNTED else MTAB_NOTMOUNTED)"
  using assms by (cases ls) (auto simp: is_mounted_def mtab_scan_lines, auto simp: mtab_text_def)

lemma volume_path: "strncaseeq (volume_prefix @ p) volume_prefix 7" "drop 7 (volume_prefix @ p) = p" "length volume_prefix = 7"
  by (simp_all add: strncaseeq_def same_text_def volume_prefix_def narrow_lit_def)

text \<open>
  C27. What opening a volume name \<open>Volume{dev}\<close> does, for a mount table whose lines have less than 511 characters and
  a blank behind the device: a name with \<^verbatim>\<open>BOOTEX.LOG\<close> in it opens \<^verbatim>\<open>/dev/null\<close>; when the table is missing or empty the
  device is refused, and so is a device that stands at the start of a line of the table, and then nothing changes; any other
  device is opened.
\<close>

theorem volume_opened_unless_mounted:
  assumes "\<forall>bs. mtab s = Some bs \<longrightarrow> bs = mtab_text ls" "list_all mtab_line ls"
  shows "unix_open (volume_prefix @ dev @ [0x7d]) flags s = Some (
    if strcasestr (volume_prefix @ dev @ [0x7d]) (narrow_lit ''BOOTEX.LOG'') then sys_open dev_null flags s
    else if mtab s = None \<or> mtab s = Some [] \<or> dev \<in> mtab_field ` set ls then (-1, s)
    else sys_open dev flags s)"
proof -
  have "devpath (volume_prefix @ dev @ [0x7d]) = Some dev"
    using volume_path(2) [of "dev @ [0x7d]"] by (simp add: devpath_def volume_path(3) butlast_append)
  moreover have "is_mounted dev (mtab s) = (if mtab s = None \<or> mtab s = Some [] then MTAB_ERROR
      else if dev \<in> mtab_field ` set ls then MTAB_MOUNTED else MTAB_NOTMOUNTED)"
  proof (cases "mtab s")
    case (Some bs)
    then show ?thesis using assms is_mounted_lines [of ls dev] by (cases "ls = []") (auto simp: mtab_text_def is_mounted_def)
  qed (simp add: is_mounted_def)
  ultimately show ?thesis
    using volume_path(1) [of "dev @ [0x7d]"] by (simp add: unix_open_def)
qed

theorem volume_opened_unless_mounted_witness:
  "unix_open (volume_prefix @ sda1 @ [0x7d]) O_RDWR host = Some (-1, host) \<and>
   unix_open (volume_prefix @ sda1 @ [0x7d]) O_RDWR (host\<lparr>mtab := None\<rparr>) = Some (-1, host\<lparr>mtab := None\<rparr>)"
proof -
  have "mtab_line sda1_line" "mtab_field sda1_line = sda1"
    "\<not> strcasestr (volume_prefix @ sda1 @ [0x7d]) (narrow_lit ''BOOTEX.LOG'')" by code_simp+
  then show ?thesis
    using volume_opened_unless_mounted [of host "[sda1_line]" sda1] volume_opened_unless_mounted [of "host\<lparr>mtab := None\<rparr>" "[]" sda1]
    by (simp add: host_def mtab_text_def)
qed

text \<open>The table is searched for the text of a name only: another spelling of it is opened.\<close>

lemma alias_of_a_mounted_device_opens:
  "map_option fst (unix_open (volume_prefix @ narrow_lit ''//dev/sda1'' @ [0x7d]) O_RDWR
     (host\<lparr>names := (names host)(narrow_lit ''//dev/sda1'' \<mapsto> 6)\<rparr>)) = Some 0"
  by code_simp

end
