(* ===== verification/Threads.thy ===== *)
theory Threads
  imports Device_Control Runs
begin

text \<open>
  Threads and locks of \<^verbatim>\<open>libs/ntdll/thread.c\<close> and \<^verbatim>\<open>swr.c\<close>: critical sections on recursive
  mutexes, the slim locks, and threads with their handles.  Addresses name critical sections,
  mutexes and handles; threads of the host are numbers.
\<close>

section \<open>Recursive mutexes\<close>

text \<open>A call can fault, wait for another thread, or return.\<close>

datatype 'a call = Faults | Blocks | Returns 'a

record mutex =
  owner :: "nat option"
  depth :: nat

definition free_mutex :: mutex where "free_mutex = \<lparr>owner = None, depth = 0\<rparr>"

text \<open>\<open>None\<close> is a thread that has to wait.\<close>

definition mutex_lock :: "nat \<Rightarrow> mutex \<Rightarrow> mutex option" where
  "mutex_lock t m =
     (case owner m of
        None \<Rightarrow> Some \<lparr>owner = Some t, depth = 1\<rparr>
      | Some u \<Rightarrow> if u = t then Some (m\<lparr>depth := depth m + 1\<rparr>) else None)"

text \<open>A thread that does not own the mutex gets an error and changes nothing.\<close>

definition mutex_unlock :: "nat \<Rightarrow> mutex \<Rightarrow> mutex" where
  "mutex_unlock t m =
     (if owner m = Some t then (if depth m \<le> 1 then free_mutex else m\<lparr>depth := depth m - 1\<rparr>) else m)"

section \<open>Critical sections\<close>

text \<open>\<open>sections\<close> is the field \<open>LockSemaphore\<close> of a critical section, 0 when it is null.\<close>

record locks =
  sections :: "nat \<Rightarrow> nat"
  mutexes :: "nat \<Rightarrow> mutex option"

text \<open>The heap block of the new mutex is an argument.\<close>

definition RtlInitializeCriticalSection :: "nat \<Rightarrow> nat \<Rightarrow> locks \<Rightarrow> NTSTATUS \<times> locks" where
  "RtlInitializeCriticalSection CriticalSection m s =
     (if CriticalSection = 0 then (STATUS_ACCESS_VIOLATION, s)
      else (STATUS_SUCCESS, s\<lparr>mutexes := (mutexes s)(m \<mapsto> free_mutex), sections := (sections s)(CriticalSection := m)\<rparr>))"

definition RtlDeleteCriticalSection :: "nat \<Rightarrow> locks \<Rightarrow> (NTSTATUS \<times> locks) call" where
  "RtlDeleteCriticalSection CriticalSection s =
     (if CriticalSection = 0 then Returns (STATUS_ACCESS_VIOLATION, s)
      else if mutexes s (sections s CriticalSection) = None then Faults
      else Returns (STATUS_SUCCESS,
        s\<lparr>mutexes := (mutexes s)(sections s CriticalSection := None), sections := (sections s)(CriticalSection := 0)\<rparr>))"

definition RtlEnterCriticalSection :: "nat \<Rightarrow> nat \<Rightarrow> locks \<Rightarrow> (NTSTATUS \<times> locks) call" where
  "RtlEnterCriticalSection t CriticalSection s =
     (case mutexes s (sections s CriticalSection) of
        None \<Rightarrow> Faults
      | Some m \<Rightarrow>
          (case mutex_lock t m of
             None \<Rightarrow> Blocks
           | Some m \<Rightarrow> Returns (STATUS_SUCCESS, s\<lparr>mutexes := (mutexes s)(sections s CriticalSection \<mapsto> m)\<rparr>)))"

definition RtlTryEnterCriticalSection :: "nat \<Rightarrow> nat \<Rightarrow> locks \<Rightarrow> (bool \<times> locks) call" where
  "RtlTryEnterCriticalSection t CriticalSection s =
     (case mutexes s (sections s CriticalSection) of
        None \<Rightarrow> Faults
      | Some m \<Rightarrow>
          (case mutex_lock t m of
             None \<Rightarrow> Returns (False, s)
           | Some m \<Rightarrow> Returns (True, s\<lparr>mutexes := (mutexes s)(sections s CriticalSection \<mapsto> m)\<rparr>)))"

definition RtlLeaveCriticalSection :: "nat \<Rightarrow> nat \<Rightarrow> locks \<Rightarrow> (NTSTATUS \<times> locks) call" where
  "RtlLeaveCriticalSection t CriticalSection s =
     (case mutexes s (sections s CriticalSection) of
        None \<Rightarrow> Faults
      | Some m \<Rightarrow> Returns (STATUS_SUCCESS, s\<lparr>mutexes := (mutexes s)(sections s CriticalSection \<mapsto> mutex_unlock t m)\<rparr>))"

text \<open>The calls of several threads, in any order.\<close>

datatype cs_action =
    Init nat
  | Delete nat
  | Enter nat nat
  | Try_enter nat nat bool
  | Leave nat nat

inductive cs_step :: "locks \<Rightarrow> cs_action \<Rightarrow> locks \<Rightarrow> bool" where
  init: "m \<noteq> 0 \<Longrightarrow> mutexes s m = None \<Longrightarrow> RtlInitializeCriticalSection cs m s = (r, s') \<Longrightarrow> cs_step s (Init cs) s'"
| delete: "RtlDeleteCriticalSection cs s = Returns (r, s') \<Longrightarrow> cs_step s (Delete cs) s'"
| enter: "RtlEnterCriticalSection t cs s = Returns (r, s') \<Longrightarrow> cs_step s (Enter t cs) s'"
| try_enter: "RtlTryEnterCriticalSection t cs s = Returns (b, s') \<Longrightarrow> cs_step s (Try_enter t cs b) s'"
| leave: "RtlLeaveCriticalSection t cs s = Returns (r, s') \<Longrightarrow> cs_step s (Leave t cs) s'"

inductive_simps cs_step_simps [simp]:
  "cs_step s (Init cs) s'" "cs_step s (Delete cs) s'" "cs_step s (Enter t cs) s'"
  "cs_step s (Try_enter t cs b) s'" "cs_step s (Leave t cs) s'"

section \<open>Slim locks\<close>

definition RtlInitializeSRWLock :: "nat \<Rightarrow> mem \<Rightarrow> mem option" where
  "RtlInitializeSRWLock SRWLock m = put_fields SRWLock [F64 0 0] m"

text \<open>The bodies are empty.\<close>

definition RtlAcquireSRWLockExclusive :: "nat \<Rightarrow> mem \<Rightarrow> mem call" where
  "RtlAcquireSRWLockExclusive SRWLock m = Returns m"

definition RtlReleaseSRWLockExclusive :: "nat \<Rightarrow> mem \<Rightarrow> mem call" where
  "RtlReleaseSRWLockExclusive SRWLock m = Returns m"

section \<open>Threads\<close>

record thread_handle = handle +
  StartAddress :: nat
  StartParameter :: nat
  ExitStatus :: u32

text \<open>
  The handles by address, the threads that run with their \<open>CurrentThreadHandle\<close> (0 in a thread
  that \<open>RtlCreateUserThread\<close> did not start), and what a thread that ended left for a join.
\<close>

datatype join_value = Status u32 | Address nat | Null

record procs =
  thread_handles :: "nat \<Rightarrow> thread_handle option"
  running :: "nat \<Rightarrow> nat option"
  joined :: "nat \<Rightarrow> join_value option"

definition CURRENT_THREAD :: nat where "CURRENT_THREAD = 0xfffffffffffffffe"

definition GetThreadHandle :: "nat \<Rightarrow> nat \<Rightarrow> procs \<Rightarrow> nat" where
  "GetThreadHandle t ThreadHandle s =
     (if ThreadHandle = CURRENT_THREAD then (case running s t of Some h \<Rightarrow> h | None \<Rightarrow> 0) else ThreadHandle)"

text \<open>
  \<open>th\<close> is the block for the handle, \<open>description\<close> the printed name, \<open>tid\<close> the thread that
  \<^verbatim>\<open>pthread_create\<close> starts, if it does.
\<close>

definition RtlCreateUserThread ::
  "nat \<Rightarrow> nat \<Rightarrow> nat \<Rightarrow> nat \<Rightarrow> nat \<Rightarrow> u8 list \<Rightarrow> nat option \<Rightarrow> procs \<Rightarrow> NTSTATUS \<times> nat option \<times> procs" where
  "RtlCreateUserThread ProcessHandle StartAddr StartParam ThreadHandle th description tid s =
     (if ProcessHandle = 0 \<or> StartAddr = 0 \<or> ThreadHandle = 0 then (STATUS_ACCESS_VIOLATION, None, s)
      else case tid of
        None \<Rightarrow> (STATUS_UNSUCCESSFUL, None, s)
      | Some t \<Rightarrow> (STATUS_SUCCESS, Some th,
          s\<lparr>thread_handles := (thread_handles s)(th \<mapsto>
              handle.extend (CreateHandle HANDLE_TH description ''RtlCreateUserThread'')
                \<lparr>StartAddress = StartAddr, StartParameter = StartParam, ExitStatus = 0xffffffff\<rparr>),
            running := (running s)(t \<mapsto> th)\<rparr>))"

definition set_exit :: "nat \<Rightarrow> u32 \<Rightarrow> procs \<Rightarrow> procs" where
  "set_exit h st s = s\<lparr>thread_handles := (thread_handles s)(h := map_option (\<lambda>th. th\<lparr>ExitStatus := st\<rparr>) (thread_handles s h))\<rparr>"

definition end_thread :: "nat \<Rightarrow> join_value \<Rightarrow> procs \<Rightarrow> procs" where
  "end_thread t v s = s\<lparr>running := (running s)(t := None), joined := (joined s)(t \<mapsto> v)\<rparr>"

text \<open>The procedure of a thread returns.\<close>

definition thread_start :: "nat \<Rightarrow> u32 \<Rightarrow> procs \<Rightarrow> procs option" where
  "thread_start t result s = do {
     h \<leftarrow> running s t;
     _ \<leftarrow> thread_handles s h;
     Some (end_thread t (Status result) (set_exit h result s))
   }"

text \<open>\<^verbatim>\<open>pthread_exit\<close> ends the thread that calls it.\<close>

definition NtTerminateThread :: "nat \<Rightarrow> nat \<Rightarrow> u32 \<Rightarrow> procs \<Rightarrow> procs option" where
  "NtTerminateThread t ThreadHandle Exit s =
     (let h = GetThreadHandle t ThreadHandle s
      in if h = 0 then Some (end_thread t Null s)
         else if thread_handles s h = None then None
         else Some (end_thread t (Address h) (set_exit h Exit s)))"

text \<open>The offsets of the 64-bit \<open>THREAD_BASIC_INFORMATION\<close>; the length of the buffer is not looked at.\<close>

definition NtQueryInformationThread ::
  "nat \<Rightarrow> nat \<Rightarrow> nat \<Rightarrow> nat \<Rightarrow> nat \<Rightarrow> u32 \<Rightarrow> nat \<Rightarrow> procs \<Rightarrow> mem \<Rightarrow> answer" where
  "NtQueryInformationThread t teb ThreadHandle cls ThreadInformation ThreadInformationLength ReturnLength s m =
     (let h = GetThreadHandle t ThreadHandle s
      in if cls = 0 then do {
           m \<leftarrow> (if ReturnLength = 0 then Some m else put_fields ReturnLength [F32 0 48] m);
           st \<leftarrow> (if h = 0 then Some 0 else map_option ExitStatus (thread_handles s h));
           m \<leftarrow> put_fields ThreadInformation [F32 0 st, F64 8 (of_nat teb)] m;
           Some (STATUS_SUCCESS, m)
         }
         else Some (STATUS_NOT_IMPLEMENTED, m))"

definition NtSetThreadExecutionState :: "u32 \<Rightarrow> nat \<Rightarrow> mem \<Rightarrow> answer" where
  "NtSetThreadExecutionState esFlags PreviousFlags m =
     (if PreviousFlags = 0 then Some (STATUS_ACCESS_VIOLATION, m)
      else do { m \<leftarrow> put_fields PreviousFlags [F32 0 esFlags] m; Some (STATUS_SUCCESS, m) })"

datatype thread_action =
    Create nat nat
  | Return nat u32
  | Terminate nat nat u32

inductive thread_step :: "procs \<Rightarrow> thread_action \<Rightarrow> procs \<Rightarrow> bool" where
  create: "running s t \<noteq> None \<Longrightarrow> running s u = None \<Longrightarrow> joined s u = None \<Longrightarrow> th \<noteq> 0 \<Longrightarrow> th \<noteq> CURRENT_THREAD \<Longrightarrow> thread_handles s th = None \<Longrightarrow>
    RtlCreateUserThread ph sa sp out th d (Some u) s = (STATUS_SUCCESS, Some th, s') \<Longrightarrow> thread_step s (Create u th) s'"
| returns: "thread_start t r s = Some s' \<Longrightarrow> thread_step s (Return t r) s'"
| terminate: "running s t \<noteq> None \<Longrightarrow> NtTerminateThread t h r s = Some s' \<Longrightarrow> thread_step s (Terminate t h r) s'"

end
