(* ===== verification/Threads_Spec.thy ===== *)
theory Threads_Spec
  imports Threads Device_Control_Spec
begin

text \<open>
  Critical sections exclude each other whatever threads do, and one that no other thread is in
  can be entered; slim locks exclude nothing.  A thread that terminates another one ends itself.
\<close>

section \<open>The histories of threads\<close>

text \<open>How often a thread is inside a critical section, from its own calls.\<close>

definition counted :: "nat \<Rightarrow> nat \<Rightarrow> cs_action \<Rightarrow> nat \<Rightarrow> nat" where
  "counted cs t a n =
     (case a of
        Enter u c \<Rightarrow> if u = t \<and> c = cs then n + 1 else n
      | Try_enter u c b \<Rightarrow> if b \<and> u = t \<and> c = cs then n + 1 else n
      | Leave u c \<Rightarrow> if u = t \<and> c = cs then n - 1 else n
      | _ \<Rightarrow> n)"

definition nested :: "nat \<Rightarrow> nat \<Rightarrow> cs_action list \<Rightarrow> nat" where
  "nested cs t as = fold (counted cs t) as 0"

lemma nested_simps [simp]: "nested cs t [] = 0" "nested cs t (as @ [a]) = counted cs t a (nested cs t as)"
  by (simp_all add: nested_def)

section \<open>The invariant\<close>

text \<open>
  Every initialised critical section has a mutex of its own; a mutex has an owner when it is
  locked at least once.
\<close>

definition proper :: "mutex \<Rightarrow> bool" where
  "proper m \<longleftrightarrow> (owner m = None \<longleftrightarrow> depth m = 0)"

definition locks_ok :: "locks \<Rightarrow> bool" where
  "locks_ok s \<longleftrightarrow> mutexes s 0 = None
     \<and> (\<forall>c. sections s c \<noteq> 0 \<longrightarrow> mutexes s (sections s c) \<noteq> None)
     \<and> inj_on (sections s) {c. sections s c \<noteq> 0}
     \<and> Ball (ran (mutexes s)) proper"

lemma free_mutex_simps [simp]: "owner free_mutex = None" "depth free_mutex = 0"
  by (simp_all add: free_mutex_def)

lemma mutex_lock_Some: "mutex_lock t m = Some m' \<longleftrightarrow>
    (owner m = None \<or> owner m = Some t) \<and> m' = (if owner m = None then \<lparr>owner = Some t, depth = 1\<rparr> else m\<lparr>depth := depth m + 1\<rparr>)"
  by (auto simp: mutex_lock_def split: option.splits)

lemma proper_mutexes [simp]: "proper free_mutex" "proper m \<Longrightarrow> proper (mutex_unlock t m)"
  "mutex_lock t m = Some m' \<Longrightarrow> proper m'"
  by (auto simp: proper_def mutex_unlock_def mutex_lock_Some)

lemma locks_okD:
  assumes "locks_ok s"
  shows "mutexes s 0 = None" "sections s c \<noteq> 0 \<Longrightarrow> mutexes s (sections s c) \<noteq> None"
    "sections s c \<noteq> 0 \<Longrightarrow> sections s c = sections s d \<Longrightarrow> c = d" "mutexes s a = Some m \<Longrightarrow> proper m"
  using assms by (auto simp: locks_ok_def dest: inj_onD intro: ranI)

lemma locks_ok_update:
  assumes "locks_ok s" "mutexes s a \<noteq> None" "proper m"
  shows "locks_ok (s\<lparr>mutexes := (mutexes s)(a \<mapsto> m)\<rparr>)"
proof -
  have "a \<noteq> 0" using locks_okD(1) [OF assms(1)] assms(2) by metis
  then show ?thesis using assms by (auto simp: locks_ok_def ran_def)
qed

lemma RtlInitializeCriticalSection_ok:
  assumes "RtlInitializeCriticalSection cs m s = (r, s')" "locks_ok s" "m \<noteq> 0" "mutexes s m = None"
  shows "locks_ok s'"
proof (cases "cs = 0")
  case False
  let ?t = "(sections s)(cs := m)"
  have new: "sections s c \<noteq> m" for c using assms(3,4) locks_okD(2) [OF assms(2), of c] by metis
  have "inj_on ?t {c. ?t c \<noteq> 0}"
  proof (rule inj_onI)
    fix c d assume "c \<in> {c. ?t c \<noteq> 0}" "?t c = ?t d"
    then show "c = d" using new locks_okD(3) [OF assms(2), of c d] by (auto split: if_splits)
  qed
  moreover have "Ball (ran ((mutexes s)(m \<mapsto> free_mutex))) proper"
    using assms(2) by (auto simp: ran_def locks_ok_def)
  ultimately show ?thesis
    using assms False locks_okD(1,2) [OF assms(2)] by (auto simp: RtlInitializeCriticalSection_def locks_ok_def)
qed (use assms in \<open>simp add: RtlInitializeCriticalSection_def\<close>)

lemma RtlDeleteCriticalSection_ok:
  assumes "RtlDeleteCriticalSection cs s = Returns (r, s')" "locks_ok s"
  shows "locks_ok s'"
proof (cases "cs = 0")
  case False
  let ?t = "(sections s)(cs := 0)"
  have s': "s' = s\<lparr>mutexes := (mutexes s)(sections s cs := None), sections := ?t\<rparr>" "mutexes s (sections s cs) \<noteq> None"
    using assms(1) False by (auto simp: RtlDeleteCriticalSection_def split: if_splits)
  have "inj_on ?t {c. ?t c \<noteq> 0}"
    by (rule inj_onI) (use locks_okD(3) [OF assms(2)] in \<open>auto split: if_splits\<close>)
  moreover have "sections s c = sections s cs \<Longrightarrow> sections s c \<noteq> 0 \<Longrightarrow> c = cs" for c
    using locks_okD(3) [OF assms(2)] by metis
  moreover have "Ball (ran ((mutexes s)(sections s cs := None))) proper"
    using assms(2) by (auto simp: ran_def locks_ok_def)
  ultimately show ?thesis
    using locks_okD(1,2) [OF assms(2)] by (auto simp: s'(1) locks_ok_def)
qed (use assms in \<open>simp add: RtlDeleteCriticalSection_def\<close>)

lemma cs_step_ok: "cs_step s a s' \<Longrightarrow> locks_ok s \<Longrightarrow> locks_ok s'"
proof (induction rule: cs_step.induct)
  case (enter t cs s r s')
  then show ?case
    by (auto simp: RtlEnterCriticalSection_def locks_ok_update split: option.splits)
next
  case (try_enter t cs s b s')
  then show ?case
    by (auto simp: RtlTryEnterCriticalSection_def locks_ok_update split: option.splits)
next
  case (leave t cs s r s')
  then obtain m where m: "mutexes s (sections s cs) = Some m"
    "s' = s\<lparr>mutexes := (mutexes s)(sections s cs \<mapsto> mutex_unlock t m)\<rparr>"
    by (auto simp: RtlLeaveCriticalSection_def split: option.splits)
  then show ?case using leave.prems locks_okD(4) [OF leave.prems m(1)] by (simp add: locks_ok_update)
qed (blast intro: RtlInitializeCriticalSection_ok RtlDeleteCriticalSection_ok)+

interpretation sections: invariant cs_step locks_ok
  by unfold_locales (rule cs_step_ok)

section \<open>Mutual exclusion\<close>

definition inside :: "nat \<Rightarrow> nat \<Rightarrow> locks \<Rightarrow> nat" where
  "inside cs t s =
     (case mutexes s (sections s cs) of None \<Rightarrow> 0 | Some m \<Rightarrow> if owner m = Some t then depth m else 0)"

definition keeps_section :: "nat \<Rightarrow> cs_action \<Rightarrow> bool" where
  "keeps_section cs a \<longleftrightarrow> a \<noteq> Init cs \<and> a \<noteq> Delete cs"

lemma inside_update:
  assumes "locks_ok s" "sections s cs \<noteq> 0" "mutexes s (sections s c) = Some m"
  shows "inside cs t (s\<lparr>mutexes := (mutexes s)(sections s c \<mapsto> m')\<rparr>) =
    (if c = cs then (if owner m' = Some t then depth m' else 0) else inside cs t s)"
  using assms locks_okD(3) [OF assms(1,2), of c] by (auto simp: inside_def)

definition held_by :: "nat \<Rightarrow> mutex \<Rightarrow> nat" where
  "held_by t m = (if owner m = Some t then depth m else 0)"

lemma inside_held: "mutexes s (sections s cs) = Some m \<Longrightarrow> inside cs t s = held_by t m"
  by (simp add: inside_def held_by_def)

lemma held_by_lock: "proper m \<Longrightarrow> mutex_lock u m = Some m' \<Longrightarrow> held_by t m' = (if u = t then held_by t m + 1 else held_by t m)"
  by (cases "owner m") (auto simp: mutex_lock_Some held_by_def proper_def)

lemma held_by_unlock: "proper m \<Longrightarrow> held_by t (mutex_unlock u m) = (if u = t then held_by t m - 1 else held_by t m)"
  by (auto simp: mutex_unlock_def held_by_def proper_def)

text \<open>A step of any thread changes what each thread has of the section as its own calls say.\<close>

lemma inside_step:
  "cs_step s a s' \<Longrightarrow> locks_ok s \<Longrightarrow> sections s cs \<noteq> 0 \<Longrightarrow> keeps_section cs a \<Longrightarrow>
     sections s' cs = sections s cs \<and> inside cs t s' = counted cs t a (inside cs t s)"
proof (induction rule: cs_step.induct)
  case (init m s c r s')
  have m: "sections s cs \<noteq> m" using init.hyps(2) locks_okD(2) [OF init.prems(1,2)] by metis
  have "c \<noteq> cs" using init.prems(3) by (auto simp: keeps_section_def)
  then show ?case using init.hyps(3) m
    by (auto simp: RtlInitializeCriticalSection_def inside_def counted_def split: if_splits)
next
  case (delete c s r s')
  have c: "c \<noteq> cs" using delete.prems(3) by (auto simp: keeps_section_def)
  then have "sections s cs \<noteq> sections s c" using locks_okD(3) [OF delete.prems(1,2), of c] by metis
  then show ?case using delete.hyps c
    by (auto simp: RtlDeleteCriticalSection_def inside_def counted_def split: if_splits)
next
  case (enter u c s r s')
  then obtain m m' where m: "mutexes s (sections s c) = Some m" "mutex_lock u m = Some m'"
    "s' = s\<lparr>mutexes := (mutexes s)(sections s c \<mapsto> m')\<rparr>"
    by (auto simp: RtlEnterCriticalSection_def split: option.splits)
  have "inside cs t s' = (if c = cs then held_by t m' else inside cs t s)"
    unfolding m(3) held_by_def by (rule inside_update [OF enter.prems(1,2) m(1)])
  then show ?case
    using m held_by_lock [OF locks_okD(4) [OF enter.prems(1) m(1)] m(2), of t] inside_held [of s cs m t]
    by (cases "c = cs") (simp_all add: counted_def)
next
  case (try_enter u c s b s')
  then obtain m where m: "mutexes s (sections s c) = Some m"
    "(case mutex_lock u m of None \<Rightarrow> \<not> b \<and> s' = s | Some m' \<Rightarrow> b \<and> s' = s\<lparr>mutexes := (mutexes s)(sections s c \<mapsto> m')\<rparr>)"
    by (auto simp: RtlTryEnterCriticalSection_def split: option.splits)
  show ?case
  proof (cases "mutex_lock u m")
    case None
    then show ?thesis using m(2) by (simp add: counted_def)
  next
    case (Some m')
    then have s': "b" "s' = s\<lparr>mutexes := (mutexes s)(sections s c \<mapsto> m')\<rparr>" using m(2) by simp_all
    have "inside cs t s' = (if c = cs then held_by t m' else inside cs t s)"
      unfolding s'(2) held_by_def by (rule inside_update [OF try_enter.prems(1,2) m(1)])
    then show ?thesis
      using m(1) s' held_by_lock [OF locks_okD(4) [OF try_enter.prems(1) m(1)] Some, of t] inside_held [of s cs m t]
      by (cases "c = cs") (simp_all add: counted_def)
  qed
next
  case (leave u c s r s')
  then obtain m where m: "mutexes s (sections s c) = Some m"
    "s' = s\<lparr>mutexes := (mutexes s)(sections s c \<mapsto> mutex_unlock u m)\<rparr>"
    by (auto simp: RtlLeaveCriticalSection_def split: option.splits)
  have "inside cs t s' = (if c = cs then held_by t (mutex_unlock u m) else inside cs t s)"
    unfolding m(2) held_by_def by (rule inside_update [OF leave.prems(1,2) m(1)])
  then show ?case
    using m held_by_unlock [OF locks_okD(4) [OF leave.prems(1) m(1)], of t u] inside_held [of s cs m t]
    by (cases "c = cs") (simp_all add: counted_def)
qed

lemma inside_run:
  assumes "run cs_step s as s'" "locks_ok s" "sections s cs \<noteq> 0" "list_all (keeps_section cs) as" "\<forall>t. inside cs t s = 0"
  shows "sections s' cs = sections s cs \<and> (\<forall>t. inside cs t s' = nested cs t as)"
  using assms
proof (induction rule: run.induct)
  case (more as s' a s'')
  then have IH: "sections s' cs = sections s cs" "\<And>t. inside cs t s' = nested cs t as" by simp_all
  have "locks_ok s'" by (rule sections.along_run [OF more.hyps(1) more.prems(1)])
  then show ?case using inside_step [OF more.hyps(2)] more.prems IH by simp
qed simp

text \<open>
  C14. However the calls of threads interleave, a critical section that nobody initialises again
  or deletes can be entered by a thread exactly when no other thread has entered it more often
  than it has left it, and no two threads are ever inside.
\<close>

theorem critical_section_excludes:
  assumes "run cs_step s as s'" "locks_ok s" "list_all (keeps_section cs) as"
    and "mutexes s (sections s cs) = Some free_mutex"
  shows "((\<exists>s''. cs_step s' (Enter t cs) s'') \<longleftrightarrow> (\<forall>u. u \<noteq> t \<longrightarrow> nested cs u as = 0))
    \<and> (0 < nested cs t as \<longrightarrow> 0 < nested cs u as \<longrightarrow> t = u)"
proof -
  have "sections s cs \<noteq> 0" using assms(4) locks_okD(1) [OF assms(2)] by (metis option.distinct(1))
  moreover have "\<forall>t. inside cs t s = 0" using assms(4) by (simp add: inside_def)
  ultimately have n: "sections s' cs \<noteq> 0" "\<And>t. nested cs t as = inside cs t s'"
    using inside_run [OF assms(1,2) _ assms(3)] by auto
  have ok: "locks_ok s'" by (rule sections.along_run [OF assms(1,2)])
  then obtain m where m: "mutexes s' (sections s' cs) = Some m" "proper m"
    using locks_okD(2,4) [OF ok] n(1) by blast
  have "(\<exists>s''. cs_step s' (Enter t cs) s'') \<longleftrightarrow> mutex_lock t m \<noteq> None"
    using m(1) by (auto simp: RtlEnterCriticalSection_def split: option.splits)
  also have "\<dots> \<longleftrightarrow> owner m = None \<or> owner m = Some t"
    by (auto simp: mutex_lock_def split: option.splits)
  also have "\<dots> \<longleftrightarrow> (\<forall>u. u \<noteq> t \<longrightarrow> held_by u m = 0)"
    using m(2) by (cases "owner m") (auto simp: held_by_def proper_def)
  finally have "(\<exists>s''. cs_step s' (Enter t cs) s'') \<longleftrightarrow> (\<forall>u. u \<noteq> t \<longrightarrow> held_by u m = 0)" .
  moreover have "0 < held_by t m \<longrightarrow> 0 < held_by u m \<longrightarrow> t = u" by (auto simp: held_by_def)
  ultimately show ?thesis by (simp only: n(2) inside_held [OF m(1)])
qed

definition one_section :: locks where
  "one_section = \<lparr>sections = (\<lambda>c. if c = 8 then 64 else 0), mutexes = [64 \<mapsto> free_mutex]\<rparr>"

lemma one_section_ok: "locks_ok one_section"
  by (auto simp: locks_ok_def one_section_def inj_on_def ran_def split: if_splits)

definition section_taken :: locks where
  "section_taken = one_section\<lparr>mutexes := [64 \<mapsto> \<lparr>owner = Some 1, depth = 1\<rparr>]\<rparr>"

lemma section_taken_step: "cs_step one_section (Enter 1 8) section_taken"
  by (simp add: section_taken_def RtlEnterCriticalSection_def mutex_lock_def one_section_def free_mutex_def)

text \<open>Thread 1 is inside; thread 2 has to wait.\<close>

theorem critical_section_excludes_witness:
  "run cs_step one_section [Enter 1 8] section_taken \<and> \<not> (\<exists>s'. cs_step section_taken (Enter 2 8) s')"
proof -
  note r = run_one [where step = cs_step, OF section_taken_step]
  have "nested 8 1 [Enter 1 8] = 1" by (simp add: nested_def counted_def)
  moreover have "(\<exists>s'. cs_step section_taken (Enter 2 8) s') \<longleftrightarrow> (\<forall>u. u \<noteq> 2 \<longrightarrow> nested 8 u [Enter 1 8] = 0)"
    by (rule critical_section_excludes [OF r one_section_ok, THEN conjunct1])
      (simp_all add: keeps_section_def one_section_def)
  moreover have "(1 :: nat) \<noteq> 2" by simp
  ultimately have "\<not> (\<exists>s'. cs_step section_taken (Enter 2 8) s')" by (metis zero_neq_one)
  then show ?thesis using r by blast
qed

section \<open>Slim locks\<close>

text \<open>Any number of acquisitions returns at once.\<close>

lemma slim_locks_exclude_nothing: "RtlAcquireSRWLockExclusive a m = Returns m"
  by (simp add: RtlAcquireSRWLockExclusive_def)

section \<open>Ends of threads\<close>

text \<open>
  A thread that terminates the thread of another handle stores the status there, but the thread
  that ends is the caller; the other one runs on.
\<close>

lemma NtTerminateThread_ends_caller:
  assumes "NtTerminateThread t h r s = Some s'" "running s u = Some h" "u \<noteq> t" "h \<noteq> 0" "h \<noteq> CURRENT_THREAD"
  shows "running s' t = None \<and> running s' u = Some h \<and> map_option ExitStatus (thread_handles s' h) = Some r
    \<and> joined s' t = Some (Address h)"
  using assms by (auto simp: NtTerminateThread_def GetThreadHandle_def Let_def end_thread_def set_exit_def split: if_splits)

text \<open>Threads have their own handles.\<close>

definition procs_init :: procs where
  "procs_init = \<lparr>thread_handles = (\<lambda>_. None), running = [0 \<mapsto> 0], joined = (\<lambda>_. None)\<rparr>"

definition procs_ok :: "procs \<Rightarrow> bool" where
  "procs_ok s \<longleftrightarrow> (\<forall>t h. running s t = Some h \<longrightarrow> h \<noteq> 0 \<longrightarrow> h \<noteq> CURRENT_THREAD \<and> thread_handles s h \<noteq> None
     \<and> (\<forall>u. running s u = Some h \<longrightarrow> u = t))"

lemma procs_ok_fewer:
  assumes "procs_ok s" "\<And>t h. running s' t = Some h \<Longrightarrow> running s t = Some h"
    and "\<And>h. thread_handles s h \<noteq> None \<Longrightarrow> thread_handles s' h \<noteq> None"
  shows "procs_ok s'"
  unfolding procs_ok_def
proof (intro allI impI)
  fix t h assume t: "running s' t = Some h" "h \<noteq> 0"
  then have "running s t = Some h" using assms(2) by blast
  then have "h \<noteq> CURRENT_THREAD \<and> thread_handles s h \<noteq> None \<and> (\<forall>u. running s u = Some h \<longrightarrow> u = t)"
    using assms(1) t(2) unfolding procs_ok_def by blast
  then show "h \<noteq> CURRENT_THREAD \<and> thread_handles s' h \<noteq> None \<and> (\<forall>u. running s' u = Some h \<longrightarrow> u = t)"
    using assms(2,3) by blast
qed

lemma ended_ok: "procs_ok s \<Longrightarrow> procs_ok (end_thread t v (set_exit h r s))" "procs_ok s \<Longrightarrow> procs_ok (end_thread t v s)"
  by (erule procs_ok_fewer; auto simp: end_thread_def set_exit_def split: if_splits)+

lemma thread_step_ok: "thread_step s a s' \<Longrightarrow> procs_ok s \<Longrightarrow> procs_ok s'"
proof (induction rule: thread_step.induct)
  case (create s t u th ph sa sp out d s')
  have new: "running s v \<noteq> Some th" for v
    using create.hyps(4,6) create.prems unfolding procs_ok_def by metis
  have s': "running s' = (running s)(u \<mapsto> th)" "thread_handles s' th \<noteq> None"
    "\<And>h. thread_handles s h \<noteq> None \<Longrightarrow> thread_handles s' h \<noteq> None"
    using create.hyps(7) by (auto simp: RtlCreateUserThread_def split: if_splits)
  show ?case
    unfolding procs_ok_def s'(1)
    using create.prems new s'(2,3) create.hyps(5) by (auto simp: procs_ok_def)
next
  case (returns t r s s')
  then show ?case by (auto simp: thread_start_def bind_eq_Some_conv ended_ok)
next
  case (terminate s t h r s')
  then show ?case by (auto simp: NtTerminateThread_def Let_def ended_ok split: if_splits)
qed

interpretation procs: invariant thread_step procs_ok
  by unfold_locales (rule thread_step_ok)

lemma procs_init_ok: "procs_ok procs_init"
  by (auto simp: procs_ok_def procs_init_def split: if_splits)

text \<open>The handle of a thread that has ended, with its status.\<close>

definition ended :: "nat \<Rightarrow> u32 \<Rightarrow> procs \<Rightarrow> bool" where
  "ended h r s \<longleftrightarrow> map_option ExitStatus (thread_handles s h) = Some r \<and> (\<forall>t. running s t \<noteq> Some h)"

text \<open>
  The status that is left in the handle \<open>h\<close> when the calls \<open>as\<close> follow the status \<open>r\<close>: a thread that
  names the handle in \<open>NtTerminateThread\<close> ends itself, and stores its own status in the handle.
\<close>

fun last_status :: "nat \<Rightarrow> thread_action list \<Rightarrow> u32 \<Rightarrow> u32" where
  "last_status h [] r = r"
| "last_status h (Terminate t g q # as) r = last_status h as (if g = h then q else r)"
| "last_status h (a # as) r = last_status h as r"

lemma ended_others:
  "ended h r s \<Longrightarrow> g \<noteq> h \<Longrightarrow> ended h r (end_thread t v (set_exit g r' s))" "ended h r s \<Longrightarrow> ended h r (end_thread t v s)"
  "ended h r s \<Longrightarrow> ended h q (end_thread t v (set_exit h q s))"
  by (auto simp: ended_def end_thread_def set_exit_def)

lemma ended_step:
  "thread_step s a s' \<Longrightarrow> ended h r s \<Longrightarrow> h \<noteq> 0 \<Longrightarrow> h \<noteq> CURRENT_THREAD \<Longrightarrow> ended h (last_status h [a] r) s'"
proof (induction rule: thread_step.induct)
  case (create s t u th ph sa sp out d s')
  then have "th \<noteq> h" by (auto simp: ended_def)
  then show ?case using create by (auto simp: RtlCreateUserThread_def ended_def split: if_splits)
next
  case (returns t q s s')
  then obtain g where g: "running s t = Some g" "s' = end_thread t (Status q) (set_exit g q s)"
    by (auto simp: thread_start_def bind_eq_Some_conv)
  then have "g \<noteq> h" using returns.prems(1) by (auto simp: ended_def)
  then show ?case unfolding g(2) using ended_others(1) [OF returns.prems(1)] by simp
next
  case (terminate s t g q s')
  have "GetThreadHandle t g s = h \<longleftrightarrow> g = h"
    using terminate.prems by (auto simp: GetThreadHandle_def ended_def split: option.splits)
  then show ?case
    using terminate.hyps terminate.prems(1,2) ended_others by (auto simp: NtTerminateThread_def Let_def split: if_splits)
qed

lemma last_status_snoc: "last_status h (as @ [a]) r = last_status h [a] (last_status h as r)"
  by (induction h as r rule: last_status.induct) simp_all

lemma ended_run:
  assumes "run thread_step s as s'" "ended h r s" "h \<noteq> 0" "h \<noteq> CURRENT_THREAD"
  shows "ended h (last_status h as r) s'"
  using assms
proof (induction rule: run.induct)
  case (more s as s' a)
  then show ?case by (subst last_status_snoc) (blast intro: ended_step)
qed simp

lemma thread_ends:
  assumes "procs_ok s" "running s t = Some h" "h \<noteq> 0"
    and "thread_start t r s = Some s' \<or> NtTerminateThread t CURRENT_THREAD r s = Some s'"
  shows "ended h r s'"
proof -
  have "s' = end_thread t (Status r) (set_exit h r s) \<or> s' = end_thread t (Address h) (set_exit h r s)"
    "thread_handles s h \<noteq> None"
    using assms by (auto simp: procs_ok_def thread_start_def NtTerminateThread_def GetThreadHandle_def Let_def bind_eq_Some_conv split: if_splits)
  moreover have "running s u = Some h \<Longrightarrow> u = t" for u
    using assms(1-3) unfolding procs_ok_def by metis
  ultimately show ?thesis by (auto simp: ended_def end_thread_def set_exit_def split: if_splits)
qed

text \<open>
  C31. When a thread has returned with a status, or ended itself with it, a query of its handle by any
  thread reports this status, whatever the threads do in between, unless some of them name the handle
  in a call of NtTerminateThread: then the query reports the status of the last of these calls.
\<close>

theorem exit_status_reported:
  assumes "run thread_step procs_init before s" "running s t = Some h" "h \<noteq> 0"
    and "thread_start t r s = Some s1 \<or> NtTerminateThread t CURRENT_THREAD r s = Some s1"
    and "run thread_step s1 after s2"
    and "NtQueryInformationThread u teb h 0 buf len rl s2 m = Some (st, m')"
  shows "st = STATUS_SUCCESS \<and> ld32 m' buf = Some (last_status h after r)"
proof -
  have ok: "procs_ok s" by (rule procs.along_run [OF assms(1) procs_init_ok])
  have c: "h \<noteq> CURRENT_THREAD" using ok assms(2,3) unfolding procs_ok_def by metis
  have e: "ended h (last_status h after r) s2" by (rule ended_run [OF assms(5) thread_ends [OF ok assms(2-4)] assms(3) c])
  have g: "GetThreadHandle u h s2 = h" using c by (simp add: GetThreadHandle_def)
  obtain m1 where m1: "put_fields buf ([] @ F32 0 (last_status h after r) # [F64 8 (of_nat teb)]) m1 = Some m'" "st = STATUS_SUCCESS"
    using assms(3,6) e by (auto simp: NtQueryInformationThread_def g ended_def Let_def bind_eq_Some_conv)
  have "ld32 m' (buf + 0) = Some (last_status h after r)" by (rule put_fields_reads(2) [OF m1(1)]) simp_all
  then show ?thesis using m1(2) by simp
qed

definition procs_one :: procs where
  "procs_one = snd (snd (RtlCreateUserThread 1 1 0 1 64 [] (Some 5) procs_init))"

definition procs_done :: procs where
  "procs_done = end_thread 5 (Status 7) (set_exit 64 7 procs_one)"

theorem exit_status_reported_witness:
  "\<exists>m'. NtQueryInformationThread 0 4096 64 0 8 0 0 (end_thread 0 (Address 64) (set_exit 64 9 procs_done)) (replicate 64 0) =
      Some (STATUS_SUCCESS, m') \<and> ld32 m' 8 = Some 9"
proof -
  let ?s = "end_thread 0 (Address 64) (set_exit 64 9 procs_done)"
  have g: "GetThreadHandle 0 64 s = 64" for s by (simp add: GetThreadHandle_def CURRENT_THREAD_def)
  moreover have "map_option ExitStatus (thread_handles ?s 64) = Some 9" "thread_handles procs_done 64 \<noteq> None" "running procs_done 0 \<noteq> None"
    by (simp_all add: procs_done_def procs_one_def end_thread_def set_exit_def RtlCreateUserThread_def procs_init_def)
  moreover have "put_fields 8 [F32 0 9, F64 8 (of_nat 4096)] (replicate 64 0) \<noteq> None" by code_simp
  ultimately obtain st m' where q: "NtQueryInformationThread 0 4096 64 0 8 0 0 ?s (replicate 64 0) = Some (st, m')"
    and e: "thread_handles procs_done 64 \<noteq> None" "running procs_done 0 \<noteq> None"
    by (auto simp: NtQueryInformationThread_def)
  have later: "thread_step procs_done (Terminate 0 64 9) ?s"
    by (rule thread_step.terminate [OF e(2)]) (use e(1) in \<open>simp add: NtTerminateThread_def g\<close>)
  have "thread_step procs_init (Create 5 64) procs_one"
    by (rule thread_step.create [where t = 0 and ph = 1 and sa = 1 and sp = 0 and out = 1 and d = "[]"])
      (simp_all add: procs_init_def CURRENT_THREAD_def procs_one_def RtlCreateUserThread_def)
  then have r: "run thread_step procs_init [Create 5 64] procs_one" by (rule run_one)
  have "running procs_one 5 = Some 64" "thread_start 5 7 procs_one = Some procs_done"
    by (simp_all add: procs_done_def procs_one_def RtlCreateUserThread_def procs_init_def thread_start_def)
  then have "st = STATUS_SUCCESS \<and> ld32 m' 8 = Some 9"
    using exit_status_reported [OF r _ _ _ run_one [where step = thread_step, OF later] q, of 5 7] by simp
  then show ?thesis using q by blast
qed

end
