(* ===== verification/Messages.thy ===== *)
theory Messages
  imports Byte_Memory Wide_Strings
begin

text \<open>
  Messages of \<^verbatim>\<open>libs/ntdll/rtl.c\<close>: the search for a message in the resources of a loaded
  module, \<open>RtlFindMessage\<close>, on flat memory, and the expansion of its inserts, \<open>RtlFormatMessage\<close>,
  on wide strings.
\<close>

section \<open>The text in the log\<close>

text \<open>Line ends become full stops.  \<open>None\<close> is a text that does not end in its buffer.\<close>

fun munge :: "u8 list \<Rightarrow> u8 list option" where
  "munge [] = None"
| "munge (c # s) =
     (if c = 0 then Some (c # s) else map_option ((#) (if c = 0x0d \<or> c = 0x0a then 0x2e else c)) (munge s))"

section \<open>Resource directories\<close>

text \<open>Bits and halves of the two words of a directory entry.\<close>

record resource_entry =
  entry_Name :: u32
  entry_OffsetToData :: u32

definition NameIsString :: "resource_entry \<Rightarrow> bool" where
  "NameIsString e = bit (entry_Name e) 31"

definition entry_Id :: "resource_entry \<Rightarrow> u32" where
  "entry_Id e = entry_Name e AND 0xffff"

definition DataIsDirectory :: "resource_entry \<Rightarrow> bool" where
  "DataIsDirectory e = bit (entry_OffsetToData e) 31"

definition OffsetToDirectory :: "resource_entry \<Rightarrow> nat" where
  "OffsetToDirectory e = unat (entry_OffsetToData e AND 0x7fffffff)"

definition DirectoryEntries :: "mem \<Rightarrow> nat \<Rightarrow> nat \<Rightarrow> resource_entry option" where
  "DirectoryEntries m dir i = do {
     n \<leftarrow> ld32 m (dir + 16 + 8 * i);
     d \<leftarrow> ld32 m (dir + 16 + 8 * i + 4);
     Some \<lparr>entry_Name = n, entry_OffsetToData = d\<rparr>
   }"

text \<open>The number of named entries plus the number of entries with an id.\<close>

definition directory_len :: "mem \<Rightarrow> nat \<Rightarrow> nat option" where
  "directory_len m dir = do {
     named \<leftarrow> ld16 m (dir + 12);
     ids \<leftarrow> ld16 m (dir + 14);
     Some (unat named + unat ids)
   }"

text \<open>
  The loop over the three levels of directories: type, name and language.  The condition is
  tested at the end, so the first entry of an empty directory is looked at as well.  The result is
  \<open>rde\<close>, if it was found.
\<close>

function find_resource :: "mem \<Rightarrow> nat \<Rightarrow> u32 \<Rightarrow> u32 \<Rightarrow> nat \<Rightarrow> nat \<Rightarrow> nat \<Rightarrow> nat \<Rightarrow> nat option option" where
  "find_resource m root type lang level dir i len = do {
     cur \<leftarrow> DirectoryEntries m dir i;
     if \<not> NameIsString cur \<and> DataIsDirectory cur
        \<and> (level = 1 \<and> entry_Id cur = type \<or> level = 2 \<and> entry_Id cur = 1) then do {
       let dir = root + OffsetToDirectory cur;
       len \<leftarrow> directory_len m dir;
       if 0 < len \<and> level + 1 < 4 then find_resource m root type lang (level + 1) dir 0 len else Some None
     }
     else if \<not> (\<not> NameIsString cur \<and> DataIsDirectory cur) \<and> level = 3 \<and> (lang = 0 \<or> entry_Id cur = lang) then
       Some (Some (root + unat (entry_OffsetToData cur)))
     else if i + 1 < len \<and> level < 4 then find_resource m root type lang level dir (i + 1) len
     else Some None
   }"
  by pat_completeness auto
termination
  by (relation "measures [\<lambda>(m, root, type, lang, level, dir, i, len). 4 - level, \<lambda>(m, root, type, lang, level, dir, i, len). len - i]")
    auto

declare find_resource.simps [simp del]

section \<open>Message tables\<close>

text \<open>The first block whose range of ids holds \<open>msg_id\<close>, of the \<open>n\<close> blocks from \<open>block\<close> on.\<close>

fun find_block :: "mem \<Rightarrow> u32 \<Rightarrow> nat \<Rightarrow> nat \<Rightarrow> nat option option" where
  "find_block m msg_id 0 block = Some None"
| "find_block m msg_id (Suc n) block = do {
     LowId \<leftarrow> ld32 m block;
     HighId \<leftarrow> ld32 m (block + 4);
     if LowId \<le> msg_id \<and> msg_id \<le> HighId then Some (Some block) else find_block m msg_id n (block + 12)
   }"

text \<open>\<open>n\<close> entries further on.\<close>

fun skip_entries :: "mem \<Rightarrow> nat \<Rightarrow> nat \<Rightarrow> nat option" where
  "skip_entries m 0 e = Some e"
| "skip_entries m (Suc n) e = do { len \<leftarrow> ld16 m e; skip_entries m n (e + unat len) }"

text \<open>Memory as wide characters.\<close>

fun wide_chars :: "mem \<Rightarrow> u16 list" where
  "wide_chars (lo # hi # m) = (ucast lo + 0x100 * ucast hi) # wide_chars m"
| "wide_chars _ = []"

definition MESSAGE_RESOURCE_UNICODE :: u16 where "MESSAGE_RESOURCE_UNICODE = 0x0001"

text \<open>The text of the entry is copied to a local buffer for the log.\<close>

definition log_entry :: "mem \<Rightarrow> nat \<Rightarrow> u8 list option" where
  "log_entry m e = do {
     Flags \<leftarrow> ld16 m (e + 2);
     len \<leftarrow> ld16 m e;
     message \<leftarrow> (if Flags AND MESSAGE_RESOURCE_UNICODE \<noteq> 0 then do {
         (_, d, _) \<leftarrow> RtlUnicodeToOemN varconv 1024 (Some (wide_chars (drop (e + 4) m))) (ucast len);
         Some d
       }
       else do {
         bs \<leftarrow> bytes_at m (e + 4) (min (unat len) 1024);
         put_bytes varconv 0 bs
       });
     munge message
   }"

definition find_entry :: "mem \<Rightarrow> u32 \<Rightarrow> nat \<Rightarrow> nat option option" where
  "find_entry m msg_id data = do {
     NumberOfBlocks \<leftarrow> ld32 m data;
     b \<leftarrow> find_block m msg_id (unat NumberOfBlocks) (data + 4);
     case b of
       None \<Rightarrow> Some None
     | Some block \<Rightarrow> do {
         OffsetToEntries \<leftarrow> ld32 m (block + 8);
         LowId \<leftarrow> ld32 m block;
         e \<leftarrow> skip_entries m (unat (msg_id - LowId)) (data + unat OffsetToEntries);
         Some (Some e)
       }
   }"

text \<open>The status and \<^verbatim>\<open>*ret\<close>; the offsets in the optional header are those of the 64-bit build.\<close>

definition RtlFindMessage :: "mem \<Rightarrow> nat \<Rightarrow> u32 \<Rightarrow> u32 \<Rightarrow> u32 \<Rightarrow> (NTSTATUS \<times> nat) option" where
  "RtlFindMessage m hmod type lang msg_id = do {
     lfanew \<leftarrow> ld32 m (hmod + 0x3c);
     let pe_opt = hmod + unat lfanew + 24;
     dir_size \<leftarrow> ld32 m (pe_opt + 132);
     if dir_size = 0 then Some (STATUS_MESSAGE_NOT_FOUND, 0)
     else do {
       VirtualAddress \<leftarrow> ld32 m (pe_opt + 128);
       let root = hmod + unat VirtualAddress;
       len \<leftarrow> directory_len m root;
       rde \<leftarrow> find_resource m root type lang 1 root 0 len;
       case rde of
         None \<Rightarrow> Some (STATUS_MESSAGE_NOT_FOUND, 0)
       | Some rde \<Rightarrow> do {
           off \<leftarrow> ld32 m rde;
           found \<leftarrow> find_entry m msg_id (hmod + unat off);
           case found of
             None \<Rightarrow> Some (STATUS_MESSAGE_NOT_FOUND, 0)
           | Some e \<Rightarrow> do { _ \<leftarrow> log_entry m e; Some (STATUS_SUCCESS, e) }
         }
     }
   }"

section \<open>Inserts\<close>

text \<open>
  The arguments: an array of pointers, or a list that is consumed.  Fetching argument \<open>no\<close> of a
  list fetches one argument when \<open>no\<close> is 0 and \<open>no\<close> arguments otherwise.
\<close>

datatype format_args = Arg_array "u16 list list" | Arg_list "u16 list list"

fun get_arg :: "nat \<Rightarrow> format_args \<Rightarrow> (u16 list \<times> format_args) option" where
  "get_arg no (Arg_array as) = do { a \<leftarrow> rd as no; Some (a, Arg_array as) }"
| "get_arg no (Arg_list as) = do {
     let n = max no 1;
     a \<leftarrow> rd as (n - 1);
     Some (a, Arg_list (drop n as))
   }"

definition wtoi :: "u16 \<Rightarrow> nat" where
  "wtoi c = unat (widetoa c) - 0x30"

text \<open>\<^verbatim>\<open>isdigit\<close> is undefined above the range of a character.\<close>

definition isdigit :: "u16 \<Rightarrow> bool option" where
  "isdigit c = (if c \<le> 0xff then Some (0x30 \<le> c \<and> c \<le> 0x39) else None)"

text \<open>The number of an insert that starts with the digit \<open>d\<close>, and the rest of the message.\<close>

definition positional :: "u16 \<Rightarrow> u16 list \<Rightarrow> (nat \<times> u16 list) option" where
  "positional d msg =
     (case msg of
        [] \<Rightarrow> None
      | c # msg' \<Rightarrow> do {
          two \<leftarrow> isdigit c;
          Some (if two then (wtoi d * 10 + wtoi c, msg') else (wtoi d, msg))
        })"

text \<open>\<^verbatim>\<open>!...!\<close> behind an insert is skipped.\<close>

fun skip_until :: "u16 list \<Rightarrow> u16 list option" where
  "skip_until [] = None"
| "skip_until (c # msg) = (if c = 0 then Some (c # msg) else if c = 0x21 then Some msg else skip_until msg)"

definition skip_spec :: "u16 list \<Rightarrow> u16 list option" where
  "skip_spec msg = (case msg of [] \<Rightarrow> None | c # msg' \<Rightarrow> if c = 0x21 then skip_until msg' else Some msg)"

definition escape_char :: "u16 \<Rightarrow> u16 option" where
  "escape_char c =
     (if c = 0x72 then Some 0x0d else if c = 0x6e then Some 0x0a else if c = 0x74 then Some 0x09
      else if c = 0x62 then Some 0x20 else if c = 0x25 then Some 0x25 else None)"

lemma skip_until_length: "skip_until msg = Some r \<Longrightarrow> length r \<le> length msg"
  by (induction msg) (auto split: if_splits)

lemma skip_spec_length: "skip_spec msg = Some r \<Longrightarrow> length r \<le> length msg"
  by (auto simp: skip_spec_def split: list.splits if_splits dest: skip_until_length)

lemma positional_length: "positional d msg = Some (n, r) \<Longrightarrow> length r \<le> length msg"
  by (auto simp: positional_def bind_eq_Some_conv split: list.splits if_splits)

text \<open>The message that is left, the buffer, the number of characters in it, and the arguments.\<close>

function message_loop :: "u16 list \<Rightarrow> bool \<Rightarrow> u16 list \<Rightarrow> nat \<Rightarrow> format_args \<Rightarrow> (u16 list \<times> nat) option" where
  "message_loop [] eos b count args = None"
| "message_loop (c # msg) eos b count args =
     (if c = 0 \<or> eos then Some (b, count)
      else if c \<noteq> 0x25 then do { b \<leftarrow> wr b count c; message_loop msg eos b (count + 1) args }
      else case msg of
        [] \<Rightarrow> None
      | c # msg \<Rightarrow>
          (if c = 0x30 then message_loop msg True b count args
           else case escape_char c of
             Some e \<Rightarrow> do { b \<leftarrow> wr b count e; message_loop msg eos b (count + 1) args }
           | None \<Rightarrow>
               if 0x31 \<le> c \<and> c \<le> 0x39 then
                 (case positional c msg of
                    None \<Rightarrow> None
                  | Some (argnum, msg) \<Rightarrow>
                      (case get_arg (argnum - 1) args of
                         None \<Rightarrow> None
                       | Some (arg, args) \<Rightarrow>
                           (case copy_str b count arg of
                              None \<Rightarrow> None
                            | Some b \<Rightarrow>
                                (case wcslen arg of
                                   None \<Rightarrow> None
                                 | Some n \<Rightarrow>
                                     (case skip_spec msg of
                                        None \<Rightarrow> None
                                      | Some msg \<Rightarrow> message_loop msg eos b (count + n) args)))))
               else message_loop msg eos b count args))"
  by pat_completeness auto
termination
  by (relation "measure (\<lambda>(msg, eos, b, count, args). length msg)")
    (auto dest!: skip_spec_length positional_length)

declare message_loop.simps [simp del]

text \<open>\<^verbatim>\<open>Ansi\<close> and \<^verbatim>\<open>IgnoreInserts\<close> abort.  The size of the buffer is ignored.\<close>

definition RtlFormatMessage ::
  "u16 list option \<Rightarrow> bool \<Rightarrow> bool \<Rightarrow> format_args \<Rightarrow> u16 list \<Rightarrow> u32 \<Rightarrow> (NTSTATUS \<times> u16 list \<times> u32 option) option" where
  "RtlFormatMessage Message IgnoreInserts Ansi Arguments Buf BufferSize =
     (case Message of
        None \<Rightarrow> Some (STATUS_ACCESS_VIOLATION, Buf, None)
      | Some msg \<Rightarrow>
          if Ansi \<or> IgnoreInserts then None
          else do {
            (b, count) \<leftarrow> message_loop msg False Buf 0 Arguments;
            b \<leftarrow> wr b count 0;
            a \<leftarrow> WSTR2STR (Some b);
            _ \<leftarrow> munge a;
            Some (STATUS_SUCCESS, b, Some (of_nat count))
          })"

end
