(* ===== verification/Messages_Spec.thy ===== *)
theory Messages_Spec
  imports Messages Wide_Strings_Spec
begin

text \<open>
  The search for a message finds the text of a message table that the module stores, and the
  expansion of a message is its items one after the other.
\<close>

section \<open>The log\<close>

lemma munge_defined: "0 \<in> set s \<Longrightarrow> \<exists>t. munge s = Some t"
  by (induction s) auto

lemma oem_copy_result:
  "n \<le> length s \<Longrightarrow> i + n \<le> length d \<Longrightarrow>
     \<exists>e. oem_copy n d i s = Some e \<and> length e = length d
       \<and> (\<forall>j. e ! j = (if i \<le> j \<and> j < i + n then ucast (widetoa (s ! (j - i))) else d ! j))"
proof (induction n arbitrary: d i s)
  case (Suc n)
  then obtain c s' where s: "s = c # s'" by (cases s) auto
  have "\<exists>e. oem_copy n (d[i := ucast (widetoa c)]) (i + 1) s' = Some e \<and> length e = length d
      \<and> (\<forall>j. e ! j = (if i + 1 \<le> j \<and> j < i + 1 + n then ucast (widetoa (s' ! (j - (i + 1)))) else d[i := ucast (widetoa c)] ! j))"
    using Suc.IH [of s' "i + 1" "d[i := ucast (widetoa c)]"] Suc.prems s by simp
  then obtain e where e: "oem_copy n (d[i := ucast (widetoa c)]) (i + 1) s' = Some e" "length e = length d"
    "\<And>j. e ! j = (if i + 1 \<le> j \<and> j < i + 1 + n then ucast (widetoa (s' ! (j - (i + 1)))) else d[i := ucast (widetoa c)] ! j)"
    by blast
  have "e ! j = (if i \<le> j \<and> j < i + Suc n then ucast (widetoa (s ! (j - i))) else d ! j)" for j
  proof (cases "j = i")
    case True
    then show ?thesis using Suc.prems by (simp add: e(3) s)
  next
    case False
    then show ?thesis by (cases "i < j") (simp_all add: e(3) s nth_Cons')
  qed
  then show ?case using e Suc.prems by (simp add: s faults)
qed auto

lemma varconv_last: "length varconv = 1024" "varconv ! 1023 = 0"
  by (simp_all add: varconv_def nth_append)

section \<open>Resource directories\<close>

text \<open>A directory as the list of its entries.\<close>

fun all_Some :: "'a option list \<Rightarrow> 'a list option" where
  "all_Some [] = Some []"
| "all_Some (x # xs) = do { a \<leftarrow> x; as \<leftarrow> all_Some xs; Some (a # as) }"

lemma all_Some_nth: "all_Some xs = Some as \<Longrightarrow> length as = length xs \<and> (\<forall>i < length xs. xs ! i = Some (as ! i))"
  by (induction xs arbitrary: as) (auto simp: bind_eq_Some_conv nth_Cons split: nat.splits)

definition directory :: "mem \<Rightarrow> nat \<Rightarrow> resource_entry list option" where
  "directory m dir = do { n \<leftarrow> directory_len m dir; all_Some (map (DirectoryEntries m dir) [0..<n]) }"

definition subdirectory :: "u32 \<Rightarrow> resource_entry \<Rightarrow> bool" where
  "subdirectory k e \<longleftrightarrow> \<not> NameIsString e \<and> DataIsDirectory e \<and> entry_Id e = k"

definition leaf :: "u32 \<Rightarrow> resource_entry \<Rightarrow> bool" where
  "leaf lang e \<longleftrightarrow> (NameIsString e \<or> \<not> DataIsDirectory e) \<and> (lang = 0 \<or> entry_Id e = lang)"

text \<open>The first entry that fits, on each of the three levels.\<close>

definition resource_path :: "mem \<Rightarrow> nat \<Rightarrow> u32 \<Rightarrow> u32 \<Rightarrow> nat option option" where
  "resource_path m root type lang = do {
     types \<leftarrow> directory m root;
     case find (subdirectory type) types of None \<Rightarrow> Some None | Some e \<Rightarrow> do {
       names \<leftarrow> directory m (root + OffsetToDirectory e);
       case find (subdirectory 1) names of None \<Rightarrow> Some None | Some e \<Rightarrow> do {
         langs \<leftarrow> directory m (root + OffsetToDirectory e);
         Some (map_option (\<lambda>e. root + unat (entry_OffsetToData e)) (find (leaf lang) langs))
       }
     }
   }"

lemma directoryD:
  assumes "directory m dir = Some es"
  shows "directory_len m dir = Some (length es)" "\<And>i. i < length es \<Longrightarrow> DirectoryEntries m dir i = Some (es ! i)"
  using assms by (auto simp: directory_def bind_eq_Some_conv dest!: all_Some_nth)

text \<open>What the loop does with the first entry it stops at.\<close>

lemma find_resource_scan:
  assumes "directory m dir = Some es" "i < length es" "level < 4"
    and "\<And>e. stop e \<longleftrightarrow> (if level = 3 then leaf lang e else subdirectory (if level = 1 then type else 1) e \<and> level \<in> {1, 2})"
  shows "find_resource m root type lang level dir i (length es) =
    (case find stop (drop i es) of
       None \<Rightarrow> Some None
     | Some e \<Rightarrow>
         if level = 3 then Some (Some (root + unat (entry_OffsetToData e)))
         else do {
           n \<leftarrow> directory_len m (root + OffsetToDirectory e);
           if 0 < n then find_resource m root type lang (level + 1) (root + OffsetToDirectory e) 0 n else Some None
         })"
  using assms(2)
proof (induction "length es - i" arbitrary: i rule: less_induct)
  case less
  let ?f = "find_resource m root type lang level dir"
  have e: "DirectoryEntries m dir i = Some (es ! i)" by (rule directoryD(2) [OF assms(1) less.prems])
  have drop: "drop i es = es ! i # drop (i + 1) es" using less.prems by (simp add: Cons_nth_drop_Suc)
  show ?case
  proof (cases "stop (es ! i)")
    case True
    then show ?thesis using assms(3,4)
      by (subst find_resource.simps) (auto simp: e drop Let_def subdirectory_def leaf_def split: if_splits)
  next
    case False
    have "?f i (length es) = (if i + 1 < length es then ?f (i + 1) (length es) else Some None)"
      using False assms(3,4)
      by (subst find_resource.simps) (auto simp: e subdirectory_def leaf_def split: if_splits)
    then show ?thesis using less.hyps [of "i + 1"] less.prems False by (auto simp: drop)
  qed
qed

lemma find_resource_descends:
  assumes "directory m dir = Some es" "es \<noteq> []" "level \<in> {1, 2}" "k = (if level = 1 then type else 1)"
    and "\<And>e. find (subdirectory k) es = Some e \<Longrightarrow> directory m (root + OffsetToDirectory e) = Some es'"
    and "r = (case find (subdirectory k) es of
        None \<Rightarrow> Some None
      | Some e \<Rightarrow> if es' = [] then Some None
          else find_resource m root type lang (level + 1) (root + OffsetToDirectory e) 0 (length es'))"
  shows "find_resource m root type lang level dir 0 (length es) = r"
proof -
  have "find_resource m root type lang level dir 0 (length es) =
    (case find (subdirectory k) (drop 0 es) of
       None \<Rightarrow> Some None
     | Some e \<Rightarrow>
         if level = 3 then Some (Some (root + unat (entry_OffsetToData e)))
         else do {
           n \<leftarrow> directory_len m (root + OffsetToDirectory e);
           if 0 < n then find_resource m root type lang (level + 1) (root + OffsetToDirectory e) 0 n else Some None
         })"
    by (rule find_resource_scan [OF assms(1)]) (use assms(2-4) in auto)
  then show ?thesis using assms(3,5,6) by (auto simp: directoryD(1) split: option.splits)
qed

lemma find_resource_leaf:
  assumes "directory m dir = Some es" "es \<noteq> []"
  shows "find_resource m root type lang 3 dir 0 (length es) =
    Some (map_option (\<lambda>e. root + unat (entry_OffsetToData e)) (find (leaf lang) es))"
  using find_resource_scan [OF assms(1), of 0 3 "leaf lang" lang type root] assms(2) by (auto split: option.splits)

lemma find_resource_refines:
  assumes "resource_path m root type lang = Some r" "directory m root = Some types" "types \<noteq> []"
  shows "find_resource m root type lang 1 root 0 (length types) = Some r"
proof (cases "find (subdirectory type) types")
  case None
  then show ?thesis using assms find_resource_descends [OF assms(2,3), where level = 1 and k = type and type = type] by (simp add: resource_path_def)
next
  case (Some e)
  then obtain names where n: "directory m (root + OffsetToDirectory e) = Some names"
    using assms(1,2) by (auto simp: resource_path_def bind_eq_Some_conv)
  have "find_resource m root type lang 2 (root + OffsetToDirectory e) 0 (length names) = Some r" if "names \<noteq> []"
  proof (cases "find (subdirectory 1) names")
    case None
    then show ?thesis using assms(1,2) Some n find_resource_descends [OF n that, where level = 2 and k = 1 and type = type]
      by (simp add: resource_path_def)
  next
    case (Some e')
    then obtain langs where l: "directory m (root + OffsetToDirectory e') = Some langs"
      and r: "r = map_option (\<lambda>e. root + unat (entry_OffsetToData e)) (find (leaf lang) langs)"
      using assms(1,2) n \<open>find (subdirectory type) types = Some e\<close> by (auto simp: resource_path_def bind_eq_Some_conv)
    show ?thesis
      by (rule find_resource_descends [OF n that, where level = 2 and k = 1 and type = type and es' = langs]) (use Some l r find_resource_leaf [OF l] in auto)
  qed
  moreover have "names = [] \<Longrightarrow> r = None" using assms(1,2) Some n by (simp add: resource_path_def)
  ultimately show ?thesis
    by (intro find_resource_descends [OF assms(2,3), where level = 1 and k = type and type = type and es' = names])
      (use Some n in \<open>auto simp: numeral_2_eq_2\<close>)
qed

section \<open>Message tables\<close>

text \<open>A block of a message table: its first id, the offset of its entries, and the entries with flags and text.\<close>

type_synonym message_block = "u32 \<times> u32 \<times> (u16 \<times> u8 list) list"

fun stores_entry :: "mem \<Rightarrow> nat \<Rightarrow> u16 \<times> u8 list \<Rightarrow> bool" where
  "stores_entry m a (flags, tx) \<longleftrightarrow>
     map_option unat (ld16 m a) = Some (length tx + 4) \<and> ld16 m (a + 2) = Some flags \<and> bytes_at m (a + 4) (length tx) = Some tx"

fun stores_entries :: "mem \<Rightarrow> nat \<Rightarrow> (u16 \<times> u8 list) list \<Rightarrow> bool" where
  "stores_entries m a [] \<longleftrightarrow> True"
| "stores_entries m a (e # es) \<longleftrightarrow> stores_entry m a e \<and> stores_entries m (a + length (snd e) + 4) es"

fun stores_block :: "mem \<Rightarrow> nat \<Rightarrow> nat \<Rightarrow> message_block \<Rightarrow> bool" where
  "stores_block m data a (lo, off, es) \<longleftrightarrow>
     ld32 m a = Some lo \<and> map_option (\<lambda>hi. unat hi + 1) (ld32 m (a + 4)) = Some (unat lo + length es)
     \<and> ld32 m (a + 8) = Some off \<and> stores_entries m (data + unat off) es"

fun stores_blocks :: "mem \<Rightarrow> nat \<Rightarrow> nat \<Rightarrow> message_block list \<Rightarrow> bool" where
  "stores_blocks m data a [] \<longleftrightarrow> True"
| "stores_blocks m data a (b # bs) \<longleftrightarrow> stores_block m data a b \<and> stores_blocks m data (a + 12) bs"

definition stores_table :: "mem \<Rightarrow> nat \<Rightarrow> message_block list \<Rightarrow> bool" where
  "stores_table m data bs \<longleftrightarrow> map_option unat (ld32 m data) = Some (length bs) \<and> stores_blocks m data (data + 4) bs"

definition has_id :: "u32 \<Rightarrow> message_block \<Rightarrow> bool" where
  "has_id k b \<longleftrightarrow> fst b \<le> k \<and> unat k < unat (fst b) + length (snd (snd b))"

definition message_of :: "u32 \<Rightarrow> message_block list \<Rightarrow> (u16 \<times> u8 list) option" where
  "message_of k bs = map_option (\<lambda>(lo, off, es). es ! unat (k - lo)) (find (has_id k) bs)"

lemma find_block_finds:
  assumes "stores_blocks m data a bs"
  shows "case find (has_id k) bs of
      None \<Rightarrow> find_block m k (length bs) a = Some None
    | Some b \<Rightarrow> \<exists>blk. find_block m k (length bs) a = Some (Some blk) \<and> stores_block m data blk b"
  using assms
proof (induction bs arbitrary: a)
  case (Cons b bs)
  obtain lo off es where b: "b = (lo, off, es)" by (metis prod_cases3)
  obtain hi where h: "ld32 m (a + 4) = Some hi" "unat hi + 1 = unat lo + length es" "ld32 m a = Some lo"
    using Cons.prems by (auto simp: b)
  have "has_id k b \<longleftrightarrow> lo \<le> k \<and> k \<le> hi"
    using h(2) by (auto simp: has_id_def b word_le_nat_alt)
  then show ?case using Cons.IH [of "a + 12"] Cons.prems h(1,3) by (auto simp: b split: option.splits)
qed simp

lemma skip_entries_finds:
  "stores_entries m a es \<Longrightarrow> n < length es \<Longrightarrow> \<exists>e. skip_entries m n a = Some e \<and> stores_entry m e (es ! n)"
proof (induction n arbitrary: a es)
  case 0
  then show ?case by (cases es) auto
next
  case (Suc n)
  then obtain flags tx es' where es: "es = (flags, tx) # es'" by (cases es) auto
  obtain len where "ld16 m a = Some len" "unat len = length tx + 4" using Suc.prems by (auto simp: es)
  then show ?case using Suc.IH [of "a + length tx + 4" es'] Suc.prems by (auto simp: es ac_simps)
qed

lemma find_entry_finds:
  assumes "stores_table m data bs"
  shows "case message_of k bs of
      None \<Rightarrow> find_entry m k data = Some None
    | Some e \<Rightarrow> \<exists>a. find_entry m k data = Some (Some a) \<and> stores_entry m a e"
proof -
  obtain n where n: "ld32 m data = Some n" "unat n = length bs" "stores_blocks m data (data + 4) bs"
    using assms by (auto simp: stores_table_def)
  note fb = find_block_finds [OF n(3), of k]
  show ?thesis
  proof (cases "find (has_id k) bs")
    case None
    then show ?thesis using fb n by (simp add: find_entry_def message_of_def)
  next
    case (Some b)
    obtain lo off es where b: "b = (lo, off, es)" by (metis prod_cases3)
    then obtain blk where blk: "find_block m k (length bs) (data + 4) = Some (Some blk)" "stores_block m data blk (lo, off, es)"
      using fb Some by auto
    have "has_id k b" using Some by (metis find_Some_iff)
    then have "unat (k - lo) < length es"
      by (auto simp: has_id_def b unat_sub_u32 word_le_nat_alt)
    then show ?thesis using skip_entries_finds [of m "data + unat off" es "unat (k - lo)"] blk n Some
      by (auto simp: find_entry_def message_of_def b)
  qed
qed

lemma length_wide_chars: "length (wide_chars m) = length m div 2"
  by (induction m rule: wide_chars.induct) auto

lemma log_entry_defined:
  assumes "stores_entry m a (flags, tx)" "length tx < 1020" "a + length tx + 10 \<le> length m"
  shows "\<exists>t. log_entry m a = Some t"
proof -
  obtain len where len: "ld16 m a = Some len" "unat len = length tx + 4" "ld16 m (a + 2) = Some flags"
    using assms(1) by auto
  show ?thesis
  proof (cases "flags AND MESSAGE_RESOURCE_UNICODE = 0")
    case True
    have bs: "bytes_at m (a + 4) (unat len) = Some (take (unat len) (drop (a + 4) m))"
      using assms(3) len(2) by (simp add: bytes_at_def)
    let ?d = "take (unat len) (drop (a + 4) m) @ drop (unat len) varconv"
    have "put_bytes varconv 0 (take (unat len) (drop (a + 4) m)) = Some ?d"
      using assms(2,3) len(2) by (simp add: put_bytes_def varconv_last)
    moreover have "0 \<in> set (drop (unat len) varconv)"
      using assms(2) len(2) varconv_last nth_mem [of "1023 - unat len" "drop (unat len) varconv"] by simp
    ultimately show ?thesis
      using True len bs assms(2) munge_defined [of ?d] by (simp add: log_entry_def min_def)
  next
    case False
    let ?s = "wide_chars (drop (a + 4) m)" and ?n = "unat len div 2"
    have u: "unat (ucast len :: u32) = unat len"
      by (simp add: unsigned_ucast_eq take_bit_nat_eq_self_iff less_trans [OF unsigned_less])
    have "?n + 1 \<le> length ?s" using assms(3) len(2) by (simp add: length_wide_chars)
    moreover have n: "?n + 1 \<le> 1023" using assms(2) len(2) by simp
    ultimately obtain e where e: "oem_copy (?n + 1) varconv 0 ?s = Some e" "length e = 1024"
      "\<forall>j. e ! j = (if 0 \<le> j \<and> j < 0 + (?n + 1) then ucast (widetoa (?s ! (j - 0))) else varconv ! j)"
      using oem_copy_result [of "?n + 1" ?s 0 varconv] varconv_last(1) by auto
    have "e ! 1023 = varconv ! 1023" using n by (simp add: e(3))
    then have "0 \<in> set e" using varconv_last(2) e(2) nth_mem [of 1023 e] by simp
    moreover have "min ?n 1024 = ?n" "?n \<noteq> 0" using assms(2) len(2) by simp_all
    ultimately show ?thesis
      using False len(1,3) e(1) munge_defined [of e] by (simp add: log_entry_def RtlUnicodeToOemN_def u Let_def)
  qed
qed

text \<open>A longer wide text overruns the local buffer.\<close>

lemma log_entry_overruns:
  assumes "stores_entry m a (flags, tx)" "flags AND MESSAGE_RESOURCE_UNICODE \<noteq> 0" "2044 \<le> length tx"
  shows "log_entry m a = None"
proof -
  obtain len where len: "ld16 m a = Some len" "unat len = length tx + 4" "ld16 m (a + 2) = Some flags"
    using assms(1) by auto
  have u: "unat (ucast len :: u32) = unat len"
    by (simp add: unsigned_ucast_eq take_bit_nat_eq_self_iff less_trans [OF unsigned_less])
  have "min (unat len div 2) 1024 = 1024" using assms(3) len(2) by simp
  moreover have "oem_copy 1025 varconv 0 s = None" for s
    by (rule oem_copy_overrun) (simp_all add: varconv_last)
  ultimately show ?thesis using assms(2) len(1,3) by (simp add: log_entry_def RtlUnicodeToOemN_def u Let_def)
qed

text \<open>The directory of the resources that the headers of the module name.\<close>

definition resource_root :: "mem \<Rightarrow> nat \<Rightarrow> nat option" where
  "resource_root m hmod = do {
     lfanew \<leftarrow> ld32 m (hmod + 0x3c);
     n \<leftarrow> ld32 m (hmod + unat lfanew + 24 + 132);
     a \<leftarrow> ld32 m (hmod + unat lfanew + 24 + 128);
     if n = 0 then None else Some (hmod + unat a)
   }"

text \<open>
  C17. In a module that stores a message table under the type and language asked for, the search reports an
  id that the table does not have as not found, and for an id that it has the answer is the address of the entry
  with its flags and its text, if there is an answer.  The text is also copied to a buffer of 1024 bytes
  for the log: the search returns for a text of less than 1020 bytes that has six more bytes of memory behind it, and it
  overruns that buffer for a wide text of 2044 bytes or more.
\<close>

theorem RtlFindMessage_finds:
  assumes "resource_root m hmod = Some root" "directory m root = Some types" "types \<noteq> []"
    and "resource_path m root type lang = Some (Some rde)" "ld32 m rde = Some off" "stores_table m (hmod + unat off) bs"
  shows "case message_of k bs of
      None \<Rightarrow> RtlFindMessage m hmod type lang k = Some (STATUS_MESSAGE_NOT_FOUND, 0)
    | Some (flags, tx) \<Rightarrow> \<exists>a. stores_entry m a (flags, tx) \<and>
        (RtlFindMessage m hmod type lang k = Some (STATUS_SUCCESS, a) \<or> RtlFindMessage m hmod type lang k = None) \<and>
        (length tx < 1020 \<and> a + length tx + 10 \<le> length m \<longrightarrow> RtlFindMessage m hmod type lang k = Some (STATUS_SUCCESS, a)) \<and>
        (flags AND MESSAGE_RESOURCE_UNICODE \<noteq> 0 \<and> 2044 \<le> length tx \<longrightarrow> RtlFindMessage m hmod type lang k = None)"
proof -
  have f: "RtlFindMessage m hmod type lang k = do {
      found \<leftarrow> find_entry m k (hmod + unat off);
      case found of
        None \<Rightarrow> Some (STATUS_MESSAGE_NOT_FOUND, 0)
      | Some e \<Rightarrow> do { _ \<leftarrow> log_entry m e; Some (STATUS_SUCCESS, e) } }"
    using assms(1,5) find_resource_refines [OF assms(4,2,3)] directoryD(1) [OF assms(2)]
    by (auto simp: RtlFindMessage_def resource_root_def bind_eq_Some_conv Let_def add.assoc split: if_splits)
  show ?thesis
  proof (cases "message_of k bs")
    case None
    then show ?thesis using f find_entry_finds [OF assms(6), of k] by simp
  next
    case (Some e)
    obtain flags tx where e: "e = (flags, tx)" by (cases e)
    from find_entry_finds [OF assms(6), of k] Some e obtain a where
      a: "find_entry m k (hmod + unat off) = Some (Some a)" "stores_entry m a (flags, tx)" by (auto simp del: stores_entry.simps)
    have "RtlFindMessage m hmod type lang k = (case log_entry m a of None \<Rightarrow> None | Some t \<Rightarrow> Some (STATUS_SUCCESS, a))"
      using f a(1) by (simp split: option.splits)
    then show ?thesis using Some e a(2) log_entry_defined [OF a(2)] log_entry_overruns [OF a(2)]
      by (auto simp del: stores_entry.simps split: option.splits intro!: exI [of _ a])
  qed
qed

text \<open>A module at address 4 with one table: message 7 is \<open>hi\<close>, message 8 is \<open>yes\<close>.\<close>

definition small_module :: mem where
  "small_module = replicate 156 0 @ [160, 0, 0, 0, 1, 0, 0, 0]
     @ (replicate 14 0 @ [1, 0, 11, 0, 0, 0, 24, 0, 0, 128])
     @ (replicate 14 0 @ [1, 0, 1, 0, 0, 0, 48, 0, 0, 128])
     @ (replicate 14 0 @ [1, 0, 9, 4, 0, 0, 72, 0, 0, 0])
     @ [236, 0, 0, 0]
     @ ([1, 0, 0, 0, 7, 0, 0, 0, 8, 0, 0, 0, 16, 0, 0, 0] @ [6, 0, 0, 0, 0x68, 0x69, 7, 0, 0, 0, 0x79, 0x65, 0x73])
     @ replicate 6 0"

theorem RtlFindMessage_finds_witness:
  "\<exists>a. RtlFindMessage small_module 4 11 0x409 8 = Some (STATUS_SUCCESS, a) \<and> stores_entry small_module a (0, [0x79, 0x65, 0x73])"
proof -
  let ?bs = "[(7, 16, [(0, [0x68, 0x69]), (0, [0x79, 0x65, 0x73])])] :: message_block list"
  have r: "resource_root small_module 4 = Some 164" by code_simp
  have d: "directory small_module 164 = Some [\<lparr>entry_Name = 11, entry_OffsetToData = 0x80000018\<rparr>]" by code_simp
  have p: "resource_path small_module 164 11 0x409 = Some (Some 236)" by code_simp
  have o: "ld32 small_module 236 = Some 236" by code_simp
  have t: "stores_table small_module (4 + unat (236 :: u32)) ?bs" by code_simp
  have "message_of 8 ?bs = Some (0, [0x79, 0x65, 0x73])" by code_simp
  with RtlFindMessage_finds [OF r d _ p o t, of 8] obtain a where a: "stores_entry small_module a (0, [0x79, 0x65, 0x73])"
    "a + 3 + 10 \<le> length small_module \<Longrightarrow> RtlFindMessage small_module 4 11 0x409 8 = Some (STATUS_SUCCESS, a)"
    "RtlFindMessage small_module 4 11 0x409 8 = Some (STATUS_SUCCESS, a) \<or> RtlFindMessage small_module 4 11 0x409 8 = None"
    by auto
  moreover have "RtlFindMessage small_module 4 11 0x409 8 \<noteq> None" by code_simp
  ultimately show ?thesis by auto
qed

section \<open>Messages as items\<close>

text \<open>
  A message is a sequence of characters, escapes and inserts, an insert with the format that may
  follow it.
\<close>

datatype message_item = Plain u16 | Escape u16 | Insert nat "u16 list option"

definition digit_char :: "nat \<Rightarrow> u16" where
  "digit_char d = 0x30 + of_nat d"

fun unparse_item :: "message_item \<Rightarrow> u16 list" where
  "unparse_item (Plain c) = [c]"
| "unparse_item (Escape c) = [0x25, c]"
| "unparse_item (Insert n spec) =
     0x25 # (if n < 10 then [digit_char n] else [digit_char (n div 10), digit_char (n mod 10)])
     @ (case spec of None \<Rightarrow> [] | Some s \<Rightarrow> 0x21 # s @ [0x21])"

text \<open>An escape that is not known is dropped.\<close>

fun expand_item :: "u16 list list \<Rightarrow> message_item \<Rightarrow> u16 list" where
  "expand_item as (Plain c) = [c]"
| "expand_item as (Escape c) = (case escape_char c of None \<Rightarrow> [] | Some e \<Rightarrow> [e])"
| "expand_item as (Insert n spec) = as ! (n - 1)"

definition expand :: "u16 list list \<Rightarrow> message_item list \<Rightarrow> u16 list" where
  "expand as items = concat (map (expand_item as) items)"

definition unparse_items :: "message_item list \<Rightarrow> u16 list" where
  "unparse_items items = concat (map unparse_item items)"

fun item_ok :: "nat \<Rightarrow> message_item \<Rightarrow> bool" where
  "item_ok n (Plain c) \<longleftrightarrow> c \<noteq> 0 \<and> c \<noteq> 0x25"
| "item_ok n (Escape c) \<longleftrightarrow> c \<noteq> 0x30 \<and> \<not> (0x31 \<le> c \<and> c \<le> 0x39)"
| "item_ok n (Insert k spec) \<longleftrightarrow> 1 \<le> k \<and> k \<le> n \<and> k < 100 \<and> (case spec of None \<Rightarrow> True | Some s \<Rightarrow> 0 \<notin> set s \<and> 0x21 \<notin> set s)"

text \<open>The character behind an insert does not belong to it.\<close>

fun follows_ok :: "message_item \<Rightarrow> u16 \<Rightarrow> bool" where
  "follows_ok (Insert k None) c \<longleftrightarrow> c \<noteq> 0x21 \<and> (k < 10 \<longrightarrow> isdigit c = Some False)"
| "follows_ok _ c \<longleftrightarrow> True"

fun items_ok :: "nat \<Rightarrow> u16 list \<Rightarrow> message_item list \<Rightarrow> bool" where
  "items_ok n rest [] \<longleftrightarrow> True"
| "items_ok n rest (x # xs) \<longleftrightarrow>
     item_ok n x \<and> follows_ok x (hd (unparse_items xs @ rest)) \<and> items_ok n rest xs"

lemma digit_char_cases:
  assumes "d < 10"
  shows "isdigit (digit_char d) = Some True" "wtoi (digit_char d) = d" "0x31 \<le> digit_char d \<longleftrightarrow> d \<noteq> 0"
    "digit_char d \<le> 0x39" "escape_char (digit_char d) = None" "digit_char d = 0x30 \<longleftrightarrow> d = 0"
proof -
  have "d \<in> {0, 1, 2, 3, 4, 5, 6, 7, 8, 9}" using assms by auto
  then show "isdigit (digit_char d) = Some True" "wtoi (digit_char d) = d" "0x31 \<le> digit_char d \<longleftrightarrow> d \<noteq> 0"
    "digit_char d \<le> 0x39" "escape_char (digit_char d) = None" "digit_char d = 0x30 \<longleftrightarrow> d = 0"
    by (auto simp: digit_char_def isdigit_def wtoi_def widetoa_def escape_char_def)
qed

lemma copy_str_terminated:
  "terminated cs \<Longrightarrow> i + length cs < length d \<Longrightarrow>
     copy_str d i (cs @ [0]) = Some (take i d @ cs @ 0 # drop (i + length cs + 1) d)"
proof (induction cs arbitrary: d i)
  case Nil
  then show ?case by (simp add: faults upd_conv_take_nth_drop)
next
  case (Cons c cs)
  have "take (Suc i) (d[i := c]) = take i d @ [c]"
    using Cons.prems by (simp add: take_Suc_conv_app_nth)
  then show ?case using Cons.IH [of "Suc i" "d[i := c]"] Cons.prems by (simp add: faults)
qed

lemma skip_until_spec: "0 \<notin> set s \<Longrightarrow> 0x21 \<notin> set s \<Longrightarrow> skip_until (s @ 0x21 # r) = Some r"
  by (induction s) auto

text \<open>What an insert leaves of the message.\<close>

lemma insert_parsed:
  assumes "item_ok n (Insert k spec)" "follows_ok (Insert k spec) (hd r)" "r \<noteq> []"
  obtains c msg msg' where "unparse_item (Insert k spec) @ r = 0x25 # c # msg" "0x31 \<le> c" "c \<le> 0x39" "escape_char c = None"
    "positional c msg = Some (k, msg')" "skip_spec msg' = Some r"
proof -
  let ?s = "case spec of None \<Rightarrow> [] | Some s \<Rightarrow> 0x21 # s @ [0x21]"
  have s: "skip_spec (?s @ r) = Some r" "k < 10 \<longrightarrow> isdigit (hd (?s @ r)) = Some False" "?s @ r \<noteq> []"
    using assms by (cases r; auto simp: skip_spec_def skip_until_spec isdigit_def split: option.splits)+
  show ?thesis
  proof (cases "k < 10")
    case True
    then have "positional (digit_char k) (?s @ r) = Some (k, ?s @ r)"
      using s(2,3) digit_char_cases(2) [of k] by (cases "?s @ r") (simp_all add: positional_def)
    then show thesis using that [of "digit_char k" "?s @ r" "?s @ r"] True s(1) digit_char_cases [of k] assms(1) by auto
  next
    case False
    then have d: "k div 10 < 10" "k mod 10 < 10" "k div 10 \<noteq> 0" "k = k div 10 * 10 + k mod 10" using assms(1) by auto
    then have "positional (digit_char (k div 10)) (digit_char (k mod 10) # ?s @ r) = Some (k, ?s @ r)"
      by (simp add: positional_def digit_char_cases)
    then show thesis
      using that [of "digit_char (k div 10)" "digit_char (k mod 10) # ?s @ r" "?s @ r"] False s(1) d digit_char_cases [of "k div 10"] by auto
  qed
qed

section \<open>Expansion\<close>

text \<open>The buffer \<open>b\<close> with \<open>out\<close> behind the first \<open>count\<close> characters; one more character may have changed.\<close>

definition appended :: "u16 list \<Rightarrow> nat \<Rightarrow> u16 list \<Rightarrow> u16 list \<Rightarrow> bool" where
  "appended b count out b' \<longleftrightarrow>
     length b' = length b \<and> take (count + length out) b' = take count b @ out
     \<and> drop (count + length out + 1) b' = drop (count + length out + 1) b"

lemma appended_refl: "appended b count [] b"
  by (simp add: appended_def)

lemma appended_trans:
  assumes "appended b count x b1" "appended b1 (count + length x) y b2" "count + length x + length y < length b"
  shows "appended b count (x @ y) b2"
proof -
  have "drop (count + length x + 1) b1 = drop (count + length x + 1) b" using assms(1) by (simp add: appended_def)
  then have "drop (length y) (drop (count + length x + 1) b1) = drop (length y) (drop (count + length x + 1) b)" by simp
  then show ?thesis using assms by (auto simp: appended_def ac_simps)
qed

lemma appended_wr: "count < length b \<Longrightarrow> appended b count [c] (b[count := c])"
  by (simp add: appended_def take_Suc_conv_app_nth)

lemma appended_copy: "count + length cs < length b \<Longrightarrow>
    appended b count cs (take count b @ cs @ 0 # drop (count + length cs + 1) b)"
  by (auto simp: appended_def)

abbreviation arg_array :: "u16 list list \<Rightarrow> format_args" where
  "arg_array as \<equiv> Arg_array (map (\<lambda>a. a @ [0]) as)"

lemma message_loop_item:
  assumes "item_ok (length as) x" "follows_ok x (hd r)" "r \<noteq> []" "list_all terminated as"
    and "count + length (expand_item as x) < length b"
  shows "\<exists>b'. message_loop (unparse_item x @ r) False b count (arg_array as)
      = message_loop r False b' (count + length (expand_item as x)) (arg_array as) \<and> appended b count (expand_item as x) b'"
proof (cases x)
  case (Plain c)
  then show ?thesis using assms by (auto simp: message_loop.simps faults appended_wr intro!: exI)
next
  case (Escape c)
  then show ?thesis using assms
    by (cases "escape_char c")
      (auto simp: message_loop.simps faults appended_wr appended_refl intro!: exI)
next
  case (Insert k spec)
  obtain c msg msg' where m: "unparse_item (Insert k spec) @ r = 0x25 # c # msg" "0x31 \<le> c" "c \<le> 0x39" "escape_char c = None"
    "positional c msg = Some (k, msg')" "skip_spec msg' = Some r"
    using insert_parsed [of "length as" k spec r] assms(1-3) unfolding Insert by metis
  let ?a = "as ! (k - 1)"
  have k: "k - 1 < length as" using assms(1) Insert by auto
  then have t: "terminated ?a" using assms(4) by (simp add: list_all_length)
  then have "wcslen (?a @ [0]) = Some (length ?a)" "copy_str b count (?a @ [0]) = Some (take count b @ ?a @ 0 # drop (count + length ?a + 1) b)"
    using assms(5) Insert wcslen_terminated [of ?a "[]"] copy_str_terminated [of ?a count b] by simp_all
  moreover have "c \<noteq> 0x30" using m(2) by auto
  ultimately show ?thesis using m k assms(5) appended_copy [of count ?a b]
    by (intro exI [of _ "take count b @ ?a @ 0 # drop (count + length ?a + 1) b"])
      (simp add: Insert message_loop.simps(2) faults del: unparse_item.simps)
qed

lemma message_loop_items:
  assumes "items_ok (length as) rest items" "rest \<noteq> []" "list_all terminated as"
    and "count + length (expand as items) < length b"
  shows "\<exists>b'. message_loop (unparse_items items @ rest) False b count (arg_array as)
      = message_loop rest False b' (count + length (expand as items)) (arg_array as) \<and> appended b count (expand as items) b'"
  using assms(1,4)
proof (induction items arbitrary: b count)
  case Nil
  then show ?case by (auto simp: unparse_items_def expand_def appended_refl)
next
  case (Cons x xs)
  let ?r = "unparse_items xs @ rest" and ?x = "expand_item as x" and ?xs = "expand as xs"
  have e: "expand as (x # xs) = ?x @ ?xs" "unparse_items (x # xs) @ rest = unparse_item x @ ?r"
    by (simp_all add: expand_def unparse_items_def)
  obtain b1 where 1: "message_loop (unparse_item x @ ?r) False b count (arg_array as)
      = message_loop ?r False b1 (count + length ?x) (arg_array as)" "appended b count ?x b1"
    using message_loop_item [of as x ?r count b] Cons.prems assms(2,3) e by auto
  have "length b1 = length b" using 1(2) by (simp add: appended_def)
  then obtain b2 where 2: "message_loop ?r False b1 (count + length ?x) (arg_array as)
      = message_loop rest False b2 (count + length ?x + length ?xs) (arg_array as)" "appended b1 (count + length ?x) ?xs b2"
    using Cons.IH [of "count + length ?x" b1] Cons.prems e by auto
  have "appended b count (?x @ ?xs) b2" using appended_trans [OF 1(2) 2(2)] Cons.prems e by simp
  then show ?case using 1(1) 2(1) by (auto simp: e add.assoc)
qed

text \<open>The end of a message: the terminator, or \<open>%0\<close> in front of some character.\<close>

definition ends_message :: "u16 list \<Rightarrow> bool" where
  "ends_message rest \<longleftrightarrow> (\<exists>r. rest = 0 # r) \<or> (\<exists>c r. rest = 0x25 # 0x30 # c # r)"

lemma message_loop_end: "ends_message rest \<Longrightarrow> message_loop rest False b count args = Some (b, count)"
  by (auto simp: ends_message_def message_loop.simps)

lemma ends_message_code [simp]: "ends_message (0 # r)" "ends_message (0x25 # 0x30 # c # r)"
  by (simp_all add: ends_message_def)

lemma expand_terminated:
  "items_ok (length as) rest items \<Longrightarrow> list_all terminated as \<Longrightarrow> terminated (expand as items)"
proof (induction items)
  case (Cons x xs)
  then have "terminated (expand_item as x)"
    by (cases x) (auto simp: escape_char_def list_all_length split: if_splits)
  then show ?case using Cons by (simp add: expand_def)
qed (simp add: expand_def)

text \<open>
  C18. A message of characters, escapes and inserts, up to its end or to \<open>%0\<close>, with its arguments in an
  array and an expansion shorter than the buffer and than the 1024 characters of the log, is expanded to its
  items one after the other, whatever the buffer held: the expansion and its terminator are written
  and nothing else, and the length is returned.  (A list of arguments is read wrongly and the size of the buffer is
  not looked at, see below.)
\<close>

theorem RtlFormatMessage_expands:
  assumes "items_ok (length as) rest items" "ends_message rest" "list_all terminated as"
    and "length (expand as items) < length b" "length (expand as items) < 1024"
  shows "RtlFormatMessage (Some (unparse_items items @ rest)) False False (arg_array as) b size_b =
    Some (STATUS_SUCCESS, expand as items @ 0 # drop (length (expand as items) + 1) b, Some (of_nat (length (expand as items))))"
proof -
  let ?e = "expand as items"
  let ?b = "?e @ 0 # drop (length ?e + 1) b"
  have ne: "rest \<noteq> []" using assms(2) by (auto simp: ends_message_def)
  obtain b' where b': "message_loop (unparse_items items @ rest) False b 0 (arg_array as) = Some (b', length ?e)" "appended b 0 ?e b'"
    using message_loop_items [OF assms(1) ne assms(3), of 0 b] assms(4) message_loop_end [OF assms(2)] by auto
  then have w: "wr b' (length ?e) 0 = Some ?b"
    using assms(4) by (auto simp: appended_def faults upd_conv_take_nth_drop)
  have n: "rpl_wcslen (Some ?b) = Some (length ?e)"
    using expand_terminated [OF assms(1,3)] by (simp add: rpl_wcslen_def)
  have u: "unat (of_nat (length ?e * 2) :: u32) = length ?e * 2" by (rule unat_of_nat_u32) (use assms(5) in simp)
  obtain a where a: "WSTR2STR (Some ?b) = Some a" "0 \<in> set a"
  proof (cases "length ?e = 0")
    case True
    then show thesis using that [of "varconv[0 := 0]"] n u varconv_last
      by (auto simp: WSTR2STR_def RtlUnicodeToOemN_def faults Let_def set_update_memI)
  next
    case False
    have "length ?e + 1 \<le> length ?b" "0 + (length ?e + 1) \<le> length varconv" using assms(5) varconv_last(1) by simp_all
    from oem_copy_result [OF this] obtain a where "oem_copy (length ?e + 1) varconv 0 ?b = Some a" "length a = length varconv"
      "a ! length ?e = ucast (widetoa (?b ! length ?e))" by force
    moreover from this have "0 \<in> set a" using nth_mem [of "length ?e" a] assms(5) varconv_last(1) by (simp add: widetoa_def)
    moreover have "min (length ?e) 1024 = length ?e" using assms(5) by simp
    ultimately show thesis using that [of a] n u False by (simp add: WSTR2STR_def RtlUnicodeToOemN_def Let_def)
  qed
  then show ?thesis using b'(1) w munge_defined [of a] by (auto simp: RtlFormatMessage_def)
qed

theorem RtlFormatMessage_expands_witness:
  "RtlFormatMessage (Some [0x61, 0x25, 0x32, 0x21, 0x64, 0x21, 0x25, 0x31, 0x20, 0x25, 0x6e, 0x25, 0x30, 0])
     False False (arg_array [[0x78, 0x79], [0x7a]]) [0x2e, 0x2e, 0x2e, 0x2e, 0x2e, 0x2e, 0x2e, 0x2e, 0x2e] 0
   = Some (STATUS_SUCCESS, [0x61, 0x7a, 0x78, 0x79, 0x20, 0x0a, 0, 0x2e, 0x2e], Some 6)"
  using RtlFormatMessage_expands [of "[[0x78, 0x79], [0x7a]]" "[0x25, 0x30, 0]"
      "[Plain 0x61, Insert 2 (Some [0x64]), Insert 1 None, Plain 0x20, Escape 0x6e]" "[0x2e, 0x2e, 0x2e, 0x2e, 0x2e, 0x2e, 0x2e, 0x2e, 0x2e]" 0]
  by (simp add: unparse_items_def expand_def digit_char_def isdigit_def escape_char_def)

text \<open>The size of the buffer is not looked at; the second argument of a list that is asked for first is the first one.\<close>

lemma RtlFormatMessage_ignores_size:
  "RtlFormatMessage (Some [0x61, 0x62, 0]) False False (Arg_array []) [0x2e] 2 = None"
  by (simp add: RtlFormatMessage_def message_loop.simps faults)

lemma get_arg_second_first: "get_arg 1 (Arg_list [x, y]) = Some (x, Arg_list [y])"
  by (simp add: faults)

end
