(* ===== verification/System_Info.thy ===== *)
theory System_Info
  imports Device_Control Unicode_Strings
begin

text \<open>
  What the system tells about itself and the small services of \<^verbatim>\<open>libs/ntdll/ntdll.c\<close>,
  \<^verbatim>\<open>version.c\<close>, \<^verbatim>\<open>mm.c\<close> and \<^verbatim>\<open>etw.c\<close>.  Structures have
  the layout of the 64-bit build.
\<close>

section \<open>System information\<close>

text \<open>The classes that are answered, with their numbers.\<close>

definition SystemBasicInformation :: nat where "SystemBasicInformation = 0"
definition SystemPerformanceInformation :: nat where "SystemPerformanceInformation = 2"
definition SystemTimeOfDayInformation :: nat where "SystemTimeOfDayInformation = 3"
definition SystemProcessInformation :: nat where "SystemProcessInformation = 5"
definition SystemModuleInformation :: nat where "SystemModuleInformation = 11"

lemmas system_classes = SystemBasicInformation_def SystemPerformanceInformation_def SystemTimeOfDayInformation_def
  SystemProcessInformation_def SystemModuleInformation_def

definition fill_sysinfo :: "u32 \<Rightarrow> field list" where
  "fill_sysinfo pagesize =
     (let MmLowestPhysicalPage = 1; MmHighestPhysicalPage = 0x7fffffff div pagesize
      in [F32 0 0, F32 4 0, F32 8 pagesize, F32 16 MmLowestPhysicalPage, F32 20 MmHighestPhysicalPage,
          F32 12 (MmHighestPhysicalPage - MmLowestPhysicalPage), F64 24 0x10000, F64 32 0x10000, F64 40 0x7ffeffff,
          F64 48 (push_bit 1 1 - 1), F8 56 1])"

definition fill_perfinfo :: "field list" where
  "fill_perfinfo = [F32 44 0x20000]"

text \<open>A structure of \<open>n\<close> bytes: its size is reported, and it is filled in when there is room.\<close>

definition report :: "nat \<Rightarrow> u32 \<Rightarrow> nat \<Rightarrow> nat \<Rightarrow> field list \<Rightarrow> mem \<Rightarrow> answer" where
  "report SystemInformation SystemInformationLength ReturnLength n fs m = do {
     m \<leftarrow> (if ReturnLength \<noteq> 0 then put_fields ReturnLength [F32 0 (of_nat n)] m else Some m);
     if SystemInformationLength < of_nat n then Some (STATUS_BUFFER_TOO_SMALL, m)
     else do { m \<leftarrow> put_fields SystemInformation fs m; Some (STATUS_SUCCESS, m) }
   }"

definition NtQuerySystemInformation :: "u32 \<Rightarrow> nat \<Rightarrow> nat \<Rightarrow> u32 \<Rightarrow> nat \<Rightarrow> mem \<Rightarrow> answer" where
  "NtQuerySystemInformation pagesize cls SystemInformation SystemInformationLength ReturnLength m =
     (let answer = report SystemInformation SystemInformationLength ReturnLength
      in if cls = SystemBasicInformation then answer 64 (fill_sysinfo pagesize) m
         else if cls = SystemPerformanceInformation then answer 312 fill_perfinfo m
         else if cls = SystemTimeOfDayInformation then answer 48 [Fzero 0 48] m
         else if cls = SystemModuleInformation then answer 8 [Fzero 0 8] m
         else if cls = SystemProcessInformation then answer 248 [Fzero 0 248, F64 80 0x1337, F32 4 1] m
         else Some (STATUS_NOT_IMPLEMENTED, m))"

section \<open>Versions\<close>

record PEB_version =
  OSMajorVersion :: u32
  OSMinorVersion :: u32
  OSBuildNumber :: u16
  OSPlatformId :: u32

text \<open>\<^verbatim>\<open>version_sp2\<close> with its terminator.\<close>

definition version_sp2 :: "u16 list" where "version_sp2 = wide_lit ''Service Pack 2''"

definition wide_fields :: "nat \<Rightarrow> u16 list \<Rightarrow> field list" where
  "wide_fields a cs = map (\<lambda>(i, c). F16 (a + 2 * i) c) (enumerate 0 cs)"

text \<open>The larger structure starts with the smaller one; its case falls through.\<close>

definition RtlGetVersion :: "PEB_version \<Rightarrow> nat \<Rightarrow> mem \<Rightarrow> answer" where
  "RtlGetVersion Peb lpVInfo m = do {
     n \<leftarrow> ld32 m lpVInfo;
     if n \<noteq> 284 \<and> n \<noteq> 276 then Some (STATUS_INVALID_PARAMETER, m)
     else do {
       m \<leftarrow> (if n = 284 then
              put_fields lpVInfo [F16 276 (ucast (OSPlatformId Peb)), F16 278 0, F16 280 2, F8 282 3] m
            else Some m);
       m \<leftarrow> put_fields lpVInfo
              ([F32 4 (OSMajorVersion Peb), F32 8 (OSMinorVersion Peb), F32 12 (ucast (OSBuildNumber Peb)), F32 16 (OSPlatformId Peb)]
               @ wide_fields 20 version_sp2) m;
       Some (STATUS_SUCCESS, m)
     }
   }"

definition VerSetConditionMask :: "u64 \<Rightarrow> u32 \<Rightarrow> u8 \<Rightarrow> u64" where
  "VerSetConditionMask dwlConditionMask dwTypeBitMask dwConditionMask = 0"

definition RtlVerifyVersionInfo :: "u32 \<Rightarrow> u64 \<Rightarrow> NTSTATUS" where
  "RtlVerifyVersionInfo TypeMask ConditionMask = STATUS_SUCCESS"

section \<open>Virtual memory\<close>

definition ROUND_TO_PAGES :: "u64 \<Rightarrow> u64 \<Rightarrow> u64" where
  "ROUND_TO_PAGES pagesize n = (n + pagesize - 1) AND NOT (pagesize - 1)"

definition PAGE_ALIGN :: "u64 \<Rightarrow> u64 \<Rightarrow> u64" where
  "PAGE_ALIGN pagesize va = va AND NOT (pagesize - 1)"

definition PROT_READ :: u32 where "PROT_READ = 1"
definition PROT_WRITE :: u32 where "PROT_WRITE = 2"
definition PROT_EXEC :: u32 where "PROT_EXEC = 4"
definition MAP_FAILED :: u64 where "MAP_FAILED = 0xffffffffffffffff"

text \<open>Another protection than these three aborts.\<close>

definition protection :: "u32 \<Rightarrow> u32 option" where
  "protection Protect =
     (if Protect = 0x02 then Some PROT_READ
      else if Protect = 0x04 then Some (PROT_READ OR PROT_WRITE)
      else if Protect = 0x10 then Some PROT_EXEC
      else None)"

text \<open>
  \<open>mmap address size prot fixed\<close> is what the host returns.  The result is the status,
  \<^verbatim>\<open>*BaseAddress\<close> and \<^verbatim>\<open>*RegionSize\<close>.
\<close>

definition NtAllocateVirtualMemory ::
  "u64 \<Rightarrow> (u64 \<Rightarrow> u64 \<Rightarrow> u32 \<Rightarrow> bool \<Rightarrow> u64) \<Rightarrow> u64 \<Rightarrow> u64 \<Rightarrow> u32 \<Rightarrow> (NTSTATUS \<times> u64 \<times> u64) option" where
  "NtAllocateVirtualMemory pagesize mmap BaseAddress RegionSize Protect =
     (if RegionSize = 0 then Some (STATUS_INVALID_PARAMETER, BaseAddress, RegionSize)
      else do {
        prot \<leftarrow> protection Protect;
        let n = ROUND_TO_PAGES pagesize RegionSize;
        let address = (if BaseAddress \<noteq> 0 then PAGE_ALIGN pagesize BaseAddress else 0);
        let address = mmap address n prot (address \<noteq> 0);
        if address \<noteq> 0 then Some (STATUS_SUCCESS, address, n)
        else Some (STATUS_INSUFFICIENT_RESOURCES, BaseAddress, n)
      })"

text \<open>\<open>munmap address size\<close> tells whether the host succeeds.\<close>

definition NtFreeVirtualMemory :: "u64 \<Rightarrow> (u64 \<Rightarrow> u64 \<Rightarrow> bool) \<Rightarrow> u64 \<Rightarrow> u64 \<Rightarrow> NTSTATUS" where
  "NtFreeVirtualMemory pagesize munmap BaseAddress RegionSize =
     (if \<not> munmap BaseAddress (ROUND_TO_PAGES pagesize RegionSize) then STATUS_UNSUCCESSFUL else STATUS_SUCCESS)"

section \<open>Processes and the display\<close>

text \<open>A call returns, or the process ends with an exit code.\<close>

datatype 'a outcome = Returned 'a | Exited u8

definition NtTerminateProcess :: "u32 \<Rightarrow> NTSTATUS outcome" where
  "NtTerminateProcess ExitStatus = Exited (ucast ExitStatus)"

definition NtShutdownSystem :: "u32 \<Rightarrow> NTSTATUS outcome" where
  "NtShutdownSystem Action = Exited 0"

text \<open>The status and what has been written to the standard output.\<close>

definition NtDisplayString :: "UNICODE_STRING option \<Rightarrow> u8 list \<Rightarrow> (NTSTATUS \<times> u8 list) option" where
  "NtDisplayString String out =
     (case String of
        None \<Rightarrow> Some (STATUS_ACCESS_VIOLATION, out)
      | Some s \<Rightarrow> do {
          d \<leftarrow> US2STR (Buffer s) (Length s);
          text \<leftarrow> narrow d;
          Some (STATUS_SUCCESS, out @ text)
        })"

text \<open>The names are converted for the log.\<close>

definition LdrGetDllHandle :: "UNICODE_STRING option \<Rightarrow> NTSTATUS option" where
  "LdrGetDllHandle ModuleFileName =
     (case ModuleFileName of
        None \<Rightarrow> Some STATUS_ACCESS_VIOLATION
      | Some s \<Rightarrow> do { _ \<leftarrow> US2STR (Buffer s) (Length s); Some STATUS_INVALID_HANDLE })"

definition NtLoadDriver :: "UNICODE_STRING option \<Rightarrow> NTSTATUS option" where
  "NtLoadDriver DriverServiceName =
     (case DriverServiceName of
        None \<Rightarrow> Some STATUS_ACCESS_VIOLATION
      | Some s \<Rightarrow> do { _ \<leftarrow> US2STR (Buffer s) (Length s); Some STATUS_SUCCESS })"

section \<open>Calls that do nothing\<close>

definition NtSetInformationProcess :: NTSTATUS where "NtSetInformationProcess = STATUS_SUCCESS"
definition LdrSetMUICacheType :: NTSTATUS where "LdrSetMUICacheType = STATUS_SUCCESS"
definition NtSerializeBoot :: NTSTATUS where "NtSerializeBoot = STATUS_SUCCESS"
definition NtOpenProcessToken :: NTSTATUS where "NtOpenProcessToken = STATUS_NOT_IMPLEMENTED"
definition NtAdjustPrivilegesToken :: NTSTATUS where "NtAdjustPrivilegesToken = STATUS_SUCCESS"
definition NtSetDefaultLocale :: NTSTATUS where "NtSetDefaultLocale = STATUS_SUCCESS"
definition EtwEventRegister :: NTSTATUS where "EtwEventRegister = STATUS_SUCCESS"
definition EtwEventSetInformation :: NTSTATUS where "EtwEventSetInformation = STATUS_SUCCESS"
definition EtwEventUnregister :: NTSTATUS where "EtwEventUnregister = STATUS_SUCCESS"

end
