(* ===== verification/Startup.thy ===== *)
theory Startup
  imports System_Info
begin

text \<open>
  The start of a program: \<^verbatim>\<open>main\<close> of \<^verbatim>\<open>nloader.c\<close> builds its image path and command line, and the
  end of \<open>setup_nloader\<close> in \<^verbatim>\<open>loader.c\<close> its thread and process blocks.
  Opening and reading the file and the jump to the entry point are calls of the host.
\<close>

section \<open>The command line\<close>

text \<open>Narrow characters, which are signed, stored as wide ones from position \<open>i\<close> on.\<close>

fun store_chars :: "u16 list \<Rightarrow> nat \<Rightarrow> u8 list \<Rightarrow> u16 list option" where
  "store_chars b i [] = Some b"
| "store_chars b i (ch # s) = do { b \<leftarrow> wr b i (scast ch); store_chars b (i + 1) s }"

text \<open>The same for wide characters.\<close>

fun store_wide :: "u16 list \<Rightarrow> nat \<Rightarrow> u16 list \<Rightarrow> u16 list option" where
  "store_wide b i [] = Some b"
| "store_wide b i (ch # s) = do { b \<leftarrow> wr b i ch; store_wide b (i + 1) s }"

definition VOLUME_PREFIX :: "u16 list" where "VOLUME_PREFIX = map of_char ''Volume{''"

text \<open>The loop is bounded by the size of the buffer in bytes.\<close>

fun copy_arg :: "u16 list \<Rightarrow> nat \<Rightarrow> u8 list \<Rightarrow> (u16 list \<times> nat) option" where
  "copy_arg b c [] = Some (b, c)"
| "copy_arg b c (ch # arg) =
     (if c < 2047 then do { b \<leftarrow> wr b c (scast ch); copy_arg b (c + 1) arg } else Some (b, c))"

definition is_dev :: "u8 list \<Rightarrow> bool" where
  "is_dev arg \<longleftrightarrow> take 4 arg = narrow_lit ''/dev''"

definition append_arg :: "u16 list \<Rightarrow> nat \<Rightarrow> u8 list \<Rightarrow> (u16 list \<times> nat) option" where
  "append_arg b c arg = do {
     b \<leftarrow> wr b c 0x20;
     let c = c + 1;
     (b, c) \<leftarrow> (if is_dev arg then do { b \<leftarrow> store_wide b c VOLUME_PREFIX; Some (b, c + 7) } else Some (b, c));
     (b, c) \<leftarrow> copy_arg b c arg;
     if is_dev arg then do { b \<leftarrow> wr b c 0x7d; Some (b, c + 1) } else Some (b, c)
   }"

fun append_args :: "u16 list \<Rightarrow> nat \<Rightarrow> u8 list list \<Rightarrow> (u16 list \<times> nat) option" where
  "append_args b c [] = Some (b, c)"
| "append_args b c (arg # args) = do { (b, c) \<leftarrow> append_arg b c arg; append_args b c args }"

definition default_commandline :: "u16 list" where
  "default_commandline = map of_char ''autochk.exe *'' @ replicate 1011 0"

text \<open>
  The path of the image and its length in the parameter block, then the arguments.  \<open>path\<close> is the
  memory behind the parameter block.
\<close>

definition build_commandline :: "u16 list \<Rightarrow> u16 \<Rightarrow> u8 list list \<Rightarrow> u16 list option" where
  "build_commandline path path_len args = do {
     b \<leftarrow> (if unat path_len \<le> length path \<and> unat path_len \<le> 1024
          then Some (take (unat path_len) path @ drop (unat path_len) default_commandline) else None);
     (b, c) \<leftarrow> append_args b (unat path_len) args;
     wr b c 0
   }"

text \<open>
  What \<^verbatim>\<open>main\<close> leaves in the parameter block: the two counted strings point into \<open>tail\<close>, the memory
  behind the block, at characters 0 and 1.
\<close>

record start_params =
  tail :: "u16 list"
  image_Length :: u16
  image_MaximumLength :: u16
  cmd_Length :: u16
  cmd_MaximumLength :: u16

definition main_params :: "u8 list option \<Rightarrow> u8 list list \<Rightarrow> u16 list \<Rightarrow> start_params option" where
  "main_params argv1 args mem = do {
     let executable = (case argv1 of Some a \<Rightarrow> a | None \<Rightarrow> narrow_lit ''autochk.exe'');
     mem \<leftarrow> store_chars mem 0 executable;
     let len = (of_nat (length executable) :: u16);
     commandline \<leftarrow> (if argv1 \<noteq> None then build_commandline mem len args else Some default_commandline);
     mem \<leftarrow> store_wide mem 1 commandline;
     Some \<lparr>tail = mem, image_Length = len, image_MaximumLength = len + 1, cmd_Length = 2046, cmd_MaximumLength = 2048\<rparr>
   }"

section \<open>The thread and the process\<close>

definition PESALIGN64 :: "u64 \<Rightarrow> u64 \<Rightarrow> u64" where
  "PESALIGN64 v a = (if a \<noteq> 0 then (v div a + (if v mod a \<noteq> 0 then 1 else 0)) * a else v)"

text \<open>The fields that the loader sets to anything but zero; \<open>stack\<close> is where the host puts the stack.\<close>

record TEB =
  StackLimit :: u64
  StackBase :: u64
  Tib_Version :: u32
  Self :: u64
  UniqueProcess :: u64
  UniqueThread :: u64
  Peb :: u64
  CurrentLocale :: u32
  StaticUnicodeBuffer :: "u16 list"
  StaticUnicodeString_Length :: u16

definition setup_teb :: "u64 \<Rightarrow> u64 \<Rightarrow> u64 \<Rightarrow> u64 \<Rightarrow> u64 \<Rightarrow> TEB" where
  "setup_teb teb peb stack pagesize SizeOfStackReserve =
     \<lparr>StackLimit = stack, StackBase = stack + PESALIGN64 SizeOfStackReserve pagesize, Tib_Version = 7680, Self = teb,
      UniqueProcess = 0xffffffffffffffff, UniqueThread = 0xfffffffffffffffe, Peb = peb, CurrentLocale = 1033,
      StaticUnicodeBuffer = wide_lit ''1337'', StaticUnicodeString_Length = 10\<rparr>"

definition setup_peb :: PEB_version where
  "setup_peb = \<lparr>OSMajorVersion = 5, OSMinorVersion = 2, OSBuildNumber = 3790, OSPlatformId = 2\<rparr>"

text \<open>The page at \<open>0x7ffe0000\<close>.\<close>

record KUSER_SHARED_DATA =
  TickCountMultiplier :: u32
  TickCount_High1Time :: u32
  TickCount_High2Time :: u32
  Cookie :: u32
  NtProductType :: nat
  NtMajorVersion :: u32
  NtMinorVersion :: u32

definition setup_shared :: "PEB_version \<Rightarrow> KUSER_SHARED_DATA" where
  "setup_shared peb =
     \<lparr>TickCountMultiplier = 1, TickCount_High1Time = 0x1337, TickCount_High2Time = 0x1337, Cookie = 0x1337,
      NtProductType = 1, NtMajorVersion = OSMajorVersion peb, NtMinorVersion = OSMinorVersion peb\<rparr>"

end
