(* ===== verification/System_Info_Spec.thy ===== *)
theory System_Info_Spec
  imports System_Info Device_Control_Spec
begin

text \<open>
  The queries follow their protocol: the size that is reported is the size that is needed, and
  nothing else is written.
\<close>

section \<open>Structures that fit\<close>

lemma put_field_defined: "a + field_end f \<le> length m \<Longrightarrow> \<exists>m'. put_field a f m = Some m'"
  by (cases f) (auto simp: st8_def st16_def st32_def st64_def put_bytes_def faults)

lemma put_all_defined:
  "list_all (\<lambda>f. a + field_end f \<le> length m) fs \<Longrightarrow> \<exists>m'. put_all a fs m = Some m'"
proof (induction fs arbitrary: m)
  case (Cons f fs)
  obtain m1 where m1: "put_field a f m = Some m1" using put_field_defined [of a f m] Cons.prems by auto
  then have "length m1 = length m" using put_field_in by (auto simp: writes_in_def)
  then show ?case using Cons.IH [of m1] Cons.prems m1 by simp
qed simp

lemma put_fields_defined:
  assumes "list_all (\<lambda>f. field_end f \<le> n) fs" "a + n \<le> length m" "a \<noteq> 0"
  shows "\<exists>m'. put_fields a fs m = Some m' \<and> writes_in {a..<a + n} m m'"
proof -
  have "list_all (\<lambda>f. a + field_end f \<le> length m) fs" by (rule list.pred_mono_strong [OF assms(1)]) (use assms(2) in auto)
  then obtain m' where "put_fields a fs m = Some m'" using put_all_defined [of a m fs] assms(3) by (auto simp: put_fields_def)
  then show ?thesis using put_fields_in [OF _ assms(1)] by auto
qed

section \<open>The protocol of a query\<close>

text \<open>The size of the structure of a class that is answered.\<close>

definition class_size :: "nat \<Rightarrow> nat option" where
  "class_size cls = map_of [(0, 64), (2, 312), (3, 48), (5, 248), (11, 8)] cls"

definition class_fields :: "u32 \<Rightarrow> nat \<Rightarrow> field list" where
  "class_fields pagesize cls =
     (if cls = 0 then fill_sysinfo pagesize else if cls = 2 then fill_perfinfo else if cls = 3 then [Fzero 0 48]
      else if cls = 11 then [Fzero 0 8] else [Fzero 0 248, F64 80 0x1337, F32 4 1])"

lemma query_reports:
  "class_size cls = Some n \<Longrightarrow>
     NtQuerySystemInformation pagesize cls a len rl m = report a len rl n (class_fields pagesize cls) m
     \<and> list_all (\<lambda>f. field_end f \<le> n) (class_fields pagesize cls) \<and> n < 2 ^ 32"
  by (auto simp: class_size_def class_fields_def NtQuerySystemInformation_def system_classes Let_def fill_sysinfo_def
      fill_perfinfo_def split: if_splits)

lemma query_other:
  "class_size cls = None \<Longrightarrow> NtQuerySystemInformation pagesize cls a len rl m = Some (STATUS_NOT_IMPLEMENTED, m)"
  by (auto simp: class_size_def NtQuerySystemInformation_def system_classes Let_def split: if_splits)

lemma report_protocol:
  assumes "list_all (\<lambda>f. field_end f \<le> n) fs" "n < 2 ^ 32"
    and "rl \<noteq> 0" "rl + 4 \<le> length m" "n \<le> unat len \<longrightarrow> a \<noteq> 0 \<and> a + n \<le> length m"
    and "{rl..<rl + 4} \<inter> {a..<a + unat len} = {}"
  shows "\<exists>m'. report a len rl n fs m = Some (if n \<le> unat len then STATUS_SUCCESS else STATUS_BUFFER_TOO_SMALL, m')
    \<and> ld32 m' rl = Some (of_nat n)
    \<and> writes_in ({rl..<rl + 4} \<union> (if n \<le> unat len then {a..<a + n} else {})) m m'"
proof -
  have u: "unat (of_nat n :: u32) = n" by (rule unat_of_nat_u32) (use assms(2) in simp)
  have "list_all (\<lambda>f. field_end f \<le> 4) [F32 0 (of_nat n)]" by simp
  then obtain m1 where m1: "put_fields rl [F32 0 (of_nat n)] m = Some m1" "writes_in {rl..<rl + 4} m m1"
    using put_fields_defined [of 4 _ rl m] assms(3,4) by blast
  have r1: "ld32 m1 rl = Some (of_nat n)"
    using put_fields_reads(2) [where fs = "[]" and f = "F32 0 (of_nat n)" and gs = "[]" and a = rl and m = m and m' = m1] m1(1) by simp
  show ?thesis
  proof (cases "n \<le> unat len")
    case True
    have "length m1 = length m" using m1(2) by (simp add: writes_in_def)
    then obtain m2 where m2: "put_fields a fs m1 = Some m2" "writes_in {a..<a + n} m1 m2"
      using put_fields_defined [OF assms(1), of a m1] assms(5) True by auto
    have "{rl..<rl + 4} \<inter> {a..<a + n} = {}" using assms(6) True by (auto simp: disjoint_iff)
    then have "ld32 m2 rl = Some (of_nat n)" using ld32_stays [OF m2(2)] r1 by simp
    moreover have "writes_in ({rl..<rl + 4} \<union> {a..<a + n}) m m2"
      using writes_in_trans [OF writes_in_mono [OF m1(2)] writes_in_mono [OF m2(2)]] by blast
    ultimately show ?thesis using True m1(1) m2(1) assms(3) by (simp add: report_def word_less_nat_alt u)
  next
    case False
    then show ?thesis using m1 r1 assms(3) by (simp add: report_def word_less_nat_alt u)
  qed
qed

text \<open>
  C30. For every class that is answered, a query reports the size of its structure, succeeds exactly
  when the buffer has that size, and writes nothing but the size and, on success, the structure; any
  other class is refused with nothing written.
\<close>

theorem NtQuerySystemInformation_protocol:
  assumes "rl \<noteq> 0" "rl + 4 \<le> length m" "a \<noteq> 0" "a + unat len \<le> length m"
    and "{rl..<rl + 4} \<inter> {a..<a + unat len} = {}"
  shows "case class_size cls of
      None \<Rightarrow> NtQuerySystemInformation pagesize cls a len rl m = Some (STATUS_NOT_IMPLEMENTED, m)
    | Some n \<Rightarrow> \<exists>m'. NtQuerySystemInformation pagesize cls a len rl m
          = Some (if n \<le> unat len then STATUS_SUCCESS else STATUS_BUFFER_TOO_SMALL, m')
        \<and> ld32 m' rl = Some (of_nat n)
        \<and> writes_in ({rl..<rl + 4} \<union> (if n \<le> unat len then {a..<a + n} else {})) m m'"
proof (cases "class_size cls")
  case None
  then show ?thesis by (simp add: query_other)
next
  case (Some n)
  note q = query_reports [OF Some, of pagesize a len rl m]
  show ?thesis using report_protocol [of n "class_fields pagesize cls" rl m len a] q assms Some by auto
qed

theorem NtQuerySystemInformation_protocol_witness:
  "\<exists>m'. NtQuerySystemInformation 4096 11 16 8 4 (replicate 32 1) = Some (STATUS_SUCCESS, m') \<and> ld32 m' 4 = Some 8"
  using NtQuerySystemInformation_protocol [where rl = 4 and m = "replicate 32 1" and a = 16 and len = 8 and cls = 11 and pagesize = 4096]
  by (auto simp: class_size_def)

text \<open>Reported processors and pages.\<close>

lemma basic_information:
  assumes "NtQuerySystemInformation pagesize 0 a len rl m = Some (STATUS_SUCCESS, m')"
  shows "ld32 m' (a + 8) = Some pagesize \<and> ld64 m' (a + 48) = Some 1 \<and> ld32 m' (a + 12) = Some (0x7fffffff div pagesize - 1)"
proof -
  let ?hi = "0x7fffffff div pagesize"
  obtain m1 where p: "put_fields a (fill_sysinfo pagesize) m1 = Some m'"
    using assms by (auto simp: NtQuerySystemInformation_def system_classes report_def bind_eq_Some_conv nt_status split: if_splits)
  have "put_fields a ([F32 0 0, F32 4 0] @ F32 8 pagesize # [F32 16 1, F32 20 ?hi, F32 12 (?hi - 1), F64 24 0x10000, F64 32 0x10000, F64 40 0x7ffeffff, F64 48 1, F8 56 1]) m1 = Some m'"
    using p by (simp add: fill_sysinfo_def Let_def)
  then have "ld32 m' (a + 8) = Some pagesize" by (rule put_fields_reads(2)) simp_all
  moreover have "put_fields a ([F32 0 0, F32 4 0, F32 8 pagesize, F32 16 1, F32 20 ?hi, F32 12 (?hi - 1), F64 24 0x10000, F64 32 0x10000, F64 40 0x7ffeffff] @ F64 48 1 # [F8 56 1]) m1 = Some m'"
    using p by (simp add: fill_sysinfo_def Let_def)
  then have "ld64 m' (a + 48) = Some 1" by (rule put_fields_reads(1)) simp_all
  moreover have "put_fields a ([F32 0 0, F32 4 0, F32 8 pagesize, F32 16 1, F32 20 ?hi] @ F32 12 (?hi - 1) # [F64 24 0x10000, F64 32 0x10000, F64 40 0x7ffeffff, F64 48 1, F8 56 1]) m1 = Some m'"
    using p by (simp add: fill_sysinfo_def Let_def)
  then have "ld32 m' (a + 12) = Some (?hi - 1)" by (rule put_fields_reads(2)) simp_all
  ultimately show ?thesis by blast
qed

section \<open>Pages\<close>

text \<open>A failure of the host is taken for an address: the call succeeds with the address of all ones.\<close>

lemma NtAllocateVirtualMemory_hides_failure:
  assumes "RegionSize \<noteq> 0" "protection Protect = Some prot" "\<And>a n p x. mmap a n p x = MAP_FAILED"
  shows "NtAllocateVirtualMemory pagesize mmap BaseAddress RegionSize Protect
    = Some (STATUS_SUCCESS, MAP_FAILED, ROUND_TO_PAGES pagesize RegionSize)"
  using assms by (simp add: NtAllocateVirtualMemory_def Let_def MAP_FAILED_def)

end
