(* ===== verification/Boot_Data.thy ===== *)
theory Boot_Data
  imports Handles
begin

text \<open>
  The boot configuration stubs of \<^verbatim>\<open>libs/bcd/bcd.c\<close>: handles of stores and objects, and the text
  of a GUID.  \<^verbatim>\<open>calloc\<close> may fail; a freed handle must not be used.
\<close>

section \<open>GUIDs\<close>

record GUID =
  Data1 :: u32
  Data2 :: u16
  Data3 :: u16
  Data4 :: "u8 list"

definition upper_hex :: "nat \<Rightarrow> u8" where
  "upper_hex d = (if d < 10 then 0x30 + of_nat d else 0x37 + of_nat d)"

text \<open>\<^verbatim>\<open>%0nX\<close> of a number that has at most \<open>n\<close> digits.\<close>

fun hex_digits :: "nat \<Rightarrow> nat \<Rightarrow> u8 list" where
  "hex_digits 0 x = []"
| "hex_digits (Suc n) x = hex_digits n (x div 16) @ [upper_hex (x mod 16)]"

definition guid_text :: "GUID \<Rightarrow> u8 list" where
  "guid_text g =
     [0x7b] @ hex_digits 8 (unat (Data1 g)) @ [0x2d] @ hex_digits 4 (unat (Data2 g)) @ [0x2d] @ hex_digits 4 (unat (Data3 g))
     @ [0x2d] @ concat (map (\<lambda>b. hex_digits 2 (unat b)) (take 2 (Data4 g))) @ [0x2d]
     @ concat (map (\<lambda>b. hex_digits 2 (unat b)) (take 6 (drop 2 (Data4 g)))) @ [0x7d]"

definition format_guid :: "nat \<Rightarrow> GUID \<Rightarrow> u8 list" where
  "format_guid outlen g = snprintf_to outlen (guid_text g)"

section \<open>Stores and objects\<close>

definition HANDLE_BCDS :: u8 where "HANDLE_BCDS = 0x42"
definition HANDLE_BCDO :: u8 where "HANDLE_BCDO = 0x4f"

text \<open>The blocks in use; a pointer is an address.\<close>

type_synonym bcd = "nat \<Rightarrow> handle option"

text \<open>The block at \<open>a\<close>; the name always keeps its terminator.\<close>

definition bcd_alloc_handle :: "u8 \<Rightarrow> u8 list \<Rightarrow> nat \<Rightarrow> bcd \<Rightarrow> bcd" where
  "bcd_alloc_handle type nm a s = s(a \<mapsto>
     \<lparr>cookie = HANDLE_COOKIE, handle_type = type, desc = snprintf_to 512 (type # narrow_lit '':'' @ nm @ narrow_lit '' (by bcd)''),
      handle_name = strncpy_to 511 nm @ [0], event_type = NotificationEvent, signaled = 0, exited = False\<rparr>)"

text \<open>
  \<open>block\<close> is what \<^verbatim>\<open>calloc\<close> returns, 0 when it fails.  \<open>out\<close> and \<open>Identifier\<close> tell whether the
  pointers are given; the second result is \<^verbatim>\<open>*phStore\<close>.  \<open>None\<close> is the use of a block that is
  not there.
\<close>

definition open_handle :: "u8 \<Rightarrow> u8 list \<Rightarrow> nat \<Rightarrow> bcd \<Rightarrow> NTSTATUS \<times> nat \<times> bcd" where
  "open_handle type nm block s =
     (if block = 0 then (STATUS_NO_MEMORY, 0, s) else (STATUS_SUCCESS, block, bcd_alloc_handle type nm block s))"

text \<open>\<^verbatim>\<open>CHECK_HANDLE\<close> on an address: \<open>Some None\<close> when the handle passes.\<close>

definition check_bcd :: "u8 \<Rightarrow> nat \<Rightarrow> bcd \<Rightarrow> NTSTATUS option option" where
  "check_bcd type h s =
     (if h = 0 then Some (Some STATUS_ACCESS_VIOLATION)
      else if s h = None then None
      else Some (CHECK_HANDLE (s h) type))"

definition close_handle :: "u8 \<Rightarrow> nat \<Rightarrow> bcd \<Rightarrow> (NTSTATUS \<times> bcd) option" where
  "close_handle type h s = do {
     bad \<leftarrow> check_bcd type h s;
     case bad of Some st \<Rightarrow> Some (st, s) | None \<Rightarrow> Some (STATUS_SUCCESS, s(h := None))
   }"

text \<open>\<open>file_text\<close> is the printed pointer to the file name, if one is given.\<close>

definition BcdOpenStore :: "u8 list option \<Rightarrow> bool \<Rightarrow> nat \<Rightarrow> bcd \<Rightarrow> NTSTATUS \<times> nat \<times> bcd" where
  "BcdOpenStore file_text out block s =
     (if \<not> out then (STATUS_ACCESS_VIOLATION, 0, s)
      else open_handle HANDLE_BCDS (case file_text of Some t \<Rightarrow> take 63 t | None \<Rightarrow> narrow_lit ''<system>'') block s)"

definition BcdCloseStore :: "nat \<Rightarrow> bcd \<Rightarrow> (NTSTATUS \<times> bcd) option" where
  "BcdCloseStore = close_handle HANDLE_BCDS"

definition BcdForciblyUnloadStore :: "nat \<Rightarrow> bcd \<Rightarrow> (NTSTATUS \<times> bcd) option" where
  "BcdForciblyUnloadStore = close_handle HANDLE_BCDS"

definition BcdOpenObject :: "nat \<Rightarrow> GUID option \<Rightarrow> bool \<Rightarrow> nat \<Rightarrow> bcd \<Rightarrow> (NTSTATUS \<times> nat \<times> bcd) option" where
  "BcdOpenObject hStore Identifier out block s = do {
     bad \<leftarrow> check_bcd HANDLE_BCDS hStore s;
     case bad of
       Some st \<Rightarrow> Some (st, 0, s)
     | None \<Rightarrow>
         (case Identifier of
            None \<Rightarrow> Some (STATUS_ACCESS_VIOLATION, 0, s)
          | Some g \<Rightarrow>
              if \<not> out then Some (STATUS_ACCESS_VIOLATION, 0, s)
              else do { nm \<leftarrow> narrow (format_guid 40 g); Some (open_handle HANDLE_BCDO nm block s) })
   }"

definition BcdCloseObject :: "nat \<Rightarrow> bcd \<Rightarrow> (NTSTATUS \<times> bcd) option" where
  "BcdCloseObject = close_handle HANDLE_BCDO"

definition BcdGetElementData :: "nat \<Rightarrow> bool \<Rightarrow> bcd \<Rightarrow> NTSTATUS option" where
  "BcdGetElementData hObject size_given s = do {
     bad \<leftarrow> check_bcd HANDLE_BCDO hObject s;
     Some (case bad of Some st \<Rightarrow> st | None \<Rightarrow> if size_given then STATUS_OBJECT_NAME_NOT_FOUND else STATUS_ACCESS_VIOLATION)
   }"

section \<open>Lemmas\<close>

lemma upper_hex_inj: "a < 16 \<Longrightarrow> b < 16 \<Longrightarrow> upper_hex a = upper_hex b \<longleftrightarrow> a = b"
proof -
  have "distinct (map upper_hex [0..<16])" by code_simp
  then have "inj_on upper_hex {0..<16}" by (simp only: distinct_map set_upt)
  then show "a < 16 \<Longrightarrow> b < 16 \<Longrightarrow> upper_hex a = upper_hex b \<longleftrightarrow> a = b" by (auto dest: inj_onD)
qed

lemma hex_digits_length [simp]: "length (hex_digits n x) = n"
  by (induction n arbitrary: x) auto

lemma upper_hex_digit: "d < 16 \<Longrightarrow> upper_hex d \<noteq> 0"
proof -
  have "list_all (\<lambda>d. upper_hex d \<noteq> 0) [0..<16]" by code_simp
  then show "d < 16 \<Longrightarrow> upper_hex d \<noteq> 0" by (simp only: list_all_iff set_upt) auto
qed

lemma hex_digits_nonzero: "0 \<notin> set (hex_digits n x)"
  by (induction n arbitrary: x) (auto simp: upper_hex_digit dest: sym)

lemma hex_digits_inj: "hex_digits n x = hex_digits n y \<Longrightarrow> x < 16 ^ n \<Longrightarrow> y < 16 ^ n \<Longrightarrow> x = y"
proof (induction n arbitrary: x y)
  case (Suc n)
  then have "x div 16 = y div 16" "x mod 16 = y mod 16"
    by (auto simp: upper_hex_inj less_mult_imp_div_less ac_simps)
  then show ?case by (metis div_mult_mod_eq)
qed simp

section \<open>Texts of GUIDs\<close>

definition guid_ok :: "GUID \<Rightarrow> bool" where
  "guid_ok g \<longleftrightarrow> length (Data4 g) = 8"

lemma guid_ok_bytes:
  assumes "guid_ok g"
  obtains a b c d e f h i where "Data4 g = [a, b, c, d, e, f, h, i]"
proof -
  have "length (Data4 g) = Suc (Suc (Suc (Suc (Suc (Suc (Suc (Suc 0)))))))" using assms by (simp add: guid_ok_def)
  then show thesis using that by (auto simp: length_Suc_conv)
qed

lemma hex_digits_word_inj:
  "hex_digits 8 (unat x) = hex_digits 8 (unat y) \<longleftrightarrow> x = y"
  "hex_digits 4 (unat v) = hex_digits 4 (unat w) \<longleftrightarrow> v = w"
  "hex_digits 2 (unat b) = hex_digits 2 (unat c) \<longleftrightarrow> b = c"
  for x y :: u32 and v w :: u16 and b c :: u8
proof -
  have "unat x < 16 ^ 8" "unat y < 16 ^ 8" using unsigned_less [of x] unsigned_less [of y] by simp_all
  then show "hex_digits 8 (unat x) = hex_digits 8 (unat y) \<longleftrightarrow> x = y" by (metis hex_digits_inj word_unat_eq_iff)
  have "unat v < 16 ^ 4" "unat w < 16 ^ 4" using unsigned_less [of v] unsigned_less [of w] by simp_all
  then show "hex_digits 4 (unat v) = hex_digits 4 (unat w) \<longleftrightarrow> v = w" by (metis hex_digits_inj word_unat_eq_iff)
  have "unat b < 16 ^ 2" "unat c < 16 ^ 2" using unsigned_less [of b] unsigned_less [of c] by simp_all
  then show "hex_digits 2 (unat b) = hex_digits 2 (unat c) \<longleftrightarrow> b = c" by (metis hex_digits_inj word_unat_eq_iff)
qed

lemma guid_text_length: "guid_ok g \<Longrightarrow> length (guid_text g) = 38"
  by (erule guid_ok_bytes) (simp add: guid_text_def)

lemma guid_text_inj: "guid_ok g \<Longrightarrow> guid_ok g' \<Longrightarrow> guid_text g = guid_text g' \<Longrightarrow> g = g'"
  by (elim guid_ok_bytes) (simp add: guid_text_def hex_digits_word_inj)

lemma guid_text_nonzero: "0 \<notin> set (guid_text g)"
  using hex_digits_nonzero by (auto simp: guid_text_def simp del: hex_digits.simps)

lemma format_guid_text: "guid_ok g \<Longrightarrow> narrow (format_guid 40 g) = Some (guid_text g)"
  unfolding format_guid_def by (subst snprintf_to_narrow) (simp_all add: guid_text_nonzero guid_text_length)

definition one_store :: bcd where
  "one_store = snd (snd (BcdOpenStore None True 8 (\<lambda>_. None)))"

definition guid_of :: "u32 \<Rightarrow> GUID" where
  "guid_of n = \<lparr>Data1 = n, Data2 = 2, Data3 = 3, Data4 = [1, 2, 3, 4, 5, 6, 7, 8]\<rparr>"

lemma check_bcd_refuses: "check_bcd k h s = Some (Some st) \<Longrightarrow> st \<noteq> STATUS_SUCCESS"
  by (auto simp: check_bcd_def CHECK_HANDLE_def nt_status split: if_splits option.splits)

lemma BcdOpenObject_opens:
  assumes "BcdOpenObject store (Some g) True a s = Some (STATUS_SUCCESS, h, s')" "guid_ok g"
  shows "s' = bcd_alloc_handle HANDLE_BCDO (guid_text g) h s"
  using assms check_bcd_refuses [of HANDLE_BCDS store s]
  by (auto simp: BcdOpenObject_def open_handle_def format_guid_text bind_eq_Some_conv STATUS_SUCCESS_def STATUS_NO_MEMORY_def
      split: option.splits if_splits)

lemma opens_in_one_store:
  assumes "s 8 = one_store 8" "a \<noteq> 0"
  shows "\<exists>s'. BcdOpenObject 8 (Some (guid_of n)) True a s = Some (STATUS_SUCCESS, a, s') \<and> (a \<noteq> 8 \<longrightarrow> s' 8 = one_store 8)"
proof -
  have "check_bcd HANDLE_BCDS 8 s = Some None"
    using assms(1) by (simp add: check_bcd_def one_store_def BcdOpenStore_def open_handle_def bcd_alloc_handle_def CHECK_HANDLE_def)
  moreover have "guid_ok (guid_of n)" by (simp add: guid_ok_def guid_of_def)
  ultimately show ?thesis using assms by (simp add: BcdOpenObject_def format_guid_text open_handle_def bcd_alloc_handle_def)
qed

text \<open>
  An object that is opened in a store is named by its GUID: the name is the full text, and two
  objects have the same name only if their GUIDs are the same.
\<close>

theorem BcdOpenObject_names:
  assumes "BcdOpenObject store (Some g) True a s = Some (STATUS_SUCCESS, h, s1)"
    and "BcdOpenObject store (Some g') True a' s1 = Some (STATUS_SUCCESS, h', s2)"
    and "guid_ok g" "guid_ok g'" "h' \<noteq> h"
  shows "(\<exists>x. s2 h = Some x \<and> narrow (handle_name x) = Some (guid_text g) \<and> handle_type x = HANDLE_BCDO)
    \<and> (map_option handle_name (s2 h) = map_option handle_name (s2 h') \<longleftrightarrow> g = g')"
proof -
  let ?h = "\<lambda>g. \<lparr>cookie = HANDLE_COOKIE, handle_type = HANDLE_BCDO, desc = snprintf_to 512 (HANDLE_BCDO # narrow_lit '':'' @ guid_text g @ narrow_lit '' (by bcd)''),
      handle_name = strncpy_to 511 (guid_text g) @ [0], event_type = NotificationEvent, signaled = 0, exited = False\<rparr>"
  have 1: "s1 = s(h \<mapsto> ?h g)" "s2 = s1(h' \<mapsto> ?h g')"
    using BcdOpenObject_opens [OF assms(1,3)] BcdOpenObject_opens [OF assms(2,4)] by (simp_all add: bcd_alloc_handle_def)
  have n: "narrow (strncpy_to 511 (guid_text x) @ [0]) = Some (guid_text x)" if "guid_ok x" for x
  proof -
    have "narrow (strncpy_to 511 (guid_text x)) = Some (guid_text x)"
      by (rule strncpy_to_short) (simp_all add: guid_text_length [OF that] guid_text_nonzero)
    then show ?thesis by (auto simp: narrow_prefix)
  qed
  have "strncpy_to 511 (guid_text g) @ [0] = strncpy_to 511 (guid_text g') @ [0] \<longleftrightarrow> g = g'"
    using n [OF assms(3)] n [OF assms(4)] guid_text_inj [OF assms(3,4)] by (metis option.inject)
  then show ?thesis using 1 n [OF assms(3)] assms(5) by simp
qed

theorem BcdOpenObject_names_witness:
  "\<exists>s1 s2. BcdOpenObject 8 (Some (guid_of 1)) True 16 one_store = Some (STATUS_SUCCESS, 16, s1)
    \<and> BcdOpenObject 8 (Some (guid_of 2)) True 24 s1 = Some (STATUS_SUCCESS, 24, s2)
    \<and> map_option handle_name (s2 16) \<noteq> map_option handle_name (s2 24)"
proof -
  obtain s1 where 1: "BcdOpenObject 8 (Some (guid_of 1)) True 16 one_store = Some (STATUS_SUCCESS, 16, s1)" "s1 8 = one_store 8"
    using opens_in_one_store [of one_store 16 1] by auto
  obtain s2 where 2: "BcdOpenObject 8 (Some (guid_of 2)) True 24 s1 = Some (STATUS_SUCCESS, 24, s2)"
    using opens_in_one_store [of s1 24 2] 1(2) by auto
  have g: "guid_ok (guid_of 1)" "guid_ok (guid_of 2)" "guid_of 1 \<noteq> guid_of 2" by (simp_all add: guid_ok_def guid_of_def)
  have "map_option handle_name (s2 16) = map_option handle_name (s2 24) \<longleftrightarrow> guid_of 1 = guid_of 2"
    using BcdOpenObject_names [OF 1(1) 2 g(1,2)] by simp
  then show ?thesis using 1(1) 2 g(3) by blast
qed

section \<open>Closing\<close>

text \<open>A handle of the other kind is refused and kept; a closed handle must not be used again.\<close>

lemma close_handle_kinds:
  assumes "s h = Some x" "h \<noteq> 0" "cookie x = HANDLE_COOKIE"
  shows "close_handle k h s = (if handle_type x = k then Some (STATUS_SUCCESS, s(h := None)) else Some (STATUS_INVALID_PARAMETER, s))"
  using assms by (simp add: close_handle_def check_bcd_def CHECK_HANDLE_def)

lemma closed_twice:
  assumes "close_handle k h s = Some (STATUS_SUCCESS, s')"
  shows "close_handle k' h s' = None"
proof -
  obtain bad where bad: "check_bcd k h s = Some bad" using assms by (auto simp: close_handle_def bind_eq_Some_conv)
  then have "bad = None" using assms check_bcd_refuses [of k h s] by (cases bad) (auto simp: close_handle_def)
  then have "h \<noteq> 0" "s' h = None" using bad assms by (auto simp: close_handle_def check_bcd_def split: if_splits)
  then show ?thesis by (simp add: close_handle_def check_bcd_def)
qed

end
