(* ===== verification/Startup_Spec.thy ===== *)
theory Startup_Spec
  imports Startup System_Info_Spec Boot_Data
begin

text \<open>
  The command line a program sees is what the user typed as long as it fits.
\<close>

section \<open>Storing strings\<close>

lemma store_wide_fits: "i + length s \<le> length b \<Longrightarrow> store_wide b i s = Some (take i b @ s @ drop (i + length s) b)"
proof (induction s arbitrary: b i)
  case (Cons ch s)
  have "take (Suc i) (b[i := ch]) = take i b @ [ch]" using Cons.prems by (simp add: take_Suc_conv_app_nth)
  then show ?case using Cons.IH [of "Suc i" "b[i := ch]"] Cons.prems by (simp add: faults)
qed simp

lemma store_wide_overruns: "store_wide b i s = Some b' \<Longrightarrow> i \<le> length b \<Longrightarrow> i + length s \<le> length b \<and> length b' = length b"
  by (induction s arbitrary: b i) (fastforce simp: bind_eq_Some_conv wr_eq_Some_iff)+

lemma store_chars_wide: "store_chars b i s = store_wide b i (map scast s)"
  by (induction s arbitrary: b i) (auto split: bind_splits)

lemma copy_arg_fits: "c + length arg \<le> length b \<Longrightarrow> length b \<le> 2047 \<Longrightarrow>
    copy_arg b c arg = Some (take c b @ map scast arg @ drop (c + length arg) b, c + length arg)"
proof (induction arg arbitrary: b c)
  case (Cons ch arg)
  have "take (Suc c) (b[c := scast ch]) = take c b @ [scast ch]" using Cons.prems by (simp add: take_Suc_conv_app_nth)
  then show ?case using Cons.IH [of "Suc c" "b[c := scast ch]"] Cons.prems by (simp add: faults)
qed simp

lemma copy_arg_overruns: "copy_arg b c arg = Some (b', c') \<Longrightarrow> c \<le> length b \<Longrightarrow> length b < 2047 \<Longrightarrow>
    c' = c + length arg \<and> c' \<le> length b \<and> length b' = length b"
  by (induction arg arbitrary: b c) (fastforce simp: bind_eq_Some_conv wr_eq_Some_iff split: if_splits)+

section \<open>The command line\<close>

definition arg_text :: "u8 list \<Rightarrow> u16 list" where
  "arg_text arg = (if is_dev arg then VOLUME_PREFIX @ map scast arg @ [0x7d] else map scast arg)"

definition args_text :: "u8 list list \<Rightarrow> u16 list" where
  "args_text args = concat (map (\<lambda>arg. 0x20 # arg_text arg) args)"

text \<open>The path of the image and the arguments with spaces between; a device becomes a volume.\<close>

definition line :: "u8 list \<Rightarrow> u8 list list \<Rightarrow> u16 list" where
  "line exec args = map scast exec @ args_text args"

lemma length_prefix: "length VOLUME_PREFIX = 7"
  by (simp add: VOLUME_PREFIX_def)

lemma wr_fits: "i < length b \<Longrightarrow> wr b i v = Some (take i b @ v # drop (i + 1) b)"
  by (simp add: faults upd_conv_take_nth_drop)

lemma append_arg_fits:
  assumes "c + length (arg_text arg) + 1 \<le> length b" "length b \<le> 2047"
  shows "append_arg b c arg = Some (take c b @ 0x20 # arg_text arg @ drop (c + length (arg_text arg) + 1) b, c + length (arg_text arg) + 1)"
proof (cases "is_dev arg")
  case True
  obtain pre where pre: "pre = take c b @ 0x20 # VOLUME_PREFIX" by blast
  have n: "c + length arg + 9 \<le> length b" using assms(1) True by (simp add: arg_text_def length_prefix)
  then have lp: "length pre = c + 8" by (simp add: pre length_prefix)
  have "wr b c 0x20 = Some (take c b @ 0x20 # drop (c + 1) b)" by (rule wr_fits) (use n in simp)
  moreover have "store_wide (take c b @ 0x20 # drop (c + 1) b) (c + 1) VOLUME_PREFIX = Some (pre @ drop (c + 8) b)"
    by (subst store_wide_fits) (use n in \<open>simp_all add: pre length_prefix min_def add.commute\<close>)
  moreover have "copy_arg (pre @ drop (c + 8) b) (c + 8) arg = Some (pre @ map scast arg @ drop (c + 8 + length arg) b, c + 8 + length arg)"
    by (subst copy_arg_fits) (use n assms(2) lp in \<open>simp_all add: add.commute add.left_commute\<close>)
  moreover have "wr (pre @ map scast arg @ drop (c + 8 + length arg) b) (c + 8 + length arg) 0x7d
      = Some (pre @ map scast arg @ 0x7d # drop (c + 9 + length arg) b)"
    by (subst wr_fits) (use n lp in \<open>simp_all add: add.commute add.left_commute\<close>)
  ultimately show ?thesis using True by (simp add: append_arg_def Let_def arg_text_def length_prefix pre add.commute add.left_commute)
next
  case False
  let ?b1 = "take c b @ 0x20 # drop (c + 1) b"
  have n: "c + length arg + 1 \<le> length b" using assms(1) False by (simp add: arg_text_def)
  have "wr b c 0x20 = Some ?b1" by (rule wr_fits) (use n in simp)
  moreover have "copy_arg ?b1 (c + 1) arg = Some (take c b @ 0x20 # map scast arg @ drop (c + 1 + length arg) b, c + 1 + length arg)"
    by (subst copy_arg_fits) (use n assms(2) in \<open>simp_all add: min_def add.commute\<close>)
  ultimately show ?thesis using False by (simp add: append_arg_def Let_def arg_text_def add.commute add.left_commute)
qed

lemma append_arg_overruns:
  assumes "append_arg b c arg = Some (b', c')" "c \<le> length b" "length b < 2047"
  shows "c' = c + length (arg_text arg) + 1 \<and> c' \<le> length b \<and> length b' = length b"
proof -
  obtain b1 where b1: "wr b c 0x20 = Some b1" using assms(1) by (auto simp: append_arg_def bind_eq_Some_conv)
  then have l1: "length b1 = length b" "c < length b" by (auto simp: wr_eq_Some_iff)
  show ?thesis
  proof (cases "is_dev arg")
    case True
    then obtain b2 b3 c3 where 2: "store_wide b1 (c + 1) VOLUME_PREFIX = Some b2" "copy_arg b2 (c + 8) arg = Some (b3, c3)"
      "wr b3 c3 0x7d = Some b'" "c' = c3 + 1"
      using assms(1) b1 by (auto simp: append_arg_def Let_def bind_eq_Some_conv add.commute)
    have l2: "c + 8 \<le> length b \<and> length b2 = length b" using store_wide_overruns [OF 2(1)] l1 by (simp add: length_prefix)
    then show ?thesis using copy_arg_overruns [OF 2(2)] assms(3) 2(3,4) True
      by (simp add: arg_text_def length_prefix wr_eq_Some_iff)
  next
    case False
    then have "copy_arg b1 (c + 1) arg = Some (b', c')"
      using assms(1) b1 by (auto simp: append_arg_def Let_def bind_eq_Some_conv)
    from copy_arg_overruns [OF this] show ?thesis using l1 assms(3) False by (simp add: arg_text_def)
  qed
qed

lemma append_args_fits:
  "c + length (args_text args) \<le> length b \<Longrightarrow> length b \<le> 2047 \<Longrightarrow>
     append_args b c args = Some (take c b @ args_text args @ drop (c + length (args_text args)) b, c + length (args_text args))"
proof (induction args arbitrary: b c)
  case (Cons arg args)
  have e: "args_text (arg # args) = 0x20 # arg_text arg @ args_text args" by (simp add: args_text_def)
  let ?b = "take c b @ 0x20 # arg_text arg @ drop (c + length (arg_text arg) + 1) b" and ?c = "c + length (arg_text arg) + 1"
  have "append_arg b c arg = Some (?b, ?c)" by (rule append_arg_fits) (use Cons.prems in \<open>auto simp: e\<close>)
  moreover have "append_args ?b ?c args = Some (take ?c ?b @ args_text args @ drop (?c + length (args_text args)) ?b, ?c + length (args_text args))"
    by (rule Cons.IH) (use Cons.prems in \<open>auto simp: e\<close>)
  ultimately show ?case using Cons.prems by (simp add: e min_def add.commute add.left_commute)
qed (simp add: args_text_def)

lemma append_args_overruns:
  "append_args b c args = Some (b', c') \<Longrightarrow> c \<le> length b \<Longrightarrow> length b < 2047 \<Longrightarrow>
     c' = c + length (args_text args) \<and> length b' = length b"
proof (induction args arbitrary: b c)
  case (Cons arg args)
  then obtain b1 c1 where 1: "append_arg b c arg = Some (b1, c1)" "append_args b1 c1 args = Some (b', c')"
    by (auto simp: bind_eq_Some_conv)
  have "c1 = c + length (arg_text arg) + 1 \<and> c1 \<le> length b \<and> length b1 = length b"
    by (rule append_arg_overruns [OF 1(1) Cons.prems(2,3)])
  then show ?case using Cons.IH [OF 1(2)] Cons.prems(3) by (simp add: args_text_def)
qed (simp add: args_text_def)

lemma length_default: "length default_commandline = 1024"
  by (simp add: default_commandline_def)

lemma build_commandline_exact:
  assumes "length exec \<le> length path" "length path < 65536" "take (length exec) path = map scast exec"
  shows "build_commandline path (of_nat (length exec)) args =
    (if length (line exec args) < 1024 then Some (line exec args @ 0 # drop (length (line exec args) + 1) default_commandline) else None)"
proof -
  let ?n = "length exec"
  let ?b = "take ?n path @ drop ?n default_commandline"
  have u: "unat (of_nat ?n :: u16) = ?n" using assms(1,2) by (simp add: unat_of_nat take_bit_eq_mod)
  have ln: "length (line exec args) = ?n + length (args_text args)" by (simp add: line_def)
  show ?thesis
  proof (cases "?n \<le> 1024")
    case True
    have lb: "length ?b = 1024" using True assms(1) by (simp add: length_default)
    have eq: "build_commandline path (of_nat ?n) args = do { (b, c) \<leftarrow> append_args ?b ?n args; wr b c 0 }"
      using True assms(1) by (simp add: build_commandline_def u)
    show ?thesis
    proof (cases "length (line exec args) < 1024")
      case True
      have "append_args ?b ?n args = Some (take ?n ?b @ args_text args @ drop (?n + length (args_text args)) ?b, ?n + length (args_text args))"
        by (rule append_args_fits) (use True lb ln in auto)
      moreover have "take ?n ?b = map scast exec" using assms by simp
      moreover have "drop (?n + length (args_text args)) ?b = drop (length (line exec args)) default_commandline"
        using assms(1) by (simp add: ln min_def)
      ultimately have "append_args ?b ?n args = Some (line exec args @ drop (length (line exec args)) default_commandline, length (line exec args))"
        by (simp add: line_def)
      then show ?thesis using True eq wr_fits [of "length (line exec args)" "line exec args @ drop (length (line exec args)) default_commandline" 0]
        by (simp add: length_default)
    next
      case False
      have "build_commandline path (of_nat ?n) args = None"
      proof (cases "append_args ?b ?n args")
        case (Some p)
        then obtain b' c' where "append_args ?b ?n args = Some (b', c')" by (cases p) auto
        moreover have "c' = ?n + length (args_text args) \<and> length b' = length ?b"
          by (rule append_args_overruns [OF calculation]) (use True lb in auto)
        ultimately show ?thesis using False eq lb ln by (simp add: faults)
      qed (simp add: eq)
      then show ?thesis using False by simp
    qed
  next
    case False
    then show ?thesis by (simp add: build_commandline_def u ln)
  qed
qed

text \<open>
  C24. When the path of the image and the arguments fit the 1024 characters of the buffer, the
  program finds them as its command line, separated by spaces and with devices written as volumes;
  when they do not, the buffer is overrun.
\<close>

theorem command_line_built:
  assumes "1025 \<le> length mem" "length mem < 65536"
  shows "main_params (Some exec) args mem =
    (if length (line exec args) < 1024 then
       Some \<lparr>tail = (map scast exec @ drop (length exec) mem) ! 0 # line exec args
                @ 0 # drop (length (line exec args) + 1) default_commandline @ drop 1025 mem,
         image_Length = of_nat (length exec), image_MaximumLength = of_nat (length exec) + 1,
         cmd_Length = 2046, cmd_MaximumLength = 2048\<rparr>
     else None)"
proof (cases "length exec \<le> length mem")
  case True
  let ?m = "map scast exec @ drop (length exec) mem" and ?l = "line exec args"
  let ?c = "?l @ 0 # drop (length ?l + 1) default_commandline"
  have s: "store_chars mem 0 exec = Some ?m"
    using store_wide_fits [of 0 "map scast exec" mem] True by (simp add: store_chars_wide)
  have b: "build_commandline ?m (of_nat (length exec)) args = (if length ?l < 1024 then Some ?c else None)"
    by (rule build_commandline_exact) (use True assms(2) in auto)
  show ?thesis
  proof (cases "length ?l < 1024")
    case l: True
    have n: "length exec < 1024" using l by (simp add: line_def)
    have "length ?c = 1024" using l by (simp add: length_default)
    then have "store_wide ?m 1 ?c = Some (take 1 ?m @ ?c @ drop (1 + 1024) ?m)"
      using store_wide_fits [of 1 ?c ?m] True assms(1) by simp
    moreover have "take 1 ?m = [?m ! 0]" using assms(1) True by (cases ?m) auto
    moreover have "drop (1 + 1024) ?m = drop 1025 mem" using n by simp
    ultimately show ?thesis using l s b by (simp add: main_params_def Let_def)
  next
    case False
    then show ?thesis using s b by (simp add: main_params_def Let_def)
  qed
next
  case False
  then have "store_chars mem 0 exec = None"
    using store_wide_overruns [of mem 0 "map scast exec"] by (cases "store_wide mem 0 (map scast exec)") (auto simp: store_chars_wide)
  then show ?thesis using False assms(1) by (simp add: main_params_def line_def)
qed

theorem command_line_built_witness:
  "map_option (\<lambda>p. take 22 (tail p)) (main_params (Some (narrow_lit ''ac'')) [narrow_lit ''-p'', narrow_lit ''/dev/x''] (replicate 1025 0))
   = Some (map of_char ''aac -p Volume{/dev/x}'' @ [0])"
proof -
  let ?e = "narrow_lit ''ac''" and ?a = "[narrow_lit ''-p'', narrow_lit ''/dev/x'']"
  have l: "line ?e ?a = map of_char ''ac -p Volume{/dev/x}''" by code_simp
  then show ?thesis
    using command_line_built [of "replicate 1025 0" ?e ?a] by (simp add: narrow_lit_def)
qed

text \<open>The command line is stored over the path of the image from its second character on.\<close>

lemma image_path_overwritten:
  assumes "main_params (Some exec) args mem = Some p" "1025 \<le> length mem" "length mem < 65536" "exec \<noteq> []"
  shows "take (length exec) (tail p) = map scast (hd exec # take (length exec - 1) exec)"
proof -
  obtain a list where e: "exec = a # list" using assms(4) by (cases exec) auto
  have "tail p = scast a # (map scast exec @ args_text args @ 0 # drop (length (line exec args) + 1) default_commandline @ drop 1025 mem)"
    using assms(1) command_line_built [OF assms(2,3), of exec args] by (auto simp: e line_def split: if_splits)
  then show ?thesis by (simp add: e take_map del: list.map) (simp add: take_map)
qed

lemma any_dev_prefix: "is_dev (narrow_lit ''/developer'')"
  by code_simp

section \<open>The stack\<close>

lemma PESALIGN64_pages:
  assumes "0 < unat a" "unat v + unat a < 2 ^ 64"
  shows "unat a dvd unat (PESALIGN64 v a)" "unat v \<le> unat (PESALIGN64 v a)" "unat (PESALIGN64 v a) < unat v + unat a"
proof -
  let ?k = "unat v div unat a + (if unat v mod unat a \<noteq> 0 then 1 else 0)"
  obtain q r where q: "unat v div unat a = q" "unat v mod unat a = r" "unat v = q * unat a + r" "r < unat a"
    using assms(1) by (metis div_mult_mod_eq mod_less_divisor)
  have k: "unat v \<le> ?k * unat a" "?k * unat a < unat v + unat a" using q(4) unfolding q(1,2) by (auto simp: q(3))
  have z: "v mod a = 0 \<longleftrightarrow> unat v mod unat a = 0" by (simp add: unat_eq_0 [symmetric] unat_mod_distrib)
  have "?k \<le> ?k * unat a" using assms(1) by simp
  then have k64: "?k < 2 ^ 64" using k(2) assms(2) by linarith
  have "unat (v div a + (if v mod a \<noteq> 0 then 1 else 0)) = ?k"
  proof (cases "unat v mod unat a = 0")
    case True
    then show ?thesis by (simp add: z unat_div_distrib)
  next
    case False
    then show ?thesis using k64 by (simp add: z unat_word_ariths unat_div_distrib)
  qed
  moreover have "?k * unat a < 2 ^ 64" using k(2) assms(2) by linarith
  ultimately have "unat (PESALIGN64 v a) = ?k * unat a"
    using assms(1) by (cases "a = 0") (simp_all add: PESALIGN64_def unat_word_ariths(2))
  then show "unat a dvd unat (PESALIGN64 v a)" "unat v \<le> unat (PESALIGN64 v a)" "unat (PESALIGN64 v a) < unat v + unat a"
    using k by simp_all
qed

end
