(* ===== verification/Spec2Isabelle.thy ===== *)
theory Spec2Isabelle
  imports Import_Exports Pe_Headers Bitmap_Fit Crc Random_Gen Large_Int Time Splay_Spec Generic_Table_Spec Avl_Table_Spec Lznt1_Spec Wide_Strings_Spec Keyboard_Spec Security_Descriptor Events_Spec Unicode_Strings_Spec Registry_Spec Heap_Spec Format_Spec Debug_Print Device_Control_Spec Files_Spec Threads_Spec Messages_Spec Startup_Spec
begin

text \<open>
  nloader: a loader for native Windows NT executables with a user-space reimplementation of
  \<^verbatim>\<open>ntdll.dll\<close>.

  The program.  \<^verbatim>\<open>nloader.c\<close> opens an executable, builds its image path and command line and calls
  \<^verbatim>\<open>setup_nloader\<close> of \<^verbatim>\<open>loader.c\<close>.  That checks the headers of the file, maps its sections, points every
  imported function at the function of the same name in the export tables of the two libraries
  the program brings along (\<^verbatim>\<open>libs/ntdll\<close>, \<^verbatim>\<open>libs/bcd\<close>), sets the protections of the pages, fills in the
  blocks a native program reads its environment from, and jumps to the entry point.  From there on
  the guest runs on those libraries: strings, bitmaps, trees, tables, heap, registry, security
  descriptors and messages in memory, and files, devices, keyboard, events, threads and time on
  the host.

  Which theory models which code (paths below \<^verbatim>\<open>src/\<close>; operations have the names of the code, with
  the prefix \<^verbatim>\<open>rpl_\<close> where the code has it as \<^verbatim>\<open>rpl_\<close> or \<^verbatim>\<open>rpl__\<close>; helpers carry other names, and a loop is
  a function of its own).

  \<^item> \<open>Prelude\<close>: the machine integers, checked memory access, the option monad.  \<open>Byte_Memory\<close>: flat
    little endian memory, for code that casts pointers.  \<open>Nt_Status\<close>: status codes and
    \<^verbatim>\<open>CHECK_POINTER\<close>.  \<open>Runs\<close>: runs of labelled step relations and the locales \<open>invariant\<close> and
    \<open>simulation\<close>, which the concurrent parts instantiate.
  \<^item> The loader.  \<open>Pe_Loader\<close> (\<^verbatim>\<open>loader.c\<close>: header checks, sections, imports, stubs, protections) with
    \<open>Pe_Sample\<close> and \<open>Pe_Loader_Spec\<close> (sections and pages), \<open>Pe_Imports\<close> (the import directory, described
    apart from the loops of the loader) and \<open>Pe_Headers\<close> (the fields of the headers in the file and the form of the image);
    \<open>Exports\<close> (\<^verbatim>\<open>libs/ntdll/exports.c\<close>, \<^verbatim>\<open>libs/bcd/exports.c\<close>) with \<open>Ntdll_Sample\<close>, and \<open>Import_Exports\<close>, where the
    loader meets the export tables;
    \<open>Startup\<close>, \<open>Startup_Spec\<close> (\<^verbatim>\<open>nloader.c\<close>, the thread and process blocks of \<^verbatim>\<open>loader.c\<close>);
    \<open>Boot_Data\<close> (\<^verbatim>\<open>libs/bcd/bcd.c\<close>).
  \<^item> Bit maps.  \<open>Bitmap\<close> (\<^verbatim>\<open>bitmap.c\<close>), \<open>Bitmap_Runs\<close>, \<open>Bitmap_Update\<close>, \<open>Bitmap_Search\<close>,
    \<open>Bitmap_Spec\<close> and, for bitmaps that fill their buffer exactly, \<open>Bitmap_Fit\<close>.
    The buffer is a list of 32-bit words; the abstraction is the list of its bits.
  \<^item> Trees.  \<open>Links\<close> (\<^verbatim>\<open>rtl.h\<close>): nodes in a heap, a map from addresses to records of parent, left and
    right, a focus in a context as the abstraction; \<open>Splay_Links\<close>, \<open>Splay_Proofs\<close>, \<open>Splay_Spec\<close>
    (\<^verbatim>\<open>splaytree.c\<close>).  \<open>Generic_Table\<close> (\<^verbatim>\<open>splay.c\<close>), with \<open>Top_Down\<close>, \<open>Top_Down_Loop\<close>,
    \<open>Generic_Table_Splay\<close>, \<open>Generic_Table_Ring\<close> and \<open>Generic_Table_Spec\<close>.  \<open>Avl_Links\<close> (\<^verbatim>\<open>c/avlsupp.c\<close>,
    \<^verbatim>\<open>rtlavl.h\<close>) and \<open>Avl_Table\<close> (\<^verbatim>\<open>avltable.c\<close>), with \<open>Avl_Rotation\<close>, \<open>Avl_Insertion\<close>,
    \<open>Avl_Deletion\<close> (rebalancing, and the climbs on contexts) and \<open>Avl_Table_Spec\<close>.
  \<^item> Text and data.  \<open>Wide_Strings\<close>, \<open>Wide_Strings_Spec\<close> (\<^verbatim>\<open>crt.c\<close>); \<open>Case_Map\<close> (\<^verbatim>\<open>wine_casemap.h\<close>);
    \<open>Unicode_Strings\<close>, \<open>Unicode_Strings_Spec\<close> (the counted strings of \<^verbatim>\<open>rtl.c\<close>); \<open>Messages\<close>,
    \<open>Messages_Spec\<close> (\<^verbatim>\<open>RtlFindMessage\<close>, \<^verbatim>\<open>RtlFormatMessage\<close>); \<open>Format\<close>, \<open>Format_Spec\<close>, \<open>Debug_Print\<close>
    (\<^verbatim>\<open>format.c\<close>); \<open>Lznt1\<close>, \<open>Lznt1_Spec\<close> (\<^verbatim>\<open>lznt1.c\<close>); \<open>Crc\<close> (\<^verbatim>\<open>crc32.c\<close>, \<^verbatim>\<open>crc64.c\<close>);
    \<open>Random_Gen\<close> (\<^verbatim>\<open>random.c\<close>); \<open>Large_Int\<close> (\<^verbatim>\<open>large_int.c\<close>); \<open>Security\<close>, \<open>Security_Descriptor\<close>
    (\<^verbatim>\<open>sd.c\<close>); \<open>Heap\<close>, \<open>Heap_Spec\<close> (\<^verbatim>\<open>heap.c\<close>); \<open>Registry\<close>, \<open>Registry_Spec\<close> (\<^verbatim>\<open>registry.c\<close>).
  \<^item> Objects and the host.  \<open>Handles\<close> (\<^verbatim>\<open>ntdll.h\<close>, \<^verbatim>\<open>str.c\<close>); \<open>Unix_Files\<close> (names, inodes and descriptors
    of the host), \<open>Files\<close>, \<open>Files_Spec\<close> (\<^verbatim>\<open>io.c\<close>); \<open>Keyboard\<close>, \<open>Keyboard_Spec\<close> (the keyboard of
    \<^verbatim>\<open>io.c\<close>, \<^verbatim>\<open>scancodes.c\<close>); \<open>Device_Control\<close>, \<open>Device_Control_Spec\<close> (\<^verbatim>\<open>ioctl.c\<close>); \<open>Events\<close>,
    \<open>Events_Spec\<close>, \<open>Timeouts\<close> (\<^verbatim>\<open>sync.c\<close>); \<open>Threads\<close>, \<open>Threads_Spec\<close> (\<^verbatim>\<open>thread.c\<close>, \<^verbatim>\<open>swr.c\<close>);
    \<open>Time\<close>, \<open>Time_Fields\<close> (\<^verbatim>\<open>time.c\<close>, \<^verbatim>\<open>timefields.c\<close>); \<open>System_Info\<close>, \<open>System_Info_Spec\<close>
    (\<^verbatim>\<open>ntdll.c\<close>, \<^verbatim>\<open>version.c\<close>, \<^verbatim>\<open>mm.c\<close>, \<^verbatim>\<open>etw.c\<close>).

  How the code is represented.  A function of the source is a function on its arguments and the
  state it reads, which returns its result and the new state.  \<open>None\<close> is a fault: an access outside
  the memory that is modelled, a call of \<^verbatim>\<open>abort\<close>, or a loop that does not end; an error the code
  reports is a status or an error value of the result.  Integers are words of their width.  Loops
  with an obvious measure are \<open>function\<close>s; loops over linked structures, which may run for ever on
  a ring, are \<open>partial_function (option)\<close>, and that they return is part of what is proved (splaying, the lookup and
  the insertion of the tables, the decompressor).  No definition uses fuel.
  Bounds are those of the code: 1024 characters for the command line and for
  the buffers in which names are converted for the log, 512 for the description of a handle.

  Concurrency.  What one thread does without giving up a lock is one step; events, keyboard reads,
  critical sections, threads and sequences of file calls are labelled step relations, and their
  properties hold after every run.  \<open>invariant\<close> and \<open>simulation\<close> are proved for the step relations in the theories of
  their components.

  Interfaces.  \<open>run_search\<close> (bit runs): one search loop for set and for clear bits, interpreted on both
  length routines.  \<open>checksum\<close>, extended by \<open>lossless_checksum\<close>: a table-driven loop that divides,
  interpreted on both checksums.  \<open>allocator\<close>: a store of byte strings behind pointers, interpreted on
  the heap.  \<open>invariant\<close> and \<open>simulation\<close>: interpreted for events (what is signaled, and that it
  behaves like a flag), critical sections, threads, and the files that the mount table protects.

  What the lemmas show.  The loader: an accepted file gives a well-formed image whose sections hold
  the bytes of the file and whose imports lead to the functions of the export tables, one stub
  each.  Its imports are those of a description of the import directory that does not use the loops of the loader, and
  each import from \<^verbatim>\<open>ntdll\<close> or \<^verbatim>\<open>bcd\<close> has the function that its table exports under that name, or null.  Bit maps: each routine against
  the bit sequence, with the cases in which the word behind the buffer is touched.  Trees and tables: order, contents and
  termination of splaying, neighbours, lookup, insertion, deletion and enumeration, and that
  the AVL operations keep the balances, the counter and the depth right.  Text: round trips of
  conversions, what formatting prints, what a message expands to.  Safety: accepted security
  descriptors, decompression and device control stay inside what the caller names; a mounted device
  is never written to; no keyboard read is completed twice; critical sections exclude.  Liveness:
  an event that is set lets a waiter pass.

  What comes from outside.  The C library and the kernel are arguments or a model with the behaviour
  their documentation gives: \<^verbatim>\<open>memcmp\<close>, \<^verbatim>\<open>snprintf\<close> of \<^verbatim>\<open>__dbg_print\<close>, \<^verbatim>\<open>strtoul\<close>, \<^verbatim>\<open>mmap\<close>, \<^verbatim>\<open>calloc\<close> and
  the clock are arguments, recursive mutexes, condition variables and files are modelled (\<open>Threads\<close>, \<open>Events\<close>,
  \<open>Unix_Files\<close>).  A write to an ordinary file writes all its bytes: short writes and a full disk
  are not modelled.  A recursive mutex is its owner and its depth, as the thread library documents it; the code
  only calls it.  \<^verbatim>\<open>mmap\<close> and \<^verbatim>\<open>mprotect\<close> round lengths to pages in the width of the machine.  The steps of \<open>event_step\<close>
  that set and reset an event are the locked parts of \<^verbatim>\<open>NtSetEvent\<close> and \<^verbatim>\<open>NtResetEvent\<close>, and lemmas of \<open>Events_Spec\<close> tie them,
  and the last step of a wait, to the functions.  The callbacks of the tables are arguments, with a total order on keys as hypothesis.

  Not modelled.
  \<^item> The branches for Windows, FreeBSD and macOS; the model is the Linux build for x86_64.
  \<^item> Assembly: the switch of stacks, the register of the thread block, the stub dispatcher.
  \<^item> Text of the log, and the tables of \<^verbatim>\<open>str.c\<close> from constants to their names, which only it uses.
  \<^item> One-line wrappers of C library functions in \<^verbatim>\<open>crt.c\<close> and the mode of the terminal in \<^verbatim>\<open>io.c\<close>.
  \<^item> The sample programs \<^verbatim>\<open>autochk.c\<close>, \<^verbatim>\<open>mmgr.c\<close>, \<^verbatim>\<open>volumeinfo.c\<close>, which are not part of the loader.
  \<^item> The lower case and digit tables of \<^verbatim>\<open>wine_casemap.h\<close>, which nothing reads.
  \<^item> Opening and reading the executable in \<^verbatim>\<open>main\<close> and its signal handlers; the fields of the thread
    and process blocks that are zero; \<^verbatim>\<open>DbgBreakPoint\<close> (a trap), \<^verbatim>\<open>NtOpenEvent\<close> and \<^verbatim>\<open>NtOpenSection\<close> (a
    constant).
\<close>

end
